(* ===== verification/Prelude.thy ===== *)
theory Prelude
  imports Complex_Main "HOL-Library.AList"
begin

text \<open>
  Shared vocabulary of the Veridex development: Python exceptions as values of a sum type,
  the guard idiom \<open>if cond: reasons.append(code)\<close>, Python dictionaries as insertion
  ordered association lists, and the lemma collections the component theories use.
\<close>

section \<open>Lemma collections\<close>

named_theorems fl_simps \<open>comparison and arithmetic of Python floats\<close>
named_theorems gate_defs \<open>definitions of the deny-by-default gates\<close>
named_theorems provider_defs \<open>definitions of the durable session-state provider\<close>
named_theorems safety_defs \<open>definitions of the emergency stop\<close>
named_theorems keeps_intros \<open>invariants of stateful code, one rule per construct\<close>

section \<open>Exceptions as values\<close>

datatype py_error =
    ValueError
  | FailClosed
  | ZeroDivisionError
  | OverflowError
  | AssertionError
  | KeyError | TypeError | AttributeError | ReArmDenied
  | VenueError | RuntimeError
  | DuplicateLeaseError | DuplicateAttemptError | DeploymentAttemptTransitionError
  | CompetitionStatusClaimError | RosterAdmissionError
  | CompetitionConflictError | CompetitionIntegrityError
  | RosterInstanceNotFoundError | RosterInstanceNotOwnedError
  | CompetitionStateError | ExecutionTransitionError | StaleVenueBook

type_synonym 'a result = "py_error + 'a"

definition rbind :: "'a result \<Rightarrow> ('a \<Rightarrow> 'b result) \<Rightarrow> 'b result" where
  "rbind r f = (case r of Inl e \<Rightarrow> Inl e | Inr x \<Rightarrow> f x)"

lemma rbind_simps [simp]:
  "rbind (Inl e) f = Inl e"
  "rbind (Inr x) f = f x"
  by (simp_all add: rbind_def)

lemma rbind_Inr_iff: "rbind r f = Inr y \<longleftrightarrow> (\<exists>x. r = Inr x \<and> f x = Inr y)"
  by (cases r) auto

lemma rbind_Inl_iff: "rbind r f = Inl e \<longleftrightarrow> r = Inl e \<or> (\<exists>x. r = Inr x \<and> f x = Inl e)"
  by (cases r) auto

text \<open>A list comprehension whose body may raise stops at the first exception.\<close>

fun rtraverse :: "('a \<Rightarrow> 'b result) \<Rightarrow> 'a list \<Rightarrow> 'b list result" where
  "rtraverse f [] = Inr []"
| "rtraverse f (x # xs) = rbind (f x) (\<lambda>y. rbind (rtraverse f xs) (\<lambda>ys. Inr (y # ys)))"

lemma rtraverse_Inr_iff:
  "rtraverse f xs = Inr ys \<longleftrightarrow> list_all2 (\<lambda>x y. f x = Inr y) xs ys"
  by (induction xs arbitrary: ys) (auto simp: rbind_Inr_iff list_all2_Cons1)

lemma rtraverse_InrD:
  assumes "rtraverse f xs = Inr ys" and "x \<in> set xs"
  obtains y where "f x = Inr y" and "y \<in> set ys"
proof -
  from assms have "\<exists>y \<in> set ys. f x = Inr y"
    by (fastforce simp: rtraverse_Inr_iff list_all2_conv_all_nth in_set_conv_nth)
  then show thesis using that by blast
qed

lemma rtraverse_source:
  "rtraverse f xs = Inr ys \<Longrightarrow> y \<in> set ys \<Longrightarrow> \<exists>x \<in> set xs. f x = Inr y"
  by (fastforce simp: rtraverse_Inr_iff list_all2_conv_all_nth in_set_conv_nth)

lemma rtraverse_disj:
  "(\<exists>ys. rtraverse f xs = Inr ys) \<or> (\<exists>e. \<exists>x \<in> set xs. f x = Inl e \<and> rtraverse f xs = Inl e)"
proof (induction xs)
  case (Cons x xs)
  then show ?case by (cases "f x") auto
qed simp

lemma rtraverse_total:
  assumes "\<And>x. x \<in> set xs \<Longrightarrow> f x = Inr (g x)"
  shows "rtraverse f xs = Inr (map g xs)"
  using assms by (induction xs) auto

section \<open>Stateful code that may raise\<close>

text \<open>What the code did to the state before it raised stays done.\<close>

type_synonym ('s, 'a) eff = "'s \<Rightarrow> 'a result \<times> 's"

definition ereturn :: "'a \<Rightarrow> ('s, 'a) eff" where
  "ereturn x = (\<lambda>s. (Inr x, s))"

definition eraise :: "py_error \<Rightarrow> ('s, 'a) eff" where
  "eraise e = (\<lambda>s. (Inl e, s))"

definition elift :: "'a result \<Rightarrow> ('s, 'a) eff" where
  "elift r = (\<lambda>s. (r, s))"

definition ebind :: "('s, 'a) eff \<Rightarrow> ('a \<Rightarrow> ('s, 'b) eff) \<Rightarrow> ('s, 'b) eff" where
  "ebind m f = (\<lambda>s. case m s of (Inl e, s') \<Rightarrow> (Inl e, s') | (Inr x, s') \<Rightarrow> f x s')"

text \<open>A statement that only changes the state, and a \<open>for\<close> loop.\<close>

definition eupdate :: "('s \<Rightarrow> 's) \<Rightarrow> ('s, unit) eff" where
  "eupdate f = (\<lambda>s. (Inr (), f s))"

definition eread :: "('s \<Rightarrow> 'a) \<Rightarrow> ('s, 'a) eff" where
  "eread f = (\<lambda>s. (Inr (f s), s))"

fun efor :: "'a list \<Rightarrow> ('a \<Rightarrow> ('s, unit) eff) \<Rightarrow> ('s, unit) eff" where
  "efor [] f = ereturn ()"
| "efor (x # xs) f = ebind (f x) (\<lambda>_. efor xs f)"

lemma ebind_simps [simp]:
  "ebind (ereturn x) f = f x"
  "ebind (eraise e) f = eraise e"
  "ebind (elift (Inl e)) f = eraise e"
  "ebind (elift (Inr x)) f = f x"
  by (simp_all add: ebind_def ereturn_def eraise_def elift_def fun_eq_iff)

lemma eff_apply:
  "ereturn x s = (Inr x, s)" "eraise e s = (Inl e, s)" "elift r s = (r, s)"
  "eupdate f s = (Inr (), f s)" "eread g s = (Inr (g s), s)"
  by (simp_all add: ereturn_def eraise_def elift_def eupdate_def eread_def)

lemma ebind_apply: "ebind m f s = (case m s of (Inl e, s') \<Rightarrow> (Inl e, s') | (Inr x, s') \<Rightarrow> f x s')"
  by (simp add: ebind_def)

lemma ebind_eread [simp]: "ebind (eread g) h s = h (g s) s"
  by (simp add: ebind_def eread_def)

lemma ebind_Inr: "m s = (Inr x, s') \<Longrightarrow> ebind m f s = f x s'"
  by (simp add: ebind_def)

lemma ebind_Inl: "m s = (Inl e, s') \<Longrightarrow> ebind m f s = (Inl e, s')"
  by (simp add: ebind_def)

lemma ebind_eq_Inr_iff:
  "ebind m f s = (Inr y, s'') \<longleftrightarrow> (\<exists>x s'. m s = (Inr x, s') \<and> f x s' = (Inr y, s''))"
  by (auto simp: ebind_def split: prod.splits sum.splits)

lemma efor_append: "efor (xs @ ys) f = ebind (efor xs f) (\<lambda>_. efor ys f)"
  by (induction xs) (auto simp: ebind_def ereturn_def fun_eq_iff split: prod.splits sum.splits)

text \<open>A loop whose body succeeds on the states it meets: the invariant is indexed by the rest.\<close>

lemma efor_run:
  assumes "\<And>x s. x \<in> set xs \<Longrightarrow> P s \<Longrightarrow> f x s = (Inr (), step x s) \<and> P (step x s)" and "P s"
  shows "efor xs f s = (Inr (), fold step xs s) \<and> P (fold step xs s)"
  using assms
proof (induction xs arbitrary: s)
  case (Cons x xs)
  then have "f x s = (Inr (), step x s)" "P (step x s)" by auto
  with Cons show ?case by (simp add: ebind_Inr)
qed (simp add: ereturn_def)

subsection \<open>Triples\<close>

text \<open>
  Partial-correctness triples with a postcondition for a normal return and one for an exception, and
  invariants that hold however a computation ends.
\<close>

definition triple :: "('s \<Rightarrow> bool) \<Rightarrow> ('s, 'a) eff \<Rightarrow> ('a \<Rightarrow> 's \<Rightarrow> bool) \<Rightarrow> (py_error \<Rightarrow> 's \<Rightarrow> bool) \<Rightarrow> bool" where
  "triple P m Q E \<longleftrightarrow> (\<forall>s. P s \<longrightarrow> (case m s of (Inr x, s') \<Rightarrow> Q x s' | (Inl e, s') \<Rightarrow> E e s'))"

definition keeps :: "('s \<Rightarrow> bool) \<Rightarrow> ('s, 'a) eff \<Rightarrow> bool" where
  "keeps I m \<longleftrightarrow> (\<forall>s. I s \<longrightarrow> I (snd (m s)))"

lemma keeps_iff_triple: "keeps I m \<longleftrightarrow> triple I m (\<lambda>_. I) (\<lambda>_. I)"
  unfolding keeps_def triple_def by (intro all_cong) (auto split: prod.split sum.split)

lemma keepsD: "keeps I m \<Longrightarrow> I s \<Longrightarrow> I (snd (m s))"
  by (simp add: keeps_def)

lemma triple_Inr: "triple P m Q E \<Longrightarrow> P s \<Longrightarrow> m s = (Inr x, s') \<Longrightarrow> Q x s'"
  by (fastforce simp: triple_def)

lemma triple_Inl: "triple P m Q E \<Longrightarrow> P s \<Longrightarrow> m s = (Inl e, s') \<Longrightarrow> E e s'"
  by (fastforce simp: triple_def)

lemma triple_conseq:
  "triple P m Q E \<Longrightarrow> (\<And>s. P' s \<Longrightarrow> P s) \<Longrightarrow> (\<And>x s. Q x s \<Longrightarrow> Q' x s) \<Longrightarrow> (\<And>e s. E e s \<Longrightarrow> E' e s) \<Longrightarrow> triple P' m Q' E'"
  by (fastforce simp: triple_def split: prod.splits sum.splits)

lemma triple_ebind:
  assumes "triple P m R E" and "\<And>x. triple (R x) (f x) Q E"
  shows "triple P (ebind m f) Q E"
  using assms by (fastforce simp: triple_def ebind_apply split: prod.splits sum.splits)

lemma triple_simps:
  "triple P (ereturn x) Q E \<longleftrightarrow> (\<forall>s. P s \<longrightarrow> Q x s)"
  "triple P (eraise e) Q E \<longleftrightarrow> (\<forall>s. P s \<longrightarrow> E e s)"
  "triple P (eupdate g) Q2 E \<longleftrightarrow> (\<forall>s. P s \<longrightarrow> Q2 () (g s))"
  "triple P (eread h) Q3 E \<longleftrightarrow> (\<forall>s. P s \<longrightarrow> Q3 (h s) s)"
  "triple P (elift r) Q E \<longleftrightarrow> (\<forall>s. P s \<longrightarrow> (case r of Inr y \<Rightarrow> Q y s | Inl e \<Rightarrow> E e s))"
  by (auto simp: triple_def eff_apply split: sum.splits)

lemma triple_efor:
  assumes "\<And>x. x \<in> set xs \<Longrightarrow> triple I (f x) (\<lambda>_. I) E"
  shows "triple I (efor xs f) (\<lambda>_. I) E"
  using assms by (induction xs) (auto simp: triple_simps intro!: triple_ebind)

lemma keeps_triple:
  assumes "keeps I m" and "\<And>e s. I s \<Longrightarrow> E e s"
  shows "triple (\<lambda>s. C \<and> I s) m (\<lambda>_ s. C \<and> I s) E"
  unfolding triple_def
proof (intro allI impI)
  fix s assume "C \<and> I s"
  with assms(1) have "I (snd (m s))" by (simp add: keepsD)
  with \<open>C \<and> I s\<close> assms(2) show "case m s of (Inl e, s') \<Rightarrow> E e s' | (Inr x, s') \<Rightarrow> C \<and> I s'"
    by (cases "m s"; cases "fst (m s)") auto
qed

lemma triple_pure: "(C \<Longrightarrow> triple P m Q E) \<Longrightarrow> triple (\<lambda>s. C \<and> P s) m Q E"
  by (simp add: triple_def)

lemma triple_ex: "(\<And>x. triple (P x) m Q E) \<Longrightarrow> triple (\<lambda>s. \<exists>x. P x s) m Q E"
  unfolding atomize_all triple_def by (intro allI impI, elim exE, drule spec, drule spec, erule mp)

lemma tripleI: "(\<And>s x s'. P s \<Longrightarrow> m s = (Inr x, s') \<Longrightarrow> Q x s') \<Longrightarrow> (\<And>s e s'. P s \<Longrightarrow> m s = (Inl e, s') \<Longrightarrow> E e s') \<Longrightarrow> triple P m Q E"
  unfolding triple_def by (auto split: prod.split sum.split)

lemma triple_frame: "triple P m Q E \<Longrightarrow> triple (\<lambda>s. C \<and> P s) m (\<lambda>x s. C \<and> Q x s) E"
  by (rule tripleI) (auto dest: triple_Inr triple_Inl)

lemma triple_conj:
  "triple P m Q E \<Longrightarrow> triple P' m Q' E' \<Longrightarrow> triple (\<lambda>s. P s \<and> P' s) m (\<lambda>x s. Q x s \<and> Q' x s) (\<lambda>e s. E e s \<and> E' e s)"
  by (rule tripleI) (auto dest: triple_Inr triple_Inl)

lemma keeps_ereturn [keeps_intros]: "keeps I (ereturn x)"
  and keeps_eraise [keeps_intros]: "keeps I (eraise e)"
  and keeps_elift [keeps_intros]: "keeps I (elift r)"
  and keeps_eread [keeps_intros]: "keeps I (eread g)"
  by (simp_all add: keeps_def eff_apply)

lemma keeps_eupdate [keeps_intros]: "(\<And>s. I s \<Longrightarrow> I (g s)) \<Longrightarrow> keeps I (eupdate g)"
  by (simp add: keeps_def eff_apply)

lemma keeps_ebind [keeps_intros]: "keeps I m \<Longrightarrow> (\<And>x. keeps I (f x)) \<Longrightarrow> keeps I (ebind m f)"
  by (fastforce simp: keeps_def ebind_apply split: prod.splits sum.splits)

lemma keeps_efor [keeps_intros]: "(\<And>x. x \<in> set xs \<Longrightarrow> keeps I (f x)) \<Longrightarrow> keeps I (efor xs f)"
  by (induction xs) (auto intro!: keeps_intros)

lemma keeps_if [keeps_intros]: "(b \<Longrightarrow> keeps I m) \<Longrightarrow> (\<not> b \<Longrightarrow> keeps I m') \<Longrightarrow> keeps I (if b then m else m')"
  by simp

lemma keeps_case_option [keeps_intros]:
  "(x = None \<Longrightarrow> keeps I m) \<Longrightarrow> (\<And>y. x = Some y \<Longrightarrow> keeps I (f y)) \<Longrightarrow> keeps I (case x of None \<Rightarrow> m | Some y \<Rightarrow> f y)"
  by (cases x) simp_all

lemma keeps_case_prod [keeps_intros]:
  "(\<And>a b. x = (a, b) \<Longrightarrow> keeps I (f a b)) \<Longrightarrow> keeps I (case x of (a, b) \<Rightarrow> f a b)"
  by (cases x) simp

section \<open>Collecting reason codes\<close>

text \<open>One line \<open>if cond: reasons.append(code)\<close>.\<close>

definition flag :: "bool \<Rightarrow> 'r \<Rightarrow> 'r list" where
  "flag c r = (if c then [r] else [])"

lemma set_flag [simp]: "set (flag c r) = (if c then {r} else {})"
  by (simp add: flag_def)

lemma flag_eq_Nil [simp]: "flag c r = [] \<longleftrightarrow> \<not> c"
  by (simp add: flag_def)

section \<open>Dictionaries\<close>

text \<open>
  A Python dict is an association list without repeated keys, in insertion order:
  assignment to a present key keeps its position, assignment to a new key appends.
  \<^const>\<open>AList.update\<close>, \<^const>\<open>AList.delete\<close> and \<^const>\<open>map_of\<close> are
  \<open>d[k] = v\<close>, \<open>del d[k]\<close> and \<open>d.get(k)\<close>.
\<close>

type_synonym ('k, 'v) dict = "('k \<times> 'v) list"

definition dict_ok :: "('k, 'v) dict \<Rightarrow> bool" where
  "dict_ok d \<longleftrightarrow> distinct (map fst d)"

definition count_values :: "('v \<Rightarrow> bool) \<Rightarrow> ('k, 'v) dict \<Rightarrow> nat" where
  "count_values P d = length (filter (\<lambda>(k, v). P v) d)"

lemma dict_ok_Nil [simp]: "dict_ok []"
  by (simp add: dict_ok_def)

lemma dict_ok_update [intro]: "dict_ok d \<Longrightarrow> dict_ok (AList.update k v d)"
  by (simp add: dict_ok_def distinct_update)

lemma dict_ok_delete [intro]: "dict_ok d \<Longrightarrow> dict_ok (AList.delete k d)"
  by (simp add: dict_ok_def distinct_delete)

lemma update_new_append:
  "map_of d k = None \<Longrightarrow> AList.update k v d = d @ [(k, v)]"
  by (induction d) (auto split: if_splits)

lemma count_values_update_new:
  "map_of d k = None \<Longrightarrow>
   count_values P (AList.update k v d) = count_values P d + (if P v then 1 else 0)"
  by (simp add: count_values_def update_new_append)

lemma count_values_update_old:
  assumes "map_of d k = Some v"
  shows "count_values P (AList.update k v' d) + (if P v then 1 else 0)
    = count_values P d + (if P v' then 1 else 0)"
  using assms
  by (induction d) (auto simp: count_values_def split: if_splits)

lemma count_values_update_same:
  "map_of d k = Some v \<Longrightarrow> P v = P v' \<Longrightarrow> count_values P (AList.update k v' d) = count_values P d"
  using count_values_update_old [of d k v P v'] by simp

lemma count_values_delete:
  assumes "dict_ok d" and "map_of d k = Some v"
  shows "count_values P (AList.delete k d) + (if P v then 1 else 0) = count_values P d"
  using assms
proof (induction d)
  case Nil
  then show ?case by simp
next
  case (Cons p d)
  show ?case
  proof (cases "fst p = k")
    case True
    with Cons.prems have "k \<notin> fst ` set d" by (auto simp: dict_ok_def)
    then have "AList.delete k d = d" by (simp add: delete_idem)
    with True Cons.prems show ?thesis by (cases p) (simp add: count_values_def)
  next
    case False
    with Cons show ?thesis
      by (cases p) (auto simp: count_values_def dict_ok_def split: if_splits)
  qed
qed

lemma count_values_eq_0_iff:
  "count_values P d = 0 \<longleftrightarrow> (\<forall>(k, v) \<in> set d. \<not> P v)"
  by (auto simp: count_values_def filter_empty_conv)

lemma count_values_unique:
  assumes "dict_ok d" and "count_values P d \<le> 1"
    and "map_of d a = Some v" and "P v" and "map_of d b = Some w" and "P w"
  shows "a = b"
proof (rule ccontr)
  assume "a \<noteq> b"
  then have "map_of (AList.delete a d) b = Some w" using assms(5) by (simp add: delete_conv')
  then have "(b, w) \<in> set (AList.delete a d)" by (rule map_of_SomeD)
  then have "count_values P (AList.delete a d) \<noteq> 0"
    using assms(6) unfolding count_values_eq_0_iff by blast
  with count_values_delete [OF assms(1,3), of P] assms(2,4) show False by simp
qed

lemma count_values_mono:
  "(\<And>v. P v \<Longrightarrow> Q v) \<Longrightarrow> count_values P d \<le> count_values Q d"
  unfolding count_values_def by (induction d) auto

text \<open>Grouping with \<open>d.setdefault(key, []).append(row)\<close>.\<close>

definition setdefault_append :: "'k \<Rightarrow> 'v \<Rightarrow> ('k, 'v list) dict \<Rightarrow> ('k, 'v list) dict" where
  "setdefault_append k v d =
     AList.update k ((case map_of d k of None \<Rightarrow> [] | Some vs \<Rightarrow> vs) @ [v]) d"

fun group_rows :: "('v \<Rightarrow> 'k) \<Rightarrow> 'v list \<Rightarrow> ('k, 'v list) dict \<Rightarrow> ('k, 'v list) dict" where
  "group_rows key [] d = d"
| "group_rows key (v # vs) d = group_rows key vs (setdefault_append (key v) v d)"

lemma map_of_setdefault_append:
  "map_of (setdefault_append k v d) k' =
     (if k' = k then Some ((case map_of d k of None \<Rightarrow> [] | Some vs \<Rightarrow> vs) @ [v])
      else map_of d k')"
  by (simp add: setdefault_append_def update_conv')

lemma dict_ok_group_rows: "dict_ok d \<Longrightarrow> dict_ok (group_rows key vs d)"
  by (induction vs arbitrary: d) (auto simp: setdefault_append_def)

lemma dom_group_rows:
  "fst ` set (group_rows key vs d) = fst ` set d \<union> key ` set vs"
  by (induction vs arbitrary: d) (auto simp: setdefault_append_def dom_update)

lemma map_of_group_rows:
  "map_of (group_rows key vs d) k =
     (case map_of d k of
        None \<Rightarrow> (if k \<in> key ` set vs then Some (filter (\<lambda>v. key v = k) vs) else None)
      | Some us \<Rightarrow> Some (us @ filter (\<lambda>v. key v = k) vs))"
proof (induction vs arbitrary: d)
  case Nil
  then show ?case by (simp split: option.splits)
next
  case (Cons v vs)
  show ?case
    by (auto simp: Cons.IH map_of_setdefault_append split: option.splits)
qed

section \<open>Sorted lists\<close>

lemma sorted_le_last: "sorted (map key xs) \<Longrightarrow> x \<in> set xs \<Longrightarrow> key x \<le> key (last xs)"
  by (induction xs) auto

lemma sort_key_eq_Nil [simp]: "sort_key f xs = [] \<longleftrightarrow> xs = []"
  by (metis length_0_conv length_sort)

end
