(* ===== verification/PyFloat.thy ===== *)
theory PyFloat
  imports Prelude "HOL-Library.Log_Nat"
begin

text \<open>
  Python's \<open>float\<close>: IEEE-754 binary64 with round-half-to-even. A finite float is the
  rational it denotes; the exact result of an operation is rounded to the nearest double by
  \<open>fl_round\<close>. Comparisons are exact and false on NaN. The sign of zero is not kept:
  Python's comparisons and the arithmetic used by the program do not observe it.
\<close>

section \<open>Values and comparison\<close>

datatype pyfloat = Fin rat | PInf | NInf | NaN

fun fl_lt :: "pyfloat \<Rightarrow> pyfloat \<Rightarrow> bool" where
  "fl_lt (Fin a) (Fin b) = (a < b)"
| "fl_lt (Fin a) PInf = True"
| "fl_lt NInf (Fin b) = True"
| "fl_lt NInf PInf = True"
| "fl_lt _ _ = False"

fun fl_le :: "pyfloat \<Rightarrow> pyfloat \<Rightarrow> bool" where
  "fl_le (Fin a) (Fin b) = (a \<le> b)"
| "fl_le (Fin a) PInf = True"
| "fl_le NInf (Fin b) = True"
| "fl_le NInf PInf = True"
| "fl_le PInf PInf = True"
| "fl_le NInf NInf = True"
| "fl_le _ _ = False"

fun isfinite :: "pyfloat \<Rightarrow> bool" where
  "isfinite (Fin _) = True"
| "isfinite _ = False"

definition isnan :: "pyfloat \<Rightarrow> bool" where
  "isnan x \<longleftrightarrow> x = NaN"

abbreviation fl_zero :: pyfloat where "fl_zero \<equiv> Fin 0"
abbreviation fl_one :: pyfloat where "fl_one \<equiv> Fin 1"

text \<open>
  \<open>max(a, b)\<close> keeps its first argument unless the second compares greater, so
  \<open>max(0.0, nan)\<close> is \<open>0.0\<close>; \<open>min\<close> likewise.
\<close>

definition py_max :: "pyfloat \<Rightarrow> pyfloat \<Rightarrow> pyfloat" where
  "py_max a b = (if fl_lt a b then b else a)"

definition py_min :: "pyfloat \<Rightarrow> pyfloat \<Rightarrow> pyfloat" where
  "py_min a b = (if fl_lt b a then b else a)"

section \<open>Rounding to binary64\<close>

definition pow2 :: "int \<Rightarrow> rat" where
  "pow2 e = (if 0 \<le> e then 2 ^ nat e else 1 / 2 ^ nat (- e))"

text \<open>Round to the nearest integer, ties to even: Python's \<open>round(x)\<close>.\<close>

definition rne :: "rat \<Rightarrow> int" where
  "rne x = (let f = \<lfloor>x\<rfloor>; d = x - of_int f in
     if d < 1 / 2 then f else if 1 / 2 < d then f + 1 else if even f then f else f + 1)"

text \<open>The binary exponent: \<open>2 ^ ilog2 x \<le> x < 2 ^ (ilog2 x + 1)\<close> for positive \<open>x\<close>.\<close>

definition ilog2 :: "rat \<Rightarrow> int" where
  "ilog2 x = (let (p, q) = quotient_of x;
                  e = bitlen p - bitlen q
              in if pow2 e \<le> x then e else e - 1)"

definition ulp_exp :: "rat \<Rightarrow> int" where
  "ulp_exp x = (if x = 0 then - 1074 else max (ilog2 \<bar>x\<bar> - 52) (- 1074))"

definition fl_snap :: "rat \<Rightarrow> rat" where
  "fl_snap x = of_int (rne (x / pow2 (ulp_exp x))) * pow2 (ulp_exp x)"

definition fl_round :: "rat \<Rightarrow> pyfloat" where
  "fl_round x = (let y = fl_snap x in
     if y \<ge> pow2 1024 then PInf else if y \<le> - pow2 1024 then NInf else Fin y)"

section \<open>Arithmetic\<close>

fun fl_neg :: "pyfloat \<Rightarrow> pyfloat" where
  "fl_neg (Fin a) = Fin (- a)"
| "fl_neg PInf = NInf"
| "fl_neg NInf = PInf"
| "fl_neg NaN = NaN"

fun fl_abs :: "pyfloat \<Rightarrow> pyfloat" where
  "fl_abs (Fin a) = Fin \<bar>a\<bar>"
| "fl_abs PInf = PInf"
| "fl_abs NInf = PInf"
| "fl_abs NaN = NaN"

fun fl_add :: "pyfloat \<Rightarrow> pyfloat \<Rightarrow> pyfloat" where
  "fl_add (Fin a) (Fin b) = fl_round (a + b)"
| "fl_add NaN _ = NaN"
| "fl_add _ NaN = NaN"
| "fl_add PInf NInf = NaN"
| "fl_add NInf PInf = NaN"
| "fl_add PInf _ = PInf"
| "fl_add NInf _ = NInf"
| "fl_add (Fin _) b = b"

definition fl_sub :: "pyfloat \<Rightarrow> pyfloat \<Rightarrow> pyfloat" where
  "fl_sub a b = fl_add a (fl_neg b)"

definition fl_sgn :: "pyfloat \<Rightarrow> rat" where
  "fl_sgn x = (case x of Fin a \<Rightarrow> sgn a | PInf \<Rightarrow> 1 | NInf \<Rightarrow> - 1 | NaN \<Rightarrow> 0)"

fun fl_mul :: "pyfloat \<Rightarrow> pyfloat \<Rightarrow> pyfloat" where
  "fl_mul (Fin a) (Fin b) = fl_round (a * b)"
| "fl_mul a b =
     (if a = NaN \<or> b = NaN \<or> fl_sgn a * fl_sgn b = 0 then NaN
      else if 0 < fl_sgn a * fl_sgn b then PInf else NInf)"

text \<open>Division raises on a zero divisor.\<close>

definition fl_div :: "pyfloat \<Rightarrow> pyfloat \<Rightarrow> pyfloat result" where
  "fl_div a b =
     (if b = Fin 0 then Inl ZeroDivisionError
      else Inr (case (a, b) of
          (Fin x, Fin y) \<Rightarrow> fl_round (x / y)
        | (NaN, _) \<Rightarrow> NaN
        | (_, NaN) \<Rightarrow> NaN
        | (Fin _, _) \<Rightarrow> Fin 0
        | (_, Fin y) \<Rightarrow> (if 0 < fl_sgn a * sgn y then PInf else NInf)
        | _ \<Rightarrow> NaN))"

text \<open>
  \<open>int / int\<close> is the correctly rounded exact quotient; it raises on zero and on
  overflow, and so does \<open>float(int)\<close>.
\<close>

definition fl_fit :: "pyfloat \<Rightarrow> pyfloat result" where
  "fl_fit x = (if isfinite x then Inr x else Inl OverflowError)"

definition int_truediv :: "int \<Rightarrow> int \<Rightarrow> pyfloat result" where
  "int_truediv a b =
     (if b = 0 then Inl ZeroDivisionError else fl_fit (fl_round (of_int a / of_int b)))"

definition float_of_int :: "int \<Rightarrow> pyfloat result" where
  "float_of_int n = fl_fit (fl_round (of_int n))"

text \<open>\<open>round(x)\<close> to an int and \<open>round(x, 5)\<close>: correctly rounded decimal, ties to even.\<close>

definition py_round_int :: "pyfloat \<Rightarrow> int result" where
  "py_round_int x = (case x of Fin a \<Rightarrow> Inr (rne a) | NaN \<Rightarrow> Inl ValueError | _ \<Rightarrow> Inl OverflowError)"

definition py_round_dp :: "nat \<Rightarrow> pyfloat \<Rightarrow> pyfloat" where
  "py_round_dp n x = (case x of Fin a \<Rightarrow> fl_round (of_int (rne (a * 10 ^ n)) / 10 ^ n) | _ \<Rightarrow> x)"

text \<open>\<open>sum(xs)\<close> of floats: left to right from the integer 0 (Python 3.11).\<close>

definition fl_sum :: "pyfloat list \<Rightarrow> pyfloat" where
  "fl_sum xs = foldl fl_add fl_zero xs"

text \<open>The rationals \<open>m * 2^e\<close> a double can hold (overflow apart).\<close>

definition is_double :: "rat \<Rightarrow> bool" where
  "is_double x \<longleftrightarrow> (\<exists>m e. x = of_int m * pow2 e \<and> \<bar>m\<bar> \<le> 2 ^ 53 \<and> - 1074 \<le> e)"

section \<open>Rounding is monotone, odd, and exact on doubles\<close>

lemma pow2_powi: "pow2 e = 2 powi e"
  by (simp add: pow2_def power_int_def power_one_over)

lemma pow2_pos [simp]: "0 < pow2 e"
  by (simp add: pow2_powi)

lemma pow2_neq_0 [simp]: "pow2 e \<noteq> 0"
  by (simp add: pow2_powi)

lemma pow2_add: "pow2 (a + b) = pow2 a * pow2 b"
  by (simp add: pow2_powi power_int_add)

lemma pow2_mono: "a \<le> b \<Longrightarrow> pow2 a \<le> pow2 b"
  by (simp add: pow2_powi power_int_increasing)

lemma pow2_strict_mono: "a < b \<Longrightarrow> pow2 a < pow2 b"
  by (simp add: pow2_powi power_int_strict_increasing)

lemma pow2_less_cancel: "pow2 a < pow2 b \<Longrightarrow> a < b"
  by (meson linorder_not_less pow2_mono)

lemma pow2_nat: "0 \<le> e \<Longrightarrow> pow2 e = 2 ^ nat e"
  by (simp add: pow2_def)

lemma pow2_nonneg [simp]: "0 \<le> pow2 e"
  by (simp add: less_imp_le)

lemma pow2_add52: "pow2 (e + 52) = of_int (2 ^ 52) * pow2 e"
  using pow2_add [of e 52] by (simp add: pow2_nat)

lemma pow2_add53: "pow2 (e + 53) = of_int (2 ^ 53) * pow2 e"
  using pow2_add [of e 53] by (simp add: pow2_nat)

lemma rne_of_int [simp]: "rne (of_int n) = n"
  by (simp add: rne_def)

lemma rne_bounds: "x - 1 / 2 \<le> of_int (rne x)" "of_int (rne x) \<le> x + 1 / 2"
proof -
  have f: "of_int \<lfloor>x\<rfloor> \<le> x" "x < of_int \<lfloor>x\<rfloor> + 1" by linarith+
  show "x - 1 / 2 \<le> of_int (rne x)" "of_int (rne x) \<le> x + 1 / 2"
    using f unfolding rne_def Let_def by (auto; linarith)+
qed

lemma rne_mono: "x \<le> y \<Longrightarrow> rne x \<le> rne y"
proof -
  assume xy: "x \<le> y"
  show ?thesis
  proof (cases "\<lfloor>x\<rfloor> = \<lfloor>y\<rfloor>")
    case True
    with xy show ?thesis by (auto simp: rne_def Let_def)
  next
    case False
    with xy have "\<lfloor>x\<rfloor> + 1 \<le> \<lfloor>y\<rfloor>" by (meson floor_mono zless_imp_add1_zle order_le_less)
    moreover have "rne x \<le> \<lfloor>x\<rfloor> + 1" "\<lfloor>y\<rfloor> \<le> rne y" by (auto simp: rne_def Let_def)
    ultimately show ?thesis by linarith
  qed
qed

lemma rne_ge_int: "of_int n \<le> x \<Longrightarrow> n \<le> rne x"
  using rne_mono [of "of_int n" x] by simp

lemma rne_le_int: "x \<le> of_int n \<Longrightarrow> rne x \<le> n"
  using rne_mono [of x "of_int n"] by simp

lemma rne_minus: "rne (- x) = - rne x"
proof (cases "x = of_int \<lfloor>x\<rfloor>")
  case True
  then obtain n where "x = of_int n" by blast
  then show ?thesis
    by (metis of_int_minus rne_of_int)
next
  case False
  then have fl: "\<lfloor>- x\<rfloor> = - \<lfloor>x\<rfloor> - 1"
    using ceiling_altdef [of x] by (simp add: ceiling_def)
  show ?thesis
    unfolding rne_def Let_def fl
    by (auto simp: field_simps)
qed

lemma bitlen_bounds_pow2:
  assumes "0 < n"
  shows "1 \<le> bitlen n" "pow2 (bitlen n - 1) \<le> of_int n" "of_int n < pow2 (bitlen n)"
proof -
  have nz: "bitlen n \<noteq> 0" using assms by (simp add: bitlen_eq_zero_iff)
  then show b: "1 \<le> bitlen n" using bitlen_nonneg [of n] by linarith
  from bitlen_bounds [OF assms]
  have "of_int (2 ^ nat (bitlen n - 1)) \<le> (of_int n :: rat)"
    and "(of_int n :: rat) < of_int (2 ^ nat (bitlen n))"
    by (simp_all only: of_int_le_iff of_int_less_iff)
  then show "pow2 (bitlen n - 1) \<le> of_int n" "of_int n < pow2 (bitlen n)"
    using b by (simp_all add: pow2_nat)
qed

lemma ilog2_bounds:
  assumes "0 < x"
  shows "pow2 (ilog2 x) \<le> x" "x < pow2 (ilog2 x + 1)"
proof -
  obtain p q where pq: "quotient_of x = (p, q)" by (cases "quotient_of x")
  then have q: "0 < q" and x: "x = of_int p / of_int q"
    by (auto simp: quotient_of_denom_pos quotient_of_div)
  with assms have p: "0 < p" by (simp add: zero_less_divide_iff)
  have bp: "pow2 (bitlen p - 1) \<le> of_int p" "of_int p < pow2 (bitlen p)"
    and bq: "pow2 (bitlen q - 1) \<le> of_int q" "of_int q < pow2 (bitlen q)"
    and bl: "1 \<le> bitlen p" "1 \<le> bitlen q"
    using bitlen_bounds_pow2 [OF p] bitlen_bounds_pow2 [OF q] by auto
  let ?e = "bitlen p - bitlen q"
  have up: "x < pow2 (?e + 1)"
  proof -
    have "x * pow2 (bitlen q - 1) \<le> x * of_int q"
      using bq assms by (intro mult_left_mono) auto
    also have "\<dots> = of_int p" using q x by simp
    also have "\<dots> < pow2 (bitlen p)" by (rule bp)
    also have "\<dots> = pow2 (?e + 1) * pow2 (bitlen q - 1)" by (simp flip: pow2_add)
    finally show ?thesis by simp
  qed
  have lo: "pow2 (?e - 1) \<le> x"
  proof -
    have "pow2 (?e - 1) * of_int q \<le> pow2 (?e - 1) * pow2 (bitlen q)" using bq by simp
    also have "\<dots> = pow2 (bitlen p - 1)" by (simp flip: pow2_add)
    also have "\<dots> \<le> of_int p" by (rule bp)
    also have "\<dots> = x * of_int q" using q x by simp
    finally show ?thesis using q by simp
  qed
  show "pow2 (ilog2 x) \<le> x" "x < pow2 (ilog2 x + 1)"
    using up lo by (auto simp: ilog2_def pq Let_def)
qed

lemma ilog2_mono: "0 < x \<Longrightarrow> x \<le> y \<Longrightarrow> ilog2 x \<le> ilog2 y"
  using ilog2_bounds(1) [of x] ilog2_bounds(2) [of y]
  by (auto dest!: pow2_less_cancel dest: order_le_less_trans order_trans)

lemma ulp_exp_ge: "- 1074 \<le> ulp_exp x"
  by (simp add: ulp_exp_def)

lemma ulp_exp_upper: "0 < x \<Longrightarrow> x < pow2 (ulp_exp x + 53)"
proof -
  assume x: "0 < x"
  then have "x < pow2 (ilog2 x + 1)" by (rule ilog2_bounds)
  also have "\<dots> \<le> pow2 (ulp_exp x + 53)" using x by (intro pow2_mono) (simp add: ulp_exp_def)
  finally show ?thesis .
qed

lemma ulp_exp_lower: "0 < x \<Longrightarrow> - 1074 < ulp_exp x \<Longrightarrow> pow2 (ulp_exp x + 52) \<le> x"
  using ilog2_bounds(1) [of x] by (auto simp: ulp_exp_def max_def split: if_splits)

lemma ulp_exp_mono: "0 < x \<Longrightarrow> x \<le> y \<Longrightarrow> ulp_exp x \<le> ulp_exp y"
  using ilog2_mono [of x y] by (simp add: ulp_exp_def)

lemma ulp_exp_minus [simp]: "ulp_exp (- x) = ulp_exp x"
  by (simp add: ulp_exp_def)

lemma fl_snap_0 [simp]: "fl_snap 0 = 0"
  using rne_of_int [of 0] by (simp add: fl_snap_def)

lemma fl_snap_minus [simp]: "fl_snap (- x) = - fl_snap x"
  by (simp add: fl_snap_def rne_minus)

lemma fl_snap_nonneg: "0 \<le> x \<Longrightarrow> 0 \<le> fl_snap x"
  using rne_ge_int [of 0 "x / pow2 (ulp_exp x)"]
  unfolding fl_snap_def by (intro mult_nonneg_nonneg) auto

lemma fl_snap_le_pow2: "0 < x \<Longrightarrow> fl_snap x \<le> pow2 (ulp_exp x + 53)"
proof -
  assume x: "0 < x"
  have "x / pow2 (ulp_exp x) \<le> of_int (2 ^ 53)"
    using ulp_exp_upper [OF x] unfolding pow2_add53 by (simp add: divide_le_eq)
  then have "rne (x / pow2 (ulp_exp x)) \<le> 2 ^ 53" by (rule rne_le_int)
  then have "of_int (rne (x / pow2 (ulp_exp x))) \<le> (of_int (2 ^ 53) :: rat)"
    by (simp only: of_int_le_iff)
  then have "fl_snap x \<le> of_int (2 ^ 53) * pow2 (ulp_exp x)"
    unfolding fl_snap_def by (rule mult_right_mono) simp
  also have "\<dots> = pow2 (ulp_exp x + 53)" by (simp only: pow2_add53)
  finally show ?thesis .
qed

lemma fl_snap_ge_pow2:
  "0 < x \<Longrightarrow> - 1074 < ulp_exp x \<Longrightarrow> pow2 (ulp_exp x + 52) \<le> fl_snap x"
proof -
  assume x: "0 < x" and u: "- 1074 < ulp_exp x"
  have "of_int (2 ^ 52) \<le> x / pow2 (ulp_exp x)"
    using ulp_exp_lower [OF x u] unfolding pow2_add52 by (simp add: le_divide_eq)
  then have "2 ^ 52 \<le> rne (x / pow2 (ulp_exp x))" by (rule rne_ge_int)
  then have "(of_int (2 ^ 52) :: rat) \<le> of_int (rne (x / pow2 (ulp_exp x)))"
    by (simp only: of_int_le_iff)
  then have "of_int (2 ^ 52) * pow2 (ulp_exp x) \<le> fl_snap x"
    unfolding fl_snap_def by (rule mult_right_mono) simp
  then show ?thesis by (simp only: pow2_add52)
qed

lemma fl_snap_mono_pos: "0 < x \<Longrightarrow> x \<le> y \<Longrightarrow> fl_snap x \<le> fl_snap y"
proof -
  assume x: "0 < x" and xy: "x \<le> y"
  show ?thesis
  proof (cases "ulp_exp x = ulp_exp y")
    case True
    have "rne (x / pow2 (ulp_exp x)) \<le> rne (y / pow2 (ulp_exp x))"
      using xy by (intro rne_mono divide_right_mono) auto
    with True show ?thesis by (simp add: fl_snap_def)
  next
    case False
    with ulp_exp_mono [OF x xy] have lt: "ulp_exp x + 1 \<le> ulp_exp y" by linarith
    with ulp_exp_ge [of x] have "- 1074 < ulp_exp y" by linarith
    have "fl_snap x \<le> pow2 (ulp_exp x + 53)" using x by (rule fl_snap_le_pow2)
    also have "\<dots> \<le> pow2 (ulp_exp y + 52)" using lt by (intro pow2_mono) linarith
    also have "\<dots> \<le> fl_snap y"
      using x xy \<open>- 1074 < ulp_exp y\<close> by (intro fl_snap_ge_pow2) auto
    finally show ?thesis .
  qed
qed

lemma fl_snap_mono: "x \<le> y \<Longrightarrow> fl_snap x \<le> fl_snap y"
proof -
  assume xy: "x \<le> y"
  consider "0 < x" | "x \<le> 0" "0 \<le> y" | "y < 0" by linarith
  then show ?thesis
  proof cases
    case 1
    then show ?thesis using xy by (rule fl_snap_mono_pos)
  next
    case 2
    then have "0 \<le> fl_snap (- x)" "0 \<le> fl_snap y" by (simp_all only: fl_snap_nonneg neg_0_le_iff_le)
    then show ?thesis by simp
  next
    case 3
    then have "fl_snap (- y) \<le> fl_snap (- x)" using xy by (intro fl_snap_mono_pos) auto
    then show ?thesis by simp
  qed
qed

lemma fl_snap_exact_pos:
  assumes m: "0 < m" "m \<le> 2 ^ 53" and e: "- 1074 \<le> e"
  shows "fl_snap (of_int m * pow2 e) = of_int m * pow2 e"
proof -
  let ?x = "of_int m * pow2 e"
  let ?u = "ulp_exp ?x"
  have pos: "0 < ?x" using m by simp
  have "\<exists>k. ?x = of_int k * pow2 ?u"
  proof (cases "?u \<le> e")
    case True
    have "?x = of_int (m * 2 ^ nat (e - ?u)) * pow2 ?u"
      using True pow2_add [of "e - ?u" ?u] by (simp add: pow2_nat)
    then show ?thesis by blast
  next
    case False
    with e have u: "- 1074 < ?u" by linarith
    have "pow2 (?u + 52) \<le> ?x" using pos u by (rule ulp_exp_lower)
    also have up: "?x \<le> of_int (2 ^ 53) * pow2 e"
      using m by (intro mult_right_mono) (simp_all only: of_int_le_iff, simp_all add: less_imp_le)
    also have e53: "of_int (2 ^ 53) * pow2 e = pow2 (e + 53)" by (simp only: pow2_add53)
    finally have "\<not> e + 53 < ?u + 52" using pow2_strict_mono [of "e + 53" "?u + 52"] by linarith
    with False have eq: "?u + 52 = e + 53" by linarith
    have "pow2 (?u + 52) = pow2 (e + 53)" by (simp only: eq)
    with \<open>pow2 (?u + 52) \<le> ?x\<close> up e53 have "?x = pow2 (?u + 52)" by linarith
    also have "\<dots> = of_int (2 ^ 52) * pow2 ?u" by (rule pow2_add52)
    finally show ?thesis by blast
  qed
  then obtain k where k: "?x = of_int k * pow2 ?u" by blast
  then have "?x / pow2 ?u = of_int k" by (metis nonzero_mult_div_cancel_right pow2_neq_0)
  then show ?thesis unfolding fl_snap_def using k by simp
qed

lemma fl_snap_double: "is_double x \<Longrightarrow> fl_snap x = x"
proof -
  assume "is_double x"
  then obtain m e where x: "x = of_int m * pow2 e" and m: "\<bar>m\<bar> \<le> 2 ^ 53" and e: "- 1074 \<le> e"
    by (auto simp: is_double_def)
  consider "m = 0" | "0 < m" | "m < 0" by linarith
  then show ?thesis
  proof cases
    case 1
    then show ?thesis by (simp add: x)
  next
    case 2
    with m e show ?thesis by (simp add: x fl_snap_exact_pos)
  next
    case 3
    then have "fl_snap (of_int (- m) * pow2 e) = of_int (- m) * pow2 e"
      using m e by (intro fl_snap_exact_pos) auto
    moreover have "of_int (- m) * pow2 e = - x" by (simp add: x)
    ultimately have "- fl_snap x = - x" by (simp only: fl_snap_minus)
    then show ?thesis by simp
  qed
qed

lemma fl_snap_error: "\<bar>fl_snap x - x\<bar> \<le> pow2 (ulp_exp x) / 2"
proof -
  let ?u = "pow2 (ulp_exp x)"
  have "\<bar>of_int (rne (x / ?u)) - x / ?u\<bar> \<le> 1 / 2" using rne_bounds [of "x / ?u"] by linarith
  then have "\<bar>of_int (rne (x / ?u)) - x / ?u\<bar> * ?u \<le> 1 / 2 * ?u" by (rule mult_right_mono) simp
  moreover have "\<bar>of_int (rne (x / ?u)) - x / ?u\<bar> * ?u = \<bar>fl_snap x - x\<bar>"
    using abs_mult_pos [of ?u "of_int (rne (x / ?u)) - x / ?u"]
    by (simp add: fl_snap_def left_diff_distrib)
  ultimately show ?thesis by simp
qed

lemma is_double_int: "\<bar>n\<bar> \<le> 2 ^ 53 \<Longrightarrow> is_double (of_int n)"
  unfolding is_double_def by (intro exI [of _ n] exI [of _ 0]) (simp add: pow2_def)

lemma is_double_pow2: "- 1074 \<le> e \<Longrightarrow> is_double (pow2 e)"
  unfolding is_double_def by (intro exI [of _ 1] exI [of _ e]) simp

lemma fl_round_mono: "x \<le> y \<Longrightarrow> fl_le (fl_round x) (fl_round y)"
  using fl_snap_mono [of x y] pow2_pos [of 1024] by (auto simp: fl_round_def Let_def)

lemma fl_round_0 [simp]: "fl_round 0 = Fin 0"
  using pow2_pos [of 1024] by (simp add: fl_round_def not_le)

lemma fl_round_minus: "fl_round (- x) = fl_neg (fl_round x)"
  unfolding fl_round_def Let_def using pow2_pos [of 1024] by (auto; linarith)

lemma fl_round_not_nan [simp]: "fl_round x \<noteq> NaN"
  by (simp add: fl_round_def Let_def)

lemma fl_round_exact: "is_double x \<Longrightarrow> \<bar>x\<bar> < pow2 1024 \<Longrightarrow> fl_round x = Fin x"
  by (auto simp: fl_round_def fl_snap_double)

lemma fl_round_overflow: "pow2 1024 \<le> x \<Longrightarrow> fl_round x = PInf"
proof -
  assume "pow2 1024 \<le> x"
  then have "fl_snap (pow2 1024) \<le> fl_snap x" by (rule fl_snap_mono)
  moreover have "fl_snap (pow2 1024) = pow2 1024" by (intro fl_snap_double is_double_pow2) simp
  ultimately show ?thesis by (simp add: fl_round_def)
qed

lemma fl_round_int: "\<bar>n\<bar> \<le> 2 ^ 53 \<Longrightarrow> fl_round (of_int n) = Fin (of_int n)"
proof -
  assume n: "\<bar>n\<bar> \<le> 2 ^ 53"
  then have "\<bar>of_int n :: rat\<bar> \<le> of_int (2 ^ 53)" by (simp only: of_int_le_iff flip: of_int_abs)
  also have "\<dots> = pow2 53" by (simp add: pow2_nat)
  also have "\<dots> < pow2 1024" by (rule pow2_strict_mono) simp
  finally show ?thesis using n by (intro fl_round_exact is_double_int)
qed

lemma is_double_snap: "is_double (fl_snap x)"
proof -
  have pos: "is_double (fl_snap y)" if "0 < y" for y
  proof -
    have "0 \<le> y / pow2 (ulp_exp y)" "y / pow2 (ulp_exp y) \<le> of_int (2 ^ 53)"
      using that ulp_exp_upper [OF that] unfolding pow2_add53 by (simp_all add: divide_le_eq)
    then have "0 \<le> rne (y / pow2 (ulp_exp y))" "rne (y / pow2 (ulp_exp y)) \<le> 2 ^ 53"
      using rne_ge_int [of 0 "y / pow2 (ulp_exp y)"] by (simp, intro rne_le_int)
    then show ?thesis
      unfolding is_double_def fl_snap_def using ulp_exp_ge [of y]
      by (intro exI [of _ "rne (y / pow2 (ulp_exp y))"] exI [of _ "ulp_exp y"]) simp
  qed
  have neg: "is_double (- y)" if "is_double y" for y
  proof -
    from that obtain m e where "y = of_int m * pow2 e" "\<bar>m\<bar> \<le> 2 ^ 53" "- 1074 \<le> e"
      unfolding is_double_def by blast
    then show ?thesis
      unfolding is_double_def by (intro exI [of _ "- m"] exI [of _ e]) simp
  qed
  consider "x = 0" | "0 < x" | "0 < - x" by linarith
  then show ?thesis
  proof cases
    case 1
    then show ?thesis using is_double_int [of 0] by simp
  next
    case 3
    from neg [OF pos [OF 3]] show ?thesis by simp
  qed (rule pos)
qed

lemma fl_round_idem: "fl_round x = Fin y \<Longrightarrow> fl_round y = Fin y"
  by (auto simp: fl_round_def Let_def fl_snap_double is_double_snap split: if_splits)

lemma fl_round_numerals [simp]:
  "(numeral n :: int) \<le> 9007199254740992 \<Longrightarrow> fl_round (numeral n) = Fin (numeral n)"
  "(numeral n :: int) \<le> 9007199254740992 \<Longrightarrow> fl_round (- numeral n) = Fin (- numeral n)"
  "fl_round 1 = Fin 1"
  "fl_round (- 1) = Fin (- 1)"
  using fl_round_int [of "numeral n"] fl_round_int [of "- numeral n"] fl_round_int [of 1]
    fl_round_int [of "- 1"]
  by simp_all

lemma fl_round_between:
  assumes "fl_round a = Fin a" "fl_round b = Fin b" "a \<le> x" "x \<le> b"
  obtains y where "fl_round x = Fin y" "a \<le> y" "y \<le> b"
proof -
  have "fl_le (Fin a) (fl_round x)" "fl_le (fl_round x) (Fin b)"
    using fl_round_mono [of a x] fl_round_mono [of x b] assms by auto
  then show thesis using that by (cases "fl_round x") auto
qed

section \<open>Rounding a concrete literal\<close>

lemma rne_near: "\<bar>x - of_int m\<bar> < 1 / 2 \<Longrightarrow> rne x = m"
proof -
  assume "\<bar>x - of_int m\<bar> < 1 / 2"
  with rne_bounds [of x] have "\<bar>of_int (rne x) - of_int m :: rat\<bar> < 1" by linarith
  then have "\<bar>rne x - m\<bar> < 1" by (simp flip: of_int_diff)
  then show ?thesis by linarith
qed

lemma ilog2_unique:
  assumes "pow2 e \<le> x" and "x < pow2 (e + 1)"
  shows "ilog2 x = e"
proof -
  have x: "0 < x" using assms(1) pow2_pos [of e] by linarith
  have "pow2 (ilog2 x) < pow2 (e + 1)" using ilog2_bounds(1) [OF x] assms(2) by linarith
  moreover have "pow2 e < pow2 (ilog2 x + 1)" using ilog2_bounds(2) [OF x] assms(1) by linarith
  ultimately have "ilog2 x < e + 1" "e < ilog2 x + 1" by (blast dest: pow2_less_cancel)+
  then show ?thesis by linarith
qed

lemma fl_round_normal:
  assumes "pow2 e \<le> x" "x < pow2 (e + 1)" "- 1022 \<le> e" "\<bar>x / pow2 (e - 52) - of_int m\<bar> < 1 / 2"
    "of_int m * pow2 (e - 52) < pow2 1024" "0 \<le> m"
  shows "fl_round x = Fin (of_int m * pow2 (e - 52))"
proof -
  have x: "0 < x" using assms(1) pow2_pos [of e] by linarith
  have "ilog2 \<bar>x\<bar> = e" using ilog2_unique [OF assms(1,2)] x by simp
  then have "ulp_exp x = e - 52" using x assms(3) by (simp add: ulp_exp_def)
  then have snap: "fl_snap x = of_int m * pow2 (e - 52)"
    by (simp add: fl_snap_def rne_near [OF assms(4)])
  have "0 \<le> of_int m * pow2 (e - 52)" using assms(6) by simp
  then have "\<not> of_int m * pow2 (e - 52) \<le> - pow2 1024" using pow2_pos [of 1024] by linarith
  with assms(5) show ?thesis
    unfolding fl_round_def snap Let_def by (meson linorder_not_le)
qed

section \<open>Order and arithmetic facts used by the components\<close>

lemma fl_le_refl [simp]: "fl_le x x \<longleftrightarrow> x \<noteq> NaN"
  by (cases x) auto

lemma fl_lt_irrefl [simp]: "\<not> fl_lt x x"
  by (cases x) auto

lemma fl_le_infinities [simp]:
  "fl_le x PInf \<longleftrightarrow> x \<noteq> NaN"
  "fl_le NInf x \<longleftrightarrow> x \<noteq> NaN"
  by (cases x; simp)+

lemma fl_le_trans: "fl_le x y \<Longrightarrow> fl_le y z \<Longrightarrow> fl_le x z"
  by (cases x; cases y; cases z) auto

lemma fl_le_lt_trans: "fl_le x y \<Longrightarrow> fl_lt y z \<Longrightarrow> fl_lt x z"
  by (cases x; cases y; cases z) auto

lemma fl_lt_le_trans: "fl_lt x y \<Longrightarrow> fl_le y z \<Longrightarrow> fl_lt x z"
  by (cases x; cases y; cases z) auto

lemma fl_lt_imp_le: "fl_lt x y \<Longrightarrow> fl_le x y"
  by (cases x; cases y) auto

lemma fl_not_lt: "x \<noteq> NaN \<Longrightarrow> y \<noteq> NaN \<Longrightarrow> \<not> fl_lt x y \<longleftrightarrow> fl_le y x"
  by (cases x; cases y) auto

lemma fl_lt_not_le: "fl_lt x y \<Longrightarrow> \<not> fl_le y x"
  by (cases x; cases y) auto

lemma isfinite_iff: "isfinite x \<longleftrightarrow> (\<exists>a. x = Fin a)"
  by (cases x) auto

lemma fl_neg_neg [simp]: "fl_neg (fl_neg x) = x"
  by (cases x) auto

lemma fl_neg_eq_NaN [simp]: "fl_neg x = NaN \<longleftrightarrow> x = NaN"
  by (cases x) auto

lemma fl_le_neg_iff: "fl_le (fl_neg x) (fl_neg y) \<longleftrightarrow> fl_le y x"
  by (cases x; cases y) auto

lemma py_max_ge_first: "a \<noteq> NaN \<Longrightarrow> fl_le a (py_max a b)"
  by (cases a; cases b) (auto simp: py_max_def)

lemma py_max_mono:
  "a \<noteq> NaN \<Longrightarrow> fl_le b c \<Longrightarrow> fl_le (py_max a b) (py_max a c)"
  by (cases a; cases b; cases c) (auto simp: py_max_def)

lemma py_max_not_NaN: "a \<noteq> NaN \<Longrightarrow> py_max a b \<noteq> NaN"
  by (cases a; cases b) (auto simp: py_max_def)

lemma py_min_le:
  "a \<noteq> NaN \<Longrightarrow> fl_le (py_min a b) a"
  "a \<noteq> NaN \<Longrightarrow> b \<noteq> NaN \<Longrightarrow> fl_le (py_min a b) b"
  by (cases a; cases b; auto simp: py_min_def)+

lemma fl_add_Fin: "fl_add (Fin a) (Fin b) = fl_round (a + b)"
  by simp

lemma fl_add_mono:
  assumes "fl_le a a'" "fl_le b b'" "isfinite b" "isfinite b'"
  shows "fl_le (fl_add a b) (fl_add a' b')"
  using assms by (cases a; cases a'; cases b; cases b') (auto intro: fl_round_mono)

lemma fl_add_neg_self: "isfinite x \<Longrightarrow> fl_add x (fl_neg x) = fl_zero"
  by (cases x) auto

lemma fl_sub_self: "isfinite x \<Longrightarrow> fl_sub x x = fl_zero"
  by (simp add: fl_sub_def fl_add_neg_self)

lemma fl_sub_nonneg:
  "fl_le y x \<Longrightarrow> isfinite x \<Longrightarrow> isfinite y \<Longrightarrow> fl_le fl_zero (fl_sub x y)"
  using fl_round_mono [of 0] by (cases x; cases y) (auto simp: fl_sub_def)

lemma fl_mul_nonneg:
  "fl_le fl_zero x \<Longrightarrow> fl_le fl_zero y \<Longrightarrow> isfinite x \<Longrightarrow> isfinite y \<Longrightarrow>
   fl_le fl_zero (fl_mul x y)"
  using fl_round_mono [of 0] by (cases x; cases y) auto

section \<open>Sums of floats\<close>

text \<open>A value a float variable can hold: adding zero does not move it.\<close>

definition fl_settled :: "pyfloat \<Rightarrow> bool" where
  "fl_settled x \<longleftrightarrow> fl_add x fl_zero = x"

lemma fl_settled_simps [simp]: "fl_settled PInf" "fl_settled NInf" "fl_settled NaN" "fl_settled fl_zero"
  by (simp_all add: fl_settled_def)

lemma fl_settled_Fin: "fl_settled (Fin a) \<longleftrightarrow> fl_round a = Fin a"
  by (simp add: fl_settled_def)

lemma fl_settled_round [simp]: "fl_settled (fl_round x)"
  by (cases "fl_round x") (auto simp: fl_settled_Fin dest: fl_round_idem)

lemma fl_settled_add: "fl_settled x \<Longrightarrow> fl_settled (fl_add x y)"
  by (cases x; cases y) auto

lemma fl_add_nonpos_le:
  assumes "fl_settled x" "x \<noteq> NaN" "isfinite y" "fl_le y fl_zero"
  shows "fl_le (fl_add x y) x" "fl_add x y \<noteq> NaN"
proof -
  show "fl_le (fl_add x y) x"
    using fl_add_mono [of x x y fl_zero] assms by (simp add: fl_settled_def)
  show "fl_add x y \<noteq> NaN" using assms by (cases x; cases y) auto
qed

lemma foldl_fl_add_settled: "fl_settled x \<Longrightarrow> fl_settled (foldl fl_add x ys)"
  by (induction ys arbitrary: x) (auto intro: fl_settled_add)

lemma foldl_fl_add_nonpos_le:
  assumes "fl_settled x" "x \<noteq> NaN" "\<forall>y \<in> set ys. isfinite y \<and> fl_le y fl_zero"
  shows "fl_le (foldl fl_add x ys) x \<and> foldl fl_add x ys \<noteq> NaN"
  using assms
proof (induction ys arbitrary: x)
  case (Cons y ys)
  have y: "fl_le (fl_add x y) x" "fl_add x y \<noteq> NaN" using fl_add_nonpos_le [of x y] Cons.prems by auto
  then have "fl_le (foldl fl_add (fl_add x y) ys) (fl_add x y) \<and> foldl fl_add (fl_add x y) ys \<noteq> NaN"
    using Cons.prems by (intro Cons.IH) (auto intro: fl_settled_add)
  with y show ?case by (auto intro: fl_le_trans)
qed simp

lemma fl_sum_append: "fl_sum (xs @ ys) = foldl fl_add (fl_sum xs) ys"
  by (simp add: fl_sum_def)

lemma fl_settled_sum [simp]: "fl_settled (fl_sum xs)"
  by (simp add: fl_sum_def foldl_fl_add_settled)

end
