(* ===== verification/PyVal.thy ===== *)
theory PyVal
  imports PyFloat PyText
begin

text \<open>
  Dynamically typed values: what the code reads out of JSON objects and untrusted action parameters.
  Booleans are a constructor of their own, since the code tells \<open>True\<close> from \<open>1\<close> by
  type; an object is an association list.
\<close>

datatype pyval =
    VNone | VBool bool | VInt int | VFloat pyfloat | VStr string
  | VList "pyval list" | VDict "(string \<times> pyval) list"

text \<open>\<open>v.get(k, dflt)\<close>: only an object has it.\<close>

definition vget :: "string \<Rightarrow> pyval \<Rightarrow> pyval \<Rightarrow> pyval result" where
  "vget k dflt v = (case v of
     VDict d \<Rightarrow> Inr (case map_of d k of None \<Rightarrow> dflt | Some x \<Rightarrow> x)
   | _ \<Rightarrow> Inl AttributeError)"

fun truthy :: "pyval \<Rightarrow> bool" where
  "truthy VNone = False"
| "truthy (VBool b) = b"
| "truthy (VInt n) = (n \<noteq> 0)"
| "truthy (VFloat x) = (x \<noteq> Fin 0)"
| "truthy (VStr s) = (s \<noteq> [])"
| "truthy (VList xs) = (xs \<noteq> [])"
| "truthy (VDict d) = (d \<noteq> [])"

text \<open>
  A value used as a dictionary key of string keys: a list or an object raises, and no other value
  equals a string.
\<close>

definition str_key :: "pyval \<Rightarrow> string option result" where
  "str_key v = (case v of
     VStr s \<Rightarrow> Inr (Some s) | VList _ \<Rightarrow> Inl TypeError | VDict _ \<Rightarrow> Inl TypeError | _ \<Rightarrow> Inr None)"

text \<open>\<open>isinstance(v, int) and not isinstance(v, bool)\<close>.\<close>

definition int_of_val :: "pyval \<Rightarrow> int option" where
  "int_of_val v = (case v of VInt n \<Rightarrow> Some n | _ \<Rightarrow> None)"

lemma int_of_val_Some [simp]: "int_of_val v = Some n \<longleftrightarrow> v = VInt n"
  by (cases v) (auto simp: int_of_val_def)

text \<open>\<open>float(v)\<close>; parsing a string is a parameter.\<close>

definition to_float :: "(string \<Rightarrow> pyfloat option) \<Rightarrow> pyval \<Rightarrow> pyfloat result" where
  "to_float parse v = (case v of
     VInt n \<Rightarrow> float_of_int n
   | VBool b \<Rightarrow> Inr (if b then fl_one else fl_zero)
   | VFloat x \<Rightarrow> Inr x
   | VStr s \<Rightarrow> (case parse s of None \<Rightarrow> Inl ValueError | Some x \<Rightarrow> Inr x)
   | _ \<Rightarrow> Inl TypeError)"

text \<open>A float as a sort key: its position in the extended line (no NaN reaches a key).\<close>

definition fl_ord :: "pyfloat \<Rightarrow> int \<times> rat" where
  "fl_ord x = (case x of NInf \<Rightarrow> (- 1, 0) | Fin a \<Rightarrow> (0, a) | PInf \<Rightarrow> (1, 0) | NaN \<Rightarrow> (2, 0))"

text \<open>
  \<open>str(v)\<close>: strings are themselves, integers their decimal digits; the shortest decimal of
  a float and the text of a container are a parameter.
\<close>

fun nat_str :: "nat \<Rightarrow> string" where
  "nat_str n = (if n < 10 then [char_of (48 + n)] else nat_str (n div 10) @ [char_of (48 + n mod 10)])"

definition int_str :: "int \<Rightarrow> string" where
  "int_str n = (if n < 0 then CHR ''-'' # nat_str (nat (- n)) else nat_str (nat n))"

definition py_str :: "(pyval \<Rightarrow> string) \<Rightarrow> pyval \<Rightarrow> string" where
  "py_str shown v = (case v of
     VStr s \<Rightarrow> s
   | VNone \<Rightarrow> ''None''
   | VBool b \<Rightarrow> (if b then ''True'' else ''False'')
   | VInt n \<Rightarrow> int_str n
   | _ \<Rightarrow> shown v)"

lemma py_str_VStr [simp]: "py_str shown (VStr s) = s"
  by (simp add: py_str_def)

text \<open>\<open>v or dflt\<close>, iteration and \<open>len\<close>.\<close>

definition py_or :: "pyval \<Rightarrow> pyval \<Rightarrow> pyval" where
  "py_or v dflt = (if truthy v then v else dflt)"

definition py_iter :: "pyval \<Rightarrow> pyval list result" where
  "py_iter v = (case v of
     VList xs \<Rightarrow> Inr xs
   | VStr s \<Rightarrow> Inr (map (\<lambda>c. VStr [c]) s)
   | VDict d \<Rightarrow> Inr (map (\<lambda>(k, _). VStr k) d)
   | _ \<Rightarrow> Inl TypeError)"

definition py_len :: "pyval \<Rightarrow> nat result" where
  "py_len v = rbind (py_iter v) (\<lambda>xs. Inr (length xs))"

text \<open>\<open>int(v)\<close>: a float is truncated toward zero; parsing a string is a parameter.\<close>

definition trunc_rat :: "rat \<Rightarrow> int" where
  "trunc_rat q = (if q < 0 then \<lceil>q\<rceil> else \<lfloor>q\<rfloor>)"

definition to_int :: "(string \<Rightarrow> int option) \<Rightarrow> pyval \<Rightarrow> int result" where
  "to_int parse v = (case v of
     VInt n \<Rightarrow> Inr n
   | VBool b \<Rightarrow> Inr (if b then 1 else 0)
   | VFloat x \<Rightarrow> (case x of Fin q \<Rightarrow> Inr (trunc_rat q) | NaN \<Rightarrow> Inl ValueError | _ \<Rightarrow> Inl OverflowError)
   | VStr s \<Rightarrow> (case parse s of None \<Rightarrow> Inl ValueError | Some n \<Rightarrow> Inr n)
   | _ \<Rightarrow> Inl TypeError)"

lemma to_int_VInt [simp]: "to_int parse (VInt n) = Inr n"
  by (simp add: to_int_def)

end
