(* ===== verification/Law.thy ===== *)
theory Law
  imports PyVal
begin

text \<open>
  The scoring law: closing-line value recomputed from evidence (\<open>src/veridex/law/recompute.py\<close>),
  the forward executable edge (\<open>law/edge.py\<close>), the CLV check (\<open>checks/clv.py\<close>) and the
  sample-size tier (\<open>clv_confidence.py\<close>). A market carries the three fields the market state
  documents; action parameters are untrusted values.
\<close>

section \<open>Data\<close>

record market =
  ms_suspended :: bool
  ms_stable_prob_bps :: "(string, int) dict"
  ms_stable_price :: "(string, pyval) dict"

record market_state =
  mst_fixture_id :: int
  mst_tick_seq :: int
  mst_ts :: int
  mst_phase :: int
  mst_markets :: "(string, market) dict"
  mst_scores :: "(string, int) dict"

datatype action_type = WAIT | FLAG_VALUE | FOLLOW_MOMENTUM | FADE | WIDEN_OR_SUSPEND

record agent_action =
  aa_type :: action_type
  aa_params :: "(string \<times> pyval) list"

datatype evidence_point = at_entry | at_closing

datatype law_reason =
    wait_unscored | market_key_missing | side_missing
  | market_absent evidence_point | market_suspended evidence_point | market_side_missing evidence_point
  | pending_closing | closing_missing
  | recomputed_edge int  \<comment> \<open>the text of the CLV check, which names the edge only\<close>

record law_verdict =
  lv_edge_bps :: int
  lv_clv_bps :: pyval
  lv_kelly_fraction :: pyfloat
  lv_valid :: bool
  lv_reason :: law_reason

definition pending :: pyval where
  "pending = VStr ''pending''"

record clv_check_result =
  cc_passed :: bool
  cc_reason :: law_reason
  cc_claimed_untrusted :: pyval

definition compute_clv_check :: "int \<Rightarrow> pyval \<Rightarrow> clv_check_result" where
  "compute_clv_check recomputed_edge_bps claimed_edge_bps =
     \<lparr>cc_passed = (0 < recomputed_edge_bps), cc_reason = recomputed_edge recomputed_edge_bps,
      cc_claimed_untrusted = claimed_edge_bps\<rparr>"

section \<open>Recompute\<close>

definition clamp01 :: "pyfloat \<Rightarrow> pyfloat" where
  "clamp01 x = (if fl_lt x fl_zero then fl_zero else if fl_lt fl_one x then fl_one else x)"

definition kelly_fraction :: "(string \<Rightarrow> pyfloat option) \<Rightarrow> market \<Rightarrow> string \<Rightarrow> pyfloat result" where
  "kelly_fraction parse mkt side =
     (case (map_of (ms_stable_prob_bps mkt) side, map_of (ms_stable_price mkt) side) of
        (Some prob, Some price) \<Rightarrow>
          (case to_float parse price of
             Inl e \<Rightarrow> (if e = TypeError \<or> e = ValueError then Inr fl_zero else Inl e)
           | Inr decimal_price \<Rightarrow>
               (let b = fl_sub decimal_price fl_one in
                if fl_le b fl_zero then Inr fl_zero
                else rbind (float_of_int prob) (\<lambda>fp.
                     rbind (fl_div fp (Fin 10000)) (\<lambda>p.
                       let q = fl_sub fl_one p in
                       rbind (fl_div (fl_sub (fl_mul b p) q) b) (\<lambda>f. Inr (clamp01 f))))))
      | _ \<Rightarrow> Inr fl_zero)"

definition invalid_verdict :: "law_reason \<Rightarrow> pyfloat \<Rightarrow> law_verdict" where
  "invalid_verdict r kelly = \<lparr>lv_edge_bps = 0, lv_clv_bps = VInt 0, lv_kelly_fraction = kelly,
     lv_valid = False, lv_reason = r\<rparr>"

text \<open>The market and side are usable when this is \<open>None\<close>.\<close>

definition validate_market ::
  "market_state \<Rightarrow> string option \<Rightarrow> pyval \<Rightarrow> evidence_point \<Rightarrow> law_reason option result" where
  "validate_market st mk side pt =
     (case Option.bind mk (map_of (mst_markets st)) of
        None \<Rightarrow> Inr (Some (market_absent pt))
      | Some mkt \<Rightarrow>
          if ms_suspended mkt then Inr (Some (market_suspended pt))
          else rbind (str_key side) (\<lambda>s.
            if (case s of None \<Rightarrow> True | Some k \<Rightarrow> map_of (ms_stable_prob_bps mkt) k = None)
            then Inr (Some (market_side_missing pt))
            else Inr None))"

text \<open>\<open>state.markets[market_key]["stable_prob_bps"][side]\<close>.\<close>

definition prob_at :: "market_state \<Rightarrow> string \<Rightarrow> string \<Rightarrow> int result" where
  "prob_at st mk side = (case map_of (mst_markets st) mk of
     None \<Rightarrow> Inl KeyError
   | Some mkt \<Rightarrow> (case map_of (ms_stable_prob_bps mkt) side of None \<Rightarrow> Inl KeyError | Some p \<Rightarrow> Inr p))"

definition param :: "agent_action \<Rightarrow> string \<Rightarrow> pyval" where
  "param a k = (case map_of (aa_params a) k of None \<Rightarrow> VNone | Some v \<Rightarrow> v)"

definition score_closed ::
  "market_state \<Rightarrow> market_state \<Rightarrow> string \<Rightarrow> string \<Rightarrow> pyval \<Rightarrow> pyfloat \<Rightarrow> law_verdict result" where
  "score_closed entry closing mk side claimed kelly =
     rbind (prob_at entry mk side) (\<lambda>entry_bps.
     rbind (prob_at closing mk side) (\<lambda>closing_bps.
       let clv_bps = closing_bps - entry_bps; check = compute_clv_check clv_bps claimed in
       Inr \<lparr>lv_edge_bps = clv_bps, lv_clv_bps = VInt clv_bps, lv_kelly_fraction = kelly,
            lv_valid = True, lv_reason = cc_reason check\<rparr>))"

definition recompute ::
  "(string \<Rightarrow> pyfloat option) \<Rightarrow> market_state \<Rightarrow> agent_action \<Rightarrow> market_state option \<Rightarrow> string
   \<Rightarrow> law_verdict result" where
  "recompute parse entry action closing source_mode =
     (if source_mode \<noteq> ''replay'' \<and> source_mode \<noteq> ''live'' then Inl ValueError
      else if aa_type action = WAIT then
        Inr \<lparr>lv_edge_bps = 0, lv_clv_bps = pending, lv_kelly_fraction = fl_zero, lv_valid = True,
             lv_reason = wait_unscored\<rparr>
      else let market_key = param action ''market_key''; side = param action ''side'' in
        if \<not> truthy market_key then Inr (invalid_verdict market_key_missing fl_zero)
        else if \<not> truthy side then Inr (invalid_verdict side_missing fl_zero)
        else rbind (str_key market_key) (\<lambda>mk.
          rbind (validate_market entry mk side at_entry) (\<lambda>er.
            case (er, mk, side) of
              (None, Some k, VStr s) \<Rightarrow>
                (case map_of (mst_markets entry) k of
                   None \<Rightarrow> Inl KeyError
                 | Some mkt \<Rightarrow>
                     rbind (kelly_fraction parse mkt s) (\<lambda>kelly.
                       case closing of
                         None \<Rightarrow>
                           if source_mode = ''live'' then
                             Inr \<lparr>lv_edge_bps = 0, lv_clv_bps = pending, lv_kelly_fraction = kelly,
                                  lv_valid = True, lv_reason = pending_closing\<rparr>
                           else Inr (invalid_verdict closing_missing kelly)
                       | Some cl \<Rightarrow>
                           rbind (validate_market cl mk side at_closing) (\<lambda>cr.
                             case cr of
                               Some r \<Rightarrow> Inr (invalid_verdict r kelly)
                             | None \<Rightarrow>
                                 score_closed entry cl k s
                                   (case map_of (aa_params action) ''claimed_edge_bps'' of
                                      Some v \<Rightarrow> v | None \<Rightarrow> param action ''edge_bps'') kelly)))
            | (Some r, _, _) \<Rightarrow> Inr (invalid_verdict r fl_zero)
            | _ \<Rightarrow> Inl TypeError)))"

text \<open>The reason as the text the code records.\<close>

definition where_text :: "evidence_point \<Rightarrow> string" where
  "where_text pt = (case pt of at_entry \<Rightarrow> ''entry'' | at_closing \<Rightarrow> ''closing'')"

fun reason_text :: "law_reason \<Rightarrow> string" where
  "reason_text wait_unscored = ''wait_unscored''"
| "reason_text market_key_missing = ''market_key_missing''"
| "reason_text side_missing = ''side_missing''"
| "reason_text (market_absent pt) = where_text pt @ ''_market_absent''"
| "reason_text (market_suspended pt) = where_text pt @ ''_suspended''"
| "reason_text (market_side_missing pt) = where_text pt @ ''_side_missing''"
| "reason_text pending_closing = ''pending_closing''"
| "reason_text closing_missing = ''closing_missing''"
| "reason_text (recomputed_edge n) = ''recomputed_edge_bps='' @ int_str n
     @ ''bps; claimed_edge_bps recorded as untrusted metadata only''"

section \<open>Forward edge and sample-size tier\<close>

definition executable_edge_bps :: "int \<Rightarrow> pyfloat \<Rightarrow> int result" where
  "executable_edge_bps prob_bps price =
     (if fl_le price fl_zero then Inr 0
      else rbind (float_of_int prob_bps) (\<lambda>fp.
           rbind (fl_div fp (Fin 10000)) (\<lambda>p.
             py_round_int (fl_mul (fl_sub (fl_mul p price) fl_one) (Fin 10000)))))"

datatype confidence_tier = tier_low | tier_medium | tier_high

definition clv_confidence :: "int \<Rightarrow> int \<times> confidence_tier \<times> bool" where
  "clv_confidence n =
     (let tier = (if n \<le> 9 then tier_low else if n \<le> 29 then tier_medium else tier_high)
      in (n, tier, tier = tier_low))"

section \<open>What the law reads\<close>

text \<open>A verdict without an entry reason means both the key and the side are strings.\<close>

lemma validate_market_None:
  "validate_market st mk side w = Inr None \<longleftrightarrow>
     (\<exists>k s mkt p. mk = Some k \<and> side = VStr s \<and> map_of (mst_markets st) k = Some mkt \<and> \<not> ms_suspended mkt
        \<and> map_of (ms_stable_prob_bps mkt) s = Some p)"
  by (cases mk; cases side) (auto simp: validate_market_def str_key_def rbind_Inr_iff split: option.splits if_splits)

text \<open>A usable quote of a side of a market in a state.\<close>

definition quoted :: "market_state \<Rightarrow> string \<Rightarrow> string \<Rightarrow> int \<Rightarrow> bool" where
  "quoted st k s p \<longleftrightarrow> (\<exists>mkt. map_of (mst_markets st) k = Some mkt \<and> \<not> ms_suspended mkt
     \<and> map_of (ms_stable_prob_bps mkt) s = Some p)"

lemma quoted_prob_at: "quoted st k s p \<Longrightarrow> prob_at st k s = Inr p"
  by (auto simp: quoted_def prob_at_def)

lemma quoted_unique: "quoted st k s p \<Longrightarrow> quoted st k s p' \<Longrightarrow> p = p'"
  by (auto simp: quoted_def)

lemma validate_quoted: "validate_market st (Some k) (VStr s) w = Inr None \<longleftrightarrow> (\<exists>p. quoted st k s p)"
  by (auto simp: validate_market_None quoted_def)

lemma score_closed_eq:
  "score_closed entry cl k s claimed kelly =
     rbind (prob_at entry k s) (\<lambda>p. rbind (prob_at cl k s) (\<lambda>p'.
       Inr \<lparr>lv_edge_bps = p' - p, lv_clv_bps = VInt (p' - p), lv_kelly_fraction = kelly, lv_valid = True,
            lv_reason = recomputed_edge (p' - p)\<rparr>))"
  by (simp add: score_closed_def compute_clv_check_def Let_def)

text \<open>The law after the parameters have been read: one case per branch of the code.\<close>

lemma recompute_unusable:
  assumes "aa_type a \<noteq> WAIT" and "recompute parse entry a closing mode = Inr v"
    and "\<not> (\<exists>k s p. param a ''market_key'' = VStr k \<and> k \<noteq> [] \<and> param a ''side'' = VStr s \<and> s \<noteq> [] \<and> quoted entry k s p)"
  shows "\<not> lv_valid v"
proof (cases "truthy (param a ''market_key'') \<and> truthy (param a ''side'')")
  case False
  with assms(1,2) show ?thesis by (auto simp: recompute_def invalid_verdict_def Let_def split: if_splits)
next
  case True
  with assms(1,2) obtain mk er where mk: "str_key (param a ''market_key'') = Inr mk"
    and er: "validate_market entry mk (param a ''side'') at_entry = Inr er"
    by (auto simp: recompute_def Let_def rbind_Inr_iff split: if_splits)
  have "er \<noteq> None"
  proof
    assume "er = None"
    with er obtain k s mkt p where "mk = Some k" "param a ''side'' = VStr s" "quoted entry k s p"
      by (auto simp: validate_market_None quoted_def)
    moreover from this mk have "param a ''market_key'' = VStr k" by (simp add: str_key_def split: pyval.splits)
    ultimately show False using assms(3) True by auto
  qed
  then obtain r where "er = Some r" by auto
  with assms(1,2) True mk er show ?thesis
    by (auto simp: recompute_def Let_def invalid_verdict_def split: if_splits)
qed

lemma recompute_quoted:
  assumes "aa_type a \<noteq> WAIT" and "mode \<in> {''replay'', ''live''}" and "param a ''market_key'' = VStr k" and "k \<noteq> []"
    and "param a ''side'' = VStr s" and "s \<noteq> []" and "quoted entry k s p" and "map_of (mst_markets entry) k = Some mkt"
  shows "recompute parse entry a closing mode =
    rbind (kelly_fraction parse mkt s) (\<lambda>kelly.
      case closing of
        None \<Rightarrow>
          if mode = ''live'' then
            Inr \<lparr>lv_edge_bps = 0, lv_clv_bps = pending, lv_kelly_fraction = kelly, lv_valid = True, lv_reason = pending_closing\<rparr>
          else Inr (invalid_verdict closing_missing kelly)
      | Some cl \<Rightarrow>
          rbind (validate_market cl (Some k) (VStr s) at_closing) (\<lambda>cr. case cr of
              Some r \<Rightarrow> Inr (invalid_verdict r kelly)
            | None \<Rightarrow> score_closed entry cl k s VNone kelly))"
proof -
  have "validate_market entry (Some k) (VStr s) at_entry = Inr None" using assms(7) validate_quoted by blast
  then show ?thesis
    using assms by (auto simp: recompute_def str_key_def score_closed_def compute_clv_check_def Let_def
        cong: option.case_cong)
qed

text \<open>
  The law scores evidence only: a non-WAIT action on a market and side that are quoted and not
  suspended at entry and at closing is valid and its closing-line value is exactly the difference of
  the two consensus probabilities, in either source mode and whatever else the parameters claim
  (an edge, a confidence, a rationale).
\<close>

theorem law_scores_evidence_only:
  assumes "aa_type a \<noteq> WAIT" and "mode \<in> {''replay'', ''live''}"
    and "param a ''market_key'' = VStr k" and "k \<noteq> []" and "param a ''side'' = VStr s" and "s \<noteq> []"
    and "quoted entry k s p" and "quoted closing k s p'"
    and "map_of (mst_markets entry) k = Some mkt" and "kelly_fraction parse mkt s = Inr f"
  shows "recompute parse entry a (Some closing) mode =
    Inr \<lparr>lv_edge_bps = p' - p, lv_clv_bps = VInt (p' - p), lv_kelly_fraction = f, lv_valid = True,
         lv_reason = recomputed_edge (p' - p)\<rparr>"
proof -
  have "validate_market entry (Some k) (VStr s) at_entry = Inr None"
    "validate_market closing (Some k) (VStr s) at_closing = Inr None"
    using assms(7,8) validate_quoted by blast+
  then show ?thesis
    using assms quoted_prob_at [OF assms(7)] quoted_prob_at [OF assms(8)]
    by (auto simp: recompute_def str_key_def score_closed_def compute_clv_check_def Let_def)
qed

text \<open>
  Claims are never read: two actions of the same type naming the same market key and side get the
  same verdict, or the same exception, from the same evidence.
\<close>

theorem law_ignores_claims:
  assumes "aa_type a = aa_type b" and "param a ''market_key'' = param b ''market_key''"
    and "param a ''side'' = param b ''side''"
  shows "recompute parse entry a closing mode = recompute parse entry b closing mode"
  unfolding recompute_def score_closed_eq assms ..

text \<open>
  What counts as scored: the law returns a numeric value on a valid verdict exactly when the
  action is not WAIT, its market and side are quoted at entry, and a closing state is present in which
  they are quoted too; a WAIT, a live action without a close and every invalid action are unscored.
\<close>

theorem law_scored_iff:
  assumes "recompute parse entry a closing mode = Inr v"
  shows "lv_valid v \<and> (\<exists>n. lv_clv_bps v = VInt n) \<longleftrightarrow>
    aa_type a \<noteq> WAIT \<and> (\<exists>k s p p' cl. param a ''market_key'' = VStr k \<and> k \<noteq> [] \<and> param a ''side'' = VStr s \<and> s \<noteq> []
      \<and> quoted entry k s p \<and> closing = Some cl \<and> quoted cl k s p')"
proof (cases "aa_type a = WAIT")
  case True
  with assms show ?thesis by (auto simp: recompute_def pending_def split: if_splits)
next
  case False
  show ?thesis
  proof (cases "\<exists>k s p. param a ''market_key'' = VStr k \<and> k \<noteq> [] \<and> param a ''side'' = VStr s \<and> s \<noteq> [] \<and> quoted entry k s p")
    case unusable: False
    with recompute_unusable [OF False assms] show ?thesis by blast
  next
    case True
    then obtain k s p where q: "param a ''market_key'' = VStr k" "k \<noteq> []" "param a ''side'' = VStr s" "s \<noteq> []"
      "quoted entry k s p" by blast
    then obtain mkt where mkt: "map_of (mst_markets entry) k = Some mkt" by (auto simp: quoted_def)
    have mode: "mode \<in> {''replay'', ''live''}" using assms by (auto simp: recompute_def split: if_splits)
    note r = assms [unfolded recompute_quoted [OF False mode q mkt]]
    show ?thesis
    proof (cases closing)
      case None
      with r False show ?thesis by (auto simp: rbind_Inr_iff pending_def invalid_verdict_def split: if_splits)
    next
      case (Some cl)
      with r obtain kelly cr where cr: "validate_market cl (Some k) (VStr s) at_closing = Inr cr"
        and v: "(case cr of Some r \<Rightarrow> Inr (invalid_verdict r kelly) | None \<Rightarrow> score_closed entry cl k s VNone kelly) = Inr v"
        by (auto simp: rbind_Inr_iff)
      show ?thesis
      proof (cases cr)
        case None
        then obtain p' where "quoted cl k s p'" using cr validate_quoted by blast
        with v None False Some q show ?thesis
          by (auto simp: score_closed_def rbind_Inr_iff compute_clv_check_def Let_def)
      next
        case (Some c)
        then have "\<nexists>p'. quoted cl k s p'" using cr validate_quoted [of cl k s at_closing] by auto
        with v Some \<open>closing = Some cl\<close> q show ?thesis by (auto simp: invalid_verdict_def)
      qed
    qed
  qed
qed

definition demo_state :: "int \<Rightarrow> int \<Rightarrow> market_state" where
  "demo_state t p = \<lparr>mst_fixture_id = 1, mst_tick_seq = t, mst_ts = t, mst_phase = 0,
     mst_markets = [(''OU'', \<lparr>ms_suspended = False, ms_stable_prob_bps = [(''over'', p)],
       ms_stable_price = [(''over'', VStr ''NA'')]\<rparr>)], mst_scores = []\<rparr>"

definition demo_action :: agent_action where
  "demo_action = \<lparr>aa_type = FLAG_VALUE, aa_params = [(''market_key'', VStr ''OU''), (''side'', VStr ''over''),
     (''edge_bps'', VInt 9999)]\<rparr>"

lemma demo_quoted: "quoted (demo_state t p) ''OU'' ''over'' p"
  by (simp add: quoted_def demo_state_def)

lemma demo_params: "param demo_action ''market_key'' = VStr ''OU''" "param demo_action ''side'' = VStr ''over''"
  "aa_type demo_action \<noteq> WAIT"
  by (simp_all add: param_def demo_action_def)

theorem law_scores_evidence_only_witness:
  "recompute (\<lambda>_. None) (demo_state 0 5000) demo_action (Some (demo_state 9 5120)) ''replay'' =
     Inr \<lparr>lv_edge_bps = 120, lv_clv_bps = VInt 120, lv_kelly_fraction = fl_zero, lv_valid = True,
          lv_reason = recomputed_edge 120\<rparr>"
proof -
  obtain mkt where m: "map_of (mst_markets (demo_state 0 5000)) ''OU'' = Some mkt" "kelly_fraction (\<lambda>_. None) mkt ''over'' = Inr fl_zero"
    by (simp add: demo_state_def kelly_fraction_def to_float_def)
  show ?thesis
    using law_scores_evidence_only [OF demo_params(3) _ demo_params(1) _ demo_params(2) _ demo_quoted demo_quoted m]
    by simp
qed

theorem law_ignores_claims_witness:
  "recompute (\<lambda>_. None) (demo_state 0 5000) demo_action None ''live'' =
   recompute (\<lambda>_. None) (demo_state 0 5000) (demo_action\<lparr>aa_params := [(''side'', VStr ''over''),
     (''claimed_edge_bps'', VInt (- 4)), (''market_key'', VStr ''OU'')]\<rparr>) None ''live''"
  by (rule law_ignores_claims) (simp_all add: param_def demo_action_def)

theorem law_scored_iff_witness:
  "\<exists>v. recompute (\<lambda>_. None) (demo_state 0 5000) demo_action None ''live'' = Inr v
     \<and> \<not> (lv_valid v \<and> (\<exists>n. lv_clv_bps v = VInt n))"
proof -
  obtain v where v: "recompute (\<lambda>_. None) (demo_state 0 5000) demo_action None ''live'' = Inr v"
    using recompute_quoted [OF demo_params(3) _ demo_params(1) _ demo_params(2) _ demo_quoted [of 0 5000],
        of "''live''" _ "\<lambda>_. None" None]
    by (simp add: demo_state_def kelly_fraction_def to_float_def)
  with law_scored_iff [OF v] show ?thesis by blast
qed

section \<open>Kelly is advice in the unit interval\<close>

lemma clamp01_range: "x \<noteq> NaN \<Longrightarrow> fl_le fl_zero (clamp01 x) \<and> fl_le (clamp01 x) fl_one"
  by (cases x) (auto simp: clamp01_def)

lemma prob_fraction:
  assumes "0 \<le> n" and "n \<le> 10000"
  obtains p where "float_of_int n = Inr (Fin (of_int n))" and "fl_div (Fin (of_int n)) (Fin 10000) = Inr (Fin p)"
    and "0 \<le> p" and "p \<le> 1"
proof -
  have n: "fl_round (of_int n) = Fin (of_int n)" using assms by (intro fl_round_int) simp
  have "0 \<le> (of_int n :: rat) / 10000" "(of_int n :: rat) / 10000 \<le> 1" using assms by simp_all
  then obtain p where "fl_round (of_int n / 10000) = Fin p" "0 \<le> p" "p \<le> 1"
    using fl_round_between [of 0 1 "of_int n / 10000"] by auto
  with n that [of p] show thesis by (simp add: float_of_int_def fl_fit_def fl_div_def)
qed

lemma kelly_not_NaN:
  assumes "0 \<le> p" "p \<le> 1" "0 < b" "fl_round b = Fin b"
  shows "\<exists>x. fl_div (fl_sub (fl_mul (Fin b) (Fin p)) (fl_sub fl_one (Fin p))) (Fin b) = Inr x \<and> x \<noteq> NaN"
proof -
  have "0 \<le> b * p" "b * p \<le> b" using assms by (auto simp: mult_left_le)
  then obtain m where m: "fl_round (b * p) = Fin m" "0 \<le> m" "m \<le> b"
    using fl_round_between [of 0 b "b * p"] assms by auto
  obtain q where q: "fl_round (1 - p) = Fin q" "0 \<le> q" "q \<le> 1"
    using fl_round_between [of 0 1 "1 - p"] assms by auto
  obtain x where x: "fl_sub (fl_mul (Fin b) (Fin p)) (fl_sub fl_one (Fin p)) = fl_round x"
    using m q by (simp add: fl_sub_def)
  have "fl_round x \<noteq> NaN" "fl_round (y / b) \<noteq> NaN" for y by (simp_all add: fl_round_def Let_def)
  then show ?thesis
    unfolding x using assms(3) by (cases "fl_round x") (auto simp: fl_div_def fl_sgn_def)
qed

text \<open>
  Kelly advice stays in the unit interval: for a probability between 0 and 10000 basis points
  and any finite price it is a number between 0 and 1 (no advice, 0, when the price is at most even);
  a price that is not a number escapes the clamp and yields advice that is not a number.
\<close>

theorem kelly_in_unit_interval:
  assumes "map_of (ms_stable_prob_bps mkt) s = Some n" and "map_of (ms_stable_price mkt) s = Some (VFloat d)"
    and "0 \<le> n" and "n \<le> 10000"
  shows "(\<forall>x. d = Fin x \<and> fl_round x = Fin x \<longrightarrow>
      (\<exists>f. kelly_fraction parse mkt s = Inr f \<and> fl_le fl_zero f \<and> fl_le f fl_one))
    \<and> (d = NaN \<longrightarrow> kelly_fraction parse mkt s = Inr NaN)"
proof -
  obtain p where p: "float_of_int n = Inr (Fin (of_int n))" "fl_div (Fin (of_int n)) (Fin 10000) = Inr (Fin p)" "0 \<le> p" "p \<le> 1"
    using prob_fraction [OF assms(3,4)] by blast
  have fin: "\<exists>f. kelly_fraction parse mkt s = Inr f \<and> fl_le fl_zero f \<and> fl_le f fl_one"
    if d: "d = Fin x" "fl_round x = Fin x" for x
  proof (cases "fl_le (fl_sub d fl_one) fl_zero")
    case True
    then show ?thesis by (simp add: kelly_fraction_def assms to_float_def)
  next
    case False
    have "1 < x"
    proof (rule ccontr)
      assume "\<not> 1 < x"
      then have "fl_le (fl_round (x - 1)) (fl_round 0)" by (intro fl_round_mono) simp
      with False show False by (simp add: d fl_sub_def)
    qed
    then obtain b where b: "fl_round (x - 1) = Fin b" "0 \<le> b"
      using fl_round_between [of 0 x "x - 1"] d by auto
    with False have "0 < b" by (simp add: d fl_sub_def)
    with kelly_not_NaN [OF p(3,4) this fl_round_idem [OF b(1)]] clamp01_range b p show ?thesis
      by (auto simp: kelly_fraction_def assms(1,2) to_float_def d fl_sub_def Let_def)
  qed
  moreover have "kelly_fraction parse mkt s = Inr NaN" if "d = NaN"
    using that p by (simp add: kelly_fraction_def assms(1,2) to_float_def fl_sub_def Let_def fl_div_def clamp01_def)
  ultimately show ?thesis by blast
qed

theorem kelly_in_unit_interval_witness:
  "\<exists>f. kelly_fraction (\<lambda>_. None) \<lparr>ms_suspended = False, ms_stable_prob_bps = [(''over'', 6000)],
      ms_stable_price = [(''over'', VFloat (Fin 3))]\<rparr> ''over'' = Inr f \<and> fl_le fl_zero f \<and> fl_le f fl_one"
  using kelly_in_unit_interval [of "\<lparr>ms_suspended = False, ms_stable_prob_bps = [(''over'', 6000)],
      ms_stable_price = [(''over'', VFloat (Fin 3))]\<rparr>" "''over''" 6000 "Fin 3" "\<lambda>_. None"] by simp

end
