(* ===== verification/Scoring.thy ===== *)
theory Scoring
  imports Law "HOL-Library.Product_Lexorder" "HOL-Library.Multiset"
begin

text \<open>
  Scoring and ranking: the per-run metric stack (\<open>src/veridex/scoring.py\<close>), the cross-run
  leaderboard (\<open>leaderboard.py\<close>), the rank denylist (\<open>rank_guards.py\<close>) and the maker
  board (\<open>maker/leaderboard.py\<close>). The square of an error is the correctly rounded product.
\<close>

section \<open>Rank guard (\<open>rank_guards.py\<close>)\<close>

definition r4a_execution_denylist_fields :: "string list" where
  "r4a_execution_denylist_fields =
     [''own_fill'', ''filled_size'', ''fill_price'', ''realized_pnl'', ''inventory'',
      ''real_fill_reconciliation'', ''post_trade_markout'', ''fill_size'', ''net_inventory'',
      ''markout_bps'', ''reconciled_fill_size'', ''realized_loss_session'', ''realized_loss_daily'',
      ''canceled'', ''ack_status'', ''status'', ''reconciled_state'', ''fill_ts'', ''reference_price'']"

definition r4b_strategy_denylist_fields :: "string list" where
  "r4b_strategy_denylist_fields =
     [''matched_opportunity_markout'', ''exposure_normalized_adverse_selection'', ''per_fill_markout'',
      ''fill_count'', ''abstention_count'', ''capital_at_risk'', ''arm_id'', ''decision_reason_codes'']"

definition r3_r4_rank_denylist :: "string list" where
  "r3_r4_rank_denylist =
     [''queue_ahead_size'', ''outbid_within_ms'', ''stepped_ahead_count'', ''executability'',
      ''available_size_at_price'', ''cumulative_size_to_clear'', ''cost_clearing_threshold'',
      ''fee_stress_multiplier''] @ r4a_execution_denylist_fields @ r4b_strategy_denylist_fields"

definition assert_no_r3r4_in_rank :: "string list \<Rightarrow> unit result" where
  "assert_no_r3r4_in_rank keys =
     (if \<exists>k \<in> set keys. k \<in> set r3_r4_rank_denylist then Inl AssertionError else Inr ())"

section \<open>Score rows (\<open>scoring.py\<close>)\<close>

record score_row =
  sr_agent_id :: string
  sr_tick_seq :: int
  sr_fields :: "(string \<times> pyval) list"

definition row_get :: "score_row \<Rightarrow> string \<Rightarrow> pyval" where
  "row_get r k = (case map_of (sr_fields r) k of None \<Rightarrow> VNone | Some v \<Rightarrow> v)"

definition row_valid :: "score_row \<Rightarrow> bool" where
  "row_valid r \<longleftrightarrow> row_get r ''valid'' = VBool True"

definition is_scored :: "score_row \<Rightarrow> bool" where
  "is_scored r \<longleftrightarrow> row_valid r \<and> int_of_val (row_get r ''clv_bps'') \<noteq> None"

definition is_window_scored :: "score_row \<Rightarrow> bool" where
  "is_window_scored r \<longleftrightarrow> int_of_val (row_get r ''window_clv_bps'') \<noteq> None"

definition row_int :: "string \<Rightarrow> score_row \<Rightarrow> int" where
  "row_int k r = (case int_of_val (row_get r k) of Some n \<Rightarrow> n | None \<Rightarrow> 0)"

text \<open>The confidence an agent emitted: untrusted, so every value may appear.\<close>

definition usable_confidence :: "pyval \<Rightarrow> pyfloat option result" where
  "usable_confidence value =
     (case value of
        VInt _ \<Rightarrow> rbind (to_float (\<lambda>_. None) value) (\<lambda>c.
          Inr (if fl_le fl_zero c \<and> fl_le c fl_one then Some c else None))
      | VFloat c \<Rightarrow> Inr (if fl_le fl_zero c \<and> fl_le c fl_one then Some c else None)
      | _ \<Rightarrow> Inr None)"

definition row_confidence :: "score_row \<Rightarrow> pyfloat option result" where
  "row_confidence r =
     rbind (vget ''raw_prescore'' (VDict []) (VDict (sr_fields r))) (\<lambda>prescore.
     rbind (vget ''raw_action'' (VDict []) prescore) (\<lambda>raw.
     rbind (vget ''params'' (VDict []) raw) (\<lambda>params.
     rbind (vget ''confidence'' VNone params) usable_confidence)))"

fun drawdown_loop :: "int list \<Rightarrow> int \<Rightarrow> int \<Rightarrow> pyfloat \<Rightarrow> pyfloat result" where
  "drawdown_loop [] cumulative peak max_dd = Inr max_dd"
| "drawdown_loop (clv # clvs) cumulative peak max_dd =
     (let cumulative' = cumulative + clv; peak' = max peak cumulative' in
      rbind (float_of_int (cumulative' - peak')) (\<lambda>f.
        drawdown_loop clvs cumulative' peak' (py_min max_dd f)))"

definition max_drawdown :: "int list \<Rightarrow> pyfloat result" where
  "max_drawdown scored_clv = drawdown_loop scored_clv 0 0 fl_zero"

fun brier_errors :: "score_row list \<Rightarrow> pyfloat list result" where
  "brier_errors [] = Inr []"
| "brier_errors (r # rs) =
     rbind (row_confidence r) (\<lambda>c.
     rbind (brier_errors rs) (\<lambda>es.
       case c of
         None \<Rightarrow> Inr es
       | Some p \<Rightarrow>
           (let e = fl_sub p (if 0 < row_int ''clv_bps'' r then fl_one else fl_zero)
            in Inr (fl_mul e e # es))))"

definition brier :: "score_row list \<Rightarrow> pyfloat option result" where
  "brier scored_rows =
     rbind (brier_errors scored_rows) (\<lambda>errors.
       if errors = [] then Inr None
       else rbind (float_of_int (int (length errors))) (\<lambda>n.
            rbind (fl_div (fl_sum errors) n) (\<lambda>m. Inr (Some m))))"

record agent_metrics =
  am_agent_id :: string
  am_avg_clv_bps :: "pyfloat option"
  am_total_clv_bps :: int
  am_sim_pnl :: int
  am_brier :: "pyfloat option"
  am_max_drawdown :: pyfloat
  am_action_count :: int
  am_valid_pct :: pyfloat
  am_valid_count :: int
  am_avg_window_clv_bps :: "pyfloat option"
  am_total_window_clv_bps :: int
  am_window_action_count :: int
  am_proof_mode :: string

definition mean_or_none :: "int \<Rightarrow> int \<Rightarrow> pyfloat option result" where
  "mean_or_none tot cnt = (if cnt = 0 then Inr None else rbind (int_truediv tot cnt) (\<lambda>m. Inr (Some m)))"

definition scored_rows_of :: "score_row list \<Rightarrow> score_row list" where
  "scored_rows_of rows = sort_key sr_tick_seq (filter is_scored rows)"

definition compute_agent_metrics :: "string \<Rightarrow> string \<Rightarrow> score_row list \<Rightarrow> agent_metrics result" where
  "compute_agent_metrics agent_id proof_mode agent_rows =
     (let scored = scored_rows_of agent_rows;
          scored_clv = map (row_int ''clv_bps'') scored;
          action_count = int (length scored);
          tot = sum_list scored_clv;
          window_scored = map (row_int ''window_clv_bps'') (filter is_window_scored agent_rows);
          wcount = int (length window_scored);
          wtotal = sum_list window_scored;
          decisions = int (length agent_rows);
          valid_count = int (length (filter row_valid agent_rows))
      in rbind (mean_or_none tot action_count) (\<lambda>avg.
         rbind (mean_or_none wtotal wcount) (\<lambda>wavg.
         rbind (if decisions = 0 then Inr fl_zero
                else rbind (int_truediv valid_count decisions) (\<lambda>x. Inr (fl_mul x (Fin 100)))) (\<lambda>valid_pct.
         rbind (brier scored) (\<lambda>b.
         rbind (max_drawdown scored_clv) (\<lambda>dd.
           Inr \<lparr>am_agent_id = agent_id, am_avg_clv_bps = avg, am_total_clv_bps = tot, am_sim_pnl = tot,
                am_brier = b, am_max_drawdown = dd, am_action_count = action_count,
                am_valid_pct = valid_pct, am_valid_count = valid_count,
                am_avg_window_clv_bps = wavg, am_total_window_clv_bps = wtotal,
                am_window_action_count = wcount, am_proof_mode = proof_mode\<rparr>))))))"

definition metric_keys :: "string list" where
  "metric_keys =
     [''agent_id'', ''avg_clv_bps'', ''total_clv_bps'', ''sim_pnl'', ''brier'', ''max_drawdown'', ''action_count'',
      ''valid_pct'', ''valid_count'', ''avg_window_clv_bps'', ''total_window_clv_bps'', ''window_action_count'',
      ''proof_mode'']"

section \<open>The rank key\<close>

type_synonym opt_key = "int \<times> int \<times> rat"
type_synonym rank_key = "opt_key \<times> int \<times> opt_key \<times> (int \<times> rat) \<times> int \<times> string"

text \<open>Ascending; a missing value sorts last.\<close>

definition desc_key :: "pyfloat option \<Rightarrow> opt_key" where
  "desc_key v = (case v of None \<Rightarrow> (1, fl_ord fl_zero) | Some x \<Rightarrow> (0, fl_ord (fl_neg x)))"

definition asc_key :: "pyfloat option \<Rightarrow> opt_key" where
  "asc_key v = (case v of None \<Rightarrow> (1, fl_ord fl_zero) | Some x \<Rightarrow> (0, fl_ord x))"

definition rank_key ::
  "pyfloat option \<Rightarrow> int \<Rightarrow> pyfloat option \<Rightarrow> pyfloat \<Rightarrow> int \<Rightarrow> string \<Rightarrow> rank_key" where
  "rank_key avg tot b dd actions agent =
     (desc_key avg, - tot, asc_key b, fl_ord (fl_neg dd), - actions, agent)"

definition score_rank_key :: "agent_metrics \<Rightarrow> rank_key" where
  "score_rank_key m = rank_key (am_avg_clv_bps m) (am_total_clv_bps m) (am_brier m) (am_max_drawdown m)
     (am_action_count m) (am_agent_id m)"

text \<open>\<open>rows.sort(key=guarded)\<close> then \<open>enumerate(rows, start=1)\<close>.\<close>

definition rank_rows :: "string list \<Rightarrow> ('m \<Rightarrow> rank_key) \<Rightarrow> 'm list \<Rightarrow> (int \<times> 'm) list result" where
  "rank_rows keys key ms =
     rbind (rtraverse (\<lambda>m. assert_no_r3r4_in_rank keys) ms) (\<lambda>_.
       let sorted_ms = sort_key key ms
       in Inr (zip (map int [1 ..< length ms + 1]) sorted_ms))"

record run_result =
  rr_agent_ids :: "string list"
  rr_score_rows :: "score_row list"
  rr_proof_mode_map :: "(string, string) dict"

definition rows_by_agent :: "run_result \<Rightarrow> (string, score_row list) dict" where
  "rows_by_agent run = group_rows sr_agent_id (rr_score_rows run)
     (fold (\<lambda>a. AList.update a []) (rr_agent_ids run) [])"

definition score_run :: "run_result \<Rightarrow> (int \<times> agent_metrics) list result" where
  "score_run run =
     rbind (rtraverse (\<lambda>(agent_id, rows). compute_agent_metrics agent_id
              (case map_of (rr_proof_mode_map run) agent_id of None \<Rightarrow> [] | Some p \<Rightarrow> p) rows)
            (rows_by_agent run)) (\<lambda>metrics.
       rank_rows metric_keys score_rank_key metrics)"

section \<open>The cross-run board (\<open>leaderboard.py\<close>)\<close>

datatype badge = fully_proven | partially_proven | unproven
datatype anchor_summary = all_anchored | some_pending | none_anchored
datatype source_summary = all_replay | all_live | mixed_modes | unknown_mode

definition confirmed_count :: "string option list \<Rightarrow> nat" where
  "confirmed_count ss = length (filter (\<lambda>s. s = Some ''anchored'') ss)"

definition eligibility_badge :: "string option list \<Rightarrow> badge" where
  "eligibility_badge ss =
     (if confirmed_count ss = length ss \<and> 0 < confirmed_count ss then fully_proven
      else if 0 < confirmed_count ss then partially_proven else unproven)"

definition summarize_anchor_status :: "string option list \<Rightarrow> anchor_summary" where
  "summarize_anchor_status ss =
     (if confirmed_count ss = length ss \<and> 0 < confirmed_count ss then all_anchored
      else if 0 < confirmed_count ss then some_pending else none_anchored)"

definition summarize_source_mode :: "string option list \<Rightarrow> source_summary" where
  "summarize_source_mode modes =
     (let present = List.map_filter id modes in
      if present = [] then unknown_mode
      else if set present = {''replay''} then all_replay
      else if set present = {''live''} then all_live
      else mixed_modes)"

definition summarize_proof_mode :: "string list \<Rightarrow> string" where
  "summarize_proof_mode modes = (if length (remdups modes) = 1 then hd (remdups modes) else ''mixed'')"

record board_record =
  bd_agent_id :: string
  bd_total_clv_bps :: int
  bd_sim_pnl :: int
  bd_action_count :: int
  bd_brier :: "pyfloat option"
  bd_max_drawdown :: pyfloat
  bd_valid_pct :: pyfloat
  bd_proof_mode :: string
  bd_anchor_status :: "string option"
  bd_source_mode :: "string option"
  bd_valid_count :: "int option"
  bd_total_window_clv_bps :: "int option"
  bd_window_action_count :: "int option"

record board_row =
  bw_agent_id :: string
  bw_runs :: int
  bw_avg_clv_bps :: "pyfloat option"
  bw_total_clv_bps :: int
  bw_sim_pnl :: int
  bw_brier :: "pyfloat option"
  bw_max_drawdown :: pyfloat
  bw_action_count :: int
  bw_valid_pct :: pyfloat
  bw_proof_mode :: string
  bw_eligibility_badge :: badge
  bw_anchor_status :: anchor_summary
  bw_source_mode :: source_summary
  bw_valid_count :: int
  bw_avg_window_clv_bps :: "pyfloat option"
  bw_total_window_clv_bps :: int
  bw_window_action_count :: int
  bw_confidence :: "int \<times> confidence_tier \<times> bool"

definition opt_int :: "int option \<Rightarrow> int" where
  "opt_int v = (case v of None \<Rightarrow> 0 | Some n \<Rightarrow> n)"

definition pooled_mean :: "int \<Rightarrow> int \<Rightarrow> pyfloat option result" where
  "pooled_mean tot cnt = (if 0 < cnt then rbind (int_truediv tot cnt) (\<lambda>m. Inr (Some m)) else Inr None)"

definition fl_mean :: "pyfloat list \<Rightarrow> pyfloat result" where
  "fl_mean xs = rbind (float_of_int (int (length xs))) (\<lambda>n. fl_div (fl_sum xs) n)"

definition aggregate :: "string \<Rightarrow> board_record list \<Rightarrow> board_row result" where
  "aggregate agent_id rows =
     (let tot = sum_list (map bd_total_clv_bps rows);
          actions = sum_list (map bd_action_count rows);
          wtotal = sum_list (map (opt_int \<circ> bd_total_window_clv_bps) rows);
          wcount = sum_list (map (opt_int \<circ> bd_window_action_count) rows);
          briers = List.map_filter bd_brier rows;
          anchors = map bd_anchor_status rows
      in rbind (pooled_mean tot actions) (\<lambda>avg.
         rbind (pooled_mean wtotal wcount) (\<lambda>wavg.
         rbind (case map bd_max_drawdown rows of [] \<Rightarrow> Inl ValueError | d # ds \<Rightarrow> Inr (foldl py_min d ds)) (\<lambda>dd.
         rbind (fl_mean (map bd_valid_pct rows)) (\<lambda>vp.
         rbind (if briers = [] then Inr None else rbind (fl_mean briers) (\<lambda>b. Inr (Some b))) (\<lambda>b.
           Inr \<lparr>bw_agent_id = agent_id, bw_runs = int (length rows), bw_avg_clv_bps = avg,
                bw_total_clv_bps = tot, bw_sim_pnl = sum_list (map bd_sim_pnl rows), bw_brier = b,
                bw_max_drawdown = dd, bw_action_count = actions, bw_valid_pct = vp,
                bw_proof_mode = summarize_proof_mode (map bd_proof_mode rows),
                bw_eligibility_badge = eligibility_badge anchors,
                bw_anchor_status = summarize_anchor_status anchors,
                bw_source_mode = summarize_source_mode (map bd_source_mode rows),
                bw_valid_count = sum_list (map (opt_int \<circ> bd_valid_count) rows),
                bw_avg_window_clv_bps = wavg, bw_total_window_clv_bps = wtotal,
                bw_window_action_count = wcount, bw_confidence = clv_confidence actions\<rparr>))))))"

definition board_keys :: "string list" where
  "board_keys =
     [''agent_id'', ''runs'', ''avg_clv_bps'', ''total_clv_bps'', ''sim_pnl'', ''brier'', ''max_drawdown'',
      ''action_count'', ''valid_pct'', ''proof_mode'', ''eligibility_badge'', ''anchor_status'', ''source_mode'',
      ''valid_count'', ''avg_window_clv_bps'', ''total_window_clv_bps'', ''window_action_count'', ''sample_size'',
      ''clv_confidence'', ''low_sample'']"

definition board_rank_key :: "board_row \<Rightarrow> rank_key" where
  "board_rank_key w = rank_key (bw_avg_clv_bps w) (bw_total_clv_bps w) (bw_brier w) (bw_max_drawdown w)
     (bw_action_count w) (bw_agent_id w)"

definition leaderboard :: "board_record list \<Rightarrow> (int \<times> board_row) list result" where
  "leaderboard records =
     rbind (rtraverse (\<lambda>(aid, rows). aggregate aid rows) (group_rows bd_agent_id records [])) (\<lambda>aggregated.
       rank_rows board_keys board_rank_key aggregated)"

section \<open>The maker board (\<open>maker/leaderboard.py\<close>)\<close>

definition r2_bracket_keys :: "string list" where
  "r2_bracket_keys =
     [''bracket'', ''sensitivity'', ''r2'', ''r2_bracket'', ''simulated_expected_inventory_path'',
      ''simulated_expected_exposure'', ''simulated_spread_capture_range'', ''simulated_adverse_selection_haircut'',
      ''assumption_sensitivity'', ''realized_pnl'', ''fill_proof'', ''uses_real_orderbook'', ''uses_own_fills'',
      ''queue_modeled'', ''ranked'', ''fill_rule_source'', ''forbidden_trigger_assertion'', ''label'',
      ''protection_on'', ''protection_off'', ''event_gate_cost'', ''delta_note'', ''protection_on_off_ablation'']"

text \<open>A maker row: the four fields the key reads (absent ones default) and the keys it carries.\<close>

record maker_row =
  mr_keys :: "string list"
  mr_avg_toxicity_loss_bps :: "pyfloat option"
  mr_abstained :: "int option"
  mr_quote_count :: "int option"
  mr_agent_id :: "string option"

definition assert_bracket_not_ranked :: "maker_row list \<Rightarrow> unit result" where
  "assert_bracket_not_ranked rows =
     (if \<exists>r \<in> set rows. \<exists>k \<in> set (mr_keys r). k \<in> set r2_bracket_keys then Inl AssertionError else Inr ())"

definition maker_key_of :: "maker_row \<Rightarrow> opt_key \<times> int \<times> int \<times> string" where
  "maker_key_of r = (asc_key (mr_avg_toxicity_loss_bps r), opt_int (mr_abstained r), - opt_int (mr_quote_count r),
     (case mr_agent_id r of None \<Rightarrow> [] | Some a \<Rightarrow> a))"

definition maker_rank_key :: "maker_row \<Rightarrow> (opt_key \<times> int \<times> int \<times> string) result" where
  "maker_rank_key r = rbind (assert_no_r3r4_in_rank (mr_keys r)) (\<lambda>_. Inr (maker_key_of r))"

definition rank_makers :: "maker_row list \<Rightarrow> (int \<times> maker_row) list result" where
  "rank_makers rows =
     rbind (rtraverse (\<lambda>r. assert_no_r3r4_in_rank (mr_keys r)) rows) (\<lambda>_.
     rbind (assert_bracket_not_ranked rows) (\<lambda>_.
     rbind (rtraverse maker_rank_key rows) (\<lambda>_.
       Inr (zip (map int [1 ..< length rows + 1]) (sort_key maker_key_of rows)))))"


section \<open>Ranking\<close>

lemma metric_keys_clean: "assert_no_r3r4_in_rank metric_keys = Inr ()"
  by code_simp

lemma board_keys_clean: "assert_no_r3r4_in_rank board_keys = Inr ()"
  by code_simp

lemma rank_rows_clean:
  assumes "assert_no_r3r4_in_rank keys = Inr ()"
  shows "rank_rows keys key ms = Inr (zip (map int [1 ..< length ms + 1]) (sort_key key ms))"
  using assms by (simp add: rank_rows_def rtraverse_total [where g = "\<lambda>_. ()"])

lemma zip_ranks:
  assumes "length ys = n"
  shows "map fst (zip (map int [1 ..< n + 1]) ys) = map int [1 ..< n + 1]"
    and "map snd (zip (map int [1 ..< n + 1]) ys) = ys"
    and "length (zip (map int [1 ..< n + 1]) ys) = n"
  using assms by (simp_all del: upt_Suc)

text \<open>A board lists each of its rows once, numbered from one, in strictly increasing key order.\<close>

lemma ranked_sorted:
  assumes "distinct (map name ms)" and "\<And>m. name m = last_of (key m)"
  shows "sorted_wrt (<) (map key (sort_key key ms))"
proof -
  have "distinct (map key ms)"
    using assms(1) by (auto simp: distinct_map assms(2) inj_on_def)
  then have "distinct (map key (sort_key key ms))" by (simp add: distinct_map)
  then show ?thesis by (simp add: strict_sorted_iff)
qed

lemma compute_agent_metrics_id: "compute_agent_metrics a p rows = Inr m \<Longrightarrow> am_agent_id m = a"
  by (auto simp: compute_agent_metrics_def Let_def rbind_Inr_iff)

lemma rtraverse_names:
  assumes "rtraverse f xs = Inr ys" and "\<And>x y. f x = Inr y \<Longrightarrow> g y = h x"
  shows "map g ys = map h xs"
  using assms by (induction xs arbitrary: ys) (auto simp: rbind_Inr_iff)

lemma fold_update_dom:
  "fst ` set (fold (\<lambda>a. AList.update a v) as d) = fst ` set d \<union> set as"
  "dict_ok d \<Longrightarrow> dict_ok (fold (\<lambda>a. AList.update a v) as d)"
  by (induction as arbitrary: d) (auto simp: dom_update dict_ok_update)

lemma rows_by_agent_keys:
  "dict_ok (rows_by_agent run)"
  "fst ` set (rows_by_agent run) = set (rr_agent_ids run) \<union> sr_agent_id ` set (rr_score_rows run)"
  by (simp_all add: rows_by_agent_def dict_ok_group_rows dom_group_rows fold_update_dom)

definition last_part :: "rank_key \<Rightarrow> string" where
  "last_part k = snd (snd (snd (snd (snd k))))"

lemma last_part_key: "last_part (rank_key a t b d n x) = x"
  by (simp add: last_part_def rank_key_def)

text \<open>
  C35: a run's board has exactly one row per participating agent (registered or only seen in the
  rows), ranked 1 to N without gaps or ties: the rows are in strictly increasing order of the
  documented key, so the order is fully determined.
\<close>

theorem score_run_board:
  assumes "score_run run = Inr board"
  shows "map fst board = map int [1 ..< length board + 1]
    \<and> distinct (map (am_agent_id \<circ> snd) board)
    \<and> set (map (am_agent_id \<circ> snd) board) = set (rr_agent_ids run) \<union> sr_agent_id ` set (rr_score_rows run)
    \<and> sorted_wrt (<) (map (score_rank_key \<circ> snd) board)"
proof -
  let ?f = "\<lambda>(agent_id, rows). compute_agent_metrics agent_id
    (case map_of (rr_proof_mode_map run) agent_id of None \<Rightarrow> [] | Some p \<Rightarrow> p) rows"
  obtain ms where ms: "rtraverse ?f (rows_by_agent run) = Inr ms"
    and board: "board = zip (map int [1 ..< length ms + 1]) (sort_key score_rank_key ms)"
    using assms by (auto simp: score_run_def rbind_Inr_iff rank_rows_clean [OF metric_keys_clean])
  have names: "map am_agent_id ms = map fst (rows_by_agent run)"
    by (rule rtraverse_names [OF ms]) (auto dest: compute_agent_metrics_id)
  then have dist: "distinct (map am_agent_id ms)"
    using rows_by_agent_keys(1) [of run] by (simp add: dict_ok_def)
  have len: "length (sort_key score_rank_key ms) = length ms" by simp
  note ranks = zip_ranks [OF len, folded board]
  have agents: "map (am_agent_id \<circ> snd) board = map am_agent_id (sort_key score_rank_key ms)"
    and keys: "map (score_rank_key \<circ> snd) board = map score_rank_key (sort_key score_rank_key ms)"
    unfolding ranks(2) [symmetric] by simp_all
  have "set (map am_agent_id ms) = set (rr_agent_ids run) \<union> sr_agent_id ` set (rr_score_rows run)"
    unfolding names using rows_by_agent_keys(2) [of run] by simp
  moreover have "sorted_wrt (<) (map score_rank_key (sort_key score_rank_key ms))"
    by (rule ranked_sorted [OF dist, where last_of = last_part]) (simp add: score_rank_key_def last_part_key)
  moreover have "distinct (map am_agent_id (sort_key score_rank_key ms))" using dist by (simp add: distinct_map)
  ultimately show ?thesis unfolding agents keys ranks(3) using ranks(1) by simp
qed

definition demo_row :: "string \<Rightarrow> int \<Rightarrow> pyval \<Rightarrow> pyval \<Rightarrow> score_row" where
  "demo_row a t clv conf = \<lparr>sr_agent_id = a, sr_tick_seq = t, sr_fields = [(''valid'', VBool True), (''clv_bps'', clv),
     (''raw_prescore'', VDict [(''raw_action'', VDict [(''params'', VDict [(''confidence'', conf)])])])]\<rparr>"

definition demo_run :: run_result where
  "demo_run = \<lparr>rr_agent_ids = [''a'', ''b''], rr_score_rows = [demo_row ''a'' 0 (VInt (- 10)) VNone,
     demo_row ''b'' 0 (VInt 4) VNone, demo_row ''a'' 1 (VStr ''pending'') VNone], rr_proof_mode_map = []\<rparr>"

text \<open>
  An abstention never moves a rank: the rank key of an agent depends on its scored rows only.
  Whatever unscored rows (WAIT, pending, invalid) are added or removed, if both row lists can be
  scored their keys are equal.
\<close>

theorem abstentions_never_move_rank:
  assumes "filter is_scored rows = filter is_scored rows'"
    and "compute_agent_metrics a p rows = Inr m" and "compute_agent_metrics a p' rows' = Inr m'"
  shows "score_rank_key m = score_rank_key m'"
proof -
  have "scored_rows_of rows = scored_rows_of rows'" using assms(1) by (simp add: scored_rows_of_def)
  then show ?thesis
    using assms(2,3) by (auto simp: compute_agent_metrics_def Let_def rbind_Inr_iff score_rank_key_def)
qed

section \<open>Drawdown\<close>

text \<open>The largest fall of the running total between two points, in order.\<close>

definition psum :: "int list \<Rightarrow> nat \<Rightarrow> int" where
  "psum xs j = sum_list (take j xs)"

definition worst_drop :: "int list \<Rightarrow> int \<Rightarrow> bool" where
  "worst_drop xs d \<longleftrightarrow> (\<exists>i j. i \<le> j \<and> j \<le> length xs \<and> psum xs j - psum xs i = d)
     \<and> (\<forall>i j. i \<le> j \<longrightarrow> j \<le> length xs \<longrightarrow> d \<le> psum xs j - psum xs i)"

definition peak_of :: "int list \<Rightarrow> int \<Rightarrow> bool" where
  "peak_of xs p \<longleftrightarrow> (\<exists>i \<le> length xs. psum xs i = p) \<and> (\<forall>i \<le> length xs. psum xs i \<le> p)"

lemma psum_snoc: "j \<le> length xs \<Longrightarrow> psum (xs @ [x]) j = psum xs j"
  "psum (xs @ [x]) (Suc (length xs)) = sum_list xs + x"
  by (simp_all add: psum_def)

lemma psum_append: "j \<le> length xs \<Longrightarrow> psum (xs @ ys) j = psum xs j"
  by (simp add: psum_def)

lemma le_Suc_cases: "(\<forall>j \<le> Suc n. P j) \<longleftrightarrow> (\<forall>j \<le> n. P j) \<and> P (Suc n)"
  by (auto simp: le_Suc_eq)

lemma peak_of_snoc:
  assumes "peak_of xs p"
  shows "peak_of (xs @ [x]) (max p (sum_list xs + x))"
proof -
  obtain i where i: "i \<le> length xs" "psum xs i = p" using assms by (auto simp: peak_of_def)
  have "\<exists>i \<le> Suc (length xs). psum (xs @ [x]) i = max p (sum_list xs + x)"
  proof (cases "p \<le> sum_list xs + x")
    case True
    then show ?thesis by (intro exI [of _ "Suc (length xs)"]) (simp add: psum_snoc)
  next
    case False
    then show ?thesis using i by (intro exI [of _ i]) (simp add: psum_snoc)
  qed
  moreover have "\<forall>i \<le> Suc (length xs). psum (xs @ [x]) i \<le> max p (sum_list xs + x)"
    using assms by (auto simp: le_Suc_cases psum_snoc peak_of_def max_def intro: order_trans)
  ultimately show ?thesis by (simp add: peak_of_def)
qed

lemma worst_drop_snoc:
  assumes "worst_drop xs d" and "peak_of (xs @ [x]) q"
  shows "worst_drop (xs @ [x]) (min d (sum_list xs + x - q))"
proof -
  let ?n = "Suc (length xs)" and ?t = "sum_list xs + x"
  obtain i j where ij: "i \<le> j" "j \<le> length xs" "psum xs j - psum xs i = d" using assms(1) by (auto simp: worst_drop_def)
  obtain k where k: "k \<le> ?n" "psum (xs @ [x]) k = q" using assms(2) by (auto simp: peak_of_def)
  have "\<exists>i j. i \<le> j \<and> j \<le> ?n \<and> psum (xs @ [x]) j - psum (xs @ [x]) i = min d (?t - q)"
  proof (cases "d \<le> ?t - q")
    case True
    then show ?thesis using ij by (intro exI [of _ i] exI [of _ j]) (simp add: psum_snoc)
  next
    case False
    then show ?thesis using k by (intro exI [of _ k] exI [of _ ?n]) (simp add: psum_snoc(2))
  qed
  moreover have "min d (?t - q) \<le> psum (xs @ [x]) j - psum (xs @ [x]) i" if "i \<le> j" "j \<le> ?n" for i j
  proof (cases "j = ?n")
    case True
    have "psum (xs @ [x]) i \<le> q" using assms(2) that by (simp add: peak_of_def)
    then show ?thesis by (simp add: True psum_snoc(2))
  next
    case False
    then have "d \<le> psum xs j - psum xs i" using that assms(1) by (simp add: worst_drop_def)
    then show ?thesis using that False by (simp add: psum_snoc)
  qed
  ultimately show ?thesis by (simp add: worst_drop_def)
qed

lemma drawdown_loop_worst:
  assumes "peak_of done peak" and "worst_drop done d"
    and "\<forall>i j. i \<le> j \<longrightarrow> j \<le> length (done @ xs) \<longrightarrow> \<bar>psum (done @ xs) j - psum (done @ xs) i\<bar> \<le> 2 ^ 53"
  shows "\<exists>m. drawdown_loop xs (sum_list done) peak (Fin (of_int d)) = Inr (Fin (of_int m)) \<and> worst_drop (done @ xs) m"
  using assms
proof (induction xs arbitrary: "done" peak d)
  case (Cons x xs)
  define q where "q = max peak (sum_list done + x)"
  have pk: "peak_of (done @ [x]) q" unfolding q_def by (rule peak_of_snoc [OF Cons.prems(1)])
  then obtain k where k: "k \<le> Suc (length done)" "psum (done @ [x]) k = q" by (auto simp: peak_of_def)
  let ?c = "sum_list done + x"
  have "psum (done @ x # xs) k = q" "psum (done @ x # xs) (Suc (length done)) = ?c"
    using psum_append [of k "done @ [x]" xs] psum_append [of "Suc (length done)" "done @ [x]" xs] k
    by (simp_all add: psum_snoc(2))
  with Cons.prems(3) k(1) have "\<bar>?c - q\<bar> \<le> 2 ^ 53" by (metis length_append_singleton append_Cons append_Nil
        append_assoc le_add1 length_append)
  then have fl: "float_of_int (?c - q) = Inr (Fin (of_int (?c - q)))"
    by (simp add: float_of_int_def fl_round_int fl_fit_def del: of_int_diff of_int_add)
  have mn: "py_min (Fin (of_int d)) (Fin (of_int (?c - q))) = Fin (of_int (min d (?c - q)))"
    by (simp add: py_min_def min_def not_less del: of_int_diff of_int_add)
  have "\<exists>m. drawdown_loop xs (sum_list (done @ [x])) q (Fin (of_int (min d (?c - q)))) = Inr (Fin (of_int m))
      \<and> worst_drop ((done @ [x]) @ xs) m"
    by (rule Cons.IH [OF pk worst_drop_snoc [OF Cons.prems(2) pk]]) (use Cons.prems(3) in simp)
  then show ?case
    unfolding drawdown_loop.simps Let_def q_def [symmetric] fl rbind_simps mn by simp
qed simp

text \<open>
  The one-pass drawdown equals its definition: over any series whose running totals stay within
  the integers a float holds exactly, it is the smallest difference between a running total and an
  earlier (or the same) one, hence never positive.
\<close>

theorem max_drawdown_is_worst_drop:
  assumes "\<forall>i j. i \<le> j \<longrightarrow> j \<le> length xs \<longrightarrow> \<bar>psum xs j - psum xs i\<bar> \<le> 2 ^ 53"
  shows "\<exists>m. max_drawdown xs = Inr (Fin (of_int m)) \<and> worst_drop xs m \<and> m \<le> 0"
proof -
  have "peak_of [] 0" "worst_drop [] 0" by (simp_all add: peak_of_def worst_drop_def psum_def)
  from drawdown_loop_worst [OF this, of xs] assms
  obtain m where m: "max_drawdown xs = Inr (Fin (of_int m))" "worst_drop xs m"
    by (auto simp: max_drawdown_def)
  moreover from m(2) have "m \<le> psum xs 0 - psum xs 0" unfolding worst_drop_def by blast
  ultimately show ?thesis by auto
qed

theorem max_drawdown_is_worst_drop_witness:
  "\<exists>m. max_drawdown [5, - 8, 2] = Inr (Fin (of_int m)) \<and> worst_drop [5, - 8, 2] m \<and> m \<le> 0"
proof (rule max_drawdown_is_worst_drop, intro allI impI)
  fix i j :: nat assume "i \<le> j" "j \<le> length [5, - 8, 2 :: int]"
  then have "i \<in> {0, 1, 2, 3}" "j \<in> {0, 1, 2, 3}" by auto
  then show "\<bar>psum [5, - 8, 2] j - psum [5, - 8, 2] i\<bar> \<le> 2 ^ 53" by (auto simp: psum_def)
qed

section \<open>Untrusted confidence\<close>

lemma brier_errors_raise:
  "r \<in> set rows \<Longrightarrow> row_confidence r = Inl e \<Longrightarrow> \<exists>e. brier_errors rows = Inl e"
proof (induction rows)
  case (Cons r' rows)
  then show ?case by (cases "row_confidence r'") auto
qed simp

lemma rtraverse_raise: "x \<in> set xs \<Longrightarrow> f x = Inl e \<Longrightarrow> \<exists>e. rtraverse f xs = Inl e"
proof (induction xs)
  case (Cons y ys)
  then show ?case by (cases "f y") auto
qed simp

lemma fold_update_map_of:
  "map_of (fold (\<lambda>a. AList.update a []) as d) k = (if k \<in> set as then Some [] else map_of d k)"
  by (induction as arbitrary: d) (auto simp: update_conv')

lemma rows_by_agent_row:
  assumes "r \<in> set (rr_score_rows run)"
  shows "\<exists>rows. (sr_agent_id r, rows) \<in> set (rows_by_agent run) \<and> r \<in> set rows"
proof -
  have "map_of (rows_by_agent run) (sr_agent_id r) = Some (filter (\<lambda>v. sr_agent_id v = sr_agent_id r) (rr_score_rows run))"
    using assms by (auto simp: rows_by_agent_def map_of_group_rows fold_update_map_of)
  then show ?thesis using map_of_SomeD assms by fastforce
qed

text \<open>
  One agent can stop the scoring of everyone: a scored row whose confidence is an integer too
  large for a float makes \<open>score_run\<close> raise, for the whole run and not for that agent only.
\<close>

theorem huge_confidence_stops_scoring:
  assumes "r \<in> set (rr_score_rows run)" and "is_scored r"
    and "map_of (sr_fields r) ''raw_prescore'' =
      Some (VDict [(''raw_action'', VDict [(''params'', VDict [(''confidence'', VInt n)])])])"
    and "2 ^ 1024 \<le> n"
  shows "\<exists>e. score_run run = Inl e"
proof -
  have "fl_round (of_int n) = PInf"
    using assms(4) by (intro fl_round_overflow) (simp add: pow2_nat)
  then have "row_confidence r = Inl OverflowError"
    using assms(3) by (simp add: row_confidence_def vget_def usable_confidence_def to_float_def float_of_int_def fl_fit_def)
  moreover obtain rows where rows: "(sr_agent_id r, rows) \<in> set (rows_by_agent run)" "r \<in> set rows"
    using rows_by_agent_row [OF assms(1)] by blast
  ultimately have "\<exists>e. brier (scored_rows_of rows) = Inl e"
    using brier_errors_raise [of r "scored_rows_of rows"] assms(2) by (auto simp: brier_def scored_rows_of_def)
  then have "\<nexists>m. compute_agent_metrics (sr_agent_id r) p rows = Inr m" for p
    by (auto simp: compute_agent_metrics_def Let_def rbind_Inr_iff)
  then obtain e where "compute_agent_metrics (sr_agent_id r)
      (case map_of (rr_proof_mode_map run) (sr_agent_id r) of None \<Rightarrow> [] | Some p \<Rightarrow> p) rows = Inl e"
    by (meson obj_sumE)
  then obtain e where "rtraverse (\<lambda>(agent_id, rows). compute_agent_metrics agent_id
      (case map_of (rr_proof_mode_map run) agent_id of None \<Rightarrow> [] | Some p \<Rightarrow> p) rows) (rows_by_agent run) = Inl e"
    using rtraverse_raise [OF rows(1), of "\<lambda>(agent_id, rows). compute_agent_metrics agent_id
      (case map_of (rr_proof_mode_map run) agent_id of None \<Rightarrow> [] | Some p \<Rightarrow> p) rows"] by auto
  then show ?thesis by (simp add: score_run_def)
qed

theorem huge_confidence_stops_scoring_witness:
  "\<exists>e. score_run (demo_run\<lparr>rr_score_rows := rr_score_rows demo_run @ [demo_row ''evil'' 2 (VInt 1) (VInt (2 ^ 1024))]\<rparr>) = Inl e"
proof (rule huge_confidence_stops_scoring [of "demo_row ''evil'' 2 (VInt 1) (VInt (2 ^ 1024))", OF _ _ _ order_refl])
  show "map_of (sr_fields (demo_row ''evil'' 2 (VInt 1) (VInt (2 ^ 1024)))) ''raw_prescore'' =
      Some (VDict [(''raw_action'', VDict [(''params'', VDict [(''confidence'', VInt (2 ^ 1024))])])])"
    by (simp add: demo_row_def)
qed (simp_all add: demo_row_def is_scored_def row_valid_def row_get_def int_of_val_def)

lemma demo_metrics:
  "\<exists>m. compute_agent_metrics ''a'' [] (demo_row ''a'' 0 (VInt 8) VNone # rows) = Inr m"
  if "rows = [] \<or> rows = [demo_row ''a'' 1 pending VNone]"
  using that
  by (elim disjE; simp add: compute_agent_metrics_def scored_rows_of_def is_scored_def is_window_scored_def row_valid_def
      row_get_def row_int_def demo_row_def pending_def int_of_val_def mean_or_none_def int_truediv_def fl_fit_def
      max_drawdown_def float_of_int_def brier_def row_confidence_def vget_def usable_confidence_def)

theorem abstentions_never_move_rank_witness:
  "\<exists>m m'. compute_agent_metrics ''a'' [] [demo_row ''a'' 0 (VInt 8) VNone, demo_row ''a'' 1 pending VNone] = Inr m
     \<and> compute_agent_metrics ''a'' [] [demo_row ''a'' 0 (VInt 8) VNone] = Inr m' \<and> score_rank_key m = score_rank_key m'"
proof -
  let ?rows = "[demo_row ''a'' 0 (VInt 8) VNone, demo_row ''a'' 1 pending VNone]" and ?rows' = "[demo_row ''a'' 0 (VInt 8) VNone]"
  obtain m m' where m: "compute_agent_metrics ''a'' [] ?rows = Inr m" "compute_agent_metrics ''a'' [] ?rows' = Inr m'"
    using demo_metrics [of "[]"] demo_metrics [of "[demo_row ''a'' 1 pending VNone]"] by auto
  have "filter is_scored ?rows = filter is_scored ?rows'"
    by (simp add: is_scored_def demo_row_def row_get_def pending_def int_of_val_def)
  from abstentions_never_move_rank [OF this m] m show ?thesis by blast
qed

theorem score_run_board_witness:
  "\<exists>board. score_run (demo_run\<lparr>rr_score_rows := []\<rparr>) = Inr board \<and> map fst board = map int [1 ..< length board + 1]
     \<and> set (map (am_agent_id \<circ> snd) board) = {''a'', ''b''}"
proof -
  have "\<exists>m. compute_agent_metrics a p [] = Inr m" for a p
    by (simp add: compute_agent_metrics_def scored_rows_of_def mean_or_none_def brier_def max_drawdown_def)
  then obtain f where f: "\<And>a p. compute_agent_metrics a p [] = Inr (f a p)" by metis
  obtain board where b: "score_run (demo_run\<lparr>rr_score_rows := []\<rparr>) = Inr board"
    by (simp add: score_run_def rows_by_agent_def demo_run_def f rank_rows_clean [OF metric_keys_clean])
  have ids: "set (rr_agent_ids (demo_run\<lparr>rr_score_rows := []\<rparr>)) \<union> sr_agent_id ` set (rr_score_rows (demo_run\<lparr>rr_score_rows := []\<rparr>))
      = {''a'', ''b''}" by (simp add: demo_run_def)
  show ?thesis
    by (rule exI [of _ board], intro conjI, rule b) (use score_run_board [OF b] in \<open>simp_all only: ids\<close>)
qed

section \<open>The board does not see proof status\<close>

definition strip_status :: "board_record \<Rightarrow> board_record" where
  "strip_status r = r\<lparr>bd_anchor_status := None, bd_source_mode := None, bd_proof_mode := []\<rparr>"

definition erase_status :: "board_row \<Rightarrow> board_row" where
  "erase_status w = w\<lparr>bw_eligibility_badge := unproven, bw_anchor_status := none_anchored,
     bw_source_mode := unknown_mode, bw_proof_mode := []\<rparr>"

lemma strip_status_fields [simp]:
  "bd_agent_id (strip_status r) = bd_agent_id r" "bd_total_clv_bps (strip_status r) = bd_total_clv_bps r"
  "bd_sim_pnl (strip_status r) = bd_sim_pnl r" "bd_action_count (strip_status r) = bd_action_count r"
  "bd_brier (strip_status r) = bd_brier r" "bd_max_drawdown (strip_status r) = bd_max_drawdown r"
  "bd_valid_pct (strip_status r) = bd_valid_pct r" "bd_valid_count (strip_status r) = bd_valid_count r"
  "bd_total_window_clv_bps (strip_status r) = bd_total_window_clv_bps r"
  "bd_window_action_count (strip_status r) = bd_window_action_count r"
  by (simp_all add: strip_status_def)

lemma erase_status_key [simp]:
  "board_rank_key (erase_status w) = board_rank_key w" "bw_agent_id (erase_status w) = bw_agent_id w"
  by (simp_all add: board_rank_key_def erase_status_def)

lemma map_strip [simp]:
  "map bd_total_clv_bps (map strip_status rs) = map bd_total_clv_bps rs"
  "map bd_max_drawdown (map strip_status rs) = map bd_max_drawdown rs"
  by (simp_all add: comp_def)

lemma aggregate_strip:
  "rbind (aggregate a (map strip_status rows)) (\<lambda>w. Inr (erase_status w)) = rbind (aggregate a rows) (\<lambda>w. Inr (erase_status w))"
proof -
  have "List.map_filter bd_brier (map strip_status rows) = List.map_filter bd_brier rows"
    by (induction rows) (simp_all add: List.map_filter_simps split: option.split)
  then show ?thesis
    unfolding aggregate_def Let_def map_map comp_def strip_status_fields length_map
    by (simp add: rbind_def erase_status_def split: sum.split)
qed

lemma group_rows_map:
  assumes "\<And>r. key (f r) = key r"
  shows "group_rows key (map f rs) (map (\<lambda>(k, vs). (k, map f vs)) d) = map (\<lambda>(k, vs). (k, map f vs)) (group_rows key rs d)"
proof (induction rs arbitrary: d)
  case (Cons r rs)
  have mo: "map_of (map (\<lambda>(k, vs). (k, map f vs)) d) k = map_option (map f) (map_of d k)" for k
    by (induction d) auto
  have u: "AList.update k (map f v) (map (\<lambda>(k, vs). (k, map f vs)) d) = map (\<lambda>(k, vs). (k, map f vs)) (AList.update k v d)" for k v
    by (induction d) auto
  have "setdefault_append (key r) (f r) (map (\<lambda>(k, vs). (k, map f vs)) d)
      = map (\<lambda>(k, vs). (k, map f vs)) (setdefault_append (key r) r d)"
    using u [of "key r" "[r]"] u [of "key r" "the (map_of d (key r)) @ [r]"]
    by (cases "map_of d (key r)") (simp_all add: setdefault_append_def mo)
  with Cons show ?case by (simp add: assms)
qed simp

lemma sort_key_map_key:
  assumes "\<And>m. key (e m) = key m"
  shows "sort_key key (map e ms) = map e (sort_key key ms)"
proof (induction ms)
  case (Cons m ms)
  have "insort_key key (e m) (map e xs) = map e (insort_key key m xs)" for xs
    by (induction xs) (auto simp: assms)
  with Cons show ?case by simp
qed simp

lemma rtraverse_erase:
  assumes "\<And>x. rbind (f x) (\<lambda>y. Inr (e y)) = rbind (g x) (\<lambda>y. Inr (e y))"
  shows "rbind (rtraverse f xs) (\<lambda>ys. Inr (map e ys)) = rbind (rtraverse g xs) (\<lambda>ys. Inr (map e ys))"
proof (induction xs)
  case (Cons x xs)
  then show ?case
    using assms [of x] by (cases "f x"; cases "g x"; cases "rtraverse f xs"; cases "rtraverse g xs") auto
qed simp

lemma rtraverse_map: "rtraverse f (map h xs) = rtraverse (\<lambda>x. f (h x)) xs"
  by (induction xs) simp_all

lemma leaderboard_eq:
  "leaderboard rs = rbind (rtraverse (\<lambda>(aid, rows). aggregate aid rows) (group_rows bd_agent_id rs [])) (\<lambda>ws.
     Inr (zip (map int [1 ..< length ws + 1]) (sort_key board_rank_key ws)))"
  by (simp add: leaderboard_def rank_rows_clean [OF board_keys_clean])

definition erased_board :: "board_record list \<Rightarrow> (int \<times> board_row) list result" where
  "erased_board rs = rbind (leaderboard rs) (\<lambda>b. Inr (map (\<lambda>(i, w). (i, erase_status w)) b))"

lemma erased_board_eq:
  "erased_board rs = rbind (rbind (rtraverse (\<lambda>(aid, rows). aggregate aid rows) (group_rows bd_agent_id rs []))
      (\<lambda>ws. Inr (map erase_status ws))) (\<lambda>ws. Inr (zip (map int [1 ..< length ws + 1]) (sort_key board_rank_key ws)))"
  unfolding erased_board_def leaderboard_eq
  by (simp add: rbind_def sort_key_map_key zip_map2 del: upt_Suc split: sum.split)

lemma erased_board_strip: "erased_board (map strip_status rs) = erased_board rs"
proof -
  have "group_rows bd_agent_id (map strip_status rs) [] = map (\<lambda>(k, vs). (k, map strip_status vs)) (group_rows bd_agent_id rs [])"
    using group_rows_map [of bd_agent_id strip_status rs "[]"] by simp
  then show ?thesis
    unfolding erased_board_eq
    using rtraverse_erase [of "\<lambda>(aid, rows). aggregate aid (map strip_status rows)" erase_status
        "\<lambda>(aid, rows). aggregate aid rows" "group_rows bd_agent_id rs []"] aggregate_strip
    by (simp add: rtraverse_map case_prod_unfold)
qed

text \<open>
  Proof completeness never affects rank: two record lists that differ only in anchor status,
  source mode and proof mode yield the same board, rank by rank and column by column, except for
  the badge and the three summaries of those fields.
\<close>

theorem board_ignores_proof_status:
  assumes "map strip_status rs = map strip_status rs'" and "leaderboard rs = Inr b"
  shows "\<exists>b'. leaderboard rs' = Inr b' \<and> map (\<lambda>(i, w). (i, erase_status w)) b = map (\<lambda>(i, w). (i, erase_status w)) b'"
proof -
  have "erased_board rs = erased_board rs'"
    using erased_board_strip [of rs] erased_board_strip [of rs'] assms(1) by simp
  with assms(2) show ?thesis by (cases "leaderboard rs'") (auto simp: erased_board_def)
qed

definition demo_record :: "string \<Rightarrow> int \<Rightarrow> string option \<Rightarrow> board_record" where
  "demo_record a clv anchor = \<lparr>bd_agent_id = a, bd_total_clv_bps = clv, bd_sim_pnl = clv, bd_action_count = 1,
     bd_brier = None, bd_max_drawdown = fl_zero, bd_valid_pct = Fin 100, bd_proof_mode = ''p'',
     bd_anchor_status = anchor, bd_source_mode = None, bd_valid_count = None, bd_total_window_clv_bps = None,
     bd_window_action_count = None\<rparr>"

lemma demo_aggregate: "\<exists>w. aggregate a [demo_record a 7 s] = Inr w"
  by (simp add: aggregate_def demo_record_def pooled_mean_def opt_int_def int_truediv_def fl_fit_def fl_mean_def
      float_of_int_def fl_sum_def fl_div_def List.map_filter_simps Let_def)

lemma demo_board: "\<exists>b. leaderboard [demo_record a 7 s] = Inr b"
  using demo_aggregate [of a s] by (auto simp: leaderboard_eq setdefault_append_def demo_record_def)

theorem board_ignores_proof_status_witness:
  "\<exists>b b'. leaderboard [demo_record ''a'' 7 (Some ''anchored'')] = Inr b \<and> leaderboard [demo_record ''a'' 7 None] = Inr b'
     \<and> map (\<lambda>(i, w). (i, erase_status w)) b = map (\<lambda>(i, w). (i, erase_status w)) b'"
proof -
  have "map strip_status [demo_record ''a'' 7 (Some ''anchored'')] = map strip_status [demo_record ''a'' 7 None]"
    by (simp add: strip_status_def demo_record_def)
  with demo_board [of "''a''" "Some ''anchored''"] board_ignores_proof_status show ?thesis by metis
qed

section \<open>The board does not depend on how runs interleave\<close>

lemma aggregate_id: "aggregate a rows = Inr w \<Longrightarrow> bw_agent_id w = a"
  by (auto simp: aggregate_def Let_def rbind_Inr_iff)

lemma rtraverse_perm:
  assumes "mset xs = mset ys" and "rtraverse f xs = Inr us"
  shows "\<exists>vs. rtraverse f ys = Inr vs \<and> mset vs = mset us"
proof -
  from assms(2) have all: "\<exists>u. f x = Inr u" if "x \<in> set xs" for x
    using that by (meson rtraverse_InrD)
  define g where "g x = projr (f x)" for x
  have g: "f x = Inr (g x)" if "x \<in> set xs" for x using all [OF that] by (auto simp: g_def)
  have "rtraverse f xs = Inr (map g xs)" by (rule rtraverse_total) (rule g)
  moreover have "rtraverse f ys = Inr (map g ys)"
    by (rule rtraverse_total) (use g mset_eq_setD [OF assms(1)] in blast)
  ultimately show ?thesis using assms by simp
qed

lemma group_rows_mset:
  assumes "\<And>a. filter (\<lambda>r. key r = a) rs = filter (\<lambda>r. key r = a) rs'"
  shows "mset (group_rows key rs []) = mset (group_rows key rs' [])"
proof -
  have s: "key ` set rs = key ` set rs'"
  proof -
    have k: "a \<in> key ` set us \<longleftrightarrow> filter (\<lambda>r. key r = a) us \<noteq> []" for a us
      by (auto simp: filter_empty_conv)
    show ?thesis by (rule set_eqI) (simp only: k assms)
  qed
  have d: "distinct (group_rows key rs [])" "distinct (group_rows key rs' [])"
    using dict_ok_group_rows [of "[]" key] by (auto simp: dict_ok_def distinct_map)
  have "map_of (group_rows key rs []) = map_of (group_rows key rs' [])"
    by (rule ext) (simp add: map_of_group_rows s assms)
  then have "set (group_rows key rs []) = set (group_rows key rs' [])"
    using map_of_inject_set [of "group_rows key rs []" "group_rows key rs' []"]
      dict_ok_group_rows [of "[]" key rs] dict_ok_group_rows [of "[]" key rs'] by (simp add: dict_ok_def)
  with d show ?thesis by (simp add: set_eq_iff_mset_eq_distinct)
qed

text \<open>
  The board is deterministic across interleavings: if two record lists hold, for every agent, the
  same records in the same order, then whenever one of them yields a board the other yields the
  identical board.
\<close>

theorem board_independent_of_interleaving:
  assumes "\<And>a. filter (\<lambda>r. bd_agent_id r = a) rs = filter (\<lambda>r. bd_agent_id r = a) rs'" and "leaderboard rs = Inr b"
  shows "leaderboard rs' = Inr b"
proof -
  let ?agg = "\<lambda>(aid, rows). aggregate aid rows"
  obtain ws where ws: "rtraverse ?agg (group_rows bd_agent_id rs []) = Inr ws"
    and b: "b = zip (map int [1 ..< length ws + 1]) (sort_key board_rank_key ws)"
    using assms(2) by (auto simp: leaderboard_eq rbind_Inr_iff)
  obtain ws' where ws': "rtraverse ?agg (group_rows bd_agent_id rs' []) = Inr ws'" "mset ws' = mset ws"
    using rtraverse_perm [OF group_rows_mset ws, of rs'] assms(1) by blast
  have "map bw_agent_id ws = map fst (group_rows bd_agent_id rs [])"
    by (rule rtraverse_names [OF ws]) (auto dest: aggregate_id)
  then have "distinct (map bw_agent_id ws)"
    using dict_ok_group_rows [of "[]" bd_agent_id rs] by (simp add: dict_ok_def)
  then have "inj_on board_rank_key (set ws)"
    by (auto simp: distinct_map inj_on_def board_rank_key_def rank_key_def)
  then have "sort_key board_rank_key ws = sort_key board_rank_key ws'"
    using ws'(2) by (intro sort_key_inj_key_eq) simp_all
  with ws' show ?thesis
    by (simp add: leaderboard_eq b) (metis size_mset)
qed

theorem board_independent_of_interleaving_witness:
  "\<exists>b. leaderboard [demo_record ''a'' 7 None, demo_record ''b'' 7 None] = Inr b
     \<and> leaderboard [demo_record ''b'' 7 None, demo_record ''a'' 7 None] = Inr b"
proof -
  have "\<forall>a. \<exists>w. aggregate a [demo_record a 7 None] = Inr w" using demo_aggregate by blast
  from choice [OF this] obtain f where f: "\<And>a. aggregate a [demo_record a 7 None] = Inr (f a)" by blast
  have ids: "bd_agent_id (demo_record a c s) = a" for a c s by (simp add: demo_record_def)
  obtain b where b: "leaderboard [demo_record ''a'' 7 None, demo_record ''b'' 7 None] = Inr b"
    by (simp add: leaderboard_eq setdefault_append_def ids f)
  have "leaderboard [demo_record ''b'' 7 None, demo_record ''a'' 7 None] = Inr b"
    by (rule board_independent_of_interleaving [OF _ b]) (simp add: ids)
  with b show ?thesis by blast
qed

section \<open>The maker board\<close>

definition rank_clean :: "maker_row \<Rightarrow> bool" where
  "rank_clean r \<longleftrightarrow> set (mr_keys r) \<inter> (set r3_r4_rank_denylist \<union> set r2_bracket_keys) = {}"

text \<open>
  The maker board ranks exactly the clean inputs: if any row carries an execution, strategy
  telemetry or sensitivity-bracket field it raises and ranks nothing; otherwise it returns the
  same rows, numbered 1 to N, ordered by toxicity loss with missing losses last, then by the
  documented tie-breakers.
\<close>

theorem rank_makers_iff_clean:
  "rank_makers rows = (if list_all rank_clean rows
     then Inr (zip (map int [1 ..< length rows + 1]) (sort_key maker_key_of rows)) else Inl AssertionError)"
proof (cases "\<exists>r \<in> set rows. \<exists>k \<in> set (mr_keys r). k \<in> set r3_r4_rank_denylist")
  case True
  then have "rtraverse (\<lambda>r. assert_no_r3r4_in_rank (mr_keys r)) rows = Inl AssertionError"
    using rtraverse_disj [of "\<lambda>r. assert_no_r3r4_in_rank (mr_keys r)" rows]
      rtraverse_raise [of _ rows "\<lambda>r. assert_no_r3r4_in_rank (mr_keys r)" AssertionError]
    by (fastforce simp: assert_no_r3r4_in_rank_def split: if_splits)
  moreover have "\<not> list_all rank_clean rows" using True by (auto simp: list_all_iff rank_clean_def)
  ultimately show ?thesis by (simp add: rank_makers_def)
next
  case False
  then have g: "assert_no_r3r4_in_rank (mr_keys r) = Inr ()" if "r \<in> set rows" for r
    using that by (auto simp: assert_no_r3r4_in_rank_def)
  have "rtraverse (\<lambda>r. assert_no_r3r4_in_rank (mr_keys r)) rows = Inr (map (\<lambda>_. ()) rows)"
    by (rule rtraverse_total) (simp add: g)
  moreover have "rtraverse maker_rank_key rows = Inr (map maker_key_of rows)"
    by (rule rtraverse_total) (simp add: maker_rank_key_def g)
  moreover have "list_all rank_clean rows \<longleftrightarrow> assert_bracket_not_ranked rows = Inr ()"
    using False by (auto simp: list_all_iff rank_clean_def assert_bracket_not_ranked_def split: if_splits)
  moreover have "assert_bracket_not_ranked rows \<noteq> Inr () \<Longrightarrow> assert_bracket_not_ranked rows = Inl AssertionError"
    by (simp add: assert_bracket_not_ranked_def split: if_splits)
  ultimately show ?thesis
    by (cases "list_all rank_clean rows") (simp_all add: rank_makers_def del: upt_Suc)
qed

end
