(* ===== verification/Run.thy ===== *)
theory Run
  imports Scoring
begin

text \<open>
  One competition run: canonical evidence (\<open>src/veridex/runtime/evidence.py\<close>), the coverage
  window (\<open>runtime/window.py\<close>) and the orchestrator (\<open>runtime/orchestrator.py\<close>), which
  feeds ticks to all agents, seals the evidence and scores the decisions.

  Serialization and SHA-256 come from the standard library and are the fields of a \<open>codec\<close>: the
  compact canonical JSON text, the JSON text with default separators, the JSON reader and the hex digest.
  What an agent answers on a tick (an action, nothing, or the exception or timeout it ended with) is a
  function of the agent; the loop waits for all answers of a tick before it records them.
\<close>

section \<open>Evidence (\<open>runtime/evidence.py\<close>, \<open>runtime/schemas.py\<close>)\<close>

record codec =
  cd_serialize :: "pyval \<Rightarrow> string"
  cd_dumps :: "pyval \<Rightarrow> string"
  cd_loads :: "string \<Rightarrow> pyval result"
  cd_sha256 :: "string \<Rightarrow> string"

record run_event =
  re_sequence_no :: int
  re_event_type :: string
  re_state_snapshot_json :: "string option"
  re_action_payload_json :: "string option"
  re_validation_payload_json :: "string option"
  re_result_payload_json :: "string option"

definition opt_str :: "string option \<Rightarrow> pyval" where
  "opt_str v = (case v of None \<Rightarrow> VNone | Some s \<Rightarrow> VStr s)"

definition run_event_dict :: "run_event \<Rightarrow> pyval" where
  "run_event_dict e = VDict
     [(''sequence_no'', VInt (re_sequence_no e)), (''event_type'', VStr (re_event_type e)),
      (''state_snapshot_json'', opt_str (re_state_snapshot_json e)),
      (''action_payload_json'', opt_str (re_action_payload_json e)),
      (''validation_payload_json'', opt_str (re_validation_payload_json e)),
      (''result_payload_json'', opt_str (re_result_payload_json e))]"

fun seen_twice :: "int list \<Rightarrow> int set \<Rightarrow> bool" where
  "seen_twice [] seen = False"
| "seen_twice (q # qs) seen = (if q \<in> seen then True else seen_twice qs (insert q seen))"

definition compute_evidence_hash :: "codec \<Rightarrow> run_event list \<Rightarrow> string result" where
  "compute_evidence_hash cd events =
     (let sorted_events = sort_key re_sequence_no events in
      if seen_twice (map re_sequence_no sorted_events) {} then Inl ValueError
      else Inr (cd_sha256 cd (cd_serialize cd (VList (map run_event_dict sorted_events)))))"

definition build_raw_prescore_record ::
  "codec \<Rightarrow> string \<Rightarrow> pyval \<Rightarrow> string \<Rightarrow> string \<Rightarrow> string \<Rightarrow> int \<Rightarrow> string \<Rightarrow> (string \<times> pyval) list" where
  "build_raw_prescore_record cd evidence_hash raw_action schema_version agent_id config_hash tick_seq proof_mode =
     (let bound = [(''action_schema_version'', VStr schema_version), (''agent_id'', VStr agent_id),
                   (''evidence_hash'', VStr evidence_hash), (''model_prompt_config_hash'', VStr config_hash),
                   (''proof_mode'', VStr proof_mode), (''raw_action'', raw_action), (''tick_seq'', VInt tick_seq)]
      in [(''record_kind'', VStr ''raw_prescore''),
          (''raw_prescore_hash'', VStr (cd_sha256 cd (cd_serialize cd (VDict bound))))] @ bound)"

section \<open>Coverage window (\<open>runtime/window.py\<close>)\<close>

datatype end_rule = pre_match | fixed_duration | manual_stop

fun end_rule_text :: "end_rule \<Rightarrow> string" where
  "end_rule_text pre_match = ''pre_match''"
| "end_rule_text fixed_duration = ''fixed_duration''"
| "end_rule_text manual_stop = ''manual_stop''"

record run_window =
  rw_window_id :: string
  rw_fixture_id :: int
  rw_market_allowlist :: "string list"
  rw_end_rule :: end_rule
  rw_duration_s :: "int option"
  rw_min_clv_horizon_s :: int
  rw_started_ts :: "int option"

definition mk_run_window ::
  "string \<Rightarrow> int \<Rightarrow> string list \<Rightarrow> end_rule \<Rightarrow> int option \<Rightarrow> int \<Rightarrow> run_window result" where
  "mk_run_window window_id fixture_id allowlist rule duration horizon =
     (if rule = fixed_duration \<and> duration = None then Inl ValueError
      else if rule \<noteq> fixed_duration \<and> duration \<noteq> None then Inl ValueError
      else Inr \<lparr>rw_window_id = window_id, rw_fixture_id = fixture_id, rw_market_allowlist = allowlist,
                rw_end_rule = rule, rw_duration_s = duration, rw_min_clv_horizon_s = horizon, rw_started_ts = None\<rparr>)"

definition clv_field_name :: "end_rule \<Rightarrow> string" where
  "clv_field_name rule = (if rule = pre_match then ''clv_bps'' else ''window_clv_bps'')"

definition is_pending_horizon :: "int \<Rightarrow> int \<Rightarrow> int \<Rightarrow> bool" where
  "is_pending_horizon entry_ts window_end_ts min_clv_horizon_s = (window_end_ts - entry_ts < min_clv_horizon_s)"

section \<open>Dumps of the model's values\<close>

definition market_dict :: "market \<Rightarrow> pyval" where
  "market_dict m = VDict
     [(''suspended'', VBool (ms_suspended m)),
      (''stable_prob_bps'', VDict (map (\<lambda>(k, v). (k, VInt v)) (ms_stable_prob_bps m))),
      (''stable_price'', VDict (ms_stable_price m))]"

definition market_state_dict :: "market_state \<Rightarrow> pyval" where
  "market_state_dict st = VDict
     [(''fixture_id'', VInt (mst_fixture_id st)), (''tick_seq'', VInt (mst_tick_seq st)),
      (''ts'', VInt (mst_ts st)), (''phase'', VInt (mst_phase st)),
      (''markets'', VDict (map (\<lambda>(k, m). (k, market_dict m)) (mst_markets st))),
      (''scores'', VDict (map (\<lambda>(k, v). (k, VInt v)) (mst_scores st)))]"

fun action_type_text :: "action_type \<Rightarrow> string" where
  "action_type_text WAIT = ''WAIT''"
| "action_type_text FLAG_VALUE = ''FLAG_VALUE''"
| "action_type_text FOLLOW_MOMENTUM = ''FOLLOW_MOMENTUM''"
| "action_type_text FADE = ''FADE''"
| "action_type_text WIDEN_OR_SUSPEND = ''WIDEN_OR_SUSPEND''"

definition action_dict :: "agent_action \<Rightarrow> pyval" where
  "action_dict a = VDict [(''type'', VStr (action_type_text (aa_type a))), (''params'', VDict (aa_params a))]"

section \<open>The run (\<open>runtime/orchestrator.py\<close>)\<close>

datatype decide_outcome =
    Acted agent_action
  | NoAction
  | Failed string string  \<comment> \<open>the exception's type name and message\<close>

record agent =
  ag_agent_id :: string
  ag_proof_mode :: string
  ag_decide :: "market_state \<Rightarrow> decide_outcome"
  ag_config_hash :: "(market_state \<Rightarrow> string) option"

definition agent_config_hash :: "codec \<Rightarrow> string \<Rightarrow> string \<Rightarrow> string \<Rightarrow> string" where
  "agent_config_hash cd model_id prompt schema_version =
     cd_sha256 cd (cd_dumps cd (VDict [(''model_id'', VStr model_id), (''prompt'', VStr prompt),
       (''schema_version'', VStr schema_version)]))"

record sealed_run = run_result +
  sl_run_id :: string
  sl_source_mode :: string
  sl_run_events :: "run_event list"
  sl_evidence_hash :: string

record competition_run =
  cr_agents :: "agent list"
  cr_source_mode :: string
  cr_run_id :: string
  cr_raw_events :: "run_event list"
  cr_decisions :: "(agent \<times> agent_action \<times> market_state) list"
  cr_snapshots :: "market_state list"
  cr_sequence_no :: int
  cr_finalized :: bool

definition new_competition_run :: "agent list \<Rightarrow> string \<Rightarrow> string \<Rightarrow> competition_run result" where
  "new_competition_run agents source_mode run_id =
     (if source_mode \<noteq> ''replay'' \<and> source_mode \<noteq> ''live'' then Inl ValueError
      else Inr \<lparr>cr_agents = agents, cr_source_mode = source_mode, cr_run_id = run_id, cr_raw_events = [],
                cr_decisions = [], cr_snapshots = [], cr_sequence_no = 0, cr_finalized = False\<rparr>)"

text \<open>The sink observes each event as it is emitted, on a state of its own; it may raise.\<close>

type_synonym 's sink = "(run_event \<Rightarrow> ('s, unit) eff) option"

definition on_sink :: "('s, unit) eff \<Rightarrow> (competition_run \<times> 's, unit) eff" where
  "on_sink m = (\<lambda>(run, s). let (r, s') = m s in (r, (run, s')))"

definition on_run :: "(competition_run \<Rightarrow> competition_run) \<Rightarrow> (competition_run \<times> 's, unit) eff" where
  "on_run f = eupdate (\<lambda>(run, s). (f run, s))"

definition emit :: "'s sink \<Rightarrow> run_event \<Rightarrow> (competition_run \<times> 's, unit) eff" where
  "emit sink ev =
     ebind (on_run (\<lambda>run. run\<lparr>cr_raw_events := cr_raw_events run @ [ev]\<rparr>)) (\<lambda>_.
       case sink of None \<Rightarrow> ereturn () | Some f \<Rightarrow> on_sink (f ev))"

definition advance :: "(competition_run \<times> 's, unit) eff" where
  "advance = on_run (\<lambda>run. run\<lparr>cr_sequence_no := cr_sequence_no run + 1\<rparr>)"

definition tick_event :: "codec \<Rightarrow> market_state \<Rightarrow> int \<Rightarrow> run_event" where
  "tick_event cd snapshot n = \<lparr>re_sequence_no = n, re_event_type = ''tick'',
     re_state_snapshot_json = Some (cd_serialize cd (market_state_dict snapshot)), re_action_payload_json = None,
     re_validation_payload_json = None, re_result_payload_json = None\<rparr>"

definition error_event :: "codec \<Rightarrow> string \<Rightarrow> string \<Rightarrow> string \<Rightarrow> int \<Rightarrow> run_event" where
  "error_event cd agent_id err message n = \<lparr>re_sequence_no = n, re_event_type = ''error'',
     re_state_snapshot_json = None, re_action_payload_json = None, re_validation_payload_json = None,
     re_result_payload_json = Some (cd_serialize cd (VDict
       [(''agent_id'', VStr agent_id), (''error'', VStr err), (''message'', VStr message)]))\<rparr>"

definition decision_event :: "codec \<Rightarrow> string \<Rightarrow> agent_action \<Rightarrow> int \<Rightarrow> run_event" where
  "decision_event cd agent_id action n = \<lparr>re_sequence_no = n, re_event_type = ''decision'',
     re_state_snapshot_json = None, re_action_payload_json = Some (cd_serialize cd (action_dict action)),
     re_validation_payload_json = None,
     re_result_payload_json = Some (cd_serialize cd (VDict [(''agent_id'', VStr agent_id)]))\<rparr>"

definition record_result ::
  "codec \<Rightarrow> 's sink \<Rightarrow> market_state \<Rightarrow> agent \<times> decide_outcome \<Rightarrow> (competition_run \<times> 's, unit) eff" where
  "record_result cd sink snapshot res =
     (case res of (agent, outcome) \<Rightarrow>
        ebind (eread (cr_sequence_no \<circ> fst)) (\<lambda>n.
        ebind (case outcome of
                 Failed err message \<Rightarrow> emit sink (error_event cd (ag_agent_id agent) err message n)
               | NoAction \<Rightarrow> emit sink (error_event cd (ag_agent_id agent) ''NoAction'' ''agent returned no action'' n)
               | Acted action \<Rightarrow>
                   ebind (emit sink (decision_event cd (ag_agent_id agent) action n)) (\<lambda>_.
                     on_run (\<lambda>run. run\<lparr>cr_decisions := cr_decisions run @ [(agent, action, snapshot)]\<rparr>)))
          (\<lambda>_. advance)))"

definition emit_tick :: "codec \<Rightarrow> 's sink \<Rightarrow> market_state \<Rightarrow> (competition_run \<times> 's, unit) eff" where
  "emit_tick cd sink snapshot =
     ebind (eread (cr_finalized \<circ> fst)) (\<lambda>done.
       if done then eraise RuntimeError
       else
         ebind (on_run (\<lambda>run. run\<lparr>cr_snapshots := cr_snapshots run @ [snapshot]\<rparr>)) (\<lambda>_.
         ebind (eread (cr_sequence_no \<circ> fst)) (\<lambda>n.
         ebind (emit sink (tick_event cd snapshot n)) (\<lambda>_. advance))))"

definition feed :: "codec \<Rightarrow> 's sink \<Rightarrow> market_state \<Rightarrow> (competition_run \<times> 's, unit) eff" where
  "feed cd sink snapshot =
     ebind (emit_tick cd sink snapshot) (\<lambda>_.
     ebind (eread ((\<lambda>run. map (\<lambda>a. (a, ag_decide a snapshot)) (cr_agents run)) \<circ> fst)) (\<lambda>results.
       efor results (record_result cd sink snapshot)))"

definition feed_closing :: "codec \<Rightarrow> 's sink \<Rightarrow> market_state \<Rightarrow> (competition_run \<times> 's, unit) eff" where
  "feed_closing cd sink snapshot = emit_tick cd sink snapshot"

section \<open>Sealing and scoring\<close>

definition closing_snapshots :: "market_state list \<Rightarrow> (string, market_state) dict" where
  "closing_snapshots states =
     fold (\<lambda>st d. fold (\<lambda>(key, _). AList.update key st) (mst_markets st) d) states []"

text \<open>\<open>closing_by_market.get(market_key) if market_key else None\<close>: a key that cannot be hashed raises.\<close>

definition closing_for :: "(string, market_state) dict \<Rightarrow> agent_action \<Rightarrow> market_state option result" where
  "closing_for closing action =
     (let market_key = param action ''market_key'' in
      if \<not> truthy market_key then Inr None
      else rbind (str_key market_key) (\<lambda>k. Inr (Option.bind k (map_of closing))))"

definition raw_score_row ::
  "codec \<Rightarrow> string \<Rightarrow> agent \<Rightarrow> agent_action \<Rightarrow> market_state \<Rightarrow> law_verdict \<Rightarrow> score_row" where
  "raw_score_row cd evidence_hash agent action snapshot v =
     (let config_hash = (case ag_config_hash agent of
            Some f \<Rightarrow> f snapshot | None \<Rightarrow> agent_config_hash cd (ag_agent_id agent) '''' ''sports_v0'');
          prescore = build_raw_prescore_record cd evidence_hash (action_dict action) ''sports_v0''
            (ag_agent_id agent) config_hash (mst_tick_seq snapshot) (ag_proof_mode agent);
          prescore_hash = (case map_of prescore ''raw_prescore_hash'' of Some h \<Rightarrow> h | None \<Rightarrow> VNone)
      in \<lparr>sr_agent_id = ag_agent_id agent, sr_tick_seq = mst_tick_seq snapshot,
          sr_fields = [(''raw_prescore_hash'', prescore_hash), (''recomputed_edge_bps'', VInt (lv_edge_bps v)),
            (''proof_mode'', VStr (ag_proof_mode agent)), (''clv_bps'', lv_clv_bps v), (''valid'', VBool (lv_valid v)),
            (''reason'', VStr (reason_text (lv_reason v))), (''kelly_fraction'', VFloat (lv_kelly_fraction v)),
            (''raw_prescore'', VDict prescore)]\<rparr>)"

definition window_end :: "run_window option \<Rightarrow> market_state list \<Rightarrow> int option" where
  "window_end window snapshots = (if window = None \<or> snapshots = [] then None else Some (mst_ts (last snapshots)))"

definition window_override :: "run_window option \<Rightarrow> int option \<Rightarrow> market_state \<Rightarrow> score_row \<Rightarrow> score_row" where
  "window_override window end_ts snapshot row =
     (case (window, end_ts) of
        (Some w, Some e) \<Rightarrow>
          if \<not> is_scored row then row
          else if is_pending_horizon (mst_ts snapshot) e (rw_min_clv_horizon_s w) then
            row\<lparr>sr_fields := AList.update ''clv_bps'' pending
                 (AList.update ''reason'' (VStr ''pending_horizon'') (sr_fields row))\<rparr>
          else if clv_field_name (rw_end_rule w) \<noteq> ''clv_bps'' then
            row\<lparr>sr_fields := AList.update (clv_field_name (rw_end_rule w)) (row_get row ''clv_bps'')
                 (AList.delete ''clv_bps'' (sr_fields row))\<rparr>
          else row
      | _ \<Rightarrow> row)"

definition score_decision ::
  "codec \<Rightarrow> (string \<Rightarrow> pyfloat option) \<Rightarrow> string \<Rightarrow> run_window option \<Rightarrow> market_state list \<Rightarrow> string
   \<Rightarrow> agent \<times> agent_action \<times> market_state \<Rightarrow> score_row result" where
  "score_decision cd parse source_mode window snapshots evidence_hash d =
     (case d of (agent, action, snapshot) \<Rightarrow>
        rbind (closing_for (closing_snapshots snapshots) action) (\<lambda>closing.
        rbind (recompute parse snapshot action closing source_mode) (\<lambda>v.
          Inr (window_override window (window_end window snapshots) snapshot
                 (raw_score_row cd evidence_hash agent action snapshot v)))))"

definition window_config_event :: "codec \<Rightarrow> run_window \<Rightarrow> int \<Rightarrow> int \<Rightarrow> run_event" where
  "window_config_event cd w end_ts n = \<lparr>re_sequence_no = n, re_event_type = ''window_config'',
     re_state_snapshot_json = None, re_action_payload_json = None, re_validation_payload_json = None,
     re_result_payload_json = Some (cd_serialize cd (VDict
       [(''end_rule'', VStr (end_rule_text (rw_end_rule w))), (''min_clv_horizon_s'', VInt (rw_min_clv_horizon_s w)),
        (''window_end_ts'', VInt end_ts)]))\<rparr>"

text \<open>Stamping the window with the first tick fed.\<close>

definition stamp_window :: "market_state list \<Rightarrow> run_window \<Rightarrow> run_window" where
  "stamp_window snapshots w =
     (if snapshots \<noteq> [] \<and> rw_started_ts w = None then w\<lparr>rw_started_ts := Some (mst_ts (hd snapshots))\<rparr> else w)"

text \<open>Validate, hash and score what has been recorded.\<close>

definition seal :: "codec \<Rightarrow> (string \<Rightarrow> pyfloat option) \<Rightarrow> run_window option \<Rightarrow> competition_run \<Rightarrow> sealed_run result" where
  "seal cd parse window run =
     rbind (compute_evidence_hash cd (cr_raw_events run)) (\<lambda>evidence_hash.
     rbind (rtraverse (score_decision cd parse (cr_source_mode run) window (cr_snapshots run) evidence_hash)
              (cr_decisions run)) (\<lambda>score_rows.
       Inr \<lparr>rr_agent_ids = map ag_agent_id (cr_agents run), rr_score_rows = score_rows,
            rr_proof_mode_map = fold (\<lambda>a. AList.update (ag_agent_id a) (ag_proof_mode a)) (cr_agents run) [],
            sl_run_id = cr_run_id run, sl_source_mode = cr_source_mode run, sl_run_events = cr_raw_events run,
            sl_evidence_hash = evidence_hash\<rparr>))"

definition emit_window_config ::
  "codec \<Rightarrow> 's sink \<Rightarrow> run_window option \<Rightarrow> int option \<Rightarrow> int \<Rightarrow> (competition_run \<times> 's, unit) eff" where
  "emit_window_config cd sink window end_ts n =
     (case (window, end_ts) of
        (Some w, Some e) \<Rightarrow> ebind (emit sink (window_config_event cd w e n)) (\<lambda>_. advance)
      | _ \<Rightarrow> ereturn ())"

definition finalize ::
  "codec \<Rightarrow> (string \<Rightarrow> pyfloat option) \<Rightarrow> 's sink \<Rightarrow> (sealed_run \<Rightarrow> ('s, unit) eff) option \<Rightarrow> run_window option
   \<Rightarrow> (competition_run \<times> 's, sealed_run \<times> run_window option) eff" where
  "finalize cd parse sink persist window =
     ebind (eread (id \<circ> fst)) (\<lambda>run.
       if cr_finalized run then eraise RuntimeError
       else
         let stamped = map_option (stamp_window (cr_snapshots run)) window in
         ebind (emit_window_config cd sink stamped (window_end window (cr_snapshots run)) (cr_sequence_no run)) (\<lambda>_.
         ebind (eread (id \<circ> fst)) (\<lambda>run'.
         ebind (elift (seal cd parse window run')) (\<lambda>run_result.
         ebind (case persist of None \<Rightarrow> ereturn () | Some f \<Rightarrow> on_sink (f run_result)) (\<lambda>_.
         ebind (on_run (\<lambda>r. r\<lparr>cr_finalized := True\<rparr>)) (\<lambda>_.
           ereturn (run_result, stamped)))))))"

definition run_competition ::
  "codec \<Rightarrow> (string \<Rightarrow> pyfloat option) \<Rightarrow> 's sink \<Rightarrow> (sealed_run \<Rightarrow> ('s, unit) eff) option
   \<Rightarrow> market_state list \<Rightarrow> agent list \<Rightarrow> string \<Rightarrow> string \<Rightarrow> ('s, sealed_run) eff" where
  "run_competition cd parse sink persist marketstates agents source_mode run_id =
     (\<lambda>s. case new_competition_run agents source_mode run_id of
        Inl e \<Rightarrow> (Inl e, s)
      | Inr run \<Rightarrow>
          (case ebind (efor marketstates (feed cd sink)) (\<lambda>_. finalize cd parse sink persist None) (run, s) of
             (r, (_, s')) \<Rightarrow> (rbind r (\<lambda>(sealed, _). Inr sealed), s')))"

section \<open>What a run records\<close>

text \<open>
  The effect of the loop on the run alone, and the events it emits. An operation follows a list of
  events when, for every sink state, it hands exactly these events to the sink in order and ends in
  the given run, unless the sink raises first.
\<close>

definition sink_all :: "'s sink \<Rightarrow> run_event list \<Rightarrow> ('s, unit) eff" where
  "sink_all sink evs = (case sink of None \<Rightarrow> ereturn () | Some f \<Rightarrow> efor evs f)"

definition follows ::
  "'s sink \<Rightarrow> (competition_run \<times> 's, unit) eff \<Rightarrow> competition_run \<Rightarrow> run_event list \<Rightarrow> competition_run \<Rightarrow> bool" where
  "follows sink m run evs run' \<longleftrightarrow> (\<forall>s. case sink_all sink evs s of
       (Inr _, s') \<Rightarrow> m (run, s) = (Inr (), (run', s'))
     | (Inl e, s') \<Rightarrow> \<exists>run''. m (run, s) = (Inl e, (run'', s')))"

lemma sink_all_append: "sink_all sink (xs @ ys) = ebind (sink_all sink xs) (\<lambda>_. sink_all sink ys)"
  by (cases sink) (simp_all add: sink_all_def efor_append fun_eq_iff)

lemma follows_bind:
  assumes "follows sink m run evs run'" and "follows sink m' run' evs' run''"
  shows "follows sink (ebind m (\<lambda>_. m')) run (evs @ evs') run''"
  unfolding follows_def
proof
  fix s
  obtain r s1 where 1: "sink_all sink evs s = (r, s1)" by (cases "sink_all sink evs s")
  show "case sink_all sink (evs @ evs') s of
      (Inr _, s') \<Rightarrow> ebind m (\<lambda>_. m') (run, s) = (Inr (), (run'', s'))
    | (Inl e, s') \<Rightarrow> \<exists>run''. ebind m (\<lambda>_. m') (run, s) = (Inl e, (run'', s'))"
  proof (cases r)
    case (Inl e)
    with 1 assms(1) obtain run3 where "m (run, s) = (Inl e, (run3, s1))"
      by (auto simp: follows_def dest!: spec [of _ s])
    with 1 Inl show ?thesis by (simp add: sink_all_append ebind_Inl)
  next
    case (Inr u)
    with 1 assms(1) have m: "m (run, s) = (Inr (), (run', s1))"
      by (auto simp: follows_def dest!: spec [of _ s])
    have "sink_all sink (evs @ evs') s = sink_all sink evs' s1"
      using 1 Inr by (simp add: sink_all_append ebind_Inr)
    with assms(2) m show ?thesis
      by (auto simp: follows_def ebind_Inr split: prod.splits sum.splits)
  qed
qed

lemma follows_read: "follows sink (h (g run)) run evs run' \<Longrightarrow> follows sink (ebind (eread (g \<circ> fst)) h) run evs run'"
  by (auto simp: follows_def split: prod.splits sum.splits)

lemma follows_on_run: "follows sink (on_run f) run [] (f run)"
  by (simp add: follows_def eff_apply on_run_def sink_all_def split: option.splits)

lemma follows_return: "follows sink (ereturn ()) run [] run"
  by (simp add: follows_def eff_apply sink_all_def split: option.splits)

lemma follows_emit: "follows sink (emit sink ev) run [ev] (run\<lparr>cr_raw_events := cr_raw_events run @ [ev]\<rparr>)"
  by (auto simp: follows_def emit_def on_run_def on_sink_def sink_all_def ebind_def ereturn_def eupdate_def
      split: option.splits prod.splits sum.splits)

definition result_event :: "codec \<Rightarrow> agent \<times> decide_outcome \<Rightarrow> int \<Rightarrow> run_event" where
  "result_event cd res n = (case res of (agent, outcome) \<Rightarrow> (case outcome of
       Failed err message \<Rightarrow> error_event cd (ag_agent_id agent) err message n
     | NoAction \<Rightarrow> error_event cd (ag_agent_id agent) ''NoAction'' ''agent returned no action'' n
     | Acted action \<Rightarrow> decision_event cd (ag_agent_id agent) action n))"

definition result_decisions :: "market_state \<Rightarrow> agent \<times> decide_outcome \<Rightarrow> (agent \<times> agent_action \<times> market_state) list" where
  "result_decisions snapshot res = (case res of (agent, outcome) \<Rightarrow> (case outcome of
       Acted action \<Rightarrow> [(agent, action, snapshot)] | _ \<Rightarrow> []))"

definition pure_result :: "codec \<Rightarrow> market_state \<Rightarrow> agent \<times> decide_outcome \<Rightarrow> competition_run \<Rightarrow> competition_run" where
  "pure_result cd snapshot res run = run\<lparr>
     cr_raw_events := cr_raw_events run @ [result_event cd res (cr_sequence_no run)],
     cr_decisions := cr_decisions run @ result_decisions snapshot res,
     cr_sequence_no := cr_sequence_no run + 1\<rparr>"

definition pure_tick :: "codec \<Rightarrow> market_state \<Rightarrow> competition_run \<Rightarrow> competition_run" where
  "pure_tick cd snapshot run = run\<lparr>
     cr_snapshots := cr_snapshots run @ [snapshot],
     cr_raw_events := cr_raw_events run @ [tick_event cd snapshot (cr_sequence_no run)],
     cr_sequence_no := cr_sequence_no run + 1\<rparr>"

definition answers :: "competition_run \<Rightarrow> market_state \<Rightarrow> (agent \<times> decide_outcome) list" where
  "answers run snapshot = map (\<lambda>a. (a, ag_decide a snapshot)) (cr_agents run)"

definition pure_feed :: "codec \<Rightarrow> market_state \<Rightarrow> competition_run \<Rightarrow> competition_run" where
  "pure_feed cd snapshot run = fold (pure_result cd snapshot) (answers run snapshot) (pure_tick cd snapshot run)"

lemma follows_result:
  "follows sink (record_result cd sink snapshot res) run [result_event cd res (cr_sequence_no run)]
     (pure_result cd snapshot res run)"
proof -
  obtain agent outcome where res: "res = (agent, outcome)" by (cases res)
  let ?ev = "result_event cd res (cr_sequence_no run)"
  let ?run1 = "run\<lparr>cr_raw_events := cr_raw_events run @ [?ev]\<rparr>"
  let ?run2 = "?run1\<lparr>cr_decisions := cr_decisions run @ result_decisions snapshot res\<rparr>"
  have body: "follows sink (case outcome of
        Failed err message \<Rightarrow> emit sink (error_event cd (ag_agent_id agent) err message (cr_sequence_no run))
      | NoAction \<Rightarrow> emit sink (error_event cd (ag_agent_id agent) ''NoAction'' ''agent returned no action'' (cr_sequence_no run))
      | Acted action \<Rightarrow>
          ebind (emit sink (decision_event cd (ag_agent_id agent) action (cr_sequence_no run))) (\<lambda>_.
            on_run (\<lambda>run. run\<lparr>cr_decisions := cr_decisions run @ [(agent, action, snapshot)]\<rparr>))) run [?ev] ?run2"
  proof (cases outcome)
    case (Acted action)
    with follows_bind [OF follows_emit [of sink ?ev run] follows_on_run
      [of sink "\<lambda>run. run\<lparr>cr_decisions := cr_decisions run @ [(agent, action, snapshot)]\<rparr>"]]
    show ?thesis by (simp add: res result_event_def result_decisions_def)
  qed (use follows_emit [of sink ?ev run] in \<open>simp_all add: res result_event_def result_decisions_def\<close>)
  have "pure_result cd snapshot res run = ?run2\<lparr>cr_sequence_no := cr_sequence_no ?run2 + 1\<rparr>"
    by (simp add: pure_result_def)
  with follows_bind [OF body follows_on_run [of sink "\<lambda>run. run\<lparr>cr_sequence_no := cr_sequence_no run + 1\<rparr>"]]
  have "follows sink (record_result cd sink snapshot (agent, outcome)) run ([?ev] @ []) (pure_result cd snapshot res run)"
    unfolding record_result_def advance_def prod.case by (intro follows_read) simp
  then show ?thesis by (simp add: res)
qed

fun result_events :: "codec \<Rightarrow> (agent \<times> decide_outcome) list \<Rightarrow> int \<Rightarrow> run_event list" where
  "result_events cd [] n = []"
| "result_events cd (res # rs) n = result_event cd res n # result_events cd rs (n + 1)"

lemma follows_results:
  "follows sink (efor rs (record_result cd sink snapshot)) run (result_events cd rs (cr_sequence_no run))
     (fold (pure_result cd snapshot) rs run)"
proof (induction rs arbitrary: run)
  case Nil
  then show ?case by (simp add: follows_return)
next
  case (Cons res rs)
  from follows_bind [OF follows_result [of sink cd snapshot res run] Cons.IH [of "pure_result cd snapshot res run"]]
  show ?case by (simp add: pure_result_def)
qed

lemma follows_tick:
  assumes "\<not> cr_finalized run"
  shows "follows sink (emit_tick cd sink snapshot) run [tick_event cd snapshot (cr_sequence_no run)] (pure_tick cd snapshot run)"
proof -
  let ?snap = "\<lambda>run. run\<lparr>cr_snapshots := cr_snapshots run @ [snapshot]\<rparr>"
  let ?ev = "tick_event cd snapshot (cr_sequence_no run)"
  have "follows sink (ebind (emit sink ?ev) (\<lambda>_. advance)) (?snap run) [?ev] (pure_tick cd snapshot run)"
    using follows_bind [OF follows_emit [of sink ?ev "?snap run"]
      follows_on_run [of sink "\<lambda>run. run\<lparr>cr_sequence_no := cr_sequence_no run + 1\<rparr>"]]
    by (simp add: advance_def pure_tick_def)
  then have "follows sink (ebind (eread (cr_sequence_no \<circ> fst)) (\<lambda>n.
      ebind (emit sink (tick_event cd snapshot n)) (\<lambda>_. advance))) (?snap run) [?ev] (pure_tick cd snapshot run)"
    by (intro follows_read) simp
  from follows_bind [OF follows_on_run [of sink ?snap] this] assms show ?thesis
    unfolding emit_tick_def by (intro follows_read) simp
qed

definition feed_events :: "codec \<Rightarrow> market_state \<Rightarrow> competition_run \<Rightarrow> run_event list" where
  "feed_events cd snapshot run =
     tick_event cd snapshot (cr_sequence_no run) # result_events cd (answers run snapshot) (cr_sequence_no run + 1)"

lemma follows_feed:
  assumes "\<not> cr_finalized run"
  shows "follows sink (feed cd sink snapshot) run (feed_events cd snapshot run) (pure_feed cd snapshot run)"
proof -
  have "follows sink (efor (answers (pure_tick cd snapshot run) snapshot) (record_result cd sink snapshot))
      (pure_tick cd snapshot run) (result_events cd (answers run snapshot) (cr_sequence_no run + 1))
      (pure_feed cd snapshot run)"
    using follows_results [of sink "answers run snapshot" cd snapshot "pure_tick cd snapshot run"]
    by (simp add: pure_feed_def pure_tick_def answers_def)
  then have "follows sink (ebind (eread ((\<lambda>run. answers run snapshot) \<circ> fst)) (\<lambda>results.
      efor results (record_result cd sink snapshot)))
      (pure_tick cd snapshot run) (result_events cd (answers run snapshot) (cr_sequence_no run + 1))
      (pure_feed cd snapshot run)"
    by (rule follows_read)
  from follows_bind [OF follows_tick [OF assms] this] show ?thesis
    by (simp add: feed_def feed_events_def answers_def)
qed

lemma pure_result_fields [simp]:
  "cr_agents (pure_result cd snapshot res run) = cr_agents run"
  "cr_source_mode (pure_result cd snapshot res run) = cr_source_mode run"
  "cr_run_id (pure_result cd snapshot res run) = cr_run_id run"
  "cr_finalized (pure_result cd snapshot res run) = cr_finalized run"
  "cr_snapshots (pure_result cd snapshot res run) = cr_snapshots run"
  by (simp_all add: pure_result_def)

lemma fold_pure_result_fields [simp]:
  "cr_agents (fold (pure_result cd snapshot) rs run) = cr_agents run"
  "cr_source_mode (fold (pure_result cd snapshot) rs run) = cr_source_mode run"
  "cr_run_id (fold (pure_result cd snapshot) rs run) = cr_run_id run"
  "cr_finalized (fold (pure_result cd snapshot) rs run) = cr_finalized run"
  "cr_snapshots (fold (pure_result cd snapshot) rs run) = cr_snapshots run"
  by (induction rs arbitrary: run) simp_all

lemma fold_pure_result_events:
  "cr_raw_events (fold (pure_result cd snapshot) rs run)
     = cr_raw_events run @ result_events cd rs (cr_sequence_no run)"
  "cr_sequence_no (fold (pure_result cd snapshot) rs run) = cr_sequence_no run + int (length rs)"
  by (induction rs arbitrary: run) (simp_all add: pure_result_def)

lemma fold_pure_result_decisions:
  "cr_decisions (fold (pure_result cd snapshot) rs run)
     = cr_decisions run @ concat (map (result_decisions snapshot) rs)"
  by (induction rs arbitrary: run) (simp_all add: pure_result_def)

lemma pure_feed_fields [simp]:
  "cr_agents (pure_feed cd snapshot run) = cr_agents run"
  "cr_source_mode (pure_feed cd snapshot run) = cr_source_mode run"
  "cr_run_id (pure_feed cd snapshot run) = cr_run_id run"
  "cr_finalized (pure_feed cd snapshot run) = cr_finalized run"
  "cr_snapshots (pure_feed cd snapshot run) = cr_snapshots run @ [snapshot]"
  "cr_raw_events (pure_feed cd snapshot run) = cr_raw_events run @ feed_events cd snapshot run"
  "cr_sequence_no (pure_feed cd snapshot run) = cr_sequence_no run + int (length (feed_events cd snapshot run))"
  "cr_decisions (pure_feed cd snapshot run)
     = cr_decisions run @ concat (map (result_decisions snapshot) (answers run snapshot))"
proof -
  have len: "length (result_events cd rs n) = length rs" for rs n
    by (induction rs arbitrary: n) simp_all
  show "cr_agents (pure_feed cd snapshot run) = cr_agents run"
    "cr_source_mode (pure_feed cd snapshot run) = cr_source_mode run"
    "cr_run_id (pure_feed cd snapshot run) = cr_run_id run"
    "cr_finalized (pure_feed cd snapshot run) = cr_finalized run"
    "cr_snapshots (pure_feed cd snapshot run) = cr_snapshots run @ [snapshot]"
    "cr_raw_events (pure_feed cd snapshot run) = cr_raw_events run @ feed_events cd snapshot run"
    "cr_sequence_no (pure_feed cd snapshot run) = cr_sequence_no run + int (length (feed_events cd snapshot run))"
    "cr_decisions (pure_feed cd snapshot run)
     = cr_decisions run @ concat (map (result_decisions snapshot) (answers run snapshot))"
    by (simp_all add: pure_feed_def pure_tick_def fold_pure_result_events fold_pure_result_decisions feed_events_def len)
qed

text \<open>The run after all ticks, as a function of the ticks and of the agents' answers.\<close>

definition fed :: "codec \<Rightarrow> agent list \<Rightarrow> string \<Rightarrow> string \<Rightarrow> market_state list \<Rightarrow> competition_run" where
  "fed cd agents source_mode run_id states = fold (pure_feed cd) states
     \<lparr>cr_agents = agents, cr_source_mode = source_mode, cr_run_id = run_id, cr_raw_events = [],
      cr_decisions = [], cr_snapshots = [], cr_sequence_no = 0, cr_finalized = False\<rparr>"

fun feeds_events :: "codec \<Rightarrow> market_state list \<Rightarrow> competition_run \<Rightarrow> run_event list" where
  "feeds_events cd [] run = []"
| "feeds_events cd (st # states) run = feed_events cd st run @ feeds_events cd states (pure_feed cd st run)"

lemma fold_pure_feed_fields [simp]:
  "cr_agents (fold (pure_feed cd) states run) = cr_agents run"
  "cr_source_mode (fold (pure_feed cd) states run) = cr_source_mode run"
  "cr_run_id (fold (pure_feed cd) states run) = cr_run_id run"
  "cr_finalized (fold (pure_feed cd) states run) = cr_finalized run"
  "cr_snapshots (fold (pure_feed cd) states run) = cr_snapshots run @ states"
  "cr_raw_events (fold (pure_feed cd) states run) = cr_raw_events run @ feeds_events cd states run"
  "cr_sequence_no (fold (pure_feed cd) states run) = cr_sequence_no run + int (length (feeds_events cd states run))"
  by (induction states arbitrary: run) simp_all

lemma follows_feeds:
  "\<not> cr_finalized run \<Longrightarrow> follows sink (efor states (feed cd sink)) run (feeds_events cd states run)
     (fold (pure_feed cd) states run)"
proof (induction states arbitrary: run)
  case Nil
  then show ?case by (simp add: follows_return)
next
  case (Cons st states)
  from follows_bind [OF follows_feed [OF Cons.prems] Cons.IH [of "pure_feed cd st run"]] Cons.prems
  show ?case by simp
qed

section \<open>Sequence numbers\<close>

lemma result_events_seq: "map re_sequence_no (result_events cd rs n) = map (\<lambda>i. n + int i) [0 ..< length rs]"
proof (induction rs arbitrary: n)
  case (Cons res rs)
  have "re_sequence_no (result_event cd res n) = n"
    by (auto simp: result_event_def error_event_def decision_event_def split: prod.split decide_outcome.split)
  moreover have "map (\<lambda>i. n + int i) [0 ..< Suc (length rs)] = n # map (\<lambda>i. n + 1 + int i) [0 ..< length rs]"
    by (simp add: map_upt_Suc del: upt_Suc)
  ultimately show ?case using Cons.IH [of "n + 1"] by simp
qed simp

lemma length_result_events [simp]: "length (result_events cd rs n) = length rs"
  by (induction rs arbitrary: n) simp_all

lemma feed_events_seq:
  "map re_sequence_no (feed_events cd st run) = map (\<lambda>i. cr_sequence_no run + int i) [0 ..< length (feed_events cd st run)]"
  by (simp add: feed_events_def result_events_seq tick_event_def map_upt_Suc add.assoc del: upt_Suc)

text \<open>Events are numbered from zero without gaps.\<close>

definition numbered :: "competition_run \<Rightarrow> bool" where
  "numbered run \<longleftrightarrow> map re_sequence_no (cr_raw_events run) = map int [0 ..< length (cr_raw_events run)]
     \<and> cr_sequence_no run = int (length (cr_raw_events run))"

lemma numbered_append:
  assumes "numbered run" and "cr_raw_events run' = cr_raw_events run @ evs"
    and "map re_sequence_no evs = map (\<lambda>i. cr_sequence_no run + int i) [0 ..< length evs]"
    and "cr_sequence_no run' = cr_sequence_no run + int (length evs)"
  shows "numbered run'"
proof -
  let ?n = "length (cr_raw_events run)" and ?m = "length evs"
  have shift: "map int [n ..< n + m] = map (\<lambda>i. int n + int i) [0 ..< m]" for n m
    by (induction m) auto
  have "map int [0 ..< ?n + ?m] = map int [0 ..< ?n] @ map int [?n ..< ?n + ?m]"
    by (simp only: upt_add_eq_append [of 0 ?n ?m, simplified] map_append)
  then have "map int [0 ..< ?n + ?m] = map re_sequence_no (cr_raw_events run) @ map re_sequence_no evs"
    using assms(1,3) shift [of ?n ?m] by (simp only: numbered_def)
  then show ?thesis using assms(1,2,4) by (simp add: numbered_def)
qed

lemma numbered_fed: "numbered (fed cd agents source_mode run_id states)"
proof -
  have "numbered (fold (pure_feed cd) states run)" if "numbered run" for run
    using that
  proof (induction states arbitrary: run)
    case (Cons st states)
    have "numbered (pure_feed cd st run)"
      by (rule numbered_append [OF Cons.prems, of _ "feed_events cd st run"]) (simp_all add: feed_events_seq)
    with Cons.IH show ?case by simp
  qed simp
  moreover have "numbered \<lparr>cr_agents = agents, cr_source_mode = source_mode, cr_run_id = run_id, cr_raw_events = [],
      cr_decisions = [], cr_snapshots = [], cr_sequence_no = 0, cr_finalized = False\<rparr>"
    by (simp add: numbered_def)
  ultimately show ?thesis by (simp add: fed_def)
qed

lemma seen_twice_iff: "seen_twice qs seen \<longleftrightarrow> \<not> (distinct qs \<and> set qs \<inter> seen = {})"
  by (induction qs arbitrary: seen) auto

lemma numbered_sorted:
  assumes "map re_sequence_no evs = map int [0 ..< length evs]"
  shows "sort_key re_sequence_no evs = evs"
proof -
  have "sorted (map int [0 ..< length evs])" by (simp add: sorted_iff_nth_mono)
  then have "sorted (map re_sequence_no evs)" by (simp only: assms)
  then show ?thesis by (rule sort_key_id_if_sorted)
qed

lemma numbered_hash:
  assumes "map re_sequence_no evs = map int [0 ..< length evs]"
  shows "compute_evidence_hash cd evs = Inr (cd_sha256 cd (cd_serialize cd (VList (map run_event_dict evs))))"
proof -
  have "distinct (map re_sequence_no evs)" by (simp add: assms distinct_map)
  then show ?thesis by (simp add: compute_evidence_hash_def seen_twice_iff numbered_sorted [OF assms])
qed

section \<open>The sealed run\<close>

text \<open>What the end of a run adds to the record.\<close>

definition closing_record :: "codec \<Rightarrow> run_window option \<Rightarrow> competition_run \<Rightarrow> run_event list" where
  "closing_record cd window run = (case (window, window_end window (cr_snapshots run)) of
       (Some w, Some e) \<Rightarrow> [window_config_event cd w e (cr_sequence_no run)] | _ \<Rightarrow> [])"

definition pure_close :: "codec \<Rightarrow> run_window option \<Rightarrow> competition_run \<Rightarrow> competition_run" where
  "pure_close cd window run = run\<lparr>
     cr_raw_events := cr_raw_events run @ closing_record cd window run,
     cr_sequence_no := cr_sequence_no run + int (length (closing_record cd window run))\<rparr>"

definition persist_all :: "(sealed_run \<Rightarrow> ('s, unit) eff) option \<Rightarrow> sealed_run \<Rightarrow> ('s, unit) eff" where
  "persist_all persist sealed = (case persist of None \<Rightarrow> ereturn () | Some f \<Rightarrow> f sealed)"

lemma window_config_event_stamp [simp]:
  "window_config_event cd (stamp_window snapshots w) e n = window_config_event cd w e n"
  by (simp add: window_config_event_def stamp_window_def)

lemma follows_close:
  "follows sink (emit_window_config cd sink (map_option (stamp_window (cr_snapshots run)) window)
       (window_end window (cr_snapshots run)) (cr_sequence_no run))
     run (closing_record cd window run) (pure_close cd window run)"
proof (cases "window = None \<or> window_end window (cr_snapshots run) = None")
  case True
  then show ?thesis
    using follows_return [of sink run]
    by (auto simp: emit_window_config_def closing_record_def pure_close_def split: option.splits)
next
  case False
  then obtain w e where we: "window = Some w" "window_end (Some w) (cr_snapshots run) = Some e" by auto
  from follows_bind [OF follows_emit [of sink "window_config_event cd w e (cr_sequence_no run)" run]
      follows_on_run [of sink "\<lambda>run. run\<lparr>cr_sequence_no := cr_sequence_no run + 1\<rparr>"]] we
  show ?thesis by (simp add: emit_window_config_def closing_record_def pure_close_def advance_def)
qed

text \<open>Sealing: the sink sees what is still to be recorded, then the sealed run is persisted.\<close>

lemma finalize_eq:
  assumes "\<not> cr_finalized run"
  shows "\<exists>run'. finalize cd parse sink persist window (run, s) =
    (case sink_all sink (closing_record cd window run) s of
       (Inl e, s') \<Rightarrow> (Inl e, (run', s'))
     | (Inr _, s') \<Rightarrow>
         (case seal cd parse window (pure_close cd window run) of
            Inl e \<Rightarrow> (Inl e, (pure_close cd window run, s'))
          | Inr sealed \<Rightarrow>
              (case persist_all persist sealed s' of
                 (Inl e, s'') \<Rightarrow> (Inl e, (pure_close cd window run, s''))
               | (Inr _, s'') \<Rightarrow>
                   (Inr (sealed, map_option (stamp_window (cr_snapshots run)) window),
                    ((pure_close cd window run)\<lparr>cr_finalized := True\<rparr>, s'')))))"
proof -
  let ?step = "emit_window_config cd sink (map_option (stamp_window (cr_snapshots run)) window)
       (window_end window (cr_snapshots run)) (cr_sequence_no run)"
  obtain r s1 where 1: "sink_all sink (closing_record cd window run) s = (r, s1)"
    by (cases "sink_all sink (closing_record cd window run) s")
  note close = follows_close [where sink = sink and run = run and window = window and cd = cd,
    unfolded follows_def, rule_format, of s]
  show ?thesis
  proof (cases r)
    case (Inl e)
    with 1 close obtain run' where "?step (run, s) = (Inl e, (run', s1))" by auto
    with 1 Inl assms show ?thesis
      by (intro exI [of _ run']) (simp add: finalize_def Let_def ebind_Inl)
  next
    case (Inr u)
    with 1 close have "?step (run, s) = (Inr (), (pure_close cd window run, s1))" by auto
    with 1 Inr assms show ?thesis
      by (cases persist)
        (auto simp: finalize_def Let_def ebind_apply eff_apply persist_all_def on_sink_def on_run_def
          split: sum.splits prod.splits)
  qed
qed

lemma run_competition_eq:
  assumes "source_mode \<in> {''replay'', ''live''}" and "run = fed cd agents source_mode run_id states"
  shows "run_competition cd parse sink persist states agents source_mode run_id s =
    (case sink_all sink (cr_raw_events run) s of
       (Inl e, s') \<Rightarrow> (Inl e, s')
     | (Inr _, s') \<Rightarrow>
         (case seal cd parse None run of
            Inl e \<Rightarrow> (Inl e, s')
          | Inr sealed \<Rightarrow>
              (case persist_all persist sealed s' of (Inl e, s'') \<Rightarrow> (Inl e, s'') | (Inr _, s'') \<Rightarrow> (Inr sealed, s''))))"
proof -
  let ?run0 = "\<lparr>cr_agents = agents, cr_source_mode = source_mode, cr_run_id = run_id, cr_raw_events = [],
      cr_decisions = [], cr_snapshots = [], cr_sequence_no = 0, cr_finalized = False\<rparr>"
  have new: "new_competition_run agents source_mode run_id = Inr ?run0"
    using assms(1) by (auto simp: new_competition_run_def)
  have run: "run = fold (pure_feed cd) states ?run0" "cr_raw_events run = feeds_events cd states ?run0"
    "\<not> cr_finalized run"
    using assms(2) by (simp_all add: fed_def)
  have close: "closing_record cd None run = []" "pure_close cd None run = run"
    by (simp_all add: closing_record_def pure_close_def)
  obtain r s1 where 1: "sink_all sink (cr_raw_events run) s = (r, s1)" by (cases "sink_all sink (cr_raw_events run) s")
  note loop = follows_feeds [of ?run0 sink states cd, unfolded follows_def, simplified, rule_format, of s,
    folded run(1,2)]
  show ?thesis
  proof (cases r)
    case (Inl e)
    with 1 loop obtain run' where "efor states (feed cd sink) (?run0, s) = (Inl e, (run', s1))" by auto
    with 1 Inl new show ?thesis by (simp add: run_competition_def ebind_Inl)
  next
    case (Inr u)
    with 1 loop have "efor states (feed cd sink) (?run0, s) = (Inr (), (run, s1))" by auto
    moreover obtain run' where "finalize cd parse sink persist None (run, s1) =
      (case seal cd parse None run of
            Inl e \<Rightarrow> (Inl e, (run', s1))
          | Inr sealed \<Rightarrow>
              (case persist_all persist sealed s1 of
                 (Inl e, s'') \<Rightarrow> (Inl e, (run, s''))
               | (Inr _, s'') \<Rightarrow> (Inr (sealed, None), (run\<lparr>cr_finalized := True\<rparr>, s''))))"
      using finalize_eq [OF run(3), of cd parse sink persist None s1, unfolded close option.map]
      by (auto simp: sink_all_def eff_apply split: option.splits)
    ultimately show ?thesis using 1 Inr new
      by (auto simp: run_competition_def ebind_Inr split: sum.split prod.split)
  qed
qed

lemma run_competition_mode:
  "run_competition cd parse sink persist states agents source_mode run_id s = (Inr sealed, s'')
   \<Longrightarrow> source_mode \<in> {''replay'', ''live''}"
  by (auto simp: run_competition_def new_competition_run_def split: if_splits)

lemma sealE:
  assumes "seal cd parse window run = Inr sealed"
  obtains h where "compute_evidence_hash cd (cr_raw_events run) = Inr h"
    and "rtraverse (score_decision cd parse (cr_source_mode run) window (cr_snapshots run) h) (cr_decisions run)
      = Inr (rr_score_rows sealed)"
    and "sl_run_events sealed = cr_raw_events run" and "sl_evidence_hash sealed = h"
    and "rr_agent_ids sealed = map ag_agent_id (cr_agents run)"
    and "sl_run_id sealed = cr_run_id run" and "sl_source_mode sealed = cr_source_mode run"
  using assms by (auto simp: seal_def rbind_Inr_iff)

lemma run_competition_InrE:
  assumes "run_competition cd parse sink persist states agents source_mode run_id s = (Inr sealed, s'')"
  obtains s' where "sink_all sink (cr_raw_events (fed cd agents source_mode run_id states)) s = (Inr (), s')"
    and "seal cd parse None (fed cd agents source_mode run_id states) = Inr sealed"
    and "persist_all persist sealed s' = (Inr (), s'')"
proof -
  let ?run = "fed cd agents source_mode run_id states"
  note eq = run_competition_eq [OF run_competition_mode [OF assms] refl, where cd = cd and agents = agents
    and run_id = run_id and states = states and sink = sink and persist = persist and s = s and parse = parse]
  obtain r1 s1 where 1: "sink_all sink (cr_raw_events ?run) s = (r1, s1)" by fastforce
  then obtain u where u: "r1 = Inr u" using assms eq by (cases r1) auto
  then obtain sl where sl: "seal cd parse None ?run = Inr sl"
    using assms eq 1 by (cases "seal cd parse None ?run") auto
  obtain r2 s2 where 2: "persist_all persist sl s1 = (r2, s2)" by fastforce
  with assms eq 1 u sl have "r2 = Inr () \<and> sl = sealed \<and> s2 = s''" by (cases r2) auto
  with that [of s1] 1 2 u sl show thesis by simp
qed

section \<open>Score rows\<close>

text \<open>The last tick that carries a market.\<close>

lemma closing_snapshots_step:
  "map_of (fold (\<lambda>(key, _). AList.update key st) ms d) k = (if k \<in> fst ` set ms then Some st else map_of d k)"
  by (induction ms arbitrary: d) (auto simp: update_conv')

lemma closing_snapshots_last:
  "map_of (closing_snapshots states) k = List.find (\<lambda>st. map_of (mst_markets st) k \<noteq> None) (rev states)"
proof (induction states rule: rev_induct)
  case (snoc st states)
  have "k \<in> fst ` set (mst_markets st) \<longleftrightarrow> map_of (mst_markets st) k \<noteq> None"
    by (auto simp: map_of_eq_None_iff)
  with snoc show ?case by (simp add: closing_snapshots_def closing_snapshots_step)
qed (simp add: closing_snapshots_def)

text \<open>The decisions of a run: one per agent and tick that answered with an action, in tick order.\<close>

definition acted :: "agent list \<Rightarrow> market_state list \<Rightarrow> (agent \<times> agent_action \<times> market_state) list" where
  "acted agents states = concat (map (\<lambda>st. concat (map (\<lambda>a. result_decisions st (a, ag_decide a st)) agents)) states)"

lemma fed_decisions: "cr_decisions (fed cd agents source_mode run_id states) = acted agents states"
proof -
  have "cr_decisions (fold (pure_feed cd) states run) = cr_decisions run @ acted (cr_agents run) states" for run
    by (induction states arbitrary: run) (simp_all add: acted_def answers_def o_def)
  then show ?thesis by (simp add: fed_def)
qed

lemma acted_iff: "(a, action, st) \<in> set (acted agents states) \<longleftrightarrow> a \<in> set agents \<and> st \<in> set states \<and> ag_decide a st = Acted action"
  by (auto simp: acted_def result_decisions_def split: decide_outcome.splits)

lemma raw_score_row_get:
  "row_get (raw_score_row cd h agent action snapshot v) ''clv_bps'' = lv_clv_bps v"
  "row_get (raw_score_row cd h agent action snapshot v) ''valid'' = VBool (lv_valid v)"
  "row_get (raw_score_row cd h agent action snapshot v) ''window_clv_bps'' = VNone"
  "sr_agent_id (raw_score_row cd h agent action snapshot v) = ag_agent_id agent"
  "sr_tick_seq (raw_score_row cd h agent action snapshot v) = mst_tick_seq snapshot"
  by (simp_all add: raw_score_row_def row_get_def Let_def)

lemma raw_score_row_prescore:
  "\<exists>bound. row_get (raw_score_row cd h agent action snapshot v) ''raw_prescore'' = VDict bound
     \<and> map_of bound ''evidence_hash'' = Some (VStr h) \<and> map_of bound ''raw_action'' = Some (action_dict action)"
  by (simp add: raw_score_row_def row_get_def Let_def build_raw_prescore_record_def)

section \<open>A sample run\<close>

definition demo_codec :: codec where
  "demo_codec = \<lparr>cd_serialize = (\<lambda>_. ''j''), cd_dumps = (\<lambda>_. ''j''), cd_loads = (\<lambda>_. Inl ValueError),
     cd_sha256 = (\<lambda>t. ''h'' @ t)\<rparr>"

definition demo_agents :: "agent list" where
  "demo_agents =
     [\<lparr>ag_agent_id = ''a'', ag_proof_mode = ''reproducible'', ag_decide = (\<lambda>_. Acted demo_action), ag_config_hash = None\<rparr>,
      \<lparr>ag_agent_id = ''b'', ag_proof_mode = ''reproducible'', ag_decide = (\<lambda>_. Failed ''TimeoutError'' ''''), ag_config_hash = None\<rparr>]"

definition demo_ticks :: "market_state list" where
  "demo_ticks = [demo_state 0 5000, demo_state 9 5120]"

definition recorder :: "run_event list sink" where
  "recorder = Some (\<lambda>ev evs. (Inr (), evs @ [ev]))"

lemma recorder_all: "sink_all recorder evs s = (Inr (), s @ evs)"
proof -
  have "efor evs (\<lambda>ev evs. (Inr (), evs @ [ev])) s = (Inr (), s @ evs)"
    by (induction evs arbitrary: s) (simp_all add: eff_apply ebind_apply)
  then show ?thesis by (simp add: recorder_def sink_all_def)
qed

lemma demo_rows:
  "rtraverse (score_decision demo_codec (\<lambda>_. None) ''replay'' None demo_ticks h) (acted demo_agents demo_ticks)
    = Inr (map (\<lambda>(t, p). raw_score_row demo_codec h (hd demo_agents) demo_action (demo_state t p)
        \<lparr>lv_edge_bps = 5120 - p, lv_clv_bps = VInt (5120 - p), lv_kelly_fraction = fl_zero, lv_valid = True,
             lv_reason = recomputed_edge (5120 - p)\<rparr>) [(0, 5000), (9, 5120)])"
  by (simp add: acted_def demo_agents_def demo_ticks_def result_decisions_def score_decision_def closing_for_def
     closing_snapshots_def demo_state_def demo_action_def param_def str_key_def recompute_def Let_def validate_market_def
     kelly_fraction_def to_float_def score_closed_def prob_at_def compute_clv_check_def window_override_def)

lemma demo_run_seals:
  "\<exists>sealed. seal demo_codec (\<lambda>_. None) None (fed demo_codec demo_agents ''replay'' ''r'' demo_ticks) = Inr sealed"
proof -
  let ?run = "fed demo_codec demo_agents ''replay'' ''r'' demo_ticks"
  obtain h where "compute_evidence_hash demo_codec (cr_raw_events ?run) = Inr h"
    using numbered_hash numbered_fed [of demo_codec demo_agents "''replay''" "''r''" demo_ticks] by (auto simp: numbered_def)
  with demo_rows [of h] show ?thesis
    by (simp add: seal_def fed_decisions) (simp add: fed_def)
qed

lemma demo_run_completes:
  "\<exists>sealed. run_competition demo_codec (\<lambda>_. None) recorder None demo_ticks demo_agents ''replay'' ''r'' []
     = (Inr sealed, cr_raw_events (fed demo_codec demo_agents ''replay'' ''r'' demo_ticks))"
  using demo_run_seals
  by (subst run_competition_eq [OF _ refl]) (auto simp: recorder_all persist_all_def eff_apply)

text \<open>
  C21: the live stream is the sealed record: when a run completes, the events its observer received
  one by one are exactly the sealed events, in order and before the run was persisted; they are
  numbered from zero without gaps, the evidence hash is the digest of their canonical text, and the
  same run without observer and store seals the same result.
\<close>

theorem live_stream_is_the_sealed_evidence:
  assumes "run_competition cd parse sink persist states agents source_mode run_id s = (Inr sealed, s'')"
  shows "(\<exists>s'. sink_all sink (sl_run_events sealed) s = (Inr (), s') \<and> persist_all persist sealed s' = (Inr (), s''))
    \<and> map re_sequence_no (sl_run_events sealed) = map int [0 ..< length (sl_run_events sealed)]
    \<and> sl_evidence_hash sealed
        = cd_sha256 cd (cd_serialize cd (VList (map run_event_dict (sl_run_events sealed))))
    \<and> run_competition cd parse None None states agents source_mode run_id () = (Inr sealed, ())"
proof -
  let ?run = "fed cd agents source_mode run_id states"
  obtain s' where s': "sink_all sink (cr_raw_events ?run) s = (Inr (), s')"
    and seal: "seal cd parse None ?run = Inr sealed" and "persist_all persist sealed s' = (Inr (), s'')"
    using run_competition_InrE [OF assms] .
  moreover have num: "map re_sequence_no (cr_raw_events ?run) = map int [0 ..< length (cr_raw_events ?run)]"
    using numbered_fed [of cd agents source_mode run_id states] by (simp add: numbered_def)
  moreover have "run_competition cd parse None None states agents source_mode run_id () = (Inr sealed, ())"
    using run_competition_eq [OF run_competition_mode [OF assms] refl, where cd = cd and agents = agents and run_id = run_id and states = states
      and sink = None and persist = None and s = "()" and parse = parse] seal
    by (simp add: sink_all_def persist_all_def eff_apply)
  moreover have "sl_run_events sealed = cr_raw_events ?run \<and> compute_evidence_hash cd (cr_raw_events ?run) = Inr (sl_evidence_hash sealed)"
    using sealE [OF seal] by metis
  ultimately show ?thesis using numbered_hash [OF num, of cd] by auto
qed

theorem live_stream_is_the_sealed_evidence_witness:
  "\<exists>sealed. run_competition demo_codec (\<lambda>_. None) recorder None demo_ticks demo_agents ''replay'' ''r'' [] = (Inr sealed, sl_run_events sealed)
     \<and> sl_run_events sealed \<noteq> []"
proof -
  let ?run = "fed demo_codec demo_agents ''replay'' ''r'' demo_ticks"
  obtain sealed where run: "run_competition demo_codec (\<lambda>_. None) recorder None demo_ticks demo_agents ''replay'' ''r'' []
      = (Inr sealed, cr_raw_events ?run)" using demo_run_completes by blast
  then have "sink_all recorder (sl_run_events sealed) [] = (Inr (), cr_raw_events ?run)"
    using live_stream_is_the_sealed_evidence [OF run] by (auto simp: persist_all_def eff_apply)
  then have "sl_run_events sealed = cr_raw_events ?run" by (simp add: recorder_all)
  moreover have "cr_raw_events ?run \<noteq> []" by (simp add: fed_def demo_ticks_def feed_events_def)
  ultimately show ?thesis using run by auto
qed

text \<open>
  C22: every score row is the law's verdict on recorded evidence: the rows of a completed run are one
  per action, in tick and roster order, none for an agent that failed or did not answer. Each
  carries its agent and tick, the closing-line value and validity the law computes against the last
  tick of the run that carries the action's market, which is the same for all agents, and a
  pre-score record bound to the evidence hash and to the action.
\<close>

theorem score_rows_are_the_laws:
  assumes "run_competition cd parse sink persist states agents source_mode run_id s = (Inr sealed, s'')"
  shows "list_all2 (\<lambda>(a, action, st) row.
      sr_agent_id row = ag_agent_id a \<and> sr_tick_seq row = mst_tick_seq st
      \<and> (\<exists>v closing. recompute parse st action closing source_mode = Inr v
          \<and> (\<forall>k. param action ''market_key'' = VStr k \<longrightarrow> k \<noteq> [] \<longrightarrow>
               closing = List.find (\<lambda>st. map_of (mst_markets st) k \<noteq> None) (rev states))
          \<and> row_get row ''clv_bps'' = lv_clv_bps v \<and> row_get row ''valid'' = VBool (lv_valid v))
      \<and> (\<exists>bound. row_get row ''raw_prescore'' = VDict bound
          \<and> map_of bound ''evidence_hash'' = Some (VStr (sl_evidence_hash sealed))
          \<and> map_of bound ''raw_action'' = Some (action_dict action)))
    (acted agents states) (rr_score_rows sealed)"
proof -
  let ?run = "fed cd agents source_mode run_id states"
  from run_competition_InrE [OF assms] obtain s' where seal: "seal cd parse None ?run = Inr sealed" by blast
  have run: "cr_source_mode ?run = source_mode" "cr_snapshots ?run = states" by (simp_all add: fed_def)
  from seal have rows: "list_all2 (\<lambda>d row. score_decision cd parse source_mode None states (sl_evidence_hash sealed) d = Inr row)
      (acted agents states) (rr_score_rows sealed)"
    by (auto elim!: sealE simp: rtraverse_Inr_iff run fed_decisions)
  show ?thesis
  proof (rule list_all2_mono [OF rows], clarify)
    fix a action st row
    assume "score_decision cd parse source_mode None states (sl_evidence_hash sealed) (a, action, st) = Inr row"
    then obtain closing v where c: "closing_for (closing_snapshots states) action = Inr closing"
      and v: "recompute parse st action closing source_mode = Inr v"
      and row: "row = raw_score_row cd (sl_evidence_hash sealed) a action st v"
      by (auto simp: score_decision_def rbind_Inr_iff window_override_def)
    have "closing = List.find (\<lambda>st. map_of (mst_markets st) k \<noteq> None) (rev states)"
      if "param action ''market_key'' = VStr k" "k \<noteq> []" for k
      using c that by (simp add: closing_for_def str_key_def closing_snapshots_last)
    with v row raw_score_row_prescore [of cd "sl_evidence_hash sealed" a action st v]
    show "sr_agent_id row = ag_agent_id a \<and> sr_tick_seq row = mst_tick_seq st
      \<and> (\<exists>v closing. recompute parse st action closing source_mode = Inr v
          \<and> (\<forall>k. param action ''market_key'' = VStr k \<longrightarrow> k \<noteq> [] \<longrightarrow>
               closing = List.find (\<lambda>st. map_of (mst_markets st) k \<noteq> None) (rev states))
          \<and> row_get row ''clv_bps'' = lv_clv_bps v \<and> row_get row ''valid'' = VBool (lv_valid v))
      \<and> (\<exists>bound. row_get row ''raw_prescore'' = VDict bound
          \<and> map_of bound ''evidence_hash'' = Some (VStr (sl_evidence_hash sealed))
          \<and> map_of bound ''raw_action'' = Some (action_dict action))"
      by (simp add: raw_score_row_get) blast
  qed
qed

theorem score_rows_are_the_laws_witness:
  "\<exists>sealed s. run_competition demo_codec (\<lambda>_. None) recorder None demo_ticks demo_agents ''replay'' ''r'' [] = (Inr sealed, s)
     \<and> map sr_agent_id (rr_score_rows sealed) = [''a'', ''a'']"
proof -
  obtain sealed s where run: "run_competition demo_codec (\<lambda>_. None) recorder None demo_ticks demo_agents ''replay'' ''r'' []
      = (Inr sealed, s)" using demo_run_completes by blast
  have acts: "acted demo_agents demo_ticks
      = [(hd demo_agents, demo_action, demo_state 0 5000), (hd demo_agents, demo_action, demo_state 9 5120)]"
    by (simp add: acted_def demo_agents_def demo_ticks_def result_decisions_def)
  have "map sr_agent_id (rr_score_rows sealed) = [''a'', ''a'']"
    using score_rows_are_the_laws [OF run] unfolding acts
    by (auto simp: list_all2_Cons1 demo_agents_def)
  with run show ?thesis by (intro exI [of _ sealed] exI [of _ s] conjI)
qed

text \<open>
  One agent can stop a run from sealing: an action whose market key is a non-empty list makes the
  scoring pass raise, for every observer and store, so no result is produced for any agent.
\<close>

theorem unhashable_market_key_stops_the_run:
  assumes "a \<in> set agents" and "st \<in> set states" and "ag_decide a st = Acted action"
    and "param action ''market_key'' = VList (x # xs)"
  shows "\<exists>e. fst (run_competition cd parse sink persist states agents source_mode run_id s) = Inl e"
proof (rule ccontr)
  assume "\<nexists>e. fst (run_competition cd parse sink persist states agents source_mode run_id s) = Inl e"
  then obtain sealed s'' where "run_competition cd parse sink persist states agents source_mode run_id s = (Inr sealed, s'')"
    by (cases "run_competition cd parse sink persist states agents source_mode run_id s"; cases "fst (run_competition cd parse sink persist states agents source_mode run_id s)") auto
  from run_competition_InrE [OF this] obtain s' where
    "seal cd parse None (fed cd agents source_mode run_id states) = Inr sealed" by blast
  then obtain h where rows: "rtraverse (score_decision cd parse source_mode None states h) (acted agents states)
      = Inr (rr_score_rows sealed)"
    by (auto elim!: sealE simp: fed_decisions) (simp add: fed_def)
  have "(a, action, st) \<in> set (acted agents states)" using assms(1-3) by (simp add: acted_iff)
  then obtain row where "score_decision cd parse source_mode None states h (a, action, st) = Inr row"
    using rtraverse_InrD [OF rows] by blast
  then show False using assms(4) by (simp add: score_decision_def closing_for_def str_key_def)
qed

definition list_key_agent :: agent where
  "list_key_agent = \<lparr>ag_agent_id = ''c'', ag_proof_mode = ''reproducible'',
     ag_decide = (\<lambda>_. Acted \<lparr>aa_type = FLAG_VALUE, aa_params = [(''market_key'', VList [VInt 1])]\<rparr>), ag_config_hash = None\<rparr>"

theorem unhashable_market_key_stops_the_run_witness:
  "\<exists>e. fst (run_competition demo_codec (\<lambda>_. None) None None demo_ticks (list_key_agent # demo_agents) ''replay'' ''r'' ()) = Inl e"
  by (rule unhashable_market_key_stops_the_run [where a = list_key_agent and st = "demo_state 0 5000" and x = "VInt 1" and xs = "[]"
       and action = "\<lparr>aa_type = FLAG_VALUE, aa_params = [(''market_key'', VList [VInt 1])]\<rparr>"])
     (simp_all add: list_key_agent_def demo_ticks_def param_def)

section \<open>Windowed runs\<close>

lemma window_end_SomeD: "window_end (Some w) snapshots = Some e \<Longrightarrow> snapshots \<noteq> [] \<and> e = mst_ts (last snapshots)"
  by (auto simp: window_end_def split: if_splits)

lemma scored_int: "is_scored row \<longleftrightarrow> row_get row ''valid'' = VBool True \<and> (\<exists>n. row_get row ''clv_bps'' = VInt n)"
  by (cases "row_get row ''clv_bps''") (auto simp: is_scored_def row_valid_def int_of_val_def)

lemma row_get_update [simp]:
  "row_get (row\<lparr>sr_fields := AList.update k v d\<rparr>) k' = (if k' = k then v else row_get (row\<lparr>sr_fields := d\<rparr>) k')"
  "row_get (row\<lparr>sr_fields := AList.delete k d\<rparr>) k' = (if k' = k then VNone else row_get (row\<lparr>sr_fields := d\<rparr>) k')"
  "row_get (row\<lparr>sr_fields := sr_fields row\<rparr>) k' = row_get row k'"
  by (simp_all add: row_get_def update_conv' delete_conv')

lemma window_override_cases:
  assumes raw: "\<not> is_window_scored raw" and row: "row = window_override (Some w) (Some e) st raw"
  obtains "\<not> is_scored raw" "row = raw"
    | "\<not> is_scored row" "\<not> is_window_scored row"
    | "\<not> is_pending_horizon (mst_ts st) e (rw_min_clv_horizon_s w)" "rw_end_rule w = pre_match" "row = raw"
    | "\<not> is_pending_horizon (mst_ts st) e (rw_min_clv_horizon_s w)" "rw_end_rule w \<noteq> pre_match" "\<not> is_scored row"
proof (cases "is_scored raw")
  case False
  then show ?thesis using that(1) by (simp add: row window_override_def)
next
  case scored: True
  show ?thesis
  proof (cases "is_pending_horizon (mst_ts st) e (rw_min_clv_horizon_s w)")
    case True
    with scored raw have "\<not> is_scored row" "\<not> is_window_scored row"
      by (simp_all add: row window_override_def scored_int pending_def is_window_scored_def)
    with that(2) show ?thesis .
  next
    case False
    with scored that(3,4) show ?thesis
      by (cases "rw_end_rule w = pre_match") (simp_all add: row window_override_def clv_field_name_def scored_int)
  qed
qed

text \<open>
  Windowed scoring never mislabels: of the rows of a run sealed with a coverage window, one that
  ranks (a true closing-line value) belongs to a pre-match window, one that carries a window value
  belongs to another end rule, no row carries both, and either kind was entered at least the
  minimum horizon before the last tick.
\<close>

theorem window_rows_are_labelled:
  assumes "seal cd parse (Some w) run = Inr sealed" and "row \<in> set (rr_score_rows sealed)"
    and "cr_snapshots run \<noteq> []"
  shows "(is_scored row \<longrightarrow> rw_end_rule w = pre_match) \<and> (is_window_scored row \<longrightarrow> rw_end_rule w \<noteq> pre_match)
    \<and> \<not> (is_scored row \<and> is_window_scored row)
    \<and> (is_scored row \<or> is_window_scored row \<longrightarrow> (\<exists>a action st. (a, action, st) \<in> set (cr_decisions run)
         \<and> sr_agent_id row = ag_agent_id a \<and> sr_tick_seq row = mst_tick_seq st
         \<and> rw_min_clv_horizon_s w \<le> mst_ts (last (cr_snapshots run)) - mst_ts st))"
proof -
  let ?e = "mst_ts (last (cr_snapshots run))"
  have e: "window_end (Some w) (cr_snapshots run) = Some ?e" using assms(3) by (simp add: window_end_def)
  from assms(1,2) obtain a action st h where d: "(a, action, st) \<in> set (cr_decisions run)"
    and "score_decision cd parse (cr_source_mode run) (Some w) (cr_snapshots run) h (a, action, st) = Inr row"
    by (elim sealE) (metis prod_cases3 rtraverse_source)
  then obtain v where row: "row = window_override (Some w) (Some ?e) st (raw_score_row cd h a action st v)"
    by (auto simp: score_decision_def rbind_Inr_iff e)
  let ?raw = "raw_score_row cd h a action st v"
  have raw: "\<not> is_window_scored ?raw" by (simp add: is_window_scored_def raw_score_row_get int_of_val_def)
  have ids: "sr_agent_id row = ag_agent_id a \<and> sr_tick_seq row = mst_tick_seq st"
    by (simp add: row window_override_def raw_score_row_get)
  have ex: "\<exists>a action st. (a, action, st) \<in> set (cr_decisions run)
         \<and> sr_agent_id row = ag_agent_id a \<and> sr_tick_seq row = mst_tick_seq st
         \<and> rw_min_clv_horizon_s w \<le> ?e - mst_ts st"
    if "\<not> is_pending_horizon (mst_ts st) ?e (rw_min_clv_horizon_s w)"
    using that d ids by (intro exI [of _ a] exI [of _ action] exI [of _ st]) (simp add: is_pending_horizon_def)
  show ?thesis
    by (rule window_override_cases [OF raw row]) (use raw ex in auto)
qed

definition demo_window :: run_window where
  "demo_window = \<lparr>rw_window_id = ''w'', rw_fixture_id = 1, rw_market_allowlist = [''OU''], rw_end_rule = manual_stop, rw_duration_s = None, rw_min_clv_horizon_s = 5, rw_started_ts = None\<rparr>"

lemma demo_window_rows:
  "\<exists>rows. rtraverse (score_decision demo_codec (\<lambda>_. None) ''replay'' (Some demo_window) demo_ticks h) (acted demo_agents demo_ticks)
     = Inr rows \<and> rows \<noteq> []"
  by (simp add: acted_def demo_agents_def demo_ticks_def result_decisions_def score_decision_def closing_for_def
     closing_snapshots_def demo_state_def demo_action_def param_def str_key_def recompute_def Let_def validate_market_def
     kelly_fraction_def to_float_def score_closed_def prob_at_def compute_clv_check_def)

lemma demo_window_seals:
  "\<exists>sealed. seal demo_codec (\<lambda>_. None) (Some demo_window) (fed demo_codec demo_agents ''replay'' ''r'' demo_ticks) = Inr sealed
     \<and> rr_score_rows sealed \<noteq> []"
proof -
  let ?run = "fed demo_codec demo_agents ''replay'' ''r'' demo_ticks"
  obtain h where h: "compute_evidence_hash demo_codec (cr_raw_events ?run) = Inr h"
    using numbered_hash numbered_fed [of demo_codec demo_agents "''replay''" "''r''" demo_ticks] by (auto simp: numbered_def)
  with demo_window_rows [of h] show ?thesis by (simp add: seal_def fed_decisions) (auto simp: fed_def)
qed

theorem window_rows_are_labelled_witness:
  "\<exists>sealed row. seal demo_codec (\<lambda>_. None) (Some demo_window) (fed demo_codec demo_agents ''replay'' ''r'' demo_ticks) = Inr sealed
     \<and> row \<in> set (rr_score_rows sealed) \<and> \<not> is_scored row"
proof -
  obtain sealed where s: "seal demo_codec (\<lambda>_. None) (Some demo_window) (fed demo_codec demo_agents ''replay'' ''r'' demo_ticks) = Inr sealed"
    and "rr_score_rows sealed \<noteq> []" using demo_window_seals by blast
  then obtain row where row: "row \<in> set (rr_score_rows sealed)" by (meson list.set_sel(1))
  have "cr_snapshots (fed demo_codec demo_agents ''replay'' ''r'' demo_ticks) \<noteq> []" by (simp add: fed_def demo_ticks_def)
  from window_rows_are_labelled [OF s row this] have "\<not> is_scored row" by (simp add: demo_window_def)
  with s row show ?thesis by (intro exI [of _ sealed] exI [of _ row] conjI)
qed

section \<open>Retrying a failed seal\<close>

text \<open>A store that receives the run and then fails, and one that succeeds.\<close>

definition failing_store :: "py_error \<Rightarrow> sealed_run \<Rightarrow> (sealed_run list, unit) eff" where
  "failing_store e r = (\<lambda>rs. (Inl e, rs @ [r]))"

definition working_store :: "sealed_run \<Rightarrow> (sealed_run list, unit) eff" where
  "working_store r = (\<lambda>rs. (Inr (), rs @ [r]))"

lemma finalize_failing:
  assumes "\<not> cr_finalized run" and "seal cd parse window (pure_close cd window run) = Inr sealed"
  shows "finalize cd parse None (Some (failing_store e)) window (run, rs) = (Inl e, (pure_close cd window run, rs @ [sealed]))"
  using finalize_eq [OF assms(1), of cd parse None "Some (failing_store e)" window rs] assms(2)
  by (simp add: sink_all_def persist_all_def failing_store_def eff_apply)

lemma finalize_working:
  assumes "\<not> cr_finalized run" and "seal cd parse window (pure_close cd window run) = Inr sealed"
  shows "finalize cd parse None (Some working_store) window (run, rs)
    = (Inr (sealed, map_option (stamp_window (cr_snapshots run)) window), ((pure_close cd window run)\<lparr>cr_finalized := True\<rparr>, rs @ [sealed]))"
  using finalize_eq [OF assms(1), of cd parse None "Some working_store" window rs] assms(2)
  by (simp add: sink_all_def persist_all_def working_store_def eff_apply)

lemma numbered_close: "numbered run \<Longrightarrow> numbered (pure_close cd window run)"
  by (rule numbered_append [of run _ "closing_record cd window run"])
     (simp_all add: pure_close_def closing_record_def window_config_event_def split: option.split)

lemma close_fields [simp]:
  "cr_finalized (pure_close cd window run) = cr_finalized run"
  "cr_snapshots (pure_close cd window run) = cr_snapshots run"
  "cr_decisions (pure_close cd window run) = cr_decisions run"
  "cr_source_mode (pure_close cd window run) = cr_source_mode run"
  by (simp_all add: pure_close_def)

lemma finalize_failingD:
  assumes "\<not> cr_finalized run" and "finalize cd parse None (Some (failing_store e)) window (run, []) = (Inl e, (run', [r1]))"
  shows "run' = pure_close cd window run \<and> seal cd parse window run' = Inr r1"
proof (cases "seal cd parse window (pure_close cd window run)")
  case (Inl e')
  with finalize_eq [OF assms(1), of cd parse None "Some (failing_store e)" window "[]"] assms(2) show ?thesis
    by (auto simp: sink_all_def eff_apply)
next
  case (Inr sealed)
  with finalize_failing [OF assms(1) Inr, of e "[]"] assms(2) show ?thesis by auto
qed

lemma finalize_workingD:
  assumes "\<not> cr_finalized run" and "finalize cd parse None (Some working_store) window (run, rs) = (Inr res, (run', rs'))"
  shows "\<exists>r. seal cd parse window (pure_close cd window run) = Inr r \<and> rs' = rs @ [r]"
proof (cases "seal cd parse window (pure_close cd window run)")
  case (Inl e')
  with finalize_eq [OF assms(1), of cd parse None "Some working_store" window rs] assms(2) show ?thesis
    by (auto simp: sink_all_def eff_apply)
next
  case (Inr sealed)
  with finalize_working [OF assms(1) Inr, of rs] assms(2) show ?thesis by auto
qed

text \<open>
  Retrying a seal: when the store fails after receiving the run and the seal is retried, a run
  without a window hands the store the same sealed run again, but a run with a coverage window (and
  at least one tick) hands it a different one, with one more window event in its evidence.
\<close>

theorem windowed_retry_reseals_differently:
  assumes "\<not> cr_finalized run"
    and "finalize cd parse None (Some (failing_store e)) window (run, []) = (Inl e, (run', [r1]))"
    and "finalize cd parse None (Some working_store) window (run', [r1]) = (Inr res, (run'', [r1, r2]))"
  shows "(window = None \<longrightarrow> r2 = r1)
    \<and> (window \<noteq> None \<longrightarrow> cr_snapshots run \<noteq> [] \<longrightarrow> length (sl_run_events r2) = Suc (length (sl_run_events r1)))"
proof -
  have run': "run' = pure_close cd window run" and r1: "seal cd parse window run' = Inr r1"
    using finalize_failingD [OF assms(1,2)] by blast+
  have fin: "\<not> cr_finalized run'" using assms(1) by (simp add: run')
  have r2: "seal cd parse window (pure_close cd window run') = Inr r2"
    using finalize_workingD [OF fin assms(3)] by simp
  have "window = None \<Longrightarrow> pure_close cd window run' = run'" by (simp add: pure_close_def closing_record_def)
  moreover have "length (cr_raw_events (pure_close cd window run')) = Suc (length (cr_raw_events run'))"
    if "window \<noteq> None" "cr_snapshots run \<noteq> []"
    using that by (auto simp: run' pure_close_def closing_record_def window_end_def)
  moreover have "sl_run_events r1 = cr_raw_events run'" "sl_run_events r2 = cr_raw_events (pure_close cd window run')"
    using r1 r2 by (auto elim: sealE)
  ultimately show ?thesis using r1 r2 by (cases window) auto
qed

lemma demo_window_reseals:
  assumes "numbered run" and "cr_decisions run = acted demo_agents demo_ticks" and "cr_snapshots run = demo_ticks"
    and "cr_source_mode run = ''replay''"
  shows "\<exists>sealed. seal demo_codec (\<lambda>_. None) (Some demo_window) run = Inr sealed"
proof -
  obtain h where h: "compute_evidence_hash demo_codec (cr_raw_events run) = Inr h"
    using numbered_hash assms(1) by (auto simp: numbered_def)
  with demo_window_rows [of h] assms(2-4) show ?thesis by (auto simp: seal_def)
qed

theorem windowed_retry_reseals_differently_witness:
  "\<exists>run r1 r2 run' run'' res. finalize demo_codec (\<lambda>_. None) None (Some (failing_store RuntimeError)) (Some demo_window) (run, []) = (Inl RuntimeError, (run', [r1]))
     \<and> finalize demo_codec (\<lambda>_. None) None (Some working_store) (Some demo_window) (run', [r1]) = (Inr res, (run'', [r1, r2]))
     \<and> r2 \<noteq> r1"
proof -
  define run where "run = fed demo_codec demo_agents ''replay'' ''r'' demo_ticks"
  have run: "cr_decisions run = acted demo_agents demo_ticks" "cr_snapshots run = demo_ticks" "cr_source_mode run = ''replay''"
    by (simp_all add: run_def fed_decisions) (simp_all add: fed_def)
  define run' where "run' = pure_close demo_codec (Some demo_window) run"
  have num: "numbered run" by (simp add: run_def numbered_fed)
  have fin: "\<not> cr_finalized run" "cr_snapshots run \<noteq> []" by (simp_all add: run_def fed_def demo_ticks_def)
  obtain r1 where 1: "seal demo_codec (\<lambda>_. None) (Some demo_window) run' = Inr r1"
    using demo_window_reseals [of run'] num run by (auto simp: run'_def numbered_close)
  obtain r2 where 2: "seal demo_codec (\<lambda>_. None) (Some demo_window) (pure_close demo_codec (Some demo_window) run') = Inr r2"
    using demo_window_reseals [of "pure_close demo_codec (Some demo_window) run'"] num run by (auto simp: run'_def numbered_close)
  have f1: "finalize demo_codec (\<lambda>_. None) None (Some (failing_store RuntimeError)) (Some demo_window) (run, []) = (Inl RuntimeError, (run', [r1]))"
    using finalize_failing [OF fin(1) 1 [unfolded run'_def]] by (simp add: run'_def)
  have "\<not> cr_finalized run'" using fin(1) by (simp add: run'_def)
  from finalize_working [OF this 2, of "[r1]"] obtain res run'' where
    f2: "finalize demo_codec (\<lambda>_. None) None (Some working_store) (Some demo_window) (run', [r1]) = (Inr res, (run'', [r1, r2]))"
    by simp
  from windowed_retry_reseals_differently [OF fin(1) f1 f2] fin(2) have "r2 \<noteq> r1" by auto
  with f1 f2 show ?thesis
    by (intro exI [of _ run] exI [of _ r1] exI [of _ r2] exI [of _ run'] exI [of _ run''] exI [of _ res] conjI)
qed

end
