(* ===== verification/Verifier.thy ===== *)
theory Verifier
  imports Run "HOL-Library.Countable"
begin

text \<open>
  What a judge recomputes from a sealed run: the Merkle roots (\<open>src/veridex/chain/merkle.py\<close>),
  the anchored manifest (\<open>chain/anchor.py\<close>), and the verify report
  (\<open>verifier/recompute.py\<close>). Hashing and JSON are the codec of the run; what a theorem relies on
  (digests of one length, JSON that separates values) is a hypothesis of it, and the binding
  theorems end in the alternative of a hash collision.
\<close>

section \<open>Merkle roots (\<open>chain/merkle.py\<close>)\<close>

definition empty_root :: "codec \<Rightarrow> string" where
  "empty_root cd = cd_sha256 cd ''''"

definition leaf_hash :: "codec \<Rightarrow> pyval \<Rightarrow> string" where
  "leaf_hash cd rec = cd_sha256 cd (cd_serialize cd rec)"

definition pair_hash :: "codec \<Rightarrow> string \<Rightarrow> string \<Rightarrow> string" where
  "pair_hash cd left right = cd_sha256 cd (left @ right)"

fun pair_up :: "codec \<Rightarrow> string list \<Rightarrow> string list" where
  "pair_up cd (l # r # level) = pair_hash cd l r # pair_up cd level"
| "pair_up cd level = []"

definition duplicate_last :: "string list \<Rightarrow> string list" where
  "duplicate_last level = (if length level mod 2 = 1 then level @ [last level] else level)"

lemma length_pair_up [simp]: "length (pair_up cd level) = length level div 2"
  by (induction cd level rule: pair_up.induct) simp_all

lemma length_duplicate_last: "length (duplicate_last level) = length level + length level mod 2"
  by (auto simp: duplicate_last_def)

function merkle_loop :: "codec \<Rightarrow> string list \<Rightarrow> string" where
  "merkle_loop cd level =
     (if length level > 1 then merkle_loop cd (pair_up cd (duplicate_last level)) else level ! 0)"
  by pat_completeness auto
termination
  by (relation "measure (\<lambda>(cd, level). length level)") (auto simp: length_duplicate_last)

declare merkle_loop.simps [simp del]

definition merkle_root :: "codec \<Rightarrow> string list \<Rightarrow> string" where
  "merkle_root cd leaves = (if leaves = [] then empty_root cd else merkle_loop cd leaves)"

definition domain_root :: "codec \<Rightarrow> pyval list \<Rightarrow> string" where
  "domain_root cd records = merkle_root cd (map (leaf_hash cd) records)"

definition build_root_forest ::
  "codec \<Rightarrow> pyval list \<Rightarrow> pyval list \<Rightarrow> pyval list \<Rightarrow> pyval list \<Rightarrow> pyval list \<Rightarrow> pyval list option \<Rightarrow> pyval" where
  "build_root_forest cd event_log score_rows receipts policy_results competition payout_reserved = VDict
     [(''event_log'', VStr (domain_root cd event_log)), (''score'', VStr (domain_root cd score_rows)),
      (''receipt'', VStr (domain_root cd receipts)), (''policy'', VStr (domain_root cd policy_results)),
      (''competition'', VStr (domain_root cd competition)),
      (''payout_reserved'', VStr (domain_root cd (case payout_reserved of None \<Rightarrow> [] | Some p \<Rightarrow> p)))]"

section \<open>The manifest (\<open>chain/anchor.py\<close>)\<close>

definition str_dict :: "(string, string) dict \<Rightarrow> pyval" where
  "str_dict d = VDict (map (\<lambda>(k, v). (k, VStr v)) d)"

definition run_manifest ::
  "string \<Rightarrow> string \<Rightarrow> string list \<Rightarrow> string \<Rightarrow> string \<Rightarrow> (string, string) dict \<Rightarrow> (string, string) dict
   \<Rightarrow> (string \<times> pyval) list" where
  "run_manifest run_id fixture_or_window_id agent_ids action_evidence_root score_root proof_mode_map versions =
     [(''run_id'', VStr run_id), (''fixture_or_window_id'', VStr fixture_or_window_id),
      (''agent_ids'', VList (map VStr agent_ids)), (''action_evidence_root'', VStr action_evidence_root),
      (''score_root'', VStr score_root), (''proof_mode_map'', str_dict proof_mode_map),
      (''code_prompt_schema_versions'', str_dict versions)]"

definition run_manifest_hash :: "codec \<Rightarrow> pyval \<Rightarrow> string" where
  "run_manifest_hash cd manifest = cd_sha256 cd (cd_serialize cd manifest)"

definition memo_payload_for_manifest :: "codec \<Rightarrow> pyval \<Rightarrow> string" where
  "memo_payload_for_manifest cd manifest = run_manifest_hash cd manifest"

definition explorer_tx_url :: "string option \<Rightarrow> string \<Rightarrow> string option" where
  "explorer_tx_url signature cluster = (case signature of
     None \<Rightarrow> None
   | Some sig \<Rightarrow>
       let base = ''https://explorer.solana.com/tx/'' @ sig
       in if cluster = ''mainnet-beta'' then Some base else Some (base @ ''?cluster='' @ cluster))"

section \<open>The verify report (\<open>verifier/recompute.py\<close>)\<close>

definition opt_float :: "pyfloat option \<Rightarrow> pyval" where
  "opt_float v = (case v of None \<Rightarrow> VNone | Some x \<Rightarrow> VFloat x)"

text \<open>A ranked metric row, as the dictionary \<open>score_run\<close> returns.\<close>

definition metrics_dict :: "int \<times> agent_metrics \<Rightarrow> pyval" where
  "metrics_dict = (\<lambda>(rank, m). VDict
     [(''agent_id'', VStr (am_agent_id m)), (''avg_clv_bps'', opt_float (am_avg_clv_bps m)),
      (''total_clv_bps'', VInt (am_total_clv_bps m)), (''sim_pnl'', VInt (am_sim_pnl m)),
      (''brier'', opt_float (am_brier m)), (''max_drawdown'', VFloat (am_max_drawdown m)),
      (''action_count'', VInt (am_action_count m)), (''valid_pct'', VFloat (am_valid_pct m)),
      (''valid_count'', VInt (am_valid_count m)), (''avg_window_clv_bps'', opt_float (am_avg_window_clv_bps m)),
      (''total_window_clv_bps'', VInt (am_total_window_clv_bps m)),
      (''window_action_count'', VInt (am_window_action_count m)), (''proof_mode'', VStr (am_proof_mode m)),
      (''rank'', VInt rank)])"

definition recompute_score_root :: "codec \<Rightarrow> (int \<times> agent_metrics) list \<Rightarrow> string" where
  "recompute_score_root cd scores = cd_sha256 cd (cd_serialize cd (VList (map metrics_dict scores)))"

fun fixture_walk :: "codec \<Rightarrow> (pyval \<Rightarrow> string) \<Rightarrow> run_event list \<Rightarrow> string result" where
  "fixture_walk cd shown [] = Inr ''unknown''"
| "fixture_walk cd shown (event # events) =
     (case re_state_snapshot_json event of
        None \<Rightarrow> fixture_walk cd shown events
      | Some snapshot_json \<Rightarrow>
          if snapshot_json = [] then fixture_walk cd shown events
          else (case cd_loads cd snapshot_json of
                  Inl e \<Rightarrow> if e = ValueError \<or> e = TypeError then fixture_walk cd shown events else Inl e
                | Inr snapshot \<Rightarrow>
                    rbind (vget ''fixture_id'' VNone snapshot) (\<lambda>fixture_id.
                      if fixture_id \<noteq> VNone then Inr (py_str shown fixture_id)
                      else fixture_walk cd shown events)))"

definition fixture_or_window_id_from_events :: "codec \<Rightarrow> (pyval \<Rightarrow> string) \<Rightarrow> run_event list \<Rightarrow> string result" where
  "fixture_or_window_id_from_events cd shown run_events = fixture_walk cd shown (sort_key re_sequence_no run_events)"

definition default_schema_versions :: "(string, string) dict" where
  "default_schema_versions = [(''action_schema'', ''sports_v0''), (''verifier'', ''v0'')]"

definition manifest_from_run :: "sealed_run \<Rightarrow> string \<Rightarrow> string \<Rightarrow> (string, string) dict option \<Rightarrow> (string \<times> pyval) list" where
  "manifest_from_run r fixture_or_window_id score_root schema_versions =
     run_manifest (sl_run_id r) fixture_or_window_id (rr_agent_ids r) (sl_evidence_hash r) score_root
       (rr_proof_mode_map r) (case schema_versions of Some v \<Rightarrow> v | None \<Rightarrow> default_schema_versions)"

definition root_forest_for_run :: "codec \<Rightarrow> sealed_run \<Rightarrow> (int \<times> agent_metrics) list \<Rightarrow> pyval" where
  "root_forest_for_run cd r scores =
     build_root_forest cd (map run_event_dict (sl_run_events r)) (map metrics_dict scores) [] []
       [VDict [(''run_id'', VStr (sl_run_id r)), (''source_mode'', VStr (sl_source_mode r)),
               (''agent_ids'', VList (map VStr (rr_agent_ids r)))]] None"

record verify_report =
  vr_run_id :: string
  vr_source_mode :: string
  vr_evidence_hash_sealed :: string
  vr_evidence_hash_recomputed :: "string option"
  vr_evidence_match :: bool
  vr_evidence_error :: "py_error option"
  vr_score_root :: string
  vr_score_rows :: "(int \<times> agent_metrics) list"
  vr_manifest :: "(string \<times> pyval) list"
  vr_manifest_hash :: string
  vr_verified :: bool

text \<open>An exception anywhere keeps what was computed before it and clears the verdict.\<close>

definition verify_run :: "codec \<Rightarrow> (pyval \<Rightarrow> string) \<Rightarrow> sealed_run \<Rightarrow> string option \<Rightarrow> verify_report" where
  "verify_run cd shown r fixture_or_window_id =
     (let report = (\<lambda>recomputed match err score_root scores manifest manifest_hash.
            \<lparr>vr_run_id = sl_run_id r, vr_source_mode = sl_source_mode r,
             vr_evidence_hash_sealed = sl_evidence_hash r, vr_evidence_hash_recomputed = recomputed,
             vr_evidence_match = match, vr_evidence_error = err, vr_score_root = score_root,
             vr_score_rows = scores, vr_manifest = manifest, vr_manifest_hash = manifest_hash,
             vr_verified = match\<rparr>)
      in case compute_evidence_hash cd (sl_run_events r) of
           Inl e \<Rightarrow> report None False (Some e) '''' [] [] ''''
         | Inr recomputed \<Rightarrow>
             (case score_run (run_result.truncate r) of
                Inl e \<Rightarrow> report (Some recomputed) False (Some e) '''' [] [] ''''
              | Inr scores \<Rightarrow>
                  let score_root = recompute_score_root cd scores
                  in (case (case fixture_or_window_id of
                              Some f \<Rightarrow> Inr f
                            | None \<Rightarrow> fixture_or_window_id_from_events cd shown (sl_run_events r)) of
                        Inl e \<Rightarrow> report (Some recomputed) False (Some e) score_root scores [] ''''
                      | Inr fixture_id \<Rightarrow>
                          let manifest = manifest_from_run r fixture_id score_root None
                                @ [(''root_forest'', root_forest_for_run cd r scores)]
                          in report (Some recomputed) (recomputed = sl_evidence_hash r) None score_root scores
                               manifest (run_manifest_hash cd (VDict manifest)))))"

section \<open>What a Merkle root binds\<close>

text \<open>The texts hashed above the leaves.\<close>

fun pair_texts :: "string list \<Rightarrow> string set" where
  "pair_texts (l # r # level) = insert (l @ r) (pair_texts level)"
| "pair_texts level = {}"

function merkle_texts :: "codec \<Rightarrow> string list \<Rightarrow> string set" where
  "merkle_texts cd level =
     (if length level > 1 then pair_texts (duplicate_last level) \<union> merkle_texts cd (pair_up cd (duplicate_last level)) else {})"
  by pat_completeness auto
termination
  by (relation "measure (\<lambda>(cd, level). length level)") (auto simp: length_duplicate_last)

declare merkle_texts.simps [simp del]

lemma pair_up_inj:
  assumes "inj_on (cd_sha256 cd) (pair_texts xs \<union> pair_texts ys)" and "length xs = length ys" and "even (length xs)"
    and "\<forall>x \<in> set xs \<union> set ys. length x = n" and "pair_up cd xs = pair_up cd ys"
  shows "xs = ys"
  using assms
proof (induction xs arbitrary: ys rule: pair_texts.induct)
  case (1 l r level)
  then obtain l' r' level' where ys: "ys = l' # r' # level'" by (metis length_Suc_conv)
  have "l @ r = l' @ r'"
    using 1(6) by - (rule inj_onD [OF 1(2)], simp_all add: ys pair_hash_def)
  moreover have "length l = length l'" using 1(5) by (simp add: ys)
  ultimately have "l = l' \<and> r = r'" by simp
  moreover have "inj_on (cd_sha256 cd) (pair_texts level \<union> pair_texts level')"
    by (rule inj_on_subset [OF 1(2)]) (auto simp: ys)
  then have "level = level'" using 1(3-6) by (intro 1(1)) (auto simp: ys)
  ultimately show ?case by (simp add: ys)
qed auto

lemma duplicate_last_inj: "length xs = length ys \<Longrightarrow> duplicate_last xs = duplicate_last ys \<longleftrightarrow> xs = ys"
  by (auto simp: duplicate_last_def split: if_splits)

lemma set_duplicate_last [simp]: "set (duplicate_last xs) = set xs"
proof (cases "length xs mod 2 = 1")
  case True
  then have "last xs \<in> set xs" by (intro last_in_set) auto
  with True show ?thesis by (auto simp: duplicate_last_def)
qed (simp add: duplicate_last_def)

lemma even_duplicate_last: "even (length (duplicate_last xs))"
  by (simp add: length_duplicate_last mod_2_eq_odd)

lemma pair_up_lengths:
  assumes "\<And>t. length (cd_sha256 cd t) = n"
  shows "x \<in> set (pair_up cd xs) \<Longrightarrow> length x = n"
  by (induction xs rule: pair_texts.induct) (auto simp: pair_hash_def assms)

lemma merkle_loop_inj:
  assumes "\<And>t. length (cd_sha256 cd t) = n"
  shows "length xs = length ys \<Longrightarrow> xs \<noteq> [] \<Longrightarrow> \<forall>x \<in> set xs \<union> set ys. length x = n
    \<Longrightarrow> inj_on (cd_sha256 cd) (merkle_texts cd xs \<union> merkle_texts cd ys)
    \<Longrightarrow> merkle_loop cd xs = merkle_loop cd ys \<Longrightarrow> xs = ys"
proof (induction "length xs" arbitrary: xs ys rule: less_induct)
  case less
  show ?case
  proof (cases "length xs > 1")
    case False
    with less.prems(1,2) obtain x y where "xs = [x]" "ys = [y]"
      by (cases xs; cases ys) auto
    with less.prems(5) show ?thesis by (simp add: merkle_loop.simps)
  next
    case True
    let ?up = "\<lambda>level. pair_up cd (duplicate_last level)"
    note texts = merkle_texts.simps [of cd xs] merkle_texts.simps [of cd ys]
    have len: "length (duplicate_last xs) = length (duplicate_last ys)"
      using less.prems(1) by (simp add: length_duplicate_last)
    have "?up xs = ?up ys"
    proof (rule less.hyps)
      show "length (?up xs) < length xs" "?up xs \<noteq> []"
        using True by (auto simp: length_duplicate_last simp flip: length_0_conv)
      show "length (?up xs) = length (?up ys)" by (simp add: len)
      show "\<forall>x \<in> set (?up xs) \<union> set (?up ys). length x = n" using pair_up_lengths [OF assms] by blast
      show "inj_on (cd_sha256 cd) (merkle_texts cd (?up xs) \<union> merkle_texts cd (?up ys))"
        by (rule inj_on_subset [OF less.prems(4)]) (use True less.prems(1) texts in auto)
      show "merkle_loop cd (?up xs) = merkle_loop cd (?up ys)"
        using less.prems(1,5) True by (simp add: merkle_loop.simps [of cd xs] merkle_loop.simps [of cd ys])
    qed
    moreover have "inj_on (cd_sha256 cd) (pair_texts (duplicate_last xs) \<union> pair_texts (duplicate_last ys))"
      by (rule inj_on_subset [OF less.prems(4)]) (use True less.prems(1) texts in auto)
    ultimately have "duplicate_last xs = duplicate_last ys"
      using less.prems(3) by - (rule pair_up_inj [OF _ len even_duplicate_last, of cd n], simp_all)
    with less.prems(1) show ?thesis by (simp add: duplicate_last_inj)
  qed
qed

text \<open>
  JSON text separates values: two values with the same canonical text are the same up to the order
  of the keys of their objects.
\<close>

fun json_norm :: "pyval \<Rightarrow> pyval" where
  "json_norm (VList xs) = VList (map json_norm xs)"
| "json_norm (VDict d) = VDict (sort_key fst (map (\<lambda>(k, v). (k, json_norm v)) d))"
| "json_norm v = v"

definition json_separates :: "codec \<Rightarrow> bool" where
  "json_separates cd \<longleftrightarrow> (\<forall>v w. cd_serialize cd v = cd_serialize cd w \<longrightarrow> json_norm v = json_norm w)"

lemma json_separatesD: "json_separates cd \<Longrightarrow> cd_serialize cd v = cd_serialize cd w \<Longrightarrow> json_norm v = json_norm w"
  unfolding json_separates_def by blast

lemma sort_key_map_of: "distinct (map fst d) \<Longrightarrow> map_of (sort_key fst d) k = map_of d k"
  for d :: "(string \<times> pyval) list"
proof -
  assume "distinct (map fst d)"
  then have "map_of (sort_key fst d) = map_of d"
    by (subst map_of_inject_set) (simp_all add: distinct_map)
  then show "map_of (sort_key fst d) k = map_of d k" by simp
qed

lemma json_norm_lookup:
  assumes "json_norm (VDict d) = json_norm (VDict d')" and "distinct (map fst d)" and "distinct (map fst d')"
  shows "map_option json_norm (map_of d k) = map_option json_norm (map_of d' k)"
proof -
  have keys: "map fst (map (\<lambda>(k, v). (k, json_norm v)) e) = map fst e" for e
    by (induction e) auto
  have look: "map_of (sort_key fst (map (\<lambda>(k, v). (k, json_norm v)) e)) k = map_option json_norm (map_of e k)"
    if "distinct (map fst e)" for e
    using sort_key_map_of [of "map (\<lambda>(k, v). (k, json_norm v)) e" k] that
    by (simp only: keys map_of_map) simp
  from assms(1) have "map_of (sort_key fst (map (\<lambda>(k, v). (k, json_norm v)) d)) k
      = map_of (sort_key fst (map (\<lambda>(k, v). (k, json_norm v)) d')) k" by simp
  then show ?thesis by (simp only: look [OF assms(2)] look [OF assms(3)])
qed

definition domain_texts :: "codec \<Rightarrow> pyval list \<Rightarrow> string set" where
  "domain_texts cd records = cd_serialize cd ` set records \<union> merkle_texts cd (map (leaf_hash cd) records)"

text \<open>
  A domain root binds its records: two record lists of the same length with the same root hold
  the same records in the same order, as long as digests have one length, the hash does not collide
  on the texts hashed for the two roots, and canonical JSON separates values.
\<close>

theorem domain_root_binds_records:
  assumes "length records = length records'" and "domain_root cd records = domain_root cd records'"
    and "\<And>t. length (cd_sha256 cd t) = n"
    and "inj_on (cd_sha256 cd) (domain_texts cd records \<union> domain_texts cd records')"
    and "json_separates cd"
  shows "map json_norm records = map json_norm records'"
proof (cases "records = []")
  case False
  let ?l = "map (leaf_hash cd)"
  have "?l records = ?l records'"
  proof (rule merkle_loop_inj [OF assms(3)])
    show "inj_on (cd_sha256 cd) (merkle_texts cd (?l records) \<union> merkle_texts cd (?l records'))"
      by (rule inj_on_subset [OF assms(4)]) (auto simp: domain_texts_def)
    show "merkle_loop cd (?l records) = merkle_loop cd (?l records')"
      using assms(1,2) False by (auto simp: domain_root_def merkle_root_def)
  qed (use assms(1,3) False in \<open>auto simp: leaf_hash_def\<close>)
  then have "cd_serialize cd (records ! i) = cd_serialize cd (records' ! i)" if "i < length records" for i
    using that assms(1) inj_onD [OF assms(4), of "cd_serialize cd (records ! i)" "cd_serialize cd (records' ! i)"]
    by (auto simp: leaf_hash_def domain_texts_def list_eq_iff_nth_eq [of "?l records"])
  then have "json_norm (records ! i) = json_norm (records' ! i)" if "i < length records" for i
    using that by (intro json_separatesD [OF assms(5)]) simp
  then show ?thesis using assms(1) by (simp add: list_eq_iff_nth_eq)
qed (use assms(1) in simp)

text \<open>
  The root does not bind the number of records: repeating the last record of a domain with an
  odd number of records (at least three) leaves its root unchanged.
\<close>

theorem repeated_last_record_keeps_root:
  assumes "odd (length records)" and "length records \<noteq> 1"
  shows "domain_root cd (records @ [last records]) = domain_root cd records"
proof -
  let ?xs = "map (leaf_hash cd) records"
  have ne: "records \<noteq> []" "length ?xs > 1" using assms by (cases records; auto)+
  have dup: "duplicate_last ?xs = ?xs @ [leaf_hash cd (last records)]"
    using assms(1) ne(1) by (simp add: duplicate_last_def last_map odd_iff_mod_2_eq_one)
  then have "duplicate_last (?xs @ [leaf_hash cd (last records)]) = ?xs @ [leaf_hash cd (last records)]"
    using assms(1) by (simp add: duplicate_last_def odd_iff_mod_2_eq_one)
  with dup ne show ?thesis
    by (simp add: domain_root_def merkle_root_def merkle_loop.simps [of cd ?xs]
      merkle_loop.simps [of cd "?xs @ [leaf_hash cd (last records)]"])
qed

theorem repeated_last_record_keeps_root_witness:
  "domain_root demo_codec [VInt 1, VInt 2, VInt 3, VInt 3] = domain_root demo_codec [VInt 1, VInt 2, VInt 3]"
  using repeated_last_record_keeps_root [of "[VInt 1, VInt 2, VInt 3]" demo_codec] by simp

section \<open>Sealed runs verify\<close>

lemma verified_iff:
  "vr_verified (verify_run cd shown r f) \<longleftrightarrow>
     compute_evidence_hash cd (sl_run_events r) = Inr (sl_evidence_hash r)
     \<and> (\<exists>scores. score_run (run_result.truncate r) = Inr scores)
     \<and> (f = None \<longrightarrow> (\<exists>w. fixture_or_window_id_from_events cd shown (sl_run_events r) = Inr w))"
  by (auto simp: verify_run_def Let_def split: sum.split option.split)

lemma verified_report:
  assumes "vr_verified (verify_run cd shown r f)"
  obtains scores w where "score_run (run_result.truncate r) = Inr scores"
    and "case f of Some v \<Rightarrow> w = v | None \<Rightarrow> fixture_or_window_id_from_events cd shown (sl_run_events r) = Inr w"
    and "vr_score_rows (verify_run cd shown r f) = scores"
    and "vr_manifest (verify_run cd shown r f) = manifest_from_run r w (recompute_score_root cd scores) None
        @ [(''root_forest'', root_forest_for_run cd r scores)]"
    and "vr_manifest_hash (verify_run cd shown r f) = run_manifest_hash cd (VDict (vr_manifest (verify_run cd shown r f)))"
  using assms by (auto simp: verify_run_def Let_def split: sum.splits option.splits)

text \<open>JSON reads back an object it wrote, and an integer member of it as that integer.\<close>

definition json_reads_objects :: "codec \<Rightarrow> bool" where
  "json_reads_objects cd \<longleftrightarrow> (\<forall>d. distinct (map fst d) \<longrightarrow> cd_serialize cd (VDict d) \<noteq> [] \<and>
     (\<exists>d'. cd_loads cd (cd_serialize cd (VDict d)) = Inr (VDict d')
       \<and> (\<forall>k n. map_of d k = Some (VInt n) \<longrightarrow> map_of d' k = Some (VInt n))))"

lemma fed_first_event:
  "cr_raw_events (fed cd agents source_mode run_id (st # states)) = tick_event cd st 0 # tl (cr_raw_events (fed cd agents source_mode run_id (st # states)))"
  by (simp add: fed_def feed_events_def)

lemma fixture_of_tick:
  assumes "json_reads_objects cd"
  shows "fixture_walk cd shown (tick_event cd st n # evs) = Inr (int_str (mst_fixture_id st))"
proof -
  let ?d = "[(''fixture_id'', VInt (mst_fixture_id st)), (''tick_seq'', VInt (mst_tick_seq st)),
      (''ts'', VInt (mst_ts st)), (''phase'', VInt (mst_phase st)),
      (''markets'', VDict (map (\<lambda>(k, m). (k, market_dict m)) (mst_markets st))),
      (''scores'', VDict (map (\<lambda>(k, v). (k, VInt v)) (mst_scores st)))]"
  have "cd_serialize cd (VDict ?d) \<noteq> [] \<and> (\<exists>d'. cd_loads cd (cd_serialize cd (VDict ?d)) = Inr (VDict d')
       \<and> (\<forall>k n. map_of ?d k = Some (VInt n) \<longrightarrow> map_of d' k = Some (VInt n)))"
    using assms unfolding json_reads_objects_def by (elim allE [of _ ?d]) simp
  then obtain d' where "cd_serialize cd (VDict ?d) \<noteq> []" "cd_loads cd (cd_serialize cd (VDict ?d)) = Inr (VDict d')"
    "map_of d' ''fixture_id'' = Some (VInt (mst_fixture_id st))" by fastforce
  then show ?thesis by (simp add: tick_event_def market_state_dict_def vget_def py_str_def)
qed

text \<open>
  C23: every run that completed and can be scored verifies: recomputed from the sealed run alone, its
  evidence hash matches, the report carries the ranking of \<open>score_run\<close>, the fixture in the
  manifest is the one of the first tick, and the memo payload is the hash of that manifest.
\<close>

theorem sealed_run_verifies:
  assumes "run_competition cd parse sink persist (st # states) agents source_mode run_id s = (Inr sealed, s'')"
    and "score_run (run_result.truncate sealed) = Inr scores" and "json_reads_objects cd"
  shows "let report = verify_run cd shown sealed None in
    vr_verified report \<and> vr_score_rows report = scores
    \<and> map_of (vr_manifest report) ''fixture_or_window_id'' = Some (VStr (int_str (mst_fixture_id st)))
    \<and> map_of (vr_manifest report) ''action_evidence_root'' = Some (VStr (sl_evidence_hash sealed))
    \<and> memo_payload_for_manifest cd (VDict (vr_manifest report)) = vr_manifest_hash report"
proof -
  let ?run = "fed cd agents source_mode run_id (st # states)"
  from run_competition_InrE [OF assms(1)] have "seal cd parse None ?run = Inr sealed" by blast
  then have evs: "sl_run_events sealed = cr_raw_events ?run"
    and hash: "compute_evidence_hash cd (cr_raw_events ?run) = Inr (sl_evidence_hash sealed)"
    by (auto elim: sealE)
  have "map re_sequence_no (cr_raw_events ?run) = map int [0 ..< length (cr_raw_events ?run)]"
    using numbered_fed [of cd agents source_mode run_id "st # states"] by (simp add: numbered_def)
  from numbered_sorted [OF this] have "fixture_or_window_id_from_events cd shown (sl_run_events sealed) = Inr (int_str (mst_fixture_id st))"
    by (simp add: fixture_or_window_id_from_events_def evs) (subst fed_first_event, rule fixture_of_tick [OF assms(3)])
  with assms(2) hash show ?thesis
    by (simp add: verify_run_def Let_def evs manifest_from_run_def run_manifest_def memo_payload_for_manifest_def)
qed

lemma opt_str_inj [simp]: "opt_str a = opt_str b \<longleftrightarrow> a = b"
  by (auto simp: opt_str_def split: option.splits)

lemma opt_float_inj [simp]: "opt_float a = opt_float b \<longleftrightarrow> a = b"
  by (auto simp: opt_float_def split: option.splits)

lemma json_norm_opt [simp]: "json_norm (opt_str a) = opt_str a" "json_norm (opt_float b) = opt_float b"
  by (auto simp: opt_str_def opt_float_def split: option.split)

lemma run_event_dict_inj:
  assumes "json_norm (run_event_dict a) = json_norm (run_event_dict b)"
  shows "a = b"
proof -
  note l = json_norm_lookup [OF assms [unfolded run_event_dict_def]]
  show ?thesis
    using l [of "''sequence_no''"] l [of "''event_type''"] l [of "''state_snapshot_json''"]
      l [of "''action_payload_json''"] l [of "''validation_payload_json''"] l [of "''result_payload_json''"]
    by simp
qed

lemma metrics_dict_inj:
  assumes "json_norm (metrics_dict a) = json_norm (metrics_dict b)"
  shows "a = b"
proof -
  obtain i m j n where ab: "a = (i, m)" "b = (j, n)" by fastforce
  note l = json_norm_lookup [OF assms [unfolded ab metrics_dict_def prod.case]]
  show ?thesis
    using l [of "''agent_id''"] l [of "''avg_clv_bps''"] l [of "''total_clv_bps''"] l [of "''sim_pnl''"] l [of "''brier''"]
      l [of "''max_drawdown''"] l [of "''action_count''"] l [of "''valid_pct''"] l [of "''valid_count''"]
      l [of "''avg_window_clv_bps''"] l [of "''total_window_clv_bps''"] l [of "''window_action_count''"]
      l [of "''proof_mode''"] l [of "''rank''"]
    by (simp add: ab)
qed

lemma json_list_inj:
  assumes "json_norm (VList (map f xs)) = json_norm (VList (map f ys))" and "\<And>a b. json_norm (f a) = json_norm (f b) \<Longrightarrow> a = b"
  shows "xs = ys"
proof -
  have "map (json_norm \<circ> f) xs = map (json_norm \<circ> f) ys" using assms(1) by simp
  moreover have "inj (json_norm \<circ> f)" by (rule injI) (simp add: assms(2))
  ultimately show ?thesis using inj_map_eq_map by blast
qed

lemma evidence_hash_text:
  "compute_evidence_hash cd evs = Inr h \<Longrightarrow> h = cd_sha256 cd (cd_serialize cd (VList (map run_event_dict (sort_key re_sequence_no evs))))"
  by (auto simp: compute_evidence_hash_def Let_def split: if_splits)

text \<open>The texts whose hashes a report carries.\<close>

definition report_texts :: "codec \<Rightarrow> sealed_run \<Rightarrow> verify_report \<Rightarrow> string set" where
  "report_texts cd r report =
     {cd_serialize cd (VDict (vr_manifest report)),
      cd_serialize cd (VList (map metrics_dict (vr_score_rows report))),
      cd_serialize cd (VList (map run_event_dict (sort_key re_sequence_no (sl_run_events r))))}"

text \<open>
  C24: the anchored hash pins the run: two sealed runs that both verify and have the same manifest
  hash are the same run with the same agents, the same recorded events (in sequence order) and the
  same recomputed ranking, as long as the hash does not collide on the texts of the two reports and
  canonical JSON separates values.
\<close>

theorem anchored_manifest_pins_the_run:
  assumes a_def: "a = verify_run cd shown r f" and b_def: "b = verify_run cd shown r' f'"
    and "vr_verified a" and "vr_verified b" and "vr_manifest_hash a = vr_manifest_hash b"
    and "inj_on (cd_sha256 cd) (report_texts cd r a \<union> report_texts cd r' b)" and "json_separates cd"
  shows "sl_run_id r = sl_run_id r' \<and> rr_agent_ids r = rr_agent_ids r'
    \<and> sort_key re_sequence_no (sl_run_events r) = sort_key re_sequence_no (sl_run_events r')
    \<and> vr_score_rows a = vr_score_rows b"
proof -
  note inj = inj_onD [OF assms(6)] and sep = json_separatesD [OF assms(7)]
  obtain w where ma: "vr_manifest a = manifest_from_run r w (recompute_score_root cd (vr_score_rows a)) None
        @ [(''root_forest'', root_forest_for_run cd r (vr_score_rows a))]"
    and ha: "vr_manifest_hash a = run_manifest_hash cd (VDict (vr_manifest a))"
    using assms(3) unfolding a_def by (elim verified_report) simp
  obtain w' where mb: "vr_manifest b = manifest_from_run r' w' (recompute_score_root cd (vr_score_rows b)) None
        @ [(''root_forest'', root_forest_for_run cd r' (vr_score_rows b))]"
    and hb: "vr_manifest_hash b = run_manifest_hash cd (VDict (vr_manifest b))"
    using assms(4) unfolding b_def by (elim verified_report) simp
  have "cd_serialize cd (VDict (vr_manifest a)) = cd_serialize cd (VDict (vr_manifest b))"
    by (rule inj) (use assms(5) ha hb in \<open>simp_all add: run_manifest_hash_def report_texts_def\<close>)
  from json_norm_lookup [OF sep [OF this, unfolded ma mb manifest_from_run_def run_manifest_def]]
  have look: "map_option json_norm (map_of (vr_manifest a) k) = map_option json_norm (map_of (vr_manifest b) k)" for k
    unfolding ma mb manifest_from_run_def run_manifest_def by simp
  have "sl_run_id r = sl_run_id r'" "rr_agent_ids r = rr_agent_ids r'"
    and eh: "sl_evidence_hash r = sl_evidence_hash r'"
    and sc: "recompute_score_root cd (vr_score_rows a) = recompute_score_root cd (vr_score_rows b)"
    using look [of "''run_id''"] look [of "''agent_ids''"] look [of "''action_evidence_root''"] look [of "''score_root''"]
    by (simp_all add: ma mb manifest_from_run_def run_manifest_def o_def inj_map_eq_map inj_def)
  moreover have "sort_key re_sequence_no (sl_run_events r) = sort_key re_sequence_no (sl_run_events r')"
  proof (rule json_list_inj [OF sep run_event_dict_inj])
    have "compute_evidence_hash cd (sl_run_events r) = Inr (sl_evidence_hash r)"
      "compute_evidence_hash cd (sl_run_events r') = Inr (sl_evidence_hash r')"
      using assms(3,4) unfolding a_def b_def by (simp_all add: verified_iff)
    from this [THEN evidence_hash_text] eh
    show "cd_serialize cd (VList (map run_event_dict (sort_key re_sequence_no (sl_run_events r))))
        = cd_serialize cd (VList (map run_event_dict (sort_key re_sequence_no (sl_run_events r'))))"
      by - (rule inj, simp_all add: report_texts_def)
  qed
  moreover have "vr_score_rows a = vr_score_rows b"
  proof (rule json_list_inj [OF sep metrics_dict_inj])
    show "cd_serialize cd (VList (map metrics_dict (vr_score_rows a)))
        = cd_serialize cd (VList (map metrics_dict (vr_score_rows b)))"
      by (rule inj) (use sc in \<open>simp_all add: report_texts_def recompute_score_root_def\<close>)
  qed
  ultimately show ?thesis by simp
qed

text \<open>
  The verdict does not look at the score rows: replacing the score rows of a sealed run by any
  others that can be scored keeps a verified run verified, and the report presents the ranking of
  the replaced rows.
\<close>

theorem verdict_ignores_score_rows:
  assumes "vr_verified (verify_run cd shown r f)"
    and "score_run (run_result.truncate (r\<lparr>rr_score_rows := rows\<rparr>)) = Inr scores"
  shows "vr_verified (verify_run cd shown (r\<lparr>rr_score_rows := rows\<rparr>) f)
    \<and> vr_score_rows (verify_run cd shown (r\<lparr>rr_score_rows := rows\<rparr>) f) = scores"
proof -
  have v: "vr_verified (verify_run cd shown (r\<lparr>rr_score_rows := rows\<rparr>) f)"
    using assms by (simp add: verified_iff)
  from verified_report [OF this] assms(2) have "vr_score_rows (verify_run cd shown (r\<lparr>rr_score_rows := rows\<rparr>) f) = scores"
    by (metis sum.inject(2))
  with v show ?thesis by simp
qed

section \<open>A sample codec and run\<close>

text \<open>A codec whose texts number the values: it separates them and reads them back.\<close>

instance pyfloat :: countable
  by countable_datatype

instance pyval :: countable
  by countable_datatype

definition number_text :: "pyval \<Rightarrow> string" where
  "number_text v = CHR ''v'' # replicate (to_nat v) CHR ''v''"

lemma number_text_inj [simp]: "number_text v = number_text w \<longleftrightarrow> v = w"
  by (auto simp: number_text_def dest: arg_cong [where f = length])

definition number_codec :: "(string \<Rightarrow> string) \<Rightarrow> codec" where
  "number_codec sha = \<lparr>cd_serialize = number_text, cd_dumps = number_text,
     cd_loads = (\<lambda>t. Inr (from_nat (length t - 1))), cd_sha256 = sha\<rparr>"

lemma number_codec_laws: "json_separates (number_codec sha)" "json_reads_objects (number_codec sha)"
  by (auto simp: json_separates_def json_reads_objects_def number_codec_def number_text_def [of "VDict _"])

definition silent_agent :: agent where
  "silent_agent = \<lparr>ag_agent_id = ''b'', ag_proof_mode = ''reproducible'', ag_decide = (\<lambda>_. Failed ''TimeoutError'' ''''), ag_config_hash = None\<rparr>"

definition silent_run :: "codec \<Rightarrow> string \<Rightarrow> sealed_run" where
  "silent_run cd run_id =
     (let evs = cr_raw_events (fed cd [silent_agent] ''replay'' run_id [demo_state 0 5000])
      in \<lparr>rr_agent_ids = [''b''], rr_score_rows = [], rr_proof_mode_map = [(''b'', ''reproducible'')], sl_run_id = run_id,
          sl_source_mode = ''replay'', sl_run_events = evs,
          sl_evidence_hash = cd_sha256 cd (cd_serialize cd (VList (map run_event_dict evs)))\<rparr>)"

lemma silent_run_completes:
  "run_competition cd parse None None [demo_state 0 5000] [silent_agent] ''replay'' run_id () = (Inr (silent_run cd run_id), ())"
proof -
  let ?run = "fed cd [silent_agent] ''replay'' run_id [demo_state 0 5000]"
  have num: "map re_sequence_no (cr_raw_events ?run) = map int [0 ..< length (cr_raw_events ?run)]"
    using numbered_fed [of cd "[silent_agent]" "''replay''" run_id "[demo_state 0 5000]"] by (simp add: numbered_def)
  have "acted [silent_agent] [demo_state 0 5000] = []"
    by (simp add: acted_def result_decisions_def silent_agent_def)
  then have "cr_decisions ?run = []" by (simp add: fed_decisions)
  moreover have "map ag_agent_id (cr_agents ?run) = [''b'']"
    "fold (\<lambda>a. AList.update (ag_agent_id a) (ag_proof_mode a)) (cr_agents ?run) [] = [(''b'', ''reproducible'')]"
    by (simp_all add: fed_def silent_agent_def)
  moreover have "cr_run_id ?run = run_id" "cr_source_mode ?run = ''replay''"
    by (simp_all add: fed_def)
  ultimately have "seal cd parse None ?run = Inr (silent_run cd run_id)"
    by (simp add: seal_def numbered_hash [OF num] silent_run_def Let_def)
  then show ?thesis
    by (subst run_competition_eq [OF _ refl]) (auto simp: sink_all_def persist_all_def eff_apply)
qed

lemma silent_run_scores: "\<exists>scores. score_run (run_result.truncate (silent_run cd run_id)) = Inr scores"
  by (simp add: score_run_def silent_run_def Let_def run_result.truncate_def rows_by_agent_def
      compute_agent_metrics_def scored_rows_of_def mean_or_none_def brier_def max_drawdown_def rank_rows_def
      metric_keys_clean)

definition forged_row :: score_row where
  "forged_row = \<lparr>sr_agent_id = ''b'', sr_tick_seq = 0, sr_fields = [(''clv_bps'', VInt 8), (''valid'', VBool True)]\<rparr>"

lemma forged_scores:
  "\<exists>scores. score_run (run_result.truncate ((silent_run cd run_id)\<lparr>rr_score_rows := [forged_row]\<rparr>)) = Inr scores
     \<and> map (am_total_clv_bps \<circ> snd) scores = [8]"
proof -
  have "\<exists>m. compute_agent_metrics ''b'' ''reproducible'' [forged_row] = Inr m \<and> am_total_clv_bps m = 8"
    by (simp add: compute_agent_metrics_def scored_rows_of_def is_scored_def is_window_scored_def row_valid_def forged_row_def
      row_get_def row_int_def int_of_val_def mean_or_none_def int_truediv_def fl_fit_def
      max_drawdown_def float_of_int_def brier_def row_confidence_def vget_def usable_confidence_def)
  then obtain m where m: "compute_agent_metrics ''b'' ''reproducible'' [forged_row] = Inr m" "am_total_clv_bps m = 8" by blast
  have "rows_by_agent (run_result.truncate ((silent_run cd run_id)\<lparr>rr_score_rows := [forged_row]\<rparr>)) = [(''b'', [forged_row])]"
    by (simp add: rows_by_agent_def run_result.truncate_def silent_run_def Let_def setdefault_append_def forged_row_def)
  with m show ?thesis
    by (simp add: score_run_def rank_rows_clean [OF metric_keys_clean]) (simp add: run_result.truncate_def silent_run_def Let_def)
qed

lemma silent_run_verifies: "vr_verified (verify_run cd shown (silent_run cd run_id) (Some f))"
proof -
  have seal: "seal cd (\<lambda>_. None) None (fed cd [silent_agent] ''replay'' run_id [demo_state 0 5000]) = Inr (silent_run cd run_id)"
    using run_competition_InrE [OF silent_run_completes] by blast
  then have "compute_evidence_hash cd (sl_run_events (silent_run cd run_id)) = Inr (sl_evidence_hash (silent_run cd run_id))"
    by (auto elim: sealE)
  with silent_run_scores show ?thesis by (simp add: verified_iff)
qed

theorem sealed_run_verifies_witness:
  "vr_verified (verify_run (number_codec id) (\<lambda>_. '''') (silent_run (number_codec id) ''r'') None)
    \<and> map_of (vr_manifest (verify_run (number_codec id) (\<lambda>_. '''') (silent_run (number_codec id) ''r'') None)) ''fixture_or_window_id''
        = Some (VStr ''1'')"
proof -
  obtain scores where sc: "score_run (run_result.truncate (silent_run (number_codec id) ''r'')) = Inr scores"
    using silent_run_scores by blast
  have "int_str (mst_fixture_id (demo_state 0 5000)) = ''1''"
    by (simp add: demo_state_def) code_simp
  with sealed_run_verifies [OF silent_run_completes sc number_codec_laws(2), where shown = "\<lambda>_. ''''"] show ?thesis
    by (simp add: Let_def)
qed

theorem anchored_manifest_pins_the_run_witness:
  "vr_manifest_hash (verify_run (number_codec id) (\<lambda>_. '''') (silent_run (number_codec id) ''r'') (Some ''f''))
    \<noteq> vr_manifest_hash (verify_run (number_codec id) (\<lambda>_. '''') (silent_run (number_codec id) ''q'') (Some ''f''))"
proof
  assume eq: "vr_manifest_hash (verify_run (number_codec id) (\<lambda>_. '''') (silent_run (number_codec id) ''r'') (Some ''f''))
    = vr_manifest_hash (verify_run (number_codec id) (\<lambda>_. '''') (silent_run (number_codec id) ''q'') (Some ''f''))"
  have "inj_on (cd_sha256 (number_codec id)) A" for A by (simp add: number_codec_def inj_on_def)
  from anchored_manifest_pins_the_run [OF refl refl silent_run_verifies silent_run_verifies eq this number_codec_laws(1)]
  show False by (simp add: silent_run_def Let_def)
qed

theorem verdict_ignores_score_rows_witness:
  "\<exists>scores. vr_verified (verify_run demo_codec (\<lambda>_. '''') ((silent_run demo_codec ''r'')\<lparr>rr_score_rows := [forged_row]\<rparr>) (Some ''f''))
    \<and> vr_score_rows (verify_run demo_codec (\<lambda>_. '''') ((silent_run demo_codec ''r'')\<lparr>rr_score_rows := [forged_row]\<rparr>) (Some ''f'')) = scores
    \<and> map (am_total_clv_bps \<circ> snd) scores = [8]"
proof -
  obtain scores where sc: "score_run (run_result.truncate ((silent_run demo_codec ''r'')\<lparr>rr_score_rows := [forged_row]\<rparr>)) = Inr scores"
    "map (am_total_clv_bps \<circ> snd) scores = [8]"
    using forged_scores [of demo_codec "''r''"] by (elim exE conjE) (rule that)
  with verdict_ignores_score_rows [OF silent_run_verifies sc(1)] show ?thesis by (intro exI [of _ scores] conjI) simp_all
qed

definition swap_sha :: "string \<Rightarrow> string" where
  "swap_sha t = (if t = number_text (VInt 1) then ''a'' else if t = number_text (VInt 2) then ''b''
     else if t = ''ab'' then ''c'' else if t = ''ba'' then ''d'' else ''e'')"

theorem domain_root_binds_records_witness:
  "domain_root (number_codec swap_sha) [VInt 1, VInt 2] \<noteq> domain_root (number_codec swap_sha) [VInt 2, VInt 1]"
proof
  assume eq: "domain_root (number_codec swap_sha) [VInt 1, VInt 2] = domain_root (number_codec swap_sha) [VInt 2, VInt 1]"
  have len: "length (cd_sha256 (number_codec swap_sha) t) = 1" for t by (simp add: number_codec_def swap_sha_def)
  have ne: "number_text v \<noteq> ''ab''" "number_text v \<noteq> ''ba''" for v by (simp_all add: number_text_def)
  have texts: "domain_texts (number_codec swap_sha) [VInt 1, VInt 2] = {number_text (VInt 1), number_text (VInt 2), ''ab''}"
    "domain_texts (number_codec swap_sha) [VInt 2, VInt 1] = {number_text (VInt 1), number_text (VInt 2), ''ba''}"
    by (auto simp: domain_texts_def number_codec_def leaf_hash_def merkle_texts.simps duplicate_last_def pair_hash_def swap_sha_def)
  have "inj_on swap_sha {number_text (VInt 1), number_text (VInt 2), ''ab'', ''ba''}"
    by (simp add: ne [symmetric] ne swap_sha_def)
  then have "inj_on (cd_sha256 (number_codec swap_sha)) {number_text (VInt 1), number_text (VInt 2), ''ab'', ''ba''}"
    by (simp add: number_codec_def)
  then have "inj_on (cd_sha256 (number_codec swap_sha))
      (domain_texts (number_codec swap_sha) [VInt 1, VInt 2] \<union> domain_texts (number_codec swap_sha) [VInt 2, VInt 1])"
    by (rule inj_on_subset) (auto simp: texts)
  from domain_root_binds_records [OF _ eq len this number_codec_laws(1)] show False by simp
qed

end
