(* ===== verification/Event_Log.thy ===== *)
theory Event_Log
  imports Verifier
begin

text \<open>
  The canonical competition event log (\<open>src/veridex/competition/events.py\<close>): a pure projection of
  a sealed run into one numbered list, evidence events first and derived events after them. The
  two operational fields of an event, set by the store and the broadcaster, are part of the record and
  not of its canonical form.
\<close>

section \<open>Events\<close>

datatype event_type =
    COMPETITION_STARTED | MARKET_TICK | WINDOW_CONFIG | AGENT_ACTION | LAW_RESULT | POLICY_RESULT
  | EXECUTION_SUBMITTED | EXECUTION_RECEIPT | APPROVAL_AUDIT | SCORE_UPDATE | PROOF_ANCHOR
  | EXECUTION_ROUTE | PAYOUT_STATUS | COMPETITION_FINALIZED

record competition_event =
  ce_competition_id :: string
  ce_run_id :: string
  ce_seq :: int
  ce_event_type :: event_type
  ce_event_ts :: int
  ce_evidence :: bool
  ce_source_sequence_no :: "int option"
  ce_derived_from :: "string list"
  ce_payload :: "(string \<times> pyval) list"
  ce_payload_hash :: string
  ce_persisted_at :: "string option"
  ce_broadcasted_at :: "string option"

definition canonical_dict :: "competition_event \<Rightarrow> competition_event" where
  "canonical_dict e = e\<lparr>ce_persisted_at := None, ce_broadcasted_at := None\<rparr>"

definition event_payload_hash :: "codec \<Rightarrow> pyval \<Rightarrow> string" where
  "event_payload_hash cd payload = cd_sha256 cd (cd_serialize cd payload)"

text \<open>A derived event: not evidence, its hash over its own payload.\<close>

definition derived_event ::
  "codec \<Rightarrow> string \<Rightarrow> string \<Rightarrow> int \<Rightarrow> event_type \<Rightarrow> int \<Rightarrow> string list \<Rightarrow> (string \<times> pyval) list \<Rightarrow> competition_event" where
  "derived_event cd competition_id run_id seq event_type event_ts derived_from payload =
     \<lparr>ce_competition_id = competition_id, ce_run_id = run_id, ce_seq = seq, ce_event_type = event_type,
      ce_event_ts = event_ts, ce_evidence = False, ce_source_sequence_no = None,
      ce_derived_from = derived_from, ce_payload = payload,
      ce_payload_hash = event_payload_hash cd (VDict payload), ce_persisted_at = None, ce_broadcasted_at = None\<rparr>"

definition build_competition_started_event ::
  "codec \<Rightarrow> string \<Rightarrow> string \<Rightarrow> string \<Rightarrow> string list \<Rightarrow> int \<Rightarrow> competition_event" where
  "build_competition_started_event cd competition_id run_id source_mode agent_ids base_ts =
     derived_event cd competition_id run_id 0 COMPETITION_STARTED base_ts [''competition_meta'']
       [(''competition_id'', VStr competition_id), (''run_id'', VStr run_id), (''source_mode'', VStr source_mode),
        (''agent_ids'', VList (map VStr agent_ids))]"

definition build_policy_result_event ::
  "codec \<Rightarrow> string \<Rightarrow> string \<Rightarrow> int \<Rightarrow> int \<Rightarrow> string \<Rightarrow> int \<Rightarrow> (string \<times> pyval) list \<Rightarrow> string option \<Rightarrow> competition_event" where
  "build_policy_result_event cd competition_id run_id seq event_ts agent_id source_ref result execution_id =
     derived_event cd competition_id run_id seq POLICY_RESULT event_ts
       [''score_row:'' @ agent_id @ '':seq-'' @ int_str source_ref]
       (case execution_id of None \<Rightarrow> result | Some e \<Rightarrow> AList.update ''execution_id'' (VStr e) result)"

definition build_execution_route_event ::
  "codec \<Rightarrow> string \<Rightarrow> string \<Rightarrow> int \<Rightarrow> int \<Rightarrow> (string \<times> pyval) list \<Rightarrow> competition_event" where
  "build_execution_route_event cd competition_id run_id seq event_ts payload =
     derived_event cd competition_id run_id seq EXECUTION_ROUTE event_ts [''execution_route''] payload"

definition build_execution_submitted_event ::
  "codec \<Rightarrow> string \<Rightarrow> string \<Rightarrow> int \<Rightarrow> int \<Rightarrow> string \<Rightarrow> (string \<times> pyval) list \<Rightarrow> competition_event" where
  "build_execution_submitted_event cd competition_id run_id seq event_ts execution_id payload =
     derived_event cd competition_id run_id seq EXECUTION_SUBMITTED event_ts [''execution_record:'' @ execution_id] payload"

definition build_execution_receipt_event ::
  "codec \<Rightarrow> string \<Rightarrow> string \<Rightarrow> int \<Rightarrow> int \<Rightarrow> string \<Rightarrow> (string \<times> pyval) list \<Rightarrow> competition_event" where
  "build_execution_receipt_event cd competition_id run_id seq event_ts execution_id payload =
     derived_event cd competition_id run_id seq EXECUTION_RECEIPT event_ts [''execution_record:'' @ execution_id] payload"

definition build_approval_audit_event ::
  "codec \<Rightarrow> string \<Rightarrow> string \<Rightarrow> int \<Rightarrow> int \<Rightarrow> string \<Rightarrow> (string \<times> pyval) list \<Rightarrow> competition_event" where
  "build_approval_audit_event cd competition_id run_id seq event_ts execution_id payload =
     derived_event cd competition_id run_id seq APPROVAL_AUDIT event_ts [''execution_record:'' @ execution_id] payload"

section \<open>Evidence events\<close>

text \<open>\<open>json.loads(text) if text else {}\<close>.\<close>

definition loads_or_empty :: "codec \<Rightarrow> string option \<Rightarrow> pyval result" where
  "loads_or_empty cd text = (case text of None \<Rightarrow> Inr (VDict [])
     | Some t \<Rightarrow> if t = [] then Inr (VDict []) else cd_loads cd t)"

definition tick_ts :: "codec \<Rightarrow> (string \<Rightarrow> int option) \<Rightarrow> string option \<Rightarrow> int option result" where
  "tick_ts cd parse_int state_snapshot_json =
     (if state_snapshot_json = None \<or> state_snapshot_json = Some [] then Inr None
      else rbind (loads_or_empty cd state_snapshot_json) (\<lambda>snapshot.
           rbind (vget ''ts'' VNone snapshot) (\<lambda>ts.
             if ts = VNone then Inr None else rbind (to_int parse_int ts) (\<lambda>n. Inr (Some n)))))"

text \<open>\<open>markets.keys()\<close>: only an object has it.\<close>

definition py_keys :: "pyval \<Rightarrow> string list result" where
  "py_keys v = (case v of VDict d \<Rightarrow> Inr (map fst d) | _ \<Rightarrow> Inl AttributeError)"

definition tick_payload :: "codec \<Rightarrow> string option \<Rightarrow> (string \<times> pyval) list result" where
  "tick_payload cd state_snapshot_json =
     (if state_snapshot_json = None \<or> state_snapshot_json = Some [] then Inr []
      else rbind (loads_or_empty cd state_snapshot_json) (\<lambda>snapshot.
           rbind (vget ''markets'' (VDict []) snapshot) (\<lambda>m.
           rbind (vget ''tick_seq'' VNone snapshot) (\<lambda>tick_seq.
           rbind (vget ''ts'' VNone snapshot) (\<lambda>ts.
           rbind (vget ''phase'' VNone snapshot) (\<lambda>phase.
           rbind (py_keys (py_or m (VDict []))) (\<lambda>keys.
             Inr [(''tick_seq'', tick_seq), (''ts'', ts), (''phase'', phase),
                  (''markets'', VList (map VStr (sort keys)))])))))))"

definition action_payload :: "codec \<Rightarrow> run_event \<Rightarrow> (string \<times> pyval) list result" where
  "action_payload cd run_event =
     rbind (loads_or_empty cd (re_result_payload_json run_event)) (\<lambda>res.
     rbind (vget ''agent_id'' VNone res) (\<lambda>agent_id.
       if re_event_type run_event = ''error'' then
         rbind (vget ''message'' VNone res) (\<lambda>message.
           Inr [(''error'', VBool True), (''agent_id'', agent_id), (''message'', message)])
       else
         rbind (loads_or_empty cd (re_action_payload_json run_event)) (\<lambda>action.
         rbind (vget ''params'' (VDict []) action) (\<lambda>ps.
         let params = py_or ps (VDict []) in
         rbind (vget ''type'' VNone action) (\<lambda>type.
         rbind (vget ''market_key'' VNone params) (\<lambda>market_key.
         rbind (vget ''side'' VNone params) (\<lambda>side.
           Inr [(''agent_id'', agent_id), (''action'', type), (''market_key'', market_key), (''side'', side)])))))))"

text \<open>The constructor of the event validates that the payload is an object.\<close>

definition as_payload :: "pyval \<Rightarrow> (string \<times> pyval) list result" where
  "as_payload v = (case v of VDict d \<Rightarrow> Inr d | _ \<Rightarrow> Inl ValueError)"

definition evidence_parts ::
  "codec \<Rightarrow> (string \<Rightarrow> int option) \<Rightarrow> run_event \<Rightarrow> int \<Rightarrow> (event_type \<times> (string \<times> pyval) list \<times> int) result" where
  "evidence_parts cd parse_int run_event current_tick_ts =
     (if re_event_type run_event = ''tick'' then
        rbind (tick_ts cd parse_int (re_state_snapshot_json run_event)) (\<lambda>parsed_ts.
        rbind (tick_payload cd (re_state_snapshot_json run_event)) (\<lambda>payload.
          Inr (MARKET_TICK, payload, (case parsed_ts of None \<Rightarrow> current_tick_ts | Some t \<Rightarrow> t))))
      else if re_event_type run_event \<in> {''decision'', ''error''} then
        rbind (action_payload cd run_event) (\<lambda>payload. Inr (AGENT_ACTION, payload, current_tick_ts))
      else if re_event_type run_event = ''window_config'' then
        rbind (loads_or_empty cd (re_result_payload_json run_event)) (\<lambda>v.
        rbind (as_payload v) (\<lambda>payload. Inr (WINDOW_CONFIG, payload, current_tick_ts)))
      else Inl ValueError)"

definition build_evidence_event ::
  "codec \<Rightarrow> (string \<Rightarrow> int option) \<Rightarrow> string \<Rightarrow> string \<Rightarrow> run_event \<Rightarrow> int \<Rightarrow> (competition_event \<times> int) result" where
  "build_evidence_event cd parse_int competition_id run_id run_event current_tick_ts =
     rbind (evidence_parts cd parse_int run_event current_tick_ts) (\<lambda>(event_type, payload, tick_ts).
       Inr (\<lparr>ce_competition_id = competition_id, ce_run_id = run_id, ce_seq = re_sequence_no run_event + 1,
             ce_event_type = event_type, ce_event_ts = tick_ts, ce_evidence = True,
             ce_source_sequence_no = Some (re_sequence_no run_event), ce_derived_from = [], ce_payload = payload,
             ce_payload_hash = event_payload_hash cd (run_event_dict run_event),
             ce_persisted_at = None, ce_broadcasted_at = None\<rparr>, tick_ts))"

fun evidence_events ::
  "codec \<Rightarrow> (string \<Rightarrow> int option) \<Rightarrow> string \<Rightarrow> string \<Rightarrow> run_event list \<Rightarrow> int \<Rightarrow> competition_event list result" where
  "evidence_events cd parse_int competition_id run_id [] current_tick_ts = Inr []"
| "evidence_events cd parse_int competition_id run_id (ev # evs) current_tick_ts =
     rbind (build_evidence_event cd parse_int competition_id run_id ev current_tick_ts) (\<lambda>(event, ts).
     rbind (evidence_events cd parse_int competition_id run_id evs ts) (\<lambda>events. Inr (event # events)))"

section \<open>The derived tail\<close>

text \<open>\<open>row[key]\<close>.\<close>

definition row_item :: "score_row \<Rightarrow> string \<Rightarrow> pyval result" where
  "row_item r k = (case map_of (sr_fields r) k of None \<Rightarrow> Inl KeyError | Some v \<Rightarrow> Inr v)"

definition row_ref :: "string \<Rightarrow> int \<Rightarrow> string" where
  "row_ref agent_id tick_seq = ''score_row:'' @ agent_id @ '':tick-'' @ int_str tick_seq"

type_synonym derived = "event_type \<times> (string \<times> pyval) list \<times> string list"

definition law_result :: "score_row \<Rightarrow> derived result" where
  "law_result row =
     (let clv_field = (if map_of (sr_fields row) ''window_clv_bps'' \<noteq> None then ''window_clv_bps'' else ''clv_bps'')
      in rbind (row_item row clv_field) (\<lambda>clv.
         rbind (row_item row ''valid'') (\<lambda>valid.
         rbind (row_item row ''reason'') (\<lambda>reason.
         rbind (row_item row ''recomputed_edge_bps'') (\<lambda>edge.
           Inr (LAW_RESULT,
             [(''agent_id'', VStr (sr_agent_id row)), (''tick_seq'', VInt (sr_tick_seq row)), (clv_field, clv),
              (''valid'', valid), (''reason'', reason), (''recomputed_edge_bps'', edge)],
             [row_ref (sr_agent_id row) (sr_tick_seq row)]))))))"

definition score_update :: "(string, string) dict \<Rightarrow> string \<times> score_row list \<Rightarrow> derived result" where
  "score_update proof_mode_map = (\<lambda>(agent_id, rows).
     let agent_rows = sort_key sr_tick_seq rows;
         numeric_clvs = map (row_int ''clv_bps'') (filter is_scored agent_rows);
         window_clvs = map (row_int ''window_clv_bps'') (filter is_window_scored agent_rows)
     in rbind (rtraverse (\<lambda>r. row_item r ''valid'') agent_rows) (\<lambda>valids.
        rbind (mean_or_none (sum_list numeric_clvs) (int (length numeric_clvs))) (\<lambda>mean_clv.
        rbind (mean_or_none (sum_list window_clvs) (int (length window_clvs))) (\<lambda>mean_window_clv.
          Inr (SCORE_UPDATE,
            [(''agent_id'', VStr agent_id),
             (''proof_mode'', opt_str (map_of proof_mode_map agent_id)),
             (''scored_count'', VInt (int (length agent_rows))),
             (''valid_count'', VInt (int (length (filter truthy valids)))),
             (''total_clv_bps'', VInt (sum_list numeric_clvs)), (''mean_clv_bps'', opt_float mean_clv),
             (''total_window_clv_bps'', VInt (sum_list window_clvs)),
             (''mean_window_clv_bps'', opt_float mean_window_clv)],
            map (\<lambda>r. row_ref agent_id (sr_tick_seq r)) agent_rows)))))"

text \<open>The derived events, in order, without their numbers.\<close>

definition derived_tail :: "string \<Rightarrow> string \<Rightarrow> sealed_run \<Rightarrow> derived list result" where
  "derived_tail competition_id anchor_status r =
     rbind (rtraverse law_result (sort_key (\<lambda>row. (sr_agent_id row, sr_tick_seq row)) (rr_score_rows r))) (\<lambda>laws.
     rbind (rtraverse (score_update (rr_proof_mode_map r)) (sort_key fst (group_rows sr_agent_id (rr_score_rows r) []))) (\<lambda>updates.
       Inr (laws @ updates @
         [(PROOF_ANCHOR, [(''anchor_status'', VStr anchor_status), (''evidence_hash'', VStr (sl_evidence_hash r))],
           [''evidence_hash'']),
          (COMPETITION_FINALIZED,
           [(''competition_id'', VStr competition_id), (''run_id'', VStr (sl_run_id r)),
            (''agent_count'', VInt (int (length (rr_agent_ids r)))),
            (''scored_count'', VInt (int (length (rr_score_rows r))))],
           [''run:'' @ sl_run_id r])])))"

fun emit_derived :: "codec \<Rightarrow> string \<Rightarrow> string \<Rightarrow> int \<Rightarrow> derived list \<Rightarrow> int \<Rightarrow> competition_event list" where
  "emit_derived cd competition_id run_id base_ts [] derived_seq = []"
| "emit_derived cd competition_id run_id base_ts ((type, payload, refs) # ds) derived_seq =
     derived_event cd competition_id run_id derived_seq type base_ts refs payload
     # emit_derived cd competition_id run_id base_ts ds (derived_seq + 1)"

definition build_event_log ::
  "codec \<Rightarrow> (string \<Rightarrow> int option) \<Rightarrow> sealed_run \<Rightarrow> string \<Rightarrow> string \<Rightarrow> int \<Rightarrow> competition_event list result" where
  "build_event_log cd parse_int r competition_id anchor_status base_ts =
     rbind (evidence_events cd parse_int competition_id (sl_run_id r) (sort_key re_sequence_no (sl_run_events r)) base_ts) (\<lambda>evidence.
     rbind (derived_tail competition_id anchor_status r) (\<lambda>tail.
       Inr (build_competition_started_event cd competition_id (sl_run_id r) (sl_source_mode r) (rr_agent_ids r) base_ts
            # evidence
            @ emit_derived cd competition_id (sl_run_id r) base_ts tail (int (length (sl_run_events r)) + 1))))"

definition replay_from :: "competition_event list \<Rightarrow> int \<Rightarrow> competition_event list" where
  "replay_from events since_seq = sort_key ce_seq (filter (\<lambda>e. ce_seq e > since_seq) events)"

section \<open>The layout of the log\<close>

lemma list_all2_in_set2: "list_all2 P xs ys \<Longrightarrow> y \<in> set ys \<Longrightarrow> \<exists>x \<in> set xs. P x y"
  by (metis in_set_conv_nth list_all2_conv_all_nth)

text \<open>An evidence event of a sealed event: its number, its binding and its type.\<close>

definition evidence_of :: "codec \<Rightarrow> string \<Rightarrow> string \<Rightarrow> run_event \<Rightarrow> competition_event \<Rightarrow> bool" where
  "evidence_of cd competition_id run_id ev e \<longleftrightarrow>
     ce_competition_id e = competition_id \<and> ce_run_id e = run_id \<and> ce_evidence e \<and> ce_derived_from e = []
     \<and> ce_seq e = re_sequence_no ev + 1 \<and> ce_source_sequence_no e = Some (re_sequence_no ev)
     \<and> ce_payload_hash e = cd_sha256 cd (cd_serialize cd (run_event_dict ev))
     \<and> ce_event_type e \<in> {MARKET_TICK, AGENT_ACTION, WINDOW_CONFIG}"

lemma build_evidence_event_of:
  "build_evidence_event cd parse_int competition_id run_id ev ts = Inr (e, ts')
     \<Longrightarrow> evidence_of cd competition_id run_id ev e"
  by (auto simp: build_evidence_event_def evidence_of_def event_payload_hash_def evidence_parts_def rbind_Inr_iff
      split: if_splits)

lemma evidence_events_of:
  "evidence_events cd parse_int competition_id run_id evs ts = Inr es
     \<Longrightarrow> list_all2 (evidence_of cd competition_id run_id) evs es"
  by (induction evs arbitrary: ts es) (auto simp: rbind_Inr_iff dest: build_evidence_event_of)

text \<open>A derived event of the log.\<close>

definition derivation :: "codec \<Rightarrow> competition_event \<Rightarrow> bool" where
  "derivation cd e \<longleftrightarrow> \<not> ce_evidence e \<and> ce_source_sequence_no e = None \<and> ce_derived_from e \<noteq> []
     \<and> ce_payload_hash e = cd_sha256 cd (cd_serialize cd (VDict (ce_payload e)))
     \<and> ce_event_type e \<in> {COMPETITION_STARTED, LAW_RESULT, SCORE_UPDATE, PROOF_ANCHOR, COMPETITION_FINALIZED}"

lemma emit_derived_seq:
  "map ce_seq (emit_derived cd c r ts ds n) = map (\<lambda>i. n + int i) [0 ..< length ds]"
  "length (emit_derived cd c r ts ds n) = length ds"
proof (induction ds arbitrary: n)
  case (Cons d ds)
  have shift: "map (\<lambda>i. n + int i) [0 ..< Suc m] = n # map (\<lambda>i. n + 1 + int i) [0 ..< m]" for m n
    by (simp add: map_upt_Suc del: upt_Suc)
  { case 1
    show ?case using Cons(1) [of "n + 1"] by (cases d) (simp add: derived_event_def shift del: upt_Suc)
  next
    case 2
    show ?case using Cons(2) [of "n + 1"] by (cases d) simp }
qed simp_all

lemma emit_derived_set:
  "set (emit_derived cd c r ts ds n) \<subseteq> {derived_event cd c r i type ts refs payload | i type payload refs. (type, payload, refs) \<in> set ds}"
  by (induction ds arbitrary: n) fastforce+

lemma group_rows_nonempty: "(k, rows) \<in> set (group_rows key vs []) \<Longrightarrow> rows = filter (\<lambda>v. key v = k) vs \<and> rows \<noteq> []"
proof -
  assume "(k, rows) \<in> set (group_rows key vs [])"
  moreover have "dict_ok (group_rows key vs [])" by (rule dict_ok_group_rows) (simp add: dict_ok_def)
  ultimately have "map_of (group_rows key vs []) k = Some rows" by (simp add: dict_ok_def)
  then show ?thesis by (auto simp: map_of_group_rows filter_empty_conv split: if_splits)
qed

lemma derived_tail_types:
  assumes "derived_tail c a r = Inr ds" and "(type, payload, refs) \<in> set ds"
  shows "refs \<noteq> [] \<and> type \<in> {LAW_RESULT, SCORE_UPDATE, PROOF_ANCHOR, COMPETITION_FINALIZED}"
proof -
  let ?rows = "sort_key (\<lambda>row. (sr_agent_id row, sr_tick_seq row)) (rr_score_rows r)"
  let ?groups = "sort_key fst (group_rows sr_agent_id (rr_score_rows r) [])"
  obtain laws updates where laws: "rtraverse law_result ?rows = Inr laws"
    and updates: "rtraverse (score_update (rr_proof_mode_map r)) ?groups = Inr updates"
    and ds: "set ds \<subseteq> set laws \<union> set updates \<union>
      {d. fst d \<in> {PROOF_ANCHOR, COMPETITION_FINALIZED} \<and> snd (snd d) \<noteq> []}"
    using assms(1) by (auto simp: derived_tail_def rbind_Inr_iff)
  consider "(type, payload, refs) \<in> set laws" | "(type, payload, refs) \<in> set updates"
    | "type \<in> {PROOF_ANCHOR, COMPETITION_FINALIZED} \<and> refs \<noteq> []" using assms(2) ds by auto
  then show ?thesis
  proof cases
    case 1
    from rtraverse_source [OF laws this] show ?thesis
      by (auto simp: law_result_def Let_def rbind_Inr_iff)
  next
    case 2
    from rtraverse_source [OF updates this] obtain k rows where "(k, rows) \<in> set ?groups"
      and "score_update (rr_proof_mode_map r) (k, rows) = Inr (type, payload, refs)" by auto
    then show ?thesis using group_rows_nonempty [of k rows sr_agent_id "rr_score_rows r"]
      by (auto simp: score_update_def Let_def rbind_Inr_iff)
  qed auto
qed

lemma derived_tail_last: "derived_tail c a r = Inr ds \<Longrightarrow> ds \<noteq> [] \<and> fst (last ds) = COMPETITION_FINALIZED"
  by (auto simp: derived_tail_def rbind_Inr_iff)

lemma emit_derived_last:
  "ds \<noteq> [] \<Longrightarrow> ce_event_type (last (emit_derived cd c r ts ds n)) = fst (last ds)"
proof (induction ds arbitrary: n)
  case (Cons d ds)
  then show ?case
    using emit_derived_seq(2) [of cd c r ts ds "n + 1"] by (cases d; cases ds) (auto simp: derived_event_def)
qed simp

lemma upt_three: "[0 ..< 1] @ map Suc [0 ..< m] @ map (\<lambda>i. i + (1 + m)) [0 ..< n] = [0 ..< 1 + (m + n)]"
proof (induction n)
  case 0
  then show ?case by (simp add: map_Suc_upt upt_conv_Cons del: upt_Suc)
next
  case (Suc n)
  then show ?case by (simp add: add.commute)
qed

lemma replay_resumes:
  assumes "map ce_seq evlog = map int [0 ..< length evlog]" and "k \<le> length evlog"
  shows "take k evlog @ replay_from evlog (int k - 1) = evlog"
proof -
  have seq: "ce_seq (evlog ! i) = int i" if "i < length evlog" for i
    using assms(1) that by (metis add_0 length_map nth_map nth_upt)
  have none: "filter (\<lambda>e. int k - 1 < ce_seq e) (take k evlog) = []"
    using seq assms(2) by (auto simp: filter_empty_conv in_set_conv_nth)
  have all: "filter (\<lambda>e. int k - 1 < ce_seq e) (drop k evlog) = drop k evlog"
    using seq by (auto simp: filter_id_conv in_set_conv_nth)
  have "filter (\<lambda>e. int k - 1 < ce_seq e) evlog = drop k evlog"
    by (metis append_take_drop_id filter_append none all append_Nil)
  moreover have "sorted (map ce_seq (drop k evlog))"
    using seq by (simp add: sorted_iff_nth_mono)
  ultimately have "replay_from evlog (int k - 1) = drop k evlog"
    by (simp add: replay_from_def sort_key_id_if_sorted)
  then show ?thesis by simp
qed

lemma build_event_logE:
  assumes "build_event_log cd parse_int r c a ts = Inr evlog"
  obtains evidence ds where "evidence_events cd parse_int c (sl_run_id r) (sort_key re_sequence_no (sl_run_events r)) ts = Inr evidence"
    and "derived_tail c a r = Inr ds"
    and "evlog = build_competition_started_event cd c (sl_run_id r) (sl_source_mode r) (rr_agent_ids r) ts # evidence
      @ emit_derived cd c (sl_run_id r) ts ds (int (length (sl_run_events r)) + 1)"
  using assms by (auto simp: build_event_log_def rbind_Inr_iff)

lemma evidence_seqs:
  "evidence_events cd parse_int c run_id evs ts = Inr evidence \<Longrightarrow> map ce_seq evidence = map (\<lambda>ev. re_sequence_no ev + 1) evs"
  by (drule evidence_events_of) (auto simp: list_all2_conv_all_nth evidence_of_def intro!: nth_equalityI)

lemma event_log_numbers:
  assumes "build_event_log cd parse_int r c a ts = Inr evlog"
    and "map re_sequence_no (sl_run_events r) = map int [0 ..< length (sl_run_events r)]"
  shows "map ce_seq evlog = map int [0 ..< length evlog]"
proof -
  let ?evs = "sl_run_events r"
  obtain evidence ds where ev: "evidence_events cd parse_int c (sl_run_id r) ?evs ts = Inr evidence"
    and evlog: "evlog = build_competition_started_event cd c (sl_run_id r) (sl_source_mode r) (rr_agent_ids r) ts # evidence
      @ emit_derived cd c (sl_run_id r) ts ds (int (length ?evs) + 1)"
    using build_event_logE [OF assms(1)] numbered_sorted [OF assms(2)] by metis
  have len: "length evlog = 1 + (length ?evs + length ds)"
    using list_all2_lengthD [OF evidence_events_of [OF ev]] by (simp add: evlog emit_derived_seq(2))
  have "map (\<lambda>ev. re_sequence_no ev + 1) ?evs = map (\<lambda>i. i + 1) (map re_sequence_no ?evs)" by simp
  also have "\<dots> = map (\<lambda>i. 1 + int i) [0 ..< length ?evs]" by (simp add: assms(2))
  finally have "map ce_seq evlog = map int ([0 ..< 1] @ map Suc [0 ..< length ?evs]
      @ map (\<lambda>i. i + (1 + length ?evs)) [0 ..< length ds])"
    using evidence_seqs [OF ev] by (simp add: evlog emit_derived_seq(1) build_competition_started_event_def derived_event_def o_def)
  also have "[0 ..< 1] @ map Suc [0 ..< length ?evs] @ map (\<lambda>i. i + (1 + length ?evs)) [0 ..< length ds] = [0 ..< length evlog]"
    unfolding len by (simp only: upt_three)
  finally show ?thesis .
qed

text \<open>
  C25: the log is numbered from zero without gaps; its evidence events are exactly the sealed events
  of the run, in order, each bound to the digest of the full sealed event; every other event is a
  derivation that names what it derives from and hashes its own payload, the first one starts the
  competition and the last one finalizes it, and no event of the execution lane is in it. A reader that has the
  first events and asks for those after the last number it saw has the whole log.
\<close>

theorem event_log_layout:
  assumes "build_event_log cd parse_int r c a ts = Inr evlog"
    and "map re_sequence_no (sl_run_events r) = map int [0 ..< length (sl_run_events r)]"
  shows "map ce_seq evlog = map int [0 ..< length evlog]
    \<and> list_all2 (evidence_of cd c (sl_run_id r)) (sl_run_events r) (filter ce_evidence evlog)
    \<and> (\<forall>e \<in> set evlog. ce_evidence e \<or> derivation cd e)
    \<and> ce_event_type (hd evlog) = COMPETITION_STARTED \<and> ce_event_type (last evlog) = COMPETITION_FINALIZED
    \<and> (\<forall>k \<le> length evlog. take k evlog @ replay_from evlog (int k - 1) = evlog)"
proof -
  let ?evs = "sl_run_events r"
  obtain evidence ds where ev: "evidence_events cd parse_int c (sl_run_id r) ?evs ts = Inr evidence"
    and ds: "derived_tail c a r = Inr ds"
    and evlog: "evlog = build_competition_started_event cd c (sl_run_id r) (sl_source_mode r) (rr_agent_ids r) ts # evidence
      @ emit_derived cd c (sl_run_id r) ts ds (int (length ?evs) + 1)"
    using build_event_logE [OF assms(1)] numbered_sorted [OF assms(2)] by metis
  let ?tail = "emit_derived cd c (sl_run_id r) ts ds (int (length ?evs) + 1)"
  have all: "list_all2 (evidence_of cd c (sl_run_id r)) ?evs evidence" by (rule evidence_events_of [OF ev])
  have evid: "\<forall>e \<in> set evidence. ce_evidence e"
    by (auto simp: evidence_of_def dest!: list_all2_in_set2 [OF all])
  have tail: "\<forall>e \<in> set ?tail. derivation cd e"
    using emit_derived_set [of cd c "sl_run_id r" ts ds "int (length ?evs) + 1"] derived_tail_types [OF ds]
    by (fastforce simp: derivation_def derived_event_def event_payload_hash_def)
  have start: "derivation cd (hd evlog)"
    by (simp add: evlog build_competition_started_event_def derivation_def derived_event_def event_payload_hash_def)
  have "filter ce_evidence evlog = evidence"
    using evid tail start by (auto simp: evlog derivation_def filter_empty_conv)
  moreover have "map ce_seq evlog = map int [0 ..< length evlog]" by (rule event_log_numbers [OF assms])
  moreover have ne: "?tail \<noteq> []"
    using derived_tail_last [OF ds] emit_derived_seq(2) [of cd c "sl_run_id r" ts ds "int (length ?evs) + 1"]
    by (metis length_0_conv)
  moreover have "ce_event_type (last evlog) = COMPETITION_FINALIZED"
    using derived_tail_last [OF ds] emit_derived_last [of ds cd c "sl_run_id r" ts "int (length ?evs) + 1"]
      ne by (simp add: evlog)
  moreover have "\<forall>k \<le> length evlog. take k evlog @ replay_from evlog (int k - 1) = evlog"
    using calculation(2) replay_resumes by blast
  ultimately show ?thesis
    using all evid tail start by (auto simp: evlog build_competition_started_event_def derived_event_def)
qed

section \<open>Score updates and the board\<close>

lemma sum_list_sort_key: "sum_list (map f (sort_key k xs)) = sum_list (map f xs)" for f :: "'a \<Rightarrow> int"
  by (metis mset_map mset_sort sum_mset_sum_list)

lemma compute_agent_metrics_totals:
  assumes "compute_agent_metrics a p rows = Inr m"
  shows "am_total_clv_bps m = sum_list (map (row_int ''clv_bps'') (filter is_scored rows))"
    and "mean_or_none (am_total_clv_bps m) (int (length (filter is_scored rows))) = Inr (am_avg_clv_bps m)"
    and "am_total_window_clv_bps m = sum_list (map (row_int ''window_clv_bps'') (filter is_window_scored rows))"
    and "mean_or_none (am_total_window_clv_bps m) (int (length (filter is_window_scored rows))) = Inr (am_avg_window_clv_bps m)"
  using assms by (auto simp: compute_agent_metrics_def Let_def rbind_Inr_iff scored_rows_of_def sum_list_sort_key)

lemma score_update_totals:
  assumes "score_update pm (k, rows) = Inr (SCORE_UPDATE, payload, refs)"
  shows "\<exists>mean wmean. map_of payload ''agent_id'' = Some (VStr k)
    \<and> map_of payload ''total_clv_bps'' = Some (VInt (sum_list (map (row_int ''clv_bps'') (filter is_scored rows))))
    \<and> map_of payload ''mean_clv_bps'' = Some (opt_float mean)
    \<and> mean_or_none (sum_list (map (row_int ''clv_bps'') (filter is_scored rows))) (int (length (filter is_scored rows))) = Inr mean
    \<and> map_of payload ''total_window_clv_bps'' = Some (VInt (sum_list (map (row_int ''window_clv_bps'') (filter is_window_scored rows))))
    \<and> map_of payload ''mean_window_clv_bps'' = Some (opt_float wmean)
    \<and> mean_or_none (sum_list (map (row_int ''window_clv_bps'') (filter is_window_scored rows))) (int (length (filter is_window_scored rows))) = Inr wmean"
  using assms by (auto simp: score_update_def Let_def rbind_Inr_iff filter_sort sum_list_sort_key)

lemma score_run_entry:
  assumes "score_run run = Inr board" and "k \<in> sr_agent_id ` set (rr_score_rows run)"
  obtains rank m where "(rank, m) \<in> set board" and "am_agent_id m = k"
    and "compute_agent_metrics k (case map_of (rr_proof_mode_map run) k of None \<Rightarrow> [] | Some p \<Rightarrow> p)
      (filter (\<lambda>r. sr_agent_id r = k) (rr_score_rows run)) = Inr m"
proof -
  let ?f = "\<lambda>(agent_id, rows). compute_agent_metrics agent_id
    (case map_of (rr_proof_mode_map run) agent_id of None \<Rightarrow> [] | Some p \<Rightarrow> p) rows"
  obtain ms where ms: "rtraverse ?f (rows_by_agent run) = Inr ms"
    and board: "board = zip (map int [1 ..< length ms + 1]) (sort_key score_rank_key ms)"
    using assms(1) by (auto simp: score_run_def rbind_Inr_iff rank_rows_clean [OF metric_keys_clean])
  have "map_of (rows_by_agent run) k = Some (filter (\<lambda>r. sr_agent_id r = k) (rr_score_rows run))"
    using assms(2) by (auto simp: rows_by_agent_def map_of_group_rows fold_update_map_of)
  then have "(k, filter (\<lambda>r. sr_agent_id r = k) (rr_score_rows run)) \<in> set (rows_by_agent run)" by (rule map_of_SomeD)
  from rtraverse_InrD [OF ms this] obtain m where m: "m \<in> set ms"
    "compute_agent_metrics k (case map_of (rr_proof_mode_map run) k of None \<Rightarrow> [] | Some p \<Rightarrow> p)
      (filter (\<lambda>r. sr_agent_id r = k) (rr_score_rows run)) = Inr m" by auto
  have "map snd board = sort_key score_rank_key ms" unfolding board by (rule zip_ranks(2)) simp
  then have "m \<in> snd ` set board" using m(1) by (metis set_map set_sort)
  then obtain rank where "(rank, m) \<in> set board" by auto
  with that m(2) compute_agent_metrics_id [OF m(2)] show thesis by blast
qed

lemma score_update_event:
  assumes "build_event_log cd parse_int r c a ts = Inr evlog" and "e \<in> set evlog" and "ce_event_type e = SCORE_UPDATE"
  obtains k refs where "k \<in> sr_agent_id ` set (rr_score_rows r)"
    and "score_update (rr_proof_mode_map r) (k, filter (\<lambda>v. sr_agent_id v = k) (rr_score_rows r)) = Inr (SCORE_UPDATE, ce_payload e, refs)"
proof -
  let ?rows = "sort_key (\<lambda>row. (sr_agent_id row, sr_tick_seq row)) (rr_score_rows r)"
  let ?groups = "sort_key fst (group_rows sr_agent_id (rr_score_rows r) [])"
  obtain evidence ds where ev: "evidence_events cd parse_int c (sl_run_id r) (sort_key re_sequence_no (sl_run_events r)) ts = Inr evidence"
    and ds: "derived_tail c a r = Inr ds"
    and evlog: "evlog = build_competition_started_event cd c (sl_run_id r) (sl_source_mode r) (rr_agent_ids r) ts # evidence
      @ emit_derived cd c (sl_run_id r) ts ds (int (length (sl_run_events r)) + 1)"
    using build_event_logE [OF assms(1)] by metis
  have "\<forall>e \<in> set evidence. ce_event_type e \<noteq> SCORE_UPDATE"
    by (auto simp: evidence_of_def dest!: list_all2_in_set2 [OF evidence_events_of [OF ev]])
  then have "e \<in> set (emit_derived cd c (sl_run_id r) ts ds (int (length (sl_run_events r)) + 1))"
    using assms(2,3) by (auto simp: evlog build_competition_started_event_def derived_event_def)
  then obtain refs where d: "(SCORE_UPDATE, ce_payload e, refs) \<in> set ds"
    using emit_derived_set assms(3) by (fastforce simp: derived_event_def)
  obtain laws updates where laws: "rtraverse law_result ?rows = Inr laws"
    and updates: "rtraverse (score_update (rr_proof_mode_map r)) ?groups = Inr updates"
    and split: "set ds \<subseteq> set laws \<union> set updates \<union> {d. fst d \<in> {PROOF_ANCHOR, COMPETITION_FINALIZED}}"
    using ds by (auto simp: derived_tail_def rbind_Inr_iff)
  have "(SCORE_UPDATE, ce_payload e, refs) \<notin> set laws"
    by (auto dest!: rtraverse_source [OF laws] simp: law_result_def Let_def rbind_Inr_iff)
  then have "(SCORE_UPDATE, ce_payload e, refs) \<in> set updates" using d split by auto
  from rtraverse_source [OF updates this] obtain k rows where k: "(k, rows) \<in> set (group_rows sr_agent_id (rr_score_rows r) [])"
    and su: "score_update (rr_proof_mode_map r) (k, rows) = Inr (SCORE_UPDATE, ce_payload e, refs)" by auto
  have rows: "rows = filter (\<lambda>v. sr_agent_id v = k) (rr_score_rows r)" "rows \<noteq> []"
    using group_rows_nonempty [OF k] by blast+
  then have "k \<in> sr_agent_id ` set (rr_score_rows r)" by (auto simp: filter_empty_conv)
  with that su rows(1) show thesis by blast
qed

text \<open>
  The broadcast score of an agent is its leaderboard score: every score update of the log names
  an agent of the board of the same run and carries exactly the totals and means the board computes
  for it, of true and of window closing-line value.
\<close>

theorem score_updates_agree_with_board:
  assumes "build_event_log cd parse_int r c a ts = Inr evlog" and "score_run (run_result.truncate r) = Inr board"
    and "e \<in> set evlog" and "ce_event_type e = SCORE_UPDATE"
  shows "\<exists>rank m. (rank, m) \<in> set board \<and> map_of (ce_payload e) ''agent_id'' = Some (VStr (am_agent_id m))
    \<and> map_of (ce_payload e) ''total_clv_bps'' = Some (VInt (am_total_clv_bps m))
    \<and> map_of (ce_payload e) ''mean_clv_bps'' = Some (opt_float (am_avg_clv_bps m))
    \<and> map_of (ce_payload e) ''total_window_clv_bps'' = Some (VInt (am_total_window_clv_bps m))
    \<and> map_of (ce_payload e) ''mean_window_clv_bps'' = Some (opt_float (am_avg_window_clv_bps m))"
proof -
  obtain k refs where k: "k \<in> sr_agent_id ` set (rr_score_rows r)"
    and su: "score_update (rr_proof_mode_map r) (k, filter (\<lambda>v. sr_agent_id v = k) (rr_score_rows r)) = Inr (SCORE_UPDATE, ce_payload e, refs)"
    using score_update_event [OF assms(1,3,4)] .
  have tr: "rr_score_rows (run_result.truncate r) = rr_score_rows r" by (simp add: run_result.truncate_def)
  obtain rank m where m: "(rank, m) \<in> set board" "am_agent_id m = k"
    and cm: "compute_agent_metrics k (case map_of (rr_proof_mode_map (run_result.truncate r)) k of None \<Rightarrow> [] | Some p \<Rightarrow> p)
      (filter (\<lambda>r. sr_agent_id r = k) (rr_score_rows r)) = Inr m"
    using score_run_entry [OF assms(2), unfolded tr, OF k] .
  from score_update_totals [OF su] compute_agent_metrics_totals [OF cm] m(2) show ?thesis
    by (intro exI [of _ rank] exI [of _ m] conjI m(1)) auto
qed

section \<open>A sample log\<close>

definition logged_row :: score_row where
  "logged_row = \<lparr>sr_agent_id = ''b'', sr_tick_seq = 0, sr_fields = [(''clv_bps'', VInt 8), (''valid'', VBool True),
     (''reason'', VStr ''closed''), (''recomputed_edge_bps'', VInt 8)]\<rparr>"

definition logged_run :: sealed_run where
  "logged_run = (silent_run (number_codec id) ''r'')\<lparr>rr_score_rows := [logged_row]\<rparr>"

lemma number_codec_loads [simp]:
  "cd_loads (number_codec sha) (cd_serialize (number_codec sha) v) = Inr v" "cd_serialize (number_codec sha) v \<noteq> []"
  by (simp_all add: number_codec_def number_text_def)

lemma logged_events:
  "sl_run_events logged_run = [tick_event (number_codec id) (demo_state 0 5000) 0, error_event (number_codec id) ''b'' ''TimeoutError'' '''' 1]"
  by (simp add: logged_run_def silent_run_def Let_def fed_def feed_events_def answers_def silent_agent_def result_event_def)

lemma logged_log:
  "\<exists>evlog. build_event_log (number_codec id) (\<lambda>_. None) logged_run ''c'' ''not_anchored'' 0 = Inr evlog
     \<and> filter (\<lambda>e. ce_event_type e = SCORE_UPDATE) evlog \<noteq> [] \<and> length evlog = 7"
proof -
  have parts: "\<exists>p t. evidence_parts (number_codec id) (\<lambda>_. None) (tick_event (number_codec id) (demo_state 0 5000) 0) ts = Inr (MARKET_TICK, p, t)"
    "\<exists>p. evidence_parts (number_codec id) (\<lambda>_. None) (error_event (number_codec id) ''b'' ''TimeoutError'' '''' 1) ts = Inr (AGENT_ACTION, p, ts)" for ts
    by (simp_all add: evidence_parts_def tick_event_def error_event_def tick_ts_def tick_payload_def action_payload_def
        loads_or_empty_def vget_def market_state_dict_def demo_state_def py_or_def py_keys_def)
  obtain p t q where pt: "evidence_parts (number_codec id) (\<lambda>_. None) (tick_event (number_codec id) (demo_state 0 5000) 0) 0 = Inr (MARKET_TICK, p, t)"
    and q: "evidence_parts (number_codec id) (\<lambda>_. None) (error_event (number_codec id) ''b'' ''TimeoutError'' '''' 1) t = Inr (AGENT_ACTION, q, t)"
    using parts(1) [of 0] parts(2) by metis
  have sorted: "sort_key re_sequence_no (sl_run_events logged_run) = sl_run_events logged_run"
    by (simp add: logged_events tick_event_def error_event_def)
  obtain evidence where ev: "evidence_events (number_codec id) (\<lambda>_. None) ''c'' (sl_run_id logged_run) (sl_run_events logged_run) 0 = Inr evidence"
    and len: "length evidence = 2"
    using pt q by (simp add: build_evidence_event_def logged_events)
  have mean: "\<exists>m. mean_or_none 8 1 = Inr m" by (simp add: mean_or_none_def int_truediv_def fl_fit_def)
  have "\<exists>u v. score_update (rr_proof_mode_map logged_run) (''b'', [logged_row]) = Inr (SCORE_UPDATE, u, v)"
    using mean by (auto simp: score_update_def Let_def logged_row_def row_item_def is_scored_def row_valid_def row_get_def is_window_scored_def
        int_of_val_def row_int_def mean_or_none_def [of 0])
  moreover have "\<exists>u v. law_result logged_row = Inr (LAW_RESULT, u, v)"
    by (simp add: law_result_def logged_row_def row_item_def)
  moreover have "rr_score_rows logged_run = [logged_row]" by (simp add: logged_run_def)
  moreover have "group_rows sr_agent_id [logged_row] [] = [(''b'', [logged_row])]"
    by (simp add: setdefault_append_def logged_row_def)
  ultimately obtain u v w where ds: "derived_tail ''c'' ''not_anchored'' logged_run = Inr ((LAW_RESULT, u) # (SCORE_UPDATE, v) # w)"
    and w: "length w = 2"
    by (auto simp: derived_tail_def)
  obtain v1 v2 u1 u2 where uv: "u = (u1, u2)" "v = (v1, v2)" by fastforce
  obtain w1 w2 w3 w4 w5 w6 where "w = [(w1, w2, w3), (w4, w5, w6)]"
    using w by (cases w; cases "tl w") auto
  with ev len ds uv show ?thesis
    by (simp add: build_event_log_def sorted derived_event_def)
qed

lemma logged_scores: "\<exists>board. score_run (run_result.truncate logged_run) = Inr board"
proof -
  have "\<exists>m. compute_agent_metrics ''b'' ''reproducible'' [logged_row] = Inr m"
    by (simp add: compute_agent_metrics_def scored_rows_of_def is_scored_def is_window_scored_def row_valid_def logged_row_def
      row_get_def row_int_def int_of_val_def mean_or_none_def int_truediv_def fl_fit_def
      max_drawdown_def float_of_int_def brier_def row_confidence_def vget_def usable_confidence_def)
  moreover have "rows_by_agent (run_result.truncate logged_run) = [(''b'', [logged_row])]"
    by (simp add: rows_by_agent_def run_result.truncate_def logged_run_def silent_run_def Let_def setdefault_append_def logged_row_def)
  ultimately show ?thesis
    by (auto simp: score_run_def rank_rows_clean [OF metric_keys_clean]) (simp add: run_result.truncate_def logged_run_def silent_run_def Let_def)
qed

theorem event_log_layout_witness:
  "\<exists>evlog. build_event_log (number_codec id) (\<lambda>_. None) logged_run ''c'' ''not_anchored'' 0 = Inr evlog
     \<and> map ce_seq evlog = map int [0 ..< 7] \<and> length (filter ce_evidence evlog) = 2"
proof -
  obtain evlog where l: "build_event_log (number_codec id) (\<lambda>_. None) logged_run ''c'' ''not_anchored'' 0 = Inr evlog" "length evlog = 7"
    using logged_log by blast
  have "map re_sequence_no (sl_run_events logged_run) = map int [0 ..< length (sl_run_events logged_run)]"
    by (simp add: logged_events tick_event_def error_event_def)
  from event_log_layout [OF l(1) this] l show ?thesis
    by (intro exI [of _ evlog]) (auto simp: logged_events dest!: list_all2_lengthD)
qed

theorem score_updates_agree_with_board_witness:
  "\<exists>evlog board. build_event_log (number_codec id) (\<lambda>_. None) logged_run ''c'' ''not_anchored'' 0 = Inr evlog
     \<and> score_run (run_result.truncate logged_run) = Inr board
     \<and> (\<exists>e rank m. e \<in> set evlog \<and> ce_event_type e = SCORE_UPDATE \<and> (rank, m) \<in> set board
          \<and> map_of (ce_payload e) ''total_clv_bps'' = Some (VInt (am_total_clv_bps m)))"
proof -
  obtain evlog where l: "build_event_log (number_codec id) (\<lambda>_. None) logged_run ''c'' ''not_anchored'' 0 = Inr evlog"
    "filter (\<lambda>e. ce_event_type e = SCORE_UPDATE) evlog \<noteq> []"
    using logged_log by blast
  obtain e where e: "e \<in> set evlog" "ce_event_type e = SCORE_UPDATE" using l(2) by (auto simp: filter_empty_conv)
  obtain board where b: "score_run (run_result.truncate logged_run) = Inr board" using logged_scores by blast
  from score_updates_agree_with_board [OF l(1) b e] l(1) b e show ?thesis by blast
qed

end
