(* ===== verification/Policy.thy ===== *)
theory Policy
  imports PyFloat
begin

text \<open>
  The policy layer of \<open>src/veridex/policy/\<close>: the operator envelope, the loss-cap
  predicate shared by every loss surface, the circuit breaker, the single-pass engine and the
  two-phase gate. The envelope hash is a parameter \<open>policy_hash\<close> of the evaluators.
\<close>

section \<open>Envelope (\<open>policy/envelope.py\<close>)\<close>

definition cap_breached :: "pyfloat \<Rightarrow> pyfloat \<Rightarrow> bool" where
  "cap_breached cap loss \<longleftrightarrow> fl_lt fl_zero cap \<and> fl_le cap loss"

record policy_envelope =
  pe_max_stake :: pyfloat
  pe_max_orders_per_run :: int
  pe_max_orders_per_session :: int
  pe_max_orders_per_day :: int
  pe_venue_allowlist :: "string list"
  pe_market_allowlist :: "string list"
  pe_min_edge_bps :: int
  pe_max_slippage_bps :: int
  pe_max_price :: pyfloat
  pe_max_quote_age_s :: int
  pe_cooldown_s :: int
  pe_human_approval_threshold :: pyfloat
  pe_max_stake_live_guarded :: pyfloat
  pe_circuit_breaker_threshold :: int
  pe_max_session_loss :: pyfloat
  pe_max_daily_loss :: pyfloat
  pe_kill_switch :: bool

section \<open>Circuit breaker (\<open>policy/circuit_breaker.py\<close>)\<close>

datatype circuit_state = CLOSED | OPEN | HALF_OPEN

record circuit_breaker =
  cb_state :: circuit_state
  cb_consecutive_failures :: int
  cb_opened_at :: "pyfloat option"
  cb_probe_used :: bool

definition new_breaker :: circuit_breaker where
  "new_breaker = \<lparr>cb_state = CLOSED, cb_consecutive_failures = 0, cb_opened_at = None,
                  cb_probe_used = False\<rparr>"

definition allows :: "circuit_breaker \<Rightarrow> bool" where
  "allows b = (case cb_state b of CLOSED \<Rightarrow> True | HALF_OPEN \<Rightarrow> \<not> cb_probe_used b | OPEN \<Rightarrow> False)"

definition record_failure :: "int \<Rightarrow> pyfloat \<Rightarrow> circuit_breaker \<Rightarrow> circuit_breaker" where
  "record_failure threshold now b =
     (if cb_state b = HALF_OPEN
      then \<lparr>cb_state = OPEN, cb_consecutive_failures = cb_consecutive_failures b + 1,
            cb_opened_at = Some now, cb_probe_used = False\<rparr>
      else (let failures = cb_consecutive_failures b + 1 in
        if 0 < threshold \<and> threshold \<le> failures
        then \<lparr>cb_state = OPEN, cb_consecutive_failures = failures,
              cb_opened_at = Some now, cb_probe_used = False\<rparr>
        else b\<lparr>cb_consecutive_failures := failures\<rparr>))"

definition record_success :: "circuit_breaker \<Rightarrow> circuit_breaker" where
  "record_success b =
     (if cb_state b = HALF_OPEN then new_breaker else b\<lparr>cb_consecutive_failures := 0\<rparr>)"

definition resolve :: "pyfloat \<Rightarrow> pyfloat \<Rightarrow> circuit_breaker \<Rightarrow> circuit_breaker" where
  "resolve now cooldown b =
     (case cb_opened_at b of
        Some t \<Rightarrow> (if cb_state b = OPEN \<and> fl_le cooldown (fl_sub now t)
                   then b\<lparr>cb_state := HALF_OPEN, cb_probe_used := False\<rparr> else b)
      | None \<Rightarrow> b)"

definition start_probe :: "circuit_breaker \<Rightarrow> circuit_breaker" where
  "start_probe b =
     (if cb_state b = HALF_OPEN \<and> \<not> cb_probe_used b then b\<lparr>cb_probe_used := True\<rparr> else b)"

text \<open>The transitions a caller can make, with a fixed threshold and cooldown.\<close>

datatype breaker_event = Failure pyfloat | Success | Resolve pyfloat | StartProbe

fun breaker_step :: "int \<Rightarrow> pyfloat \<Rightarrow> circuit_breaker \<Rightarrow> breaker_event \<Rightarrow> circuit_breaker" where
  "breaker_step th cd b (Failure now) = record_failure th now b"
| "breaker_step th cd b Success = record_success b"
| "breaker_step th cd b (Resolve now) = resolve now cd b"
| "breaker_step th cd b StartProbe = start_probe b"

definition breaker_run :: "int \<Rightarrow> pyfloat \<Rightarrow> circuit_breaker \<Rightarrow> breaker_event list \<Rightarrow> circuit_breaker" where
  "breaker_run th cd b es = foldl (breaker_step th cd) b es"

definition breaker_inv :: "int \<Rightarrow> circuit_breaker \<Rightarrow> bool" where
  "breaker_inv th b \<longleftrightarrow>
     0 \<le> cb_consecutive_failures b \<and>
     (cb_state b = CLOSED \<and> 0 < th \<longrightarrow> cb_consecutive_failures b < th) \<and>
     (cb_state b \<noteq> CLOSED \<longrightarrow> cb_opened_at b \<noteq> None \<and> 0 < th) \<and>
     (cb_probe_used b \<longrightarrow> cb_state b = HALF_OPEN)"

text \<open>Events that cannot re-open or move an anchor \<open>t\<close>: nothing fails, no recovery is due.\<close>

definition quiet :: "pyfloat \<Rightarrow> pyfloat \<Rightarrow> breaker_event \<Rightarrow> bool" where
  "quiet cd t e = (case e of Failure _ \<Rightarrow> False | Success \<Rightarrow> True | StartProbe \<Rightarrow> True
                   | Resolve now \<Rightarrow> \<not> fl_le cd (fl_sub now t))"

section \<open>Reasons, verdicts and the single-pass engine (\<open>policy/engine.py\<close>)\<close>

datatype reason =
    kill_switch_on | edge_below_min | quote_stale | stake_over_max | venue_not_allowed
  | market_not_allowed | slippage_over_max | price_over_max | order_cap_run | cooldown_active
  | agent_not_eligible | missing_field | circuit_open | insufficient_liquidity
  | stake_over_live_guarded | session_loss_over_max | daily_loss_over_max
  | order_cap_session | order_cap_day

datatype policy_decision = APPROVED | DENIED | REQUIRES_HUMAN

record policy_result =
  pr_decision :: policy_decision
  pr_reason_codes :: "reason list"
  pr_policy_hash :: string

record policy_context =
  pc_recomputed_edge_bps :: int
  pc_stake :: pyfloat
  pc_venue :: string
  pc_market_key :: string
  pc_price :: pyfloat
  pc_slippage_bps :: int
  pc_quote_age_s :: int
  pc_orders_this_run :: int
  pc_seconds_since_last_order :: "int option"
  pc_agent_eligible :: bool

definition in_cooldown :: "int option \<Rightarrow> int \<Rightarrow> bool" where
  "in_cooldown since cooldown = (case since of None \<Rightarrow> False | Some s \<Rightarrow> s < cooldown)"

definition verdict_with_human :: "reason list \<Rightarrow> pyfloat \<Rightarrow> policy_envelope \<Rightarrow> policy_decision" where
  "verdict_with_human rs stake env =
     (if rs \<noteq> [] then DENIED
      else if fl_le (pe_human_approval_threshold env) stake then REQUIRES_HUMAN else APPROVED)"

definition evaluate_reasons :: "policy_context \<Rightarrow> policy_envelope \<Rightarrow> reason list" where
  "evaluate_reasons ctx env =
     flag (pe_kill_switch env) kill_switch_on
   @ flag (pc_recomputed_edge_bps ctx < pe_min_edge_bps env) edge_below_min
   @ flag (pe_max_quote_age_s env < pc_quote_age_s ctx) quote_stale
   @ flag (fl_lt (pe_max_stake env) (pc_stake ctx)) stake_over_max
   @ flag (pc_venue ctx \<notin> set (pe_venue_allowlist env)) venue_not_allowed
   @ flag (pc_market_key ctx \<notin> set (pe_market_allowlist env)) market_not_allowed
   @ flag (pe_max_slippage_bps env < pc_slippage_bps ctx) slippage_over_max
   @ flag (fl_lt (pe_max_price env) (pc_price ctx)) price_over_max
   @ flag (pe_max_orders_per_run env \<le> pc_orders_this_run ctx) order_cap_run
   @ flag (in_cooldown (pc_seconds_since_last_order ctx) (pe_cooldown_s env)) cooldown_active
   @ flag (\<not> pc_agent_eligible ctx) agent_not_eligible"

definition evaluate :: "(policy_envelope \<Rightarrow> string) \<Rightarrow> policy_context \<Rightarrow> policy_envelope \<Rightarrow> policy_result" where
  "evaluate policy_hash ctx env =
     (let rs = evaluate_reasons ctx env in
      \<lparr>pr_decision = verdict_with_human rs (pc_stake ctx) env, pr_reason_codes = rs,
       pr_policy_hash = policy_hash env\<rparr>)"

section \<open>The two-phase gate (\<open>policy/gate.py\<close>)\<close>

record pre_quote_context =
  pq_recomputed_edge_bps :: int
  pq_stake :: pyfloat
  pq_venue :: string
  pq_market_key :: string
  pq_orders_this_run :: int
  pq_seconds_since_last_order :: "int option"
  pq_agent_eligible :: bool
  pq_breaker :: circuit_breaker
  pq_live_guarded :: bool
  pq_realized_loss_session :: pyfloat
  pq_realized_loss_day :: pyfloat
  pq_orders_this_session :: int
  pq_orders_this_day :: int

record post_quote_context =
  po_executable_edge_bps :: int
  po_price :: pyfloat
  po_slippage_bps :: int
  po_quote_age_s :: int
  po_stake :: pyfloat
  po_quoted_size :: pyfloat

definition pre_quote_reasons :: "pre_quote_context \<Rightarrow> policy_envelope \<Rightarrow> reason list" where
  "pre_quote_reasons ctx env =
     flag (pe_kill_switch env) kill_switch_on
   @ flag (\<not> allows (pq_breaker ctx)) circuit_open
   @ flag (pq_recomputed_edge_bps ctx < pe_min_edge_bps env) edge_below_min
   @ flag (fl_lt (pe_max_stake env) (pq_stake ctx)) stake_over_max
   @ flag (pq_live_guarded ctx \<and> fl_lt fl_zero (pe_max_stake_live_guarded env)
           \<and> fl_lt (pe_max_stake_live_guarded env) (pq_stake ctx)) stake_over_live_guarded
   @ flag (pq_venue ctx \<notin> set (pe_venue_allowlist env)) venue_not_allowed
   @ flag (pq_market_key ctx \<notin> set (pe_market_allowlist env)) market_not_allowed
   @ flag (pe_max_orders_per_run env \<le> pq_orders_this_run ctx) order_cap_run
   @ flag (pe_max_orders_per_session env \<le> pq_orders_this_session ctx) order_cap_session
   @ flag (pe_max_orders_per_day env \<le> pq_orders_this_day ctx) order_cap_day
   @ flag (cap_breached (pe_max_session_loss env) (pq_realized_loss_session ctx)) session_loss_over_max
   @ flag (cap_breached (pe_max_daily_loss env) (pq_realized_loss_day ctx)) daily_loss_over_max
   @ flag (in_cooldown (pq_seconds_since_last_order ctx) (pe_cooldown_s env)) cooldown_active
   @ flag (\<not> pq_agent_eligible ctx) agent_not_eligible"

definition evaluate_pre_quote ::
  "(policy_envelope \<Rightarrow> string) \<Rightarrow> pre_quote_context \<Rightarrow> policy_envelope \<Rightarrow> policy_result" where
  "evaluate_pre_quote policy_hash ctx env =
     (let rs = pre_quote_reasons ctx env in
      \<lparr>pr_decision = (if rs \<noteq> [] then DENIED else APPROVED), pr_reason_codes = rs,
       pr_policy_hash = policy_hash env\<rparr>)"

definition post_quote_reasons :: "post_quote_context \<Rightarrow> policy_envelope \<Rightarrow> reason list" where
  "post_quote_reasons ctx env =
     flag (pe_max_quote_age_s env < po_quote_age_s ctx) quote_stale
   @ flag (fl_lt (po_quoted_size ctx) (po_stake ctx)) insufficient_liquidity
   @ flag (pe_max_slippage_bps env < po_slippage_bps ctx) slippage_over_max
   @ flag (po_executable_edge_bps ctx < pe_min_edge_bps env) edge_below_min
   @ flag (fl_lt (pe_max_price env) (po_price ctx)) price_over_max
   @ flag (fl_lt (pe_max_stake env) (po_stake ctx)) stake_over_max"

definition evaluate_post_quote ::
  "(policy_envelope \<Rightarrow> string) \<Rightarrow> post_quote_context \<Rightarrow> policy_envelope \<Rightarrow> policy_result" where
  "evaluate_post_quote policy_hash ctx env =
     (let rs = post_quote_reasons ctx env in
      \<lparr>pr_decision = verdict_with_human rs (po_stake ctx) env, pr_reason_codes = rs,
       pr_policy_hash = policy_hash env\<rparr>)"

text \<open>
  A single-pass context read as the two contexts of the gate, with the transparent defaults of
  \<open>PreQuoteContext\<close> and \<open>PostQuoteContext\<close>.
\<close>

definition pre_of :: "policy_context \<Rightarrow> pre_quote_context" where
  "pre_of ctx =
     \<lparr>pq_recomputed_edge_bps = pc_recomputed_edge_bps ctx, pq_stake = pc_stake ctx,
      pq_venue = pc_venue ctx, pq_market_key = pc_market_key ctx,
      pq_orders_this_run = pc_orders_this_run ctx,
      pq_seconds_since_last_order = pc_seconds_since_last_order ctx,
      pq_agent_eligible = pc_agent_eligible ctx, pq_breaker = new_breaker,
      pq_live_guarded = False, pq_realized_loss_session = fl_zero,
      pq_realized_loss_day = fl_zero, pq_orders_this_session = 0, pq_orders_this_day = 0\<rparr>"

definition post_of :: "policy_context \<Rightarrow> post_quote_context" where
  "post_of ctx =
     \<lparr>po_executable_edge_bps = pc_recomputed_edge_bps ctx, po_price = pc_price ctx,
      po_slippage_bps = pc_slippage_bps ctx, po_quote_age_s = pc_quote_age_s ctx,
      po_stake = pc_stake ctx, po_quoted_size = PInf\<rparr>"

lemmas gate_unfold [gate_defs] =
  evaluate_def evaluate_reasons_def evaluate_pre_quote_def pre_quote_reasons_def
  evaluate_post_quote_def post_quote_reasons_def verdict_with_human_def Let_def

section \<open>The loss-cap contract\<close>

text \<open>
  Several surfaces stop execution on accumulated loss. What they promise is the same: once
  a loss reaches an enabled cap the surface halts, and a larger loss halts as well.
\<close>

lemma cap_breached_mono: "cap_breached cap l \<Longrightarrow> fl_le l l' \<Longrightarrow> cap_breached cap l'"
  by (auto simp: cap_breached_def intro: fl_le_trans)

lemma cap_breached_disabled: "\<not> fl_lt fl_zero cap \<Longrightarrow> \<not> cap_breached cap l"
  by (simp add: cap_breached_def)

lemma cap_breached_at_cap: "fl_lt fl_zero cap \<Longrightarrow> cap_breached cap cap"
  by (cases cap) (auto simp: cap_breached_def)

locale loss_cap_surface =
  fixes halts :: "'c \<Rightarrow> pyfloat \<Rightarrow> pyfloat \<Rightarrow> bool"
    and session_cap :: "'c \<Rightarrow> pyfloat"
    and daily_cap :: "'c \<Rightarrow> pyfloat"
  assumes session_breach_halts: "cap_breached (session_cap c) ls \<Longrightarrow> halts c ls ld"
    and daily_breach_halts: "cap_breached (daily_cap c) ld \<Longrightarrow> halts c ls ld"
begin

lemma halt_is_monotone:
  assumes "cap_breached (session_cap c) ls \<or> cap_breached (daily_cap c) ld"
    and "fl_le ls ls'" and "fl_le ld ld'"
  shows "halts c ls' ld'"
  using assms by (blast intro: session_breach_halts daily_breach_halts cap_breached_mono)

lemma halts_at_the_cap:
  "fl_lt fl_zero (session_cap c) \<Longrightarrow> halts c (session_cap c) ld"
  "fl_lt fl_zero (daily_cap c) \<Longrightarrow> halts c ls (daily_cap c)"
  by (auto intro: session_breach_halts daily_breach_halts cap_breached_at_cap)

end

interpretation pre_gate: loss_cap_surface
  "\<lambda>env ls ld. pr_decision (evaluate_pre_quote ph
      (ctx\<lparr>pq_realized_loss_session := ls, pq_realized_loss_day := ld\<rparr>) env) = DENIED"
  pe_max_session_loss pe_max_daily_loss
  for ph ctx
  by unfold_locales (simp_all add: gate_defs)

section \<open>Circuit breaker\<close>

lemma breaker_step_inv: "breaker_inv th b \<Longrightarrow> breaker_inv th (breaker_step th cd b e)"
  by (cases e; cases "cb_state b")
     (auto simp: breaker_inv_def record_failure_def record_success_def resolve_def start_probe_def
        new_breaker_def Let_def split: option.splits)

lemma breaker_run_Nil [simp]: "breaker_run th cd b [] = b"
  and breaker_run_Cons [simp]: "breaker_run th cd b (e # es) = breaker_run th cd (breaker_step th cd b e) es"
  by (simp_all add: breaker_run_def)

lemma breaker_run_keeps:
  assumes "Q b" and "\<And>b e. e \<in> set es \<Longrightarrow> Q b \<Longrightarrow> Q (breaker_step th cd b e)"
  shows "Q (breaker_run th cd b es)"
  using assms by (induction es arbitrary: b) auto

lemma allows_CLOSED: "cb_state b = CLOSED \<Longrightarrow> allows b"
  and allows_OPEN: "cb_state b = OPEN \<Longrightarrow> \<not> allows b"
  by (simp_all add: allows_def)

text \<open>
  From a fresh breaker, every sequence of failures, successes, recoveries and probes keeps
  the breaker well formed: a closed breaker has seen fewer consecutive failures than the
  threshold, an open or half-open one has a cooldown anchor, a probe is only marked while
  half-open.
\<close>

theorem breaker_reachable_inv: "breaker_inv th (breaker_run th cd new_breaker es)"
proof (rule breaker_run_keeps [where Q = "breaker_inv th"])
  show "breaker_inv th new_breaker" by (simp add: breaker_inv_def new_breaker_def)
qed (rule breaker_step_inv)

lemma breaker_failures_run:
  assumes "0 < th" and "cb_state b = CLOSED" and "0 \<le> cb_consecutive_failures b"
    and "cb_consecutive_failures b < th"
  shows "allows (breaker_run th cd b (map Failure ts))
    \<longleftrightarrow> cb_consecutive_failures b + int (length ts) < th"
  using assms
proof (induction ts arbitrary: b)
  case Nil
  then show ?case by (simp add: allows_CLOSED)
next
  case (Cons t ts)
  show ?case
  proof (cases "cb_consecutive_failures b + 1 < th")
    case True
    with Cons.prems have "record_failure th t b = b\<lparr>cb_consecutive_failures := cb_consecutive_failures b + 1\<rparr>"
      by (simp add: record_failure_def)
    with Cons.prems True show ?thesis by (simp add: Cons.IH algebra_simps)
  next
    case False
    with Cons.prems have "cb_state (record_failure th t b) = OPEN"
      and "th \<le> cb_consecutive_failures (record_failure th t b)"
      by (simp_all add: record_failure_def)
    then have "cb_state (breaker_run th cd (record_failure th t b) (map Failure ts)) = OPEN"
    proof (induction ts arbitrary: t b)
      case (Cons t' ts)
      from Cons.prems \<open>0 < th\<close>
      have "record_failure th t' (record_failure th t b) =
        \<lparr>cb_state = OPEN, cb_consecutive_failures = cb_consecutive_failures (record_failure th t b) + 1,
         cb_opened_at = Some t', cb_probe_used = False\<rparr>"
        by (simp add: record_failure_def [of th t'])
      with Cons.prems Cons.IH [of t' "record_failure th t b"] show ?case by simp
    qed simp
    with False show ?thesis by (simp add: allows_OPEN)
  qed
qed

text \<open>
  With an enabled threshold, a run of consecutive failures from a fresh breaker is admitted
  exactly while it is shorter than the threshold; the threshold-th failure opens the breaker
  and later failures keep it open.
\<close>

theorem breaker_trips_at_threshold:
  assumes "0 < th"
  shows "allows (breaker_run th cd new_breaker (map Failure ts)) \<longleftrightarrow> int (length ts) < th"
  using breaker_failures_run [of th new_breaker cd ts] assms by (simp add: new_breaker_def)

theorem breaker_trips_at_threshold_witness:
  "\<not> allows (breaker_run 2 (Fin 30) new_breaker (map Failure [Fin 10, Fin 11]))"
  using breaker_trips_at_threshold [of 2 "Fin 30" "[Fin 10, Fin 11]"] by simp

text \<open>
  An open breaker blocks until its cooldown has elapsed: with the anchor at \<open>t\<close>, no
  sequence of successes, probe attempts and recovery attempts before \<open>t + cooldown\<close>
  admits an execution.
\<close>

theorem open_breaker_blocks_through_cooldown:
  assumes "cb_state b = OPEN" and "cb_opened_at b = Some t" and "list_all (quiet cd t) es"
  shows "\<not> allows (breaker_run th cd b es)"
proof -
  have "cb_state (breaker_run th cd b es) = OPEN \<and> cb_opened_at (breaker_run th cd b es) = Some t"
  proof (rule breaker_run_keeps [where Q = "\<lambda>b. cb_state b = OPEN \<and> cb_opened_at b = Some t"])
    fix c :: circuit_breaker and e assume e: "e \<in> set es" and c: "cb_state c = OPEN \<and> cb_opened_at c = Some t"
    from e assms(3) have "quiet cd t e" by (simp add: list_all_iff)
    with c show "cb_state (breaker_step th cd c e) = OPEN \<and> cb_opened_at (breaker_step th cd c e) = Some t"
      by (cases e) (auto simp: quiet_def record_success_def resolve_def start_probe_def)
  qed (simp add: assms)
  then show ?thesis by (simp add: allows_OPEN)
qed

theorem open_breaker_blocks_through_cooldown_witness:
  "\<not> allows (breaker_run 1 (Fin 30) (record_failure 1 (Fin 10) new_breaker)
     [Success, StartProbe, Resolve (Fin 20)])"
proof (rule open_breaker_blocks_through_cooldown [where t = "Fin 10"])
  show "list_all (quiet (Fin 30) (Fin 10)) [Success, StartProbe, Resolve (Fin 20)]"
    using fl_round_int [of 10] by (simp add: quiet_def fl_sub_def)
qed (simp_all add: record_failure_def new_breaker_def)

text \<open>
  A half-open breaker admits exactly one probe: after the probe is dispatched no further
  recovery or probe attempt is admitted; only the probe's own outcome decides, success closing
  the breaker and failure re-opening it with a new anchor.
\<close>

theorem half_open_single_probe:
  assumes "cb_state b = HALF_OPEN" and "list_all (\<lambda>e. e = StartProbe \<or> (\<exists>t. e = Resolve t)) es"
  shows "\<not> allows (breaker_run th cd (start_probe b) es)
    \<and> record_success (breaker_run th cd (start_probe b) es) = new_breaker
    \<and> cb_state (record_failure th now (breaker_run th cd (start_probe b) es)) = OPEN"
proof -
  have "cb_state (breaker_run th cd (start_probe b) es) = HALF_OPEN
      \<and> cb_probe_used (breaker_run th cd (start_probe b) es)"
  proof (rule breaker_run_keeps [where Q = "\<lambda>b. cb_state b = HALF_OPEN \<and> cb_probe_used b"])
    fix c :: circuit_breaker and e assume e: "e \<in> set es" and c: "cb_state c = HALF_OPEN \<and> cb_probe_used c"
    from e assms(2) have "e = StartProbe \<or> (\<exists>t. e = Resolve t)" by (simp add: list_all_iff)
    with c show "cb_state (breaker_step th cd c e) = HALF_OPEN \<and> cb_probe_used (breaker_step th cd c e)"
      by (auto simp: resolve_def start_probe_def split: option.splits)
  qed (simp add: assms(1) start_probe_def)
  then show ?thesis
    by (auto simp: allows_def record_success_def record_failure_def)
qed

theorem half_open_single_probe_witness:
  "\<not> allows (breaker_run 1 (Fin 30)
      (start_probe (new_breaker\<lparr>cb_state := HALF_OPEN, cb_opened_at := Some (Fin 5)\<rparr>))
      [StartProbe, Resolve (Fin 99)])"
  by (rule half_open_single_probe [THEN conjunct1]) (simp_all add: new_breaker_def)

section \<open>Gate\<close>

text \<open>
  The pre-quote gate approves exactly the requests that pass every guard: no kill switch, an
  admitting breaker, enough edge, stake caps, allow-listed venue and market, order caps of the
  run, the session and the day, loss caps below their ceilings, cooldown over, an eligible agent.
\<close>

theorem pre_quote_approved_iff:
  "pr_decision (evaluate_pre_quote ph ctx env) = APPROVED \<longleftrightarrow>
     \<not> pe_kill_switch env \<and> allows (pq_breaker ctx)
   \<and> pe_min_edge_bps env \<le> pq_recomputed_edge_bps ctx
   \<and> \<not> fl_lt (pe_max_stake env) (pq_stake ctx)
   \<and> \<not> (pq_live_guarded ctx \<and> fl_lt fl_zero (pe_max_stake_live_guarded env)
        \<and> fl_lt (pe_max_stake_live_guarded env) (pq_stake ctx))
   \<and> pq_venue ctx \<in> set (pe_venue_allowlist env) \<and> pq_market_key ctx \<in> set (pe_market_allowlist env)
   \<and> pq_orders_this_run ctx < pe_max_orders_per_run env
   \<and> pq_orders_this_session ctx < pe_max_orders_per_session env
   \<and> pq_orders_this_day ctx < pe_max_orders_per_day env
   \<and> \<not> cap_breached (pe_max_session_loss env) (pq_realized_loss_session ctx)
   \<and> \<not> cap_breached (pe_max_daily_loss env) (pq_realized_loss_day ctx)
   \<and> \<not> in_cooldown (pq_seconds_since_last_order ctx) (pe_cooldown_s env)
   \<and> pq_agent_eligible ctx"
  by (auto simp: gate_defs not_less not_le)

lemma not_lt_PInf [simp]: "\<not> fl_lt PInf x"
  by (cases x) simp_all

lemma transparent_defaults:
  "allows new_breaker" "\<not> cap_breached cap fl_zero"
  by (auto simp: allows_def new_breaker_def cap_breached_def dest: fl_lt_not_le)

text \<open>
  Splitting the engine in two phases changes no verdict: with order caps enabled and the
  transparent defaults of the new context fields, the pre-quote gate followed by the post-quote
  gate decides exactly as the single-pass engine, and reports the same reasons.
\<close>

theorem two_phase_agrees_with_engine:
  assumes "0 < pe_max_orders_per_session env" and "0 < pe_max_orders_per_day env"
  shows "pr_decision (evaluate ph ctx env) =
      (if pr_decision (evaluate_pre_quote ph (pre_of ctx) env) = DENIED then DENIED
       else pr_decision (evaluate_post_quote ph (post_of ctx) env))
    \<and> set (pr_reason_codes (evaluate ph ctx env)) =
      set (pr_reason_codes (evaluate_pre_quote ph (pre_of ctx) env))
      \<union> set (pr_reason_codes (evaluate_post_quote ph (post_of ctx) env))"
proof -
  have reasons: "set (evaluate_reasons ctx env) =
      set (pre_quote_reasons (pre_of ctx) env) \<union> set (post_quote_reasons (post_of ctx) env)"
    using assms
    by (auto simp: evaluate_reasons_def pre_quote_reasons_def post_quote_reasons_def pre_of_def
          post_of_def transparent_defaults)
  then have "evaluate_reasons ctx env = [] \<longleftrightarrow>
      pre_quote_reasons (pre_of ctx) env = [] \<and> post_quote_reasons (post_of ctx) env = []"
    by (metis set_empty Un_empty)
  moreover have "po_stake (post_of ctx) = pc_stake ctx" by (simp add: post_of_def)
  ultimately show ?thesis using reasons
    by (simp add: evaluate_def evaluate_pre_quote_def evaluate_post_quote_def Let_def
          verdict_with_human_def)
qed

definition demo_env :: policy_envelope where
  "demo_env = \<lparr>pe_max_stake = Fin 100, pe_max_orders_per_run = 10, pe_max_orders_per_session = 5,
     pe_max_orders_per_day = 7, pe_venue_allowlist = [''poly''], pe_market_allowlist = [''1x2''],
     pe_min_edge_bps = 10, pe_max_slippage_bps = 50, pe_max_price = Fin 3, pe_max_quote_age_s = 30,
     pe_cooldown_s = 5, pe_human_approval_threshold = Fin 50, pe_max_stake_live_guarded = fl_zero,
     pe_circuit_breaker_threshold = 3, pe_max_session_loss = Fin 20, pe_max_daily_loss = Fin 30,
     pe_kill_switch = False\<rparr>"

definition demo_ctx :: policy_context where
  "demo_ctx = \<lparr>pc_recomputed_edge_bps = 25, pc_stake = Fin 60, pc_venue = ''poly'',
     pc_market_key = ''1x2'', pc_price = Fin 2, pc_slippage_bps = 10, pc_quote_age_s = 4,
     pc_orders_this_run = 1, pc_seconds_since_last_order = None, pc_agent_eligible = True\<rparr>"

theorem two_phase_agrees_with_engine_witness:
  "pr_decision (evaluate (\<lambda>_. '''') demo_ctx demo_env) = REQUIRES_HUMAN"
  using two_phase_agrees_with_engine [of demo_env "\<lambda>_. ''''" demo_ctx]
  by (simp add: gate_defs demo_env_def demo_ctx_def pre_of_def post_of_def transparent_defaults
        in_cooldown_def)

text \<open>
  The gate's stake checks are vacuous on a NaN stake: it never reports a stake over a cap,
  never reports missing liquidity, and a clean NaN stake is approved without the human
  escalation, whatever the caps and the approval threshold are.
\<close>

theorem nan_stake_escapes_stake_caps:
  assumes "pq_stake pre = NaN" and "po_stake post = NaN"
  shows "stake_over_max \<notin> set (pr_reason_codes (evaluate_pre_quote ph pre env))
       \<and> stake_over_live_guarded \<notin> set (pr_reason_codes (evaluate_pre_quote ph pre env))
       \<and> insufficient_liquidity \<notin> set (pr_reason_codes (evaluate_post_quote ph post env))
       \<and> pr_decision (evaluate_post_quote ph post env) \<noteq> REQUIRES_HUMAN"
proof -
  have nan: "\<not> fl_lt x NaN" "\<not> fl_le x NaN" for x by (cases x; simp)+
  show ?thesis using assms by (auto simp: gate_defs nan)
qed

theorem nan_stake_escapes_stake_caps_witness:
  "pr_decision (evaluate_pre_quote (\<lambda>_. '''') (pre_of (demo_ctx\<lparr>pc_stake := NaN\<rparr>)) demo_env) = APPROVED
   \<and> pr_decision (evaluate_post_quote (\<lambda>_. '''') (post_of (demo_ctx\<lparr>pc_stake := NaN\<rparr>)) demo_env) = APPROVED"
  using nan_stake_escapes_stake_caps [of "pre_of (demo_ctx\<lparr>pc_stake := NaN\<rparr>)"
      "post_of (demo_ctx\<lparr>pc_stake := NaN\<rparr>)" "\<lambda>_. ''''" demo_env]
  by (simp add: gate_defs demo_env_def demo_ctx_def pre_of_def post_of_def transparent_defaults
        in_cooldown_def)

end
