(* ===== verification/Execution_Record.thy ===== *)
theory Execution_Record
  imports PyVal
begin

text \<open>
  The life of one execution order (\<open>src/veridex/execution/models.py\<close>): its statuses with the
  transition table, the secret-free receipt, and the record that carries both.
\<close>

section \<open>Statuses\<close>

datatype execution_status =
    PROPOSED | LAW_APPROVED | AWAITING_HUMAN | POLICY_APPROVED | SUBMITTED | ACCEPTED | REJECTED
  | FILLED | PARTIAL | CANCELLED | EXPIRED | SETTLED | VOIDED | UNRESOLVED

fun execution_status_text :: "execution_status \<Rightarrow> string" where
  "execution_status_text PROPOSED = ''proposed''"
| "execution_status_text LAW_APPROVED = ''law_approved''"
| "execution_status_text AWAITING_HUMAN = ''awaiting_human''"
| "execution_status_text POLICY_APPROVED = ''policy_approved''"
| "execution_status_text SUBMITTED = ''submitted''"
| "execution_status_text ACCEPTED = ''accepted''"
| "execution_status_text REJECTED = ''rejected''"
| "execution_status_text FILLED = ''filled''"
| "execution_status_text PARTIAL = ''partial''"
| "execution_status_text CANCELLED = ''cancelled''"
| "execution_status_text EXPIRED = ''expired''"
| "execution_status_text SETTLED = ''settled''"
| "execution_status_text VOIDED = ''voided''"
| "execution_status_text UNRESOLVED = ''unresolved''"

fun next_exec :: "execution_status \<Rightarrow> execution_status set" where
  "next_exec PROPOSED = {LAW_APPROVED, REJECTED}"
| "next_exec LAW_APPROVED = {POLICY_APPROVED, AWAITING_HUMAN, REJECTED}"
| "next_exec AWAITING_HUMAN = {POLICY_APPROVED, REJECTED}"
| "next_exec POLICY_APPROVED = {SUBMITTED, REJECTED}"
| "next_exec SUBMITTED = {ACCEPTED, REJECTED, EXPIRED}"
| "next_exec ACCEPTED = {FILLED, PARTIAL, CANCELLED, EXPIRED}"
| "next_exec FILLED = {SETTLED, VOIDED, UNRESOLVED}"
| "next_exec PARTIAL = {SETTLED, VOIDED, UNRESOLVED}"
| "next_exec REJECTED = {}"
| "next_exec CANCELLED = {}"
| "next_exec EXPIRED = {}"
| "next_exec SETTLED = {}"
| "next_exec VOIDED = {}"
| "next_exec UNRESOLVED = {}"

section \<open>Receipts and records\<close>

record execution_receipt =
  rc_execution_id :: string
  rc_venue :: string
  rc_market_ref :: string
  rc_side :: string
  rc_requested_size :: pyfloat
  rc_filled_size :: pyfloat
  rc_price :: pyfloat
  rc_status :: execution_status
  rc_venue_order_id :: "string option"
  rc_mode :: string
  rc_submitted_at :: "string option"
  rc_settled_at :: "string option"

record execution_record =
  ex_execution_id :: string
  ex_competition_id :: string
  ex_run_id :: string
  ex_agent_id :: string
  ex_source_sequence_no :: int
  ex_status :: execution_status
  ex_policy_hash :: string
  ex_receipt :: "execution_receipt option"

definition advance_execution :: "execution_status \<Rightarrow> execution_record \<Rightarrow> execution_record result" where
  "advance_execution new r =
     (if new \<notin> next_exec (ex_status r) then Inl ExecutionTransitionError else Inr (r\<lparr>ex_status := new\<rparr>))"

fun advance_through :: "execution_status list \<Rightarrow> execution_record \<Rightarrow> execution_record result" where
  "advance_through [] r = Inr r"
| "advance_through (st # path) r = rbind (advance_execution st r) (advance_through path)"

section \<open>The lifecycle is finite\<close>

text \<open>How many steps a status can still be followed by.\<close>

fun steps_left :: "execution_status \<Rightarrow> nat" where
  "steps_left PROPOSED = 7"
| "steps_left LAW_APPROVED = 6"
| "steps_left AWAITING_HUMAN = 5"
| "steps_left POLICY_APPROVED = 4"
| "steps_left SUBMITTED = 3"
| "steps_left ACCEPTED = 2"
| "steps_left FILLED = 1"
| "steps_left PARTIAL = 1"
| "steps_left _ = 0"

lemma next_exec_steps: "new \<in> next_exec st \<Longrightarrow> steps_left new < steps_left st"
  by (cases st) auto

lemma advance_through_bound:
  "advance_through path r = Inr r' \<Longrightarrow> length path + steps_left (ex_status r') \<le> steps_left (ex_status r)
    \<and> distinct (ex_status r # path) \<and> (\<forall>st \<in> set path. steps_left st < steps_left (ex_status r))"
proof (induction path arbitrary: r)
  case (Cons st path)
  then have st: "st \<in> next_exec (ex_status r)" and "advance_through path (r\<lparr>ex_status := st\<rparr>) = Inr r'"
    by (auto simp: advance_execution_def split: if_splits)
  from Cons.IH [OF this(2)] next_exec_steps [OF st] show ?case by auto
qed simp

text \<open>
  Every life of an order is short and never revisits a status: a sequence of advances the table accepts
  changes nothing but the status, has at most seven steps from a fresh record, and no status occurs in it
  twice; in a state from which no step is left every further advance is refused.
\<close>

theorem execution_lifecycle_bounded:
  assumes "advance_through path r = Inr r'"
  shows "length path \<le> 7 \<and> distinct (ex_status r # path) \<and> r' = r\<lparr>ex_status := last (ex_status r # path)\<rparr>
    \<and> (steps_left (ex_status r') = 0 \<longrightarrow> (\<forall>st. advance_execution st r' = Inl ExecutionTransitionError))"
proof -
  have "steps_left st \<le> 7" for st by (cases st) simp_all
  then have "length path \<le> 7" "distinct (ex_status r # path)"
    using advance_through_bound [OF assms] add_leD1 le_trans by blast+
  moreover have "r' = r\<lparr>ex_status := last (ex_status r # path)\<rparr>"
    using assms
  proof (induction path arbitrary: r)
    case (Cons st path)
    then have "advance_through path (r\<lparr>ex_status := st\<rparr>) = Inr r'"
      by (auto simp: advance_execution_def split: if_splits)
    from Cons.IH [OF this] show ?case by (cases "path = []") simp_all
  qed simp
  moreover have "steps_left (ex_status r') = 0 \<longrightarrow> (\<forall>st. advance_execution st r' = Inl ExecutionTransitionError)"
    by (cases "ex_status r'") (simp_all add: advance_execution_def)
  ultimately show ?thesis by (intro conjI)
qed

definition fresh_record :: execution_record where
  "fresh_record = \<lparr>ex_execution_id = ''r:1'', ex_competition_id = ''c'', ex_run_id = ''r'', ex_agent_id = ''a'',
     ex_source_sequence_no = 1, ex_status = PROPOSED, ex_policy_hash = ''h'', ex_receipt = None\<rparr>"

theorem execution_lifecycle_bounded_witness:
  "advance_execution FILLED (fresh_record\<lparr>ex_status := SETTLED\<rparr>) = Inl ExecutionTransitionError"
  using execution_lifecycle_bounded
    [of "[LAW_APPROVED, AWAITING_HUMAN, POLICY_APPROVED, SUBMITTED, ACCEPTED, PARTIAL, SETTLED]" fresh_record "fresh_record\<lparr>ex_status := SETTLED\<rparr>"]
  by (simp add: advance_execution_def fresh_record_def)

end
