(* ===== verification/Custody.thy ===== *)
theory Custody
  imports Verifier
begin

text \<open>
  Custody of the execution wallet (\<open>src/veridex/dust_execution/wallet_binding.py\<close> and
  \<open>provisioning_record.py\<close>): the wallet policy with its structural check, the key quorum, the
  binding pinned into a manifest, and the provisioning record with its JSON form. Digests are SHA-256
  over canonical JSON, the codec parameter of the run.
\<close>

section \<open>Policy and quorum (\<open>wallet_binding.py\<close>)\<close>

datatype policy_effect = ALLOW | DENY
datatype policy_owner_type = quorum_owned | app_secret

fun effect_text :: "policy_effect \<Rightarrow> string" where
  "effect_text ALLOW = ''ALLOW''"
| "effect_text DENY = ''DENY''"

definition allowed_sign_method :: string where
  "allowed_sign_method = ''eth_signTypedData_v4''"

definition order_primary_type :: string where
  "order_primary_type = ''Order''"

definition clob_auth_primary_type :: string where
  "clob_auth_primary_type = ''ClobAuth''"

definition sha256_canonical :: "codec \<Rightarrow> pyval \<Rightarrow> string" where
  "sha256_canonical cd payload = cd_sha256 cd (cd_serialize cd payload)"

record policy_rule =
  wr_method :: string
  wr_primary_type :: string
  wr_effect :: policy_effect

record privy_wallet_policy =
  wp_rules :: "policy_rule list"
  wp_default_action :: policy_effect
  wp_owner_type :: policy_owner_type

definition rule_row :: "policy_rule \<Rightarrow> string list" where
  "rule_row r = [wr_method r, wr_primary_type r, effect_text (wr_effect r)]"

definition policy_content :: "privy_wallet_policy \<Rightarrow> pyval" where
  "policy_content p = VDict
     [(''default_action'', VStr (effect_text (wp_default_action p))),
      (''rules'', VList (map (VList \<circ> map VStr) (sort (map rule_row (wp_rules p)))))]"

definition policy_content_hash :: "codec \<Rightarrow> privy_wallet_policy \<Rightarrow> string" where
  "policy_content_hash cd p = sha256_canonical cd (policy_content p)"

definition is_typed_data_only_default_deny :: "privy_wallet_policy \<Rightarrow> bool" where
  "is_typed_data_only_default_deny p =
     (if wp_default_action p \<noteq> DENY then False
      else if \<exists>r \<in> set (wp_rules p). wr_effect r = ALLOW \<and> wr_method r \<noteq> allowed_sign_method then False
      else set (map (\<lambda>r. (wr_method r, wr_primary_type r)) (filter (\<lambda>r. wr_effect r = ALLOW) (wp_rules p)))
           = {(allowed_sign_method, order_primary_type), (allowed_sign_method, clob_auth_primary_type)})"

record authorization_quorum =
  aq_quorum_ref :: string
  aq_authorization_key_refs :: "string list"
  aq_threshold :: int

definition quorum_content :: "authorization_quorum \<Rightarrow> pyval" where
  "quorum_content q = VDict
     [(''threshold'', VInt (aq_threshold q)), (''keys'', VList (map VStr (sort (aq_authorization_key_refs q))))]"

definition quorum_content_hash :: "codec \<Rightarrow> authorization_quorum \<Rightarrow> string" where
  "quorum_content_hash cd q = sha256_canonical cd (quorum_content q)"

section \<open>The binding\<close>

record execution_wallet_binding =
  wb_provider :: string
  wb_wallet_ref :: string
  wb_wallet_address :: string
  wb_chain_id :: string
  wb_venue :: string
  wb_privy_policy_content_hash :: string
  wb_authorization_quorum_ref :: string
  wb_authorization_quorum_content_hash :: string
  wb_quorum_threshold :: int

definition binding_content :: "execution_wallet_binding \<Rightarrow> (string \<times> pyval) list" where
  "binding_content b =
     [(''provider'', VStr (wb_provider b)), (''wallet_ref'', VStr (wb_wallet_ref b)),
      (''wallet_address'', VStr (py_lower (wb_wallet_address b))), (''chain_id'', VStr (wb_chain_id b)),
      (''venue'', VStr (wb_venue b)), (''privy_policy_content_hash'', VStr (wb_privy_policy_content_hash b)),
      (''authorization_quorum_ref'', VStr (wb_authorization_quorum_ref b)),
      (''authorization_quorum_content_hash'', VStr (wb_authorization_quorum_content_hash b)),
      (''quorum_threshold'', VInt (wb_quorum_threshold b))]"

definition binding_hash :: "codec \<Rightarrow> execution_wallet_binding \<Rightarrow> string" where
  "binding_hash cd b = sha256_canonical cd (VDict (binding_content b))"

section \<open>The provisioning record (\<open>provisioning_record.py\<close>)\<close>

record provisioning_record =
  pv_instance_id :: string
  pv_external_id :: string
  pv_wallet_id :: string
  pv_wallet_address :: string
  pv_chain_type :: string
  pv_policy_id :: string
  pv_quorum_id :: string
  pv_binding :: execution_wallet_binding
  pv_binding_hash :: string
  pv_policy_content_hash :: string
  pv_policy_full_content_hash :: string
  pv_quorum_content_hash :: string
  pv_provider_verification_ts :: string
  pv_provider_version :: string

definition provisioning_content :: "provisioning_record \<Rightarrow> (string \<times> pyval) list" where
  "provisioning_content r =
     [(''instance_id'', VStr (pv_instance_id r)), (''external_id'', VStr (pv_external_id r)),
      (''wallet_id'', VStr (pv_wallet_id r)), (''wallet_address'', VStr (py_lower (pv_wallet_address r))),
      (''chain_type'', VStr (pv_chain_type r)), (''policy_id'', VStr (pv_policy_id r)),
      (''quorum_id'', VStr (pv_quorum_id r)), (''binding_hash'', VStr (pv_binding_hash r)),
      (''policy_content_hash'', VStr (pv_policy_content_hash r)),
      (''policy_full_content_hash'', VStr (pv_policy_full_content_hash r)),
      (''quorum_content_hash'', VStr (pv_quorum_content_hash r)),
      (''provider_verification_ts'', VStr (pv_provider_verification_ts r)),
      (''provider_version'', VStr (pv_provider_version r))]"

definition provisioning_record_hash :: "codec \<Rightarrow> provisioning_record \<Rightarrow> string" where
  "provisioning_record_hash cd r = sha256_canonical cd (VDict (provisioning_content r))"

definition to_json_dict :: "provisioning_record \<Rightarrow> (string \<times> pyval) list" where
  "to_json_dict r = AList.update ''binding'' (VDict
     [(''provider'', VStr (wb_provider (pv_binding r))), (''wallet_ref'', VStr (wb_wallet_ref (pv_binding r))),
      (''wallet_address'', VStr (wb_wallet_address (pv_binding r))), (''chain_id'', VStr (wb_chain_id (pv_binding r))),
      (''venue'', VStr (wb_venue (pv_binding r))),
      (''privy_policy_content_hash'', VStr (wb_privy_policy_content_hash (pv_binding r))),
      (''authorization_quorum_ref'', VStr (wb_authorization_quorum_ref (pv_binding r))),
      (''authorization_quorum_content_hash'', VStr (wb_authorization_quorum_content_hash (pv_binding r))),
      (''quorum_threshold'', VInt (wb_quorum_threshold (pv_binding r)))]) (provisioning_content r)"

text \<open>
  \<open>data[key]\<close>. The constructors are dataclasses, which do not check what they store: a value of the
  wrong type would be kept as it is. The stored form only ever holds what \<^const>\<open>to_json_dict\<close> wrote,
  so here a value of another type is a \<open>TypeError\<close>.
\<close>

definition item :: "string \<Rightarrow> pyval \<Rightarrow> pyval result" where
  "item k v = (case v of VDict d \<Rightarrow> (case map_of d k of None \<Rightarrow> Inl KeyError | Some x \<Rightarrow> Inr x) | _ \<Rightarrow> Inl TypeError)"

definition str_item :: "string \<Rightarrow> pyval \<Rightarrow> string result" where
  "str_item k v = rbind (item k v) (\<lambda>x. case x of VStr s \<Rightarrow> Inr s | _ \<Rightarrow> Inl TypeError)"

definition int_item :: "string \<Rightarrow> pyval \<Rightarrow> int result" where
  "int_item k v = rbind (item k v) (\<lambda>x. case x of VInt n \<Rightarrow> Inr n | _ \<Rightarrow> Inl TypeError)"

definition binding_from :: "pyval \<Rightarrow> execution_wallet_binding result" where
  "binding_from b =
     rbind (str_item ''provider'' b) (\<lambda>provider. rbind (str_item ''wallet_ref'' b) (\<lambda>wallet_ref.
     rbind (str_item ''wallet_address'' b) (\<lambda>address. rbind (str_item ''chain_id'' b) (\<lambda>chain_id.
     rbind (str_item ''venue'' b) (\<lambda>venue. rbind (str_item ''privy_policy_content_hash'' b) (\<lambda>policy_hash.
     rbind (str_item ''authorization_quorum_ref'' b) (\<lambda>quorum_ref.
     rbind (str_item ''authorization_quorum_content_hash'' b) (\<lambda>quorum_hash.
     rbind (int_item ''quorum_threshold'' b) (\<lambda>threshold.
       Inr \<lparr>wb_provider = provider, wb_wallet_ref = wallet_ref, wb_wallet_address = address, wb_chain_id = chain_id,
            wb_venue = venue, wb_privy_policy_content_hash = policy_hash, wb_authorization_quorum_ref = quorum_ref,
            wb_authorization_quorum_content_hash = quorum_hash, wb_quorum_threshold = threshold\<rparr>)))))))))"

definition from_json_dict :: "pyval \<Rightarrow> provisioning_record result" where
  "from_json_dict data =
     rbind (item ''binding'' data) (\<lambda>b. rbind (binding_from b) (\<lambda>binding.
     rbind (str_item ''instance_id'' data) (\<lambda>instance_id. rbind (str_item ''external_id'' data) (\<lambda>external_id.
     rbind (str_item ''wallet_id'' data) (\<lambda>wallet_id. rbind (str_item ''wallet_address'' data) (\<lambda>address.
     rbind (str_item ''chain_type'' data) (\<lambda>chain_type. rbind (str_item ''policy_id'' data) (\<lambda>policy_id.
     rbind (str_item ''quorum_id'' data) (\<lambda>quorum_id. rbind (str_item ''binding_hash'' data) (\<lambda>bh.
     rbind (str_item ''policy_content_hash'' data) (\<lambda>pch. rbind (str_item ''policy_full_content_hash'' data) (\<lambda>pfch.
     rbind (str_item ''quorum_content_hash'' data) (\<lambda>qch. rbind (str_item ''provider_verification_ts'' data) (\<lambda>ts.
     rbind (str_item ''provider_version'' data) (\<lambda>version.
       Inr \<lparr>pv_instance_id = instance_id, pv_external_id = external_id, pv_wallet_id = wallet_id, pv_wallet_address = address,
            pv_chain_type = chain_type, pv_policy_id = policy_id, pv_quorum_id = quorum_id, pv_binding = binding,
            pv_binding_hash = bh, pv_policy_content_hash = pch, pv_policy_full_content_hash = pfch,
            pv_quorum_content_hash = qch, pv_provider_verification_ts = ts, pv_provider_version = version\<rparr>)))))))))))))))"

section \<open>The JSON form keeps the record\<close>

lemma char_lower_idem: "char_lower (char_lower c) = char_lower c"
proof -
  have "of_char (char_of (n + 32) :: char) = n + 32" if "n \<le> 222" for n :: nat
    using that by simp
  then show ?thesis by (auto simp: char_lower_def Let_def)
qed

lemma py_lower_idem [simp]: "py_lower (py_lower s) = py_lower s"
  by (simp add: py_lower_def char_lower_idem)

lemma item_simps:
  "item k (VDict d) = (case map_of d k of None \<Rightarrow> Inl KeyError | Some x \<Rightarrow> Inr x)"
  by (simp add: item_def)

lemma from_to_json:
  "from_json_dict (VDict (to_json_dict r)) = Inr (r\<lparr>pv_wallet_address := py_lower (pv_wallet_address r)\<rparr>)"
  by (cases r; cases "pv_binding r")
     (simp add: from_json_dict_def to_json_dict_def provisioning_content_def binding_from_def str_item_def int_item_def item_simps)

text \<open>
  Durable storage of a provisioning record keeps its identity: reading back the JSON form always
  succeeds, with every field as it was but the address in lower case, so the record hash and the hash
  of the binding inside it are unchanged.
\<close>

theorem provisioning_record_roundtrip:
  "\<exists>r'. from_json_dict (VDict (to_json_dict r)) = Inr r'
     \<and> provisioning_record_hash cd r' = provisioning_record_hash cd r
     \<and> pv_binding r' = pv_binding r \<and> to_json_dict r' = to_json_dict r"
  unfolding from_to_json
  by (rule exI [of _ "r\<lparr>pv_wallet_address := py_lower (pv_wallet_address r)\<rparr>"])
     (simp add: provisioning_record_hash_def provisioning_content_def to_json_dict_def)

section \<open>Digests pin custody\<close>

lemma json_norm_strs: "map (json_norm \<circ> (VList \<circ> map VStr)) xs = map (VList \<circ> map VStr) xs"
  by (simp add: comp_def)

lemma policy_content_inject:
  assumes "json_norm (policy_content p) = json_norm (policy_content q)"
  shows "wp_default_action p = wp_default_action q \<and> rule_row ` set (wp_rules p) = rule_row ` set (wp_rules q)"
proof -
  have inj: "inj (VList \<circ> map VStr)" by (auto intro!: injI simp: inj_map_eq_map inj_def)
  have eff: "effect_text a = effect_text b \<longleftrightarrow> a = b" for a b by (cases a; cases b) simp_all
  from assms have "wp_default_action p = wp_default_action q"
    and "map (VList \<circ> map VStr) (sort (map rule_row (wp_rules p))) = map (VList \<circ> map VStr) (sort (map rule_row (wp_rules q)))"
    by (simp_all add: policy_content_def json_norm_strs eff)
  moreover from this(2) have "sort (map rule_row (wp_rules p)) = sort (map rule_row (wp_rules q))"
    using inj by (simp add: inj_map_eq_map)
  then have "set (sort (map rule_row (wp_rules p))) = set (sort (map rule_row (wp_rules q)))" by simp
  ultimately show ?thesis by simp
qed

lemma allowed_rows:
  "(m, t) \<in> set (map (\<lambda>r. (wr_method r, wr_primary_type r)) (filter (\<lambda>r. wr_effect r = ALLOW) rs))
    \<longleftrightarrow> [m, t, ''ALLOW''] \<in> rule_row ` set rs"
proof -
  have "effect_text e = ''ALLOW'' \<longleftrightarrow> e = ALLOW" for e by (cases e) simp_all
  then show ?thesis by (force simp: rule_row_def)
qed

definition allowed_calls :: "privy_wallet_policy \<Rightarrow> (string \<times> string) set" where
  "allowed_calls p = {(m, t). [m, t, ''ALLOW''] \<in> rule_row ` set (wp_rules p)}"

lemma allowed_calls_eq:
  "set (map (\<lambda>r. (wr_method r, wr_primary_type r)) (filter (\<lambda>r. wr_effect r = ALLOW) (wp_rules p))) = allowed_calls p"
  unfolding allowed_calls_def set_eq_iff split_paired_All allowed_rows by simp

lemma typed_data_only_iff:
  "is_typed_data_only_default_deny p \<longleftrightarrow> wp_default_action p = DENY
    \<and> allowed_calls p = {(allowed_sign_method, order_primary_type), (allowed_sign_method, clob_auth_primary_type)}"
proof -
  have "wr_method r = allowed_sign_method"
    if "allowed_calls p = {(allowed_sign_method, order_primary_type), (allowed_sign_method, clob_auth_primary_type)}"
      and "r \<in> set (wp_rules p)" "wr_effect r = ALLOW" for r
  proof -
    have "(wr_method r, wr_primary_type r) \<in> allowed_calls p"
      using that(2,3) unfolding allowed_calls_eq [symmetric] by force
    with that(1) show ?thesis by blast
  qed
  then show ?thesis unfolding is_typed_data_only_default_deny_def allowed_calls_eq by meson
qed

text \<open>
  A pinned digest pins what the wallet may sign: if SHA-256 does not collide on the texts compared and
  JSON separates values, a policy with the digest of another one allows exactly the same calls and
  passes the structural check exactly when the other does; and a policy that passes allows typed-data
  signing of the two message types and nothing else.
\<close>

theorem policy_digest_pins_authority:
  assumes "policy_content_hash cd p = policy_content_hash cd q"
    and "inj_on (cd_sha256 cd) {cd_serialize cd (policy_content p), cd_serialize cd (policy_content q)}"
    and "json_separates cd"
  shows "allowed_calls p = allowed_calls q
    \<and> is_typed_data_only_default_deny p = is_typed_data_only_default_deny q
    \<and> (is_typed_data_only_default_deny p \<longrightarrow> wp_default_action q = DENY
        \<and> allowed_calls q = {(''eth_signTypedData_v4'', ''Order''), (''eth_signTypedData_v4'', ''ClobAuth'')})"
proof -
  have "cd_serialize cd (policy_content p) = cd_serialize cd (policy_content q)"
    by (rule inj_onD [OF assms(2)]) (use assms(1) in \<open>simp_all add: policy_content_hash_def sha256_canonical_def\<close>)
  then have "wp_default_action p = wp_default_action q \<and> rule_row ` set (wp_rules p) = rule_row ` set (wp_rules q)"
    by (rule policy_content_inject [OF json_separatesD [OF assms(3)]])
  then have "wp_default_action p = wp_default_action q" "allowed_calls p = allowed_calls q"
    by (simp_all add: allowed_calls_def)
  then show ?thesis
    unfolding typed_data_only_iff allowed_sign_method_def order_primary_type_def clob_auth_primary_type_def by simp
qed

definition safe_policy :: privy_wallet_policy where
  "safe_policy = \<lparr>wp_rules =
     [\<lparr>wr_method = ''eth_signTypedData_v4'', wr_primary_type = ''Order'', wr_effect = ALLOW\<rparr>,
      \<lparr>wr_method = ''eth_signTypedData_v4'', wr_primary_type = ''ClobAuth'', wr_effect = ALLOW\<rparr>,
      \<lparr>wr_method = ''secp256k1_sign'', wr_primary_type = ''*'', wr_effect = DENY\<rparr>],
     wp_default_action = DENY, wp_owner_type = quorum_owned\<rparr>"

theorem policy_digest_pins_authority_witness:
  "allowed_calls safe_policy = allowed_calls (safe_policy\<lparr>wp_rules := rev (wp_rules safe_policy), wp_owner_type := app_secret\<rparr>)"
proof -
  let ?q = "safe_policy\<lparr>wp_rules := rev (wp_rules safe_policy), wp_owner_type := app_secret\<rparr>"
  have "mset (map rule_row (rev (wp_rules safe_policy))) = mset (map rule_row (wp_rules safe_policy))" by simp
  then have "sort (map rule_row (wp_rules ?q)) = sort (map rule_row (wp_rules safe_policy))"
    by (intro properties_for_sort) simp_all
  then have "policy_content ?q = policy_content safe_policy" by (simp add: policy_content_def)
  then show ?thesis
    using policy_digest_pins_authority [of "number_codec (\<lambda>t. t)" safe_policy ?q] number_codec_laws(1)
    by (simp add: policy_content_hash_def)
qed

end
