(* ===== verification/Store.thy ===== *)
theory Store
  imports Event_Log Policy Execution_Record Custody
begin

text \<open>
  The in-memory repository (\<open>src/veridex/store.py\<close>, class \<open>InMemoryStore\<close>) with the values it
  keeps: runs, competitions and their event logs (\<open>competition/models.py\<close>), deployment attempts
  (\<open>deploy/attempt.py\<close>), run leases and runtime events, execution records, public identities
  (\<open>public_agent.py\<close>), board rows, the seed ledger and provisioning records. Each method runs without suspension, so it
  is one step on the store; a method that raises leaves what it stores unchanged. The ledgers of fills and
  pre-submit records are in the theories of their components.
\<close>

section \<open>Competitions (\<open>competition/models.py\<close>)\<close>

datatype competition_type = LIVE_ARENA | REPLAY_ARENA | HEAD_TO_HEAD | PRIZE_VAULT_CHALLENGE
datatype execution_mode = PAPER | DRY_RUN | LIVE_GUARDED
datatype competition_status = DRAFT | OPEN_FOR_ENTRIES | RUNNING | FINALIZED

record replay_binding =
  rb_pack_id :: string
  rb_fixture_id :: int
  rb_content_hash :: string

record competition_config =
  cc_competition_type :: competition_type
  cc_source_mode :: string
  cc_execution_mode :: execution_mode
  cc_market_scope :: string
  cc_scoring_window :: "string option"
  cc_roster_size :: int
  cc_division :: "string option"
  cc_reward_policy :: "string option"
  cc_prize_vault_ref :: "string option option"
  cc_operator_id :: "string option"
  cc_policy_envelope :: "policy_envelope option"
  cc_pack_id :: "string option"
  cc_fixture_id :: "int option"

record agent_entry =
  ae_agent_id :: string
  ae_owner :: string
  ae_strategy :: string
  ae_model :: "string option"
  ae_proof_mode :: string
  ae_config_hash :: "string option"
  ae_execution_eligibility :: bool
  ae_instance_id :: "string option"

record competition =
  co_competition_id :: string
  co_config :: competition_config
  co_status :: competition_status
  co_entries :: "agent_entry list"
  co_run_id :: "string option"
  co_owner_id :: "string option"
  co_replay_binding :: "replay_binding option"

fun next_status :: "competition_status \<Rightarrow> competition_status set" where
  "next_status DRAFT = {OPEN_FOR_ENTRIES}"
| "next_status OPEN_FOR_ENTRIES = {RUNNING}"
| "next_status RUNNING = {FINALIZED}"
| "next_status FINALIZED = {}"

definition advance_status :: "competition_status \<Rightarrow> competition \<Rightarrow> competition result" where
  "advance_status new c = (if new \<notin> next_status (co_status c) then Inl ValueError else Inr (c\<lparr>co_status := new\<rparr>))"

definition normalize_proof_mode :: "string \<Rightarrow> string result" where
  "normalize_proof_mode value =
     (case map_of [(''reproducible'', ''reproducible''), (''verified'', ''verified''),
                   (''LLM/evidence-verified'', ''verified'')] value of
        Some p \<Rightarrow> Inr p | None \<Rightarrow> Inl ValueError)"

section \<open>Deployment attempts (\<open>deploy/attempt.py\<close>) and leases\<close>

datatype attempt_status =
    PENDING | WALLET_REQUESTED | WALLET_CREATE_UNCERTAIN | WALLET_CREATED | WALLET_BOUND
  | BINDING_PERSIST_FAILED | BINDING_PERSISTED | INSTANCE_CREATED | RUNTIME_LAUNCH_FAILED
  | FAILED_RECOVERABLE | SUCCEEDED | FAILED_TERMINAL

text \<open>The rank of a status is its place in the declaration.\<close>

definition status_order :: "attempt_status list" where
  "status_order = [PENDING, WALLET_REQUESTED, WALLET_CREATE_UNCERTAIN, WALLET_CREATED, WALLET_BOUND,
     BINDING_PERSIST_FAILED, BINDING_PERSISTED, INSTANCE_CREATED, RUNTIME_LAUNCH_FAILED,
     FAILED_RECOVERABLE, SUCCEEDED, FAILED_TERMINAL]"

definition status_rank :: "attempt_status \<Rightarrow> nat" where
  "status_rank st = length (takeWhile (\<lambda>x. x \<noteq> st) status_order)"

record deployment_attempt =
  da_attempt_id :: string
  da_operator_id :: string
  da_idempotency_key :: string
  da_config_fingerprint :: string
  da_status :: attempt_status
  da_created_at :: string
  da_instance_id :: "string option"
  da_external_id :: "string option"

definition transition :: "attempt_status \<Rightarrow> deployment_attempt \<Rightarrow> deployment_attempt result" where
  "transition new_status a =
     (if status_rank new_status \<le> status_rank (da_status a) then Inl ValueError
      else Inr (a\<lparr>da_status := new_status\<rparr>))"

datatype lease_status = STARTING | ACTIVE | RELEASED | FAILED

fun lease_status_rank :: "lease_status \<Rightarrow> nat" where
  "lease_status_rank STARTING = 0"
| "lease_status_rank ACTIVE = 1"
| "lease_status_rank RELEASED = 2"
| "lease_status_rank FAILED = 2"

record instance_lease =
  le_instance_id :: string
  le_runtime_agent_id :: string
  le_session_id :: string
  le_run_id :: string
  le_status :: lease_status
  le_operator_id :: string
  le_created_at :: string
  le_updated_at :: string

definition lease_transition :: "instance_lease \<Rightarrow> lease_status \<Rightarrow> string \<Rightarrow> instance_lease result" where
  "lease_transition current status updated_at =
     (let cur_rank = lease_status_rank (le_status current); new_rank = lease_status_rank status
      in if status = le_status current then Inr current
         else if new_rank \<le> cur_rank then Inl ValueError
         else Inr (current\<lparr>le_status := status, le_updated_at := updated_at\<rparr>))"

record runtime_event_row =
  rt_id :: int
  rt_event_uuid :: string
  rt_agent_id :: string
  rt_run_id :: "string option"
  rt_session_id :: "string option"
  rt_event_type :: string
  rt_ts :: int
  rt_channel :: string
  rt_payload :: pyval

text \<open>A deployed instance (\<open>deploy/instance.py\<close>); its free-form parts are dynamic values.\<close>

datatype deploy_status = DEPLOY_PENDING | DEPLOY_RUNNING | DEPLOY_SEALED | DEPLOY_FAILED
datatype deploy_failure_reason = PREFLIGHT_FAILED | SEAL_FAILED | LANE_FAILED | RUNTIME_ERROR

record agent_instance =
  ai_instance_id :: string
  ai_template_id :: string
  ai_agent_id :: string
  ai_submitted_config :: pyval
  ai_effective_config :: pyval
  ai_config_hash :: string
  ai_policy_hash :: string
  ai_source_mode :: string
  ai_execution_mode :: string
  ai_market_allowlist :: "string list"
  ai_venue_allowlist :: "string list"
  ai_run_id :: string
  ai_preflight_checks :: "pyval list"
  ai_status :: deploy_status
  ai_last_failure_reason :: "deploy_failure_reason option"
  ai_operator_id :: "string option"
  ai_runtime_handle :: "pyval option"
  ai_replay_binding :: "pyval option"
  ai_created_at :: string
  ai_updated_at :: string

section \<open>Public identities (\<open>public_agent.py\<close>)\<close>

datatype visibility = PRIVATE_AGENT | PUBLIC_AGENT
datatype operator_class = OFFICIAL_OPERATOR | USER_OPERATOR
datatype origin = FROM_OFFICIAL | FROM_STUDIO | FROM_BYOA | FROM_UNKNOWN

record public_agent =
  pa_public_agent_id :: string
  pa_display_name :: string
  pa_operator_class :: operator_class
  pa_origin :: origin
  pa_visibility :: visibility
  pa_owner_ref :: "string option"
  pa_created_at :: string
  pa_updated_at :: string
  pa_version :: int

section \<open>The store\<close>

record store =
  st_runs :: "(string, sealed_run) dict"
  st_competitions :: "(string, competition) dict"
  st_competition_events :: "(string, competition_event list) dict"
  st_execution_records :: "(string, execution_record) dict"
  st_public_agents :: "(string, public_agent) dict"
  st_instance_public_agent :: "(string, string) dict"
  st_projected_rows :: "(string \<times> string, pyval) dict"
  st_seed_state :: "(string, pyval) dict"
  st_provisioning_records :: "(string, provisioning_record) dict"
  st_agent_instances :: "(string, agent_instance) dict"
  st_deployment_attempts :: "(string \<times> string, deployment_attempt) dict"
  st_instance_leases :: "(string, instance_lease) dict"
  st_runtime_events :: "runtime_event_row list"
  st_runtime_event_id :: int
  st_runtime_event_uuids :: "string set"

definition new_store :: store where
  "new_store = \<lparr>st_runs = [], st_competitions = [], st_competition_events = [], st_execution_records = [],
     st_public_agents = [], st_instance_public_agent = [], st_projected_rows = [], st_seed_state = [], st_provisioning_records = [],
     st_agent_instances = [],
     st_deployment_attempts = [], st_instance_leases = [], st_runtime_events = [], st_runtime_event_id = 0,
     st_runtime_event_uuids = {}\<rparr>"

subsection \<open>Runs\<close>

definition persist_run :: "sealed_run \<Rightarrow> (store, unit) eff" where
  "persist_run r = eupdate (\<lambda>s. s\<lparr>st_runs := AList.update (sl_run_id r) r (st_runs s)\<rparr>)"

definition load_run :: "string \<Rightarrow> (store, sealed_run) eff" where
  "load_run run_id = (\<lambda>s. (case map_of (st_runs s) run_id of None \<Rightarrow> Inl KeyError | Some r \<Rightarrow> Inr r, s))"

subsection \<open>Competitions\<close>

definition create_competition :: "competition \<Rightarrow> (store, unit) eff" where
  "create_competition c = (\<lambda>s.
     let cid = co_competition_id c in
     if map_of (st_competitions s) cid \<noteq> None then (Inl ValueError, s)
     else (Inr (), s\<lparr>st_competitions := AList.update cid c (st_competitions s),
       st_competition_events := (if map_of (st_competition_events s) cid = None
          then AList.update cid [] (st_competition_events s) else st_competition_events s)\<rparr>))"

definition get_competition :: "string \<Rightarrow> (store, competition) eff" where
  "get_competition cid = (\<lambda>s. (case map_of (st_competitions s) cid of None \<Rightarrow> Inl KeyError | Some c \<Rightarrow> Inr c, s))"

text \<open>Look up, check and write in one step.\<close>

definition on_competition :: "string \<Rightarrow> (competition \<Rightarrow> competition result) \<Rightarrow> (store, unit) eff" where
  "on_competition cid f = (\<lambda>s.
     case map_of (st_competitions s) cid of
       None \<Rightarrow> (Inl KeyError, s)
     | Some c \<Rightarrow> (case f c of Inl e \<Rightarrow> (Inl e, s)
         | Inr c' \<Rightarrow> (Inr (), s\<lparr>st_competitions := AList.update cid c' (st_competitions s)\<rparr>)))"

definition add_agent_entry_guarded :: "string \<Rightarrow> agent_entry \<Rightarrow> competition_status set \<Rightarrow> (store, unit) eff" where
  "add_agent_entry_guarded cid entry mutable_statuses = on_competition cid (\<lambda>c.
     if co_status c \<notin> mutable_statuses then Inl RosterAdmissionError
     else if \<exists>x \<in> set (co_entries c). ae_agent_id x = ae_agent_id entry then Inl RosterAdmissionError
     else if int (length (co_entries c)) \<ge> cc_roster_size (co_config c) then Inl RosterAdmissionError
     else Inr (c\<lparr>co_entries := co_entries c @ [entry]\<rparr>))"

definition update_competition_status :: "string \<Rightarrow> competition_status \<Rightarrow> (store, unit) eff" where
  "update_competition_status cid status = on_competition cid (\<lambda>c. Inr (c\<lparr>co_status := status\<rparr>))"

definition claim_competition_run :: "string \<Rightarrow> competition_status \<Rightarrow> competition_status \<Rightarrow> string \<Rightarrow> (store, unit) eff" where
  "claim_competition_run cid expected new run_id = on_competition cid (\<lambda>c.
     if co_status c \<noteq> expected then Inl CompetitionStatusClaimError
     else Inr (c\<lparr>co_status := new, co_run_id := Some run_id\<rparr>))"

definition release_competition_run :: "string \<Rightarrow> competition_status \<Rightarrow> competition_status \<Rightarrow> (store, unit) eff" where
  "release_competition_run cid expected new = on_competition cid (\<lambda>c.
     if co_status c \<noteq> expected then Inl CompetitionStatusClaimError
     else Inr (c\<lparr>co_status := new, co_run_id := None\<rparr>))"

definition update_competition_run_id :: "string \<Rightarrow> string \<Rightarrow> (store, unit) eff" where
  "update_competition_run_id cid run_id = on_competition cid (\<lambda>c. Inr (c\<lparr>co_run_id := Some run_id\<rparr>))"

definition update_competition_config :: "string \<Rightarrow> competition_config \<Rightarrow> (store, unit) eff" where
  "update_competition_config cid config = on_competition cid (\<lambda>c. Inr (c\<lparr>co_config := config\<rparr>))"

definition update_competition_replay_binding :: "string \<Rightarrow> replay_binding \<Rightarrow> (store, unit) eff" where
  "update_competition_replay_binding cid binding = on_competition cid (\<lambda>c.
     Inr (if co_replay_binding c = None then c\<lparr>co_replay_binding := Some binding\<rparr> else c))"

definition list_competitions :: "competition_status option \<Rightarrow> store \<Rightarrow> competition list" where
  "list_competitions status s = (case status of
     Some st \<Rightarrow> filter (\<lambda>c. co_status c = st) (map snd (st_competitions s)) | None \<Rightarrow> map snd (st_competitions s))"

subsection \<open>Event logs\<close>

definition events_of :: "string \<Rightarrow> store \<Rightarrow> competition_event list" where
  "events_of cid s = (case map_of (st_competition_events s) cid of None \<Rightarrow> [] | Some b \<Rightarrow> b)"

fun seq_taken :: "competition_event list \<Rightarrow> int set \<Rightarrow> int set \<Rightarrow> bool" where
  "seq_taken [] existing seen = False"
| "seq_taken (e # es) existing seen =
     (if ce_seq e \<in> existing \<or> ce_seq e \<in> seen then True else seq_taken es existing (insert (ce_seq e) seen))"

definition append_competition_events :: "string \<Rightarrow> competition_event list \<Rightarrow> (store, unit) eff" where
  "append_competition_events cid events = (\<lambda>s.
     let bucket = events_of cid s in
     if seq_taken events (ce_seq ` set bucket) {}
     then (Inl ValueError, s\<lparr>st_competition_events := AList.update cid bucket (st_competition_events s)\<rparr>)
     else (Inr (), s\<lparr>st_competition_events := AList.update cid (bucket @ events) (st_competition_events s)\<rparr>))"

definition list_competition_events :: "string \<Rightarrow> int \<Rightarrow> store \<Rightarrow> competition_event list" where
  "list_competition_events cid since_seq s = filter (\<lambda>e. ce_seq e > since_seq) (sort_key ce_seq (events_of cid s))"

subsection \<open>Execution records\<close>

definition append_execution_record :: "execution_record \<Rightarrow> (store, unit) eff" where
  "append_execution_record r =
     eupdate (\<lambda>s. s\<lparr>st_execution_records := AList.update (ex_execution_id r) r (st_execution_records s)\<rparr>)"

definition get_execution_record :: "string \<Rightarrow> (store, execution_record) eff" where
  "get_execution_record eid =
     (\<lambda>s. (case map_of (st_execution_records s) eid of None \<Rightarrow> Inl KeyError | Some r \<Rightarrow> Inr r, s))"

definition list_executions :: "string \<Rightarrow> store \<Rightarrow> execution_record list" where
  "list_executions cid s =
     sort_key ex_execution_id (filter (\<lambda>r. ex_competition_id r = cid) (map snd (st_execution_records s)))"

subsection \<open>Public agents\<close>

definition persist_public_agent :: "public_agent \<Rightarrow> (store, unit) eff" where
  "persist_public_agent a =
     eupdate (\<lambda>s. s\<lparr>st_public_agents := AList.update (pa_public_agent_id a) a (st_public_agents s)\<rparr>)"

definition get_public_agent :: "string \<Rightarrow> store \<Rightarrow> public_agent option" where
  "get_public_agent pid s = map_of (st_public_agents s) pid"

definition list_public_agents :: "store \<Rightarrow> public_agent list" where
  "list_public_agents s = map snd (st_public_agents s)"

definition on_public_agent :: "string \<Rightarrow> (public_agent \<Rightarrow> public_agent) \<Rightarrow> (store, unit) eff" where
  "on_public_agent pid f = (\<lambda>s.
     case map_of (st_public_agents s) pid of
       None \<Rightarrow> (Inl KeyError, s)
     | Some a \<Rightarrow> (Inr (), s\<lparr>st_public_agents := AList.update pid (f a) (st_public_agents s)\<rparr>))"

definition set_public_agent_visibility :: "string \<Rightarrow> visibility \<Rightarrow> string \<Rightarrow> (store, unit) eff" where
  "set_public_agent_visibility pid v updated_at = on_public_agent pid (\<lambda>a.
     a\<lparr>pa_visibility := v, pa_updated_at := updated_at, pa_version := pa_version a + 1\<rparr>)"

definition set_public_agent_display_name :: "string \<Rightarrow> string \<Rightarrow> string \<Rightarrow> (store, unit) eff" where
  "set_public_agent_display_name pid name updated_at = on_public_agent pid (\<lambda>a.
     a\<lparr>pa_display_name := name, pa_updated_at := updated_at, pa_version := pa_version a + 1\<rparr>)"

definition link_instance_public_agent :: "string \<Rightarrow> string \<Rightarrow> (store, unit) eff" where
  "link_instance_public_agent iid pid = (\<lambda>s.
     if map_of (st_agent_instances s) iid = None then (Inl KeyError, s)
     else if map_of (st_public_agents s) pid = None then (Inl KeyError, s)
     else (Inr (), s\<lparr>st_instance_public_agent := AList.update iid pid (st_instance_public_agent s)\<rparr>))"

definition get_instance_public_agent_id :: "string \<Rightarrow> store \<Rightarrow> string option" where
  "get_instance_public_agent_id iid s = map_of (st_instance_public_agent s) iid"

subsection \<open>Board rows, seed ledger, provisioning records\<close>

text \<open>The rows of a batch are stored one by one: those before a row without its keys stay stored.\<close>

definition persist_projected_row :: "pyval \<Rightarrow> (store, unit) eff" where
  "persist_projected_row row =
     ebind (elift (str_item ''run_id'' row)) (\<lambda>run_id.
     ebind (elift (str_item ''public_agent_id'' row)) (\<lambda>pid.
       eupdate (\<lambda>s. s\<lparr>st_projected_rows := AList.update (run_id, pid) row (st_projected_rows s)\<rparr>)))"

definition persist_projected_rows :: "pyval list \<Rightarrow> (store, unit) eff" where
  "persist_projected_rows rows = efor rows persist_projected_row"

definition list_projected_rows :: "store \<Rightarrow> pyval list" where
  "list_projected_rows s = map snd (st_projected_rows s)"

definition persist_seed_state :: "codec \<Rightarrow> string \<Rightarrow> pyval \<Rightarrow> (store, unit) eff" where
  "persist_seed_state cd revision state =
     ebind (elift (cd_loads cd (cd_dumps cd state))) (\<lambda>v.
       eupdate (\<lambda>s. s\<lparr>st_seed_state := AList.update revision v (st_seed_state s)\<rparr>))"

definition get_seed_state :: "string \<Rightarrow> store \<Rightarrow> pyval option" where
  "get_seed_state revision s = map_of (st_seed_state s) revision"

definition persist_provisioning_record :: "codec \<Rightarrow> provisioning_record \<Rightarrow> (store, unit) eff" where
  "persist_provisioning_record cd r = (\<lambda>s.
     case map_of (st_provisioning_records s) (pv_instance_id r) of
       Some existing \<Rightarrow>
         if provisioning_record_hash cd existing \<noteq> provisioning_record_hash cd r then (Inl ValueError, s) else (Inr (), s)
     | None \<Rightarrow> (Inr (), s\<lparr>st_provisioning_records := AList.update (pv_instance_id r) r (st_provisioning_records s)\<rparr>))"

definition get_provisioning_record :: "string \<Rightarrow> store \<Rightarrow> provisioning_record option" where
  "get_provisioning_record iid s = map_of (st_provisioning_records s) iid"

subsection \<open>Instances\<close>

definition persist_agent_instance :: "agent_instance \<Rightarrow> (store, unit) eff" where
  "persist_agent_instance i = eupdate (\<lambda>s. s\<lparr>st_agent_instances := AList.update (ai_instance_id i) i (st_agent_instances s)\<rparr>)"

definition get_agent_instance :: "string \<Rightarrow> (store, agent_instance) eff" where
  "get_agent_instance iid = (\<lambda>s. (case map_of (st_agent_instances s) iid of None \<Rightarrow> Inl KeyError | Some i \<Rightarrow> Inr i, s))"

definition list_agent_instances :: "store \<Rightarrow> agent_instance list" where
  "list_agent_instances s = map snd (st_agent_instances s)"

definition update_agent_instance_status ::
  "string \<Rightarrow> deploy_status \<Rightarrow> deploy_failure_reason option \<Rightarrow> string \<Rightarrow> (store, unit) eff" where
  "update_agent_instance_status iid status last_failure_reason updated_at = (\<lambda>s.
     case map_of (st_agent_instances s) iid of
       None \<Rightarrow> (Inl KeyError, s)
     | Some i \<Rightarrow> (Inr (), s\<lparr>st_agent_instances := AList.update iid
         (i\<lparr>ai_status := status, ai_last_failure_reason :=
              (case last_failure_reason of None \<Rightarrow> ai_last_failure_reason i | Some x \<Rightarrow> Some x),
            ai_updated_at := updated_at\<rparr>) (st_agent_instances s)\<rparr>))"

subsection \<open>Deployment attempts\<close>

definition persist_deployment_attempt :: "deployment_attempt \<Rightarrow> (store, unit) eff" where
  "persist_deployment_attempt a = (\<lambda>s.
     let key = (da_operator_id a, da_idempotency_key a) in
     if map_of (st_deployment_attempts s) key \<noteq> None then (Inl DuplicateAttemptError, s)
     else (Inr (), s\<lparr>st_deployment_attempts := AList.update key a (st_deployment_attempts s)\<rparr>))"

definition get_deployment_attempt_by_key :: "string \<Rightarrow> string \<Rightarrow> store \<Rightarrow> deployment_attempt option" where
  "get_deployment_attempt_by_key operator_id key s = map_of (st_deployment_attempts s) (operator_id, key)"

definition find_attempt_key :: "string \<Rightarrow> store \<Rightarrow> (string \<times> string) option" where
  "find_attempt_key attempt_id s =
     map_option fst (List.find (\<lambda>(key, a). da_attempt_id a = attempt_id) (st_deployment_attempts s))"

definition get_deployment_attempt :: "string \<Rightarrow> store \<Rightarrow> deployment_attempt option" where
  "get_deployment_attempt attempt_id s = Option.bind (find_attempt_key attempt_id s) (map_of (st_deployment_attempts s))"

definition advance_deployment_attempt ::
  "string \<Rightarrow> attempt_status \<Rightarrow> attempt_status \<Rightarrow> string option \<Rightarrow> (store, deployment_attempt) eff" where
  "advance_deployment_attempt attempt_id expected new external_id = (\<lambda>s.
     case find_attempt_key attempt_id s of
       None \<Rightarrow> (Inl KeyError, s)
     | Some key \<Rightarrow> (case map_of (st_deployment_attempts s) key of
           None \<Rightarrow> (Inl KeyError, s)
         | Some current \<Rightarrow>
             if da_status current \<noteq> expected then (Inl DeploymentAttemptTransitionError, s)
             else (case transition new current of
                 Inl e \<Rightarrow> (Inl e, s)
               | Inr advanced \<Rightarrow>
                   if external_id \<noteq> None \<and> da_external_id current \<noteq> None \<and> da_external_id current \<noteq> external_id
                   then (Inl DeploymentAttemptTransitionError, s)
                   else
                     let pinned = (if da_external_id current \<noteq> None then da_external_id current else external_id);
                         advanced' = advanced\<lparr>da_external_id := pinned\<rparr>
                     in (Inr advanced', s\<lparr>st_deployment_attempts := AList.update key advanced' (st_deployment_attempts s)\<rparr>))))"

subsection \<open>Leases\<close>

definition acquire_instance_lease :: "instance_lease \<Rightarrow> (store, unit) eff" where
  "acquire_instance_lease lease = (\<lambda>s.
     if map_of (st_instance_leases s) (le_instance_id lease) \<noteq> None then (Inl DuplicateLeaseError, s)
     else (Inr (), s\<lparr>st_instance_leases := AList.update (le_instance_id lease) lease (st_instance_leases s)\<rparr>))"

definition get_instance_lease :: "string \<Rightarrow> store \<Rightarrow> instance_lease option" where
  "get_instance_lease iid s = map_of (st_instance_leases s) iid"

definition release_instance_lease :: "string \<Rightarrow> lease_status \<Rightarrow> string \<Rightarrow> (store, instance_lease) eff" where
  "release_instance_lease iid status updated_at = (\<lambda>s.
     case map_of (st_instance_leases s) iid of
       None \<Rightarrow> (Inl KeyError, s)
     | Some current \<Rightarrow> (case lease_transition current status updated_at of
           Inl e \<Rightarrow> (Inl e, s)
         | Inr updated \<Rightarrow> (Inr updated, s\<lparr>st_instance_leases := AList.update iid updated (st_instance_leases s)\<rparr>)))"

subsection \<open>Runtime events\<close>

fun append_rows :: "runtime_event_row list \<Rightarrow> int \<Rightarrow> store \<Rightarrow> int \<times> store" where
  "append_rows [] inserted s = (inserted, s)"
| "append_rows (row # rows) inserted s =
     (if rt_event_uuid row \<in> st_runtime_event_uuids s then append_rows rows inserted s
      else append_rows rows (inserted + 1)
        (s\<lparr>st_runtime_event_uuids := insert (rt_event_uuid row) (st_runtime_event_uuids s),
           st_runtime_event_id := st_runtime_event_id s + 1,
           st_runtime_events := st_runtime_events s @ [row\<lparr>rt_id := st_runtime_event_id s + 1\<rparr>]\<rparr>))"

definition append_runtime_events :: "runtime_event_row list \<Rightarrow> (store, int) eff" where
  "append_runtime_events rows = (\<lambda>s. let (inserted, s') = append_rows rows 0 s in (Inr inserted, s'))"

definition page :: "(runtime_event_row \<Rightarrow> bool) \<Rightarrow> int \<Rightarrow> nat option \<Rightarrow> store \<Rightarrow> runtime_event_row list" where
  "page belongs since limit s =
     (let rows = sort_key rt_id (filter (\<lambda>r. belongs r \<and> rt_id r > since) (st_runtime_events s))
      in case limit of None \<Rightarrow> rows | Some n \<Rightarrow> take n rows)"

definition list_runtime_events :: "string \<Rightarrow> int \<Rightarrow> nat option \<Rightarrow> store \<Rightarrow> runtime_event_row list" where
  "list_runtime_events agent_id since limit s = page (\<lambda>r. rt_agent_id r = agent_id) since limit s"

definition list_runtime_events_for_run :: "string \<Rightarrow> int \<Rightarrow> nat option \<Rightarrow> store \<Rightarrow> runtime_event_row list" where
  "list_runtime_events_for_run run_id since limit s = page (\<lambda>r. rt_run_id r = Some run_id) since limit s"

section \<open>Steps of the store\<close>

text \<open>
  Everything a caller can do to the store, one rule per method that writes. A competition is created
  with an empty roster and a validated configuration (a roster of at least two); entries are added
  with the mutable statuses of the service; configurations are replaced only by the kill-switch
  endpoint, which keeps the size of the roster.
\<close>

inductive store_step :: "store \<Rightarrow> store \<Rightarrow> bool" where
  run: "store_step s (snd (persist_run r s))"
| create: "co_entries c = [] \<Longrightarrow> 2 \<le> cc_roster_size (co_config c) \<Longrightarrow> store_step s (snd (create_competition c s))"
| entry: "mutable_statuses \<subseteq> {DRAFT, OPEN_FOR_ENTRIES} \<Longrightarrow> store_step s (snd (add_agent_entry_guarded cid x mutable_statuses s))"
| status: "store_step s (snd (update_competition_status cid st s))"
| claim: "store_step s (snd (claim_competition_run cid expected new run_id s))"
| release: "store_step s (snd (release_competition_run cid expected new s))"
| run_id: "store_step s (snd (update_competition_run_id cid run_id s))"
| config: "(\<And>c. map_of (st_competitions s) cid = Some c \<Longrightarrow> cc_roster_size cfg = cc_roster_size (co_config c))
    \<Longrightarrow> store_step s (snd (update_competition_config cid cfg s))"
| binding: "store_step s (snd (update_competition_replay_binding cid b s))"
| events: "store_step s (snd (append_competition_events cid evs s))"
| deployed: "store_step s (snd (persist_agent_instance i s))"
| deployed_status: "store_step s (snd (update_agent_instance_status iid ist reason ts s))"
| attempt: "store_step s (snd (persist_deployment_attempt a s))"
| advance: "store_step s (snd (advance_deployment_attempt aid from_st to_st ext s))"
| acquire: "store_step s (snd (acquire_instance_lease l s))"
| lease: "store_step s (snd (release_instance_lease iid ls ts s))"
| runtime: "store_step s (snd (append_runtime_events rows s))"
| execution: "store_step s (snd (append_execution_record x s))"
| identity: "store_step s (snd (persist_public_agent pa s))"
| shown: "store_step s (snd (set_public_agent_visibility pid v ts s))"
| named: "store_step s (snd (set_public_agent_display_name pid name ts s))"
| linked: "store_step s (snd (link_instance_public_agent iid pid s))"
| projected: "store_step s (snd (persist_projected_rows board s))"
| seeded: "store_step s (snd (persist_seed_state cd revision state s))"
| provisioned: "store_step s (snd (persist_provisioning_record cd pv s))"

text \<open>What a step writes: every method touches the fields of its own.\<close>

lemma append_rows_fields [simp]:
  "st_runs (snd (append_rows rows n s)) = st_runs s"
  "st_competitions (snd (append_rows rows n s)) = st_competitions s"
  "st_competition_events (snd (append_rows rows n s)) = st_competition_events s"
  "st_deployment_attempts (snd (append_rows rows n s)) = st_deployment_attempts s"
  "st_instance_leases (snd (append_rows rows n s)) = st_instance_leases s"
  by (induction rows arbitrary: n s) simp_all

lemma append_runtime_events_snd: "snd (append_runtime_events rows s) = snd (append_rows rows 0 s)"
  by (simp add: append_runtime_events_def split: prod.split)

lemma on_competition_fields [simp]:
  "st_runs (snd (on_competition cid f s)) = st_runs s"
  "st_competition_events (snd (on_competition cid f s)) = st_competition_events s"
  "st_deployment_attempts (snd (on_competition cid f s)) = st_deployment_attempts s"
  "st_instance_leases (snd (on_competition cid f s)) = st_instance_leases s"
  "st_runtime_events (snd (on_competition cid f s)) = st_runtime_events s"
  by (simp_all add: on_competition_def split: option.split sum.split)

text \<open>The methods that write neither competitions, logs, claims, leases nor telemetry.\<close>

definition core :: "store \<Rightarrow> (string, competition) dict \<times> (string, competition_event list) dict
    \<times> (string \<times> string, deployment_attempt) dict \<times> (string, instance_lease) dict \<times> runtime_event_row list \<times> int \<times> string set" where
  "core s = (st_competitions s, st_competition_events s, st_deployment_attempts s, st_instance_leases s,
     st_runtime_events s, st_runtime_event_id s, st_runtime_event_uuids s)"

lemma core_fields:
  assumes "core s' = core s"
  shows "st_competitions s' = st_competitions s" "st_competition_events s' = st_competition_events s"
    "st_deployment_attempts s' = st_deployment_attempts s" "st_instance_leases s' = st_instance_leases s"
    "st_runtime_events s' = st_runtime_events s" "st_runtime_event_id s' = st_runtime_event_id s"
    "st_runtime_event_uuids s' = st_runtime_event_uuids s"
  using assms by (simp_all add: core_def)

lemma projected_rows_core: "core (snd (persist_projected_rows rows s)) = core s"
  by (rule keepsD [where I = "\<lambda>s'. core s' = core s"])
     (auto simp: persist_projected_rows_def persist_projected_row_def core_def intro!: keeps_intros)

lemma side_core:
  "core (snd (append_execution_record x s)) = core s"
  "core (snd (persist_public_agent pa s)) = core s"
  "core (snd (on_public_agent pid f s)) = core s"
  "core (snd (link_instance_public_agent iid pid s)) = core s"
  "core (snd (persist_seed_state cd revision state s)) = core s"
  "core (snd (persist_provisioning_record cd pv s)) = core s"
  by (simp_all add: core_def append_execution_record_def persist_public_agent_def on_public_agent_def
      link_instance_public_agent_def persist_seed_state_def persist_provisioning_record_def ebind_def eff_apply
      split: option.split sum.split)

lemma renamed_core:
  "core (snd (set_public_agent_visibility pid v ts s)) = core s"
  "core (snd (set_public_agent_display_name pid name ts s)) = core s"
  by (simp_all add: set_public_agent_visibility_def set_public_agent_display_name_def side_core)

lemmas side_writes = projected_rows_core side_core renamed_core

lemmas side_fields [simp] = side_writes [THEN core_fields(1)] side_writes [THEN core_fields(2)] side_writes [THEN core_fields(3)]
  side_writes [THEN core_fields(4)] side_writes [THEN core_fields(5)] side_writes [THEN core_fields(6)] side_writes [THEN core_fields(7)]

lemmas competition_writes = add_agent_entry_guarded_def update_competition_status_def claim_competition_run_def
  release_competition_run_def update_competition_run_id_def update_competition_config_def
  update_competition_replay_binding_def

lemmas other_writes = persist_run_def create_competition_def append_competition_events_def persist_agent_instance_def
  update_agent_instance_status_def persist_deployment_attempt_def advance_deployment_attempt_def
  acquire_instance_lease_def release_instance_lease_def append_runtime_events_snd eff_apply Let_def

text \<open>
  A value in the store that only moves up: once present it is never lost, and every step either keeps
  it or replaces it by a later one.
\<close>

locale monotone_cell =
  fixes cell :: "'s \<Rightarrow> 'v option"
    and step :: "'s \<Rightarrow> 's \<Rightarrow> bool"
    and le :: "'v \<Rightarrow> 'v \<Rightarrow> bool"
  assumes le_refl: "le v v"
    and le_trans: "le u v \<Longrightarrow> le v w \<Longrightarrow> le u w"
    and step_le: "step s s' \<Longrightarrow> cell s = Some v \<Longrightarrow> \<exists>v'. cell s' = Some v' \<and> le v v'"
begin

lemma run_le: "step\<^sup>*\<^sup>* s s' \<Longrightarrow> cell s = Some v \<Longrightarrow> \<exists>v'. cell s' = Some v' \<and> le v v'"
proof (induction rule: rtranclp_induct)
  case base
  then show ?case by (auto intro: le_refl)
next
  case (step y z)
  then show ?case using step_le le_trans by metis
qed

lemma terminal_stays:
  assumes "step\<^sup>*\<^sup>* s s'" and "cell s = Some v" and "\<And>w. le v w \<Longrightarrow> f w = f v"
  shows "\<exists>w. cell s' = Some w \<and> f w = f v"
  using run_le [OF assms(1,2)] assms(3) by blast

end

text \<open>Leases.\<close>

definition lease_le :: "instance_lease \<Rightarrow> instance_lease \<Rightarrow> bool" where
  "lease_le l l' \<longleftrightarrow> l' = l \<or>
     (lease_status_rank (le_status l) < lease_status_rank (le_status l')
      \<and> l' = l\<lparr>le_status := le_status l', le_updated_at := le_updated_at l'\<rparr>)"

lemma lease_transition_le: "lease_transition l st ts = Inr l' \<Longrightarrow> lease_le l l'"
  by (auto simp: lease_transition_def lease_le_def Let_def split: if_splits)

interpretation lease_cell: monotone_cell "get_instance_lease iid" store_step lease_le
proof
  show "lease_le v v" for v by (simp add: lease_le_def)
  show "lease_le u v \<Longrightarrow> lease_le v w \<Longrightarrow> lease_le u w" for u v w
    by (cases u; cases v; cases w) (auto simp: lease_le_def)
  show "store_step s s' \<Longrightarrow> get_instance_lease iid s = Some v \<Longrightarrow> \<exists>v'. get_instance_lease iid s' = Some v' \<and> lease_le v v'" for s s' v
    by (induction rule: store_step.induct)
       (auto simp: get_instance_lease_def competition_writes other_writes update_conv' lease_le_def
        dest: lease_transition_le split: option.splits sum.splits prod.splits)
qed

text \<open>Deployment attempts.\<close>

definition attempt_le :: "deployment_attempt \<Rightarrow> deployment_attempt \<Rightarrow> bool" where
  "attempt_le a a' \<longleftrightarrow> a' = a \<or>
     (status_rank (da_status a) < status_rank (da_status a')
      \<and> (da_external_id a \<noteq> None \<longrightarrow> da_external_id a' = da_external_id a)
      \<and> a' = a\<lparr>da_status := da_status a', da_external_id := da_external_id a'\<rparr>)"

lemma advance_le:
  assumes "advance_deployment_attempt aid from_st to_st ext s = (Inr a', s')"
  shows "\<exists>key a. find_attempt_key aid s = Some key \<and> map_of (st_deployment_attempts s) key = Some a
    \<and> da_status a = from_st \<and> da_status a' = to_st \<and> attempt_le a a'
    \<and> s' = s\<lparr>st_deployment_attempts := AList.update key a' (st_deployment_attempts s)\<rparr>"
  using assms
  by (auto simp: advance_deployment_attempt_def transition_def attempt_le_def Let_def
      split: option.splits sum.splits if_splits)

lemma advance_cases:
  obtains e where "advance_deployment_attempt aid from_st to_st ext s = (Inl e, s)"
    | a' s' where "advance_deployment_attempt aid from_st to_st ext s = (Inr a', s')"
  by (cases "fst (advance_deployment_attempt aid from_st to_st ext s)")
     (auto simp: advance_deployment_attempt_def Let_def split: option.splits sum.splits if_splits)

lemma attempts_of_advance:
  assumes "get_deployment_attempt_by_key op k s = Some a"
  shows "\<exists>a'. get_deployment_attempt_by_key op k (snd (advance_deployment_attempt aid from_st to_st ext s)) = Some a'
    \<and> attempt_le a a'"
proof (cases rule: advance_cases [of aid from_st to_st ext s])
  case (1 e)
  with assms show ?thesis by (auto simp: attempt_le_def)
next
  case (2 a' s')
  from advance_le [OF 2] 2 assms show ?thesis
    by (auto simp: get_deployment_attempt_by_key_def update_conv' attempt_le_def)
qed

lemma attempts_of_other_steps:
  "st_deployment_attempts (snd (create_competition c s)) = st_deployment_attempts s"
  "st_deployment_attempts (snd (append_competition_events cid evs s)) = st_deployment_attempts s"
  "st_deployment_attempts (snd (update_agent_instance_status iid st reason ts s)) = st_deployment_attempts s"
  "st_deployment_attempts (snd (acquire_instance_lease l s)) = st_deployment_attempts s"
  "st_deployment_attempts (snd (release_instance_lease iid ls ts s)) = st_deployment_attempts s"
  "st_deployment_attempts (snd (append_runtime_events rows s)) = st_deployment_attempts s"
  by (simp_all add: other_writes split: option.split sum.split)

interpretation attempt_cell: monotone_cell "get_deployment_attempt_by_key op k" store_step attempt_le
proof
  show "attempt_le v v" for v by (simp add: attempt_le_def)
  show "attempt_le u v \<Longrightarrow> attempt_le v w \<Longrightarrow> attempt_le u w" for u v w
    by (cases u; cases v; cases w) (auto simp: attempt_le_def)
  show "store_step s s' \<Longrightarrow> get_deployment_attempt_by_key op k s = Some v
      \<Longrightarrow> \<exists>v'. get_deployment_attempt_by_key op k s' = Some v' \<and> attempt_le v v'" for s s' v
  proof (induction rule: store_step.induct)
    case advance
    then show ?case by (rule attempts_of_advance)
  qed (auto simp: get_deployment_attempt_by_key_def attempts_of_other_steps competition_writes persist_run_def
      persist_agent_instance_def persist_deployment_attempt_def eff_apply Let_def update_conv' attempt_le_def)
qed

text \<open>Event logs grow at the end.\<close>

lemma core_events: "core s' = core s \<Longrightarrow> events_of x s' = events_of x s"
  by (simp add: core_def events_of_def)

lemmas side_events [simp] = side_writes [THEN core_events]

lemma events_of_other_steps:
  "events_of x (snd (on_competition cid f s)) = events_of x s"
  "events_of x (snd (persist_run r s)) = events_of x s"
  "events_of x (snd (create_competition c s)) = events_of x s"
  "events_of x (snd (persist_agent_instance i s)) = events_of x s"
  "events_of x (snd (update_agent_instance_status iid st reason ts s)) = events_of x s"
  "events_of x (snd (persist_deployment_attempt a s)) = events_of x s"
  "events_of x (snd (advance_deployment_attempt aid from_st to_st ext s)) = events_of x s"
  "events_of x (snd (acquire_instance_lease l s)) = events_of x s"
  "events_of x (snd (release_instance_lease iid ls ts s)) = events_of x s"
  "events_of x (snd (append_runtime_events rows s)) = events_of x s"
  by (simp_all add: events_of_def other_writes update_conv' split: option.split sum.split)

interpretation event_log_cell: monotone_cell "\<lambda>s. Some (events_of cid s)" store_step "\<lambda>es es'. \<exists>new. es' = es @ new"
proof
  show "store_step s s' \<Longrightarrow> Some (events_of cid s) = Some v \<Longrightarrow> \<exists>v'. Some (events_of cid s') = Some v' \<and> (\<exists>new. v' = v @ new)" for s s' v
  proof (induction rule: store_step.induct)
    case (events s cid' evs)
    then show ?case by (auto simp: append_competition_events_def Let_def events_of_def update_conv')
  qed (simp_all add: events_of_other_steps competition_writes)
qed auto

section \<open>The invariant of the store\<close>

definition roster_ok :: "competition \<Rightarrow> bool" where
  "roster_ok c \<longleftrightarrow> distinct (map ae_agent_id (co_entries c)) \<and> int (length (co_entries c)) \<le> cc_roster_size (co_config c)"

definition rows_numbered :: "store \<Rightarrow> bool" where
  "rows_numbered s \<longleftrightarrow> map rt_id (st_runtime_events s) = map (\<lambda>i. int i + 1) [0 ..< length (st_runtime_events s)]
     \<and> st_runtime_event_id s = int (length (st_runtime_events s))
     \<and> st_runtime_event_uuids s = rt_event_uuid ` set (st_runtime_events s)
     \<and> distinct (map rt_event_uuid (st_runtime_events s))"

definition store_ok :: "store \<Rightarrow> bool" where
  "store_ok s \<longleftrightarrow> (\<forall>cid c. map_of (st_competitions s) cid = Some c \<longrightarrow> roster_ok c)
     \<and> (\<forall>cid. distinct (map ce_seq (events_of cid s))) \<and> rows_numbered s"

lemma append_rows_numbered: "rows_numbered s \<Longrightarrow> rows_numbered (snd (append_rows rows n s))"
proof (induction rows arbitrary: n s)
  case (Cons row rows)
  have "rows_numbered (s\<lparr>st_runtime_event_uuids := insert (rt_event_uuid row) (st_runtime_event_uuids s),
           st_runtime_event_id := st_runtime_event_id s + 1,
           st_runtime_events := st_runtime_events s @ [row\<lparr>rt_id := st_runtime_event_id s + 1\<rparr>]\<rparr>)"
    if "rt_event_uuid row \<notin> st_runtime_event_uuids s"
    using that Cons.prems by (auto simp: rows_numbered_def)
  then show ?case using Cons by simp
qed simp

lemma seq_taken_iff: "seq_taken evs old seen \<longleftrightarrow> \<not> (distinct (map ce_seq evs) \<and> ce_seq ` set evs \<inter> (old \<union> seen) = {})"
  by (induction evs arbitrary: seen) auto

lemma on_competition_roster:
  assumes "\<And>cid c. map_of (st_competitions s) cid = Some c \<Longrightarrow> roster_ok c"
    and "\<And>c c'. map_of (st_competitions s) cid = Some c \<Longrightarrow> f c = Inr c' \<Longrightarrow> roster_ok c \<Longrightarrow> roster_ok c'"
    and "map_of (st_competitions (snd (on_competition cid f s))) x = Some c"
  shows "roster_ok c"
  using assms by (auto simp: on_competition_def update_conv' split: option.splits sum.splits if_splits)

lemma admission_roster:
  assumes "(if co_status c \<notin> sts then Inl RosterAdmissionError
     else if \<exists>x \<in> set (co_entries c). ae_agent_id x = ae_agent_id y then Inl RosterAdmissionError
     else if int (length (co_entries c)) \<ge> cc_roster_size (co_config c) then Inl RosterAdmissionError
     else Inr (c\<lparr>co_entries := co_entries c @ [y]\<rparr>)) = Inr c'" and "roster_ok c"
  shows "roster_ok c'"
proof -
  have c': "c' = c\<lparr>co_entries := co_entries c @ [y]\<rparr>" "ae_agent_id y \<notin> ae_agent_id ` set (co_entries c)"
    "int (length (co_entries c)) < cc_roster_size (co_config c)"
    using assms(1) by (auto split: if_splits)
  then show ?thesis using assms(2) by (auto simp: roster_ok_def)
qed

lemma step_rosters:
  "store_step s s' \<Longrightarrow> (\<And>cid c. map_of (st_competitions s) cid = Some c \<Longrightarrow> roster_ok c)
    \<Longrightarrow> map_of (st_competitions s') x = Some c \<Longrightarrow> roster_ok c"
proof (induction rule: store_step.induct)
  case (entry mutable_statuses s cid y)
  show ?case
    by (rule on_competition_roster [OF entry(2) admission_roster entry(3) [unfolded add_agent_entry_guarded_def]]) simp_all
next
  case (config s cid cfg)
  show ?case
    by (rule on_competition_roster [OF config(2) _ config(3) [unfolded update_competition_config_def]])
       (use config(1) in \<open>auto simp: roster_ok_def\<close>)
next
  case (status s cid st)
  then show ?case unfolding update_competition_status_def
    by (elim on_competition_roster [rotated 2]) (auto simp: roster_ok_def)
next
  case (claim s cid expected new run_id)
  then show ?case unfolding claim_competition_run_def
    by (elim on_competition_roster [rotated 2]) (auto simp: roster_ok_def split: if_splits)
next
  case (release s cid expected new)
  then show ?case unfolding release_competition_run_def
    by (elim on_competition_roster [rotated 2]) (auto simp: roster_ok_def split: if_splits)
next
  case (run_id s cid rid)
  then show ?case unfolding update_competition_run_id_def
    by (elim on_competition_roster [rotated 2]) (auto simp: roster_ok_def)
next
  case (binding s cid b)
  then show ?case unfolding update_competition_replay_binding_def
    by (elim on_competition_roster [rotated 2]) (auto simp: roster_ok_def)
qed (auto simp: other_writes update_conv' roster_ok_def split: option.splits sum.splits if_splits)

lemma step_events:
  "store_step s s' \<Longrightarrow> (\<And>cid. distinct (map ce_seq (events_of cid s))) \<Longrightarrow> distinct (map ce_seq (events_of x s'))"
proof (induction rule: store_step.induct)
  case (events s cid evs)
  have "events_of x (snd (append_competition_events cid evs s))
      = (if x = cid \<and> \<not> seq_taken evs (ce_seq ` set (events_of cid s)) {} then events_of cid s @ evs else events_of x s)"
    by (simp add: append_competition_events_def Let_def events_of_def update_conv')
  then show ?case using events [of x] events [of cid] by (auto simp: seq_taken_iff)
qed (simp_all add: events_of_other_steps competition_writes)

lemma step_rows: "store_step s s' \<Longrightarrow> rows_numbered s \<Longrightarrow> rows_numbered s'"
proof (induction rule: store_step.induct)
  case (runtime s rows)
  then show ?case by (simp add: append_runtime_events_snd append_rows_numbered)
qed (auto simp: rows_numbered_def competition_writes on_competition_def other_writes split: option.splits sum.splits)

lemma step_ok: "store_step s s' \<Longrightarrow> store_ok s \<Longrightarrow> store_ok s'"
  unfolding store_ok_def using step_rosters step_events step_rows by meson

lemma new_store_ok: "store_ok new_store"
  by (simp add: store_ok_def new_store_def events_of_def rows_numbered_def)

text \<open>
  C26: whatever callers do, in whatever order, the store keeps its invariant: no roster has two entries
  with one agent id or more entries than its size, no event log has two events with one number, and
  runtime events are numbered from one without gaps and without repeated ids.
\<close>

theorem store_invariant:
  assumes "store_step\<^sup>*\<^sup>* new_store s"
  shows "store_ok s"
  using assms by (induction rule: rtranclp_induct) (auto intro: new_store_ok step_ok)

text \<open>
  An instance runs once: from the moment a lease is taken, later steps keep its ids and move its
  status forward only, a released or failed lease never changes again, and every other claim for the
  instance is refused.
\<close>

theorem lease_is_exclusive_and_forward:
  assumes "store_step\<^sup>*\<^sup>* s s'" and "get_instance_lease iid s = Some l"
  shows "\<exists>l'. get_instance_lease iid s' = Some l'
    \<and> le_run_id l' = le_run_id l \<and> le_session_id l' = le_session_id l \<and> le_runtime_agent_id l' = le_runtime_agent_id l
    \<and> lease_status_rank (le_status l) \<le> lease_status_rank (le_status l')
    \<and> (le_status l \<in> {RELEASED, FAILED} \<longrightarrow> l' = l)
    \<and> (\<forall>other. le_instance_id other = iid \<longrightarrow> acquire_instance_lease other s' = (Inl DuplicateLeaseError, s'))"
proof -
  obtain l' where l': "get_instance_lease iid s' = Some l'" "lease_le l l'"
    using lease_cell.run_le [OF assms] by blast
  have max: "lease_status_rank st \<le> 2" for st by (cases st) simp_all
  from l'(2) have "le_run_id l' = le_run_id l \<and> le_session_id l' = le_session_id l \<and> le_runtime_agent_id l' = le_runtime_agent_id l"
    by (cases l; cases l') (auto simp: lease_le_def)
  moreover have "lease_status_rank (le_status l) \<le> lease_status_rank (le_status l')"
    using l'(2) by (auto simp: lease_le_def)
  moreover have "le_status l \<in> {RELEASED, FAILED} \<longrightarrow> l' = l"
    using l'(2) max [of "le_status l'"] by (auto simp: lease_le_def)
  moreover have "\<forall>other. le_instance_id other = iid \<longrightarrow> acquire_instance_lease other s' = (Inl DuplicateLeaseError, s')"
    using l'(1) by (simp add: acquire_instance_lease_def get_instance_lease_def)
  ultimately show ?thesis using l'(1) by blast
qed

text \<open>
  C27: a deployment is claimed once and only moves forward: from the moment an idempotency key is
  claimed, later steps keep what the claim pinned (attempt, fingerprint, target instance), move its
  status forward only, never change an external id once it is recorded, and refuse every other
  claim of the key.
\<close>

theorem deployment_claim_is_forward:
  assumes "store_step\<^sup>*\<^sup>* s s'" and "get_deployment_attempt_by_key op k s = Some a"
  shows "\<exists>a'. get_deployment_attempt_by_key op k s' = Some a'
    \<and> da_attempt_id a' = da_attempt_id a \<and> da_config_fingerprint a' = da_config_fingerprint a \<and> da_instance_id a' = da_instance_id a
    \<and> (a' = a \<or> status_rank (da_status a) < status_rank (da_status a'))
    \<and> (\<forall>x. da_external_id a = Some x \<longrightarrow> da_external_id a' = Some x)
    \<and> (\<forall>other. da_operator_id other = op \<longrightarrow> da_idempotency_key other = k
         \<longrightarrow> persist_deployment_attempt other s' = (Inl DuplicateAttemptError, s'))"
proof -
  obtain a' where a': "get_deployment_attempt_by_key op k s' = Some a'" "attempt_le a a'"
    using attempt_cell.run_le [OF assms] by blast
  from a'(2) have "da_attempt_id a' = da_attempt_id a \<and> da_config_fingerprint a' = da_config_fingerprint a \<and> da_instance_id a' = da_instance_id a"
    by (cases a; cases a') (auto simp: attempt_le_def)
  moreover have "a' = a \<or> status_rank (da_status a) < status_rank (da_status a')"
    and "\<forall>x. da_external_id a = Some x \<longrightarrow> da_external_id a' = Some x" using a'(2) by (auto simp: attempt_le_def)
  moreover have "\<forall>other. da_operator_id other = op \<longrightarrow> da_idempotency_key other = k
         \<longrightarrow> persist_deployment_attempt other s' = (Inl DuplicateAttemptError, s')"
    using a'(1) by (simp add: persist_deployment_attempt_def get_deployment_attempt_by_key_def Let_def)
  ultimately show ?thesis using a'(1) by blast
qed

section \<open>Racing for a claim\<close>

text \<open>Attempts one after another, in the order their steps happen; which of them succeed.\<close>

fun race :: "('op \<Rightarrow> ('s, 'r) eff) \<Rightarrow> 'op list \<Rightarrow> 's \<Rightarrow> bool list \<times> 's" where
  "race f [] s = ([], s)"
| "race f (op # ops) s =
     (case f op s of (r, s') \<Rightarrow> case race f ops s' of (ws, s'') \<Rightarrow> ((\<exists>x. r = Inr x) # ws, s''))"

text \<open>A compare-and-set: it succeeds only on the expected value, which it replaces, and otherwise changes nothing.\<close>

locale cas_cell =
  fixes inv :: "'s \<Rightarrow> bool"
    and cell :: "'s \<Rightarrow> 'v option"
    and cas :: "'op \<Rightarrow> ('s, 'r) eff"
    and expected :: "'op \<Rightarrow> 'v"
    and new :: "'op \<Rightarrow> 'v"
  assumes wins: "inv s \<Longrightarrow> cas op s = (Inr r, s') \<Longrightarrow> cell s = Some (expected op) \<and> cell s' = Some (new op) \<and> inv s'"
    and loses: "cas op s = (Inl e, s') \<Longrightarrow> s' = s"
begin

lemma too_late:
  "inv s \<Longrightarrow> cell s \<noteq> Some v \<Longrightarrow> \<forall>op \<in> set ops. expected op = v \<Longrightarrow> race cas ops s = (map (\<lambda>_. False) ops, s)"
proof (induction ops)
  case (Cons op ops)
  obtain r s' where r: "cas op s = (r, s')" by fastforce
  with Cons.prems wins [of s op] obtain e where e: "r = Inl e" by (cases r) auto
  with r have "s' = s" using loses by blast
  with r e Cons show ?case by auto
qed simp

lemma at_most_one:
  "inv s \<Longrightarrow> \<forall>op \<in> set ops. expected op = v \<and> new op \<noteq> v \<Longrightarrow> length (filter id (fst (race cas ops s))) \<le> 1"
proof (induction ops)
  case (Cons op ops)
  obtain r s' where r: "cas op s = (r, s')" by fastforce
  show ?case
  proof (cases r)
    case (Inl e)
    with r loses have "s' = s" by blast
    with r Inl Cons show ?thesis by (auto split: prod.split)
  next
    case (Inr x)
    with r wins [OF Cons.prems(1)] have "cell s' = Some (new op)" "inv s'" by blast+
    then have "race cas ops s' = (map (\<lambda>_. False) ops, s')"
      using Cons.prems(2) by (intro too_late [of s' v]) auto
    moreover have "filter id (map (\<lambda>_. False) ops) = []" by (simp add: filter_empty_conv)
    ultimately show ?thesis using r Inr by (simp add: case_prod_beta)
  qed
qed simp

end

interpretation claim_cell: cas_cell "\<lambda>_. True" "\<lambda>s. map_option co_status (map_of (st_competitions s) cid)"
  "\<lambda>(e, n, rid). claim_competition_run cid e n rid" "\<lambda>(e, n, rid). e" "\<lambda>(e, n, rid). n"
  by unfold_locales (auto simp: claim_competition_run_def on_competition_def update_conv' split: option.splits sum.splits if_splits)

lemma find_update:
  "dict_ok d \<Longrightarrow> List.find P d = Some (k, a) \<Longrightarrow> P (k, a') \<Longrightarrow> List.find P (AList.update k a' d) = Some (k, a')"
proof (induction d)
  case (Cons x d)
  obtain k' b where x: "x = (k', b)" by fastforce
  show ?case
  proof (cases "P x")
    case True
    with Cons.prems show ?thesis by (simp add: x)
  next
    case False
    with Cons.prems have f: "List.find P d = Some (k, a)" by simp
    then have "(k, a) \<in> set d" by (metis find_Some_iff nth_mem)
    with Cons.prems(1) have "k' \<noteq> k" by (force simp: dict_ok_def x)
    with False Cons f show ?thesis by (simp add: x dict_ok_def)
  qed
qed simp

interpretation attempt_cas: cas_cell "\<lambda>s. dict_ok (st_deployment_attempts s)"
  "\<lambda>s. map_option da_status (get_deployment_attempt aid s)"
  "\<lambda>(e, n, ext). advance_deployment_attempt aid e n ext" "\<lambda>(e, n, ext). e" "\<lambda>(e, n, ext). n"
proof (unfold_locales, goal_cases)
  case (1 s op r s')
  obtain e n ext where op: "op = (e, n, ext)" by (cases op) auto
  from advance_le [of aid e n ext s r s'] 1(2) obtain key a where
    key: "find_attempt_key aid s = Some key" and a: "map_of (st_deployment_attempts s) key = Some a"
    and st: "da_status a = e" "da_status r = n" "attempt_le a r"
    and s': "s' = s\<lparr>st_deployment_attempts := AList.update key r (st_deployment_attempts s)\<rparr>" by (auto simp: op)
  have ids: "da_attempt_id r = da_attempt_id a" using st(3) by (cases a; cases r) (auto simp: attempt_le_def)
  obtain b where b: "List.find (\<lambda>(key, x). da_attempt_id x = aid) (st_deployment_attempts s) = Some (key, b)"
    using key by (auto simp: find_attempt_key_def)
  then have "(key, b) \<in> set (st_deployment_attempts s) \<and> da_attempt_id b = aid"
    by (metis (mono_tags, lifting) case_prod_conv find_Some_iff nth_mem)
  moreover from this have "map_of (st_deployment_attempts s) key = Some b" using 1(1) by (simp add: dict_ok_def)
  ultimately have "b = a" "da_attempt_id a = aid" using a by auto
  with b ids find_update [OF 1(1) b, of r] have "find_attempt_key aid s' = Some key"
    by (simp add: find_attempt_key_def s')
  then show ?case using 1(1) key a st by (auto simp: get_deployment_attempt_def s' op update_conv')
next
  case (2 op s e s')
  obtain x n ext where op: "op = (x, n, ext)" by (cases op) auto
  from 2 show ?case
    by (cases rule: advance_cases [of aid x n ext s]) (simp_all add: op)
qed

text \<open>
  One start wins: of any number of requests that claim a drafted competition, in the order their
  claims reach the store, the first succeeds and pins its run id, and every other one is refused. Of
  any number of workers that advance a deployment attempt from the same status, at most one succeeds.
\<close>

theorem one_claim_wins:
  assumes "map_of (st_competitions s) cid = Some c" and "co_status c = DRAFT"
    and "dict_ok (st_deployment_attempts s)" and "\<forall>op \<in> set ops. fst op = e \<and> fst (snd op) \<noteq> e"
  shows "fst (race (\<lambda>run_id. claim_competition_run cid DRAFT RUNNING run_id) (run_id # run_ids) s) = True # map (\<lambda>_. False) run_ids
    \<and> map_of (st_competitions (snd (race (\<lambda>run_id. claim_competition_run cid DRAFT RUNNING run_id) (run_id # run_ids) s))) cid
        = Some (c\<lparr>co_status := RUNNING, co_run_id := Some run_id\<rparr>)
    \<and> length (filter id (fst (race (\<lambda>(e, n, ext). advance_deployment_attempt aid e n ext) ops s))) \<le> 1"
proof -
  let ?claim = "\<lambda>run_id. claim_competition_run cid DRAFT RUNNING run_id"
  let ?s' = "s\<lparr>st_competitions := AList.update cid (c\<lparr>co_status := RUNNING, co_run_id := Some run_id\<rparr>) (st_competitions s)\<rparr>"
  have first: "?claim run_id s = (Inr (), ?s')"
    using assms(1,2) by (simp add: claim_competition_run_def on_competition_def)
  have "?claim rid ?s' = (Inl CompetitionStatusClaimError, ?s')" for rid
    by (simp add: claim_competition_run_def on_competition_def update_conv')
  then have "race ?claim run_ids ?s' = (map (\<lambda>_. False) run_ids, ?s')"
    by (induction run_ids) simp_all
  moreover have "length (filter id (fst (race (\<lambda>(e, n, ext). advance_deployment_attempt aid e n ext) ops s))) \<le> 1"
    using assms(3,4) by (intro attempt_cas.at_most_one [where v = e]) auto
  ultimately show ?thesis using first by (simp add: update_conv')
qed

section \<open>The runtime-event feed\<close>

lemma append_rows_seen: "rt_event_uuid ` set rows \<subseteq> st_runtime_event_uuids s \<Longrightarrow> append_rows rows n s = (n, s)"
  by (induction rows) auto

lemma append_rows_uuids:
  "st_runtime_event_uuids (snd (append_rows rows n s)) = st_runtime_event_uuids s \<union> rt_event_uuid ` set rows"
  by (induction rows arbitrary: n s) auto

lemma rows_sorted: "rows_numbered s \<Longrightarrow> sorted_wrt (<) (map rt_id (st_runtime_events s))"
proof -
  assume "rows_numbered s"
  then have ids: "map rt_id (st_runtime_events s) = map (\<lambda>i. int i + 1) [0 ..< length (st_runtime_events s)]"
    by (simp add: rows_numbered_def)
  show ?thesis unfolding ids by (auto simp: sorted_wrt_iff_nth_less)
qed

lemma sorted_after_take:
  fixes key :: "'a \<Rightarrow> int"
  assumes "sorted_wrt (<) (map key xs)" and "ys = take n xs" and "ys \<noteq> []"
  shows "ys @ filter (\<lambda>x. key x > key (last ys)) xs = xs"
proof -
  have split: "xs = ys @ drop n xs" by (simp add: assms(2))
  have before: "\<forall>x \<in> set ys. key x \<le> key (last ys)"
  proof
    fix x assume "x \<in> set ys"
    moreover have "sorted (map key ys)"
      using assms(1) unfolding assms(2) by (metis strict_sorted_imp_sorted sorted_wrt_take take_map)
    ultimately show "key x \<le> key (last ys)" by (rule sorted_le_last [rotated])
  qed
  have after: "\<forall>x \<in> set (drop n xs). key (last ys) < key x"
  proof -
    have "sorted_wrt (<) (map key ys @ map key (drop n xs))"
      using assms(1) by (simp add: assms(2) flip: map_append)
    then show ?thesis using last_in_set [OF assms(3)] by (auto simp: sorted_wrt_append)
  qed
  have "filter (\<lambda>x. key x > key (last ys)) (ys @ drop n xs) = drop n xs"
    using before after by (auto simp: filter_empty_conv filter_id_conv)
  then show ?thesis using split by metis
qed

lemma page_eq:
  assumes "rows_numbered s"
  shows "page belongs since None s = filter (\<lambda>r. belongs r \<and> rt_id r > since) (st_runtime_events s)"
    and "page belongs since (Some n) s = take n (page belongs since None s)"
    and "sorted_wrt (<) (map rt_id (page belongs since None s))"
proof -
  have sorted: "sorted_wrt (<) (map rt_id (filter P (st_runtime_events s)))" for P
    using rows_sorted [OF assms] by (simp add: sorted_wrt_map sorted_wrt_filter)
  show p: "page belongs since None s = filter (\<lambda>r. belongs r \<and> rt_id r > since) (st_runtime_events s)"
    by (simp add: page_def Let_def sort_key_id_if_sorted strict_sorted_imp_sorted [OF sorted])
  show "page belongs since (Some n) s = take n (page belongs since None s)" by (simp add: page_def Let_def)
  show "sorted_wrt (<) (map rt_id (page belongs since None s))" unfolding p by (rule sorted)
qed

text \<open>
  The telemetry feed delivers each event once: appending a batch again inserts nothing and leaves
  the store as it is, and a reader that takes pages of any positive size, each from the id of the last
  event it saw, reads exactly the rows of one unbounded read, in order and without repeats.
\<close>

theorem runtime_feed_exactly_once:
  assumes "store_step\<^sup>*\<^sup>* new_store s" and "0 < n"
    and "p = list_runtime_events agent_id since (Some n) s"
  shows "(let s' = snd (append_runtime_events rows s) in append_runtime_events rows s' = (Inr 0, s'))
    \<and> p @ list_runtime_events agent_id (if p = [] then since else rt_id (last p)) None s = list_runtime_events agent_id since None s
    \<and> length p \<le> n \<and> (p = [] \<longrightarrow> list_runtime_events agent_id since None s = [])"
proof -
  have ok: "rows_numbered s"
    using assms(1) by (induction rule: rtranclp_induct) (use new_store_ok step_rows in \<open>auto simp: store_ok_def\<close>)
  let ?all = "list_runtime_events agent_id since None s"
  note pages = page_eq [OF ok, of "\<lambda>r. rt_agent_id r = agent_id"]
  have p: "p = take n ?all" by (simp add: assms(3) list_runtime_events_def pages(2))
  have rest: "list_runtime_events agent_id (rt_id (last p)) None s = filter (\<lambda>r. rt_id r > rt_id (last p)) ?all" if "p \<noteq> []"
  proof -
    have "last p \<in> set ?all" using that by (metis last_in_set p in_set_takeD)
    then have "since < rt_id (last p)" by (auto simp: list_runtime_events_def pages(1))
    then show ?thesis by (auto simp: list_runtime_events_def pages(1) intro: filter_cong)
  qed
  have "p @ list_runtime_events agent_id (rt_id (last p)) None s = ?all" if "p \<noteq> []"
    unfolding rest [OF that] using sorted_after_take [OF pages(3), of p n since] p that
    by (simp add: list_runtime_events_def)
  moreover have "append_runtime_events rows (snd (append_runtime_events rows s)) = (Inr 0, snd (append_runtime_events rows s))"
    unfolding append_runtime_events_snd
    by (simp add: append_runtime_events_def append_rows_seen append_rows_uuids)
  moreover have "p = [] \<Longrightarrow> ?all = []" using p assms(2) by simp
  moreover have "length p \<le> n" by (simp add: p)
  ultimately show ?thesis by (cases "p = []") (simp_all add: Let_def)
qed

section \<open>Frozen rosters\<close>

lemma entries_on_competition:
  assumes "map_of (st_competitions s) x = Some c" and "map_of (st_competitions (snd (on_competition cid f s))) x = Some c'"
  obtains "c' = c" | "x = cid" "f c = Inr c'"
  using assms by (auto simp: on_competition_def update_conv' split: option.splits sum.splits if_splits)

lemma entries_kept:
  assumes "map_of (st_competitions s) x = Some c" and "map_of (st_competitions (snd (on_competition cid f s))) x = Some c'"
    and "\<And>c c'. f c = Inr c' \<Longrightarrow> co_entries c' = co_entries c"
  shows "co_entries c' = co_entries c"
  using entries_on_competition [OF assms(1,2)] assms(3) by metis

lemma entries_of_other_steps:
  "map_of (st_competitions s) x = Some c \<Longrightarrow> map_of (st_competitions (snd (create_competition d s))) x = Some c"
  "st_competitions (snd (persist_run r s)) = st_competitions s"
  "st_competitions (snd (append_competition_events cid evs s)) = st_competitions s"
  "st_competitions (snd (persist_agent_instance i s)) = st_competitions s"
  "st_competitions (snd (update_agent_instance_status iid st reason ts s)) = st_competitions s"
  "st_competitions (snd (persist_deployment_attempt a s)) = st_competitions s"
  "st_competitions (snd (advance_deployment_attempt aid from_st to_st ext s)) = st_competitions s"
  "st_competitions (snd (acquire_instance_lease l s)) = st_competitions s"
  "st_competitions (snd (release_instance_lease iid ls ts s)) = st_competitions s"
  "st_competitions (snd (append_runtime_events rows s)) = st_competitions s"
  by (auto simp: other_writes update_conv' split: option.split sum.split)

text \<open>
  A roster changes only while the competition takes entries: any step that changes the entries of
  a competition finds it drafted or open, adds exactly one entry at the end, with an agent id the
  roster did not have and with room for it. So a registration that races a start cannot change a
  roster the start has claimed.
\<close>

theorem roster_changes_only_while_open:
  assumes "store_step s s'" and "map_of (st_competitions s) x = Some c" and "map_of (st_competitions s') x = Some c'"
    and "co_entries c' \<noteq> co_entries c"
  shows "co_status c \<in> {DRAFT, OPEN_FOR_ENTRIES} \<and> (\<exists>y. co_entries c' = co_entries c @ [y]
    \<and> ae_agent_id y \<notin> ae_agent_id ` set (co_entries c) \<and> int (length (co_entries c)) < cc_roster_size (co_config c))"
  using assms
proof (induction rule: store_step.induct)
  case (entry mutable_statuses s cid y)
  show ?case
  proof (cases rule: entries_on_competition [OF entry(2) entry(3) [unfolded add_agent_entry_guarded_def]])
    case 1
    with entry(4) show ?thesis by simp
  next
    case 2
    with entry(1) show ?thesis by (auto split: if_splits) blast
  qed
next
  case status
  have "co_entries c' = co_entries c"
    by (rule entries_kept [OF status(1) status(2) [unfolded update_competition_status_def]]) (auto split: if_splits)
  with status(3) show ?case by simp
next
  case claim
  have "co_entries c' = co_entries c"
    by (rule entries_kept [OF claim(1) claim(2) [unfolded claim_competition_run_def]]) (auto split: if_splits)
  with claim(3) show ?case by simp
next
  case release
  have "co_entries c' = co_entries c"
    by (rule entries_kept [OF release(1) release(2) [unfolded release_competition_run_def]]) (auto split: if_splits)
  with release(3) show ?case by simp
next
  case run_id
  have "co_entries c' = co_entries c"
    by (rule entries_kept [OF run_id(1) run_id(2) [unfolded update_competition_run_id_def]]) (auto split: if_splits)
  with run_id(3) show ?case by simp
next
  case config
  have "co_entries c' = co_entries c"
    by (rule entries_kept [OF config(2) config(3) [unfolded update_competition_config_def]]) (auto split: if_splits)
  with config(4) show ?case by simp
next
  case binding
  have "co_entries c' = co_entries c"
    by (rule entries_kept [OF binding(1) binding(2) [unfolded update_competition_replay_binding_def]]) (auto split: if_splits)
  with binding(3) show ?case by simp
next
  case (create d s)
  with entries_of_other_steps(1) [OF create(3), of d] show ?case by simp
qed (simp_all add: entries_of_other_steps)

section \<open>A sample store\<close>

definition demo_config :: "execution_mode \<Rightarrow> competition_config" where
  "demo_config mode = \<lparr>cc_competition_type = REPLAY_ARENA, cc_source_mode = ''replay'', cc_execution_mode = mode, cc_market_scope = ''WC'',
     cc_scoring_window = None, cc_roster_size = 2, cc_division = None, cc_reward_policy = None, cc_prize_vault_ref = None,
     cc_operator_id = None, cc_policy_envelope = None, cc_pack_id = None, cc_fixture_id = None\<rparr>"

definition demo_competition :: "execution_mode \<Rightarrow> competition" where
  "demo_competition mode = \<lparr>co_competition_id = ''c'', co_config = demo_config mode, co_status = DRAFT, co_entries = [],
     co_run_id = None, co_owner_id = None, co_replay_binding = None\<rparr>"

definition demo_entry :: agent_entry where
  "demo_entry = \<lparr>ae_agent_id = ''a'', ae_owner = ''o'', ae_strategy = ''value'', ae_model = None, ae_proof_mode = ''reproducible'',
     ae_config_hash = None, ae_execution_eligibility = False, ae_instance_id = None\<rparr>"

definition demo_lease :: instance_lease where
  "demo_lease = \<lparr>le_instance_id = ''i'', le_runtime_agent_id = ''ra'', le_session_id = ''s'', le_run_id = ''r'', le_status = STARTING,
     le_operator_id = ''o'', le_created_at = ''t'', le_updated_at = ''t''\<rparr>"

definition demo_attempt :: deployment_attempt where
  "demo_attempt = \<lparr>da_attempt_id = ''d'', da_operator_id = ''o'', da_idempotency_key = ''k'', da_config_fingerprint = ''f'',
     da_status = PENDING, da_created_at = ''t'', da_instance_id = Some ''i'', da_external_id = None\<rparr>"

definition demo_telemetry :: "string \<Rightarrow> runtime_event_row" where
  "demo_telemetry u = \<lparr>rt_id = 0, rt_event_uuid = u, rt_agent_id = ''a'', rt_run_id = None, rt_session_id = None,
     rt_event_type = ''tick'', rt_ts = 0, rt_channel = ''OPS'', rt_payload = VDict []\<rparr>"

definition drafted_store :: "execution_mode \<Rightarrow> store" where
  "drafted_store mode = snd (create_competition (demo_competition mode) new_store)"

lemma drafted_store:
  "store_step\<^sup>*\<^sup>* new_store (drafted_store mode)" "map_of (st_competitions (drafted_store mode)) ''c'' = Some (demo_competition mode)"
proof -
  have "store_step new_store (drafted_store mode)"
    unfolding drafted_store_def by (rule store_step.create) (simp_all add: demo_competition_def demo_config_def)
  then show "store_step\<^sup>*\<^sup>* new_store (drafted_store mode)" by blast
  show "map_of (st_competitions (drafted_store mode)) ''c'' = Some (demo_competition mode)"
    by (simp add: drafted_store_def create_competition_def demo_competition_def new_store_def Let_def)
qed

lemma demo_keys: "le_instance_id demo_lease = ''i''" "da_operator_id demo_attempt = ''o''" "da_idempotency_key demo_attempt = ''k''"
  by (simp_all add: demo_lease_def demo_attempt_def)

theorem store_invariant_witness: "store_ok (drafted_store PAPER)"
  by (rule store_invariant [OF drafted_store(1)])

theorem lease_is_exclusive_and_forward_witness:
  "acquire_instance_lease demo_lease (snd (release_instance_lease ''i'' RELEASED ''u'' (snd (acquire_instance_lease demo_lease new_store))))
    = (Inl DuplicateLeaseError, snd (release_instance_lease ''i'' RELEASED ''u'' (snd (acquire_instance_lease demo_lease new_store))))"
proof -
  let ?s = "snd (acquire_instance_lease demo_lease new_store)"
  have "get_instance_lease ''i'' ?s = Some demo_lease"
    by (simp add: get_instance_lease_def acquire_instance_lease_def new_store_def demo_lease_def)
  moreover have "store_step\<^sup>*\<^sup>* ?s (snd (release_instance_lease ''i'' RELEASED ''u'' ?s))"
    using store_step.lease [of ?s "''i''" RELEASED "''u''"] by blast
  ultimately show ?thesis
    using lease_is_exclusive_and_forward [of ?s "snd (release_instance_lease ''i'' RELEASED ''u'' ?s)" "''i''" demo_lease]
      demo_keys by blast
qed

theorem deployment_claim_is_forward_witness:
  "persist_deployment_attempt demo_attempt (snd (advance_deployment_attempt ''d'' PENDING SUCCEEDED None (snd (persist_deployment_attempt demo_attempt new_store))))
    = (Inl DuplicateAttemptError, snd (advance_deployment_attempt ''d'' PENDING SUCCEEDED None (snd (persist_deployment_attempt demo_attempt new_store))))"
proof -
  let ?s = "snd (persist_deployment_attempt demo_attempt new_store)"
  have "get_deployment_attempt_by_key ''o'' ''k'' ?s = Some demo_attempt"
    by (simp add: get_deployment_attempt_by_key_def persist_deployment_attempt_def new_store_def demo_attempt_def Let_def)
  moreover have "store_step\<^sup>*\<^sup>* ?s (snd (advance_deployment_attempt ''d'' PENDING SUCCEEDED None ?s))"
    using store_step.advance [of ?s "''d''" PENDING SUCCEEDED None] by blast
  ultimately show ?thesis
    using deployment_claim_is_forward [of ?s "snd (advance_deployment_attempt ''d'' PENDING SUCCEEDED None ?s)" "''o''" "''k''" demo_attempt]
      demo_keys by blast
qed

theorem one_claim_wins_witness:
  "fst (race (\<lambda>run_id. claim_competition_run ''c'' DRAFT RUNNING run_id) [''r1'', ''r2'', ''r3''] (drafted_store PAPER)) = [True, False, False]"
  using one_claim_wins [of "drafted_store PAPER" "''c''" "demo_competition PAPER" "[(PENDING, SUCCEEDED, None)]" PENDING "''r1''" "[''r2'', ''r3'']"]
  by (simp add: drafted_store(2)) (simp add: demo_competition_def drafted_store_def create_competition_def new_store_def dict_ok_def Let_def)

theorem runtime_feed_exactly_once_witness:
  "map rt_id (list_runtime_events ''a'' 0 None (snd (append_runtime_events [demo_telemetry ''u'', demo_telemetry ''v''] new_store))) = [1, 2]
    \<and> list_runtime_events ''a'' 0 (Some 1) (snd (append_runtime_events [demo_telemetry ''u'', demo_telemetry ''v''] new_store))
      @ list_runtime_events ''a'' 1 None (snd (append_runtime_events [demo_telemetry ''u'', demo_telemetry ''v''] new_store))
      = list_runtime_events ''a'' 0 None (snd (append_runtime_events [demo_telemetry ''u'', demo_telemetry ''v''] new_store))"
proof -
  let ?s = "snd (append_runtime_events [demo_telemetry ''u'', demo_telemetry ''v''] new_store)"
  have "store_step\<^sup>*\<^sup>* new_store ?s" using store_step.runtime [of new_store "[demo_telemetry ''u'', demo_telemetry ''v'']"] by blast
  from runtime_feed_exactly_once [OF this, of 1 _ "''a''" 0 "[]"] show ?thesis
    by (simp add: list_runtime_events_def page_def append_runtime_events_snd new_store_def demo_telemetry_def)
qed

theorem roster_changes_only_while_open_witness:
  "co_status (demo_competition PAPER) \<in> {DRAFT, OPEN_FOR_ENTRIES}
    \<and> store_step (drafted_store PAPER) (snd (add_agent_entry_guarded ''c'' demo_entry {DRAFT, OPEN_FOR_ENTRIES} (drafted_store PAPER)))"
proof -
  let ?s = "drafted_store PAPER"
  have step: "store_step ?s (snd (add_agent_entry_guarded ''c'' demo_entry {DRAFT, OPEN_FOR_ENTRIES} ?s))"
    by (rule store_step.entry) simp
  have "map_of (st_competitions (snd (add_agent_entry_guarded ''c'' demo_entry {DRAFT, OPEN_FOR_ENTRIES} ?s))) ''c''
      = Some ((demo_competition PAPER)\<lparr>co_entries := [demo_entry]\<rparr>)"
    using drafted_store(2) [of PAPER]
    by (simp add: add_agent_entry_guarded_def on_competition_def update_conv') (simp add: demo_competition_def demo_config_def)
  from roster_changes_only_while_open [OF step drafted_store(2) this] step show ?thesis
    by (simp add: demo_competition_def)
qed

end
