(* ===== verification/Proposals.thy ===== *)
theory Proposals
  imports Event_Log
begin

text \<open>
  From a sealed run to execution candidates (\<open>src/veridex/strategies/value.py\<close>) and the explanatory
  price arithmetic shown beside the law's edge (\<open>src/veridex/execution/legibility.py\<close>). Only sealed
  score rows and sealed events are read.
\<close>

section \<open>Candidates (\<open>strategies/value.py\<close>)\<close>

record proposal =
  pp_agent_id :: string
  pp_source_sequence_no :: int
  pp_tick_seq :: int
  pp_market_key :: string
  pp_side :: string
  pp_recomputed_edge_bps :: int
  pp_kelly_fraction :: pyfloat
  pp_reference_price :: pyfloat
  pp_entry_prob_bps :: int

text \<open>
  The walk over the sealed events. The index is looked up with the agent ids of score rows, which are
  strings: a decision whose agent id is another hashable value adds an entry no lookup can meet, one
  whose id cannot be hashed raises.
\<close>

fun decision_walk ::
  "codec \<Rightarrow> (string \<Rightarrow> int option) \<Rightarrow> run_event list \<Rightarrow> int option \<Rightarrow> (string \<times> int, int) dict \<Rightarrow> (string \<times> int, int) dict result" where
  "decision_walk cd parse_int [] current idx = Inr idx"
| "decision_walk cd parse_int (ev # evs) current idx =
     (if re_event_type ev = ''tick'' then
        rbind (loads_or_empty cd (re_state_snapshot_json ev)) (\<lambda>snapshot.
        rbind (vget ''tick_seq'' VNone snapshot) (\<lambda>tick_seq.
          if tick_seq = VNone then decision_walk cd parse_int evs current idx
          else rbind (to_int parse_int tick_seq) (\<lambda>n. decision_walk cd parse_int evs (Some n) idx)))
      else case (re_event_type ev = ''decision'', current) of
        (True, Some n) \<Rightarrow>
          rbind (loads_or_empty cd (re_result_payload_json ev)) (\<lambda>res.
          rbind (vget ''agent_id'' VNone res) (\<lambda>agent_id.
          rbind (str_key agent_id) (\<lambda>k.
            decision_walk cd parse_int evs current
              (case k of None \<Rightarrow> idx | Some a \<Rightarrow> AList.update (a, n) (re_sequence_no ev) idx))))
      | _ \<Rightarrow> decision_walk cd parse_int evs current idx)"

definition decision_seq_index ::
  "codec \<Rightarrow> (string \<Rightarrow> int option) \<Rightarrow> run_event list \<Rightarrow> (string \<times> int, int) dict result" where
  "decision_seq_index cd parse_int run_events = decision_walk cd parse_int (sort_key re_sequence_no run_events) None []"

fun entry_market_walk ::
  "codec \<Rightarrow> (string \<Rightarrow> int option) \<Rightarrow> run_event list \<Rightarrow> (int, pyval) dict \<Rightarrow> (int, pyval) dict result" where
  "entry_market_walk cd parse_int [] idx = Inr idx"
| "entry_market_walk cd parse_int (ev # evs) idx =
     (if re_event_type ev \<noteq> ''tick'' then entry_market_walk cd parse_int evs idx
      else
        rbind (loads_or_empty cd (re_state_snapshot_json ev)) (\<lambda>snapshot.
        rbind (vget ''tick_seq'' VNone snapshot) (\<lambda>tick_seq.
          if tick_seq = VNone then entry_market_walk cd parse_int evs idx
          else rbind (to_int parse_int tick_seq) (\<lambda>n.
               rbind (vget ''markets'' (VDict []) snapshot) (\<lambda>markets.
                 entry_market_walk cd parse_int evs (AList.update n (py_or markets (VDict [])) idx))))))"

definition entry_market_index ::
  "codec \<Rightarrow> (string \<Rightarrow> int option) \<Rightarrow> run_event list \<Rightarrow> (int, pyval) dict result" where
  "entry_market_index cd parse_int run_events = entry_market_walk cd parse_int run_events []"

text \<open>\<open>d.get(key, dflt)\<close> with a key that may be any value, on a value that may not be a dict.\<close>

definition vget_key :: "pyval \<Rightarrow> pyval \<Rightarrow> pyval \<Rightarrow> pyval result" where
  "vget_key key dflt v = (case v of
     VDict d \<Rightarrow> rbind (str_key key) (\<lambda>k. Inr (case Option.bind k (map_of d) of None \<Rightarrow> dflt | Some x \<Rightarrow> x))
   | _ \<Rightarrow> Inl AttributeError)"

text \<open>\<open>float(x) if isinstance(x, (int, float)) and not isinstance(x, bool) else 0.0\<close>.\<close>

definition number_or_zero :: "pyval \<Rightarrow> pyfloat result" where
  "number_or_zero v = (case v of VInt n \<Rightarrow> float_of_int n | VFloat x \<Rightarrow> Inr x | _ \<Rightarrow> Inr fl_zero)"

definition proposal_params :: "score_row \<Rightarrow> pyval result" where
  "proposal_params row =
     rbind (vget ''raw_prescore'' (VDict []) (VDict (sr_fields row))) (\<lambda>prescore.
     rbind (vget ''raw_action'' (VDict []) prescore) (\<lambda>raw.
     rbind (vget ''params'' (VDict []) raw) (\<lambda>params. Inr (py_or params (VDict [])))))"

text \<open>The last field of a row: the market of its tick, and the constructor's check that the ids are text.\<close>

definition complete_proposal ::
  "(int, pyval) dict \<Rightarrow> score_row \<Rightarrow> int \<Rightarrow> pyval \<Rightarrow> pyval \<Rightarrow> int \<Rightarrow> proposal result" where
  "complete_proposal entry_index row edge market_key side source_seq =
     rbind (number_or_zero (row_get row ''kelly_fraction'')) (\<lambda>kelly.
     rbind (vget_key market_key (VDict []) (case map_of entry_index (sr_tick_seq row) of None \<Rightarrow> VDict [] | Some ms \<Rightarrow> ms)) (\<lambda>market.
     rbind (vget ''stable_price'' VNone market) (\<lambda>prices.
     rbind (vget_key side VNone (py_or prices (VDict []))) (\<lambda>price_raw.
     rbind (number_or_zero price_raw) (\<lambda>reference_price.
     rbind (vget ''stable_prob_bps'' VNone market) (\<lambda>probs.
     rbind (vget_key side VNone (py_or probs (VDict []))) (\<lambda>prob_raw.
       case (market_key, side) of
         (VStr mk, VStr sd) \<Rightarrow>
           Inr \<lparr>pp_agent_id = sr_agent_id row, pp_source_sequence_no = source_seq, pp_tick_seq = sr_tick_seq row,
                pp_market_key = mk, pp_side = sd, pp_recomputed_edge_bps = edge, pp_kelly_fraction = kelly,
                pp_reference_price = reference_price,
                pp_entry_prob_bps = (case prob_raw of VInt n \<Rightarrow> n | _ \<Rightarrow> 0)\<rparr>
       | _ \<Rightarrow> Inl ValueError)))))))"

definition row_proposal ::
  "int \<Rightarrow> (string \<times> int, int) dict \<Rightarrow> (int, pyval) dict \<Rightarrow> score_row \<Rightarrow> proposal option result" where
  "row_proposal min_edge_bps seq_index entry_index row =
     (if row_get row ''valid'' \<noteq> VBool True then Inr None
      else case row_get row ''recomputed_edge_bps'' of
        VInt edge \<Rightarrow>
          if edge < min_edge_bps then Inr None
          else
            rbind (proposal_params row) (\<lambda>params.
            rbind (vget ''market_key'' VNone params) (\<lambda>market_key.
            rbind (vget ''side'' VNone params) (\<lambda>side.
              if \<not> truthy market_key \<or> \<not> truthy side then Inr None
              else case map_of seq_index (sr_agent_id row, sr_tick_seq row) of
                None \<Rightarrow> Inr None
              | Some source_seq \<Rightarrow>
                  rbind (complete_proposal entry_index row edge market_key side source_seq) (\<lambda>p. Inr (Some p)))))
      | _ \<Rightarrow> Inr None)"

definition value_proposals :: "codec \<Rightarrow> (string \<Rightarrow> int option) \<Rightarrow> sealed_run \<Rightarrow> int \<Rightarrow> proposal list result" where
  "value_proposals cd parse_int r min_edge_bps =
     rbind (decision_seq_index cd parse_int (sl_run_events r)) (\<lambda>seq_index.
     rbind (entry_market_index cd parse_int (sl_run_events r)) (\<lambda>entry_index.
     rbind (rtraverse (row_proposal min_edge_bps seq_index entry_index) (rr_score_rows r)) (\<lambda>ps.
       Inr (sort_key pp_source_sequence_no (List.map_filter id ps)))))"

section \<open>Explanatory prices (\<open>execution/legibility.py\<close>)\<close>

definition venue_implied_prob_bps :: "pyfloat \<Rightarrow> int result" where
  "venue_implied_prob_bps price =
     (if fl_le price fl_zero then Inr 0 else rbind (fl_div (Fin 10000) price) py_round_int)"

definition mispricing_gap_bps :: "int \<Rightarrow> pyfloat \<Rightarrow> int result" where
  "mispricing_gap_bps fair_prob_bps price = rbind (venue_implied_prob_bps price) (\<lambda>p. Inr (fair_prob_bps - p))"

section \<open>Candidates come from the law\<close>

text \<open>The score row a candidate was made from.\<close>

definition made_from :: "score_row \<Rightarrow> int \<Rightarrow> proposal \<Rightarrow> bool" where
  "made_from row min_edge_bps p \<longleftrightarrow>
     pp_agent_id p = sr_agent_id row \<and> pp_tick_seq p = sr_tick_seq row
     \<and> row_get row ''valid'' = VBool True \<and> row_get row ''recomputed_edge_bps'' = VInt (pp_recomputed_edge_bps p)
     \<and> min_edge_bps \<le> pp_recomputed_edge_bps p
     \<and> number_or_zero (row_get row ''kelly_fraction'') = Inr (pp_kelly_fraction p)
     \<and> (\<exists>params. proposal_params row = Inr params \<and> vget ''market_key'' VNone params = Inr (VStr (pp_market_key p))
         \<and> vget ''side'' VNone params = Inr (VStr (pp_side p)))
     \<and> pp_market_key p \<noteq> [] \<and> pp_side p \<noteq> []"

lemma complete_proposal_fields:
  assumes "complete_proposal entry_index row edge market_key side source_seq = Inr p"
  shows "pp_agent_id p = sr_agent_id row \<and> pp_tick_seq p = sr_tick_seq row \<and> pp_source_sequence_no p = source_seq
    \<and> pp_recomputed_edge_bps p = edge \<and> number_or_zero (row_get row ''kelly_fraction'') = Inr (pp_kelly_fraction p)
    \<and> market_key = VStr (pp_market_key p) \<and> side = VStr (pp_side p)"
  using assms unfolding complete_proposal_def
  by (cases market_key; cases side) (auto simp: rbind_Inr_iff)

lemma row_proposal_made_from:
  assumes "row_proposal min_edge_bps seq_index entry_index row = Inr (Some p)"
  shows "made_from row min_edge_bps p
    \<and> map_of seq_index (sr_agent_id row, sr_tick_seq row) = Some (pp_source_sequence_no p)"
proof -
  from assms obtain edge params market_key side source_seq where
    row: "row_get row ''valid'' = VBool True" "row_get row ''recomputed_edge_bps'' = VInt edge" "min_edge_bps \<le> edge"
      "proposal_params row = Inr params" "vget ''market_key'' VNone params = Inr market_key"
      "vget ''side'' VNone params = Inr side" "truthy market_key" "truthy side"
      "map_of seq_index (sr_agent_id row, sr_tick_seq row) = Some source_seq"
      "complete_proposal entry_index row edge market_key side source_seq = Inr p"
    unfolding row_proposal_def
    by (auto simp: rbind_Inr_iff split: if_splits pyval.splits option.splits)
  from complete_proposal_fields [OF row(10)] row show ?thesis by (auto simp: made_from_def)
qed

lemma value_proposals_made_from:
  assumes "value_proposals cd parse_int r min_edge_bps = Inr ps" and "p \<in> set ps"
  shows "\<exists>row \<in> set (rr_score_rows r). made_from row min_edge_bps p"
proof -
  from assms obtain seq_index entry_index qs where
    "rtraverse (row_proposal min_edge_bps seq_index entry_index) (rr_score_rows r) = Inr qs" "Some p \<in> set qs"
    by (auto simp: value_proposals_def rbind_Inr_iff List.map_filter_def)
  then show ?thesis using rtraverse_source row_proposal_made_from by metis
qed

lemma value_proposals_sorted:
  "value_proposals cd parse_int r min_edge_bps = Inr ps \<Longrightarrow> sorted (map pp_source_sequence_no ps)"
  by (auto simp: value_proposals_def rbind_Inr_iff)

text \<open>Which rows are taken is decided per row: the candidates are the accepted rows, no more and no fewer.\<close>

lemma value_proposals_complete:
  assumes "value_proposals cd parse_int r min_edge_bps = Inr ps"
  obtains seq_index entry_index where "decision_seq_index cd parse_int (sl_run_events r) = Inr seq_index"
    and "entry_market_index cd parse_int (sl_run_events r) = Inr entry_index"
    and "set ps = {p. \<exists>row \<in> set (rr_score_rows r). row_proposal min_edge_bps seq_index entry_index row = Inr (Some p)}"
proof -
  from assms obtain seq_index entry_index qs where
    q: "decision_seq_index cd parse_int (sl_run_events r) = Inr seq_index"
    "entry_market_index cd parse_int (sl_run_events r) = Inr entry_index"
    "rtraverse (row_proposal min_edge_bps seq_index entry_index) (rr_score_rows r) = Inr qs"
    "ps = sort_key pp_source_sequence_no (List.map_filter id qs)"
    by (auto simp: value_proposals_def rbind_Inr_iff)
  have "set ps = {p. Some p \<in> set qs}"
    by (auto simp: q(4) List.map_filter_def image_iff) (metis option.sel)+
  also have "\<dots> = {p. \<exists>row \<in> set (rr_score_rows r). row_proposal min_edge_bps seq_index entry_index row = Inr (Some p)}"
    using q(3) rtraverse_source [OF q(3)] by (auto elim!: rtraverse_InrD [OF q(3)])
  finally show thesis using that q(1,2) by blast
qed

end
