(* ===== verification/Venue.thy ===== *)
theory Venue
  imports Execution_Record
begin

text \<open>
  The venue boundary (\<open>src/veridex/venues/base.py\<close>): quotes, orders, the four calls of an adapter
  as effects on a venue state of any type, the status map, the bounded poll for a terminal status and
  the receipt every adapter builds. The deterministic offline adapter of
  \<open>src/veridex/venues/sx_bet.py\<close> is one instance: its constructor arguments are flags, and its clock
  and its random order ids are fields of its state.
\<close>

section \<open>Values (\<open>venues/base.py\<close>)\<close>

record quote_level =
  ql_native_price :: pyfloat
  ql_size :: pyfloat

record quote =
  qt_market_ref :: string
  qt_price :: pyfloat
  qt_native_price :: "pyfloat option"
  qt_size :: pyfloat
  qt_for_size :: "pyfloat option"
  qt_levels :: "quote_level list"
  qt_ts :: int

datatype time_in_force = FAK | FOK

record taker_order =
  to_market_ref :: string
  to_side :: string
  to_size :: pyfloat
  to_price :: pyfloat
  to_venue :: string
  to_tif :: time_in_force
  to_client_order_id :: string

record submit_ack =
  sa_venue_order_id :: string
  sa_accepted :: bool

record venue_order_status =
  vs_venue_order_id :: string
  vs_status :: string
  vs_filled_size :: pyfloat
  vs_price :: pyfloat
  vs_native_price :: "pyfloat option"

record cancel_ack =
  ca_venue_order_id :: string
  ca_cancelled :: bool

text \<open>An adapter: the attributes the executor reads, and its calls.\<close>

record 'w venue_adapter =
  va_venue :: string
  va_class_name :: string
  va_real_venue_quote :: bool
  va_quote_market :: "string \<Rightarrow> pyfloat option \<Rightarrow> ('w, quote) eff"
  va_submit_order :: "taker_order \<Rightarrow> ('w, submit_ack) eff"
  va_get_order_status :: "string \<Rightarrow> ('w, venue_order_status) eff"
  va_cancel_order :: "string \<Rightarrow> ('w, cancel_ack) eff"

definition venue_status_map :: "(string, execution_status) dict" where
  "venue_status_map =
     [(''filled'', FILLED), (''partial'', PARTIAL), (''partial_fill'', PARTIAL), (''rejected'', REJECTED),
      (''cancelled'', CANCELLED), (''canceled'', CANCELLED), (''expired'', EXPIRED)]"

definition terminal_statuses :: "string list" where
  "terminal_statuses = [''filled'', ''partial'', ''rejected'', ''cancelled'', ''canceled'', ''expired'']"

definition map_venue_status :: "string \<Rightarrow> execution_status" where
  "map_venue_status venue_status =
     (case map_of venue_status_map (py_lower venue_status) of None \<Rightarrow> UNRESOLVED | Some st \<Rightarrow> st)"

definition is_terminal :: "venue_order_status \<Rightarrow> bool" where
  "is_terminal st \<longleftrightarrow> py_lower (vs_status st) \<in> set terminal_statuses"

text \<open>
  The poll with the timeout of 10 and the interval of 0.5 seconds that both callers use. The elapsed
  times are multiples of one half, on which binary64 addition is exact.
\<close>

function status_poll :: "'w venue_adapter \<Rightarrow> string \<Rightarrow> venue_order_status \<Rightarrow> rat \<Rightarrow> ('w, venue_order_status) eff" where
  "status_poll adapter venue_order_id observed elapsed =
     (if \<not> is_terminal observed \<and> elapsed < 10
      then ebind (va_get_order_status adapter venue_order_id) (\<lambda>st. status_poll adapter venue_order_id st (elapsed + 1 / 2))
      else ereturn observed)"
  by auto
termination
proof (relation "measure (\<lambda>(_, _, _, elapsed). nat \<lceil>2 * (10 - elapsed)\<rceil>)")
  fix adapter :: "'w venue_adapter" and venue_order_id observed x and elapsed :: rat
  assume "\<not> is_terminal observed \<and> elapsed < 10"
  moreover have "2 * (10 - (elapsed + 1 / 2)) = 2 * (10 - elapsed) - 1" by simp
  then have "\<lceil>2 * (10 - (elapsed + 1 / 2))\<rceil> = \<lceil>2 * (10 - elapsed)\<rceil> - 1" by (metis ceiling_diff_one)
  moreover have "0 < \<lceil>2 * (10 - elapsed)\<rceil>" if "elapsed < 10" using that by simp
  ultimately show "((adapter, venue_order_id, x, elapsed + 1 / 2), adapter, venue_order_id, observed, elapsed)
      \<in> measure (\<lambda>(_, _, _, elapsed). nat \<lceil>2 * (10 - elapsed)\<rceil>)" by simp
qed simp

declare status_poll.simps [simp del]

definition poll_order_terminal :: "'w venue_adapter \<Rightarrow> string \<Rightarrow> ('w, venue_order_status) eff" where
  "poll_order_terminal adapter venue_order_id =
     ebind (va_get_order_status adapter venue_order_id) (\<lambda>observed. status_poll adapter venue_order_id observed 0)"

definition build_receipt :: "string \<Rightarrow> taker_order \<Rightarrow> venue_order_status \<Rightarrow> string \<Rightarrow> execution_receipt" where
  "build_receipt execution_id order status mode =
     \<lparr>rc_execution_id = execution_id, rc_venue = to_venue order, rc_market_ref = to_market_ref order,
      rc_side = to_side order, rc_requested_size = to_size order, rc_filled_size = vs_filled_size status,
      rc_price = vs_price status, rc_status = map_venue_status (vs_status status),
      rc_venue_order_id = Some (vs_venue_order_id status), rc_mode = mode, rc_submitted_at = None, rc_settled_at = None\<rparr>"

section \<open>The offline adapter (\<open>venues/sx_bet.py\<close>)\<close>

record fake_flags =
  ff_fill :: bool
  ff_fill_size :: "pyfloat option"
  ff_stay_pending :: bool
  ff_pending_polls :: int

record fake_venue =
  fv_orders :: "(string, taker_order) dict"
  fv_submit_calls :: int
  fv_status_calls :: int
  fv_now :: int
  fv_hex8 :: "int \<Rightarrow> string"

definition fixed_price :: pyfloat where
  "fixed_price = fl_round (205 / 100)"

definition fixed_size :: pyfloat where
  "fixed_size = Fin 500"

definition fake_decimal_to_native :: "pyfloat \<Rightarrow> pyfloat result" where
  "fake_decimal_to_native decimal_odds = fl_div (Fin 100) decimal_odds"

definition fake_quote_market :: "string \<Rightarrow> pyfloat option \<Rightarrow> (fake_venue, quote) eff" where
  "fake_quote_market market_ref for_size =
     ebind (elift (fake_decimal_to_native fixed_price)) (\<lambda>native.
     ebind (eread fv_now) (\<lambda>now.
       ereturn \<lparr>qt_market_ref = market_ref, qt_price = fixed_price, qt_native_price = Some native, qt_size = fixed_size,
         qt_for_size = Some (case for_size of None \<Rightarrow> fixed_size | Some z \<Rightarrow> z),
         qt_levels = [\<lparr>ql_native_price = native, ql_size = fixed_size\<rparr>], qt_ts = now\<rparr>))"

definition fake_submit_order :: "fake_flags \<Rightarrow> taker_order \<Rightarrow> (fake_venue, submit_ack) eff" where
  "fake_submit_order flags order = (\<lambda>v.
     let venue_order_id = ''fake-'' @ fv_hex8 v (fv_submit_calls v) in
     (Inr \<lparr>sa_venue_order_id = venue_order_id, sa_accepted = ff_fill flags\<rparr>,
      v\<lparr>fv_orders := AList.update venue_order_id order (fv_orders v), fv_submit_calls := fv_submit_calls v + 1\<rparr>))"

definition fake_status :: "fake_flags \<Rightarrow> string \<Rightarrow> fake_venue \<Rightarrow> string \<times> pyfloat" where
  "fake_status flags venue_order_id v =
     (if ff_stay_pending flags \<or> fv_status_calls v \<le> ff_pending_polls flags then (''pending'', fl_zero)
      else if \<not> ff_fill flags then (''rejected'', fl_zero)
      else
        let requested_size = (case map_of (fv_orders v) venue_order_id of None \<Rightarrow> fixed_size | Some order \<Rightarrow> to_size order) in
        case ff_fill_size flags of
          Some z \<Rightarrow> if fl_lt z requested_size then (''partial'', z) else (''filled'', requested_size)
        | None \<Rightarrow> (''filled'', requested_size))"

definition fake_get_order_status :: "fake_flags \<Rightarrow> string \<Rightarrow> (fake_venue, venue_order_status) eff" where
  "fake_get_order_status flags venue_order_id =
     ebind (eupdate (\<lambda>v. v\<lparr>fv_status_calls := fv_status_calls v + 1\<rparr>)) (\<lambda>_.
     ebind (elift (fake_decimal_to_native fixed_price)) (\<lambda>native.
     ebind (eread (fake_status flags venue_order_id)) (\<lambda>(status, filled).
       ereturn \<lparr>vs_venue_order_id = venue_order_id, vs_status = status, vs_filled_size = filled,
         vs_price = fixed_price, vs_native_price = Some native\<rparr>)))"

definition fake_cancel_order :: "string \<Rightarrow> (fake_venue, cancel_ack) eff" where
  "fake_cancel_order venue_order_id =
     ebind (eupdate (\<lambda>v. v\<lparr>fv_orders := AList.delete venue_order_id (fv_orders v)\<rparr>)) (\<lambda>_.
       ereturn \<lparr>ca_venue_order_id = venue_order_id, ca_cancelled = True\<rparr>)"

definition fake_venue_adapter :: "fake_flags \<Rightarrow> fake_venue venue_adapter" where
  "fake_venue_adapter flags = \<lparr>va_venue = '''', va_class_name = ''FakeVenueAdapter'', va_real_venue_quote = False,
     va_quote_market = fake_quote_market, va_submit_order = fake_submit_order flags,
     va_get_order_status = fake_get_order_status flags, va_cancel_order = fake_cancel_order\<rparr>"

section \<open>The poll returns\<close>

text \<open>An adapter with a counter of status queries.\<close>

definition counted :: "'w venue_adapter \<Rightarrow> (nat \<times> 'w) venue_adapter" where
  "counted ad = \<lparr>va_venue = va_venue ad, va_class_name = va_class_name ad, va_real_venue_quote = va_real_venue_quote ad,
     va_quote_market = (\<lambda>m z (n, w). let (r, w') = va_quote_market ad m z w in (r, (n, w'))),
     va_submit_order = (\<lambda>x (n, w). let (r, w') = va_submit_order ad x w in (r, (n, w'))),
     va_get_order_status = (\<lambda>i (n, w). let (r, w') = va_get_order_status ad i w in (r, (n + 1, w'))),
     va_cancel_order = (\<lambda>i (n, w). let (r, w') = va_cancel_order ad i w in (r, (n, w')))\<rparr>"

lemma counted_status: "va_get_order_status (counted ad) i (n, w) = (fst (va_get_order_status ad i w), (n + 1, snd (va_get_order_status ad i w)))"
  by (simp add: counted_def split: prod.split)

lemma status_poll_counted:
  assumes "status_poll (counted ad) i lst (of_nat k / 2) (n, w) = (r, (n', w'))" and "k \<le> 20"
  shows "n' \<le> n + (20 - k) \<and> (\<forall>st. r = Inr st \<longrightarrow> is_terminal st \<or> n' = n + (20 - k))"
  using assms
proof (induction "20 - k" arbitrary: k lst n w)
  case 0
  then show ?case by (simp add: status_poll.simps ereturn_def split: if_splits)
next
  case (Suc d)
  show ?case
  proof (cases "is_terminal lst")
    case True
    with Suc.prems show ?thesis by (auto simp: status_poll.simps ereturn_def)
  next
    case False
    from Suc have k: "k < 20" by simp
    have half: "of_nat k / 2 + 1 / 2 = (of_nat (Suc k) / 2 :: rat)" by (simp add: field_simps)
    from False k have step: "status_poll (counted ad) i lst (of_nat k / 2)
      = ebind (va_get_order_status (counted ad) i) (\<lambda>st. status_poll (counted ad) i st (of_nat (Suc k) / 2))"
      by (subst status_poll.simps) (simp only: half, simp)
    show ?thesis
    proof (cases "fst (va_get_order_status ad i w)")
      case (Inl e)
      with Suc.prems k show ?thesis by (auto simp: step ebind_apply counted_status)
    next
      case (Inr st)
      with Suc.prems have rest: "status_poll (counted ad) i st (of_nat (Suc k) / 2) (n + 1, snd (va_get_order_status ad i w)) = (r, (n', w'))"
        by (simp add: step ebind_apply counted_status)
      have d: "d = 20 - Suc k" and le: "Suc k \<le> 20" using Suc.hyps(2) k by simp_all
      from Suc.hyps(1) [OF d rest le]
      have "n' \<le> n + 1 + (20 - Suc k) \<and> (\<forall>st. r = Inr st \<longrightarrow> is_terminal st \<or> n' = n + 1 + (20 - Suc k))" .
      moreover have "n + 1 + (20 - Suc k) = n + (20 - k)" using k by simp
      ultimately show ?thesis by metis
    qed
  qed
qed

text \<open>
  Polling for a terminal status ends for every venue: it makes at most twenty-one status queries, and what
  it returns is a terminal status, or the status of the twenty-first query, or the error of a query; so a
  receipt is never built from an earlier transient status.
\<close>

theorem poll_returns:
  assumes "poll_order_terminal (counted ad) i (0, w) = (r, (n, w'))"
  shows "n \<le> 21 \<and> (\<forall>st. r = Inr st \<longrightarrow> is_terminal st \<or> n = 21)"
proof (cases "fst (va_get_order_status ad i w)")
  case (Inl e)
  with assms show ?thesis by (auto simp: poll_order_terminal_def ebind_apply counted_status)
next
  case (Inr st)
  with assms have "status_poll (counted ad) i st (of_nat 0 / 2) (1, snd (va_get_order_status ad i w)) = (r, (n, w'))"
    by (simp add: poll_order_terminal_def ebind_apply counted_status)
  from status_poll_counted [OF this] show ?thesis by auto
qed

definition demo_flags :: "bool \<Rightarrow> int \<Rightarrow> fake_flags" where
  "demo_flags fill polls = \<lparr>ff_fill = fill, ff_fill_size = None, ff_stay_pending = False, ff_pending_polls = polls\<rparr>"

definition demo_venue :: fake_venue where
  "demo_venue = \<lparr>fv_orders = [], fv_submit_calls = 0, fv_status_calls = 0, fv_now = 100, fv_hex8 = (\<lambda>_. ''0badcafe'')\<rparr>"

theorem poll_returns_witness:
  "fst (snd (poll_order_terminal (counted (fake_venue_adapter (demo_flags True 2))) ''x'' (0, demo_venue))) \<le> 21"
  using poll_returns [of "fake_venue_adapter (demo_flags True 2)" "''x''" demo_venue] by (metis prod.collapse)

end
