(* ===== verification/Executor.thy ===== *)
theory Executor
  imports Store Proposals Venue
begin

text \<open>
  The policy-gated executor lane (\<open>src/veridex/execution/runner.py\<close>): sizing, the pass over the
  candidates of a sealed run with both gate phases, the simulated and the live submit, the circuit
  breaker, and the resolution of a human approval. The venue and the live broadcast act on a world of
  any type; the store, the breaker cell and the emitted events are the state of the lane. What happened
  before an exception stays done.
\<close>

section \<open>Sizing and prices\<close>

definition executed_failure_terminals :: "execution_status list" where
  "executed_failure_terminals = [REJECTED, EXPIRED, CANCELLED, UNRESOLVED]"

record breaker_cell =
  bc_breaker :: circuit_breaker
  bc_cooldown_s :: pyfloat

definition is_real_venue_quote :: "'w venue_adapter \<Rightarrow> bool" where
  "is_real_venue_quote adapter = va_real_venue_quote adapter"

fun post_policy_path :: "execution_status \<Rightarrow> execution_status list" where
  "post_policy_path FILLED = [SUBMITTED, ACCEPTED, FILLED]"
| "post_policy_path PARTIAL = [SUBMITTED, ACCEPTED, PARTIAL]"
| "post_policy_path ACCEPTED = [SUBMITTED, ACCEPTED]"
| "post_policy_path REJECTED = [SUBMITTED, REJECTED]"
| "post_policy_path EXPIRED = [SUBMITTED, EXPIRED]"
| "post_policy_path _ = [SUBMITTED]"

definition ends_with :: "string \<Rightarrow> string \<Rightarrow> bool" where
  "ends_with s suffix \<longleftrightarrow> length suffix \<le> length s \<and> drop (length s - length suffix) s = suffix"

definition venue_name :: "'w venue_adapter \<Rightarrow> string" where
  "venue_name adapter =
     (if va_venue adapter \<noteq> '''' then va_venue adapter
      else let name = va_class_name adapter;
               stem = (if ends_with name ''VenueAdapter'' then take (length name - length ''VenueAdapter'') name
                       else if ends_with name ''Adapter'' then take (length name - length ''Adapter'') name else name)
           in py_lower stem)"

definition size_stake :: "pyfloat \<Rightarrow> pyfloat \<Rightarrow> pyfloat \<Rightarrow> pyfloat" where
  "size_stake kelly bankroll max_stake =
     (if fl_le kelly fl_zero \<or> isnan kelly then py_min fl_one max_stake
      else py_min (fl_mul (fl_mul (Fin (1 / 2)) kelly) bankroll) max_stake)"

definition slippage_bps :: "pyfloat \<Rightarrow> pyfloat \<Rightarrow> int result" where
  "slippage_bps reference_price quote_price =
     (if fl_le reference_price fl_zero then Inr 0
      else rbind (fl_div (fl_abs (fl_sub quote_price reference_price)) reference_price) (\<lambda>d.
        py_round_int (fl_mul d (Fin 10000))))"

fun reason_code_text :: "reason \<Rightarrow> string" where
  "reason_code_text kill_switch_on = ''kill_switch_on''"
| "reason_code_text edge_below_min = ''edge_below_min''"
| "reason_code_text quote_stale = ''quote_stale''"
| "reason_code_text stake_over_max = ''stake_over_max''"
| "reason_code_text venue_not_allowed = ''venue_not_allowed''"
| "reason_code_text market_not_allowed = ''market_not_allowed''"
| "reason_code_text slippage_over_max = ''slippage_over_max''"
| "reason_code_text price_over_max = ''price_over_max''"
| "reason_code_text order_cap_run = ''order_cap_run''"
| "reason_code_text cooldown_active = ''cooldown_active''"
| "reason_code_text agent_not_eligible = ''agent_not_eligible''"
| "reason_code_text missing_field = ''missing_field''"
| "reason_code_text circuit_open = ''circuit_open''"
| "reason_code_text insufficient_liquidity = ''insufficient_liquidity''"
| "reason_code_text stake_over_live_guarded = ''stake_over_live_guarded''"
| "reason_code_text session_loss_over_max = ''session_loss_over_max''"
| "reason_code_text daily_loss_over_max = ''daily_loss_over_max''"
| "reason_code_text order_cap_session = ''order_cap_session''"
| "reason_code_text order_cap_day = ''order_cap_day''"

fun decision_text :: "policy_decision \<Rightarrow> string" where
  "decision_text APPROVED = ''approved''"
| "decision_text DENIED = ''denied''"
| "decision_text REQUIRES_HUMAN = ''requires_human''"

section \<open>State and arguments of the lane\<close>

record 'w lane =
  ln_world :: 'w
  ln_store :: store
  ln_guards :: "breaker_cell option"
  ln_events :: "competition_event list"
  ln_seq :: int
  ln_orders_this_run :: int

text \<open>What stays fixed over one call; \<open>lv_codec\<close> and \<open>lv_policy_hash\<close> digest payloads and envelopes.\<close>

record 'w lane_env =
  lv_codec :: codec
  lv_policy_hash :: "policy_envelope \<Rightarrow> string"
  lv_competition_id :: string
  lv_run :: sealed_run
  lv_envelope :: policy_envelope
  lv_adapter :: "'w venue_adapter"
  lv_execution_mode :: string
  lv_event_ts :: int
  lv_bankroll :: pyfloat
  lv_broadcast :: "(competition_event \<Rightarrow> ('w, unit) eff) option"
  lv_clock :: pyfloat

definition in_world :: "('w, 'a) eff \<Rightarrow> ('w lane, 'a) eff" where
  "in_world m = (\<lambda>s. let (r, w) = m (ln_world s) in (r, s\<lparr>ln_world := w\<rparr>))"

definition in_store :: "(store, 'a) eff \<Rightarrow> ('w lane, 'a) eff" where
  "in_store m = (\<lambda>s. let (r, st) = m (ln_store s) in (r, s\<lparr>ln_store := st\<rparr>))"

definition emit_lane :: "'w lane_env \<Rightarrow> (int \<Rightarrow> competition_event) \<Rightarrow> ('w lane, unit) eff" where
  "emit_lane lv build =
     ebind (eread ln_seq) (\<lambda>seq.
     ebind (eupdate (\<lambda>s. s\<lparr>ln_events := ln_events s @ [build seq]\<rparr>)) (\<lambda>_.
     ebind (case lv_broadcast lv of None \<Rightarrow> ereturn () | Some f \<Rightarrow> in_world (f (build seq))) (\<lambda>_.
       eupdate (\<lambda>s. s\<lparr>ln_seq := seq + 1\<rparr>))))"

definition current_breaker :: "'w lane \<Rightarrow> circuit_breaker" where
  "current_breaker s = (case ln_guards s of None \<Rightarrow> new_breaker | Some g \<Rightarrow> bc_breaker g)"

definition on_breaker :: "(circuit_breaker \<Rightarrow> circuit_breaker) \<Rightarrow> ('w lane, unit) eff" where
  "on_breaker f = eupdate (\<lambda>s. s\<lparr>ln_guards := map_option (\<lambda>g. g\<lparr>bc_breaker := f (bc_breaker g)\<rparr>) (ln_guards s)\<rparr>)"

text \<open>\<open>if guards is not None: guards.breaker = guards.breaker.resolve(now=clock, cooldown_s=guards.cooldown_s)\<close>.\<close>

definition resolve_guards :: "pyfloat \<Rightarrow> ('w lane, unit) eff" where
  "resolve_guards clock = eupdate (\<lambda>s. s\<lparr>ln_guards :=
     map_option (\<lambda>g. g\<lparr>bc_breaker := resolve clock (bc_cooldown_s g) (bc_breaker g)\<rparr>) (ln_guards s)\<rparr>)"

section \<open>The two gate phases of the lane\<close>

definition is_live :: "'w lane_env \<Rightarrow> bool" where
  "is_live lv \<longleftrightarrow> lv_execution_mode lv = ''live_guarded''"

definition agent_eligible :: "agent_entry option \<Rightarrow> bool" where
  "agent_eligible entry = (case entry of None \<Rightarrow> False | Some e \<Rightarrow> ae_execution_eligibility e)"

definition lane_stake :: "'w lane_env \<Rightarrow> proposal \<Rightarrow> pyfloat" where
  "lane_stake lv p = size_stake (pp_kelly_fraction p) (lv_bankroll lv) (pe_max_stake (lv_envelope lv))"

definition lane_pre :: "'w lane_env \<Rightarrow> proposal \<Rightarrow> agent_entry option \<Rightarrow> int \<Rightarrow> circuit_breaker \<Rightarrow> policy_result" where
  "lane_pre lv p entry orders_this_run breaker = evaluate_pre_quote (lv_policy_hash lv)
     \<lparr>pq_recomputed_edge_bps = pp_recomputed_edge_bps p, pq_stake = lane_stake lv p, pq_venue = venue_name (lv_adapter lv),
      pq_market_key = pp_market_key p, pq_orders_this_run = orders_this_run, pq_seconds_since_last_order = None,
      pq_agent_eligible = agent_eligible entry, pq_breaker = breaker, pq_live_guarded = is_live lv,
      pq_realized_loss_session = fl_zero, pq_realized_loss_day = fl_zero, pq_orders_this_session = 0,
      pq_orders_this_day = 0\<rparr> (lv_envelope lv)"

definition lane_post :: "'w lane_env \<Rightarrow> proposal \<Rightarrow> quote \<Rightarrow> int \<Rightarrow> int \<Rightarrow> policy_result" where
  "lane_post lv p quote slippage exec_edge = evaluate_post_quote (lv_policy_hash lv)
     \<lparr>po_executable_edge_bps = exec_edge, po_price = qt_price quote, po_slippage_bps = slippage,
      po_quote_age_s = max 0 (lv_event_ts lv - qt_ts quote), po_stake = lane_stake lv p, po_quoted_size = qt_size quote\<rparr>
     (lv_envelope lv)"

definition execution_id_of :: "'w lane_env \<Rightarrow> proposal \<Rightarrow> string" where
  "execution_id_of lv p = sl_run_id (lv_run lv) @ '':'' @ int_str (pp_source_sequence_no p)"

definition new_record :: "'w lane_env \<Rightarrow> proposal \<Rightarrow> string \<Rightarrow> execution_record" where
  "new_record lv p policy_hash =
     \<lparr>ex_execution_id = execution_id_of lv p, ex_competition_id = lv_competition_id lv, ex_run_id = sl_run_id (lv_run lv),
      ex_agent_id = pp_agent_id p, ex_source_sequence_no = pp_source_sequence_no p, ex_status = PROPOSED,
      ex_policy_hash = policy_hash, ex_receipt = None\<rparr>"

definition result_payload :: "policy_result \<Rightarrow> (string \<times> pyval) list" where
  "result_payload res =
     [(''decision'', VStr (decision_text (pr_decision res))),
      (''reason_codes'', VList (map (VStr \<circ> reason_code_text) (pr_reason_codes res))), (''policy_hash'', VStr (pr_policy_hash res))]"

definition quote_payload :: "'w lane_env \<Rightarrow> quote \<Rightarrow> int \<Rightarrow> int \<Rightarrow> int \<Rightarrow> (string \<times> pyval) list" where
  "quote_payload lv quote slippage exec_edge gap =
     [(''phase'', VStr ''post_quote''), (''slippage_bps'', VInt slippage), (''executable_edge_bps'', VInt exec_edge),
      (''mispricing_gap_bps'', VInt gap), (''venue_decimal_price'', VFloat (qt_price quote)),
      (''native_price'', (case qt_native_price quote of None \<Rightarrow> VNone | Some x \<Rightarrow> VFloat x)),
      (''real_venue_quote'', VBool (is_real_venue_quote (lv_adapter lv)))]"

definition emit_policy_result :: "'w lane_env \<Rightarrow> proposal \<Rightarrow> (string \<times> pyval) list \<Rightarrow> ('w lane, unit) eff" where
  "emit_policy_result lv p payload = emit_lane lv (\<lambda>seq.
     build_policy_result_event (lv_codec lv) (lv_competition_id lv) (sl_run_id (lv_run lv)) seq (lv_event_ts lv)
       (pp_agent_id p) (pp_source_sequence_no p) payload (Some (execution_id_of lv p)))"

section \<open>Submitting\<close>

text \<open>The simulated status of a dry run, or the real submit followed by the poll.\<close>

definition execute_order :: "'w venue_adapter \<Rightarrow> string \<Rightarrow> string \<Rightarrow> taker_order \<Rightarrow> ('w, execution_receipt) eff" where
  "execute_order adapter execution_mode execution_id order =
     (if execution_mode = ''dry_run''
      then ereturn (build_receipt execution_id order
        \<lparr>vs_venue_order_id = ''dryrun-'' @ execution_id, vs_status = ''filled'', vs_filled_size = to_size order,
         vs_price = to_price order, vs_native_price = None\<rparr> ''dry_run'')
      else
        ebind (va_submit_order adapter order) (\<lambda>ack.
        ebind (poll_order_terminal adapter (sa_venue_order_id ack)) (\<lambda>status.
          ereturn (build_receipt execution_id order status ''live_guarded''))))"

definition lane_order :: "'w lane_env \<Rightarrow> proposal \<Rightarrow> quote \<Rightarrow> string \<Rightarrow> taker_order" where
  "lane_order lv p quote execution_id =
     \<lparr>to_market_ref = pp_market_key p, to_side = pp_side p, to_size = lane_stake lv p, to_price = qt_price quote,
      to_venue = venue_name (lv_adapter lv), to_tif = FAK, to_client_order_id = execution_id\<rparr>"

definition move_breaker :: "'w lane_env \<Rightarrow> execution_receipt \<Rightarrow> ('w lane, unit) eff" where
  "move_breaker lv receipt =
     (if is_live lv then
        on_breaker (if rc_status receipt \<in> set executed_failure_terminals
          then record_failure (pe_circuit_breaker_threshold (lv_envelope lv)) (lv_clock lv) else record_success)
      else ereturn ())"

definition submitted_payload :: "'w lane_env \<Rightarrow> string \<Rightarrow> string \<Rightarrow> taker_order \<Rightarrow> (string \<times> pyval) list" where
  "submitted_payload lv execution_id agent_id order =
     [(''execution_id'', VStr execution_id), (''agent_id'', VStr agent_id), (''venue'', VStr (to_venue order)),
      (''market_ref'', VStr (to_market_ref order)), (''side'', VStr (to_side order)), (''size'', VFloat (to_size order)),
      (''price'', VFloat (to_price order)), (''mode'', VStr (lv_execution_mode lv))]"

definition receipt_payload :: "execution_receipt \<Rightarrow> (string \<times> pyval) list" where
  "receipt_payload r =
     [(''execution_id'', VStr (rc_execution_id r)), (''venue'', VStr (rc_venue r)), (''market_ref'', VStr (rc_market_ref r)),
      (''side'', VStr (rc_side r)), (''requested_size'', VFloat (rc_requested_size r)),
      (''filled_size'', VFloat (rc_filled_size r)), (''price'', VFloat (rc_price r)),
      (''status'', VStr (execution_status_text (rc_status r))), (''venue_order_id'', opt_str (rc_venue_order_id r)),
      (''mode'', VStr (rc_mode r)), (''submitted_at'', opt_str (rc_submitted_at r)), (''settled_at'', opt_str (rc_settled_at r))]"

definition emit_submission :: "'w lane_env \<Rightarrow> string \<Rightarrow> string \<Rightarrow> string \<Rightarrow> taker_order \<Rightarrow> execution_receipt \<Rightarrow> ('w lane, unit) eff" where
  "emit_submission lv competition_id execution_id agent_id order receipt =
     ebind (emit_lane lv (\<lambda>seq. build_execution_submitted_event (lv_codec lv) competition_id (sl_run_id (lv_run lv)) seq
        (lv_event_ts lv) execution_id (submitted_payload lv execution_id agent_id order))) (\<lambda>_.
      emit_lane lv (\<lambda>seq. build_execution_receipt_event (lv_codec lv) competition_id (sl_run_id (lv_run lv)) seq
        (lv_event_ts lv) execution_id (receipt_payload receipt)))"

definition count_order :: "('w lane, unit) eff" where
  "count_order = eupdate (\<lambda>s. s\<lparr>ln_orders_this_run := ln_orders_this_run s + 1\<rparr>)"

definition submit_step :: "'w lane_env \<Rightarrow> proposal \<Rightarrow> quote \<Rightarrow> execution_record \<Rightarrow> ('w lane, execution_record) eff" where
  "submit_step lv p quote rec =
     (let order = lane_order lv p quote (execution_id_of lv p) in
      ebind (elift (advance_execution POLICY_APPROVED rec)) (\<lambda>rec.
      ebind (in_world (execute_order (lv_adapter lv) (lv_execution_mode lv) (execution_id_of lv p) order)) (\<lambda>receipt.
      ebind (elift (advance_through (post_policy_path (rc_status receipt)) rec)) (\<lambda>rec.
      ebind count_order (\<lambda>_.
      ebind (move_breaker lv receipt) (\<lambda>_.
      ebind (emit_submission lv (lv_competition_id lv) (execution_id_of lv p) (pp_agent_id p) order receipt) (\<lambda>_.
        ereturn (rec\<lparr>ex_receipt := Some receipt\<rparr>))))))))"

section \<open>The lane\<close>

definition will_submit :: "'w lane_env \<Rightarrow> agent_entry option \<Rightarrow> policy_result \<Rightarrow> bool" where
  "will_submit lv entry post \<longleftrightarrow>
     pr_decision post = APPROVED \<and> lv_execution_mode lv \<noteq> ''paper'' \<and> agent_eligible entry"

definition settle_decision ::
  "'w lane_env \<Rightarrow> proposal \<Rightarrow> agent_entry option \<Rightarrow> quote \<Rightarrow> policy_result \<Rightarrow> execution_record \<Rightarrow> ('w lane, execution_record) eff" where
  "settle_decision lv p entry quote post rec =
     (if pr_decision post = DENIED then elift (advance_execution REJECTED rec)
      else if pr_decision post = REQUIRES_HUMAN then elift (advance_execution AWAITING_HUMAN rec)
      else if will_submit lv entry post then submit_step lv p quote rec
      else ereturn rec)"

definition quoted_step ::
  "'w lane_env \<Rightarrow> proposal \<Rightarrow> agent_entry option \<Rightarrow> execution_record \<Rightarrow> ('w lane, execution_record) eff" where
  "quoted_step lv p entry rec =
     ebind (in_world (va_quote_market (lv_adapter lv) (pp_market_key p) (Some (lane_stake lv p)))) (\<lambda>quote.
     ebind (elift (slippage_bps (pp_reference_price p) (qt_price quote))) (\<lambda>slippage.
     ebind (elift (executable_edge_bps (pp_entry_prob_bps p) (qt_price quote))) (\<lambda>exec_edge.
     ebind (elift (mispricing_gap_bps (pp_entry_prob_bps p) (qt_price quote))) (\<lambda>gap.
     let post = lane_post lv p quote slippage exec_edge in
     ebind (emit_policy_result lv p (result_payload post @ quote_payload lv quote slippage exec_edge gap)) (\<lambda>_.
       settle_decision lv p entry quote post (rec\<lparr>ex_policy_hash := pr_policy_hash post\<rparr>))))))"

definition denied_step :: "'w lane_env \<Rightarrow> proposal \<Rightarrow> policy_result \<Rightarrow> execution_record \<Rightarrow> ('w lane, execution_record) eff" where
  "denied_step lv p pre rec =
     ebind (emit_policy_result lv p (result_payload pre @ [(''phase'', VStr ''pre_quote'')])) (\<lambda>_.
       elift (advance_execution REJECTED rec))"

definition lane_step :: "'w lane_env \<Rightarrow> (string, agent_entry) dict \<Rightarrow> proposal \<Rightarrow> ('w lane, unit) eff" where
  "lane_step lv entries_by_agent p =
     (let entry = map_of entries_by_agent (pp_agent_id p) in
      ebind (eread (\<lambda>s. lane_pre lv p entry (ln_orders_this_run s) (current_breaker s))) (\<lambda>pre.
      ebind (elift (advance_execution LAW_APPROVED (new_record lv p (pr_policy_hash pre)))) (\<lambda>rec.
      ebind (if pr_decision pre = DENIED then denied_step lv p pre rec else quoted_step lv p entry rec) (\<lambda>rec.
        in_store (append_execution_record rec)))))"

text \<open>The fixed arguments of a call, its clock read from the event time unless one is given.\<close>

definition lane_env_for :: "'w lane_env \<Rightarrow> pyfloat option \<Rightarrow> 'w lane_env result" where
  "lane_env_for lv now =
     (case now of Some t \<Rightarrow> Inr (lv\<lparr>lv_clock := t\<rparr>)
      | None \<Rightarrow> rbind (float_of_int (lv_event_ts lv)) (\<lambda>t. Inr (lv\<lparr>lv_clock := t\<rparr>)))"

definition run_execution_lane ::
  "(string \<Rightarrow> int option) \<Rightarrow> 'w lane_env \<Rightarrow> pyfloat option \<Rightarrow> (string, agent_entry) dict \<Rightarrow> int \<Rightarrow> ('w lane, competition_event list) eff" where
  "run_execution_lane parse_int lv0 now entries_by_agent base_seq =
     ebind (elift (value_proposals (lv_codec lv0) parse_int (lv_run lv0) (pe_min_edge_bps (lv_envelope lv0)))) (\<lambda>proposals.
     ebind (eupdate (\<lambda>s. s\<lparr>ln_events := [], ln_seq := base_seq, ln_orders_this_run := 0\<rparr>)) (\<lambda>_.
     ebind (elift (lane_env_for lv0 now)) (\<lambda>lv.
     ebind (resolve_guards (lv_clock lv)) (\<lambda>_.
     ebind (efor proposals (lane_step lv entries_by_agent)) (\<lambda>_.
       eread ln_events)))))"

section \<open>Resolving a human approval\<close>

datatype approval = Submit proposal quote | Refuse "string list"

definition candidate_for :: "execution_record \<Rightarrow> proposal list \<Rightarrow> proposal option" where
  "candidate_for rec proposals =
     List.find (\<lambda>p. pp_source_sequence_no p = ex_source_sequence_no rec \<and> pp_agent_id p = ex_agent_id rec) proposals"

definition recheck ::
  "'w lane_env \<Rightarrow> agent_entry option \<Rightarrow> proposal option \<Rightarrow> ('w lane, approval \<times> string) eff" where
  "recheck lv entry candidate =
     (case candidate of
       None \<Rightarrow> ereturn (Refuse [''proposal_no_longer_qualifies''], lv_policy_hash lv (lv_envelope lv))
     | Some p \<Rightarrow>
         ebind (eread (\<lambda>s. lane_pre lv p entry 0 (current_breaker s))) (\<lambda>pre.
         if pr_decision pre = DENIED then ereturn (Refuse (map reason_code_text (pr_reason_codes pre)), pr_policy_hash pre)
         else
           ebind (in_world (va_quote_market (lv_adapter lv) (pp_market_key p) (Some (lane_stake lv p)))) (\<lambda>quote.
           ebind (elift (slippage_bps (pp_reference_price p) (qt_price quote))) (\<lambda>slippage.
           ebind (elift (executable_edge_bps (pp_entry_prob_bps p) (qt_price quote))) (\<lambda>exec_edge.
           let post = lane_post lv p quote slippage exec_edge in
           ereturn (if pr_reason_codes post = [] then Submit p quote else Refuse (map reason_code_text (pr_reason_codes post)),
                    pr_policy_hash post))))))"

text \<open>The events of an approval are collected, not broadcast; the caller appends them.\<close>

definition collect :: "'w lane_env \<Rightarrow> 'w lane_env" where
  "collect lv = lv\<lparr>lv_broadcast := None\<rparr>"

definition emit_audit ::
  "'w lane_env \<Rightarrow> execution_record \<Rightarrow> string option \<Rightarrow> string option \<Rightarrow> string \<Rightarrow> string \<Rightarrow> ('w lane, unit) eff" where
  "emit_audit lv rec approver_id note decision policy_hash = emit_lane (collect lv) (\<lambda>seq.
     build_approval_audit_event (lv_codec lv) (ex_competition_id rec) (sl_run_id (lv_run lv)) seq (lv_event_ts lv) (ex_execution_id rec)
       [(''approver_id'', opt_str approver_id), (''execution_id'', VStr (ex_execution_id rec)), (''policy_hash'', VStr policy_hash),
        (''decision'', VStr decision), (''note'', opt_str note), (''ts'', VInt (lv_event_ts lv))])"

definition approved_step :: "'w lane_env \<Rightarrow> proposal \<Rightarrow> quote \<Rightarrow> execution_record \<Rightarrow> ('w lane, execution_record) eff" where
  "approved_step lv p quote rec =
     (let order = lane_order lv p quote (ex_execution_id rec) in
      ebind (elift (advance_execution POLICY_APPROVED rec)) (\<lambda>rec.
      ebind (in_world (execute_order (lv_adapter lv) (lv_execution_mode lv) (ex_execution_id rec) order)) (\<lambda>receipt.
      ebind (elift (advance_through (post_policy_path (rc_status receipt)) rec)) (\<lambda>rec.
      ebind (move_breaker lv receipt) (\<lambda>_.
      ebind (emit_submission (collect lv) (ex_competition_id rec) (ex_execution_id rec) (ex_agent_id rec) order receipt) (\<lambda>_.
        ereturn (rec\<lparr>ex_receipt := Some receipt\<rparr>)))))))"

definition refused_step :: "'w lane_env \<Rightarrow> string list \<Rightarrow> string \<Rightarrow> execution_record \<Rightarrow> ('w lane, execution_record) eff" where
  "refused_step lv reason_codes policy_hash rec =
     ebind (elift (advance_execution REJECTED rec)) (\<lambda>rec.
     ebind (emit_lane (collect lv) (\<lambda>seq.
       build_policy_result_event (lv_codec lv) (ex_competition_id rec) (sl_run_id (lv_run lv)) seq (lv_event_ts lv)
         (ex_agent_id rec) (ex_source_sequence_no rec)
         [(''decision'', VStr (decision_text DENIED)), (''reason_codes'', VList (map VStr reason_codes)), (''policy_hash'', VStr policy_hash)]
         (Some (ex_execution_id rec)))) (\<lambda>_.
       ereturn rec))"

definition resolve_approval ::
  "(string \<Rightarrow> int option) \<Rightarrow> 'w lane_env \<Rightarrow> pyfloat option \<Rightarrow> execution_record \<Rightarrow> agent_entry option \<Rightarrow> int
   \<Rightarrow> string option \<Rightarrow> string option \<Rightarrow> ('w lane, execution_record \<times> competition_event list \<times> string) eff" where
  "resolve_approval parse_int lv0 now rec entry base_seq approver_id note =
     ebind (eupdate (\<lambda>s. s\<lparr>ln_events := [], ln_seq := base_seq\<rparr>)) (\<lambda>_.
     ebind (elift (value_proposals (lv_codec lv0) parse_int (lv_run lv0) (pe_min_edge_bps (lv_envelope lv0)))) (\<lambda>proposals.
     ebind (elift (lane_env_for lv0 now)) (\<lambda>lv.
     ebind (resolve_guards (lv_clock lv)) (\<lambda>_.
     ebind (recheck lv entry (candidate_for rec proposals)) (\<lambda>(verdict, policy_hash).
     let decision = (case verdict of Submit _ _ \<Rightarrow> ''approved'' | Refuse _ \<Rightarrow> ''rejected'') in
     ebind (emit_audit lv rec approver_id note decision policy_hash) (\<lambda>_.
     ebind (case verdict of
              Submit p quote \<Rightarrow> approved_step lv p quote rec
            | Refuse reason_codes \<Rightarrow> refused_step lv reason_codes policy_hash rec) (\<lambda>rec.
     ebind (in_store (append_execution_record rec)) (\<lambda>_.
     ebind (eread ln_events) (\<lambda>events.
       ereturn (rec, events, decision))))))))))"

section \<open>Rules for the parts of the lane\<close>

lemma in_world_keeps: "keeps (\<lambda>w. P w) m \<Longrightarrow> (\<And>s w. I s \<Longrightarrow> P (ln_world s)) \<Longrightarrow> (\<And>s w. I s \<Longrightarrow> P w \<Longrightarrow> I (s\<lparr>ln_world := w\<rparr>)) \<Longrightarrow> keeps I (in_world m)"
  by (simp add: keeps_def in_world_def split: prod.split) (metis prod.collapse snd_conv)

lemma in_store_keeps: "(\<And>s st. I s \<Longrightarrow> I (s\<lparr>ln_store := st\<rparr>)) \<Longrightarrow> keeps I (in_store m)"
  by (simp add: keeps_def in_store_def split: prod.split)

lemma triple_in_world:
  assumes "triple P m Q E" and "\<And>s w. F (s\<lparr>ln_world := w\<rparr>) = F s"
  shows "triple (\<lambda>s. P (ln_world s) \<and> F s) (in_world m) (\<lambda>x s. Q x (ln_world s) \<and> F s) (\<lambda>e s. E e (ln_world s) \<and> F s)"
  unfolding triple_def
proof (intro allI impI)
  fix s assume s: "P (ln_world s) \<and> F s"
  obtain r w where "m (ln_world s) = (r, w)" by (cases "m (ln_world s)")
  with s triple_Inr [OF assms(1), of "ln_world s"] triple_Inl [OF assms(1), of "ln_world s"] assms(2)
  show "case in_world m s of (Inl e, s') \<Rightarrow> E e (ln_world s') \<and> F s' | (Inr x, s') \<Rightarrow> Q x (ln_world s') \<and> F s'"
    by (cases r) (simp_all add: in_world_def)
qed

section \<open>A run with one candidate\<close>

definition traded_tick :: pyval where
  "traded_tick = VDict [(''tick_seq'', VInt 0), (''markets'', VDict [(''m'', VDict [(''stable_prob_bps'', VDict [(''over'', VInt 10000)])])])]"

definition traded_row :: score_row where
  "traded_row = \<lparr>sr_agent_id = ''a'', sr_tick_seq = 0, sr_fields =
     [(''valid'', VBool True), (''recomputed_edge_bps'', VInt 200), (''kelly_fraction'', VFloat fl_zero),
      (''raw_prescore'', VDict [(''raw_action'', VDict [(''params'', VDict [(''market_key'', VStr ''m''), (''side'', VStr ''over'')])])])]\<rparr>"

definition traded_run :: sealed_run where
  "traded_run = \<lparr>rr_agent_ids = [''a''], rr_score_rows = [traded_row], rr_proof_mode_map = [], sl_run_id = ''r'', sl_source_mode = ''replay'',
     sl_run_events =
       [\<lparr>re_sequence_no = 0, re_event_type = ''tick'', re_state_snapshot_json = Some (number_text traded_tick), re_action_payload_json = None,
         re_validation_payload_json = None, re_result_payload_json = None\<rparr>,
        \<lparr>re_sequence_no = 1, re_event_type = ''decision'', re_state_snapshot_json = None, re_action_payload_json = None,
         re_validation_payload_json = None, re_result_payload_json = Some (number_text (VDict [(''agent_id'', VStr ''a'')]))\<rparr>],
     sl_evidence_hash = ''h''\<rparr>"

definition traded_proposal :: proposal where
  "traded_proposal = \<lparr>pp_agent_id = ''a'', pp_source_sequence_no = 1, pp_tick_seq = 0, pp_market_key = ''m'', pp_side = ''over'',
     pp_recomputed_edge_bps = 200, pp_kelly_fraction = fl_zero, pp_reference_price = fl_zero, pp_entry_prob_bps = 10000\<rparr>"

lemma number_loads: "loads_or_empty (number_codec id) (Some (number_text v)) = Inr v"
  using number_codec_loads [of id v] by (simp add: loads_or_empty_def number_codec_def)

lemma traded_proposals: "value_proposals (number_codec id) (\<lambda>_. None) traded_run 100 = Inr [traded_proposal]"
  by (simp add: value_proposals_def decision_seq_index_def entry_market_index_def traded_run_def number_loads traded_tick_def
      vget_def to_int_def str_key_def py_or_def row_proposal_def traded_row_def row_get_def proposal_params_def
      complete_proposal_def number_or_zero_def vget_key_def traded_proposal_def List.map_filter_def)

definition desk :: "string \<Rightarrow> unit venue_adapter" where
  "desk status = \<lparr>va_venue = ''desk'', va_class_name = ''Desk'', va_real_venue_quote = False,
     va_quote_market = (\<lambda>m z. ereturn \<lparr>qt_market_ref = m, qt_price = Fin 2, qt_native_price = None, qt_size = Fin 500, qt_for_size = z,
        qt_levels = [], qt_ts = 0\<rparr>),
     va_submit_order = (\<lambda>x. ereturn \<lparr>sa_venue_order_id = ''o'', sa_accepted = True\<rparr>),
     va_get_order_status = (\<lambda>i. ereturn \<lparr>vs_venue_order_id = i, vs_status = status, vs_filled_size = fl_zero, vs_price = Fin 2, vs_native_price = None\<rparr>),
     va_cancel_order = (\<lambda>i. ereturn \<lparr>ca_venue_order_id = i, ca_cancelled = True\<rparr>)\<rparr>"

definition desk_envelope :: policy_envelope where
  "desk_envelope = \<lparr>pe_max_stake = Fin 10, pe_max_orders_per_run = 1, pe_max_orders_per_session = 1, pe_max_orders_per_day = 1,
     pe_venue_allowlist = [''desk''], pe_market_allowlist = [''m''], pe_min_edge_bps = 100, pe_max_slippage_bps = 50,
     pe_max_price = Fin 3, pe_max_quote_age_s = 5, pe_cooldown_s = 0, pe_human_approval_threshold = Fin 100,
     pe_max_stake_live_guarded = Fin 5, pe_circuit_breaker_threshold = 1, pe_max_session_loss = fl_zero, pe_max_daily_loss = fl_zero,
     pe_kill_switch = False\<rparr>"

definition desk_env :: "string \<Rightarrow> string \<Rightarrow> unit lane_env" where
  "desk_env mode status = \<lparr>lv_codec = number_codec id, lv_policy_hash = (\<lambda>_. ''p''), lv_competition_id = ''c'', lv_run = traded_run,
     lv_envelope = desk_envelope, lv_adapter = desk status, lv_execution_mode = mode, lv_event_ts = 0, lv_bankroll = Fin 1000,
     lv_broadcast = None, lv_clock = fl_zero\<rparr>"

definition desk_lane :: "'w \<Rightarrow> 'w lane" where
  "desk_lane w = \<lparr>ln_world = w, ln_store = new_store, ln_guards = Some \<lparr>bc_breaker = new_breaker, bc_cooldown_s = Fin 30\<rparr>, ln_events = [],
     ln_seq = 0, ln_orders_this_run = 0\<rparr>"

definition desk_entries :: "(string, agent_entry) dict" where
  "desk_entries = [(''a'', demo_entry\<lparr>ae_execution_eligibility := True\<rparr>)]"

lemma desk_prices:
  "slippage_bps fl_zero (Fin 2) = Inr 0" "executable_edge_bps 10000 (Fin 2) = Inr 10000" "mispricing_gap_bps 10000 (Fin 2) = Inr 5000"
  using fl_round_int [of 10000] fl_round_int [of 1] fl_round_int [of 2] fl_round_int [of 5000]
  by (simp_all add: slippage_bps_def executable_edge_bps_def mispricing_gap_bps_def venue_implied_prob_bps_def float_of_int_def fl_fit_def
      fl_div_def fl_sub_def py_round_int_def rne_def)

lemma desk_status: "is_terminal \<lparr>vs_venue_order_id = i, vs_status = ''rejected'', vs_filled_size = z, vs_price = x, vs_native_price = n\<rparr>"
  "map_venue_status ''rejected'' = REJECTED"
  by (simp_all add: is_terminal_def terminal_statuses_def map_venue_status_def venue_status_map_def py_lower_def char_lower_def Let_def of_char_def)

section \<open>Candidates\<close>

text \<open>
  Every candidate the lane considers is a scored decision: the candidates come in the order of their
  decisions, and each has the market and side of a valid row, a law-computed integer edge of at least
  the minimum, the Kelly fraction the row was sealed with, and no value an agent claimed.
\<close>

theorem candidates_are_scored_decisions:
  assumes "value_proposals cd parse_int r min_edge_bps = Inr ps"
  shows "sorted (map pp_source_sequence_no ps) \<and> (\<forall>p \<in> set ps. \<exists>row \<in> set (rr_score_rows r). made_from row min_edge_bps p)"
  using value_proposals_sorted [OF assms] value_proposals_made_from [OF assms] by blast

theorem candidates_are_scored_decisions_witness: "made_from traded_row 100 traded_proposal"
  using candidates_are_scored_decisions [OF traded_proposals] by (simp add: traded_run_def)

end
