(* ===== verification/Lane_Events.thy ===== *)
theory Lane_Events
  imports Executor
begin

text \<open>
  What a run of the executor lane leaves behind: only execution records, each with the
  status its receipt calls for, and a gapless block of derived events that never touches the sealed run.
\<close>

section \<open>Events and records of the lane\<close>

text \<open>The events so far are numbered from a base without gaps and are derivations.\<close>

definition lane_derived :: "codec \<Rightarrow> competition_event \<Rightarrow> bool" where
  "lane_derived cd e \<longleftrightarrow> \<not> ce_evidence e \<and> ce_source_sequence_no e = None \<and> ce_derived_from e \<noteq> []
     \<and> ce_payload_hash e = event_payload_hash cd (VDict (ce_payload e))
     \<and> ce_event_type e \<in> {POLICY_RESULT, EXECUTION_SUBMITTED, EXECUTION_RECEIPT, APPROVAL_AUDIT}"

definition numbered_from :: "codec \<Rightarrow> int \<Rightarrow> 'w lane \<Rightarrow> bool" where
  "numbered_from cd base s \<longleftrightarrow> map ce_seq (ln_events s) = map (\<lambda>i. base + int i) [0 ..< length (ln_events s)]
     \<and> ln_seq s = base + int (length (ln_events s)) \<and> (\<forall>e \<in> set (ln_events s). lane_derived cd e)"

text \<open>
  A record as the lane leaves it. The status that a receipt gives the record is written out: the
  receipt's own status for a filled, partial, accepted, rejected or expired order; a cancelled or
  unresolved order leaves the record at SUBMITTED.
\<close>

definition receipt_terminal :: "execution_status \<Rightarrow> execution_status" where
  "receipt_terminal st = (if st \<in> {FILLED, PARTIAL, ACCEPTED, REJECTED, EXPIRED} then st else SUBMITTED)"

definition lane_record_ok :: "'w lane_env \<Rightarrow> execution_record \<Rightarrow> bool" where
  "lane_record_ok lv r \<longleftrightarrow> ex_competition_id r = lv_competition_id lv \<and> ex_run_id r = sl_run_id (lv_run lv)
     \<and> (case ex_receipt r of
          None \<Rightarrow> ex_status r \<in> {REJECTED, AWAITING_HUMAN, LAW_APPROVED}
        | Some receipt \<Rightarrow> rc_execution_id receipt = ex_execution_id r \<and> lv_execution_mode lv \<noteq> ''paper''
            \<and> ex_status r = receipt_terminal (rc_status receipt))"

definition only_records :: "('w lane_env) \<Rightarrow> store \<Rightarrow> 'w lane \<Rightarrow> bool" where
  "only_records lv st s \<longleftrightarrow> (\<exists>recs. ln_store s = st\<lparr>st_execution_records := recs\<rparr>
     \<and> (\<forall>eid r. map_of recs eid = Some r \<longrightarrow> map_of (st_execution_records st) eid = Some r \<or> lane_record_ok lv r))"

text \<open>The venue and the broadcast do not raise the exception of the lifecycle.\<close>

definition no_transition_error :: "('s, 'a) eff \<Rightarrow> bool" where
  "no_transition_error m \<longleftrightarrow> (\<forall>s. fst (m s) \<noteq> Inl ExecutionTransitionError)"

definition hooks_legal :: "'w lane_env \<Rightarrow> bool" where
  "hooks_legal lv \<longleftrightarrow> (\<forall>m z. no_transition_error (va_quote_market (lv_adapter lv) m z))
     \<and> (\<forall>x. no_transition_error (va_submit_order (lv_adapter lv) x))
     \<and> (\<forall>i. no_transition_error (va_get_order_status (lv_adapter lv) i))
     \<and> (\<forall>f ev. lv_broadcast lv = Some f \<longrightarrow> no_transition_error (f ev))"

lemma no_transition_error_simps [simp]:
  "no_transition_error (ereturn x)" "no_transition_error (eupdate g)" "no_transition_error (eread h)"
  "no_transition_error (elift r) \<longleftrightarrow> r \<noteq> Inl ExecutionTransitionError"
  by (simp_all add: no_transition_error_def eff_apply)

lemma no_transition_error_ebind [intro]:
  "no_transition_error m \<Longrightarrow> (\<And>x. no_transition_error (f x)) \<Longrightarrow> no_transition_error (ebind m f)"
  by (auto simp: no_transition_error_def ebind_apply split: prod.split sum.split) (metis fst_conv)

lemma poll_no_transition_error:
  assumes "\<And>i. no_transition_error (va_get_order_status ad i)"
  shows "no_transition_error (poll_order_terminal ad i)"
proof -
  have "(\<And>i. no_transition_error (va_get_order_status ad i)) \<Longrightarrow> no_transition_error (status_poll ad i observed elapsed)" for observed elapsed
    by (induction ad i observed elapsed rule: status_poll.induct) (subst status_poll.simps, auto)
  with assms show ?thesis by (auto simp: poll_order_terminal_def)
qed

lemma execute_order_no_transition_error:
  "hooks_legal lv \<Longrightarrow> no_transition_error (execute_order (lv_adapter lv) mode eid order)"
  by (auto simp: execute_order_def hooks_legal_def intro!: no_transition_error_ebind poll_no_transition_error)

lemma price_errors:
  "slippage_bps a b \<noteq> Inl ExecutionTransitionError" "executable_edge_bps k b \<noteq> Inl ExecutionTransitionError"
  "mispricing_gap_bps k b \<noteq> Inl ExecutionTransitionError"
  by (auto simp: slippage_bps_def executable_edge_bps_def mispricing_gap_bps_def venue_implied_prob_bps_def rbind_Inl_iff
      fl_div_def py_round_int_def float_of_int_def fl_fit_def split: if_splits pyfloat.splits)

lemma post_policy_path_legal:
  "ex_status r = POLICY_APPROVED \<Longrightarrow> advance_through (post_policy_path st) r = Inr (r\<lparr>ex_status := receipt_terminal st\<rparr>)"
  by (cases st) (simp_all add: advance_execution_def receipt_terminal_def)

text \<open>
  One invariant for the whole lane: on a normal return both parts hold, on an exception the store part
  does, and the exception is not one of the lifecycle.
\<close>

definition lane_inv :: "'w lane_env \<Rightarrow> int \<Rightarrow> store \<Rightarrow> 'w lane \<Rightarrow> bool" where
  "lane_inv lv base st s \<longleftrightarrow> numbered_from (lv_codec lv) base s \<and> only_records lv st s"

definition lane_exn :: "'w lane_env \<Rightarrow> store \<Rightarrow> py_error \<Rightarrow> 'w lane \<Rightarrow> bool" where
  "lane_exn lv st e s \<longleftrightarrow> only_records lv st s \<and> e \<noteq> ExecutionTransitionError"

lemma no_transition_triple:
  assumes "no_transition_error m"
  shows "triple (\<lambda>_. True) m (\<lambda>_ _. True) (\<lambda>e _. e \<noteq> ExecutionTransitionError)"
  unfolding triple_def
proof (intro allI impI)
  fix s
  have "fst (m s) \<noteq> Inl ExecutionTransitionError" using assms by (simp add: no_transition_error_def)
  then show "case m s of (Inl e, s') \<Rightarrow> e \<noteq> ExecutionTransitionError | (Inr x, s') \<Rightarrow> True"
    by (cases "m s"; cases "fst (m s)") auto
qed

text \<open>A call of the world keeps what does not depend on it.\<close>

lemma in_world_frame:
  assumes "no_transition_error m" and "\<And>s w. F (s\<lparr>ln_world := w\<rparr>) = F s"
  shows "triple F (in_world m) (\<lambda>_. F) (\<lambda>e s. F s \<and> e \<noteq> ExecutionTransitionError)"
  by (rule triple_conseq [OF triple_in_world [where F = F, OF no_transition_triple [OF assms(1)] assms(2)]]) simp_all

lemma inv_world: "lane_inv lv base st (s\<lparr>ln_world := w\<rparr>) = lane_inv lv base st s"
  by (simp add: lane_inv_def numbered_from_def only_records_def)

lemma inv_in_world:
  assumes "no_transition_error m"
  shows "triple (lane_inv lv base st) (in_world m) (\<lambda>_. lane_inv lv base st) (lane_exn lv st)"
  by (rule triple_conseq [OF in_world_frame [OF assms inv_world]]) (auto simp: lane_exn_def lane_inv_def)

lemma inv_elift:
  "r \<noteq> Inl ExecutionTransitionError \<Longrightarrow> triple (lane_inv lv base st) (elift r) (\<lambda>_. lane_inv lv base st) (lane_exn lv st)"
  by (auto simp: triple_simps lane_inv_def lane_exn_def split: sum.split)

lemma inv_emit:
  assumes "hooks_legal lv" and "\<And>seq. ce_seq (build seq) = seq \<and> lane_derived (lv_codec lv) (build seq)"
  shows "triple (lane_inv lv base st) (emit_lane lv build) (\<lambda>_. lane_inv lv base st) (lane_exn lv st)"
proof -
  let ?J = "\<lambda>s seq. ln_seq s = seq \<and> lane_inv lv base st (s\<lparr>ln_seq := seq + 1\<rparr>)"
  have hook: "triple (\<lambda>s. ?J s seq) (case lv_broadcast lv of None \<Rightarrow> ereturn () | Some f \<Rightarrow> in_world (f ev)) (\<lambda>_ s. ?J s seq) (lane_exn lv st)" for seq ev
  proof (cases "lv_broadcast lv")
    case None
    then show ?thesis by (simp add: triple_simps)
  next
    case (Some f)
    have legal: "no_transition_error (f ev)" using assms(1) Some by (simp add: hooks_legal_def)
    have "triple (\<lambda>s. ?J s seq) (in_world (f ev)) (\<lambda>_ s. ?J s seq) (lane_exn lv st)"
      by (rule triple_conseq [OF in_world_frame [OF legal, where F = "\<lambda>s. ?J s seq"]])
         (auto simp: lane_exn_def lane_inv_def numbered_from_def only_records_def)
    with Some show ?thesis by simp
  qed
  show ?thesis unfolding emit_lane_def
  proof (rule triple_ebind)
    show "triple (lane_inv lv base st) (eread ln_seq) (\<lambda>seq s. ln_seq s = seq \<and> lane_inv lv base st s) (lane_exn lv st)"
      by (simp add: triple_simps)
  next
    fix seq
    show "triple (\<lambda>s. ln_seq s = seq \<and> lane_inv lv base st s)
      (ebind (eupdate (\<lambda>s. s\<lparr>ln_events := ln_events s @ [build seq]\<rparr>)) (\<lambda>_.
       ebind (case lv_broadcast lv of None \<Rightarrow> ereturn () | Some f \<Rightarrow> in_world (f (build seq))) (\<lambda>_.
         eupdate (\<lambda>s. s\<lparr>ln_seq := seq + 1\<rparr>)))) (\<lambda>_. lane_inv lv base st) (lane_exn lv st)"
      by (rule triple_ebind [where R = "\<lambda>_ s. ?J s seq"], use assms(2) in \<open>simp add: triple_simps lane_inv_def numbered_from_def only_records_def\<close>,
          rule triple_ebind [OF hook]) (auto simp: triple_simps lane_inv_def numbered_from_def only_records_def)
  qed
qed

lemma inv_store:
  assumes "lane_record_ok lv r"
  shows "triple (lane_inv lv base st) (in_store (append_execution_record r)) (\<lambda>_. lane_inv lv base st) E"
proof -
  have "only_records lv st (s\<lparr>ln_store := ln_store s\<lparr>st_execution_records := AList.update (ex_execution_id r) r (st_execution_records (ln_store s))\<rparr>\<rparr>)"
    if only: "only_records lv st s" for s :: "'a lane"
  proof -
    from only obtain recs where "ln_store s = st\<lparr>st_execution_records := recs\<rparr>"
      and "\<And>eid x. map_of recs eid = Some x \<Longrightarrow> map_of (st_execution_records st) eid = Some x \<or> lane_record_ok lv x"
      by (auto simp: only_records_def)
    with assms show ?thesis unfolding only_records_def
      by (intro exI [of _ "AList.update (ex_execution_id r) r recs"]) (auto simp: update_conv')
  qed
  then show ?thesis
    by (auto simp: triple_def in_store_def append_execution_record_def eff_apply lane_inv_def numbered_from_def)
qed

lemma lane_event_fields:
  "ce_seq (build_policy_result_event cd c r seq ts a src payload eid) = seq"
  "lane_derived cd (build_policy_result_event cd c r seq ts a src payload eid)"
  "ce_seq (build_execution_submitted_event cd c r seq ts x payload) = seq"
  "lane_derived cd (build_execution_submitted_event cd c r seq ts x payload)"
  "ce_seq (build_execution_receipt_event cd c r seq ts x payload) = seq"
  "lane_derived cd (build_execution_receipt_event cd c r seq ts x payload)"
  "ce_seq (build_approval_audit_event cd c r seq ts x payload) = seq"
  "lane_derived cd (build_approval_audit_event cd c r seq ts x payload)"
  by (simp_all add: build_policy_result_event_def build_execution_submitted_event_def build_execution_receipt_event_def
      build_approval_audit_event_def derived_event_def lane_derived_def)

lemma inv_update: "(\<And>s. lane_inv lv base st s \<Longrightarrow> lane_inv lv base st (g s)) \<Longrightarrow>
  triple (lane_inv lv base st) (eupdate g) (\<lambda>_. lane_inv lv base st) (lane_exn lv st)"
  by (simp add: triple_simps)

lemma inv_count: "triple (lane_inv lv base st) count_order (\<lambda>_. lane_inv lv base st) (lane_exn lv st)"
  unfolding count_order_def by (rule inv_update) (simp add: lane_inv_def numbered_from_def only_records_def)

lemma inv_breaker: "triple (lane_inv lv base st) (move_breaker lv' receipt) (\<lambda>_. lane_inv lv base st) (lane_exn lv st)"
  by (auto simp: move_breaker_def on_breaker_def triple_simps lane_inv_def numbered_from_def only_records_def)

lemma inv_submission:
  "hooks_legal lv \<Longrightarrow> triple (lane_inv lv base st) (emit_submission lv c eid aid order receipt) (\<lambda>_. lane_inv lv base st) (lane_exn lv st)"
  unfolding emit_submission_def
  by (rule triple_ebind [OF inv_emit]) (auto simp: lane_event_fields intro!: inv_emit)

lemma build_receipt_id: "triple (\<lambda>_. True) (execute_order ad mode eid order) (\<lambda>receipt _. rc_execution_id receipt = eid) (\<lambda>_ _. True)"
  by (auto simp: execute_order_def triple_def ebind_apply eff_apply build_receipt_def split: prod.splits sum.splits)

lemma inv_submit_step:
  assumes "hooks_legal lv" and "ex_status rec = LAW_APPROVED" and "ex_execution_id rec = execution_id_of lv p"
    and "ex_competition_id rec = lv_competition_id lv" and "ex_run_id rec = sl_run_id (lv_run lv)" and "lv_execution_mode lv \<noteq> ''paper''"
  shows "triple (lane_inv lv base st) (submit_step lv p quote rec) (\<lambda>r s. lane_record_ok lv r \<and> lane_inv lv base st s) (lane_exn lv st)"
proof -
  let ?order = "lane_order lv p quote (execution_id_of lv p)"
  let ?rec = "rec\<lparr>ex_status := POLICY_APPROVED\<rparr>"
  have approve: "advance_execution POLICY_APPROVED rec = Inr ?rec" using assms(2) by (simp add: advance_execution_def)
  have exec: "triple (lane_inv lv base st) (in_world (execute_order (lv_adapter lv) (lv_execution_mode lv) (execution_id_of lv p) ?order))
      (\<lambda>receipt s. rc_execution_id receipt = execution_id_of lv p \<and> lane_inv lv base st s) (lane_exn lv st)"
    by (rule triple_conseq [OF triple_conj [OF inv_in_world [OF execute_order_no_transition_error [OF assms(1)]]
          triple_in_world [where F = "\<lambda>_. True", OF build_receipt_id refl]]]) auto
  have walk: "advance_through (post_policy_path (rc_status receipt)) ?rec
      = Inr (rec\<lparr>ex_status := receipt_terminal (rc_status receipt)\<rparr>)" for receipt
    using post_policy_path_legal [of ?rec] by simp
  show ?thesis unfolding submit_step_def Let_def approve ebind_simps walk
    by (rule triple_ebind [OF exec], rule triple_ebind [OF triple_frame [OF inv_count]], rule triple_ebind [OF triple_frame [OF inv_breaker]],
        rule triple_ebind [OF triple_frame [OF inv_submission [OF assms(1)]]])
       (use assms in \<open>auto simp: triple_simps lane_record_ok_def\<close>)
qed

lemma inv_lane_step:
  assumes "hooks_legal lv"
  shows "triple (lane_inv lv base st) (lane_step lv entries p) (\<lambda>_. lane_inv lv base st) (lane_exn lv st)"
proof -
  let ?I = "lane_inv lv base st" and ?E = "lane_exn lv st"
  let ?good = "\<lambda>r s. lane_record_ok lv r \<and> ?I s"
  define law where "law pre = (new_record lv p (pr_policy_hash pre))\<lparr>ex_status := LAW_APPROVED\<rparr>" for pre :: policy_result
  have start: "advance_execution LAW_APPROVED (new_record lv p (pr_policy_hash pre)) = Inr (law pre)" for pre
    by (simp add: advance_execution_def new_record_def law_def)
  have fields: "ex_status (law pre) = LAW_APPROVED" "ex_execution_id (law pre) = execution_id_of lv p" "ex_receipt (law pre) = None"
    "ex_competition_id (law pre) = lv_competition_id lv" "ex_run_id (law pre) = sl_run_id (lv_run lv)" for pre
    by (simp_all add: law_def new_record_def)
  have emit: "triple ?I (emit_policy_result lv p payload) (\<lambda>_. ?I) ?E" for payload
    unfolding emit_policy_result_def by (rule inv_emit [OF assms]) (simp add: lane_event_fields)
  have denied: "triple ?I (denied_step lv p pre (law pre')) ?good ?E" for pre pre'
    unfolding denied_step_def
    by (rule triple_ebind [OF emit]) (simp add: advance_execution_def fields triple_simps lane_record_ok_def)
  have settle: "triple ?I (settle_decision lv p entry quote post (law pre\<lparr>ex_policy_hash := h\<rparr>)) ?good ?E" for entry quote post pre h
    using inv_submit_step [OF assms, of "law pre\<lparr>ex_policy_hash := h\<rparr>" p base st quote]
    by (simp add: settle_decision_def advance_execution_def fields triple_simps lane_record_ok_def will_submit_def)
  have quoted: "triple ?I (quoted_step lv p entry (law pre)) ?good ?E" for entry pre
    unfolding quoted_step_def Let_def
    by (rule triple_ebind [OF inv_in_world], use assms in \<open>simp add: hooks_legal_def\<close>,
        rule triple_ebind [OF inv_elift [OF price_errors(1)]], rule triple_ebind [OF inv_elift [OF price_errors(2)]],
        rule triple_ebind [OF inv_elift [OF price_errors(3)]], rule triple_ebind [OF emit], rule settle)
  have read: "triple ?I (eread f) (\<lambda>_. ?I) ?E" for f :: "'a lane \<Rightarrow> policy_result" by (simp add: triple_simps)
  show ?thesis unfolding lane_step_def Let_def start ebind_simps
  proof (rule triple_ebind [OF read], rule triple_ebind)
    show "triple ?I (if pr_decision pre = DENIED then denied_step lv p pre (law pre) else quoted_step lv p (map_of entries (pp_agent_id p)) (law pre)) ?good ?E" for pre
      using denied quoted by simp
    show "triple (?good r) (in_store (append_execution_record r)) (\<lambda>_. ?I) ?E" for r
      by (rule triple_pure) (rule inv_store)
  qed
qed

lemma lane_env_for_fields:
  assumes "lane_env_for lv now = Inr lv'"
  shows "\<exists>t. lv' = lv\<lparr>lv_clock := t\<rparr>"
  using assms by (auto simp: lane_env_for_def rbind_Inr_iff split: option.splits)

lemma lane_env_for_error: "lane_env_for lv now \<noteq> Inl ExecutionTransitionError"
  by (auto simp: lane_env_for_def rbind_Inl_iff float_of_int_def fl_fit_def split: option.splits if_splits)

lemma clock_only_record [simp]: "lane_record_ok (lv\<lparr>lv_clock := t\<rparr>) r = lane_record_ok lv r"
  by (simp add: lane_record_ok_def split: option.split)

lemma clock_only [simp]:
  "hooks_legal (lv\<lparr>lv_clock := t\<rparr>) = hooks_legal lv"
  "lane_inv (lv\<lparr>lv_clock := t\<rparr>) = lane_inv lv" "lane_exn (lv\<lparr>lv_clock := t\<rparr>) = lane_exn lv"
  by (simp_all add: hooks_legal_def lane_inv_def lane_exn_def only_records_def fun_eq_iff)

text \<open>
  C34: running the lane leaves the competition as it was sealed: whatever the venue and the gates answer, and
  even when the lane stops with an exception, the store keeps its runs, scores, logs and everything else, and
  gains only execution records. A record without a receipt is refused, waiting for a human or approved by
  the law only. A record with a receipt has the receipt's status when the order was filled, partly filled,
  accepted, rejected or expired; a receipt with any other status, such as cancelled or unresolved, leaves
  the record at SUBMITTED. No transition of a record is refused as illegal, and the events the lane returns
  are derivations, numbered without gaps from its base.
\<close>

theorem lane_leaves_the_seal:
  assumes "run_execution_lane parse_int lv now entries base_seq s = (r, s')" and "hooks_legal lv"
  shows "\<exists>recs. ln_store s' = (ln_store s)\<lparr>st_execution_records := recs\<rparr>
    \<and> (\<forall>eid x. map_of recs eid = Some x \<longrightarrow> map_of (st_execution_records (ln_store s)) eid = Some x \<or> lane_record_ok lv x)
    \<and> (r = Inl ExecutionTransitionError \<longrightarrow> value_proposals (lv_codec lv) parse_int (lv_run lv) (pe_min_edge_bps (lv_envelope lv)) = Inl ExecutionTransitionError)
    \<and> (\<forall>events. r = Inr events \<longrightarrow> map ce_seq events = map (\<lambda>i. base_seq + int i) [0 ..< length events]
         \<and> (\<forall>e \<in> set events. lane_derived (lv_codec lv) e))"
proof (cases "value_proposals (lv_codec lv) parse_int (lv_run lv) (pe_min_edge_bps (lv_envelope lv))")
  case (Inl e)
  have "ln_store s = (ln_store s)\<lparr>st_execution_records := st_execution_records (ln_store s)\<rparr>" by simp
  with Inl assms(1) show ?thesis
    by (intro exI [of _ "st_execution_records (ln_store s)"]) (auto simp: run_execution_lane_def eff_apply)
next
  case (Inr proposals)
  let ?I = "lane_inv lv base_seq (ln_store s)" and ?E = "lane_exn lv (ln_store s)"
  have env: "triple ?I (elift (lane_env_for lv now)) (\<lambda>lv' t. (\<exists>c. lv' = lv\<lparr>lv_clock := c\<rparr>) \<and> ?I t) ?E"
    using lane_env_for_error [of lv now] lane_env_for_fields [of lv now]
    by (auto simp: triple_simps lane_inv_def lane_exn_def split: sum.split)
  have guards: "triple ?I (resolve_guards t) (\<lambda>_. ?I) ?E" for t
    by (simp add: resolve_guards_def triple_simps lane_inv_def numbered_from_def only_records_def)
  have steps: "triple ?I (efor proposals (lane_step (lv\<lparr>lv_clock := c\<rparr>) entries)) (\<lambda>_. ?I) ?E" for c
    using inv_lane_step [of "lv\<lparr>lv_clock := c\<rparr>" base_seq "ln_store s" entries] assms(2) by (intro triple_efor) simp
  have reset: "triple (\<lambda>t. t = s) (eupdate (\<lambda>s. s\<lparr>ln_events := [], ln_seq := base_seq, ln_orders_this_run := 0\<rparr>)) (\<lambda>_. ?I) ?E"
    by (auto simp: triple_simps lane_inv_def numbered_from_def only_records_def intro!: exI [of _ "st_execution_records (ln_store s)"])
  have "triple (\<lambda>t. t = s) (run_execution_lane parse_int lv now entries base_seq)
      (\<lambda>events t. ?I t \<and> events = ln_events t) ?E"
    unfolding run_execution_lane_def Inr ebind_simps
    by (rule triple_ebind [OF reset], rule triple_ebind [OF env], rule triple_pure, elim exE, simp only:,
        rule triple_ebind [OF guards], rule triple_ebind [OF steps]) (simp add: triple_simps)
  from triple_Inr [OF this refl] triple_Inl [OF this refl] assms(1) show ?thesis
    by (cases r) (auto simp: lane_inv_def lane_exn_def numbered_from_def only_records_def)
qed

lemma updated_record: "map_of (AList.update k v al) k = Some v"
  by (simp add: update_conv')

lemma rejected_record:
  "\<exists>eid r receipt. map_of (st_execution_records (ln_store (snd (run_execution_lane (\<lambda>_. None) (desk_env ''live_guarded'' ''rejected'') None desk_entries 7 (desk_lane ()))))) eid
     = Some r \<and> ex_receipt r = Some receipt \<and> rc_status receipt = REJECTED"
  using traded_proposals desk_prices
  by (simp add: run_execution_lane_def desk_env_def desk_lane_def desk_envelope_def desk_entries_def lane_env_for_def float_of_int_def fl_fit_def
     resolve_guards_def ebind_apply eff_apply lane_step_def lane_pre_def lane_post_def lane_stake_def size_stake_def
     gate_defs traded_proposal_def py_min_def desk_status desk_def venue_name_def current_breaker_def
     new_breaker_def allows_def agent_eligible_def is_live_def quoted_step_def in_world_def cap_breached_def in_cooldown_def flag_def
     emit_policy_result_def emit_lane_def settle_decision_def will_submit_def submit_step_def execute_order_def
     poll_order_terminal_def status_poll.simps new_record_def advance_execution_def build_receipt_def count_order_def move_breaker_def
     on_breaker_def emit_submission_def in_store_def append_execution_record_def Let_def resolve_def executed_failure_terminals_def lane_order_def)
    (intro exI conjI, rule updated_record, simp, simp)

theorem lane_leaves_the_seal_witness:
  "\<exists>recs eid r receipt. ln_store (snd (run_execution_lane (\<lambda>_. None) (desk_env ''live_guarded'' ''rejected'') None desk_entries 7 (desk_lane ())))
     = new_store\<lparr>st_execution_records := recs\<rparr>
     \<and> map_of recs eid = Some r \<and> ex_receipt r = Some receipt \<and> rc_status receipt = REJECTED \<and> ex_status r = REJECTED"
proof -
  have "hooks_legal (desk_env ''live_guarded'' ''rejected'')"
    by (simp add: hooks_legal_def desk_env_def desk_def)
  from lane_leaves_the_seal [OF surjective_pairing this, where parse_int = "\<lambda>_. None" and now = None and entries = desk_entries
      and base_seq = 7 and s = "desk_lane ()"] obtain recs where recs:
    "ln_store (snd (run_execution_lane (\<lambda>_. None) (desk_env ''live_guarded'' ''rejected'') None desk_entries 7 (desk_lane ())))
       = new_store\<lparr>st_execution_records := recs\<rparr>"
    "\<And>eid x. map_of recs eid = Some x \<Longrightarrow> lane_record_ok (desk_env ''live_guarded'' ''rejected'') x"
    by (fastforce simp: desk_lane_def new_store_def)
  from rejected_record obtain eid r receipt where r: "map_of recs eid = Some r" "ex_receipt r = Some receipt" "rc_status receipt = REJECTED"
    unfolding recs(1) by auto
  from recs(2) [OF r(1)] r(2,3) have "ex_status r = REJECTED" by (simp add: lane_record_ok_def receipt_terminal_def)
  with recs(1) r show ?thesis by blast
qed

end
