(* ===== verification/Lane_Orders.thy ===== *)
theory Lane_Orders
  imports Lane_Events
begin

text \<open>
  The orders the executor lane can hand to a venue, whatever the venue does: a monitor of the venue
  as a locale, the orders of a run of the lane and of a human approval under it, a finer monitor that
  lists the venue's quotes with the orders made from them, and the circuit breaker against a venue that
  keeps failing.
\<close>

section \<open>What a lane step can do\<close>

text \<open>
  A monitor of the venue: an observable of the world that lists the orders placed. Reading calls and the
  broadcast leave it alone, a submit adds its order whatever comes back, and every status the venue
  reports has a given property.
\<close>

definition lane_view :: "('w \<Rightarrow> taker_order list) \<Rightarrow> 'w lane \<Rightarrow> taker_order list \<times> int \<times> breaker_cell option" where
  "lane_view submitted s = (submitted (ln_world s), ln_orders_this_run s, ln_guards s)"

definition sent :: "'w lane_env \<Rightarrow> taker_order \<Rightarrow> taker_order list" where
  "sent lv order = (if lv_execution_mode lv = ''dry_run'' then [] else [order])"

definition moved :: "'w lane_env \<Rightarrow> execution_receipt \<Rightarrow> breaker_cell option \<Rightarrow> breaker_cell option" where
  "moved lv receipt guards = (if is_live lv then map_option (\<lambda>g. g\<lparr>bc_breaker :=
     (if rc_status receipt \<in> set executed_failure_terminals
      then record_failure (pe_circuit_breaker_threshold (lv_envelope lv)) (lv_clock lv) (bc_breaker g)
      else record_success (bc_breaker g))\<rparr>) guards else guards)"

text \<open>The gates as a lane step passes them with a count of orders and a breaker.\<close>

definition passes_gates ::
  "'w lane_env \<Rightarrow> agent_entry option \<Rightarrow> int \<Rightarrow> circuit_breaker \<Rightarrow> proposal \<Rightarrow> quote \<Rightarrow> bool" where
  "passes_gates lv entry orders breaker p quote \<longleftrightarrow>
     pr_decision (lane_pre lv p entry orders breaker) \<noteq> DENIED
     \<and> (\<exists>slippage exec_edge. slippage_bps (pp_reference_price p) (qt_price quote) = Inr slippage
          \<and> executable_edge_bps (pp_entry_prob_bps p) (qt_price quote) = Inr exec_edge
          \<and> pr_decision (lane_post lv p quote slippage exec_edge) = APPROVED)
     \<and> lv_execution_mode lv \<noteq> ''paper'' \<and> agent_eligible entry"

lemma passes_gates_limits:
  assumes "passes_gates lv entry orders breaker p quote"
  shows "\<not> pe_kill_switch (lv_envelope lv)" and "allows breaker" and "agent_eligible entry" and "lv_execution_mode lv \<noteq> ''paper''"
    and "orders < pe_max_orders_per_run (lv_envelope lv)"
    and "venue_name (lv_adapter lv) \<in> set (pe_venue_allowlist (lv_envelope lv))"
    and "pp_market_key p \<in> set (pe_market_allowlist (lv_envelope lv))"
    and "\<not> fl_lt (pe_max_stake (lv_envelope lv)) (lane_stake lv p)"
    and "is_live lv \<Longrightarrow> fl_lt fl_zero (pe_max_stake_live_guarded (lv_envelope lv)) \<Longrightarrow> \<not> fl_lt (pe_max_stake_live_guarded (lv_envelope lv)) (lane_stake lv p)"
    and "\<not> fl_le (pe_human_approval_threshold (lv_envelope lv)) (lane_stake lv p)"
    and "\<not> fl_lt (pe_max_price (lv_envelope lv)) (qt_price quote)"
    and "\<not> fl_lt (qt_size quote) (lane_stake lv p)"
  using assms by (auto simp: passes_gates_def lane_pre_def lane_post_def gate_defs split: if_splits)

text \<open>A human approval: the gates are passed afresh, with no orders counted before.\<close>

definition passes_recheck :: "'w lane_env \<Rightarrow> agent_entry option \<Rightarrow> circuit_breaker \<Rightarrow> proposal \<Rightarrow> quote \<Rightarrow> bool" where
  "passes_recheck lv entry breaker p quote \<longleftrightarrow>
     pr_decision (lane_pre lv p entry 0 breaker) \<noteq> DENIED
     \<and> (\<exists>slippage exec_edge. slippage_bps (pp_reference_price p) (qt_price quote) = Inr slippage
          \<and> executable_edge_bps (pp_entry_prob_bps p) (qt_price quote) = Inr exec_edge
          \<and> pr_reason_codes (lane_post lv p quote slippage exec_edge) = [])"

lemma passes_recheck_limits:
  assumes "passes_recheck lv entry breaker p quote"
  shows "\<not> pe_kill_switch (lv_envelope lv)" and "allows breaker" and "agent_eligible entry"
    and "0 < pe_max_orders_per_run (lv_envelope lv)"
    and "venue_name (lv_adapter lv) \<in> set (pe_venue_allowlist (lv_envelope lv))"
    and "pp_market_key p \<in> set (pe_market_allowlist (lv_envelope lv))"
    and "\<not> fl_lt (pe_max_stake (lv_envelope lv)) (lane_stake lv p)"
    and "is_live lv \<Longrightarrow> fl_lt fl_zero (pe_max_stake_live_guarded (lv_envelope lv)) \<Longrightarrow> \<not> fl_lt (pe_max_stake_live_guarded (lv_envelope lv)) (lane_stake lv p)"
    and "\<not> fl_lt (pe_max_price (lv_envelope lv)) (qt_price quote)"
    and "\<not> fl_lt (qt_size quote) (lane_stake lv p)"
  using assms by (auto simp: passes_recheck_def lane_pre_def lane_post_def gate_defs split: if_splits)

locale order_monitor =
  fixes adapter :: "'w venue_adapter"
    and broadcast :: "(competition_event \<Rightarrow> ('w, unit) eff) option"
    and submitted :: "'w \<Rightarrow> taker_order list"
    and reports :: "venue_order_status \<Rightarrow> bool"
  assumes quote_keeps: "keeps (\<lambda>w. submitted w = l) (va_quote_market adapter m z)"
    and status_reports: "triple (\<lambda>w. submitted w = l) (va_get_order_status adapter i) (\<lambda>st w. submitted w = l \<and> reports st) (\<lambda>_ w. submitted w = l)"
    and broadcast_keeps: "broadcast = Some f \<Longrightarrow> keeps (\<lambda>w. submitted w = l) (f ev)"
    and submit_adds: "submitted (snd (va_submit_order adapter x w)) = submitted w @ [x]"
begin

lemma poll_reports:
  "triple (\<lambda>w. submitted w = l) (poll_order_terminal adapter i) (\<lambda>st w. submitted w = l \<and> reports st) (\<lambda>_ w. submitted w = l)"
proof -
  have loop: "ad = adapter \<Longrightarrow> triple (\<lambda>w. submitted w = l \<and> reports observed) (status_poll ad i observed elapsed)
      (\<lambda>st w. submitted w = l \<and> reports st) (\<lambda>_ w. submitted w = l)" for ad observed elapsed
  proof (induction ad i observed elapsed rule: status_poll.induct)
    case (1 ad i observed elapsed)
    have query: "triple (\<lambda>w. submitted w = l \<and> reports observed) (va_get_order_status adapter i)
        (\<lambda>st w. submitted w = l \<and> reports st) (\<lambda>_ w. submitted w = l)"
      by (rule triple_conseq [OF status_reports]) auto
    show ?case using 1
      by (subst status_poll.simps) (auto simp: triple_simps intro!: triple_ebind [OF query])
  qed
  show ?thesis unfolding poll_order_terminal_def by (rule triple_ebind [OF status_reports loop [OF refl]])
qed

lemma view_in_world: "keeps (\<lambda>w. submitted w = l) m \<Longrightarrow> keeps (\<lambda>s. lane_view submitted s = (l, n, g)) (in_world m)"
  by (rule in_world_keeps) (auto simp: lane_view_def)

lemma view_emit:
  assumes "lv_broadcast lv = broadcast \<or> lv_broadcast lv = None"
  shows "keeps (\<lambda>s. lane_view submitted s = (l, n, g)) (emit_lane lv build)"
proof -
  have "keeps (\<lambda>s. lane_view submitted s = (l, n, g)) (case lv_broadcast lv of None \<Rightarrow> ereturn () | Some f \<Rightarrow> in_world (f ev))" for ev
    using assms by (auto split: option.split intro!: keeps_intros view_in_world broadcast_keeps)
  then show ?thesis unfolding emit_lane_def
    by (auto intro!: keeps_intros simp: lane_view_def)
qed

lemma execute_order_reports:
  assumes "\<And>st. reports st \<Longrightarrow> R (map_venue_status (vs_status st))" and "mode = ''dry_run'' \<Longrightarrow> R FILLED"
  shows "triple (\<lambda>w. submitted w = l) (execute_order adapter mode eid order)
    (\<lambda>receipt w. submitted w = l @ (if mode = ''dry_run'' then [] else [order]) \<and> R (rc_status receipt))
    (\<lambda>_ w. submitted w = l @ (if mode = ''dry_run'' then [] else [order]))"
proof (cases "mode = ''dry_run''")
  case True
  have "map_venue_status ''filled'' = FILLED" by (simp add: map_venue_status_def venue_status_map_def py_lower_def char_lower_def Let_def of_char_def)
  with True assms(2) show ?thesis by (simp add: execute_order_def triple_simps build_receipt_def)
next
  case False
  have submit: "triple (\<lambda>w. submitted w = l) (va_submit_order adapter order) (\<lambda>_ w. submitted w = l @ [order]) (\<lambda>_ w. submitted w = l @ [order])"
    unfolding triple_def using submit_adds [of order] by (fastforce split: prod.splits sum.splits dest: arg_cong [where f = snd])
  show ?thesis unfolding execute_order_def
    using False by (auto intro!: triple_ebind [OF submit] triple_ebind [OF poll_reports] simp: triple_simps build_receipt_def assms(1))
qed

lemma submit_step_view:
  assumes lv: "lv_adapter lv = adapter" "lv_broadcast lv = broadcast"
    and R: "\<And>st. reports st \<Longrightarrow> R (map_venue_status (vs_status st))" "lv_execution_mode lv = ''dry_run'' \<Longrightarrow> R FILLED"
    and order: "order = lane_order lv p quote (execution_id_of lv p)"
  shows "triple (\<lambda>s. lane_view submitted s = (l, n, g)) (submit_step lv p quote rec)
    (\<lambda>_ s. \<exists>receipt. R (rc_status receipt) \<and> lane_view submitted s = (l @ sent lv order, n + 1, moved lv receipt g))
    (\<lambda>_ s. fst (lane_view submitted s) \<in> {l, l @ sent lv order})"
proof -
  let ?E = "\<lambda>_ s. fst (lane_view submitted s) \<in> {l, l @ sent lv order}"
  have lift: "triple (\<lambda>s. C \<and> lane_view submitted s = (l', n, g)) (elift r) (\<lambda>_ s. C \<and> lane_view submitted s = (l', n, g)) ?E"
    if "l' \<in> {l, l @ sent lv order}" for C l' and r :: "execution_record result"
    using that by (auto simp: triple_simps split: sum.split)
  have exec: "triple (\<lambda>s. True \<and> lane_view submitted s = (l, n, g))
      (in_world (execute_order (lv_adapter lv) (lv_execution_mode lv) (execution_id_of lv p) order))
      (\<lambda>receipt s. R (rc_status receipt) \<and> lane_view submitted s = (l @ sent lv order, n, g)) ?E"
    by (rule triple_conseq [OF triple_in_world [where F = "\<lambda>s. ln_orders_this_run s = n \<and> ln_guards s = g",
          OF execute_order_reports [where R = R and l = l and mode = "lv_execution_mode lv" and eid = "execution_id_of lv p" and order = order], folded lv(1)]])
       (auto simp: lane_view_def sent_def R)
  have count: "triple (\<lambda>s. C \<and> lane_view submitted s = (l', n, g)) count_order (\<lambda>_ s. C \<and> lane_view submitted s = (l', n + 1, g)) ?E" for l' C
    by (simp add: count_order_def triple_simps lane_view_def)
  have breaker: "triple (\<lambda>s. C \<and> lane_view submitted s = (l', n', g)) (move_breaker lv receipt)
      (\<lambda>_ s. C \<and> lane_view submitted s = (l', n', moved lv receipt g)) ?E" for l' n' C receipt
    by (auto simp: move_breaker_def on_breaker_def triple_simps lane_view_def moved_def)
  have emitted: "triple (\<lambda>s. C \<and> lane_view submitted s = (l @ sent lv order, n', g')) (emit_submission lv cid eid aid ord receipt)
      (\<lambda>_ s. C \<and> lane_view submitted s = (l @ sent lv order, n', g')) ?E" for C n' g' cid eid aid ord receipt
  proof -
    have "keeps (\<lambda>s. lane_view submitted s = (l @ sent lv order, n', g')) (emit_submission lv cid eid aid ord receipt)"
      unfolding emit_submission_def using view_emit [of lv] lv by (intro keeps_intros) blast+
    then show ?thesis by (rule keeps_triple) auto
  qed
  have "triple (\<lambda>s. True \<and> lane_view submitted s = (l, n, g)) (submit_step lv p quote rec)
    (\<lambda>_ s. \<exists>receipt. R (rc_status receipt) \<and> lane_view submitted s = (l @ sent lv order, n + 1, moved lv receipt g)) ?E"
    unfolding submit_step_def Let_def order [symmetric]
    by (rule triple_ebind [OF lift], simp, rule triple_ebind [OF exec], rule triple_ebind [OF lift], simp,
        rule triple_ebind [OF count], rule triple_ebind [OF breaker], rule triple_ebind [OF emitted]) (auto simp: triple_simps)
  then show ?thesis by simp
qed

lemma lane_step_view:
  assumes lv: "lv_adapter lv = adapter" "lv_broadcast lv = broadcast"
    and R: "\<And>st. reports st \<Longrightarrow> R (map_venue_status (vs_status st))" "lv_execution_mode lv = ''dry_run'' \<Longrightarrow> R FILLED"
    and entry: "entry = map_of entries (pp_agent_id p)"
    and breaker: "breaker = (case g of None \<Rightarrow> new_breaker | Some c \<Rightarrow> bc_breaker c)"
  shows "triple (\<lambda>s. lane_view submitted s = (l, n, g)) (lane_step lv entries p)
    (\<lambda>_ s. lane_view submitted s = (l, n, g)
       \<or> (\<exists>quote receipt. passes_gates lv entry n breaker p quote \<and> R (rc_status receipt)
            \<and> lane_view submitted s = (l @ sent lv (lane_order lv p quote (execution_id_of lv p)), n + 1, moved lv receipt g)))
    (\<lambda>_ s. fst (lane_view submitted s) = l
       \<or> (\<exists>quote. passes_gates lv entry n breaker p quote
            \<and> fst (lane_view submitted s) = l @ sent lv (lane_order lv p quote (execution_id_of lv p))))"
    (is "triple ?V _ (\<lambda>_. ?Q) ?E")
proof -
  have lift: "triple (\<lambda>s. C \<and> ?V s) (elift r) (\<lambda>x s. (C \<and> r = Inr x) \<and> ?V s) ?E" for C and r :: "'x result"
    by (auto simp: triple_simps split: sum.split)
  have view: "triple (\<lambda>s. C \<and> ?V s) m (\<lambda>_ s. C \<and> ?V s) ?E" if "keeps ?V m" for C and m :: "('w lane, 'y) eff"
    using that by (rule keeps_triple) auto
  have emit: "keeps ?V (emit_policy_result lv p payload)" for payload
    unfolding emit_policy_result_def using lv by (intro view_emit) simp
  have quoted: "keeps ?V (in_world (va_quote_market (lv_adapter lv) m z))" for m z
    unfolding lv by (rule view_in_world [OF quote_keeps])
  have settle: "triple ?V (settle_decision lv p entry quote post rec) (\<lambda>_. ?Q) ?E"
    if pre: "pr_decision (lane_pre lv p entry n breaker) \<noteq> DENIED"
      and prices: "slippage_bps (pp_reference_price p) (qt_price quote) = Inr sl"
        "executable_edge_bps (pp_entry_prob_bps p) (qt_price quote) = Inr ee" "post = lane_post lv p quote sl ee"
    for quote post rec sl ee
  proof (cases "will_submit lv entry post")
    case True
    then have gates: "passes_gates lv entry n breaker p quote"
      using pre prices by (auto simp: passes_gates_def will_submit_def)
    from True have "settle_decision lv p entry quote post rec = submit_step lv p quote rec"
      by (simp add: settle_decision_def will_submit_def)
    then show ?thesis using gates
      by (auto intro!: triple_conseq [OF submit_step_view [where R = R, OF lv R refl]])
  next
    case False
    then show ?thesis by (auto simp: settle_decision_def triple_simps split: sum.split)
  qed
  have quoted: "triple ?V (quoted_step lv p entry rec) (\<lambda>_. ?Q) ?E"
    if "pr_decision (lane_pre lv p entry n breaker) \<noteq> DENIED" for rec
  proof -
    have "triple (\<lambda>s. True \<and> ?V s) (quoted_step lv p entry rec) (\<lambda>_. ?Q) ?E"
      unfolding quoted_step_def Let_def
      by (rule triple_ebind [OF view [OF quoted]], rule triple_ebind [OF lift], rule triple_ebind [OF lift],
          rule triple_ebind [OF lift], rule triple_ebind [OF view [OF emit]], rule triple_pure, rule settle)
         (use that in auto)
    then show ?thesis by simp
  qed
  have denied: "triple ?V (denied_step lv p pre rec) (\<lambda>_. ?Q) ?E" for pre rec
    using triple_ebind [OF view [OF emit, of True], of "\<lambda>_. elift (advance_execution REJECTED rec)" "\<lambda>_. ?Q"]
    by (auto simp: denied_step_def triple_simps split: sum.split)
  have read: "triple ?V (eread (\<lambda>s. lane_pre lv p entry (ln_orders_this_run s) (current_breaker s)))
      (\<lambda>pre s. pre = lane_pre lv p entry n breaker \<and> ?V s) ?E"
    by (simp add: triple_simps lane_view_def current_breaker_def breaker)
  have stored: "triple (\<lambda>s. True \<and> ?Q s) (in_store m) (\<lambda>_ s. True \<and> ?Q s) ?E" for m :: "(store, unit) eff"
    by (rule keeps_triple, rule in_store_keeps) (auto simp: lane_view_def)
  show ?thesis unfolding lane_step_def Let_def entry [symmetric]
  proof (rule triple_ebind [OF read], rule triple_ebind [OF lift], rule triple_pure, rule triple_ebind)
    fix pre rec assume *: "pre = lane_pre lv p entry n breaker \<and> advance_execution LAW_APPROVED (new_record lv p (pr_policy_hash pre)) = Inr rec"
    show "triple ?V (if pr_decision pre = DENIED then denied_step lv p pre rec else quoted_step lv p entry rec) (\<lambda>_. ?Q) ?E"
      using denied quoted * by simp
  next
    fix rec :: execution_record
    show "triple ?Q (in_store (append_execution_record rec)) (\<lambda>_. ?Q) ?E" using stored by simp
  qed
qed

text \<open>The orders of a lane run: gated, and no more than the cap.\<close>

lemma lane_loop_orders:
  fixes lv :: "'w lane_env" and entries proposals
  defines "gated \<equiv> \<lambda>x. \<exists>p \<in> set proposals. \<exists>orders breaker quote. passes_gates lv (map_of entries (pp_agent_id p)) orders breaker p quote
      \<and> lv_execution_mode lv \<noteq> ''dry_run'' \<and> x = lane_order lv p quote (execution_id_of lv p)"
    and "cap \<equiv> max 0 (pe_max_orders_per_run (lv_envelope lv))"
  assumes lv: "lv_adapter lv = adapter" "lv_broadcast lv = broadcast"
  shows "triple (\<lambda>s. \<exists>new n g. (Ball (set new) gated \<and> int (length new) \<le> n \<and> n \<le> cap) \<and> lane_view submitted s = (l @ new, n, g))
    (efor proposals (lane_step lv entries))
    (\<lambda>_ s. \<exists>new n g. (Ball (set new) gated \<and> int (length new) \<le> n \<and> n \<le> cap) \<and> lane_view submitted s = (l @ new, n, g))
    (\<lambda>_ s. \<exists>new. Ball (set new) gated \<and> int (length new) \<le> cap \<and> fst (lane_view submitted s) = l @ new)"
    (is "triple ?I _ _ ?E")
proof (rule triple_efor)
  fix p assume p: "p \<in> set proposals"
  have step: "triple (\<lambda>s. lane_view submitted s = (l @ new, n, g)) (lane_step lv entries p) (\<lambda>_. ?I) ?E"
    if new: "Ball (set new) gated" "int (length new) \<le> n" "n \<le> cap" for new n g
  proof (rule triple_conseq [OF lane_step_view [where R = "\<lambda>_. True", OF lv TrueI TrueI refl refl]])
    let ?b = "case g of None \<Rightarrow> new_breaker | Some c \<Rightarrow> bc_breaker c"
    have more: "Ball (set (sent lv (lane_order lv p quote (execution_id_of lv p)))) gated \<and> n + 1 \<le> cap
        \<and> length (sent lv (lane_order lv p quote (execution_id_of lv p))) \<le> 1"
      if "passes_gates lv (map_of entries (pp_agent_id p)) n ?b p quote" for quote
      using that p passes_gates_limits(5) [OF that] by (auto simp: sent_def gated_def cap_def)
    show "?I s" if "lane_view submitted s = (l @ new, n, g)
        \<or> (\<exists>quote receipt. passes_gates lv (map_of entries (pp_agent_id p)) n ?b p quote \<and> True
            \<and> lane_view submitted s = ((l @ new) @ sent lv (lane_order lv p quote (execution_id_of lv p)), n + 1, moved lv receipt g))" for s
      using that
    proof (elim disjE exE conjE)
      fix quote receipt
      assume v: "lane_view submitted s = ((l @ new) @ sent lv (lane_order lv p quote (execution_id_of lv p)), n + 1, moved lv receipt g)"
        and "passes_gates lv (map_of entries (pp_agent_id p)) n ?b p quote"
      with new more [of quote] show ?thesis
        by (intro exI [of _ "new @ sent lv (lane_order lv p quote (execution_id_of lv p))"] exI [of _ "n + 1"] exI [of _ "moved lv receipt g"]) auto
    qed (use new in blast)
    show "?E e s" if "fst (lane_view submitted s) = l @ new
        \<or> (\<exists>quote. passes_gates lv (map_of entries (pp_agent_id p)) n ?b p quote
            \<and> fst (lane_view submitted s) = (l @ new) @ sent lv (lane_order lv p quote (execution_id_of lv p)))" for e s
      using that
    proof (elim disjE exE conjE)
      fix quote
      assume "fst (lane_view submitted s) = (l @ new) @ sent lv (lane_order lv p quote (execution_id_of lv p))"
        and "passes_gates lv (map_of entries (pp_agent_id p)) n ?b p quote"
      with new more [of quote] show ?thesis
        by (intro exI [of _ "new @ sent lv (lane_order lv p quote (execution_id_of lv p))"]) auto
    qed (use new in \<open>auto intro!: exI [of _ new]\<close>)
  qed
  show "triple ?I (lane_step lv entries p) (\<lambda>_. ?I) ?E"
    by (intro triple_ex triple_pure step) auto
qed

text \<open>What a resolved approval can place: nothing, or the one order that passed the gates again.\<close>

lemma recheck_view:
  assumes lv: "lv_adapter lv = adapter" and breaker: "breaker = (case g of None \<Rightarrow> new_breaker | Some c \<Rightarrow> bc_breaker c)"
  shows "triple (\<lambda>s. lane_view submitted s = (l, n, g)) (recheck lv entry candidate)
    (\<lambda>v s. (\<forall>p quote. fst v = Submit p quote \<longrightarrow> candidate = Some p \<and> passes_recheck lv entry breaker p quote)
       \<and> lane_view submitted s = (l, n, g))
    (\<lambda>_ s. fst (lane_view submitted s) = l)"
    (is "triple ?V _ ?Q ?E")
proof (cases candidate)
  case None
  then show ?thesis by (simp add: recheck_def triple_simps)
next
  case (Some p)
  let ?pre = "lane_pre lv p entry 0 breaker"
  have read: "triple ?V (eread (\<lambda>s. lane_pre lv p entry 0 (current_breaker s))) (\<lambda>pre s. pre = ?pre \<and> ?V s) ?E"
    by (simp add: triple_simps lane_view_def current_breaker_def breaker)
  have quoted: "triple (\<lambda>s. C \<and> ?V s) (in_world (va_quote_market (lv_adapter lv) m z)) (\<lambda>_ s. C \<and> ?V s) ?E" for m z C
    unfolding lv by (rule keeps_triple [OF view_in_world [OF quote_keeps]]) auto
  have lift: "triple (\<lambda>s. C \<and> ?V s) (elift r) (\<lambda>x s. (C \<and> r = Inr x) \<and> ?V s) ?E" for C and r :: "'x result"
    by (auto simp: triple_simps split: sum.split)
  have asked: "triple (\<lambda>s. pr_decision ?pre \<noteq> DENIED \<and> ?V s)
     (ebind (in_world (va_quote_market (lv_adapter lv) (pp_market_key p) (Some (lane_stake lv p)))) (\<lambda>quote.
           ebind (elift (slippage_bps (pp_reference_price p) (qt_price quote))) (\<lambda>slippage.
           ebind (elift (executable_edge_bps (pp_entry_prob_bps p) (qt_price quote))) (\<lambda>exec_edge.
           let post = lane_post lv p quote slippage exec_edge in
           ereturn (if pr_reason_codes post = [] then Submit p quote else Refuse (map reason_code_text (pr_reason_codes post)),
                    pr_policy_hash post))))) ?Q ?E"
    by (rule triple_ebind [OF quoted], rule triple_ebind [OF lift], rule triple_ebind [OF lift])
       (auto simp: triple_simps Let_def passes_recheck_def Some)
  have "triple ?V (recheck lv entry (Some p)) ?Q ?E" unfolding recheck_def option.case
  proof (rule triple_ebind [OF read], rule triple_pure)
    fix pre assume "pre = ?pre"
    with asked show "triple ?V (if pr_decision pre = DENIED then ereturn (Refuse (map reason_code_text (pr_reason_codes pre)), pr_policy_hash pre)
         else
           ebind (in_world (va_quote_market (lv_adapter lv) (pp_market_key p) (Some (lane_stake lv p)))) (\<lambda>quote.
           ebind (elift (slippage_bps (pp_reference_price p) (qt_price quote))) (\<lambda>slippage.
           ebind (elift (executable_edge_bps (pp_entry_prob_bps p) (qt_price quote))) (\<lambda>exec_edge.
           let post = lane_post lv p quote slippage exec_edge in
           ereturn (if pr_reason_codes post = [] then Submit p quote else Refuse (map reason_code_text (pr_reason_codes post)),
                    pr_policy_hash post))))) ?Q ?E"
      by (cases "pr_decision pre = DENIED") (simp_all add: triple_simps)
  qed
  with Some show ?thesis by simp
qed

lemma approved_step_view:
  assumes lv: "lv_adapter lv = adapter" and order: "order = lane_order lv p quote (ex_execution_id rec)"
  shows "triple (\<lambda>s. fst (lane_view submitted s) = l) (approved_step lv p quote rec)
    (\<lambda>_ s. fst (lane_view submitted s) = l @ sent lv order \<and> POLICY_APPROVED \<in> next_exec (ex_status rec))
    (\<lambda>_ s. fst (lane_view submitted s) = l
       \<or> fst (lane_view submitted s) = l @ sent lv order \<and> POLICY_APPROVED \<in> next_exec (ex_status rec))"
    (is "triple ?V _ (\<lambda>_. ?Q) ?E")
proof -
  let ?W = "\<lambda>s. fst (lane_view submitted s) = l @ sent lv order" and ?C = "POLICY_APPROVED \<in> next_exec (ex_status rec)"
  have first: "triple ?V (elift (advance_execution POLICY_APPROVED rec)) (\<lambda>r s. (?C \<and> ex_execution_id r = ex_execution_id rec) \<and> ?V s) ?E"
    by (auto simp: triple_simps advance_execution_def split: sum.split if_splits)
  have exec: "triple (\<lambda>s. ?C \<and> ?V s) (in_world (execute_order (lv_adapter lv) (lv_execution_mode lv) eid order)) (\<lambda>receipt s. ?C \<and> ?W s) ?E" for eid
    by (rule triple_conseq [OF triple_in_world [where F = "\<lambda>s. ?C",
          OF execute_order_reports [where R = "\<lambda>_. True" and l = l and mode = "lv_execution_mode lv" and eid = eid and order = order], folded lv]])
       (auto simp: lane_view_def sent_def)
  have lift: "triple (\<lambda>s. ?C \<and> ?W s) (elift r) (\<lambda>_ s. ?C \<and> ?W s) ?E" for r :: "execution_record result"
    by (auto simp: triple_simps split: sum.split)
  have breaker: "triple (\<lambda>s. ?C \<and> ?W s) (move_breaker lv receipt) (\<lambda>_ s. ?C \<and> ?W s) ?E" for receipt
    by (auto simp: move_breaker_def on_breaker_def triple_simps lane_view_def)
  have emit: "keeps ?W (emit_submission (collect lv) cid eid aid x receipt)" for cid eid aid x receipt
    by (auto simp: emit_submission_def emit_lane_def collect_def lane_view_def intro!: keeps_intros)
  have "triple ?V (approved_step lv p quote rec) (\<lambda>_ s. ?C \<and> ?W s) ?E"
    unfolding approved_step_def Let_def order [symmetric]
  proof (rule triple_ebind [OF first], rule triple_pure, elim conjE)
    fix r :: execution_record assume *: "?C" "ex_execution_id r = ex_execution_id rec"
    have start: "triple ?V (in_world (execute_order (lv_adapter lv) (lv_execution_mode lv) eid order)) (\<lambda>receipt s. ?C \<and> ?W s) ?E" for eid
      using exec [of eid] * by simp
    show "triple ?V (ebind (in_world (execute_order (lv_adapter lv) (lv_execution_mode lv) (ex_execution_id r) order)) (\<lambda>receipt.
      ebind (elift (advance_through (post_policy_path (rc_status receipt)) r)) (\<lambda>rec.
      ebind (move_breaker lv receipt) (\<lambda>_.
      ebind (emit_submission (collect lv) (ex_competition_id rec) (ex_execution_id rec) (ex_agent_id rec) order receipt) (\<lambda>_.
        ereturn (rec\<lparr>ex_receipt := Some receipt\<rparr>)))))) (\<lambda>_ s. ?C \<and> ?W s) ?E"
      by (rule triple_ebind [OF start], rule triple_ebind [OF lift], rule triple_ebind [OF breaker],
          rule triple_ebind [OF keeps_triple [OF emit]]) (use * in \<open>auto simp: triple_simps\<close>)
  qed
  then show ?thesis by (rule triple_conseq) auto
qed

lemma resolve_approval_view:
  fixes lv :: "'w lane_env"
  assumes lv: "lv_adapter lv = adapter"
    and found: "value_proposals (lv_codec lv) parse_int (lv_run lv) (pe_min_edge_bps (lv_envelope lv)) = Inr proposals"
    and clock: "lane_env_for lv now = Inr lv'"
    and breaker: "breaker = (case guards of None \<Rightarrow> new_breaker | Some c \<Rightarrow> resolve (lv_clock lv') (bc_cooldown_s c) (bc_breaker c))"
  shows "triple (\<lambda>s. submitted (ln_world s) = l \<and> ln_guards s = guards) (resolve_approval parse_int lv now rec entry base_seq approver note)
    (\<lambda>_ s. submitted (ln_world s) = l \<or> (\<exists>p quote. candidate_for rec proposals = Some p \<and> passes_recheck lv' entry breaker p quote
        \<and> POLICY_APPROVED \<in> next_exec (ex_status rec) \<and> submitted (ln_world s) = l @ sent lv' (lane_order lv' p quote (ex_execution_id rec))))
    (\<lambda>_ s. submitted (ln_world s) = l \<or> (\<exists>p quote. candidate_for rec proposals = Some p \<and> passes_recheck lv' entry breaker p quote
        \<and> POLICY_APPROVED \<in> next_exec (ex_status rec) \<and> submitted (ln_world s) = l @ sent lv' (lane_order lv' p quote (ex_execution_id rec))))"
    (is "triple _ _ (\<lambda>_. ?Q) (\<lambda>_. ?Q)")
proof -
  let ?W = "\<lambda>s. submitted (ln_world s) = l"
    and ?g = "map_option (\<lambda>c. c\<lparr>bc_breaker := resolve (lv_clock lv') (bc_cooldown_s c) (bc_breaker c)\<rparr>) guards"
  have lv': "lv_adapter lv' = adapter" using lane_env_for_fields [OF clock] lv by auto
  have check: "triple (\<lambda>s. ?W s \<and> ln_guards s = ?g) (recheck lv' entry c)
      (\<lambda>v s. (\<forall>p quote. fst v = Submit p quote \<longrightarrow> c = Some p \<and> passes_recheck lv' entry breaker p quote) \<and> ?W s) (\<lambda>_. ?Q)" for c
  proof -
    have b: "breaker = (case ?g of None \<Rightarrow> new_breaker | Some c \<Rightarrow> bc_breaker c)" using breaker by (simp split: option.split)
    have "triple (\<lambda>s. \<exists>n. lane_view submitted s = (l, n, ?g)) (recheck lv' entry c)
      (\<lambda>v s. (\<forall>p quote. fst v = Submit p quote \<longrightarrow> c = Some p \<and> passes_recheck lv' entry breaker p quote) \<and> ?W s) (\<lambda>_. ?Q)"
      by (rule triple_ex, rule triple_conseq [OF recheck_view [OF lv' b]]) (auto simp: lane_view_def)
    then show ?thesis by (rule triple_conseq) (auto simp: lane_view_def)
  qed
  have audit: "triple (\<lambda>s. C \<and> ?W s) (emit_audit lv' rec approver note d h) (\<lambda>_ s. C \<and> ?W s) (\<lambda>_. ?Q)" for C d h
    by (rule keeps_triple) (auto simp: emit_audit_def emit_lane_def collect_def intro!: keeps_intros)
  have refused: "triple ?W (refused_step lv' cs h rec) (\<lambda>_. ?Q) (\<lambda>_. ?Q)" for cs h
    by (auto simp: refused_step_def emit_lane_def collect_def triple_simps advance_execution_def intro!: triple_ebind [where R = "\<lambda>_. ?W"])
  have approved: "triple ?W (approved_step lv' p quote rec) (\<lambda>_. ?Q) (\<lambda>_. ?Q)"
    if "candidate_for rec proposals = Some p" "passes_recheck lv' entry breaker p quote" for p quote
    by (rule triple_conseq [OF approved_step_view [OF lv' refl, of l]]) (use that in \<open>auto simp: lane_view_def\<close>)
  have stored: "keeps ?Q (in_store m)" for m :: "(store, unit) eff"
    by (rule in_store_keeps) simp
  have reset: "triple (\<lambda>s. ?W s \<and> ln_guards s = guards) (eupdate (\<lambda>s. s\<lparr>ln_events := [], ln_seq := base_seq\<rparr>))
      (\<lambda>_ s. ?W s \<and> ln_guards s = guards) (\<lambda>_. ?Q)" by (simp add: triple_simps)
  have lift: "triple P (elift (Inr x)) (\<lambda>y s. y = x \<and> P s) (\<lambda>_. ?Q)" for x :: 'x and P by (simp add: triple_simps)
  have guards: "triple (\<lambda>s. ?W s \<and> ln_guards s = guards) (resolve_guards (lv_clock lv')) (\<lambda>_ s. ?W s \<and> ln_guards s = ?g) (\<lambda>_. ?Q)"
    by (simp add: resolve_guards_def triple_simps)
  have settle: "triple ?W (case fst v of Submit p quote \<Rightarrow> approved_step lv' p quote rec | Refuse cs \<Rightarrow> refused_step lv' cs (snd v) rec) (\<lambda>_. ?Q) (\<lambda>_. ?Q)"
    if "\<forall>p quote. fst v = Submit p quote \<longrightarrow> candidate_for rec proposals = Some p \<and> passes_recheck lv' entry breaker p quote" for v
    using that refused approved by (cases "fst v") simp_all
  have store: "triple ?Q (in_store (append_execution_record r)) (\<lambda>_. ?Q) (\<lambda>_. ?Q)" for r
    using keeps_triple [OF stored, where C = True] by simp
  have finish: "triple ?Q (ebind (eread ln_events) (\<lambda>events. ereturn (r, events, d))) (\<lambda>_. ?Q) (\<lambda>_. ?Q)"
    for r :: execution_record and d :: string
    by (rule triple_ebind [where R = "\<lambda>_. ?Q"]) (simp_all add: triple_simps)
  show ?thesis
    unfolding resolve_approval_def found
  proof (rule triple_ebind [OF reset], rule triple_ebind [OF lift], rule triple_pure, hypsubst, unfold clock,
      rule triple_ebind [OF lift], rule triple_pure, hypsubst, rule triple_ebind [OF guards], rule triple_ebind [OF check])
    fix v :: "approval \<times> string"
    let ?d = "case fst v of Submit _ _ \<Rightarrow> ''approved'' | Refuse _ \<Rightarrow> ''rejected''"
    have "triple (\<lambda>s. (\<forall>p quote. fst v = Submit p quote \<longrightarrow> candidate_for rec proposals = Some p \<and> passes_recheck lv' entry breaker p quote) \<and> ?W s)
      (ebind (emit_audit lv' rec approver note ?d (snd v)) (\<lambda>_.
       ebind (case fst v of Submit p quote \<Rightarrow> approved_step lv' p quote rec | Refuse cs \<Rightarrow> refused_step lv' cs (snd v) rec) (\<lambda>rec.
       ebind (in_store (append_execution_record rec)) (\<lambda>_.
       ebind (eread ln_events) (\<lambda>events. ereturn (rec, events, ?d)))))) (\<lambda>_. ?Q) (\<lambda>_. ?Q)"
      by (rule triple_ebind [OF audit], rule triple_pure, rule triple_ebind [OF settle], assumption,
          rule triple_ebind [OF store], rule finish)
    then show "triple (\<lambda>s. (\<forall>p quote. fst v = Submit p quote \<longrightarrow> candidate_for rec proposals = Some p \<and> passes_recheck lv' entry breaker p quote) \<and> ?W s)
      (case v of (verdict, policy_hash) \<Rightarrow>
         let decision = (case verdict of Submit _ _ \<Rightarrow> ''approved'' | Refuse _ \<Rightarrow> ''rejected'') in
         ebind (emit_audit lv' rec approver note decision policy_hash) (\<lambda>_.
         ebind (case verdict of Submit p quote \<Rightarrow> approved_step lv' p quote rec
                | Refuse reason_codes \<Rightarrow> refused_step lv' reason_codes policy_hash rec) (\<lambda>rec.
         ebind (in_store (append_execution_record rec)) (\<lambda>_.
         ebind (eread ln_events) (\<lambda>events. ereturn (rec, events, decision)))))) (\<lambda>_. ?Q) (\<lambda>_. ?Q)"
      by (simp add: case_prod_beta Let_def)
  qed
qed

end

text \<open>A venue that fails every order it is given.\<close>

locale failing_venue = order_monitor +
  assumes reports_failure: "reports st \<Longrightarrow> map_venue_status (vs_status st) \<in> set executed_failure_terminals"
begin

lemma lane_loop_breaker:
  fixes lv :: "'a lane_env" and entries proposals
  defines "th \<equiv> pe_circuit_breaker_threshold (lv_envelope lv)"
  defines "counts \<equiv> \<lambda>new c. int (length new) \<le> cb_consecutive_failures (bc_breaker c)
      \<and> (cb_state (bc_breaker c) = CLOSED \<and> cb_consecutive_failures (bc_breaker c) < th
         \<or> cb_state (bc_breaker c) = OPEN \<and> cb_consecutive_failures (bc_breaker c) \<le> th)"
  assumes lv: "lv_adapter lv = adapter" "lv_broadcast lv = broadcast" and live: "is_live lv"
  shows "triple (\<lambda>s. \<exists>new n c. counts new c \<and> lane_view submitted s = (l @ new, n, Some c))
    (efor proposals (lane_step lv entries))
    (\<lambda>_ s. \<exists>new n c. counts new c \<and> lane_view submitted s = (l @ new, n, Some c))
    (\<lambda>_ s. \<exists>new. int (length new) \<le> th \<and> fst (lane_view submitted s) = l @ new)"
    (is "triple ?I _ _ ?E")
proof (rule triple_efor)
  fix p assume p: "p \<in> set proposals"
  let ?F = "\<lambda>st. st \<in> set executed_failure_terminals"
  have sent1: "sent lv x = [x]" for x using live by (simp add: sent_def is_live_def)
  have not_dry: "lv_execution_mode lv = ''dry_run'' \<Longrightarrow> ?F FILLED" using live by (simp add: is_live_def)
  have step: "triple (\<lambda>s. lane_view submitted s = (l @ new, n, Some c)) (lane_step lv entries p) (\<lambda>_. ?I) ?E"
    if c: "counts new c" for new n c
  proof (rule triple_conseq [OF lane_step_view [where R = ?F, OF lv reports_failure not_dry refl refl]])
    have trip: "counts (new @ [x]) (c\<lparr>bc_breaker := record_failure th (lv_clock lv) (bc_breaker c)\<rparr>) \<and> int (length new) < th"
      if "passes_gates lv (map_of entries (pp_agent_id p)) n (bc_breaker c) p quote" for quote and x :: taker_order
    proof -
      from passes_gates_limits(2) [OF that] c have "cb_state (bc_breaker c) = CLOSED"
        by (auto simp: counts_def allows_OPEN)
      with c show ?thesis by (auto simp: counts_def record_failure_def Let_def)
    qed
    have moved: "moved lv receipt (Some c) = Some (c\<lparr>bc_breaker := record_failure th (lv_clock lv) (bc_breaker c)\<rparr>)"
      if "?F (rc_status receipt)" for receipt
      using live that by (simp add: moved_def th_def)
    show "?I s" if "lane_view submitted s = (l @ new, n, Some c)
        \<or> (\<exists>quote receipt. passes_gates lv (map_of entries (pp_agent_id p)) n (case Some c of None \<Rightarrow> new_breaker | Some c \<Rightarrow> bc_breaker c) p quote
            \<and> ?F (rc_status receipt)
            \<and> lane_view submitted s = ((l @ new) @ sent lv (lane_order lv p quote (execution_id_of lv p)), n + 1, moved lv receipt (Some c)))" for s
      using that c trip moved by (fastforce simp: sent1)
    show "?E e s" if "fst (lane_view submitted s) = l @ new
        \<or> (\<exists>quote. passes_gates lv (map_of entries (pp_agent_id p)) n (case Some c of None \<Rightarrow> new_breaker | Some c \<Rightarrow> bc_breaker c) p quote
            \<and> fst (lane_view submitted s) = (l @ new) @ sent lv (lane_order lv p quote (execution_id_of lv p)))" for e s
      using that c trip by (fastforce simp: sent1 counts_def)
  qed
  show "triple ?I (lane_step lv entries p) (\<lambda>_. ?I) ?E"
    by (intro triple_ex triple_pure step)
qed

end


section \<open>Quotes and orders\<close>

text \<open>
  A finer monitor lists the quotes the venue returns together with the orders it is given, in the order
  in which they happen. It is a monitor of the orders as well.
\<close>

datatype lane_call = Quoted string quote | Ordered taker_order

fun orders_of :: "lane_call list \<Rightarrow> taker_order list" where
  "orders_of [] = []"
| "orders_of (Quoted m q # cs) = orders_of cs"
| "orders_of (Ordered x # cs) = x # orders_of cs"

lemma orders_of_append [simp]: "orders_of (cs @ ds) = orders_of cs @ orders_of ds"
  by (induction cs rule: orders_of.induct) simp_all

text \<open>Every order comes directly after a quote, to which it stands in a given relation.\<close>

fun orders_follow :: "(string \<Rightarrow> quote \<Rightarrow> taker_order \<Rightarrow> bool) \<Rightarrow> lane_call list \<Rightarrow> bool" where
  "orders_follow ok [] \<longleftrightarrow> True"
| "orders_follow ok (Quoted m q # Ordered x # cs) \<longleftrightarrow> ok m q x \<and> orders_follow ok cs"
| "orders_follow ok (Quoted m q # cs) \<longleftrightarrow> orders_follow ok cs"
| "orders_follow ok (Ordered x # cs) \<longleftrightarrow> False"

lemma orders_follow_append:
  "orders_follow ok cs \<Longrightarrow> orders_follow ok (Quoted m q # ds) \<Longrightarrow> orders_follow ok (cs @ Quoted m q # ds)"
  by (induction ok cs rule: orders_follow.induct) auto

lemma orders_follow_order: "orders_follow ok cs \<Longrightarrow> x \<in> set (orders_of cs) \<Longrightarrow> \<exists>m q. ok m q x"
  by (induction ok cs rule: orders_follow.induct) auto

lemma orders_follow_mono:
  "orders_follow ok cs \<Longrightarrow> (\<And>m q x. ok m q x \<Longrightarrow> ok' m q x) \<Longrightarrow> orders_follow ok' cs"
  by (induction ok cs rule: orders_follow.induct) auto

text \<open>What holds from every value of an observable holds from every set of its values.\<close>

lemma triple_from_value:
  assumes "\<And>l. triple (\<lambda>w. f w = l) m (Q l) (E l)"
  shows "triple (\<lambda>w. P (f w)) m (\<lambda>x w. \<exists>l. P l \<and> Q l x w) (\<lambda>e w. \<exists>l. P l \<and> E l e w)"
proof (rule tripleI)
  show "\<exists>l. P l \<and> Q l x w'" if "P (f w)" "m w = (Inr x, w')" for w x w'
    using triple_Inr [OF assms refl that(2)] that(1) by blast
  show "\<exists>l. P l \<and> E l e w'" if "P (f w)" "m w = (Inl e, w')" for w e w'
    using triple_Inl [OF assms refl that(2)] that(1) by blast
qed

locale call_monitor =
  fixes adapter :: "'w venue_adapter"
    and broadcast :: "(competition_event \<Rightarrow> ('w, unit) eff) option"
    and calls :: "'w \<Rightarrow> lane_call list"
    and reports :: "venue_order_status \<Rightarrow> bool"
  assumes quote_logged: "triple (\<lambda>w. calls w = l) (va_quote_market adapter m z) (\<lambda>q w. calls w = l @ [Quoted m q]) (\<lambda>_ w. calls w = l)"
    and status_logged: "triple (\<lambda>w. calls w = l) (va_get_order_status adapter i) (\<lambda>st w. calls w = l \<and> reports st) (\<lambda>_ w. calls w = l)"
    and broadcast_logged: "broadcast = Some f \<Longrightarrow> keeps (\<lambda>w. calls w = l) (f ev)"
    and submit_logged: "calls (snd (va_submit_order adapter x w)) = calls w @ [Ordered x]"
begin

lemma calls_in_world: "(\<And>l. keeps (\<lambda>w. calls w = l) m) \<Longrightarrow> keeps (\<lambda>s. P (calls (ln_world s))) (in_world m)"
  by (rule in_world_keeps [where P = "\<lambda>w. P (calls w)"]) (auto simp: keeps_def)

lemma calls_emit:
  assumes "lv_broadcast lv = broadcast"
  shows "keeps (\<lambda>s. P (calls (ln_world s))) (emit_lane lv build)"
  unfolding emit_lane_def using assms by (auto intro!: keeps_intros calls_in_world broadcast_logged)

lemma calls_poll: "keeps (\<lambda>w. calls w = l) (poll_order_terminal adapter i)"
proof -
  have status: "keeps (\<lambda>w. calls w = l) (va_get_order_status adapter i)" for i
    unfolding keeps_iff_triple by (rule triple_conseq [OF status_logged]) auto
  have "ad = adapter \<Longrightarrow> keeps (\<lambda>w. calls w = l) (status_poll ad i observed elapsed)" for ad observed elapsed
    by (induction ad i observed elapsed rule: status_poll.induct) (subst status_poll.simps, auto intro!: keeps_intros status)
  then show ?thesis by (auto simp: poll_order_terminal_def intro!: keeps_intros status)
qed

lemma execute_order_calls:
  assumes "P c" and "mode \<noteq> ''dry_run'' \<Longrightarrow> P (c @ [Ordered order])"
  shows "triple (\<lambda>w. calls w = c) (execute_order adapter mode eid order) (\<lambda>_ w. P (calls w)) (\<lambda>_ w. P (calls w))"
proof (cases "mode = ''dry_run''")
  case True
  with assms(1) show ?thesis by (simp add: execute_order_def triple_simps)
next
  case False
  let ?W = "\<lambda>w. calls w = c @ [Ordered order]"
  have submit: "triple (\<lambda>w. calls w = c) (va_submit_order adapter order) (\<lambda>_. ?W) (\<lambda>_. ?W)"
    unfolding triple_def using submit_logged [of order] by (fastforce split: prod.splits sum.splits dest: arg_cong [where f = snd])
  have "triple (\<lambda>w. calls w = c) (execute_order adapter mode eid order) (\<lambda>_. ?W) (\<lambda>_. ?W)"
    unfolding execute_order_def using False
    by (simp, intro triple_ebind [OF submit] triple_ebind [OF calls_poll [unfolded keeps_iff_triple]]) (simp add: triple_simps)
  with False assms(2) show ?thesis by (auto elim: triple_conseq)
qed

lemma submit_step_calls:
  assumes lv: "lv_adapter lv = adapter" "lv_broadcast lv = broadcast"
    and P: "P c" "lv_execution_mode lv \<noteq> ''dry_run'' \<Longrightarrow> P (c @ [Ordered (lane_order lv p quote (execution_id_of lv p))])"
  shows "triple (\<lambda>s. calls (ln_world s) = c) (submit_step lv p quote rec) (\<lambda>_ s. P (calls (ln_world s))) (\<lambda>_ s. P (calls (ln_world s)))"
proof -
  let ?P = "\<lambda>s. P (calls (ln_world s))"
  have rest: "keeps ?P (ebind (elift r) (\<lambda>rec. ebind count_order (\<lambda>_. ebind (move_breaker lv receipt) (\<lambda>_.
      ebind (emit_submission lv cid eid aid x receipt) (\<lambda>_. ereturn (rec\<lparr>ex_receipt := Some receipt\<rparr>))))))" for r receipt cid eid aid x
    unfolding count_order_def move_breaker_def on_breaker_def emit_submission_def
    by (intro keeps_intros calls_emit lv(2)) simp_all
  have first: "triple (\<lambda>s. calls (ln_world s) = c) (elift r) (\<lambda>_ s. calls (ln_world s) = c) (\<lambda>_. ?P)" for r :: "execution_record result"
    using P(1) by (auto simp: triple_simps split: sum.split)
  have exec: "triple (\<lambda>s. calls (ln_world s) = c) (in_world (execute_order (lv_adapter lv) (lv_execution_mode lv) eid (lane_order lv p quote (execution_id_of lv p))))
      (\<lambda>_. ?P) (\<lambda>_. ?P)" for eid
    using triple_in_world [where F = "\<lambda>_. True", OF execute_order_calls [where P = P, OF P(1) P(2)]] lv(1) by simp
  show ?thesis unfolding submit_step_def Let_def
    by (rule triple_ebind [OF first], rule triple_ebind [OF exec]) (use rest in \<open>simp add: keeps_iff_triple\<close>)
qed

text \<open>
  One step of the lane extends the log by nothing, by the quote of its own market, or by that quote and the
  order made from it once both gates have passed it.
\<close>

lemma settle_calls:
  assumes lv: "lv_adapter lv = adapter" "lv_broadcast lv = broadcast" and pre: "pr_decision (lane_pre lv p entry n b) \<noteq> DENIED"
    and prices: "slippage_bps (pp_reference_price p) (qt_price q) = Inr sl" "executable_edge_bps (pp_entry_prob_bps p) (qt_price q) = Inr ee"
    and P: "P c" "passes_gates lv entry n b p q \<Longrightarrow> lv_execution_mode lv \<noteq> ''dry_run''
      \<Longrightarrow> P (c @ [Ordered (lane_order lv p q (execution_id_of lv p))])"
  shows "triple (\<lambda>s. calls (ln_world s) = c) (settle_decision lv p entry q (lane_post lv p q sl ee) rec)
    (\<lambda>_ s. P (calls (ln_world s))) (\<lambda>_ s. P (calls (ln_world s)))"
proof (cases "will_submit lv entry (lane_post lv p q sl ee)")
  case True
  then have gates: "passes_gates lv entry n b p q" using pre prices by (auto simp: passes_gates_def will_submit_def)
  from True have "settle_decision lv p entry q (lane_post lv p q sl ee) rec = submit_step lv p q rec"
    by (simp add: settle_decision_def will_submit_def)
  then show ?thesis using submit_step_calls [where P = P, OF lv P(1)] P(2) [OF gates] by simp
next
  case False
  then show ?thesis using P(1) by (auto simp: settle_decision_def triple_simps split: sum.split)
qed

lemma quoted_step_calls:
  assumes lv: "lv_adapter lv = adapter" "lv_broadcast lv = broadcast" and pre: "pr_decision (lane_pre lv p entry n b) \<noteq> DENIED"
    and P: "P c" "\<And>q. P (c @ [Quoted (pp_market_key p) q])"
      "\<And>q. passes_gates lv entry n b p q \<Longrightarrow> lv_execution_mode lv \<noteq> ''dry_run''
        \<Longrightarrow> P (c @ [Quoted (pp_market_key p) q, Ordered (lane_order lv p q (execution_id_of lv p))])"
  shows "triple (\<lambda>s. calls (ln_world s) = c) (quoted_step lv p entry rec) (\<lambda>_ s. P (calls (ln_world s))) (\<lambda>_ s. P (calls (ln_world s)))"
proof -
  let ?P = "\<lambda>s. P (calls (ln_world s))" and ?at = "\<lambda>q s. calls (ln_world s) = c @ [Quoted (pp_market_key p) q]"
  have ask: "triple (\<lambda>s. calls (ln_world s) = c) (in_world (va_quote_market (lv_adapter lv) (pp_market_key p) z)) (\<lambda>q s. True \<and> ?at q s) (\<lambda>_. ?P)" for z
    by (rule triple_conseq [OF triple_in_world [where F = "\<lambda>_. True", OF quote_logged [of c], folded lv(1)]]) (use P(1) in auto)
  have lift: "triple (\<lambda>s. C \<and> ?at q s) (elift r) (\<lambda>x s. (C \<and> r = Inr x) \<and> ?at q s) (\<lambda>_. ?P)" for C q and r :: "'x result"
    using P(2) by (auto simp: triple_simps split: sum.split)
  have emitted: "triple (\<lambda>s. C \<and> ?at q s) (emit_policy_result lv p payload) (\<lambda>_ s. C \<and> ?at q s) (\<lambda>_. ?P)" for C q payload
    unfolding emit_policy_result_def by (rule keeps_triple [OF calls_emit [OF lv(2)]]) (use P(2) in auto)
  have settle: "triple (?at q) (settle_decision lv p entry q (lane_post lv p q sl ee) rec) (\<lambda>_. ?P) (\<lambda>_. ?P)"
    if "slippage_bps (pp_reference_price p) (qt_price q) = Inr sl" "executable_edge_bps (pp_entry_prob_bps p) (qt_price q) = Inr ee" for q sl ee rec
    by (rule settle_calls [where P = P, OF lv pre that P(2)]) (use P(3) in simp)
  show ?thesis unfolding quoted_step_def Let_def
    by (rule triple_ebind [OF ask], rule triple_ebind [OF lift], rule triple_ebind [OF lift], rule triple_ebind [OF lift],
        rule triple_ebind [OF emitted], rule triple_pure, rule settle) auto
qed

lemma lane_step_calls:
  assumes lv: "lv_adapter lv = adapter" "lv_broadcast lv = broadcast"
    and quote: "\<And>c q. P c \<Longrightarrow> P (c @ [Quoted (pp_market_key p) q])"
    and order: "\<And>c q n b. P c \<Longrightarrow> passes_gates lv (map_of entries (pp_agent_id p)) n b p q \<Longrightarrow> lv_execution_mode lv \<noteq> ''dry_run''
      \<Longrightarrow> P (c @ [Quoted (pp_market_key p) q, Ordered (lane_order lv p q (execution_id_of lv p))])"
  shows "keeps (\<lambda>s. P (calls (ln_world s))) (lane_step lv entries p)"
proof -
  let ?P = "\<lambda>s. P (calls (ln_world s))" and ?entry = "map_of entries (pp_agent_id p)"
  have quoted: "keeps ?P (quoted_step lv p ?entry rec)" if "pr_decision (lane_pre lv p ?entry n b) \<noteq> DENIED" for rec n b
    unfolding keeps_iff_triple
  proof (rule triple_conseq [OF triple_from_value [where f = "\<lambda>s. calls (ln_world s)" and P = P and Q = "\<lambda>c _ s. P c \<longrightarrow> ?P s" and E = "\<lambda>c _ s. P c \<longrightarrow> ?P s"]])
    have "triple (\<lambda>s. calls (ln_world s) = c) (quoted_step lv p ?entry rec) (\<lambda>_. ?P) (\<lambda>_. ?P)" if "P c" for c
      by (rule quoted_step_calls [OF lv \<open>pr_decision _ \<noteq> DENIED\<close> that quote [OF that] order [OF that]])
    then show "triple (\<lambda>s. calls (ln_world s) = c) (quoted_step lv p ?entry rec) (\<lambda>_ s. P c \<longrightarrow> ?P s) (\<lambda>_ s. P c \<longrightarrow> ?P s)" for c
      by (cases "P c") (simp_all add: triple_def split: prod.split sum.split)
  qed auto
  have denied: "keeps ?P (denied_step lv p pre rec)" for pre rec
    unfolding denied_step_def emit_policy_result_def by (intro keeps_intros calls_emit lv(2))
  have read: "triple ?P (eread (\<lambda>s. lane_pre lv p ?entry (ln_orders_this_run s) (current_breaker s)))
      (\<lambda>pre s. (\<exists>n b. pre = lane_pre lv p ?entry n b) \<and> ?P s) (\<lambda>_. ?P)"
    by (auto simp: triple_simps)
  have rest: "keeps ?P (ebind (elift r) (\<lambda>rec. ebind (if pr_decision pre = DENIED then denied_step lv p pre rec else quoted_step lv p ?entry rec)
      (\<lambda>rec. in_store (append_execution_record rec))))" if "\<exists>n b. pre = lane_pre lv p ?entry n b" for pre r
    using that quoted denied by (auto intro!: keeps_intros in_store_keeps)
  show ?thesis unfolding lane_step_def Let_def keeps_iff_triple
    by (rule triple_ebind [OF read], rule triple_pure) (use rest in \<open>simp add: keeps_iff_triple\<close>)
qed

end

sublocale call_monitor \<subseteq> order_monitor adapter broadcast "\<lambda>w. orders_of (calls w)" reports
proof
  show "keeps (\<lambda>w. orders_of (calls w) = l) (va_quote_market adapter m z)" for l m z
    unfolding keeps_iff_triple
    by (rule triple_conseq [OF triple_from_value [where P = "\<lambda>c. orders_of c = l", OF quote_logged]]) auto
  show "triple (\<lambda>w. orders_of (calls w) = l) (va_get_order_status adapter i) (\<lambda>st w. orders_of (calls w) = l \<and> reports st) (\<lambda>_ w. orders_of (calls w) = l)" for l i
    by (rule triple_conseq [OF triple_from_value [where P = "\<lambda>c. orders_of c = l", OF status_logged]]) auto
  show "broadcast = Some f \<Longrightarrow> keeps (\<lambda>w. orders_of (calls w) = l) (f ev)" for f l ev
    using broadcast_logged [of f _ ev] by (auto simp: keeps_def)
  show "orders_of (calls (snd (va_submit_order adapter x w))) = orders_of (calls w) @ [x]" for x w
    by (simp add: submit_logged)
qed

context call_monitor
begin

lemma monitors_orders: "order_monitor adapter broadcast (\<lambda>w. orders_of (calls w)) reports"
  by unfold_locales

end

section \<open>Orders a lane places\<close>

text \<open>Any venue and broadcast, with a log of the quotes it returns and the orders it is given beside their state.\<close>

definition beside :: "('v, 'a) eff \<Rightarrow> ('l \<times> 'v, 'a) eff" where
  "beside m = (\<lambda>(l, v). let (r, v') = m v in (r, (l, v')))"

definition watched :: "'v venue_adapter \<Rightarrow> (lane_call list \<times> 'v) venue_adapter" where
  "watched ad = \<lparr>va_venue = va_venue ad, va_class_name = va_class_name ad, va_real_venue_quote = va_real_venue_quote ad,
     va_quote_market = (\<lambda>m z. ebind (beside (va_quote_market ad m z)) (\<lambda>q.
       ebind (eupdate (\<lambda>(l, v). (l @ [Quoted m q], v))) (\<lambda>_. ereturn q))),
     va_submit_order = (\<lambda>x. ebind (eupdate (\<lambda>(l, v). (l @ [Ordered x], v))) (\<lambda>_. beside (va_submit_order ad x))),
     va_get_order_status = (\<lambda>i. beside (va_get_order_status ad i)), va_cancel_order = (\<lambda>i. beside (va_cancel_order ad i))\<rparr>"

definition watch :: "'v lane_env \<Rightarrow> (lane_call list \<times> 'v) lane_env" where
  "watch lv = \<lparr>lv_codec = lv_codec lv, lv_policy_hash = lv_policy_hash lv, lv_competition_id = lv_competition_id lv,
     lv_run = lv_run lv, lv_envelope = lv_envelope lv, lv_adapter = watched (lv_adapter lv),
     lv_execution_mode = lv_execution_mode lv, lv_event_ts = lv_event_ts lv, lv_bankroll = lv_bankroll lv,
     lv_broadcast = map_option (\<lambda>f ev. beside (f ev)) (lv_broadcast lv), lv_clock = lv_clock lv\<rparr>"

lemma beside_keeps: "keeps (\<lambda>w. fst w = l) (beside m)"
  by (auto simp: keeps_def beside_def split: prod.split)

lemma beside_triple:
  "triple (\<lambda>_. True) m (\<lambda>x _. Q x) (\<lambda>_ _. True) \<Longrightarrow> triple (\<lambda>w. fst w = l) (beside m) (\<lambda>x w. fst w = l \<and> Q x) (\<lambda>_ w. fst w = l)"
  by (rule tripleI) (auto simp: beside_def split: prod.splits dest: triple_Inr [rotated 2])

lemma watched_monitor:
  assumes "\<And>i. triple (\<lambda>_. True) (va_get_order_status ad i) (\<lambda>st _. reports st) (\<lambda>_ _. True)"
  shows "call_monitor (watched ad) (map_option (\<lambda>f ev. beside (f ev)) bc) fst reports"
proof
  show "triple (\<lambda>w. fst w = l) (va_quote_market (watched ad) m z) (\<lambda>q w. fst w = l @ [Quoted m q]) (\<lambda>_ w. fst w = l)" for l m z
    by (rule tripleI) (auto simp: watched_def beside_def ebind_apply eff_apply split: prod.splits sum.splits)
  show "triple (\<lambda>w. fst w = l) (va_get_order_status (watched ad) i) (\<lambda>st w. fst w = l \<and> reports st) (\<lambda>_ w. fst w = l)" for l i
    by (simp add: watched_def beside_triple [OF assms])
  show "map_option (\<lambda>f ev. beside (f ev)) bc = Some f \<Longrightarrow> keeps (\<lambda>w. fst w = l) (f ev)" for f l ev
    by (auto simp: beside_keeps)
  show "fst (snd (va_submit_order (watched ad) x w)) = fst w @ [Ordered x]" for x w
    by (auto simp: watched_def beside_def ebind_apply eff_apply split: prod.split)
qed

lemma watched_orders:
  assumes "\<And>i. triple (\<lambda>_. True) (va_get_order_status ad i) (\<lambda>st _. reports st) (\<lambda>_ _. True)"
  shows "order_monitor (watched ad) (map_option (\<lambda>f ev. beside (f ev)) bc) (\<lambda>w. orders_of (fst w)) reports"
  by (rule call_monitor.monitors_orders [OF watched_monitor [OF assms]])

interpretation watched: call_monitor "watched ad" "map_option (\<lambda>f ev. beside (f ev)) bc" fst "\<lambda>_. True" for ad bc
  by (rule watched_monitor) (simp add: triple_def split: prod.split sum.split)

lemma fake_reports_failure:
  assumes "\<not> ff_fill flags"
  shows "triple (\<lambda>_. True) (va_get_order_status (fake_venue_adapter flags) i)
    (\<lambda>st _. map_venue_status (vs_status st) \<in> set executed_failure_terminals) (\<lambda>_ _. True)"
proof -
  have "map_venue_status ''pending'' = UNRESOLVED" "map_venue_status ''rejected'' = REJECTED"
    by (simp_all add: map_venue_status_def venue_status_map_def py_lower_def char_lower_def Let_def of_char_def)
  with assms show ?thesis
    by (intro tripleI) (auto simp: fake_venue_adapter_def fake_get_order_status_def fake_status_def ebind_apply eff_apply
        executed_failure_terminals_def split: sum.splits prod.splits if_splits)
qed

interpretation rejecting: failing_venue "watched (fake_venue_adapter (flags\<lparr>ff_fill := False\<rparr>))"
  "map_option (\<lambda>f ev. beside (f ev)) bc" "\<lambda>w. orders_of (fst w)" "\<lambda>st. map_venue_status (vs_status st) \<in> set executed_failure_terminals" for flags bc
  by (intro failing_venue.intro failing_venue_axioms.intro watched_orders fake_reports_failure) simp_all

text \<open>A run of the lane is a run of its loop, from the reset state with the breaker resolved.\<close>

definition lane_start :: "int \<Rightarrow> pyfloat \<Rightarrow> 'w lane \<Rightarrow> 'w lane" where
  "lane_start base_seq clock s = s\<lparr>ln_events := [], ln_seq := base_seq, ln_orders_this_run := 0,
     ln_guards := map_option (\<lambda>g. g\<lparr>bc_breaker := resolve clock (bc_cooldown_s g) (bc_breaker g)\<rparr>) (ln_guards s)\<rparr>"

lemma run_execution_lane_cases:
  assumes "run_execution_lane parse_int lv now entries base_seq s = (r, s')"
  obtains (early) "ln_world s' = ln_world s"
  | (loop) proposals clock r' where "value_proposals (lv_codec lv) parse_int (lv_run lv) (pe_min_edge_bps (lv_envelope lv)) = Inr proposals"
      "efor proposals (lane_step (lv\<lparr>lv_clock := clock\<rparr>) entries) (lane_start base_seq clock s) = (r', s')"
      "lane_env_for lv now = Inr (lv\<lparr>lv_clock := clock\<rparr>)"
proof (cases "value_proposals (lv_codec lv) parse_int (lv_run lv) (pe_min_edge_bps (lv_envelope lv))")
  case (Inl e)
  with assms show ?thesis by (intro early) (simp add: run_execution_lane_def eff_apply)
next
  case (Inr proposals)
  show ?thesis
  proof (cases "lane_env_for lv now")
    case (Inl e)
    with assms Inr show ?thesis by (intro early) (auto simp: run_execution_lane_def ebind_apply eff_apply)
  next
    case (Inr lv')
    then obtain clock where lv': "lv' = lv\<lparr>lv_clock := clock\<rparr>" using lane_env_for_fields by metis
    show ?thesis
      using assms \<open>value_proposals _ _ _ _ = Inr proposals\<close> Inr lv'
      by (intro loop [of proposals clock "fst (efor proposals (lane_step lv' entries) (lane_start base_seq clock s))"])
         (auto simp: run_execution_lane_def ebind_apply eff_apply resolve_guards_def lane_start_def split: prod.splits sum.splits)
  qed
qed

lemma watch_fields [simp]:
  "lv_codec (watch lv) = lv_codec lv" "lv_run (watch lv) = lv_run lv" "lv_envelope (watch lv) = lv_envelope lv"
  "lv_adapter (watch lv) = watched (lv_adapter lv)" "lv_execution_mode (watch lv) = lv_execution_mode lv"
  "lv_broadcast (watch lv) = map_option (\<lambda>f ev. beside (f ev)) (lv_broadcast lv)"
  by (simp_all add: watch_def)

lemma is_live_fields [simp]: "is_live (watch lv) = is_live lv" "is_live (lv\<lparr>lv_clock := c\<rparr>) = is_live lv"
  by (simp_all add: is_live_def)

definition within_limits :: "'w lane_env \<Rightarrow> taker_order \<Rightarrow> bool" where
  "within_limits lv x \<longleftrightarrow> \<not> pe_kill_switch (lv_envelope lv)
     \<and> to_venue x \<in> set (pe_venue_allowlist (lv_envelope lv)) \<and> to_market_ref x \<in> set (pe_market_allowlist (lv_envelope lv))
     \<and> \<not> fl_lt (pe_max_stake (lv_envelope lv)) (to_size x)
     \<and> (is_live lv \<longrightarrow> fl_lt fl_zero (pe_max_stake_live_guarded (lv_envelope lv)) \<longrightarrow> \<not> fl_lt (pe_max_stake_live_guarded (lv_envelope lv)) (to_size x))
     \<and> \<not> fl_lt (pe_max_price (lv_envelope lv)) (to_price x)"

lemma passes_gates_within_limits:
  assumes "passes_gates lv entry orders breaker p quote"
  shows "within_limits lv (lane_order lv p quote eid)"
    and "\<not> fl_le (pe_human_approval_threshold (lv_envelope lv)) (to_size (lane_order lv p quote eid))"
  using passes_gates_limits [OF assms] by (auto simp: within_limits_def lane_order_def)

lemma within_limits_same [simp]:
  "within_limits (watch lv) x = within_limits lv x" "within_limits (lv\<lparr>lv_clock := c\<rparr>) x = within_limits lv x"
  by (simp_all add: within_limits_def)

text \<open>What the gates leave of a quote and the order made from it.\<close>

definition quote_clears :: "'w lane_env \<Rightarrow> proposal \<Rightarrow> quote \<Rightarrow> taker_order \<Rightarrow> bool" where
  "quote_clears lv p q x \<longleftrightarrow> to_price x = qt_price q \<and> \<not> fl_lt (qt_size q) (to_size x)
     \<and> max 0 (lv_event_ts lv - qt_ts q) \<le> pe_max_quote_age_s (lv_envelope lv)
     \<and> (\<exists>slippage. slippage_bps (pp_reference_price p) (qt_price q) = Inr slippage \<and> slippage \<le> pe_max_slippage_bps (lv_envelope lv))
     \<and> (\<exists>edge. executable_edge_bps (pp_entry_prob_bps p) (qt_price q) = Inr edge \<and> pe_min_edge_bps (lv_envelope lv) \<le> edge)"

lemma passes_gates_quote: "passes_gates lv entry orders breaker p q \<Longrightarrow> quote_clears lv p q (lane_order lv p q eid)"
  by (auto simp: passes_gates_def quote_clears_def lane_order_def lane_post_def gate_defs split: if_splits)

lemma quote_clears_same [simp]:
  "quote_clears (watch lv) p q x = quote_clears lv p q x" "quote_clears (lv\<lparr>lv_clock := c\<rparr>) p q x = quote_clears lv p q x"
  by (simp_all add: quote_clears_def watch_def)

text \<open>The orders of a run of the lane, from an empty log: how many there are, and none while the breaker is open.\<close>

lemma watched_lane_counts:
  assumes "efor proposals (lane_step ((watch lv)\<lparr>lv_clock := clock\<rparr>) entries) (lane_start base_seq clock s) = (r', s')"
    and "fst (ln_world s) = []"
  shows "int (length (orders_of (fst (ln_world s')))) \<le> max 0 (pe_max_orders_per_run (lv_envelope lv))"
proof -
  let ?lv = "(watch lv)\<lparr>lv_clock := clock\<rparr>" and ?cap = "max 0 (pe_max_orders_per_run (lv_envelope lv))"
  define G where "G = (\<lambda>x. \<exists>p \<in> set proposals. \<exists>orders breaker quote. passes_gates ?lv (map_of entries (pp_agent_id p)) orders breaker p quote
      \<and> lv_execution_mode ?lv \<noteq> ''dry_run'' \<and> x = lane_order ?lv p quote (execution_id_of ?lv p))"
  let ?o = "\<lambda>w. orders_of (fst w)"
  have run: "triple (\<lambda>s. \<exists>new n g. (Ball (set new) G \<and> int (length new) \<le> n \<and> n \<le> ?cap) \<and> lane_view ?o s = (new, n, g))
      (efor proposals (lane_step ?lv entries))
      (\<lambda>_ s. \<exists>new n g. (Ball (set new) G \<and> int (length new) \<le> n \<and> n \<le> ?cap) \<and> lane_view ?o s = (new, n, g))
      (\<lambda>_ s. \<exists>new. Ball (set new) G \<and> int (length new) \<le> ?cap \<and> fst (lane_view ?o s) = new)"
    using watched.lane_loop_orders [where lv = ?lv and entries = entries and proposals = proposals and l = "[]"
      and ad = "lv_adapter lv" and bc = "lv_broadcast lv", folded G_def] by simp
  have start: "\<exists>new n g. (Ball (set new) G \<and> int (length new) \<le> n \<and> n \<le> ?cap) \<and> lane_view ?o (lane_start base_seq clock s) = (new, n, g)"
    using assms(2) by (auto simp: lane_view_def lane_start_def)
  show ?thesis
    using triple_Inr [OF run start] triple_Inl [OF run start] assms(1) by (cases r'; force simp: lane_view_def)
qed

lemma open_breaker_places_nothing:
  assumes "efor proposals (lane_step ((watch lv)\<lparr>lv_clock := clock\<rparr>) entries) (lane_start base_seq clock s) = (r', s')"
    and "fst (ln_world s) = []" and "ln_guards s = Some g" and "\<not> allows (resolve clock (bc_cooldown_s g) (bc_breaker g))"
  shows "orders_of (fst (ln_world s')) = []"
proof -
  let ?lv = "(watch lv)\<lparr>lv_clock := clock\<rparr>" and ?o = "\<lambda>w. orders_of (fst w)"
  let ?g = "g\<lparr>bc_breaker := resolve clock (bc_cooldown_s g) (bc_breaker g)\<rparr>"
  let ?I = "\<lambda>s. \<exists>n. lane_view ?o s = ([], n, Some ?g)" and ?E = "\<lambda>_ s. fst (lane_view ?o s) = []"
  have shut: "\<not> passes_gates ?lv entry n (bc_breaker ?g) p q" for entry n p q
    using passes_gates_limits(2) assms(4) by force
  have "triple (\<lambda>s. lane_view ?o s = ([], n, Some ?g)) (lane_step ?lv entries p) (\<lambda>_. ?I) ?E" for p n
    by (rule triple_conseq [OF watched.lane_step_view [where lv = ?lv and R = "\<lambda>_. True" and l = "[]" and n = n and g = "Some ?g" and p = p,
          OF _ _ TrueI TrueI refl refl]]) (use shut in auto)
  then have run: "triple ?I (efor proposals (lane_step ?lv entries)) (\<lambda>_. ?I) ?E"
    by (intro triple_efor triple_ex) auto
  have start: "?I (lane_start base_seq clock s)" using assms(2,3) by (simp add: lane_view_def lane_start_def)
  show ?thesis
    using triple_Inr [OF run start] triple_Inl [OF run start] assms(1) by (cases r') (auto simp: lane_view_def)
qed

text \<open>
  C32: an order reaches the venue only through both gates: in a run of the lane with any venue, any broadcast
  and any outcome, there are at most as many orders as the cap on the run, and none when the breaker is open
  once its cooldown has been looked at. Every order directly follows a quote that the venue gave for the order's market:
  the order has the quoted price, the quoted size covers it, the quote is within the maximal age, and at that
  price the slippage against the reference price stays within the maximum and the executable edge clears the
  minimum. It is placed outside the paper and dry-run modes, with the kill switch off, at an allowed venue and
  market, below the stake caps and the human-approval threshold, at no more than the maximal price, and for
  an eligible agent's valid, scored decision whose edge clears the minimum.
\<close>

theorem lane_submits_only_gated_orders:
  assumes "run_execution_lane parse_int (watch lv) now entries base_seq s = (r, s')" and "fst (ln_world s) = []"
  shows "int (length (orders_of (fst (ln_world s')))) \<le> max 0 (pe_max_orders_per_run (lv_envelope lv))
    \<and> (\<forall>lv' g. lane_env_for (watch lv) now = Inr lv' \<and> ln_guards s = Some g
         \<and> \<not> allows (resolve (lv_clock lv') (bc_cooldown_s g) (bc_breaker g)) \<longrightarrow> orders_of (fst (ln_world s')) = [])
    \<and> orders_follow (\<lambda>m q x. m = to_market_ref x
      \<and> lv_execution_mode lv \<notin> {''paper'', ''dry_run''} \<and> within_limits lv x
      \<and> \<not> fl_le (pe_human_approval_threshold (lv_envelope lv)) (to_size x)
      \<and> (\<exists>row \<in> set (rr_score_rows (lv_run lv)). \<exists>p entry. made_from row (pe_min_edge_bps (lv_envelope lv)) p
           \<and> map_of entries (sr_agent_id row) = Some entry \<and> ae_execution_eligibility entry
           \<and> to_market_ref x = pp_market_key p \<and> to_side x = pp_side p \<and> quote_clears lv p q x)) (fst (ln_world s'))"
    (is "?count \<and> ?open \<and> orders_follow ?ok _")
  using assms(1)
proof (cases rule: run_execution_lane_cases)
  case early
  with assms(2) show ?thesis by simp
next
  case (loop proposals clock r')
  let ?lv = "(watch lv)\<lparr>lv_clock := clock\<rparr>"
  have ok: "?ok (pp_market_key p) q (lane_order ?lv p q (execution_id_of ?lv p))"
    if p: "p \<in> set proposals" and gates: "passes_gates ?lv (map_of entries (pp_agent_id p)) n b p q"
      and mode: "lv_execution_mode ?lv \<noteq> ''dry_run''" for p q n b
  proof -
    from value_proposals_made_from [OF loop(1) p] obtain row where
      row: "row \<in> set (rr_score_rows (lv_run lv))" "made_from row (pe_min_edge_bps (lv_envelope lv)) p" by auto
    from passes_gates_limits(3) [OF gates] obtain entry where "map_of entries (pp_agent_id p) = Some entry" "ae_execution_eligibility entry"
      by (auto simp: agent_eligible_def split: option.splits)
    moreover have "sr_agent_id row = pp_agent_id p" using row(2) by (simp add: made_from_def)
    ultimately have "\<exists>row \<in> set (rr_score_rows (lv_run lv)). \<exists>p' entry. made_from row (pe_min_edge_bps (lv_envelope lv)) p'
        \<and> map_of entries (sr_agent_id row) = Some entry \<and> ae_execution_eligibility entry \<and> pp_market_key p = pp_market_key p'
        \<and> pp_side p = pp_side p' \<and> quote_clears lv p' q (lane_order ?lv p q (execution_id_of ?lv p))"
      using row passes_gates_quote [OF gates] by (intro bexI [of _ row] exI [of _ p] exI [of _ entry]) simp_all
    then show ?thesis
      using passes_gates_within_limits [OF gates, of "execution_id_of ?lv p"] passes_gates_limits(4) [OF gates] mode
      by (simp add: lane_order_def)
  qed
  have "keeps (\<lambda>s. orders_follow ?ok (fst (ln_world s))) (efor proposals (lane_step ?lv entries))"
    by (rule keeps_efor, rule watched.lane_step_calls) (use ok in \<open>auto intro: orders_follow_append\<close>)
  from keepsD [OF this, of "lane_start base_seq clock s"] loop(2) assms(2)
  have "orders_follow ?ok (fst (ln_world s'))" by (simp add: lane_start_def)
  moreover have ?open using open_breaker_places_nothing [OF loop(2) assms(2)] loop(3) by auto
  ultimately show ?thesis using watched_lane_counts [OF loop(2) assms(2)] by blast
qed

text \<open>
  C33: a failing venue is given up: when every status the venue reports is a failure, a live run with a fresh
  breaker and an enabled threshold hands it at most as many orders as the threshold, however many
  candidates there are and whatever the venue does besides.
\<close>

theorem failing_venue_trips_breaker:
  assumes "run_execution_lane parse_int (watch lv) now entries base_seq s = (r, s')" and "fst (ln_world s) = []"
    and "ln_guards s = Some g" and "bc_breaker g = new_breaker" and "is_live lv" and "0 < pe_circuit_breaker_threshold (lv_envelope lv)"
    and "\<And>i. triple (\<lambda>_. True) (va_get_order_status (lv_adapter lv) i)
      (\<lambda>st _. map_venue_status (vs_status st) \<in> set executed_failure_terminals) (\<lambda>_ _. True)"
  shows "int (length (orders_of (fst (ln_world s')))) \<le> pe_circuit_breaker_threshold (lv_envelope lv)"
  using assms(1)
proof (cases rule: run_execution_lane_cases)
  case early
  with assms(2,6) show ?thesis by simp
next
  case (loop proposals clock r')
  let ?lv = "(watch lv)\<lparr>lv_clock := clock\<rparr>" and ?o = "\<lambda>w. orders_of (fst w)" and ?th = "pe_circuit_breaker_threshold (lv_envelope lv)"
  let ?counts = "\<lambda>new c. int (length new) \<le> cb_consecutive_failures (bc_breaker c)
      \<and> (cb_state (bc_breaker c) = CLOSED \<and> cb_consecutive_failures (bc_breaker c) < ?th
         \<or> cb_state (bc_breaker c) = OPEN \<and> cb_consecutive_failures (bc_breaker c) \<le> ?th)"
  have venue: "failing_venue (watched (lv_adapter lv)) (map_option (\<lambda>f ev. beside (f ev)) (lv_broadcast lv)) ?o
      (\<lambda>st. map_venue_status (vs_status st) \<in> set executed_failure_terminals)"
    by (intro failing_venue.intro failing_venue_axioms.intro watched_orders assms(7))
  have run: "triple (\<lambda>s. \<exists>new n c. ?counts new c \<and> lane_view ?o s = (new, n, Some c)) (efor proposals (lane_step ?lv entries))
      (\<lambda>_ s. \<exists>new n c. ?counts new c \<and> lane_view ?o s = (new, n, Some c)) (\<lambda>_ s. \<exists>new. int (length new) \<le> ?th \<and> fst (lane_view ?o s) = new)"
    using failing_venue.lane_loop_breaker [OF venue, of ?lv "[]" proposals entries] assms(5) by simp
  have start: "\<exists>new n c. ?counts new c \<and> lane_view ?o (lane_start base_seq clock s) = (new, n, Some c)"
    using assms(2,3,4,6) by (auto simp: lane_view_def lane_start_def resolve_def new_breaker_def)
  show ?thesis
    using triple_Inr [OF run start] triple_Inl [OF run start] loop(2) by (cases r') (auto simp: lane_view_def)
qed

lemma passes_recheck_within_limits:
  assumes "passes_recheck lv entry breaker p quote"
  shows "within_limits lv (lane_order lv p quote eid)"
  using passes_recheck_limits [OF assms] by (simp add: within_limits_def lane_order_def)

lemma approval_early:
  assumes "resolve_approval parse_int lv now rec entry base_seq approver note s = (r, s')"
    and "value_proposals (lv_codec lv) parse_int (lv_run lv) (pe_min_edge_bps (lv_envelope lv)) = Inl e \<or> lane_env_for lv now = Inl e"
  shows "ln_world s' = ln_world s"
  using assms by (auto simp: resolve_approval_def ebind_apply eff_apply split: sum.splits)

text \<open>
  A human approval does not bypass the gates: with any venue and any outcome, resolving an approval places
  at most one order, and that order is for a record that waits for approval, is outside the dry run,
  re-derived from a scored decision of the record's own agent at the record's sequence number, and it
  passes both gates again under the current envelope: kill switch off, agent eligible, venue and
  market allowed, within the stake caps and the maximal price.
\<close>

theorem approval_regates_the_order:
  assumes "resolve_approval parse_int (watch lv) now rec entry base_seq approver note s = (r, s')" and "fst (ln_world s) = []"
  shows "length (orders_of (fst (ln_world s'))) \<le> 1
    \<and> (\<forall>x \<in> set (orders_of (fst (ln_world s'))). lv_execution_mode lv \<noteq> ''dry_run'' \<and> ex_status rec \<in> {LAW_APPROVED, AWAITING_HUMAN}
      \<and> agent_eligible entry \<and> within_limits lv x \<and> to_client_order_id x = ex_execution_id rec
      \<and> (\<exists>row \<in> set (rr_score_rows (lv_run lv)). \<exists>p. made_from row (pe_min_edge_bps (lv_envelope lv)) p
           \<and> sr_agent_id row = ex_agent_id rec \<and> pp_source_sequence_no p = ex_source_sequence_no rec
           \<and> to_market_ref x = pp_market_key p \<and> to_side x = pp_side p))"
proof (cases "\<exists>e. value_proposals (lv_codec (watch lv)) parse_int (lv_run (watch lv)) (pe_min_edge_bps (lv_envelope (watch lv))) = Inl e
    \<or> lane_env_for (watch lv) now = Inl e")
  case True
  with approval_early [OF assms(1)] assms(2) show ?thesis by fastforce
next
  case False
  then obtain proposals lv' where found: "value_proposals (lv_codec (watch lv)) parse_int (lv_run (watch lv)) (pe_min_edge_bps (lv_envelope (watch lv))) = Inr proposals"
    and env: "lane_env_for (watch lv) now = Inr lv'" by (metis sum.exhaust)
  from lane_env_for_fields [OF env] obtain c where lv': "lv' = (watch lv)\<lparr>lv_clock := c\<rparr>" by blast
  define breaker where "breaker = (case ln_guards s of None \<Rightarrow> new_breaker | Some c \<Rightarrow> resolve (lv_clock lv') (bc_cooldown_s c) (bc_breaker c))"
  have run: "triple (\<lambda>s. orders_of (fst (ln_world s)) = [] \<and> ln_guards s = g) (resolve_approval parse_int (watch lv) now rec entry base_seq approver note) (\<lambda>_. Q) (\<lambda>_. Q)"
    if "g = ln_guards s" and "Q = (\<lambda>s. orders_of (fst (ln_world s)) = [] \<or> (\<exists>p quote. candidate_for rec proposals = Some p \<and> passes_recheck lv' entry breaker p quote
        \<and> POLICY_APPROVED \<in> next_exec (ex_status rec) \<and> orders_of (fst (ln_world s)) = [] @ sent lv' (lane_order lv' p quote (ex_execution_id rec))))" for g Q
    unfolding that by (rule watched.resolve_approval_view [OF _ found env breaker_def]) simp
  have "orders_of (fst (ln_world s')) = [] \<or> (\<exists>p quote. candidate_for rec proposals = Some p \<and> passes_recheck lv' entry breaker p quote
        \<and> POLICY_APPROVED \<in> next_exec (ex_status rec) \<and> orders_of (fst (ln_world s')) = [] @ sent lv' (lane_order lv' p quote (ex_execution_id rec)))"
    using triple_Inr [OF run [OF refl refl], of s] triple_Inl [OF run [OF refl refl], of s] assms by (cases r) auto
  then show ?thesis
  proof (elim disjE exE conjE)
    fix p quote
    assume p: "candidate_for rec proposals = Some p" and gates: "passes_recheck lv' entry breaker p quote"
      and st: "POLICY_APPROVED \<in> next_exec (ex_status rec)"
      and orders: "orders_of (fst (ln_world s')) = [] @ sent lv' (lane_order lv' p quote (ex_execution_id rec))"
    have mine: "p \<in> set proposals" "pp_source_sequence_no p = ex_source_sequence_no rec" "pp_agent_id p = ex_agent_id rec"
      using p by (auto simp: candidate_for_def find_Some_iff)
    with value_proposals_made_from [OF found] obtain row where
      row: "row \<in> set (rr_score_rows (lv_run lv))" "made_from row (pe_min_edge_bps (lv_envelope lv)) p" by auto
    then have "sr_agent_id row = ex_agent_id rec" using mine by (simp add: made_from_def)
    moreover have "ex_status rec \<in> {LAW_APPROVED, AWAITING_HUMAN}" using st by (cases "ex_status rec") auto
    moreover have "agent_eligible entry" "within_limits lv (lane_order lv' p quote (ex_execution_id rec))"
      using passes_recheck_limits(3) [OF gates] passes_recheck_within_limits [OF gates] lv' by simp_all
    ultimately show ?thesis using orders row mine lv'
      by (auto simp: sent_def lane_order_def split: if_splits intro!: bexI [of _ row] exI [of _ p])
  qed simp
qed

section \<open>Concrete runs\<close>

lemma traded_lane:
  "\<exists>events s'. run_execution_lane (\<lambda>_. None) (watch (desk_env ''live_guarded'' ''rejected'')) None desk_entries 7 (desk_lane ([], ())) = (Inr events, s')
     \<and> length (orders_of (fst (ln_world s'))) = 1 \<and> length events = 3"
  using traded_proposals desk_prices
  by (simp add: run_execution_lane_def desk_env_def desk_lane_def desk_envelope_def desk_entries_def lane_env_for_def float_of_int_def fl_fit_def
     resolve_guards_def ebind_apply eff_apply lane_step_def lane_pre_def lane_post_def lane_stake_def size_stake_def
     gate_defs traded_proposal_def py_min_def desk_status watched_def desk_def beside_def venue_name_def current_breaker_def
     new_breaker_def allows_def agent_eligible_def is_live_def quoted_step_def in_world_def cap_breached_def in_cooldown_def flag_def
     emit_policy_result_def emit_lane_def settle_decision_def will_submit_def submit_step_def execute_order_def
     poll_order_terminal_def status_poll.simps new_record_def advance_execution_def build_receipt_def count_order_def move_breaker_def
     on_breaker_def emit_submission_def in_store_def append_execution_record_def Let_def resolve_def executed_failure_terminals_def lane_order_def watch_def)

theorem lane_submits_only_gated_orders_witness:
  "\<exists>x p q s'. snd (run_execution_lane (\<lambda>_. None) (watch (desk_env ''live_guarded'' ''rejected'')) None desk_entries 7 (desk_lane ([], ()))) = s'
     \<and> orders_of (fst (ln_world s')) = [x] \<and> within_limits (desk_env ''live_guarded'' ''rejected'') x
     \<and> quote_clears (desk_env ''live_guarded'' ''rejected'') p q x"
proof -
  from traded_lane obtain events s' where run:
    "run_execution_lane (\<lambda>_. None) (watch (desk_env ''live_guarded'' ''rejected'')) None desk_entries 7 (desk_lane ([], ())) = (Inr events, s')"
    "length (orders_of (fst (ln_world s'))) = 1" by blast
  then obtain x where x: "orders_of (fst (ln_world s')) = [x]" by (cases "orders_of (fst (ln_world s'))") auto
  have "fst (ln_world (desk_lane ([] :: lane_call list, ()))) = []" by (simp add: desk_lane_def)
  from lane_submits_only_gated_orders [OF run(1) this] have
    "orders_follow (\<lambda>m q x. within_limits (desk_env ''live_guarded'' ''rejected'') x \<and> (\<exists>p. quote_clears (desk_env ''live_guarded'' ''rejected'') p q x))
       (fst (ln_world s'))"
    by (elim conjE orders_follow_mono) blast
  from orders_follow_order [OF this, of x] x run(1) show ?thesis by auto
qed

theorem failing_venue_trips_breaker_witness:
  "\<exists>r s'. run_execution_lane (\<lambda>_. None) (watch (desk_env ''live_guarded'' ''rejected'')) None desk_entries 7 (desk_lane ([], ())) = (r, s')
     \<and> length (orders_of (fst (ln_world s'))) = 1 \<and> int (length (orders_of (fst (ln_world s')))) \<le> pe_circuit_breaker_threshold desk_envelope"
proof -
  from traded_lane obtain events s' where run:
    "run_execution_lane (\<lambda>_. None) (watch (desk_env ''live_guarded'' ''rejected'')) None desk_entries 7 (desk_lane ([], ())) = (Inr events, s')"
    "length (orders_of (fst (ln_world s'))) = 1" by blast
  have fails: "triple (\<lambda>_. True) (va_get_order_status (lv_adapter (desk_env ''live_guarded'' ''rejected'')) i)
      (\<lambda>st _. map_venue_status (vs_status st) \<in> set executed_failure_terminals) (\<lambda>_ _. True)" for i
    by (simp add: desk_env_def desk_def triple_simps desk_status executed_failure_terminals_def)
  have "int (length (orders_of (fst (ln_world s')))) \<le> pe_circuit_breaker_threshold (lv_envelope (desk_env ''live_guarded'' ''rejected''))"
    by (rule failing_venue_trips_breaker [OF run(1) _ _ _ _ _ fails, where g = "\<lparr>bc_breaker = new_breaker, bc_cooldown_s = Fin 30\<rparr>"])
       (simp_all add: desk_lane_def is_live_def desk_env_def desk_envelope_def)
  then have "int (length (orders_of (fst (ln_world s')))) \<le> pe_circuit_breaker_threshold desk_envelope" by (simp add: desk_env_def)
  with run show ?thesis by blast
qed

definition waiting_record :: execution_record where
  "waiting_record = \<lparr>ex_execution_id = ''r:1'', ex_competition_id = ''c'', ex_run_id = ''r'', ex_agent_id = ''a'',
     ex_source_sequence_no = 1, ex_status = AWAITING_HUMAN, ex_policy_hash = ''p'', ex_receipt = None\<rparr>"

lemma approved_order:
  "\<exists>v s'. resolve_approval (\<lambda>_. None) (watch (desk_env ''live_guarded'' ''rejected'')) None waiting_record
       (map_of desk_entries ''a'') 7 None None (desk_lane ([], ())) = (Inr v, s') \<and> length (orders_of (fst (ln_world s'))) = 1"
  using traded_proposals desk_prices
  by (simp add: resolve_approval_def waiting_record_def candidate_for_def recheck_def emit_audit_def collect_def approved_step_def
     desk_env_def desk_lane_def desk_envelope_def desk_entries_def lane_env_for_def float_of_int_def fl_fit_def
     resolve_guards_def ebind_apply eff_apply lane_pre_def lane_post_def lane_stake_def size_stake_def
     gate_defs traded_proposal_def py_min_def desk_status watched_def desk_def beside_def venue_name_def current_breaker_def
     new_breaker_def allows_def agent_eligible_def is_live_def in_world_def cap_breached_def in_cooldown_def flag_def
     emit_lane_def execute_order_def
     poll_order_terminal_def status_poll.simps advance_execution_def build_receipt_def move_breaker_def
     on_breaker_def emit_submission_def in_store_def append_execution_record_def Let_def resolve_def executed_failure_terminals_def lane_order_def watch_def)

theorem approval_regates_the_order_witness:
  "\<exists>x s'. snd (resolve_approval (\<lambda>_. None) (watch (desk_env ''live_guarded'' ''rejected'')) None waiting_record
       (map_of desk_entries ''a'') 7 None None (desk_lane ([], ()))) = s'
     \<and> orders_of (fst (ln_world s')) = [x] \<and> within_limits (desk_env ''live_guarded'' ''rejected'') x"
proof -
  from approved_order obtain v s' where run: "resolve_approval (\<lambda>_. None) (watch (desk_env ''live_guarded'' ''rejected'')) None waiting_record
       (map_of desk_entries ''a'') 7 None None (desk_lane ([], ())) = (Inr v, s')" "length (orders_of (fst (ln_world s'))) = 1" by blast
  then obtain x where "orders_of (fst (ln_world s')) = [x]" by (cases "orders_of (fst (ln_world s'))") auto
  with approval_regates_the_order [OF run(1)] run(1) show ?thesis by (auto simp: desk_lane_def)
qed

end
