(* ===== verification/Competition.thy ===== *)
theory Competition
  imports Lane_Orders
begin

text \<open>
  The competition service (\<open>src/veridex/competition/service.py\<close>): registration of agents, the
  fail-closed choice of the execution route, and the start of a competition, which persists the first
  event, runs with a live sink, projects the sealed run, compares it with what was streamed, appends the
  derived tail and runs the executor lane. One call is one effect on the store and on a world that
  holds the spectators and the real venue; the simulated venue is fresh in every call. Identifiers
  drawn from \<open>uuid4\<close> are arguments.
\<close>

section \<open>Defaults and routes\<close>

definition default_policy_envelope :: policy_envelope where
  "default_policy_envelope = \<lparr>pe_max_stake = Fin 10, pe_max_orders_per_run = 5, pe_max_orders_per_session = 5,
     pe_max_orders_per_day = 5, pe_venue_allowlist = [], pe_market_allowlist = [], pe_min_edge_bps = 0,
     pe_max_slippage_bps = 0, pe_max_price = Fin 1000, pe_max_quote_age_s = 300, pe_cooldown_s = 0,
     pe_human_approval_threshold = fl_zero, pe_max_stake_live_guarded = fl_zero, pe_circuit_breaker_threshold = 0,
     pe_max_session_loss = fl_zero, pe_max_daily_loss = fl_zero, pe_kill_switch = False\<rparr>"

record 'w live_execution_deps =
  ld_adapter :: "'w venue_adapter"
  ld_live_ready :: bool

definition live_arm_gate :: "'w live_execution_deps option \<Rightarrow> string option" where
  "live_arm_gate live_deps =
     (case live_deps of
        None \<Rightarrow> Some ''missing_live_deps''
      | Some d \<Rightarrow>
          if \<not> ld_live_ready d then Some ''live_ready_false''
          else if \<not> is_real_venue_quote (ld_adapter d) then Some ''non_real_adapter''
          else None)"

text \<open>An adapter acting on a part of a larger world.\<close>

definition via :: "('s \<Rightarrow> 'w) \<Rightarrow> ('w \<Rightarrow> 's \<Rightarrow> 's) \<Rightarrow> ('w, 'a) eff \<Rightarrow> ('s, 'a) eff" where
  "via get put m = (\<lambda>s. let (r, w) = m (get s) in (r, put w s))"

definition adapter_via :: "('s \<Rightarrow> 'w) \<Rightarrow> ('w \<Rightarrow> 's \<Rightarrow> 's) \<Rightarrow> 'w venue_adapter \<Rightarrow> 's venue_adapter" where
  "adapter_via get put ad = \<lparr>va_venue = va_venue ad, va_class_name = va_class_name ad, va_real_venue_quote = va_real_venue_quote ad,
     va_quote_market = (\<lambda>m z. via get put (va_quote_market ad m z)), va_submit_order = (\<lambda>x. via get put (va_submit_order ad x)),
     va_get_order_status = (\<lambda>i. via get put (va_get_order_status ad i)), va_cancel_order = (\<lambda>i. via get put (va_cancel_order ad i))\<rparr>"

definition real_side :: "'w venue_adapter \<Rightarrow> ('w \<times> fake_venue) venue_adapter" where
  "real_side = adapter_via fst (\<lambda>w (_, f). (w, f))"

text \<open>\<open>FakeVenueAdapter()\<close> with its default flags.\<close>

definition simulated_side :: "('w \<times> fake_venue) venue_adapter" where
  "simulated_side = adapter_via snd (\<lambda>f (w, _). (w, f))
     (fake_venue_adapter \<lparr>ff_fill = True, ff_fill_size = None, ff_stay_pending = False, ff_pending_polls = 0\<rparr>)"

definition select_execution_route ::
  "execution_mode \<Rightarrow> policy_envelope \<Rightarrow> 'w live_execution_deps option
   \<Rightarrow> (('w \<times> fake_venue) venue_adapter \<times> string \<times> breaker_cell option) result" where
  "select_execution_route mode envelope live_deps =
     (if mode = DRY_RUN then Inr (simulated_side, ''dry_run'', None)
      else case live_deps of
        Some d \<Rightarrow>
          if mode = LIVE_GUARDED \<and> live_arm_gate (Some d) = None
          then rbind (float_of_int (pe_cooldown_s envelope)) (\<lambda>cooldown.
            Inr (real_side (ld_adapter d), ''live_guarded'', Some \<lparr>bc_breaker = new_breaker, bc_cooldown_s = cooldown\<rparr>))
          else Inr (simulated_side, ''dry_run'', None)
      | None \<Rightarrow> Inr (simulated_side, ''dry_run'', None))"

section \<open>State and arguments of the service\<close>

record 'w arena =
  ar_world :: 'w
  ar_store :: store

record 'w service =
  sv_codec :: codec
  sv_parse :: "string \<Rightarrow> pyfloat option"
  sv_parse_int :: "string \<Rightarrow> int option"
  sv_policy_hash :: "policy_envelope \<Rightarrow> string"
  sv_broadcast :: "(competition_event \<Rightarrow> ('w, unit) eff) option"
  sv_live_deps :: "'w live_execution_deps option"
  sv_fake :: fake_venue

definition at_store :: "(store, 'a) eff \<Rightarrow> ('w arena, 'a) eff" where
  "at_store = via ar_store (\<lambda>st s. s\<lparr>ar_store := st\<rparr>)"

definition at_world :: "('w, 'a) eff \<Rightarrow> ('w arena, 'a) eff" where
  "at_world = via ar_world (\<lambda>w s. s\<lparr>ar_world := w\<rparr>)"

section \<open>Creating and registering\<close>

definition draft_competition :: "string \<Rightarrow> competition_config \<Rightarrow> (store, competition) eff" where
  "draft_competition hex config =
     (let c = \<lparr>co_competition_id = ''c_'' @ hex, co_config = config, co_status = DRAFT, co_entries = [], co_run_id = None,
               co_owner_id = None, co_replay_binding = None\<rparr>
      in ebind (create_competition c) (\<lambda>_. ereturn c))"

definition resolve_owned_instance :: "string \<Rightarrow> string option \<Rightarrow> (store, agent_instance) eff" where
  "resolve_owned_instance iid principal_did =
     (case principal_did of
        None \<Rightarrow> eraise RosterInstanceNotFoundError
      | Some did \<Rightarrow> (\<lambda>s.
          case get_agent_instance iid s of
            (Inl e, s') \<Rightarrow> (Inl RosterInstanceNotFoundError, s')
          | (Inr inst, s') \<Rightarrow>
              (case ai_operator_id inst of
                 None \<Rightarrow> (Inl RosterInstanceNotFoundError, s')
               | Some owner \<Rightarrow> if owner \<noteq> did then (Inl RosterInstanceNotOwnedError, s') else (Inr inst, s'))))"

definition roster_mutable_statuses :: "competition_status set" where
  "roster_mutable_statuses = {DRAFT, OPEN_FOR_ENTRIES}"

definition declared_config_hash :: "codec \<Rightarrow> string \<Rightarrow> string \<Rightarrow> string option \<Rightarrow> string \<Rightarrow> string" where
  "declared_config_hash cd agent_id strategy model proof_mode =
     cd_sha256 cd (cd_serialize cd (VDict [(''agent_id'', VStr agent_id), (''strategy'', VStr strategy),
       (''model'', opt_str model), (''proof_mode'', VStr proof_mode)]))"

definition register_agent :: "codec \<Rightarrow> string \<Rightarrow> agent_entry \<Rightarrow> string option \<Rightarrow> (store, agent_entry) eff" where
  "register_agent cd cid entry principal_did =
     ebind (elift (normalize_proof_mode (ae_proof_mode entry))) (\<lambda>proof_mode.
     ebind (case ae_instance_id entry of
              Some iid \<Rightarrow>
                ebind (resolve_owned_instance iid principal_did) (\<lambda>inst.
                  ereturn (entry\<lparr>ae_proof_mode := proof_mode, ae_config_hash := Some (ai_config_hash inst),
                    ae_instance_id := Some (ai_instance_id inst)\<rparr>))
            | None \<Rightarrow>
                ereturn (entry\<lparr>ae_proof_mode := proof_mode, ae_config_hash := Some
                  (declared_config_hash cd (ae_agent_id entry) (ae_strategy entry) (ae_model entry) proof_mode)\<rparr>)) (\<lambda>finalized.
     ebind (add_agent_entry_guarded cid finalized roster_mutable_statuses) (\<lambda>_.
       ereturn finalized)))"

section \<open>Publishing\<close>

text \<open>Whatever a spectator raises is dropped.\<close>

definition safe_broadcast :: "(competition_event \<Rightarrow> ('w, unit) eff) \<Rightarrow> competition_event \<Rightarrow> ('w, unit) eff" where
  "safe_broadcast broadcast event = (\<lambda>w. (Inr (), snd (broadcast event w)))"

text \<open>Persist a block, then show each of its events.\<close>

definition publish :: "'w service \<Rightarrow> string \<Rightarrow> competition_event list \<Rightarrow> ('w arena, unit) eff" where
  "publish sv cid events =
     ebind (at_store (append_competition_events cid events)) (\<lambda>_.
       case sv_broadcast sv of None \<Rightarrow> ereturn () | Some f \<Rightarrow> efor events (\<lambda>e. at_world (safe_broadcast f e)))"

text \<open>The live sink keeps the time of the current tick beside the arena.\<close>

definition evidence_sink :: "'w service \<Rightarrow> string \<Rightarrow> string \<Rightarrow> run_event \<Rightarrow> ('w arena \<times> int, unit) eff" where
  "evidence_sink sv cid run_id ev = (\<lambda>(s, current_tick_ts).
     case build_evidence_event (sv_codec sv) (sv_parse_int sv) cid run_id ev current_tick_ts of
       Inl e \<Rightarrow> (Inl e, (s, current_tick_ts))
     | Inr (event, ts) \<Rightarrow> (let (r, s') = publish sv cid [event] s in (r, (s', ts))))"

definition persist_sealed :: "sealed_run \<Rightarrow> ('w arena \<times> int, unit) eff" where
  "persist_sealed sealed = (\<lambda>(s, ts). let (r, s') = at_store (persist_run sealed) s in (r, (s', ts)))"

definition run_with_sink ::
  "'w service \<Rightarrow> string \<Rightarrow> string \<Rightarrow> market_state list \<Rightarrow> agent list \<Rightarrow> string \<Rightarrow> int \<Rightarrow> ('w arena, sealed_run) eff" where
  "run_with_sink sv cid run_id marketstates agents source_mode base_ts = (\<lambda>s.
     case run_competition (sv_codec sv) (sv_parse sv) (Some (evidence_sink sv cid run_id)) (Some persist_sealed)
            marketstates agents source_mode run_id (s, base_ts) of
       (r, (s', _)) \<Rightarrow> (r, s'))"

section \<open>Finalizing the log\<close>

definition assert_prefix_parity :: "competition_event list \<Rightarrow> competition_event list \<Rightarrow> unit result" where
  "assert_prefix_parity persisted projection =
     (if length persisted \<noteq> length projection then Inl CompetitionIntegrityError
      else if \<exists>(live_event, projected_event) \<in> set (zip persisted projection). canonical_dict live_event \<noteq> canonical_dict projected_event
      then Inl CompetitionIntegrityError else Inr ())"

definition finalize_log :: "'w service \<Rightarrow> string \<Rightarrow> int \<Rightarrow> sealed_run \<Rightarrow> ('w arena, competition_event list) eff" where
  "finalize_log sv cid base_ts run_result =
     ebind (elift (build_event_log (sv_codec sv) (sv_parse_int sv) run_result cid ''not_anchored'' base_ts)) (\<lambda>full_log.
     let prefix_end = int (length (sl_run_events run_result)) in
     ebind (eread (\<lambda>s. list_competition_events cid (- 1) (ar_store s))) (\<lambda>persisted_prefix.
     ebind (elift (assert_prefix_parity persisted_prefix (filter (\<lambda>e. ce_seq e \<le> prefix_end) full_log))) (\<lambda>_.
     ebind (at_store (append_competition_events cid (filter (\<lambda>e. ce_seq e > prefix_end) full_log))) (\<lambda>_.
       ereturn full_log))))"

section \<open>The execution block\<close>

definition entries_by_agent :: "competition \<Rightarrow> (string, agent_entry) dict" where
  "entries_by_agent c = fold (\<lambda>e. AList.update (ae_agent_id e) e) (co_entries c) []"

definition block_env ::
  "'w service \<Rightarrow> competition \<Rightarrow> sealed_run \<Rightarrow> policy_envelope \<Rightarrow> ('w \<times> fake_venue) venue_adapter \<Rightarrow> string \<Rightarrow> int \<Rightarrow> ('w \<times> fake_venue) lane_env" where
  "block_env sv c run_result envelope adapter mode event_ts =
     \<lparr>lv_codec = sv_codec sv, lv_policy_hash = sv_policy_hash sv, lv_competition_id = co_competition_id c, lv_run = run_result,
      lv_envelope = envelope, lv_adapter = adapter, lv_execution_mode = mode, lv_event_ts = event_ts, lv_bankroll = Fin 1000,
      lv_broadcast = None, lv_clock = fl_zero\<rparr>"

definition run_lane ::
  "'w service \<Rightarrow> ('w \<times> fake_venue) lane_env \<Rightarrow> (string, agent_entry) dict \<Rightarrow> breaker_cell option \<Rightarrow> int \<Rightarrow> ('w arena, competition_event list) eff" where
  "run_lane sv lv entries guards base_seq = (\<lambda>s.
     case run_execution_lane (sv_parse_int sv) lv None entries base_seq
            \<lparr>ln_world = (ar_world s, sv_fake sv), ln_store = ar_store s, ln_guards = guards, ln_events = [], ln_seq = 0,
             ln_orders_this_run = 0\<rparr> of
       (r, l) \<Rightarrow> (r, \<lparr>ar_world = fst (ln_world l), ar_store = ln_store l\<rparr>))"

definition route_event :: "'w service \<Rightarrow> competition \<Rightarrow> sealed_run \<Rightarrow> string \<Rightarrow> int \<Rightarrow> int \<Rightarrow> competition_event" where
  "route_event sv c run_result effective_mode seq event_ts =
     build_execution_route_event (sv_codec sv) (co_competition_id c) (sl_run_id run_result) seq event_ts
       [(''requested_execution_mode'', VStr ''live_guarded''), (''effective_execution_mode'', VStr effective_mode),
        (''degraded_because_not_armed'', VBool True), (''degrade_reason'', opt_str (live_arm_gate (sv_live_deps sv)))]"

definition run_execution_block ::
  "'w service \<Rightarrow> competition \<Rightarrow> sealed_run \<Rightarrow> execution_mode \<Rightarrow> int \<Rightarrow> int \<Rightarrow> ('w arena, unit) eff" where
  "run_execution_block sv c run_result mode base_seq event_ts =
     (let envelope = (case cc_policy_envelope (co_config c) of Some e \<Rightarrow> e | None \<Rightarrow> default_policy_envelope) in
      ebind (elift (select_execution_route mode envelope (sv_live_deps sv))) (\<lambda>(adapter, effective_mode, guards).
      ebind (if mode = LIVE_GUARDED \<and> effective_mode \<noteq> ''live_guarded''
             then ebind (publish sv (co_competition_id c) [route_event sv c run_result effective_mode base_seq event_ts]) (\<lambda>_.
               ereturn (base_seq + 1))
             else ereturn base_seq) (\<lambda>lane_seq.
      ebind (run_lane sv (block_env sv c run_result envelope adapter effective_mode event_ts) (entries_by_agent c) guards lane_seq) (\<lambda>events.
        publish sv (co_competition_id c) events))))"

section \<open>Starting a competition\<close>

text \<open>\<open>except Exception: ...; raise\<close>.\<close>

definition on_error :: "('s, 'a) eff \<Rightarrow> ('s, unit) eff \<Rightarrow> ('s, 'a) eff" where
  "on_error m handler = (\<lambda>s. case m s of
     (Inr x, s') \<Rightarrow> (Inr x, s')
   | (Inl e, s') \<Rightarrow> ebind handler (\<lambda>_. eraise e) s')"

definition first_ts :: "market_state list \<Rightarrow> int" where
  "first_ts marketstates = (case marketstates of [] \<Rightarrow> 0 | st # _ \<Rightarrow> mst_ts st)"

definition execute_after_seal ::
  "'w service \<Rightarrow> string \<Rightarrow> competition \<Rightarrow> sealed_run \<Rightarrow> competition_event list \<Rightarrow> int \<Rightarrow> ('w arena, unit) eff" where
  "execute_after_seal sv cid c run_result full_log base_ts =
     (let mode = cc_execution_mode (co_config c);
          next_seq = (if full_log = [] then 0 else Max (ce_seq ` set full_log)) + 1
      in if mode = PAPER then ereturn ()
         else on_error (run_execution_block sv c run_result mode next_seq base_ts)
           (at_store (update_competition_status cid FINALIZED)))"

definition run_to_log ::
  "'w service \<Rightarrow> string \<Rightarrow> string \<Rightarrow> market_state list \<Rightarrow> agent list \<Rightarrow> string
   \<Rightarrow> ('w arena, sealed_run \<times> competition_event list) eff" where
  "run_to_log sv cid run_id marketstates agents source_mode =
     (let base_ts = first_ts marketstates in
      ebind (at_store (append_competition_events cid
        [build_competition_started_event (sv_codec sv) cid run_id source_mode (map ag_agent_id agents) base_ts])) (\<lambda>_.
      ebind (run_with_sink sv cid run_id marketstates agents source_mode base_ts) (\<lambda>run_result.
      ebind (finalize_log sv cid base_ts run_result) (\<lambda>full_log.
        ereturn (run_result, full_log)))))"

definition start_competition ::
  "'w service \<Rightarrow> string \<Rightarrow> string \<Rightarrow> market_state list \<Rightarrow> agent list \<Rightarrow> ('w arena, competition) eff" where
  "start_competition sv cid run_id marketstates agents =
     ebind (at_store (get_competition cid)) (\<lambda>c.
     if co_status c = FINALIZED then eraise CompetitionConflictError
     else if co_status c = RUNNING then eraise CompetitionConflictError
     else
       ebind (at_store (update_competition_status cid RUNNING)) (\<lambda>_.
       ebind (at_store (update_competition_run_id cid run_id)) (\<lambda>_.
       ebind (run_to_log sv cid run_id marketstates agents (cc_source_mode (co_config c))) (\<lambda>(run_result, full_log).
       ebind (execute_after_seal sv cid c run_result full_log (first_ts marketstates)) (\<lambda>_.
       ebind (at_store (update_competition_status cid FINALIZED)) (\<lambda>_.
         at_store (get_competition cid)))))))"

section \<open>Invariants of a start\<close>

lemma via_keeps:
  "keeps P m \<Longrightarrow> (\<And>s. I s \<Longrightarrow> P (get s)) \<Longrightarrow> (\<And>s w. I s \<Longrightarrow> P w \<Longrightarrow> I (put w s)) \<Longrightarrow> keeps I (via get put m)"
  by (simp add: keeps_def via_def split: prod.split) (metis prod.collapse snd_conv)

lemma keeps_on_error [keeps_intros]: "keeps I m \<Longrightarrow> keeps I h \<Longrightarrow> keeps I (on_error m h)"
proof -
  assume m: "keeps I m" and h: "keeps I h"
  have "I (snd (on_error m h s))" if "I s" for s
  proof (cases "m s")
    case (Pair r s')
    then have "I s'" using keepsD [OF m that] by simp
    then have "I (snd (ebind h (\<lambda>_. eraise e) s'))" for e by (rule keepsD [OF keeps_ebind [OF h keeps_eraise]])
    with Pair \<open>I s'\<close> show ?thesis by (cases r) (simp_all add: on_error_def)
  qed
  then show ?thesis by (simp add: keeps_def)
qed

lemma keeps_TrueI: "keeps (\<lambda>_. True) m"
  by (simp add: keeps_def split: prod.split)

text \<open>
  What a whole start keeps: a predicate on the arena that every publication, the persisting of the sealed
  run and the lane of the chosen route keep, is kept by the run, the log and the execution block.
\<close>

locale arena_invariant =
  fixes sv :: "'w service" and c :: competition and I :: "'w arena \<Rightarrow> bool"
  assumes publish_keeps: "keeps I (publish sv cid events)"
    and append_keeps: "keeps I (at_store (append_competition_events cid events))"
    and persist_keeps: "keeps I (at_store (persist_run sealed))"
    and lane_keeps: "select_execution_route (cc_execution_mode (co_config c)) envelope (sv_live_deps sv) = Inr (adapter, mode, guards)
      \<Longrightarrow> keeps I (run_lane sv (block_env sv c run_result envelope adapter mode ts) entries guards seq)"
begin

lemma sink_keeps: "keeps (\<lambda>x. I (fst x)) (evidence_sink sv cid run_id ev)"
  by (auto simp: keeps_def evidence_sink_def case_prod_beta Let_def split: sum.splits intro: keepsD [OF publish_keeps])

lemma persist_sealed_keeps: "keeps (\<lambda>x. I (fst x)) (persist_sealed sealed)"
  by (auto simp: keeps_def persist_sealed_def case_prod_beta Let_def intro: keepsD [OF persist_keeps])

lemma run_with_sink_keeps: "keeps I (run_with_sink sv cid run_id states agents source_mode base_ts)"
proof (cases "source_mode \<in> {''replay'', ''live''}")
  case True
  let ?J = "\<lambda>x. I (fst x)"
  have sink: "keeps ?J (sink_all (Some (evidence_sink sv cid run_id)) evs)" for evs
    by (auto simp: sink_all_def intro!: keeps_intros sink_keeps)
  have persist: "keeps ?J (persist_all (Some persist_sealed) sealed)" for sealed
    by (simp add: persist_all_def persist_sealed_keeps)
  let ?run = "fed (sv_codec sv) agents source_mode run_id states"
  have "run_with_sink sv cid run_id states agents source_mode base_ts = (\<lambda>s.
      let (r, s') = ebind (sink_all (Some (evidence_sink sv cid run_id)) (cr_raw_events ?run)) (\<lambda>_.
        ebind (elift (seal (sv_codec sv) (sv_parse sv) None ?run)) (\<lambda>sealed.
        ebind (persist_all (Some persist_sealed) sealed) (\<lambda>_. ereturn sealed))) (s, base_ts) in (r, fst s'))"
    by (auto simp: fun_eq_iff run_with_sink_def run_competition_eq [OF True refl] ebind_def elift_def ereturn_def split: prod.splits sum.splits)
  moreover have "keeps ?J (ebind (sink_all (Some (evidence_sink sv cid run_id)) (cr_raw_events ?run)) (\<lambda>_.
        ebind (elift (seal (sv_codec sv) (sv_parse sv) None ?run)) (\<lambda>sealed.
        ebind (persist_all (Some persist_sealed) sealed) (\<lambda>_. ereturn sealed))))"
    by (intro keeps_intros sink persist)
  ultimately show ?thesis by (simp add: keeps_def case_prod_beta Let_def)
next
  case False
  then show ?thesis by (auto simp: keeps_def run_with_sink_def run_competition_def new_competition_run_def)
qed

lemma run_to_log_keeps: "keeps I (run_to_log sv cid run_id states agents source_mode)"
  unfolding run_to_log_def finalize_log_def Let_def
  by (intro keeps_intros append_keeps run_with_sink_keeps)

lemma block_keeps: "keeps I (run_execution_block sv c run_result (cc_execution_mode (co_config c)) base_seq ts)"
proof (cases "select_execution_route (cc_execution_mode (co_config c))
    (case cc_policy_envelope (co_config c) of Some e \<Rightarrow> e | None \<Rightarrow> default_policy_envelope) (sv_live_deps sv)")
  case (Inl e)
  then show ?thesis by (simp add: run_execution_block_def keeps_def eff_apply)
next
  case (Inr route)
  then show ?thesis unfolding run_execution_block_def
    by (cases route) (auto intro!: keeps_intros publish_keeps lane_keeps)
qed

end

section \<open>The lane without a broadcast\<close>

lemma quiet_emit:
  assumes "lv_broadcast lv = None" and "\<And>seq. lane_derived cd (build seq) \<and> ce_seq (build seq) = seq"
  shows "keeps (\<lambda>s. P (ln_world s) \<and> G (ln_store s) \<and> numbered_from cd base s) (emit_lane lv build)"
proof -
  have "emit_lane lv build = eupdate (\<lambda>s. s\<lparr>ln_events := ln_events s @ [build (ln_seq s)], ln_seq := ln_seq s + 1\<rparr>)"
    by (simp add: emit_lane_def assms(1) fun_eq_iff ebind_apply eff_apply)
  then show ?thesis using assms(2) by (auto simp: keeps_def eff_apply numbered_from_def)
qed

lemma poll_keeps:
  assumes "\<And>i. keeps P (va_get_order_status ad i)"
  shows "keeps P (poll_order_terminal ad i)"
proof -
  have "(\<And>i. keeps P (va_get_order_status ad i)) \<Longrightarrow> keeps P (status_poll ad i observed elapsed)" for observed elapsed
    by (induction ad i observed elapsed rule: status_poll.induct) (subst status_poll.simps, auto intro!: keeps_intros)
  then show ?thesis using assms unfolding poll_order_terminal_def by (intro keeps_intros) auto
qed

lemma quiet_lane_step:
  assumes lv: "lv_broadcast lv = None" and ops: "\<And>m z. keeps P (va_quote_market (lv_adapter lv) m z)"
      "\<And>x. keeps P (va_submit_order (lv_adapter lv) x)" "\<And>i. keeps P (va_get_order_status (lv_adapter lv) i)"
    and G: "\<And>st recs. G (st\<lparr>st_execution_records := recs\<rparr>) = G st"
  shows "keeps (\<lambda>s. P (ln_world s) \<and> G (ln_store s) \<and> numbered_from (lv_codec lv) base s) (lane_step lv entries p)"
    (is "keeps ?I _")
proof -
  have world: "keeps P m \<Longrightarrow> keeps ?I (in_world m)" for m :: "('a, 'x) eff"
    by (erule in_world_keeps) (auto simp: numbered_from_def)
  have order: "keeps ?I (in_world (execute_order (lv_adapter lv) mode eid order))" for mode eid order
    unfolding execute_order_def by (intro world keeps_intros ops poll_keeps)
  have store: "keeps ?I (in_store (append_execution_record r))" for r
    using G by (auto simp: keeps_def in_store_def append_execution_record_def eff_apply numbered_from_def)
  have update: "keeps ?I count_order" "keeps ?I (move_breaker lv receipt)" for receipt
    by (auto simp: count_order_def move_breaker_def on_breaker_def numbered_from_def intro!: keeps_intros)
  have emit: "keeps ?I (emit_policy_result lv p payload)" "keeps ?I (emit_submission lv cid eid aid order receipt)" for payload cid eid aid order receipt
    unfolding emit_policy_result_def emit_submission_def
    by (intro keeps_intros quiet_emit lv conjI lane_event_fields)+
  show ?thesis
    unfolding lane_step_def denied_step_def quoted_step_def settle_decision_def submit_step_def Let_def
    by (intro keeps_intros world ops order store update emit)
qed

lemma quiet_lane:
  assumes run: "run_execution_lane parse_int lv now entries base s = (r, s')"
    and lv: "lv_broadcast lv = None" and ops: "\<And>m z. keeps P (va_quote_market (lv_adapter lv) m z)"
      "\<And>x. keeps P (va_submit_order (lv_adapter lv) x)" "\<And>i. keeps P (va_get_order_status (lv_adapter lv) i)"
    and G: "\<And>st recs. G (st\<lparr>st_execution_records := recs\<rparr>) = G st" and start: "P (ln_world s)" "G (ln_store s)"
  shows "P (ln_world s') \<and> G (ln_store s')
    \<and> (\<forall>events. r = Inr events \<longrightarrow> map ce_seq events = map (\<lambda>i. base + int i) [0 ..< length events] \<and> (\<forall>e \<in> set events. lane_derived (lv_codec lv) e))"
proof -
  let ?J = "\<lambda>s. P (ln_world s) \<and> G (ln_store s)" and ?I = "\<lambda>s. P (ln_world s) \<and> G (ln_store s) \<and> numbered_from (lv_codec lv) base s"
  have reset: "triple ?J (eupdate (\<lambda>s. s\<lparr>ln_events := [], ln_seq := base, ln_orders_this_run := 0\<rparr>)) (\<lambda>_. ?I) (\<lambda>_. ?J)"
    by (simp add: triple_simps numbered_from_def)
  have found: "triple ?J (elift q) (\<lambda>_. ?J) (\<lambda>_. ?J)" for q :: "'x result" by (simp add: triple_simps split: sum.split)
  have env: "triple ?I (elift (lane_env_for lv now)) (\<lambda>lv' s. (\<exists>c. lv' = lv\<lparr>lv_clock := c\<rparr>) \<and> ?I s) (\<lambda>_. ?J)"
    using lane_env_for_fields [of lv now] by (auto simp: triple_simps split: sum.split)
  have guards: "triple ?I (resolve_guards t) (\<lambda>_. ?I) (\<lambda>_. ?J)" for t
    by (simp add: resolve_guards_def triple_simps numbered_from_def)
  have steps: "triple ?I (efor ps (lane_step (lv\<lparr>lv_clock := c\<rparr>) entries)) (\<lambda>_. ?I) (\<lambda>_. ?J)" for ps c
    using keeps_efor [of ps ?I "lane_step (lv\<lparr>lv_clock := c\<rparr>) entries"]
      quiet_lane_step [of "lv\<lparr>lv_clock := c\<rparr>" P G base entries] lv ops G
    by (intro triple_conseq [OF keeps_efor [unfolded keeps_iff_triple, of ps ?I]]) (auto simp: keeps_iff_triple [symmetric])
  have "triple ?J (run_execution_lane parse_int lv now entries base) (\<lambda>events s. events = ln_events s \<and> ?I s) (\<lambda>_. ?J)"
    unfolding run_execution_lane_def
    by (rule triple_ebind [OF found], rule triple_ebind [OF reset], rule triple_ebind [OF env], rule triple_pure, elim exE, hypsubst,
        rule triple_ebind [OF guards], rule triple_ebind [OF steps]) (simp add: triple_simps)
  from triple_Inr [OF this, of s] triple_Inl [OF this, of s] run start show ?thesis
    by (cases r) (auto simp: numbered_from_def)
qed

section \<open>The competition through a start\<close>

lemma at_store_apply [simp]: "at_store m s = (fst (m (ar_store s)), s\<lparr>ar_store := snd (m (ar_store s))\<rparr>)"
  by (simp add: at_store_def via_def case_prod_beta Let_def)

lemma at_store_Inr: "at_store m s = (Inr x, s') \<longleftrightarrow> (\<exists>st. m (ar_store s) = (Inr x, st) \<and> s' = s\<lparr>ar_store := st\<rparr>)"
  by (auto simp: prod_eq_iff)

lemma at_world_apply [simp]: "at_world m s = (fst (m (ar_world s)), s\<lparr>ar_world := snd (m (ar_world s))\<rparr>)"
  by (simp add: at_world_def via_def case_prod_beta Let_def)

lemma publish_keeps_store:
  assumes "\<And>st. F st \<Longrightarrow> F (snd (append_competition_events cid events st))"
  shows "keeps (\<lambda>s. F (ar_store s)) (publish sv cid events)"
  unfolding publish_def using assms by (intro keeps_intros) (auto simp: keeps_def)

lemma run_lane_keeps_store:
  assumes "\<And>st recs. G (st\<lparr>st_execution_records := recs\<rparr>) = G st"
  shows "keeps (\<lambda>s. G (ar_store s)) (run_lane sv (block_env sv c run_result envelope adapter mode ts) entries guards seq)"
  unfolding keeps_def run_lane_def
  using quiet_lane [where P = "\<lambda>_. True" and G = G and lv = "block_env sv c run_result envelope adapter mode ts" and now = None
      and parse_int = "sv_parse_int sv", OF _ _ keeps_TrueI keeps_TrueI keeps_TrueI assms]
  by (auto simp: block_env_def split: prod.splits)

lemma append_competitions [simp]: "st_competitions (snd (append_competition_events cid events st)) = st_competitions st"
  by (simp add: append_competition_events_def Let_def)

interpretation roster: arena_invariant sv c "\<lambda>s. st_competitions (ar_store s) = cs" for sv :: "'w service" and c cs
proof
  show "keeps (\<lambda>s. st_competitions (ar_store s) = cs) (publish sv cid events)" for cid events
    by (rule publish_keeps_store [where F = "\<lambda>st. st_competitions st = cs"]) simp
  show "keeps (\<lambda>s :: 'w arena. st_competitions (ar_store s) = cs) (at_store (append_competition_events cid events))" for cid events
    by (simp add: keeps_def)
  show "keeps (\<lambda>s :: 'w arena. st_competitions (ar_store s) = cs) (at_store (persist_run sealed))" for sealed
    by (simp add: keeps_def persist_run_def eff_apply)
  show "keeps (\<lambda>s. st_competitions (ar_store s) = cs) (run_lane sv (block_env sv c run_result envelope adapter mode ts) entries guards seq)"
    for envelope adapter mode guards run_result ts entries seq
    by (rule run_lane_keeps_store [where G = "\<lambda>st. st_competitions st = cs"]) simp
qed

text \<open>The start of a competition that is not running or finalized, from the claimed store on.\<close>

definition claimed :: "string \<Rightarrow> string \<Rightarrow> competition \<Rightarrow> store \<Rightarrow> store" where
  "claimed cid run_id c st = st\<lparr>st_competitions := AList.update cid (c\<lparr>co_status := RUNNING, co_run_id := Some run_id\<rparr>)
     (AList.update cid (c\<lparr>co_status := RUNNING\<rparr>) (st_competitions st))\<rparr>"

lemma start_claims:
  assumes "map_of (st_competitions (ar_store s)) cid = Some c" and "co_status c \<notin> {RUNNING, FINALIZED}"
  shows "start_competition sv cid run_id states agents s =
    ebind (run_to_log sv cid run_id states agents (cc_source_mode (co_config c))) (\<lambda>(run_result, full_log).
    ebind (execute_after_seal sv cid c run_result full_log (first_ts states)) (\<lambda>_.
    ebind (at_store (update_competition_status cid FINALIZED)) (\<lambda>_.
      at_store (get_competition cid)))) (s\<lparr>ar_store := claimed cid run_id c (ar_store s)\<rparr>)"
  using assms
  by (simp add: start_competition_def ebind_apply get_competition_def update_competition_status_def update_competition_run_id_def
      on_competition_def claimed_def update_conv')

lemma execute_after_seal_competitions:
  assumes "execute_after_seal sv cid c run_result full_log base_ts s = (r, s')"
    and "st_competitions (ar_store s) = cs" and "map_of cs cid = Some c'"
  shows "st_competitions (ar_store s') = (if r = Inr () then cs else AList.update cid (c'\<lparr>co_status := FINALIZED\<rparr>) cs)"
proof (cases "cc_execution_mode (co_config c) = PAPER")
  case True
  with assms show ?thesis by (auto simp: execute_after_seal_def eff_apply)
next
  case False
  let ?block = "run_execution_block sv c run_result (cc_execution_mode (co_config c)) ((if full_log = [] then 0 else Max (ce_seq ` set full_log)) + 1) base_ts"
  have "st_competitions (ar_store (snd (?block s))) = cs"
    using keepsD [OF roster.block_keeps [where cs = cs], of s] assms(2) by simp
  with False assms show ?thesis
    by (auto simp: execute_after_seal_def Let_def on_error_def ebind_apply eff_apply update_competition_status_def on_competition_def
        split: prod.splits sum.splits)
qed

text \<open>
  C30: a competition is run at most once. A start of a competition that is neither running nor finalized ends,
  whatever agents, venue, spectators and log do, with the competition running under the new run or
  finalized, and it is finalized whenever the start succeeds; after it every further start, with any
  arguments, is refused and changes nothing.
\<close>

theorem competition_starts_once:
  assumes "start_competition sv cid run_id states agents s = (r, s')"
    and "map_of (st_competitions (ar_store s)) cid = Some c" and "co_status c \<notin> {RUNNING, FINALIZED}"
  shows "\<exists>status \<in> {RUNNING, FINALIZED}. map_of (st_competitions (ar_store s')) cid = Some (c\<lparr>co_status := status, co_run_id := Some run_id\<rparr>)
    \<and> (\<forall>c'. r = Inr c' \<longrightarrow> c' = c\<lparr>co_status := FINALIZED, co_run_id := Some run_id\<rparr> \<and> status = FINALIZED)
    \<and> (\<forall>sv' run_id' states' agents'. start_competition sv' cid run_id' states' agents' s' = (Inl CompetitionConflictError, s'))"
proof -
  let ?s1 = "s\<lparr>ar_store := claimed cid run_id c (ar_store s)\<rparr>" and ?cr = "c\<lparr>co_status := RUNNING, co_run_id := Some run_id\<rparr>"
  define cs where "cs = st_competitions (ar_store ?s1)"
  have cs: "map_of cs cid = Some ?cr" by (simp add: cs_def claimed_def update_conv')
  have refused: "start_competition sv' cid run_id' states' agents' s' = (Inl CompetitionConflictError, s')"
    if "map_of (st_competitions (ar_store s')) cid = Some (c\<lparr>co_status := status, co_run_id := Some run_id\<rparr>)"
      "status \<in> {RUNNING, FINALIZED}" for sv' :: "'a service" and run_id' states' agents' status
    using that by (auto simp: start_competition_def ebind_apply eff_apply get_competition_def)
  obtain r1 s1 where 1: "run_to_log sv cid run_id states agents (cc_source_mode (co_config c)) ?s1 = (r1, s1)" by fastforce
  have s1: "st_competitions (ar_store s1) = cs"
    using keepsD [OF roster.run_to_log_keeps [where cs = cs], of ?s1] 1 cs_def by (metis snd_conv)
  note run = assms(1) [unfolded start_claims [OF assms(2,3)]]
  show ?thesis
  proof (cases r1)
    case (Inl e)
    with run 1 have "r = Inl e" "s' = s1" by (simp_all add: ebind_apply)
    with s1 cs refused [of RUNNING] show ?thesis by (intro bexI [of _ RUNNING]) auto
  next
    case (Inr x)
    obtain run_result full_log where x: "x = (run_result, full_log)" by fastforce
    obtain r2 s2 where 2: "execute_after_seal sv cid c run_result full_log (first_ts states) s1 = (r2, s2)" by fastforce
    from execute_after_seal_competitions [OF 2 s1 cs]
    have s2: "st_competitions (ar_store s2) = (if r2 = Inr () then cs else AList.update cid (?cr\<lparr>co_status := FINALIZED\<rparr>) cs)" .
    have final: "map_of (st_competitions (ar_store s')) cid = Some (c\<lparr>co_status := FINALIZED, co_run_id := Some run_id\<rparr>)
      \<and> (\<forall>c'. r = Inr c' \<longrightarrow> c' = c\<lparr>co_status := FINALIZED, co_run_id := Some run_id\<rparr>)"
      using run 1 2 Inr x s2 cs
      by (cases r2) (auto simp: ebind_apply update_competition_status_def on_competition_def get_competition_def update_conv')
    with refused [of FINALIZED] show ?thesis by (intro bexI [of _ FINALIZED]) auto
  qed
qed

section \<open>The log of a finished competition\<close>

lemma show_all: "\<exists>w. efor es (\<lambda>e. at_world (safe_broadcast f e)) s = (Inr (), s\<lparr>ar_world := w\<rparr>)"
proof (induction es arbitrary: s)
  case Nil
  show ?case by (simp add: eff_apply) (metis arena.surjective arena.update_convs(1))
next
  case (Cons e es)
  from Cons [of "s\<lparr>ar_world := snd (f e (ar_world s))\<rparr>"] show ?case by (auto simp: ebind_apply safe_broadcast_def)
qed

lemma publish_cases:
  obtains w where "publish sv cid es s = (fst (append_competition_events cid es (ar_store s)),
    \<lparr>ar_world = w, ar_store = snd (append_competition_events cid es (ar_store s))\<rparr>)"
proof -
  have "\<exists>w. publish sv cid es s = (fst (append_competition_events cid es (ar_store s)),
    \<lparr>ar_world = w, ar_store = snd (append_competition_events cid es (ar_store s))\<rparr>)"
  proof (cases "sv_broadcast sv")
    case None
    then show ?thesis by (cases s) (simp add: publish_def ebind_apply eff_apply split: sum.split)
  next
    case (Some f)
    with show_all [of es f "s\<lparr>ar_store := snd (append_competition_events cid es (ar_store s))\<rparr>"] show ?thesis
      by (cases s) (auto simp: publish_def ebind_apply eff_apply split: sum.split)
  qed
  with that show thesis by blast
qed

lemma append_events:
  "append_competition_events cid es st = (Inr (), st') \<Longrightarrow> events_of cid st' = events_of cid st @ es \<and> st_runs st' = st_runs st"
  by (auto simp: append_competition_events_def Let_def events_of_def update_conv' split: if_splits)

lemma publish_events:
  "publish sv cid es s = (Inr (), s') \<Longrightarrow> events_of cid (ar_store s') = events_of cid (ar_store s) @ es \<and> st_runs (ar_store s') = st_runs (ar_store s)"
  by (rule publish_cases [of sv cid es s]) (use append_events [of cid es "ar_store s"] in \<open>auto simp: prod_eq_iff\<close>)

lemma sink_events:
  assumes "sink_all (Some (evidence_sink sv cid run_id)) evs (s, ts) = (Inr (), (s', ts'))"
  shows "\<exists>es. evidence_events (sv_codec sv) (sv_parse_int sv) cid run_id evs ts = Inr es
    \<and> events_of cid (ar_store s') = events_of cid (ar_store s) @ es \<and> st_runs (ar_store s') = st_runs (ar_store s)"
  using assms
proof (induction evs arbitrary: s ts)
  case Nil
  then show ?case by (simp add: sink_all_def eff_apply)
next
  case (Cons ev evs)
  from Cons.prems have "ebind (evidence_sink sv cid run_id ev) (\<lambda>_. sink_all (Some (evidence_sink sv cid run_id)) evs) (s, ts) = (Inr (), (s', ts'))"
    by (simp add: sink_all_def)
  then obtain s1 ts1 where one: "evidence_sink sv cid run_id ev (s, ts) = (Inr (), (s1, ts1))"
    and rest: "sink_all (Some (evidence_sink sv cid run_id)) evs (s1, ts1) = (Inr (), (s', ts'))"
    by (cases "evidence_sink sv cid run_id ev (s, ts)"; cases "fst (evidence_sink sv cid run_id ev (s, ts))") (auto simp: ebind_apply)
  from one obtain event where ev: "build_evidence_event (sv_codec sv) (sv_parse_int sv) cid run_id ev ts = Inr (event, ts1)"
    and s1: "publish sv cid [event] s = (Inr (), s1)"
    by (auto simp: evidence_sink_def split: sum.splits prod.splits)
  from Cons.IH [OF rest] ev publish_events [OF s1] show ?case by auto
qed

lemma sealed_fields:
  assumes "seal cd parse None (fed cd agents source_mode run_id states) = Inr sealed"
  shows "sl_run_events sealed = cr_raw_events (fed cd agents source_mode run_id states)"
    and "rr_agent_ids sealed = map ag_agent_id agents" and "sl_run_id sealed = run_id" and "sl_source_mode sealed = source_mode"
    and "map re_sequence_no (sl_run_events sealed) = map int [0 ..< length (sl_run_events sealed)]"
proof -
  from sealE [OF assms] show events: "sl_run_events sealed = cr_raw_events (fed cd agents source_mode run_id states)" by metis
  from sealE [OF assms] show "rr_agent_ids sealed = map ag_agent_id agents" "sl_run_id sealed = run_id" "sl_source_mode sealed = source_mode"
    by (auto simp: fed_def)
  show "map re_sequence_no (sl_run_events sealed) = map int [0 ..< length (sl_run_events sealed)]"
    using numbered_fed [of cd agents source_mode run_id states] by (simp add: events numbered_def)
qed

lemma run_with_sink_log:
  assumes "run_with_sink sv cid run_id states agents source_mode ts s = (Inr sealed, s')"
  shows "\<exists>es. evidence_events (sv_codec sv) (sv_parse_int sv) cid run_id (sl_run_events sealed) ts = Inr es
    \<and> events_of cid (ar_store s') = events_of cid (ar_store s) @ es \<and> map_of (st_runs (ar_store s')) run_id = Some sealed
    \<and> sl_run_id sealed = run_id \<and> sl_source_mode sealed = source_mode \<and> rr_agent_ids sealed = map ag_agent_id agents
    \<and> map re_sequence_no (sl_run_events sealed) = map int [0 ..< length (sl_run_events sealed)]"
proof -
  from assms obtain ts' where run: "run_competition (sv_codec sv) (sv_parse sv) (Some (evidence_sink sv cid run_id)) (Some persist_sealed)
      states agents source_mode run_id (s, ts) = (Inr sealed, (s', ts'))"
    by (auto simp: run_with_sink_def split: prod.splits)
  from run obtain s1 ts1 where
    sink: "sink_all (Some (evidence_sink sv cid run_id)) (cr_raw_events (fed (sv_codec sv) agents source_mode run_id states)) (s, ts) = (Inr (), (s1, ts1))"
    and seal: "seal (sv_codec sv) (sv_parse sv) None (fed (sv_codec sv) agents source_mode run_id states) = Inr sealed"
    and persist: "persist_all (Some persist_sealed) sealed (s1, ts1) = (Inr (), (s', ts'))"
    by (rule run_competition_InrE) auto
  note sealed = sealed_fields [OF seal]
  have "map_of (st_runs (ar_store s')) run_id = Some sealed" "events_of cid (ar_store s') = events_of cid (ar_store s1)"
    using persist sealed(3) by (auto simp: persist_all_def persist_sealed_def persist_run_def eff_apply update_conv' events_of_def)
  then show ?thesis using sink_events [OF sink] sealed by auto
qed

lemma map_eq_all:
  assumes "map f xs = map g ys" and "x \<in> set xs" and "\<And>y. y \<in> set ys \<Longrightarrow> P (g y)"
  shows "P (f x)"
proof -
  have "f x \<in> set (map g ys)" using assms(2) by (simp flip: assms(1))
  with assms(3) show ?thesis by auto
qed

lemma numbered_nth: "map f xs = map g [0 ..< length xs] \<Longrightarrow> i < length xs \<Longrightarrow> f (xs ! i) = g i"
  by (metis length_map nth_map nth_map_upt add_0 diff_zero)

lemma numbered_prefix: "map f (xs @ ys) = map g [0 ..< length (xs @ ys)] \<Longrightarrow> map f xs = map g [0 ..< length xs]"
  using upt_add_eq_append [of 0 "length xs" "length ys"] by simp

lemma event_log_split:
  assumes "build_event_log cd parse_int sealed cid a ts = Inr evlog"
    and "map re_sequence_no (sl_run_events sealed) = map int [0 ..< length (sl_run_events sealed)]"
    and "n = int (length (sl_run_events sealed))"
    and "started = build_competition_started_event cd cid (sl_run_id sealed) (sl_source_mode sealed) (rr_agent_ids sealed) ts"
  obtains es where "evidence_events cd parse_int cid (sl_run_id sealed) (sl_run_events sealed) ts = Inr es"
    and "filter (\<lambda>e. ce_seq e \<le> n) evlog = started # es" and "evlog = started # es @ filter (\<lambda>e. ce_seq e > n) evlog"
proof -
  from build_event_logE [OF assms(1)] numbered_sorted [OF assms(2)] obtain es ds where
    es: "evidence_events cd parse_int cid (sl_run_id sealed) (sl_run_events sealed) ts = Inr es"
    and parts: "evlog = started # es @ emit_derived cd cid (sl_run_id sealed) ts ds (n + 1)"
    unfolding assms(3,4) by metis
  let ?tail = "emit_derived cd cid (sl_run_id sealed) ts ds (n + 1)"
  have high: "ce_seq e > n" if "e \<in> set ?tail" for e
    using that by (rule map_eq_all [OF emit_derived_seq(1), where P = "\<lambda>k. k > n"]) simp
  have low: "ce_seq e \<le> n" if "e \<in> set es" for e
    using that
  proof (rule map_eq_all [OF evidence_seqs [OF es], where P = "\<lambda>k. k \<le> n"])
    fix ev assume "ev \<in> set (sl_run_events sealed)"
    then show "re_sequence_no ev + 1 \<le> n" by (rule map_eq_all [OF assms(2), where P = "\<lambda>k. k + 1 \<le> n"]) (simp add: assms(3))
  qed
  have start: "ce_seq started = 0" by (simp add: assms(4) build_competition_started_event_def derived_event_def)
  have "filter (\<lambda>e. ce_seq e > n) evlog = ?tail"
    using high low start by (simp add: parts assms(3) filter_id_conv filter_empty_conv not_less)
  moreover have "filter (\<lambda>e. ce_seq e \<le> n) evlog = started # es"
    using high low start by (simp add: parts assms(3) filter_id_conv filter_empty_conv not_le)
  ultimately show thesis using that es parts by simp
qed

lemma run_to_log_result:
  assumes "run_to_log sv cid run_id states agents source_mode s = (Inr (sealed, evlog), s')" and "events_of cid (ar_store s) = []"
  shows "build_event_log (sv_codec sv) (sv_parse_int sv) sealed cid ''not_anchored'' (first_ts states) = Inr evlog
    \<and> events_of cid (ar_store s') = evlog \<and> map ce_seq evlog = map int [0 ..< length evlog] \<and> evlog \<noteq> []
    \<and> map_of (st_runs (ar_store s')) run_id = Some sealed \<and> sl_run_id sealed = run_id"
proof -
  let ?ts = "first_ts states" and ?cd = "sv_codec sv"
  let ?started = "build_competition_started_event ?cd cid run_id source_mode (map ag_agent_id agents) ?ts"
  from assms(1) obtain s1 s2 where first: "at_store (append_competition_events cid [?started]) s = (Inr (), s1)"
    and 2: "run_with_sink sv cid run_id states agents source_mode ?ts s1 = (Inr sealed, s2)"
    and 3: "finalize_log sv cid ?ts sealed s2 = (Inr evlog, s')"
    unfolding run_to_log_def Let_def ebind_eq_Inr_iff by (auto simp: eff_apply simp del: at_store_apply)
  from first have 1: "append_competition_events cid [?started] (ar_store s) = (Inr (), ar_store s1)"
    by (auto simp: at_store_Inr simp del: at_store_apply)
  from run_with_sink_log [OF 2] obtain es where
    es: "evidence_events ?cd (sv_parse_int sv) cid run_id (sl_run_events sealed) ?ts = Inr es"
      "events_of cid (ar_store s2) = ?started # es"
    and sealed: "map_of (st_runs (ar_store s2)) run_id = Some sealed" "sl_run_id sealed = run_id" "sl_source_mode sealed = source_mode"
      "rr_agent_ids sealed = map ag_agent_id agents"
      "map re_sequence_no (sl_run_events sealed) = map int [0 ..< length (sl_run_events sealed)]"
    using append_events [OF 1] assms(2) by auto
  let ?n = "int (length (sl_run_events sealed))"
  from 3 have evlog: "build_event_log ?cd (sv_parse_int sv) sealed cid ''not_anchored'' ?ts = Inr evlog"
    and tail: "append_competition_events cid (filter (\<lambda>e. ce_seq e > ?n) evlog) (ar_store s2) = (Inr (), ar_store s')"
    unfolding finalize_log_def Let_def
    by (auto simp: ebind_eq_Inr_iff at_store_Inr eff_apply simp del: at_store_apply)
  from event_log_split [OF evlog sealed(5) refl refl] obtain evidence where
    ev: "evidence_events ?cd (sv_parse_int sv) cid run_id (sl_run_events sealed) ?ts = Inr evidence"
    and parts: "evlog = ?started # evidence @ filter (\<lambda>e. ?n < ce_seq e) evlog"
    using sealed by metis
  have "events_of cid (ar_store s') = evlog" "st_runs (ar_store s') = st_runs (ar_store s2)"
    using append_events [OF tail] es ev parts by simp_all
  with evlog event_log_numbers [OF evlog sealed(5)] parts sealed show ?thesis by auto
qed

lemma run_lane_events:
  assumes "run_lane sv (block_env sv c run_result envelope adapter mode ts) entries guards base s = (Inr events, s')"
  shows "events_of cid (ar_store s') = events_of cid (ar_store s) \<and> st_runs (ar_store s') = st_runs (ar_store s)
    \<and> map ce_seq events = map (\<lambda>i. base + int i) [0 ..< length events] \<and> (\<forall>e \<in> set events. \<not> ce_evidence e)"
proof -
  let ?G = "\<lambda>st. events_of cid st = events_of cid (ar_store s) \<and> st_runs st = st_runs (ar_store s)"
  from assms obtain l where l: "run_execution_lane (sv_parse_int sv) (block_env sv c run_result envelope adapter mode ts) None entries base
      \<lparr>ln_world = (ar_world s, sv_fake sv), ln_store = ar_store s, ln_guards = guards, ln_events = [], ln_seq = 0,
             ln_orders_this_run = 0\<rparr> = (Inr events, l)" and s': "s' = \<lparr>ar_world = fst (ln_world l), ar_store = ln_store l\<rparr>"
    by (auto simp: run_lane_def split: prod.splits)
  from quiet_lane [OF l, where P = "\<lambda>_. True" and G = ?G] s' show ?thesis
    by (auto simp: block_env_def keeps_TrueI events_of_def lane_derived_def)
qed

lemma block_events:
  assumes "run_execution_block sv c run_result mode base ts s = (Inr (), s')" and "co_competition_id c = cid"
  shows "\<exists>block. events_of cid (ar_store s') = events_of cid (ar_store s) @ block \<and> st_runs (ar_store s') = st_runs (ar_store s)
    \<and> map ce_seq block = map (\<lambda>i. base + int i) [0 ..< length block] \<and> (\<forall>e \<in> set block. \<not> ce_evidence e)"
proof -
  let ?env = "case cc_policy_envelope (co_config c) of Some e \<Rightarrow> e | None \<Rightarrow> default_policy_envelope"
  from assms(1) obtain adapter eff guards where route: "select_execution_route mode ?env (sv_live_deps sv) = Inr (adapter, eff, guards)"
    by (cases "select_execution_route mode ?env (sv_live_deps sv)") (auto simp: run_execution_block_def eff_apply)
  let ?ev = "route_event sv c run_result eff base ts"
  let ?degraded = "mode = LIVE_GUARDED \<and> eff \<noteq> ''live_guarded''"
  let ?first = "if ?degraded then [?ev] else []"
  have first: "ce_seq ?ev = base" "\<not> ce_evidence ?ev"
    by (simp_all add: route_event_def build_execution_route_event_def derived_event_def)
  from assms(1) route obtain s1 events s2 where
    1: "events_of cid (ar_store s1) = events_of cid (ar_store s) @ ?first" "st_runs (ar_store s1) = st_runs (ar_store s)"
    and 2: "run_lane sv (block_env sv c run_result ?env adapter eff ts) (entries_by_agent c) guards (base + int (length ?first)) s1 = (Inr events, s2)"
    and 3: "events_of cid (ar_store s') = events_of cid (ar_store s2) @ events" "st_runs (ar_store s') = st_runs (ar_store s2)"
    by (cases ?degraded) (auto simp: run_execution_block_def ebind_eq_Inr_iff eff_apply assms(2) dest!: publish_events)
  have numbers: "map ce_seq (?first @ events) = map (\<lambda>i. base + int i) [0 ..< length (?first @ events)]"
    using run_lane_events [OF 2] first by (auto simp: map_upt_Suc add.assoc simp del: upt_Suc)
  from run_lane_events [OF 2, of cid] 3 1 first numbers show ?thesis
    by (intro exI [of _ "?first @ events"]) auto
qed

lemma numbered_list:
  assumes "map ce_seq evs = map int [0 ..< length evs]"
  shows "sort_key ce_seq evs = evs" and "filter (\<lambda>e. - 1 < ce_seq e) evs = evs" and "evs \<noteq> [] \<Longrightarrow> Max (ce_seq ` set evs) + 1 = int (length evs)"
proof -
  have "sorted (map ce_seq evs)" unfolding assms by (simp add: sorted_iff_nth_mono)
  then show "sort_key ce_seq evs = evs" by (rule sort_key_id_if_sorted)
  show "filter (\<lambda>e. - 1 < ce_seq e) evs = evs"
    by (auto simp: filter_id_conv intro: map_eq_all [OF assms, where P = "\<lambda>k. - 1 < k"])
  assume "evs \<noteq> []"
  have "ce_seq ` set evs = int ` {0 ..< length evs}" by (metis assms atLeastLessThan_upt list.set_map)
  moreover have "Max (int ` {0 ..< length evs}) = int (length evs - 1)"
    using \<open>evs \<noteq> []\<close> by (intro Max_eqI imageI) auto
  ultimately show "Max (ce_seq ` set evs) + 1 = int (length evs)" using \<open>evs \<noteq> []\<close> by (cases evs) simp_all
qed

lemma start_success:
  assumes "start_competition sv cid run_id states agents s = (Inr c', s')" and "map_of (st_competitions (ar_store s)) cid = Some c"
  shows "co_status c \<notin> {RUNNING, FINALIZED}"
  using assms by (auto simp: start_competition_def ebind_apply eff_apply get_competition_def split: if_splits)

text \<open>
  C28: the log of a finished competition is a projection of its sealed run: after a successful start the stored
  run has the new run id, the stored log begins with the whole log that \<open>build_event_log\<close> makes of
  that run, what the execution lane appended follows it without a gap and holds no evidence, and in paper
  mode nothing follows.
\<close>

theorem finished_log_is_the_projection:
  assumes "start_competition sv cid run_id states agents s = (Inr c', s')" and "map_of (st_competitions (ar_store s)) cid = Some c"
    and "co_competition_id c = cid" and "events_of cid (ar_store s) = []"
  shows "\<exists>sealed evlog block. map_of (st_runs (ar_store s')) run_id = Some sealed \<and> sl_run_id sealed = run_id
    \<and> build_event_log (sv_codec sv) (sv_parse_int sv) sealed cid ''not_anchored'' (first_ts states) = Inr evlog
    \<and> list_competition_events cid (- 1) (ar_store s') = evlog @ block
    \<and> map ce_seq (evlog @ block) = map int [0 ..< length (evlog @ block)] \<and> (\<forall>e \<in> set block. \<not> ce_evidence e)
    \<and> (cc_execution_mode (co_config c) = PAPER \<longrightarrow> block = [])"
proof -
  let ?s1 = "s\<lparr>ar_store := claimed cid run_id c (ar_store s)\<rparr>"
  note run = assms(1) [unfolded start_claims [OF assms(2) start_success [OF assms(1,2)]]]
  from run obtain sealed evlog s2 where 2: "run_to_log sv cid run_id states agents (cc_source_mode (co_config c)) ?s1 = (Inr (sealed, evlog), s2)"
    and rest: "ebind (execute_after_seal sv cid c sealed evlog (first_ts states)) (\<lambda>_.
      ebind (at_store (update_competition_status cid FINALIZED)) (\<lambda>_. at_store (get_competition cid))) s2 = (Inr c', s')"
    by (subst (asm) ebind_eq_Inr_iff) auto
  from rest obtain u s3 where 3: "execute_after_seal sv cid c sealed evlog (first_ts states) s2 = (Inr u, s3)"
    and last: "ebind (at_store (update_competition_status cid FINALIZED)) (\<lambda>_. at_store (get_competition cid)) s3 = (Inr c', s')"
    by (subst (asm) ebind_eq_Inr_iff) auto
  have s': "events_of cid (ar_store s') = events_of cid (ar_store s3)" "st_runs (ar_store s') = st_runs (ar_store s3)"
    using last by (auto simp: ebind_eq_Inr_iff at_store_Inr update_competition_status_def on_competition_def get_competition_def events_of_def
        simp del: at_store_apply split: option.splits)
  have evlog: "build_event_log (sv_codec sv) (sv_parse_int sv) sealed cid ''not_anchored'' (first_ts states) = Inr evlog"
      "events_of cid (ar_store s2) = evlog" "map ce_seq evlog = map int [0 ..< length evlog]" "evlog \<noteq> []"
      "map_of (st_runs (ar_store s2)) run_id = Some sealed" "sl_run_id sealed = run_id"
    using run_to_log_result [OF 2] assms(4) by (simp_all add: claimed_def events_of_def)
  obtain block where block: "events_of cid (ar_store s3) = evlog @ block" "st_runs (ar_store s3) = st_runs (ar_store s2)"
      "map ce_seq block = map (\<lambda>i. int (length evlog) + int i) [0 ..< length block]" "\<forall>e \<in> set block. \<not> ce_evidence e"
      "cc_execution_mode (co_config c) = PAPER \<longrightarrow> block = []"
  proof (cases "cc_execution_mode (co_config c) = PAPER")
    case True
    with 3 that [of "[]"] evlog(2) show thesis by (simp add: execute_after_seal_def eff_apply)
  next
    case False
    with 3 numbered_list(3) [OF evlog(3,4)] evlog(4)
    have "run_execution_block sv c sealed (cc_execution_mode (co_config c)) (int (length evlog)) (first_ts states) s2 = (Inr (), s3)"
      by (auto simp: execute_after_seal_def Let_def on_error_def ebind_apply eff_apply split: prod.splits sum.splits)
    from block_events [OF this assms(3)] that False evlog(2) show thesis by auto
  qed
  have numbers: "map ce_seq (evlog @ block) = map int [0 ..< length (evlog @ block)]"
    by (intro nth_equalityI) (auto simp: nth_append evlog(3) [THEN numbered_nth] block(3) [THEN numbered_nth])
  have "list_competition_events cid (- 1) (ar_store s') = evlog @ block"
    unfolding list_competition_events_def s'(1) block(1) numbered_list(1) [OF numbers] by (rule numbered_list(2) [OF numbers])
  with evlog block s' numbers show ?thesis by (intro exI [of _ sealed] exI [of _ evlog] exI [of _ block]) simp
qed

section \<open>Paper starts succeed\<close>

lemma append_succeeds:
  "distinct (map ce_seq (events_of cid st @ es)) \<Longrightarrow> \<exists>st'. append_competition_events cid es st = (Inr (), st')"
  by (auto simp: append_competition_events_def Let_def seq_taken_iff)

lemma publish_succeeds:
  "distinct (map ce_seq (events_of cid (ar_store s) @ es)) \<Longrightarrow> \<exists>s'. publish sv cid es s = (Inr (), s')"
  by (rule publish_cases [of sv cid es s]) (use append_succeeds [of cid "ar_store s" es] in auto)

lemma sink_succeeds:
  assumes "evidence_events (sv_codec sv) (sv_parse_int sv) cid run_id evs ts = Inr es"
    and "distinct (map ce_seq (events_of cid (ar_store s) @ es))"
  shows "\<exists>s' ts'. sink_all (Some (evidence_sink sv cid run_id)) evs (s, ts) = (Inr (), (s', ts'))"
  using assms
proof (induction evs arbitrary: s ts es)
  case Nil
  then show ?case by (simp add: sink_all_def eff_apply)
next
  case (Cons ev evs)
  from Cons.prems(1) obtain event ts1 es1 where ev: "build_evidence_event (sv_codec sv) (sv_parse_int sv) cid run_id ev ts = Inr (event, ts1)"
    and rest: "evidence_events (sv_codec sv) (sv_parse_int sv) cid run_id evs ts1 = Inr es1" and es: "es = event # es1"
    by (auto simp: rbind_Inr_iff)
  from Cons.prems(2) es obtain s1 where s1: "publish sv cid [event] s = (Inr (), s1)"
    using publish_succeeds [of cid s "[event]" sv] by auto
  then have "distinct (map ce_seq (events_of cid (ar_store s1) @ es1))"
    using publish_events [OF s1] Cons.prems(2) es by auto
  from Cons.IH [OF rest this] obtain s' ts' where
    "sink_all (Some (evidence_sink sv cid run_id)) evs (s1, ts1) = (Inr (), (s', ts'))" by blast
  with ev s1 show ?case by (auto simp: sink_all_def evidence_sink_def [of sv cid run_id ev] ebind_apply)
qed

lemma run_with_sink_succeeds:
  assumes mode: "source_mode \<in> {''replay'', ''live''}"
    and seal: "seal (sv_codec sv) (sv_parse sv) None (fed (sv_codec sv) agents source_mode run_id states) = Inr sealed"
    and es: "evidence_events (sv_codec sv) (sv_parse_int sv) cid run_id (sl_run_events sealed) ts = Inr es"
    and "distinct (map ce_seq (events_of cid (ar_store s) @ es))"
  shows "\<exists>s'. run_with_sink sv cid run_id states agents source_mode ts s = (Inr sealed, s')"
proof -
  have "sl_run_events sealed = cr_raw_events (fed (sv_codec sv) agents source_mode run_id states)" using sealE [OF seal] by metis
  with sink_succeeds [OF es assms(4)] obtain s1 ts1 where
    "sink_all (Some (evidence_sink sv cid run_id)) (cr_raw_events (fed (sv_codec sv) agents source_mode run_id states)) (s, ts) = (Inr (), (s1, ts1))"
    by auto
  with seal show ?thesis
    by (simp add: run_with_sink_def run_competition_eq [OF mode refl] persist_all_def persist_sealed_def persist_run_def eff_apply)
qed

lemma paper_start:
  assumes c: "map_of (st_competitions (ar_store s)) cid = Some c" "co_status c \<notin> {RUNNING, FINALIZED}"
      "cc_execution_mode (co_config c) = PAPER" "cc_source_mode (co_config c) = source_mode" "source_mode \<in> {''replay'', ''live''}"
    and fresh: "events_of cid (ar_store s) = []"
    and seal: "seal (sv_codec sv) (sv_parse sv) None (fed (sv_codec sv) agents source_mode run_id states) = Inr sealed"
    and evlog: "build_event_log (sv_codec sv) (sv_parse_int sv) sealed cid ''not_anchored'' (first_ts states) = Inr evlog"
  shows "\<exists>s'. start_competition sv cid run_id states agents s = (Inr (c\<lparr>co_status := FINALIZED, co_run_id := Some run_id\<rparr>), s')
    \<and> events_of cid (ar_store s') = evlog"
proof -
  let ?s0 = "s\<lparr>ar_store := claimed cid run_id c (ar_store s)\<rparr>" and ?ts = "first_ts states" and ?cd = "sv_codec sv"
  let ?started = "build_competition_started_event ?cd cid run_id source_mode (map ag_agent_id agents) ?ts"
  let ?n = "int (length (sl_run_events sealed))"
  note sealed = sealed_fields [OF seal]
  from event_log_split [OF evlog sealed(5) refl refl] obtain es where
    es: "evidence_events ?cd (sv_parse_int sv) cid run_id (sl_run_events sealed) ?ts = Inr es"
    and head: "filter (\<lambda>e. ce_seq e \<le> ?n) evlog = ?started # es" and parts: "evlog = ?started # es @ filter (\<lambda>e. ?n < ce_seq e) evlog"
    unfolding sealed(2,3,4) by metis
  define tail where "tail = filter (\<lambda>e. ?n < ce_seq e) evlog"
  note parts = parts [folded tail_def]
  note numbers = event_log_numbers [OF evlog sealed(5)]
  have dist: "distinct (map ce_seq evlog)" unfolding numbers by (simp add: distinct_map)
  have fresh0: "events_of cid (ar_store ?s0) = []" using fresh by (simp add: claimed_def events_of_def)
  obtain st1 where 1: "append_competition_events cid [?started] (ar_store ?s0) = (Inr (), st1)"
    using append_succeeds [of cid "ar_store ?s0" "[?started]"] fresh0 by auto
  have ev1: "events_of cid st1 = [?started]" using append_events [OF 1] fresh0 by simp
  obtain s2 where 2: "run_with_sink sv cid run_id states agents source_mode ?ts (?s0\<lparr>ar_store := st1\<rparr>) = (Inr sealed, s2)"
    using run_with_sink_succeeds [OF c(5) seal es, of "?s0\<lparr>ar_store := st1\<rparr>"] dist ev1 parts by auto
  have ev2: "events_of cid (ar_store s2) = ?started # es" using run_with_sink_log [OF 2] es ev1 by auto
  have seqs: "map ce_seq (?started # es) = map int [0 ..< length (?started # es)]"
    by (rule numbered_prefix [where ys = tail]) (use numbers parts in \<open>simp only: append_Cons\<close>)
  have listed: "list_competition_events cid (- 1) (ar_store s2) = ?started # es"
    unfolding list_competition_events_def ev2 numbered_list(1) [OF seqs] by (rule numbered_list(2) [OF seqs])
  obtain st3 where 3: "append_competition_events cid tail (ar_store s2) = (Inr (), st3)"
    using append_succeeds [of cid "ar_store s2" tail] dist ev2 parts by auto
  let ?s3 = "s2\<lparr>ar_store := st3\<rparr>"
  have "assert_prefix_parity (?started # es) (?started # es) = Inr ()" by (auto simp: assert_prefix_parity_def in_set_zip)
  then have log: "run_to_log sv cid run_id states agents source_mode ?s0 = (Inr (sealed, evlog), ?s3)"
    using 1 2 3 listed evlog head
    by (simp add: run_to_log_def finalize_log_def Let_def ebind_apply eff_apply tail_def [symmetric])
  have comps: "map_of (st_competitions (ar_store ?s3)) cid = Some (c\<lparr>co_status := RUNNING, co_run_id := Some run_id\<rparr>)"
    using keepsD [OF roster.run_to_log_keeps [where cs = "st_competitions (ar_store ?s0)"], of ?s0 sv cid run_id states agents source_mode] log
    by (simp add: claimed_def update_conv')
  have "events_of cid st3 = evlog" using append_events [OF 3] ev2 parts by simp
  then show ?thesis using log comps
    by (simp add: start_claims [OF c(1,2)] c(3,4) ebind_apply execute_after_seal_def eff_apply update_competition_status_def
        on_competition_def get_competition_def update_conv' events_of_def)
qed

text \<open>
  C29: the guard on the streamed prefix never fires and a paper competition finishes: if the run seals and the
  sealed run projects to a log, then a start with an empty log, in any number of spectators that raise or
  not, returns the finalized competition with exactly the projected log stored.
\<close>

theorem paper_start_succeeds:
  assumes c: "map_of (st_competitions (ar_store s)) cid = Some c" "co_status c \<notin> {RUNNING, FINALIZED}"
      "cc_execution_mode (co_config c) = PAPER" "cc_source_mode (co_config c) = source_mode" "source_mode \<in> {''replay'', ''live''}"
    and fresh: "events_of cid (ar_store s) = []"
    and seal: "seal (sv_codec sv) (sv_parse sv) None (fed (sv_codec sv) agents source_mode run_id states) = Inr sealed"
    and evlog: "build_event_log (sv_codec sv) (sv_parse_int sv) sealed cid ''not_anchored'' (first_ts states) = Inr evlog"
  shows "\<exists>s'. start_competition sv cid run_id states agents s = (Inr (c\<lparr>co_status := FINALIZED, co_run_id := Some run_id\<rparr>), s')
    \<and> events_of cid (ar_store s') = evlog"
  by (rule paper_start [OF assms])

section \<open>Unarmed starts\<close>

text \<open>The real venue is reachable only in a live-guarded competition with every money gate passed.\<close>

definition armed :: "'w service \<Rightarrow> competition \<Rightarrow> bool" where
  "armed sv c \<longleftrightarrow> cc_execution_mode (co_config c) = LIVE_GUARDED \<and> live_arm_gate (sv_live_deps sv) = None"

definition spectators_keep :: "'w service \<Rightarrow> ('w \<Rightarrow> bool) \<Rightarrow> bool" where
  "spectators_keep sv P \<longleftrightarrow> (\<forall>f ev. sv_broadcast sv = Some f \<longrightarrow> keeps P (f ev))"

lemma publish_keeps_world:
  assumes "spectators_keep sv P"
  shows "keeps (\<lambda>s. P (ar_world s)) (publish sv cid events)"
proof -
  have "keeps (\<lambda>s. P (ar_world s)) (at_world (safe_broadcast f e))" if "sv_broadcast sv = Some f" for f e
    using assms that by (auto simp: spectators_keep_def keeps_def safe_broadcast_def)
  then show ?thesis unfolding publish_def by (intro keeps_intros) (auto simp: keeps_def)
qed

lemma unarmed_route:
  assumes "select_execution_route (cc_execution_mode (co_config c)) envelope (sv_live_deps sv) = Inr (adapter, mode, guards)" and "\<not> armed sv c"
  shows "adapter = simulated_side"
  using assms by (auto simp: select_execution_route_def armed_def rbind_Inr_iff split: if_splits option.splits)

lemma simulated_keeps:
  "keeps (\<lambda>w. P (fst w)) (va_quote_market simulated_side m z)" "keeps (\<lambda>w. P (fst w)) (va_submit_order simulated_side x)"
  "keeps (\<lambda>w. P (fst w)) (va_get_order_status simulated_side i)"
  by (auto simp: simulated_side_def adapter_via_def intro!: via_keeps [OF keeps_TrueI])

lemma run_lane_keeps_world:
  "keeps (\<lambda>s. P (ar_world s)) (run_lane sv (block_env sv c run_result envelope simulated_side mode ts) entries guards seq)"
  unfolding keeps_def run_lane_def
  using quiet_lane [where P = "\<lambda>w. P (fst w)" and G = "\<lambda>_. True" and lv = "block_env sv c run_result envelope simulated_side mode ts" and now = None
      and parse_int = "sv_parse_int sv"] simulated_keeps [of P]
  by (fastforce simp: block_env_def split: prod.splits)

interpretation unarmed: arena_invariant sv c "\<lambda>s. \<not> armed sv c \<longrightarrow> spectators_keep sv P \<longrightarrow> P (ar_world s)" for sv :: "'w service" and c P
proof
  let ?I = "\<lambda>s. \<not> armed sv c \<longrightarrow> spectators_keep sv P \<longrightarrow> P (ar_world s)"
  show "keeps ?I (publish sv cid events)" for cid events
    using publish_keeps_world [of sv P cid events] by (auto simp: keeps_def)
  show "keeps ?I (at_store (append_competition_events cid events))" for cid events by (simp add: keeps_def)
  show "keeps ?I (at_store (persist_run sealed))" for sealed by (simp add: keeps_def)
  show "keeps ?I (run_lane sv (block_env sv c run_result envelope adapter mode ts) entries guards seq)"
    if "select_execution_route (cc_execution_mode (co_config c)) envelope (sv_live_deps sv) = Inr (adapter, mode, guards)"
    for envelope adapter mode guards run_result ts entries seq
    using unarmed_route [OF that] run_lane_keeps_world [of P sv c run_result envelope mode ts entries guards seq]
    by (auto simp: keeps_def)
qed

text \<open>
  C31: no real money without every gate: in a start whose competition is not live-guarded, or whose operator
  bundle is absent, not live-ready or not a real venue, no operation of the real venue is called: whatever
  holds of the outside world and is kept by the spectators holds afterwards, however the start ends.
\<close>

theorem unarmed_start_leaves_the_venue:
  assumes "start_competition sv cid run_id states agents s = (r, s')" and "map_of (st_competitions (ar_store s)) cid = Some c"
    and "cc_execution_mode (co_config c) \<noteq> LIVE_GUARDED \<or> live_arm_gate (sv_live_deps sv) \<noteq> None"
    and "\<And>f ev. sv_broadcast sv = Some f \<Longrightarrow> keeps P (f ev)" and "P (ar_world s)"
  shows "P (ar_world s')"
proof (cases "co_status c \<in> {RUNNING, FINALIZED}")
  case True
  with assms(1,2,5) show ?thesis by (auto simp: start_competition_def ebind_apply eff_apply get_competition_def)
next
  case False
  let ?I = "\<lambda>s. \<not> armed sv c \<longrightarrow> spectators_keep sv P \<longrightarrow> P (ar_world s)"
  have status: "keeps ?I (at_store m)" for m :: "(store, 'x) eff" by (simp add: keeps_def)
  have "keeps ?I (execute_after_seal sv cid c run_result full_log ts)" for run_result full_log ts
    unfolding execute_after_seal_def Let_def by (intro keeps_intros unarmed.block_keeps status)
  then have "keeps ?I (ebind (run_to_log sv cid run_id states agents (cc_source_mode (co_config c))) (\<lambda>(run_result, full_log).
    ebind (execute_after_seal sv cid c run_result full_log (first_ts states)) (\<lambda>_.
    ebind (at_store (update_competition_status cid FINALIZED)) (\<lambda>_.
      at_store (get_competition cid)))))"
    by (intro keeps_intros unarmed.run_to_log_keeps status)
  from keepsD [OF this, of "s\<lparr>ar_store := claimed cid run_id c (ar_store s)\<rparr>"] assms False show ?thesis
    by (auto simp: start_claims armed_def spectators_keep_def)
qed

section \<open>What spectators see\<close>

text \<open>A service with a log of the events shown to its spectators beside their state.\<close>

definition spectated :: "'w service \<Rightarrow> (competition_event list \<times> 'w) service" where
  "spectated sv = \<lparr>sv_codec = sv_codec sv, sv_parse = sv_parse sv, sv_parse_int = sv_parse_int sv, sv_policy_hash = sv_policy_hash sv,
     sv_broadcast = map_option (\<lambda>f ev (seen, w). let (r, w') = f ev w in (r, (seen @ [ev], w'))) (sv_broadcast sv),
     sv_live_deps = map_option (\<lambda>d. \<lparr>ld_adapter = adapter_via snd (\<lambda>w (seen, _). (seen, w)) (ld_adapter d), ld_live_ready = ld_live_ready d\<rparr>) (sv_live_deps sv),
     sv_fake = sv_fake sv\<rparr>"

definition stored :: "store \<Rightarrow> competition_event set" where
  "stored st = (\<Union>cid. set (events_of cid st))"

lemma append_stored:
  "stored (snd (append_competition_events cid es st)) = stored st \<union> (if fst (append_competition_events cid es st) = Inr () then set es else {})"
proof -
  have "events_of k (snd (append_competition_events cid es st))
      = (if k = cid \<and> fst (append_competition_events cid es st) = Inr () then events_of k st @ es else events_of k st)" for k
    by (auto simp: append_competition_events_def Let_def events_of_def update_conv' split: option.split)
  then show ?thesis by (auto simp: stored_def split: if_splits)
qed

lemma show_all_seen:
  assumes "sv_broadcast (spectated sv) = Some f"
  shows "fst (ar_world (snd (efor es (\<lambda>e. at_world (safe_broadcast f e)) s))) = fst (ar_world s) @ es"
  using assms
  by (induction es arbitrary: s) (auto simp: spectated_def safe_broadcast_def ebind_apply eff_apply split: prod.splits)

lemma publish_seen:
  assumes "set (fst (ar_world s)) \<subseteq> stored (ar_store s)"
  shows "set (fst (ar_world (snd (publish (spectated sv) cid es s)))) \<subseteq> stored (ar_store (snd (publish (spectated sv) cid es s)))"
proof -
  let ?a = "append_competition_events cid es (ar_store s)" and ?s1 = "s\<lparr>ar_store := snd (append_competition_events cid es (ar_store s))\<rparr>"
  have store: "ar_store (snd (publish (spectated sv) cid es s)) = snd ?a"
    by (rule publish_cases [of "spectated sv" cid es s]) simp
  have "set (fst (ar_world (snd (publish (spectated sv) cid es s)))) \<subseteq> set (fst (ar_world s)) \<union> (if fst ?a = Inr () then set es else {})"
  proof (cases "fst ?a")
    case (Inr u)
    show ?thesis
    proof (cases "sv_broadcast (spectated sv)")
      case (Some f)
      from show_all_seen [OF this, of es ?s1] Some Inr show ?thesis by (simp add: publish_def ebind_apply)
    qed (use Inr in \<open>simp add: publish_def ebind_apply eff_apply\<close>)
  qed (simp add: publish_def ebind_apply)
  then show ?thesis using assms unfolding store append_stored by auto
qed

lemma run_lane_seen:
  assumes "select_execution_route mode0 envelope (sv_live_deps (spectated sv)) = Inr (adapter, mode, guards)"
    and "run_lane (spectated sv) (block_env (spectated sv) c run_result envelope adapter mode ts) entries guards seq s = (r, s')"
  shows "fst (ar_world s') = fst (ar_world s) \<and> stored (ar_store s') = stored (ar_store s)"
proof -
  let ?P = "\<lambda>w. fst (fst w) = fst (ar_world s)"
  have "keeps ?P (via fst (\<lambda>w (_, f). (w, f)) (via snd (\<lambda>w (seen, _). (seen, w)) m))" for m :: "('a, 'x) eff"
    by (rule via_keeps [OF via_keeps [OF keeps_TrueI, where I = "\<lambda>w. fst w = fst (ar_world s)"]]) auto
  then have ops: "keeps ?P (va_quote_market adapter m z)" "keeps ?P (va_submit_order adapter x)" "keeps ?P (va_get_order_status adapter i)" for m z x i
    using assms(1) simulated_keeps [of "\<lambda>w. fst w = fst (ar_world s)"]
    by (auto simp: select_execution_route_def spectated_def real_side_def adapter_via_def rbind_Inr_iff split: if_splits option.splits)
  from assms(2) obtain l where l: "run_execution_lane (sv_parse_int (spectated sv)) (block_env (spectated sv) c run_result envelope adapter mode ts) None entries seq
      \<lparr>ln_world = (ar_world s, sv_fake (spectated sv)), ln_store = ar_store s, ln_guards = guards, ln_events = [], ln_seq = 0,
             ln_orders_this_run = 0\<rparr> = (r, l)" and s': "s' = \<lparr>ar_world = fst (ln_world l), ar_store = ln_store l\<rparr>"
    by (auto simp: run_lane_def split: prod.splits)
  from quiet_lane [OF l, where P = ?P and G = "\<lambda>st. stored st = stored (ar_store s)"] ops s' show ?thesis
    by (auto simp: block_env_def stored_def events_of_def)
qed

interpretation seen: arena_invariant "spectated sv" c "\<lambda>s. set (fst (ar_world s)) \<subseteq> stored (ar_store s)" for sv :: "'w service" and c
proof
  let ?I = "\<lambda>s. set (fst (ar_world s)) \<subseteq> stored (ar_store s)"
  show "keeps ?I (publish (spectated sv) cid events)" for cid events
    by (simp add: keeps_def publish_seen)
  show "keeps ?I (at_store (append_competition_events cid events))" for cid events
    by (auto simp: keeps_def append_stored)
  show "keeps ?I (at_store (persist_run sealed))" for sealed by (simp add: keeps_def persist_run_def eff_apply stored_def events_of_def)
  show "keeps ?I (run_lane (spectated sv) (block_env (spectated sv) c run_result envelope adapter mode ts) entries guards seq)"
    if "select_execution_route (cc_execution_mode (co_config c)) envelope (sv_live_deps (spectated sv)) = Inr (adapter, mode, guards)"
    for envelope adapter mode guards run_result ts entries seq
    using run_lane_seen [OF that surjective_pairing] by (auto simp: keeps_def)
qed

text \<open>
  Nothing is shown that is not durable: with any spectators, any venue and any outcome of the start, every
  event that was shown is in the stored log.
\<close>

theorem spectators_see_stored_events:
  assumes "start_competition (spectated sv) cid run_id states agents s = (r, s')" and "fst (ar_world s) = []"
  shows "set (fst (ar_world s')) \<subseteq> (\<Union>k. set (events_of k (ar_store s')))"
proof -
  let ?I = "\<lambda>s. set (fst (ar_world s)) \<subseteq> stored (ar_store s)"
  have status: "keeps ?I (at_store (on_competition cid f))" for f
    by (auto simp: keeps_def on_competition_def stored_def events_of_def split: option.split sum.split)
  have read: "keeps ?I (at_store (get_competition cid))" by (simp add: keeps_def get_competition_def)
  have "keeps ?I (start_competition (spectated sv) cid run_id states agents)"
    unfolding start_competition_def execute_after_seal_def Let_def update_competition_status_def update_competition_run_id_def
    by (intro keeps_intros status read seen.run_to_log_keeps seen.block_keeps)
  from keepsD [OF this, of s] assms show ?thesis by (auto simp: stored_def)
qed

section \<open>Registration\<close>

text \<open>
  A roster entry bound to a deployed instance binds the caller's own instance: registration with an
  instance succeeds only for an authenticated caller that owns the stored instance, and pins that
  instance's deployment digest; an absent and an unowned instance are refused alike, and a refusal of the
  instance changes nothing.
\<close>

theorem registration_binds_own_instance:
  assumes "register_agent cd cid entry caller st = (r, st')" and "ae_instance_id entry = Some iid"
  shows "(\<forall>e. r = Inr e \<longrightarrow> (\<exists>did i. caller = Some did \<and> map_of (st_agent_instances st) iid = Some i \<and> ai_operator_id i = Some did
        \<and> ae_config_hash e = Some (ai_config_hash i) \<and> ae_instance_id e = Some (ai_instance_id i)
        \<and> (\<exists>c. map_of (st_competitions st) cid = Some c \<and> co_status c \<in> {DRAFT, OPEN_FOR_ENTRIES}
             \<and> map_of (st_competitions st') cid = Some (c\<lparr>co_entries := co_entries c @ [e]\<rparr>))))
    \<and> (normalize_proof_mode (ae_proof_mode entry) \<noteq> Inl ValueError \<longrightarrow>
        (caller = None \<or> map_of (st_agent_instances st) iid = None \<or> (\<exists>i. map_of (st_agent_instances st) iid = Some i \<and> ai_operator_id i = None)
          \<longrightarrow> r = Inl RosterInstanceNotFoundError)
      \<and> (\<forall>did i owner. caller = Some did \<and> map_of (st_agent_instances st) iid = Some i \<and> ai_operator_id i = Some owner \<and> owner \<noteq> did
          \<longrightarrow> r = Inl RosterInstanceNotOwnedError))
    \<and> (\<forall>e. r = Inl e \<longrightarrow> st' = st)"
  using assms
  by (auto simp: register_agent_def ebind_apply eff_apply resolve_owned_instance_def get_agent_instance_def add_agent_entry_guarded_def
      on_competition_def roster_mutable_statuses_def normalize_proof_mode_def update_conv' split: sum.splits option.splits if_splits)

section \<open>A concrete start\<close>

definition quiet_service :: "unit service" where
  "quiet_service = \<lparr>sv_codec = number_codec id, sv_parse = (\<lambda>_. None), sv_parse_int = (\<lambda>_. None), sv_policy_hash = (\<lambda>_. ''p''),
     sv_broadcast = None, sv_live_deps = None, sv_fake = demo_venue\<rparr>"

definition drafted :: "execution_mode \<Rightarrow> unit arena" where
  "drafted mode = \<lparr>ar_world = (), ar_store = drafted_store mode\<rparr>"

lemma drafted_facts [simp]:
  "map_of (st_competitions (ar_store (drafted mode))) ''c'' = Some (demo_competition mode)" "events_of ''c'' (ar_store (drafted mode)) = []"
  "co_status (demo_competition mode) = DRAFT" "co_competition_id (demo_competition mode) = ''c''"
  "cc_execution_mode (co_config (demo_competition mode)) = mode" "cc_source_mode (co_config (demo_competition mode)) = ''replay''"
  by (simp_all add: drafted_def drafted_store)
     (simp_all add: drafted_store_def create_competition_def demo_competition_def demo_config_def new_store_def events_of_def Let_def)

lemma silent_log:
  "\<exists>evlog. build_event_log (number_codec id) (\<lambda>_. None) (silent_run (number_codec id) ''r'') ''c'' ''not_anchored'' (first_ts [demo_state 0 5000]) = Inr evlog"
proof -
  obtain evlog where "build_event_log (number_codec id) (\<lambda>_. None) logged_run ''c'' ''not_anchored'' 0 = Inr evlog"
    using logged_log by blast
  then obtain evidence where "evidence_events (number_codec id) (\<lambda>_. None) ''c'' (sl_run_id logged_run) (sort_key re_sequence_no (sl_run_events logged_run)) 0 = Inr evidence"
    by (rule build_event_logE)
  then show ?thesis
    by (simp add: build_event_log_def logged_run_def first_ts_def demo_state_def [of 0 5000, THEN arg_cong [where f = mst_ts]] derived_tail_def silent_run_def Let_def)
qed

lemma silent_start:
  "\<exists>s'. start_competition quiet_service ''c'' ''r'' [demo_state 0 5000] [silent_agent] (drafted PAPER)
     = (Inr ((demo_competition PAPER)\<lparr>co_status := FINALIZED, co_run_id := Some ''r''\<rparr>), s')"
proof -
  have "seal (number_codec id) (\<lambda>_. None) None (fed (number_codec id) [silent_agent] ''replay'' ''r'' [demo_state 0 5000])
      = Inr (silent_run (number_codec id) ''r'')"
    using run_competition_InrE [OF silent_run_completes] by blast
  with silent_log show ?thesis
    using paper_start [of "drafted PAPER" "''c''" "demo_competition PAPER" "''replay''" quiet_service "[silent_agent]" "''r''" "[demo_state 0 5000]"
        "silent_run (number_codec id) ''r''"]
    by (auto simp: quiet_service_def)
qed

theorem competition_starts_once_witness:
  "start_competition quiet_service ''c'' ''q'' [] [] (snd (start_competition quiet_service ''c'' ''r'' [demo_state 0 5000] [silent_agent] (drafted PAPER)))
     = (Inl CompetitionConflictError, snd (start_competition quiet_service ''c'' ''r'' [demo_state 0 5000] [silent_agent] (drafted PAPER)))"
  using competition_starts_once [OF surjective_pairing, where s = "drafted PAPER" and cid = "''c''" and c = "demo_competition PAPER" and sv = quiet_service and run_id = "''r''"
      and states = "[demo_state 0 5000]" and agents = "[silent_agent]"] by auto

theorem paper_start_succeeds_witness:
  "\<exists>s'. start_competition quiet_service ''c'' ''r'' [demo_state 0 5000] [silent_agent] (drafted PAPER)
     = (Inr ((demo_competition PAPER)\<lparr>co_status := FINALIZED, co_run_id := Some ''r''\<rparr>), s')"
proof -
  have "seal (number_codec id) (\<lambda>_. None) None (fed (number_codec id) [silent_agent] ''replay'' ''r'' [demo_state 0 5000])
      = Inr (silent_run (number_codec id) ''r'')"
    using run_competition_InrE [OF silent_run_completes] by blast
  with silent_log show ?thesis
    using paper_start_succeeds [of "drafted PAPER" "''c''" "demo_competition PAPER" "''replay''" quiet_service "[silent_agent]" "''r''" "[demo_state 0 5000]"
        "silent_run (number_codec id) ''r''"]
    by (auto simp: quiet_service_def)
qed

theorem finished_log_is_the_projection_witness:
  "\<exists>s' sealed evlog. snd (start_competition quiet_service ''c'' ''r'' [demo_state 0 5000] [silent_agent] (drafted PAPER)) = s'
     \<and> build_event_log (number_codec id) (\<lambda>_. None) sealed ''c'' ''not_anchored'' (first_ts [demo_state 0 5000]) = Inr evlog
     \<and> list_competition_events ''c'' (- 1) (ar_store s') = evlog"
proof -
  obtain s' where run: "start_competition quiet_service ''c'' ''r'' [demo_state 0 5000] [silent_agent] (drafted PAPER)
     = (Inr ((demo_competition PAPER)\<lparr>co_status := FINALIZED, co_run_id := Some ''r''\<rparr>), s')" using silent_start by blast
  from finished_log_is_the_projection [OF run, of "demo_competition PAPER"] run show ?thesis by (auto simp: quiet_service_def)
qed

theorem unarmed_start_leaves_the_venue_witness:
  "ar_world (snd (start_competition (quiet_service\<lparr>sv_live_deps := Some \<lparr>ld_adapter = desk ''filled'', ld_live_ready = False\<rparr>\<rparr>)
     ''c'' ''r'' [demo_state 0 5000] [silent_agent] (drafted LIVE_GUARDED))) = ()"
  using unarmed_start_leaves_the_venue [OF surjective_pairing, where s = "drafted LIVE_GUARDED" and cid = "''c''" and c = "demo_competition LIVE_GUARDED"
     and P = "\<lambda>w. w = ()" and sv = "quiet_service\<lparr>sv_live_deps := Some \<lparr>ld_adapter = desk ''filled'', ld_live_ready = False\<rparr>\<rparr>"]
  by (simp add: quiet_service_def live_arm_gate_def)

theorem registration_binds_own_instance_witness:
  "fst (register_agent (number_codec id) ''c'' (demo_entry\<lparr>ae_instance_id := Some ''i''\<rparr>) (Some ''did'') (drafted_store PAPER))
     = Inl RosterInstanceNotFoundError"
  using registration_binds_own_instance [OF surjective_pairing, of "demo_entry\<lparr>ae_instance_id := Some ''i''\<rparr>" "''i''" "number_codec id" "''c''" "Some ''did''" "drafted_store PAPER"]
  by (simp add: drafted_store_def create_competition_def new_store_def Let_def normalize_proof_mode_def demo_entry_def demo_competition_def)

theorem spectators_see_stored_events_witness:
  "set (fst (ar_world (snd (start_competition (spectated (quiet_service\<lparr>sv_broadcast := Some (\<lambda>_. eraise RuntimeError)\<rparr>)) ''c'' ''r''
       [demo_state 0 5000] [silent_agent] \<lparr>ar_world = ([], ()), ar_store = drafted_store PAPER\<rparr>))))
     \<subseteq> (\<Union>k. set (events_of k (ar_store (snd (start_competition (spectated (quiet_service\<lparr>sv_broadcast := Some (\<lambda>_. eraise RuntimeError)\<rparr>)) ''c'' ''r''
       [demo_state 0 5000] [silent_agent] \<lparr>ar_world = ([], ()), ar_store = drafted_store PAPER\<rparr>)))))"
  by (rule spectators_see_stored_events [OF surjective_pairing]) simp

end
