(* ===== verification/Interlock.thy ===== *)
theory Interlock
  imports Custody
begin

text \<open>
  The human operator interlock of Mode B: the recorded preconditions
  (\<open>src/veridex/dust_execution/contracts.py\<close>), their evaluation
  (\<open>evaluate_operator_interlock\<close> of \<open>facade.py\<close>) and the append-only store that issues and
  verifies the arming receipt (\<open>operator_interlock_store.py\<close>). The digest of a row is SHA-256
  over the JSON text with default separators, both parameters of the codec.
\<close>

section \<open>Preconditions and events\<close>

definition operator_preconditions :: "string list" where
  "operator_preconditions =
     [''isolated_funded_wallet'', ''operator_jurisdiction_comfort'', ''declared_max_capital_at_risk'',
      ''kill_switch_ready'', ''first_order_authorized'']"

record operator_interlock_event =
  ie_sequence_no :: int
  ie_source_ts :: "int option"
  ie_recv_ts :: int
  ie_precondition :: string
  ie_satisfied :: bool
  ie_operator_authorization_ref :: "string option"
  ie_first_order_authorized :: bool

record operator_interlock =
  oi_isolated_funded_wallet :: bool
  oi_operator_jurisdiction_comfort :: bool
  oi_declared_max_capital_at_risk :: "pyfloat option"
  oi_kill_switch_ready :: bool
  oi_first_order_authorized :: bool
  oi_operator_authorization_ref :: "string option"

definition default_interlock :: operator_interlock where
  "default_interlock = \<lparr>oi_isolated_funded_wallet = False, oi_operator_jurisdiction_comfort = False,
     oi_declared_max_capital_at_risk = None, oi_kill_switch_ready = False, oi_first_order_authorized = False,
     oi_operator_authorization_ref = None\<rparr>"

definition satisfied_by_precondition :: "operator_interlock \<Rightarrow> (string, bool) dict" where
  "satisfied_by_precondition i =
     [(''isolated_funded_wallet'', oi_isolated_funded_wallet i),
      (''operator_jurisdiction_comfort'', oi_operator_jurisdiction_comfort i),
      (''declared_max_capital_at_risk'',
         (case oi_declared_max_capital_at_risk i of None \<Rightarrow> False | Some capital \<Rightarrow> fl_lt fl_zero capital)),
      (''kill_switch_ready'', oi_kill_switch_ready i),
      (''first_order_authorized'', oi_first_order_authorized i)]"

record operator_interlock_gate =
  og_armed :: bool
  og_missing :: "string list"
  og_events :: "operator_interlock_event list"

text \<open>\<open>satisfied[name]\<close> for a name of the closed vocabulary.\<close>

definition precondition_met :: "operator_interlock \<Rightarrow> string \<Rightarrow> bool" where
  "precondition_met i name = (map_of (satisfied_by_precondition i) name = Some True)"

definition evaluate_operator_interlock :: "operator_interlock option \<Rightarrow> int \<Rightarrow> operator_interlock_gate" where
  "evaluate_operator_interlock interlock recv_ts_ms =
     (let effective = (case interlock of None \<Rightarrow> default_interlock | Some i \<Rightarrow> i);
          events = map (\<lambda>(index, name).
            \<lparr>ie_sequence_no = index, ie_source_ts = None, ie_recv_ts = recv_ts_ms, ie_precondition = name,
             ie_satisfied = precondition_met effective name,
             ie_operator_authorization_ref = oi_operator_authorization_ref effective,
             ie_first_order_authorized = oi_first_order_authorized effective\<rparr>)
            (zip [1 .. int (length operator_preconditions)] operator_preconditions);
          missing = filter (\<lambda>name. \<not> precondition_met effective name) operator_preconditions
      in \<lparr>og_armed = (missing = []), og_missing = missing, og_events = events\<rparr>)"

section \<open>The canonical five\<close>

fun canonical_walk :: "int \<Rightarrow> operator_interlock_event list \<Rightarrow> string list \<Rightarrow> bool" where
  "canonical_walk n [] names = True"
| "canonical_walk n (e # es) [] = True"
| "canonical_walk n (e # es) (name # names) =
     (if ie_precondition e \<noteq> name then False
      else if ie_sequence_no e \<noteq> n then False
      else if \<not> ie_satisfied e then False
      else if \<not> ie_first_order_authorized e then False
      else canonical_walk (n + 1) es names)"

definition interlock_events_are_canonical :: "operator_interlock_event list \<Rightarrow> bool" where
  "interlock_events_are_canonical events =
     (if length events \<noteq> length operator_preconditions then False
      else case remdups (map ie_operator_authorization_ref events) of
        [Some ref] \<Rightarrow> if ref = [] then False else canonical_walk 1 events operator_preconditions
      | _ \<Rightarrow> False)"

section \<open>The store\<close>

record operator_interlock_row =
  ir_session_id :: string
  ir_events :: "operator_interlock_event list"
  ir_operator_authorization_ref :: "string option"
  ir_arming_attempt_ref :: string
  ir_binding_digest :: string
  ir_receipt :: string

type_synonym interlock_store = "operator_interlock_row list"

definition event_row :: "operator_interlock_event \<Rightarrow> pyval" where
  "event_row e = VList [VInt (ie_sequence_no e), VStr (ie_precondition e), VBool (ie_satisfied e),
     opt_str (ie_operator_authorization_ref e), VBool (ie_first_order_authorized e)]"

text \<open>The keys in sorted order, as \<open>sort_keys\<close> writes them.\<close>

definition interlock_content ::
  "string \<Rightarrow> operator_interlock_event list \<Rightarrow> string option \<Rightarrow> string \<Rightarrow> pyval" where
  "interlock_content session_id events ref attempt = VDict
     [(''arming_attempt_ref'', VStr attempt), (''events'', VList (map event_row events)),
      (''operator_authorization_ref'', opt_str ref), (''session_id'', VStr session_id)]"

definition interlock_binding_digest ::
  "codec \<Rightarrow> string \<Rightarrow> operator_interlock_event list \<Rightarrow> string option \<Rightarrow> string \<Rightarrow> string" where
  "interlock_binding_digest cd session_id events ref attempt =
     cd_sha256 cd (cd_dumps cd (interlock_content session_id events ref attempt))"

definition interlock_record ::
  "codec \<Rightarrow> string \<Rightarrow> operator_interlock_event list \<Rightarrow> string option \<Rightarrow> string \<Rightarrow> interlock_store
   \<Rightarrow> (string \<times> interlock_store) result" where
  "interlock_record cd session_id events ref attempt rows =
     (if \<not> interlock_events_are_canonical events then Inl ValueError
      else (let digest = interlock_binding_digest cd session_id events ref attempt;
                receipt = ''operator-interlock:'' @ session_id @ '':'' @ take 32 digest
            in Inr (receipt, rows @
                 [\<lparr>ir_session_id = session_id, ir_events = events, ir_operator_authorization_ref = ref,
                   ir_arming_attempt_ref = attempt, ir_binding_digest = digest, ir_receipt = receipt\<rparr>])))"

definition interlock_verify ::
  "codec \<Rightarrow> string \<Rightarrow> operator_interlock_event list \<Rightarrow> string option \<Rightarrow> string \<Rightarrow> string \<Rightarrow> interlock_store \<Rightarrow> bool" where
  "interlock_verify cd session_id events ref attempt receipt rows =
     (let digest = interlock_binding_digest cd session_id events ref attempt in
      \<exists>row \<in> set rows. ir_binding_digest row = digest \<and> ir_receipt row = receipt)"

section \<open>What counts as a recorded interlock\<close>

lemma one_ref: "xs \<noteq> [] \<Longrightarrow> remdups xs = [x] \<longleftrightarrow> (\<forall>y \<in> set xs. y = x)"
proof (induction xs)
  case (Cons y xs)
  show ?case
  proof (cases xs)
    case Nil
    then show ?thesis by auto
  next
    case Cons2: (Cons z zs)
    with Cons.IH have "remdups xs = [x] \<longleftrightarrow> (\<forall>y \<in> set xs. y = x)" by blast
    moreover have "remdups xs \<noteq> []" using Cons2 by (metis list.distinct(1) remdups_eq_nil_iff)
    moreover have "z \<in> set xs" using Cons2 by simp
    ultimately show ?thesis by (cases "y \<in> set xs") auto
  qed
qed simp

lemma event_row_eq_iff:
  "event_row e = event_row e' \<longleftrightarrow>
     ie_sequence_no e = ie_sequence_no e' \<and> ie_precondition e = ie_precondition e' \<and> ie_satisfied e = ie_satisfied e'
     \<and> ie_operator_authorization_ref e = ie_operator_authorization_ref e'
     \<and> ie_first_order_authorized e = ie_first_order_authorized e'"
  by (simp add: event_row_def)

definition armed_row :: "string \<Rightarrow> int \<times> string \<Rightarrow> pyval" where
  "armed_row ref = (\<lambda>(n, name). VList [VInt n, VStr name, VBool True, VStr ref, VBool True])"

definition numbered_preconditions :: "(int \<times> string) list" where
  "numbered_preconditions = zip [1 .. int (length operator_preconditions)] operator_preconditions"

lemma canonical_walk_rows:
  assumes "length es = length names" and "\<forall>e \<in> set es. ie_operator_authorization_ref e = Some ref"
  shows "canonical_walk n es names \<longleftrightarrow> map event_row es = map (armed_row ref) (zip [n .. n + int (length names) - 1] names)"
  using assms
proof (induction n es names rule: canonical_walk.induct)
  case (3 n e es name names)
  have upto: "[n .. n + int (length (name # names)) - 1] = n # [n + 1 .. n + 1 + int (length names) - 1]"
    by (subst upto_rec1) simp_all
  from 3 show ?case
    by (simp only: upto) (auto simp: armed_row_def event_row_def opt_str_def)
qed auto

lemma canonical_iff:
  "interlock_events_are_canonical events \<longleftrightarrow>
     (\<exists>ref. ref \<noteq> [] \<and> map event_row events = map (armed_row ref) numbered_preconditions)"
proof (cases "length events = length operator_preconditions")
  case False
  have "length numbered_preconditions = length operator_preconditions"
    by (simp add: numbered_preconditions_def)
  with False have "map event_row events \<noteq> map (armed_row ref) numbered_preconditions" for ref
    by (metis length_map)
  with False show ?thesis by (simp add: interlock_events_are_canonical_def)
next
  case True
  then have ne: "map ie_operator_authorization_ref events \<noteq> []" by (auto simp: operator_preconditions_def)
  have walk: "canonical_walk 1 events operator_preconditions \<longleftrightarrow> map event_row events = map (armed_row ref) numbered_preconditions"
    if "\<forall>e \<in> set events. ie_operator_authorization_ref e = Some ref" for ref
    using canonical_walk_rows [OF True that, of 1] by (simp add: numbered_preconditions_def)
  have refs: "\<forall>e \<in> set events. ie_operator_authorization_ref e = Some ref"
    if "map event_row events = map (armed_row ref) numbered_preconditions" for ref
  proof
    fix e assume "e \<in> set events"
    then have "event_row e \<in> set (map (armed_row ref) numbered_preconditions)" by (metis that image_eqI list.set_map)
    then show "ie_operator_authorization_ref e = Some ref"
      by (auto simp: armed_row_def event_row_def opt_str_def split: option.splits)
  qed
  have one: "remdups (map ie_operator_authorization_ref events) = [Some ref]
      \<longleftrightarrow> (\<forall>e \<in> set events. ie_operator_authorization_ref e = Some ref)" for ref
    using one_ref [OF ne] by simp
  have "interlock_events_are_canonical events \<longleftrightarrow>
      (\<exists>ref. remdups (map ie_operator_authorization_ref events) = [Some ref] \<and> ref \<noteq> []
         \<and> canonical_walk 1 events operator_preconditions)"
    using True by (auto simp: interlock_events_are_canonical_def split: list.splits option.splits)
  also have "\<dots> \<longleftrightarrow> (\<exists>ref. ref \<noteq> [] \<and> map event_row events = map (armed_row ref) numbered_preconditions)"
    using one walk refs by blast
  finally show ?thesis .
qed

lemma armed_iff:
  "og_armed (evaluate_operator_interlock (Some i) ts) \<longleftrightarrow> list_all (precondition_met i) operator_preconditions"
  by (simp add: evaluate_operator_interlock_def Let_def filter_empty_conv list_all_iff)

lemma armed_rows:
  assumes "og_armed (evaluate_operator_interlock (Some i) ts)" and "oi_operator_authorization_ref i = Some ref"
  shows "map event_row (og_events (evaluate_operator_interlock (Some i) ts)) = map (armed_row ref) numbered_preconditions"
proof -
  have met: "\<forall>name \<in> set operator_preconditions. precondition_met i name"
    using assms(1) by (simp add: armed_iff list_all_iff)
  moreover have "''first_order_authorized'' \<in> set operator_preconditions" by (simp add: operator_preconditions_def)
  ultimately have "precondition_met i ''first_order_authorized''" by blast
  then have first: "oi_first_order_authorized i"
    by (simp add: precondition_met_def satisfied_by_precondition_def)
  show ?thesis
    unfolding evaluate_operator_interlock_def numbered_preconditions_def Let_def operator_interlock_gate.simps option.case map_map
  proof (rule map_cong [OF refl])
    fix p assume p: "p \<in> set (zip [1 .. int (length operator_preconditions)] operator_preconditions)"
    obtain n name where "p = (n, name)" by (cases p)
    moreover from p this have "name \<in> set operator_preconditions" using set_zip_rightD by metis
    ultimately show "(event_row \<circ> (\<lambda>(index, name).
        \<lparr>ie_sequence_no = index, ie_source_ts = None, ie_recv_ts = ts, ie_precondition = name,
         ie_satisfied = precondition_met i name, ie_operator_authorization_ref = oi_operator_authorization_ref i,
         ie_first_order_authorized = oi_first_order_authorized i\<rparr>)) p = armed_row ref p"
      using met first assms(2) by (simp add: event_row_def armed_row_def opt_str_def)
  qed
qed

text \<open>
  The binding digest covers an event without its two timestamps; two events agree on the rest exactly
  when they have the same row.
\<close>

definition untimed :: "operator_interlock_event \<Rightarrow> operator_interlock_event" where
  "untimed e = e\<lparr>ie_source_ts := None, ie_recv_ts := 0\<rparr>"

lemma event_row_untimed: "event_row e = event_row e' \<longleftrightarrow> untimed e = untimed e'"
  by (cases e; cases e') (auto simp: event_row_eq_iff untimed_def)

lemma event_rows_untimed: "map event_row es = map event_row es' \<longleftrightarrow> map untimed es = map untimed es'"
proof (induction es arbitrary: es')
  case (Cons e es)
  then show ?case by (cases es') (simp_all add: event_row_untimed)
qed simp

lemma emitted_canonical_iff:
  "interlock_events_are_canonical (og_events (evaluate_operator_interlock (Some i) ts)) \<longleftrightarrow>
     og_armed (evaluate_operator_interlock (Some i) ts) \<and> (\<exists>ref. oi_operator_authorization_ref i = Some ref \<and> ref \<noteq> [])"
proof
  assume "interlock_events_are_canonical (og_events (evaluate_operator_interlock (Some i) ts))"
  then obtain ref where ref: "ref \<noteq> []"
    and rows: "map event_row (og_events (evaluate_operator_interlock (Some i) ts)) = map (armed_row ref) numbered_preconditions"
    by (auto simp: canonical_iff)
  have "event_row \<lparr>ie_sequence_no = fst p, ie_source_ts = None, ie_recv_ts = ts, ie_precondition = snd p,
         ie_satisfied = precondition_met i (snd p), ie_operator_authorization_ref = oi_operator_authorization_ref i,
         ie_first_order_authorized = oi_first_order_authorized i\<rparr> = armed_row ref p"
    if "p \<in> set numbered_preconditions" for p
    using rows that
    by (auto simp: evaluate_operator_interlock_def Let_def numbered_preconditions_def case_prod_beta)
  then have row: "precondition_met i (snd p) \<and> oi_operator_authorization_ref i = Some ref"
    if "p \<in> set numbered_preconditions" for p
    using that by (fastforce simp: event_row_def armed_row_def opt_str_def case_prod_beta split: option.splits)
  have names: "map snd numbered_preconditions = operator_preconditions"
    by (simp add: numbered_preconditions_def)
  then have "list_all (precondition_met i) operator_preconditions"
    using row by (auto simp: list_all_iff simp flip: names)
  moreover have "numbered_preconditions \<noteq> []" using names by (auto simp: operator_preconditions_def)
  then have "oi_operator_authorization_ref i = Some ref" using row by (meson last_in_set)
  ultimately show "og_armed (evaluate_operator_interlock (Some i) ts)
      \<and> (\<exists>ref. oi_operator_authorization_ref i = Some ref \<and> ref \<noteq> [])"
    using ref by (simp add: armed_iff)
qed (auto simp: canonical_iff dest: armed_rows)

text \<open>
  C14: the recorded interlock: an event list is accepted by the store and the runner exactly when,
  up to the two timestamps that the binding digest does not cover, it is the list that some armed
  interlock with a non-empty authorization reference emits; and the list any interlock emits is
  accepted exactly when that interlock is armed and carries such a reference, so an armed one
  without a reference is not recordable.
\<close>

theorem canonical_events_are_armed_emissions:
  "(interlock_events_are_canonical events \<longleftrightarrow>
      (\<exists>i ts ref. og_armed (evaluate_operator_interlock (Some i) ts) \<and> oi_operator_authorization_ref i = Some ref \<and> ref \<noteq> []
         \<and> map untimed events = map untimed (og_events (evaluate_operator_interlock (Some i) ts))))
   \<and> (interlock_events_are_canonical (og_events (evaluate_operator_interlock (Some i) ts)) \<longleftrightarrow>
      og_armed (evaluate_operator_interlock (Some i) ts) \<and> (\<exists>ref. oi_operator_authorization_ref i = Some ref \<and> ref \<noteq> []))"
proof (rule conjI [OF _ emitted_canonical_iff])
  define full where "full ref = \<lparr>oi_isolated_funded_wallet = True, oi_operator_jurisdiction_comfort = True,
    oi_declared_max_capital_at_risk = Some fl_one, oi_kill_switch_ready = True, oi_first_order_authorized = True,
    oi_operator_authorization_ref = Some ref\<rparr>" for ref
  have armed: "og_armed (evaluate_operator_interlock (Some (full ref)) 0)" for ref
    by (simp add: armed_iff operator_preconditions_def full_def precondition_met_def satisfied_by_precondition_def)
  have ref: "oi_operator_authorization_ref (full ref) = Some ref" for ref by (simp add: full_def)
  show "interlock_events_are_canonical events \<longleftrightarrow>
      (\<exists>i ts ref. og_armed (evaluate_operator_interlock (Some i) ts) \<and> oi_operator_authorization_ref i = Some ref \<and> ref \<noteq> []
         \<and> map untimed events = map untimed (og_events (evaluate_operator_interlock (Some i) ts)))"
    unfolding canonical_iff event_rows_untimed [symmetric] by (metis armed_rows armed ref)
qed

section \<open>A store of receipts\<close>

text \<open>
  What the runner relies on: a receipt the store issued verifies for the content it was issued for, and
  the store only grows. Reachable states are the ones issuing leads to.
\<close>

locale receipt_store =
  fixes issue :: "'k \<Rightarrow> 'st \<Rightarrow> (string \<times> 'st) result"
    and valid :: "'k \<Rightarrow> string \<Rightarrow> 'st \<Rightarrow> bool"
    and fresh :: 'st
  assumes issue_valid: "issue k st = Inr (receipt, st') \<Longrightarrow> valid k receipt st'"
    and issue_keeps: "issue k st = Inr (receipt, st') \<Longrightarrow> valid k' receipt' st \<Longrightarrow> valid k' receipt' st'"
    and fresh_invalid: "\<not> valid k receipt fresh"
begin

inductive issued_from :: "'st \<Rightarrow> 'st \<Rightarrow> bool" where
  issued_refl: "issued_from st st"
| issued_step: "issued_from st st' \<Longrightarrow> issue k st' = Inr (receipt, st'') \<Longrightarrow> issued_from st st''"

lemma receipts_last: "issued_from st st' \<Longrightarrow> valid k receipt st \<Longrightarrow> valid k receipt st'"
  by (induction rule: issued_from.induct) (auto intro: issue_keeps)

lemma receipt_holds:
  assumes "issue k st = Inr (receipt, st')" and "issued_from st' st''"
  shows "valid k receipt st''"
  by (rule receipts_last [OF assms(2) issue_valid [OF assms(1)]])

end

type_synonym interlock_key = "string \<times> operator_interlock_event list \<times> string option \<times> string"

definition issue_interlock :: "codec \<Rightarrow> interlock_key \<Rightarrow> interlock_store \<Rightarrow> (string \<times> interlock_store) result" where
  "issue_interlock cd = (\<lambda>(session_id, events, ref, attempt). interlock_record cd session_id events ref attempt)"

definition valid_interlock :: "codec \<Rightarrow> interlock_key \<Rightarrow> string \<Rightarrow> interlock_store \<Rightarrow> bool" where
  "valid_interlock cd = (\<lambda>(session_id, events, ref, attempt). interlock_verify cd session_id events ref attempt)"

lemma interlock_record_Inr:
  "interlock_record cd session_id events ref attempt rows = Inr (receipt, rows') \<longleftrightarrow>
     interlock_events_are_canonical events
     \<and> receipt = ''operator-interlock:'' @ session_id @ '':'' @ take 32 (interlock_binding_digest cd session_id events ref attempt)
     \<and> rows' = rows @ [\<lparr>ir_session_id = session_id, ir_events = events, ir_operator_authorization_ref = ref,
         ir_arming_attempt_ref = attempt, ir_binding_digest = interlock_binding_digest cd session_id events ref attempt,
         ir_receipt = receipt\<rparr>]"
  by (auto simp: interlock_record_def Let_def)

interpretation interlock: receipt_store "issue_interlock cd" "valid_interlock cd" "[]"
  for cd :: codec
  by unfold_locales
    (auto simp: issue_interlock_def valid_interlock_def interlock_record_Inr interlock_verify_def Let_def)

definition row_content :: "operator_interlock_row \<Rightarrow> pyval" where
  "row_content row = interlock_content (ir_session_id row) (ir_events row) (ir_operator_authorization_ref row)
     (ir_arming_attempt_ref row)"

definition row_ok :: "codec \<Rightarrow> operator_interlock_row \<Rightarrow> bool" where
  "row_ok cd row \<longleftrightarrow> interlock_events_are_canonical (ir_events row)
     \<and> ir_binding_digest row = cd_sha256 cd (cd_dumps cd (row_content row))"

lemma issued_rows_ok: "interlock.issued_from cd rows rows' \<Longrightarrow> list_all (row_ok cd) rows \<Longrightarrow> list_all (row_ok cd) rows'"
  by (induction rule: interlock.issued_from.induct)
    (auto simp: issue_interlock_def interlock_record_Inr row_ok_def row_content_def interlock_binding_digest_def)

definition dumps_separates :: "codec \<Rightarrow> bool" where
  "dumps_separates cd \<longleftrightarrow> (\<forall>v w. cd_dumps cd v = cd_dumps cd w \<longrightarrow> json_norm v = json_norm w)"

lemma json_norm_event_row [simp]: "json_norm (event_row e) = event_row e"
  by (simp add: event_row_def opt_str_def split: option.split)

lemma interlock_content_inject:
  assumes "json_norm (interlock_content s es r a) = json_norm (interlock_content s' es' r' a')"
  shows "s = s' \<and> map event_row es = map event_row es' \<and> r = r' \<and> a = a'"
proof -
  note look = json_norm_lookup [OF assms [unfolded interlock_content_def]]
  have norm: "map (json_norm \<circ> event_row) xs = map event_row xs" for xs by simp
  show ?thesis
    using look [of "''session_id''"] look [of "''events''"] look [of "''operator_authorization_ref''"] look [of "''arming_attempt_ref''"]
    by (auto simp: norm opt_str_def split: option.splits)
qed

text \<open>
  C15: receipts cannot be forged: over a store that only ever issued receipts, a receipt verifies
  for a session, event list, authorization and arming attempt only if the store recorded exactly those,
  with events that are the five satisfied preconditions; SHA-256 is assumed not to collide on the
  contents at hand and JSON text to determine its value.
\<close>

theorem verified_receipts_were_issued:
  assumes "interlock_verify cd session_id events ref attempt receipt rows"
    and "interlock.issued_from cd [] rows"
    and "inj_on (cd_sha256 cd) (cd_dumps cd ` insert (interlock_content session_id events ref attempt) (set (map row_content rows)))"
    and "dumps_separates cd"
  shows "\<exists>row. row \<in> set rows \<and> ir_receipt row = receipt \<and> ir_session_id row = session_id
    \<and> ir_operator_authorization_ref row = ref \<and> ir_arming_attempt_ref row = attempt
    \<and> map event_row (ir_events row) = map event_row events \<and> interlock_events_are_canonical events"
proof -
  from assms(1) obtain row where row: "row \<in> set rows" "ir_receipt row = receipt"
    and "ir_binding_digest row = interlock_binding_digest cd session_id events ref attempt"
    by (auto simp: interlock_verify_def Let_def)
  moreover have "row_ok cd row" using issued_rows_ok [OF assms(2)] row(1) by (simp add: list_all_iff)
  ultimately have "cd_dumps cd (row_content row) = cd_dumps cd (interlock_content session_id events ref attempt)"
    using inj_onD [OF assms(3), of "cd_dumps cd (row_content row)"] by (auto simp: row_ok_def interlock_binding_digest_def)
  then have "json_norm (row_content row) = json_norm (interlock_content session_id events ref attempt)"
    using assms(4) unfolding dumps_separates_def by blast
  from interlock_content_inject [OF this [unfolded row_content_def]] row \<open>row_ok cd row\<close> show ?thesis
    by (auto simp: row_ok_def canonical_iff)
qed

definition signed_off :: operator_interlock where
  "signed_off = \<lparr>oi_isolated_funded_wallet = True, oi_operator_jurisdiction_comfort = True,
     oi_declared_max_capital_at_risk = Some fl_one, oi_kill_switch_ready = True, oi_first_order_authorized = True,
     oi_operator_authorization_ref = Some ''op''\<rparr>"

definition signed_off_events :: "operator_interlock_event list" where
  "signed_off_events = og_events (evaluate_operator_interlock (Some signed_off) 0)"

lemma signed_off_canonical: "interlock_events_are_canonical signed_off_events"
  unfolding signed_off_events_def by code_simp

lemma number_codec_dumps: "dumps_separates (number_codec sha)"
  using number_codec_laws(1) [of sha] by (simp add: dumps_separates_def json_separates_def number_codec_def)

lemma number_codec_sha [simp]: "cd_sha256 (number_codec id) = id"
  by (simp add: number_codec_def)

definition signed_off_store :: interlock_store where
  "signed_off_store = snd (projr (interlock_record (number_codec id) ''s'' signed_off_events (Some ''op'') ''k'' []))"

lemma signed_off_issued:
  obtains receipt where "interlock_record (number_codec id) ''s'' signed_off_events (Some ''op'') ''k'' [] = Inr (receipt, signed_off_store)"
  using signed_off_canonical by (auto simp: signed_off_store_def interlock_record_def Let_def)

theorem verified_receipts_were_issued_witness:
  "\<exists>receipt row. interlock_verify (number_codec id) ''s'' signed_off_events (Some ''op'') ''k'' receipt signed_off_store
     \<and> row \<in> set signed_off_store \<and> ir_receipt row = receipt \<and> ir_session_id row = ''s''"
proof -
  obtain receipt where r: "interlock_record (number_codec id) ''s'' signed_off_events (Some ''op'') ''k'' [] = Inr (receipt, signed_off_store)"
    by (rule signed_off_issued)
  then have i: "issue_interlock (number_codec id) (''s'', signed_off_events, Some ''op'', ''k'') [] = Inr (receipt, signed_off_store)"
    by (simp add: issue_interlock_def)
  from interlock.issue_valid [OF this] have v: "interlock_verify (number_codec id) ''s'' signed_off_events (Some ''op'') ''k'' receipt signed_off_store"
    by (simp add: valid_interlock_def)
  from interlock.issued_step [OF interlock.issued_refl i] have "interlock.issued_from (number_codec id) [] signed_off_store" .
  from verified_receipts_were_issued [OF v this _ number_codec_dumps] v show ?thesis by auto
qed

end
