(* ===== verification/Noncrossing.thy ===== *)
theory Noncrossing
  imports PyFloat PyText
begin

text \<open>
  The order-level money guards of the dust lane: venue-tick validation and the same-token
  self-cross check over every possibly-live order, the YES/NO complement lock
  (\<open>src/veridex/dust_execution/noncrossing.py\<close>), the pinned fee snapshot
  (\<open>feesnapshot.py\<close>), the resting-order contract (\<open>resting_order.py\<close>), mechanical
  sizing (\<open>sizing.py\<close>) and the side-to-token map
  (\<open>src/veridex/venues/polymarket_resolver.py\<close>).
\<close>

section \<open>Ticks\<close>

text \<open>The literals \<open>1e-9\<close> and \<open>1e-5\<close> as binary64 values.\<close>

definition tick_atol :: pyfloat where
  "tick_atol = fl_round (1 / 1000000000)"

definition fee_min :: pyfloat where
  "fee_min = fl_round (1 / 100000)"

definition validate_tick_size :: "pyfloat \<Rightarrow> unit result" where
  "validate_tick_size tick =
     (if \<not> isfinite tick \<or> fl_le tick fl_zero then Inl ValueError
      else if fl_lt (Fin (1 / 2)) tick then Inl ValueError
      else Inr ())"

definition round_to_tick :: "pyfloat \<Rightarrow> pyfloat \<Rightarrow> pyfloat result" where
  "round_to_tick price tick =
     rbind (fl_div price tick) (\<lambda>steps.
     rbind (py_round_int steps) (\<lambda>n.
     rbind (float_of_int n) (\<lambda>f. Inr (fl_mul f tick))))"

definition off_tick :: "pyfloat \<Rightarrow> pyfloat \<Rightarrow> bool result" where
  "off_tick price tick =
     rbind (fl_div price tick) (\<lambda>steps.
     rbind (py_round_int steps) (\<lambda>n.
     rbind (float_of_int n) (\<lambda>f. Inr (fl_lt tick_atol (fl_abs (fl_sub steps f))))))"

definition validate_and_round_price :: "pyfloat \<Rightarrow> pyfloat \<Rightarrow> pyfloat result" where
  "validate_and_round_price price tick =
     (if \<not> isfinite price then Inl ValueError
      else rbind (off_tick price tick) (\<lambda>off.
        if off then Inl ValueError
        else rbind (round_to_tick price tick) (\<lambda>rounded.
          if fl_lt rounded (fl_sub tick tick_atol)
             \<or> fl_lt (fl_add (fl_sub fl_one tick) tick_atol) rounded
          then Inl ValueError
          else Inr rounded)))"

section \<open>Same-token self-cross\<close>

datatype leg_kind = PROPOSED | OPEN_LEG | UNCERTAIN_SUBMIT | UNCERTAIN_CANCEL

datatype uncertain_submit_state = US_RESOLVED | US_DEFINITIVELY_ABSENT | US_AMBIGUOUS

record own_order_leg =
  ol_token_id :: string
  ol_side :: string
  ol_price :: pyfloat
  ol_kind :: leg_kind
  ol_uncertain_state :: "uncertain_submit_state option"

record token_crossing =
  tc_token_id :: string
  tc_highest_bid :: pyfloat
  tc_lowest_ask :: pyfloat

record non_crossing_verdict =
  nv_admitted :: bool
  nv_crossings :: "token_crossing list"

definition leg_is_possibly_live :: "own_order_leg \<Rightarrow> bool" where
  "leg_is_possibly_live leg \<longleftrightarrow>
     (if ol_kind leg \<in> {PROPOSED, OPEN_LEG} then True
      else ol_uncertain_state leg \<noteq> Some US_DEFINITIVELY_ABSENT)"

datatype order_side = BUY | SELL

definition side_of :: "own_order_leg \<Rightarrow> order_side result" where
  "side_of leg = (if ol_side leg = ''BUY'' then Inr BUY
                  else if ol_side leg = ''SELL'' then Inr SELL else Inl ValueError)"

type_synonym book_side = "(string, pyfloat) dict"

fun extremes_loop :: "pyfloat \<Rightarrow> own_order_leg list \<Rightarrow> book_side \<Rightarrow> book_side \<Rightarrow> (book_side \<times> book_side) result" where
  "extremes_loop tick [] highest_bid lowest_ask = Inr (highest_bid, lowest_ask)"
| "extremes_loop tick (leg # legs) highest_bid lowest_ask =
     rbind (validate_and_round_price (ol_price leg) tick) (\<lambda>price.
     rbind (side_of leg) (\<lambda>side.
       if \<not> leg_is_possibly_live leg then extremes_loop tick legs highest_bid lowest_ask
       else case side of
         BUY \<Rightarrow> extremes_loop tick legs
           (case map_of highest_bid (ol_token_id leg) of
              None \<Rightarrow> AList.update (ol_token_id leg) price highest_bid
            | Some cur \<Rightarrow> if fl_lt cur price then AList.update (ol_token_id leg) price highest_bid else highest_bid)
           lowest_ask
       | SELL \<Rightarrow> extremes_loop tick legs highest_bid
           (case map_of lowest_ask (ol_token_id leg) of
              None \<Rightarrow> AList.update (ol_token_id leg) price lowest_ask
            | Some cur \<Rightarrow> if fl_lt price cur then AList.update (ol_token_id leg) price lowest_ask else lowest_ask)))"

fun crossings_of :: "book_side \<Rightarrow> book_side \<Rightarrow> token_crossing list" where
  "crossings_of [] la = []"
| "crossings_of ((t, hb) # hbs) la =
     (case map_of la t of
        None \<Rightarrow> crossings_of hbs la
      | Some a \<Rightarrow>
          if fl_le a (fl_add hb tick_atol)
          then \<lparr>tc_token_id = t, tc_highest_bid = hb, tc_lowest_ask = a\<rparr> # crossings_of hbs la
          else crossings_of hbs la)"

definition check_non_crossing :: "pyfloat \<Rightarrow> own_order_leg list \<Rightarrow> non_crossing_verdict result" where
  "check_non_crossing tick legs =
     rbind (validate_tick_size tick) (\<lambda>_.
     rbind (extremes_loop tick legs [] []) (\<lambda>(highest_bid, lowest_ask).
       let ordered = sort_key tc_token_id (crossings_of highest_bid lowest_ask)
       in Inr \<lparr>nv_admitted = (ordered = []), nv_crossings = ordered\<rparr>))"

section \<open>Fees\<close>

definition round5 :: "pyfloat \<Rightarrow> pyfloat result" where
  "round5 x =
     (if \<not> isfinite x then Inl FailClosed
      else if fl_lt (fl_abs x) fee_min then Inr fl_zero
      else Inr (py_round_dp 5 x))"

record fee_snapshot =
  fe_condition_id :: string
  fe_fee_rate :: pyfloat
  fe_fee_exponent :: int
  fe_taker_only :: bool

definition reject_price_out_of_unit_interval :: "pyfloat \<Rightarrow> pyfloat result" where
  "reject_price_out_of_unit_interval p =
     (if \<not> (fl_le fl_zero p \<and> fl_le p fl_one) then Inl ValueError else Inr p)"

definition taker_fee :: "fee_snapshot \<Rightarrow> pyfloat \<Rightarrow> pyfloat \<Rightarrow> pyfloat result" where
  "taker_fee snap shares price =
     rbind (reject_price_out_of_unit_interval price) (\<lambda>p.
       round5 (fl_mul (fl_mul (fl_mul (fe_fee_rate snap) shares) p) (fl_sub fl_one p)))"

definition maker_fee :: "fee_snapshot \<Rightarrow> pyfloat \<Rightarrow> pyfloat \<Rightarrow> pyfloat result" where
  "maker_fee snap shares price =
     (if fe_taker_only snap then Inr fl_zero else taker_fee snap shares price)"

section \<open>YES/NO complement lock\<close>

datatype canonical_outcome = YES | NO
datatype leg_role = MAKER | TAKER

record canonical_leg =
  cl_outcome :: canonical_outcome
  cl_price :: pyfloat
  cl_size :: pyfloat
  cl_role :: leg_role
  cl_fee :: "pyfloat option"

record raw_order =
  ro_side :: string
  ro_action :: string
  ro_price :: pyfloat
  ro_size :: pyfloat
  ro_role :: string

record resolved_market =
  rm_condition_id :: string
  rm_token_id_yes :: string
  rm_token_id_no :: string
  rm_tick_size :: pyfloat
  rm_draw_market :: bool

definition side_to_token :: "resolved_market \<Rightarrow> string \<Rightarrow> string result" where
  "side_to_token m side =
     (let normalized = py_lower (py_strip side) in
      if normalized = ''draw'' then
        (if rm_draw_market m then Inr (rm_token_id_yes m) else Inl ValueError)
      else if normalized \<in> {''yes'', ''over'', ''home'', ''away''} then Inr (rm_token_id_yes m)
      else if normalized \<in> {''no'', ''under''} then Inr (rm_token_id_no m)
      else Inl ValueError)"

definition validate_role :: "string \<Rightarrow> leg_role result" where
  "validate_role r = (if r = ''MAKER'' then Inr MAKER else if r = ''TAKER'' then Inr TAKER else Inl FailClosed)"

definition other_outcome :: "canonical_outcome \<Rightarrow> canonical_outcome" where
  "other_outcome oc = (if oc = YES then NO else YES)"

definition normalize ::
  "raw_order \<Rightarrow> resolved_market \<Rightarrow> fee_snapshot option \<Rightarrow> pyfloat \<Rightarrow> canonical_leg result" where
  "normalize order m snap tick =
     rbind (validate_tick_size tick) (\<lambda>_.
     rbind (validate_role (ro_role order)) (\<lambda>role.
     if ro_action order \<noteq> ''BUY'' \<and> ro_action order \<noteq> ''SELL'' then Inl FailClosed
     else rbind (case side_to_token m (ro_side order) of
                   Inl ValueError \<Rightarrow> Inl FailClosed | Inl e \<Rightarrow> Inl e | Inr t \<Rightarrow> Inr t) (\<lambda>token.
     rbind (if token = rm_token_id_yes m then Inr YES
            else if token = rm_token_id_no m then Inr NO else Inl FailClosed) (\<lambda>token_outcome.
     rbind (round_to_tick (ro_price order) tick) (\<lambda>venue_rounded.
       let outcome = (if ro_action order = ''BUY'' then token_outcome else other_outcome token_outcome);
           canonical_price = (if ro_action order = ''BUY'' then venue_rounded else fl_sub fl_one venue_rounded)
       in rbind (validate_and_round_price canonical_price tick) (\<lambda>price.
          case snap of
            None \<Rightarrow> Inl FailClosed
          | Some fs \<Rightarrow>
              rbind (if role = MAKER then maker_fee fs fl_one price else taker_fee fs fl_one price) (\<lambda>fee.
                Inr \<lparr>cl_outcome = outcome, cl_price = price, cl_size = ro_size order,
                     cl_role = role, cl_fee = Some fee\<rparr>)))))))"

type_synonym rung = "pyfloat \<times> pyfloat \<times> pyfloat"  \<comment> \<open>price, remaining size, fee\<close>

definition validate_lock_leg :: "canonical_outcome \<Rightarrow> canonical_leg \<Rightarrow> rung result" where
  "validate_lock_leg expected leg =
     (if cl_outcome leg \<noteq> expected then Inl FailClosed
      else case cl_fee leg of
        None \<Rightarrow> Inl FailClosed
      | Some fee \<Rightarrow>
          if \<not> isfinite fee \<or> fl_lt fee fl_zero then Inl FailClosed
          else if \<not> isfinite (cl_price leg) \<or> fl_lt (cl_price leg) fl_zero \<or> fl_lt fl_one (cl_price leg)
          then Inl FailClosed
          else if \<not> isfinite (cl_size leg) \<or> fl_lt (cl_size leg) fl_zero then Inl FailClosed
          else Inr (cl_price leg, cl_size leg, fee))"

datatype lock_verdict = ADMIT | REJECT

definition slice_cost :: "rung \<Rightarrow> rung \<Rightarrow> pyfloat" where
  "slice_cost y n = (case (y, n) of ((yp, _, yf), (np, _, nf)) \<Rightarrow>
     fl_add (fl_add (fl_add yp np) yf) nf)"

definition slice_locks :: "rung \<Rightarrow> rung \<Rightarrow> bool" where
  "slice_locks y n \<longleftrightarrow> fl_le (fl_sub fl_one tick_atol) (slice_cost y n)"

text \<open>One ladder after \<open>q\<close> has been consumed from its top rung.\<close>

definition consume :: "pyfloat \<Rightarrow> rung \<Rightarrow> rung list \<Rightarrow> rung list" where
  "consume q r rs = (case r of (p, s, f) \<Rightarrow>
     if fl_le (fl_sub s q) fl_zero then rs else (p, fl_sub s q, f) # rs)"

text \<open>The walk may not return for arbitrary floats, so not returning is a value of the model.\<close>

partial_function (option) lock_walk :: "rung list \<Rightarrow> rung list \<Rightarrow> lock_verdict option" where
  "lock_walk ys ns =
     (case ys of
        [] \<Rightarrow> Some ADMIT
      | y # ys' \<Rightarrow>
          (case ns of
             [] \<Rightarrow> Some ADMIT
           | n # ns' \<Rightarrow>
               (let q = py_min (fst (snd y)) (fst (snd n)) in
                if fl_lt fl_zero q \<and> slice_locks y n then Some REJECT
                else lock_walk (consume q y ys') (consume q n ns'))))"

declare lock_walk.simps [code]

definition rung_price :: "rung \<Rightarrow> rat" where
  "rung_price r = (case fst r of Fin p \<Rightarrow> p | _ \<Rightarrow> 0)"

text \<open>\<open>sorted(.., reverse=True)\<close> is stable; the prices have been validated finite.\<close>

definition positive_desc :: "rung list \<Rightarrow> rung list" where
  "positive_desc rs = sort_key (\<lambda>r. - rung_price r) (filter (\<lambda>r. fl_lt fl_zero (fst (snd r))) rs)"

definition complementary_lock_check ::
  "canonical_leg list \<Rightarrow> canonical_leg list \<Rightarrow> lock_verdict option result" where
  "complementary_lock_check yes_ladder no_ladder =
     rbind (rtraverse (validate_lock_leg YES) yes_ladder) (\<lambda>yes_rungs.
     rbind (rtraverse (validate_lock_leg NO) no_ladder) (\<lambda>no_rungs.
       Inr (lock_walk (positive_desc yes_rungs) (positive_desc no_rungs))))"

section \<open>Resting orders and sizing\<close>

datatype resting_tif = GTC | GTD

record resting_order =
  rs_token_id :: string
  rs_side :: order_side
  rs_size :: pyfloat
  rs_native_price :: pyfloat
  rs_tick_size :: pyfloat
  rs_tif :: resting_tif
  rs_post_only :: bool
  rs_gtd_expiration_ts :: "int option"
  rs_client_order_id :: string

text \<open>Construction runs the field validators, then the model validator.\<close>

definition mk_resting_order :: "resting_order \<Rightarrow> resting_order result" where
  "mk_resting_order r =
     (if fl_le (rs_size r) fl_zero \<or> fl_le (rs_tick_size r) fl_zero \<or> rs_client_order_id r = [] then Inl ValueError
      else if \<not> (fl_lt fl_zero (rs_native_price r) \<and> fl_lt (rs_native_price r) fl_one) then Inl ValueError
      else rbind (off_tick (rs_native_price r) (rs_tick_size r)) (\<lambda>off.
        if off then Inl ValueError
        else if rs_tif r = GTD \<and> rs_gtd_expiration_ts r = None then Inl ValueError
        else if rs_tif r = GTC \<and> rs_gtd_expiration_ts r \<noteq> None then Inl ValueError
        else case rs_gtd_expiration_ts r of
          Some ts \<Rightarrow> if ts \<le> 0 then Inl ValueError else Inr r
        | None \<Rightarrow> Inr r))"

definition signed_amount :: "resting_order \<Rightarrow> pyfloat" where
  "signed_amount r = (if rs_side r = BUY then rs_size r else fl_neg (rs_size r))"

record resting_wire =
  rw_token_id :: string
  rw_amount :: pyfloat
  rw_native_price :: pyfloat
  rw_order_type :: resting_tif
  rw_post_only :: bool
  rw_expiration :: int
  rw_tick_size :: string

definition to_wire_kwargs :: "(pyfloat \<Rightarrow> string) \<Rightarrow> resting_order \<Rightarrow> resting_wire" where
  "to_wire_kwargs str_of_float r =
     \<lparr>rw_token_id = rs_token_id r, rw_amount = signed_amount r, rw_native_price = rs_native_price r,
      rw_order_type = rs_tif r, rw_post_only = rs_post_only r,
      rw_expiration = (case rs_gtd_expiration_ts r of Some ts \<Rightarrow> (if ts = 0 then 0 else ts) | None \<Rightarrow> 0),
      rw_tick_size = str_of_float (rs_tick_size r)\<rparr>"

definition nonneg_finite :: "pyfloat \<Rightarrow> bool" where
  "nonneg_finite x \<longleftrightarrow> isfinite x \<and> \<not> fl_lt x fl_zero"

definition resolve_dust_size :: "pyfloat \<Rightarrow> pyfloat \<Rightarrow> pyfloat \<Rightarrow> pyfloat \<Rightarrow> pyfloat result" where
  "resolve_dust_size fixed_fraction wallet_equity max_notional max_per_order =
     (if \<not> list_all nonneg_finite [fixed_fraction, wallet_equity, max_notional, max_per_order]
      then Inl ValueError
      else Inr (py_min (py_min (fl_mul fixed_fraction wallet_equity) max_notional) max_per_order))"


section \<open>Literals\<close>

lemma tick_atol_eq: "tick_atol = Fin (4835703278458517 / 4835703278458516698824704)"
  using fl_round_normal [of "- 30" "1 / 1000000000" 4835703278458517] by (simp add: tick_atol_def pow2_def)

lemma fee_min_eq: "fee_min = Fin (5902958103587057 / 590295810358705651712)"
  using fl_round_normal [of "- 17" "1 / 100000" 5902958103587057] by (simp add: fee_min_def pow2_def)

lemma tick_atol_finite [simp]: "isfinite tick_atol" "tick_atol \<noteq> NaN" "fl_le fl_zero tick_atol"
  by (simp_all add: tick_atol_eq)

section \<open>The self-cross verdict\<close>

lemma valid_tick:
  "validate_tick_size tick = Inr u \<longleftrightarrow> (\<exists>a. tick = Fin a \<and> 0 < a \<and> a \<le> 1 / 2)"
  by (cases tick) (auto simp: validate_tick_size_def not_le not_less)

lemma fl_round_in:
  assumes "fl_round a = Fin a" "fl_round b = Fin b" "a \<le> x" "x \<le> b"
  shows "\<exists>y. fl_round x = Fin y \<and> a \<le> y \<and> y \<le> b"
  using fl_round_between [OF assms] by blast

lemma tick_bounds:
  assumes "validate_tick_size tick = Inr u"
  shows "isfinite (fl_sub tick tick_atol)" and "isfinite (fl_add (fl_sub fl_one tick) tick_atol)"
proof -
  obtain a where a: "tick = Fin a" "0 < a" "a \<le> 1 / 2" using assms valid_tick by blast
  have "\<exists>y. fl_round (a - 4835703278458517 / 4835703278458516698824704) = Fin y \<and> - 1 \<le> y \<and> y \<le> 1"
    by (rule fl_round_in) (use a in simp_all)
  then show "isfinite (fl_sub tick tick_atol)" by (auto simp: a fl_sub_def tick_atol_eq)
  have "\<exists>y. fl_round (1 - a) = Fin y \<and> 0 \<le> y \<and> y \<le> 1" by (rule fl_round_in) (use a in simp_all)
  then obtain y where y: "fl_round (1 - a) = Fin y" "0 \<le> y" "y \<le> 1" by blast
  have "\<exists>z. fl_round (y + 4835703278458517 / 4835703278458516698824704) = Fin z \<and> 0 \<le> z \<and> z \<le> 2"
    by (rule fl_round_in) (use y in simp_all)
  then show "isfinite (fl_add (fl_sub fl_one tick) tick_atol)"
    by (auto simp: a fl_sub_def tick_atol_eq y)
qed

lemma round_to_tick_not_NaN:
  assumes "round_to_tick p tick = Inr r" and "isfinite tick"
  shows "r \<noteq> NaN"
  using assms
  by (cases tick) (auto simp: round_to_tick_def rbind_Inr_iff float_of_int_def fl_fit_def isfinite_iff split: if_splits)

lemma validated_price:
  assumes "validate_and_round_price p tick = Inr r" and "validate_tick_size tick = Inr u"
  shows "isfinite r" and "\<not> fl_lt r (fl_sub tick tick_atol)"
    and "\<not> fl_lt (fl_add (fl_sub fl_one tick) tick_atol) r"
proof -
  from assms(1) have r: "round_to_tick p tick = Inr r"
    and lo: "\<not> fl_lt r (fl_sub tick tick_atol)" and hi: "\<not> fl_lt (fl_add (fl_sub fl_one tick) tick_atol) r"
    by (auto simp: validate_and_round_price_def rbind_Inr_iff split: if_splits)
  have "isfinite tick" using assms(2) valid_tick by auto
  with r have "r \<noteq> NaN" by (rule round_to_tick_not_NaN)
  with lo hi tick_bounds [OF assms(2)] show "isfinite r"
    by (cases r) (auto simp: isfinite_iff)
  show "\<not> fl_lt r (fl_sub tick tick_atol)" "\<not> fl_lt (fl_add (fl_sub fl_one tick) tick_atol) r"
    by (fact lo, fact hi)
qed

text \<open>
  A dict of extremes tracks the quotes seen so far: every quote of a token is no better than the
  recorded one, and the recorded one is a quote.
\<close>

definition tracks :: "(pyfloat \<Rightarrow> pyfloat \<Rightarrow> bool) \<Rightarrow> (string \<times> pyfloat) set \<Rightarrow> book_side \<Rightarrow> bool" where
  "tracks better Q d \<longleftrightarrow> dict_ok d \<and> (\<forall>t v. map_of d t = Some v \<longrightarrow> (t, v) \<in> Q)
     \<and> (\<forall>(t, p) \<in> Q. isfinite p \<and> (\<exists>v. map_of d t = Some v \<and> \<not> better p v))"

definition note_quote :: "(pyfloat \<Rightarrow> pyfloat \<Rightarrow> bool) \<Rightarrow> string \<Rightarrow> pyfloat \<Rightarrow> book_side \<Rightarrow> book_side" where
  "note_quote better t p d = (case map_of d t of None \<Rightarrow> AList.update t p d
     | Some cur \<Rightarrow> if better p cur then AList.update t p d else d)"

lemma tracks_note:
  assumes "tracks better Q d" and "isfinite p" and "better = (\<lambda>p v. fl_lt v p) \<or> better = fl_lt"
  shows "tracks better (insert (t, p) Q) (note_quote better t p d)"
proof -
  have irr: "\<not> better x x" for x using assms(3) by auto
  have tr: "\<not> better x p" if "\<not> better x cur" "better p cur" "isfinite x" "isfinite cur" for x cur
    using assms(2,3) that by (auto simp: isfinite_iff)
  have fin: "isfinite v" if "map_of d s = Some v" for s v
    using that assms(1) unfolding tracks_def by (metis (mono_tags, lifting) case_prodD)
  have old: "\<exists>v. map_of d s = Some v \<and> \<not> better x v \<and> isfinite x" if "(s, x) \<in> Q" for s x
    using that assms(1) by (auto simp: tracks_def)
  show ?thesis
  proof (cases "map_of d t = None \<or> (\<exists>cur. map_of d t = Some cur \<and> better p cur)")
    case True
    then have n: "note_quote better t p d = AList.update t p d" by (auto simp: note_quote_def)
    have "\<exists>v. map_of (AList.update t p d) s = Some v \<and> \<not> better x v" if "(s, x) \<in> Q" for s x
      using old [OF that] True tr fin by (cases "s = t") (auto simp: update_conv')
    with assms(1,2) irr old show ?thesis
      by (auto simp: n tracks_def update_conv' split: if_splits)
  next
    case False
    then obtain cur where "map_of d t = Some cur" "\<not> better p cur" by auto
    then show ?thesis using assms(1,2) by (auto simp: note_quote_def tracks_def)
  qed
qed

lemma tracksD:
  assumes "tracks better Q d" and "(t, p) \<in> Q"
  obtains v where "map_of d t = Some v" and "\<not> better p v" and "isfinite p" and "isfinite v"
proof -
  from assms obtain v where v: "map_of d t = Some v" "\<not> better p v" "isfinite p"
    unfolding tracks_def by blast
  with assms(1) have "(t, v) \<in> Q" by (simp add: tracks_def)
  with assms(1) have "isfinite v" unfolding tracks_def by blast
  with v that show thesis by blast
qed

text \<open>The validated quotes of the possibly-live legs on one side.\<close>

definition live_quotes :: "pyfloat \<Rightarrow> order_side \<Rightarrow> own_order_leg list \<Rightarrow> (string \<times> pyfloat) set" where
  "live_quotes tick side legs = {(ol_token_id leg, p) | leg p. leg \<in> set legs \<and> leg_is_possibly_live leg
     \<and> side_of leg = Inr side \<and> validate_and_round_price (ol_price leg) tick = Inr p}"

lemma live_quotes_Cons:
  assumes "validate_and_round_price (ol_price leg) tick = Inr p" and "side_of leg = Inr sd"
  shows "live_quotes tick side (leg # legs) =
    (if leg_is_possibly_live leg \<and> sd = side then insert (ol_token_id leg, p) (live_quotes tick side legs)
     else live_quotes tick side legs)"
  using assms by (auto simp: live_quotes_def)

lemma extremes_loop_Cons:
  "extremes_loop tick (leg # legs) hb la =
     rbind (validate_and_round_price (ol_price leg) tick) (\<lambda>p.
     rbind (side_of leg) (\<lambda>sd.
       if \<not> leg_is_possibly_live leg then extremes_loop tick legs hb la
       else if sd = BUY then extremes_loop tick legs (note_quote (\<lambda>p v. fl_lt v p) (ol_token_id leg) p hb) la
       else extremes_loop tick legs hb (note_quote fl_lt (ol_token_id leg) p la)))"
  by (cases "validate_and_round_price (ol_price leg) tick"; cases "side_of leg")
    (auto simp: note_quote_def split: order_side.split)

lemma extremes_loop_tracks:
  assumes "validate_tick_size tick = Inr u" and "extremes_loop tick legs hb la = Inr (hb', la')"
    and "tracks (\<lambda>p v. fl_lt v p) B hb" and "tracks fl_lt A la"
  shows "tracks (\<lambda>p v. fl_lt v p) (B \<union> live_quotes tick BUY legs) hb'
    \<and> tracks fl_lt (A \<union> live_quotes tick SELL legs) la'"
  using assms(2-)
proof (induction legs arbitrary: hb la A B)
  case Nil
  then show ?case by (simp add: live_quotes_def)
next
  case (Cons leg legs)
  from Cons.prems(1) obtain p sd where p: "validate_and_round_price (ol_price leg) tick = Inr p"
    and sd: "side_of leg = Inr sd"
    by (auto simp: extremes_loop_Cons rbind_Inr_iff simp del: extremes_loop.simps)
  note fin = validated_price(1) [OF p assms(1)]
  note loop = Cons.prems(1) [unfolded extremes_loop_Cons p sd rbind_simps]
  note q = live_quotes_Cons [OF p sd]
  show ?case
  proof (cases "leg_is_possibly_live leg")
    case False
    with loop Cons.IH [of hb la B A] Cons.prems show ?thesis by (simp add: q)
  next
    case True
    show ?thesis
    proof (cases sd)
      case BUY
      with True loop Cons.IH [of "note_quote (\<lambda>p v. fl_lt v p) (ol_token_id leg) p hb" la
          "insert (ol_token_id leg, p) B" A]
        tracks_note [OF Cons.prems(2) fin, of "ol_token_id leg"] Cons.prems(3)
      show ?thesis by (simp add: q)
    next
      case SELL
      with True loop Cons.IH [of hb "note_quote fl_lt (ol_token_id leg) p la" B
          "insert (ol_token_id leg, p) A"]
        tracks_note [OF Cons.prems(3) fin, of "ol_token_id leg"] Cons.prems(2)
      show ?thesis by (simp add: q)
    qed
  qed
qed

lemma extremes_loop_total:
  "(\<exists>r. extremes_loop tick legs hb la = Inr r) \<longleftrightarrow>
     (\<forall>leg \<in> set legs. (\<exists>p. validate_and_round_price (ol_price leg) tick = Inr p) \<and> (\<exists>sd. side_of leg = Inr sd))"
proof (induction legs arbitrary: hb la)
  case (Cons leg legs)
  show ?case
    by (cases "validate_and_round_price (ol_price leg) tick"; cases "side_of leg")
      (auto simp: extremes_loop_Cons Cons.IH simp del: extremes_loop.simps(2) split_paired_Ex)
qed simp

lemma crossings_of_empty:
  assumes "dict_ok hb"
  shows "crossings_of hb la = [] \<longleftrightarrow>
    (\<forall>t b a. map_of hb t = Some b \<longrightarrow> map_of la t = Some a \<longrightarrow> \<not> fl_le a (fl_add b tick_atol))"
proof -
  have "crossings_of hb la = [] \<longleftrightarrow>
    (\<forall>(t, b) \<in> set hb. \<forall>a. map_of la t = Some a \<longrightarrow> \<not> fl_le a (fl_add b tick_atol))"
    by (induction hb la rule: crossings_of.induct) (auto split: option.splits)
  then show ?thesis using assms by (auto simp: dict_ok_def)
qed

lemma no_cross_iff:
  assumes "tracks (\<lambda>p v. fl_lt v p) B hb" and "tracks fl_lt A la"
  shows "crossings_of hb la = [] \<longleftrightarrow>
    (\<forall>t b a. (t, b) \<in> B \<longrightarrow> (t, a) \<in> A \<longrightarrow> \<not> fl_le a (fl_add b tick_atol))"
proof -
  have best_bid: "\<exists>hi. map_of hb t = Some hi \<and> fl_le b hi" if "(t, b) \<in> B" for t b
    using tracksD [OF assms(1) that] by (metis fl_not_lt isfinite.simps(4))
  have best_ask: "\<exists>lo. map_of la t = Some lo \<and> fl_le lo a" if "(t, a) \<in> A" for t a
    using tracksD [OF assms(2) that] by (metis fl_not_lt isfinite.simps(4))
  have wider: "fl_le lo (fl_add hi tick_atol)" if "fl_le b hi" "fl_le lo a" "fl_le a (fl_add b tick_atol)" for b hi lo a
    using that fl_add_mono [of b hi tick_atol tick_atol] by (auto intro: fl_le_trans)
  have quoted: "(t, b) \<in> B" if "map_of hb t = Some b" for t b
    using that assms(1) by (simp add: tracks_def)
  have asked: "(t, a) \<in> A" if "map_of la t = Some a" for t a
    using that assms(2) by (simp add: tracks_def)
  have "crossings_of hb la = [] \<longleftrightarrow>
      (\<forall>t b a. map_of hb t = Some b \<longrightarrow> map_of la t = Some a \<longrightarrow> \<not> fl_le a (fl_add b tick_atol))"
    using assms(1) by (intro crossings_of_empty) (simp add: tracks_def)
  also have "\<dots> \<longleftrightarrow> (\<forall>t b a. (t, b) \<in> B \<longrightarrow> (t, a) \<in> A \<longrightarrow> \<not> fl_le a (fl_add b tick_atol))"
    (is "?dicts = ?quotes")
  proof
    assume d: ?dicts
    show ?quotes
    proof (intro allI impI)
      fix t b a assume q: "(t, b) \<in> B" "(t, a) \<in> A"
      from best_bid [OF q(1)] best_ask [OF q(2)] obtain hi lo
        where "map_of hb t = Some hi" "fl_le b hi" "map_of la t = Some lo" "fl_le lo a" by blast
      with d wider show "\<not> fl_le a (fl_add b tick_atol)" by blast
    qed
  qed (use quoted asked in blast)
  finally show ?thesis .
qed

lemma tracks_Nil: "tracks better {} []"
  by (simp add: tracks_def)

text \<open>
  C19: the self-cross guard is exact. It returns a verdict exactly when the tick is valid and every
  leg, live or not, has a restable on-tick price and a known side. It admits exactly when,
  over all legs that may still be live (proposed, open, and uncertain ones not proven absent), every
  bid on a token stays below every ask on that token by more than the tick tolerance.
\<close>

theorem check_non_crossing_exact:
  "((\<exists>v. check_non_crossing tick legs = Inr v) \<longleftrightarrow> validate_tick_size tick = Inr () \<and>
      (\<forall>leg \<in> set legs. (\<exists>p. validate_and_round_price (ol_price leg) tick = Inr p) \<and> (\<exists>sd. side_of leg = Inr sd)))
   \<and> (\<forall>v. check_non_crossing tick legs = Inr v \<longrightarrow>
      (nv_admitted v \<longleftrightarrow> (\<forall>t bid ask. (t, bid) \<in> live_quotes tick BUY legs \<longrightarrow> (t, ask) \<in> live_quotes tick SELL legs
         \<longrightarrow> \<not> fl_le ask (fl_add bid tick_atol))))"
proof (cases "validate_tick_size tick = Inr ()")
  case True
  have nc: "crossings_of hb la = [] \<longleftrightarrow> (\<forall>t bid ask. (t, bid) \<in> live_quotes tick BUY legs \<longrightarrow>
      (t, ask) \<in> live_quotes tick SELL legs \<longrightarrow> \<not> fl_le ask (fl_add bid tick_atol))"
    if "extremes_loop tick legs [] [] = Inr (hb, la)" for hb la
    using extremes_loop_tracks [OF True that tracks_Nil tracks_Nil] no_cross_iff by simp
  have "(\<exists>v. check_non_crossing tick legs = Inr v) \<longleftrightarrow> (\<exists>r. extremes_loop tick legs [] [] = Inr r)"
    by (auto simp: check_non_crossing_def True rbind_Inr_iff Let_def)
  moreover have "nv_admitted v \<longleftrightarrow> crossings_of hb la = []"
    if "check_non_crossing tick legs = Inr v" "extremes_loop tick legs [] [] = Inr (hb, la)" for v hb la
    using that by (auto simp: check_non_crossing_def True Let_def)
  moreover have "\<exists>hb la. extremes_loop tick legs [] [] = Inr (hb, la)"
    if "check_non_crossing tick legs = Inr v" for v
    using that by (auto simp: check_non_crossing_def True rbind_Inr_iff)
  ultimately show ?thesis using nc extremes_loop_total [of tick legs "[]" "[]"] True by metis
next
  case False
  then show ?thesis by (cases "validate_tick_size tick") (auto simp: check_non_crossing_def)
qed

text \<open>A quarter tick, for concrete instances.\<close>

lemma fl_round_quarters [simp]: "fl_round (1 / 4) = Fin (1 / 4)" "fl_round (1 / 2) = Fin (1 / 2)" "fl_round (3 / 4) = Fin (3 / 4)"
  using fl_round_normal [of "- 2" "1 / 4" "2 ^ 52"] fl_round_normal [of "- 1" "1 / 2" "2 ^ 52"]
    fl_round_normal [of "- 1" "3 / 4" "3 * 2 ^ 51"] by (simp_all add: pow2_def)

lemma quarter_tick:
  assumes "n \<in> {1, 2, 3}"
  shows "validate_and_round_price (Fin (of_int n / 4)) (Fin (1 / 4)) = Inr (Fin (of_int n / 4))"
proof -
  define q :: rat where "q = 4835703278458517 / 4835703278458516698824704"
  have q: "tick_atol = Fin q" "0 < q" "q < 1 / 4" by (simp_all add: tick_atol_eq q_def)
  have fl: "fl_round (of_int n / 4) = Fin (of_int n / 4)" "fl_round (of_int n) = Fin (of_int n)" "rne (of_int n) = n"
    using assms by auto
  obtain y where y: "fl_round (1 / 4 - q) = Fin y" "y \<le> 1 / 4"
    using fl_round_in [of 0 "1 / 4" "1 / 4 - q"] q by auto
  obtain z where z: "fl_round (3 / 4 + q) = Fin z" "3 / 4 \<le> z"
    using fl_round_in [of "3 / 4" 2 "3 / 4 + q"] q by auto
  have "off_tick (Fin (of_int n / 4)) (Fin (1 / 4)) = Inr False"
    using q(2) by (simp add: q(1) off_tick_def fl_div_def fl py_round_int_def float_of_int_def fl_fit_def fl_sub_def)
  moreover have "round_to_tick (Fin (of_int n / 4)) (Fin (1 / 4)) = Inr (Fin (of_int n / 4))"
    by (simp add: round_to_tick_def fl_div_def fl py_round_int_def float_of_int_def fl_fit_def)
  ultimately show ?thesis
    using assms y z by (auto simp: validate_and_round_price_def fl_sub_def q)
qed

definition demo_leg :: "string \<Rightarrow> int \<Rightarrow> leg_kind \<Rightarrow> own_order_leg" where
  "demo_leg side n k = \<lparr>ol_token_id = ''yes'', ol_side = side, ol_price = Fin (of_int n / 4), ol_kind = k,
     ol_uncertain_state = None\<rparr>"

lemma demo_leg_simps:
  "side_of (demo_leg ''BUY'' n k) = Inr BUY" "side_of (demo_leg ''SELL'' n k) = Inr SELL"
  "leg_is_possibly_live (demo_leg side n k)" "ol_token_id (demo_leg side n k) = ''yes''"
  "ol_price (demo_leg side n k) = Fin (of_int n / 4)"
  by (simp_all add: demo_leg_def side_of_def leg_is_possibly_live_def)

theorem check_non_crossing_exact_witness:
  "\<exists>v. check_non_crossing (Fin (1 / 4)) [demo_leg ''SELL'' 2 UNCERTAIN_CANCEL, demo_leg ''BUY'' 3 PROPOSED] = Inr v
     \<and> \<not> nv_admitted v"
proof -
  let ?legs = "[demo_leg ''SELL'' 2 UNCERTAIN_CANCEL, demo_leg ''BUY'' 3 PROPOSED]"
  have p: "validate_and_round_price (Fin (1 / 2)) (Fin (1 / 4)) = Inr (Fin (1 / 2))"
    "validate_and_round_price (Fin (3 / 4)) (Fin (1 / 4)) = Inr (Fin (3 / 4))"
    using quarter_tick [of 2] quarter_tick [of 3] by simp_all
  have "validate_tick_size (Fin (1 / 4)) = Inr ()" by (simp add: validate_tick_size_def)
  then obtain v where v: "check_non_crossing (Fin (1 / 4)) ?legs = Inr v"
    using check_non_crossing_exact [of "Fin (1 / 4)" ?legs] p by (auto simp: demo_leg_simps)
  have q: "(''yes'', Fin (3 / 4)) \<in> live_quotes (Fin (1 / 4)) BUY ?legs"
    "(''yes'', Fin (1 / 2)) \<in> live_quotes (Fin (1 / 4)) SELL ?legs"
    using p by (simp_all add: live_quotes_Cons demo_leg_simps)
  have "fl_le (Fin (1 / 2)) (fl_add (Fin (3 / 4)) tick_atol)"
    using fl_round_mono [of "1 / 2" "3 / 4 + 4835703278458517 / 4835703278458516698824704"]
    by (simp add: tick_atol_eq)
  with q v check_non_crossing_exact [of "Fin (1 / 4)" ?legs] show ?thesis by blast
qed

section \<open>The complement lock\<close>

definition rung_ok :: "rung \<Rightarrow> bool" where
  "rung_ok r \<longleftrightarrow> (\<exists>p s f. r = (Fin p, Fin s, Fin f) \<and> 0 < s \<and> fl_round s = Fin s)"

lemma consume_shrinks:
  assumes "rung_ok r" and "fl_lt fl_zero q" and "fl_le q (fst (snd r))"
  shows "list_all rung_ok rs \<Longrightarrow> list_all rung_ok (consume q r rs)"
    and "length (consume q r rs) \<le> Suc (length rs)"
    and "q = fst (snd r) \<Longrightarrow> consume q r rs = rs"
proof -
  obtain p s f where r: "r = (Fin p, Fin s, Fin f)" "0 < s" "fl_round s = Fin s"
    using assms(1) by (auto simp: rung_ok_def)
  obtain a where q: "q = Fin a" "0 < a" "a \<le> s"
    using assms(2,3) r by (cases q) auto
  obtain d where d: "fl_round (s - a) = Fin d" "0 \<le> d"
    using fl_round_in [of 0 s "s - a"] r q by auto
  have "fl_round d = Fin d" using d(1) by (rule fl_round_idem)
  then show "list_all rung_ok rs \<Longrightarrow> list_all rung_ok (consume q r rs)"
    by (auto simp: consume_def r q fl_sub_def d rung_ok_def not_le)
  show "length (consume q r rs) \<le> Suc (length rs)"
    by (auto simp: consume_def r)
  show "q = fst (snd r) \<Longrightarrow> consume q r rs = rs"
    by (simp add: consume_def r fl_sub_def)
qed

lemma slice_locks_cong:
  assumes "fst y = fst y'" "snd (snd y) = snd (snd y')" "fst n = fst n'" "snd (snd n) = snd (snd n')"
  shows "slice_locks y n = slice_locks y' n'"
  using assms by (cases y; cases y'; cases n; cases n') (simp add: slice_locks_def slice_cost_def)

lemma consume_member:
  "r0 \<in> set (consume q r rs) \<Longrightarrow> \<exists>r1 \<in> set (r # rs). fst r0 = fst r1 \<and> snd (snd r0) = snd (snd r1)"
  by (cases r) (auto simp: consume_def split: if_splits)

lemma lock_walk_result:
  assumes "list_all rung_ok ys" and "list_all rung_ok ns"
  shows "\<exists>v. lock_walk ys ns = Some v
    \<and> (v = REJECT \<longrightarrow> (\<exists>y \<in> set ys. \<exists>n \<in> set ns. slice_locks y n))
    \<and> (v = ADMIT \<longrightarrow> ys \<noteq> [] \<longrightarrow> ns \<noteq> [] \<longrightarrow> \<not> slice_locks (hd ys) (hd ns))"
  using assms
proof (induction "length ys + length ns" arbitrary: ys ns rule: less_induct)
  case less
  show ?case
  proof (cases "ys = [] \<or> ns = []")
    case True
    then show ?thesis by (subst lock_walk.simps) (auto split: list.split)
  next
    case False
    then obtain y ys' n ns' where c: "ys = y # ys'" "ns = n # ns'" by (meson neq_Nil_conv)
    define q where "q = py_min (fst (snd y)) (fst (snd n))"
    have ok: "rung_ok y" "rung_ok n" "list_all rung_ok ys'" "list_all rung_ok ns'"
      using less.prems by (auto simp: c)
    have q: "fl_lt fl_zero q" "fl_le q (fst (snd y))" "fl_le q (fst (snd n))"
      "q = fst (snd y) \<or> q = fst (snd n)"
      using ok(1,2) by (auto simp: rung_ok_def q_def py_min_def)
    note cy = consume_shrinks [OF ok(1) q(1,2), of ys'] and cn = consume_shrinks [OF ok(2) q(1,3), of ns']
    show ?thesis
    proof (cases "slice_locks y n")
      case True
      then show ?thesis by (subst lock_walk.simps) (auto simp: c q(1) simp flip: q_def)
    next
      case nolock: False
      have "length (consume q y ys') + length (consume q n ns') < length ys + length ns"
        using q(4) cy(2,3) cn(2,3) by (auto simp: c)
      from less.hyps [OF this cy(1) [OF ok(3)] cn(1) [OF ok(4)]]
      obtain v where v: "lock_walk (consume q y ys') (consume q n ns') = Some v"
        and r: "v = REJECT \<longrightarrow> (\<exists>y \<in> set (consume q y ys'). \<exists>n \<in> set (consume q n ns'). slice_locks y n)"
        by blast
      have "\<exists>y \<in> set ys. \<exists>n \<in> set ns. slice_locks y n" if "v = REJECT"
      proof -
        from r that obtain y0 n0 where m: "y0 \<in> set (consume q y ys')" "n0 \<in> set (consume q n ns')"
          and l: "slice_locks y0 n0" by blast
        from consume_member [OF m(1)] obtain y1 where y1: "y1 \<in> set ys" "fst y0 = fst y1" "snd (snd y0) = snd (snd y1)"
          unfolding c by blast
        from consume_member [OF m(2)] obtain n1 where n1: "n1 \<in> set ns" "fst n0 = fst n1" "snd (snd n0) = snd (snd n1)"
          unfolding c by blast
        have "slice_locks y1 n1" using l slice_locks_cong [OF y1(2,3) n1(2,3)] by simp
        with y1(1) n1(1) show ?thesis by blast
      qed
      moreover have "lock_walk ys ns = Some v"
        using nolock v by (subst lock_walk.simps) (simp add: c q_def Let_def)
      ultimately show ?thesis using nolock by (simp add: c)
    qed
  qed
qed

text \<open>The rungs a ladder of canonical legs is walked with.\<close>

definition ladder_leg_ok :: "canonical_outcome \<Rightarrow> canonical_leg \<Rightarrow> bool" where
  "ladder_leg_ok oc leg \<longleftrightarrow> (\<exists>r. validate_lock_leg oc leg = Inr r) \<and> fl_settled (cl_size leg)"

lemma validate_lock_leg_rung:
  assumes "validate_lock_leg oc leg = Inr r" and "fl_settled (cl_size leg)" and "fl_lt fl_zero (fst (snd r))"
  shows "rung_ok r"
  using assms
  by (auto simp: validate_lock_leg_def rung_ok_def isfinite_iff fl_settled_Fin split: if_splits option.splits)

lemma positive_desc_ok:
  assumes "rtraverse (validate_lock_leg oc) legs = Inr rs" and "\<forall>leg \<in> set legs. fl_settled (cl_size leg)"
  shows "list_all rung_ok (positive_desc rs)"
proof -
  have "rung_ok r" if "r \<in> set rs" "fl_lt fl_zero (fst (snd r))" for r
  proof -
    from rtraverse_source [OF assms(1) that(1)]
    obtain leg where "leg \<in> set legs" "validate_lock_leg oc leg = Inr r" by blast
    with assms(2) that(2) show ?thesis by (auto intro: validate_lock_leg_rung)
  qed
  then show ?thesis by (auto simp: positive_desc_def list_all_iff)
qed

lemma positive_desc_sorted:
  "r \<in> set (positive_desc rs) \<Longrightarrow> rung_price r \<le> rung_price (hd (positive_desc rs))"
proof -
  assume r: "r \<in> set (positive_desc rs)"
  have "sorted (map (\<lambda>r. - rung_price r) (positive_desc rs))" by (simp add: positive_desc_def)
  with r show ?thesis by (cases "positive_desc rs") auto
qed

lemma set_positive_desc: "set (positive_desc rs) = {r \<in> set rs. fl_lt fl_zero (fst (snd r))}"
  by (auto simp: positive_desc_def)

lemma slice_locks_mono:
  assumes "rung_ok y" "rung_ok y'" "rung_ok n" "rung_ok n'"
    and "rung_price y \<le> rung_price y'" "rung_price n \<le> rung_price n'"
    and "snd (snd y) = fl_zero" "snd (snd y') = fl_zero" "snd (snd n) = fl_zero" "snd (snd n') = fl_zero"
    and "slice_locks y n"
  shows "slice_locks y' n'"
proof -
  have "fl_le (slice_cost y n) (slice_cost y' n')"
    using assms(1-10) by (auto simp: rung_ok_def rung_price_def slice_cost_def intro!: fl_add_mono)
  with assms(11) show ?thesis by (auto simp: slice_locks_def intro: fl_le_trans)
qed

lemma lock_check_walks:
  assumes "rtraverse (validate_lock_leg YES) yes = Inr ys" and "rtraverse (validate_lock_leg NO) no = Inr ns"
    and "\<forall>leg \<in> set yes \<union> set no. fl_settled (cl_size leg)"
  shows "complementary_lock_check yes no = Inr (Some ADMIT)
      \<and> (positive_desc ys \<noteq> [] \<longrightarrow> positive_desc ns \<noteq> [] \<longrightarrow> \<not> slice_locks (hd (positive_desc ys)) (hd (positive_desc ns)))
    \<or> complementary_lock_check yes no = Inr (Some REJECT)
      \<and> (\<exists>y \<in> set (positive_desc ys). \<exists>n \<in> set (positive_desc ns). slice_locks y n)"
proof -
  have "list_all rung_ok (positive_desc ys)" "list_all rung_ok (positive_desc ns)"
    using positive_desc_ok [OF assms(1)] positive_desc_ok [OF assms(2)] assms(3) by simp_all
  from lock_walk_result [OF this] obtain v where v: "lock_walk (positive_desc ys) (positive_desc ns) = Some v"
    and rej: "v = REJECT \<longrightarrow> (\<exists>y \<in> set (positive_desc ys). \<exists>n \<in> set (positive_desc ns). slice_locks y n)"
    and adm: "v = ADMIT \<longrightarrow> positive_desc ys \<noteq> [] \<longrightarrow> positive_desc ns \<noteq> []
      \<longrightarrow> \<not> slice_locks (hd (positive_desc ys)) (hd (positive_desc ns))" by blast
  have clc: "complementary_lock_check yes no = Inr (Some v)"
    by (simp add: complementary_lock_check_def assms(1,2) v)
  show ?thesis
  proof (cases v)
    case ADMIT
    then show ?thesis using clc adm by simp
  next
    case REJECT
    then show ?thesis using clc rej by simp
  qed
qed

definition rungs_of :: "canonical_outcome \<Rightarrow> canonical_leg list \<Rightarrow> rung set" where
  "rungs_of oc legs = {r. \<exists>leg \<in> set legs. validate_lock_leg oc leg = Inr r \<and> fl_lt fl_zero (cl_size leg)}"

lemma rung_size: "validate_lock_leg oc leg = Inr r \<Longrightarrow> fst (snd r) = cl_size leg"
  by (auto simp: validate_lock_leg_def split: if_splits option.splits)

lemma rungs_of_eq:
  assumes "rtraverse (validate_lock_leg oc) legs = Inr rs"
  shows "rungs_of oc legs = set (positive_desc rs)"
proof (rule set_eqI, rule iffI)
  fix r assume "r \<in> rungs_of oc legs"
  then obtain leg where leg: "leg \<in> set legs" "validate_lock_leg oc leg = Inr r" "fl_lt fl_zero (cl_size leg)"
    unfolding rungs_of_def by blast
  with rtraverse_InrD [OF assms leg(1)] have "r \<in> set rs" by (metis sum.inject(2))
  with leg show "r \<in> set (positive_desc rs)" by (simp add: set_positive_desc rung_size)
next
  fix r assume "r \<in> set (positive_desc rs)"
  then have r: "r \<in> set rs" "fl_lt fl_zero (fst (snd r))" by (simp_all add: set_positive_desc)
  from rtraverse_source [OF assms r(1)] obtain leg where "leg \<in> set legs" "validate_lock_leg oc leg = Inr r" by blast
  with r(2) show "r \<in> rungs_of oc legs" unfolding rungs_of_def by (auto simp: rung_size)
qed

lemma validate_lock_leg_error: "validate_lock_leg oc leg = Inl e \<Longrightarrow> e = FailClosed"
  by (auto simp: validate_lock_leg_def split: if_splits option.splits)

definition ladder_valid :: "canonical_outcome \<Rightarrow> canonical_leg list \<Rightarrow> bool" where
  "ladder_valid oc legs \<longleftrightarrow> (\<forall>leg \<in> set legs. \<exists>r. validate_lock_leg oc leg = Inr r)"

lemma ladder_valid_iff: "ladder_valid oc legs \<longleftrightarrow> (\<exists>rs. rtraverse (validate_lock_leg oc) legs = Inr rs)"
  using rtraverse_disj [of "validate_lock_leg oc" legs]
  by (auto simp: ladder_valid_def elim: rtraverse_InrD)

lemma ladder_invalid: "\<not> ladder_valid oc legs \<Longrightarrow> rtraverse (validate_lock_leg oc) legs = Inl FailClosed"
  using rtraverse_disj [of "validate_lock_leg oc" legs] validate_lock_leg_error
  by (auto simp: ladder_valid_iff)

lemma fee_free_rung:
  assumes "rtraverse (validate_lock_leg oc) legs = Inr rs"
    and "\<forall>leg \<in> set legs. fl_settled (cl_size leg) \<and> cl_fee leg = Some fl_zero" and "r \<in> set (positive_desc rs)"
  shows "rung_ok r" and "snd (snd r) = fl_zero"
proof -
  show "rung_ok r" using positive_desc_ok [OF assms(1)] assms(2,3) by (simp add: list_all_iff)
  from assms(3) have "r \<in> set rs" by (simp add: set_positive_desc)
  from rtraverse_source [OF assms(1) this] obtain leg where "leg \<in> set legs" "validate_lock_leg oc leg = Inr r" by blast
  with assms(2) show "snd (snd r) = fl_zero" by (auto simp: validate_lock_leg_def split: if_splits)
qed

text \<open>
  C20: the complement-lock walk always returns. On ladders whose sizes are floats it yields a
  verdict exactly when every rung is valid for its ladder (known non-negative fee, price in the unit
  interval, finite size) and fails closed otherwise; it rejects only when some YES rung and some NO
  rung of positive size really cost a dollar or more together.
\<close>

theorem lock_check_returns:
  assumes "\<forall>leg \<in> set yes \<union> set no. fl_settled (cl_size leg)"
  shows "if ladder_valid YES yes \<and> ladder_valid NO no
    then complementary_lock_check yes no = Inr (Some ADMIT)
      \<or> complementary_lock_check yes no = Inr (Some REJECT)
        \<and> (\<exists>y \<in> rungs_of YES yes. \<exists>n \<in> rungs_of NO no. slice_locks y n)
    else complementary_lock_check yes no = Inl FailClosed"
proof (cases "ladder_valid YES yes \<and> ladder_valid NO no")
  case True
  then obtain ys ns where r: "rtraverse (validate_lock_leg YES) yes = Inr ys" "rtraverse (validate_lock_leg NO) no = Inr ns"
    unfolding ladder_valid_iff by blast
  from lock_check_walks [OF r assms]
  have "complementary_lock_check yes no = Inr (Some ADMIT) \<or> complementary_lock_check yes no = Inr (Some REJECT)
      \<and> (\<exists>y \<in> rungs_of YES yes. \<exists>n \<in> rungs_of NO no. slice_locks y n)"
    unfolding rungs_of_eq [OF r(1)] rungs_of_eq [OF r(2)] by blast
  with True show ?thesis by (simp only: if_True simp_thms)
next
  case False
  have "complementary_lock_check yes no = Inl FailClosed"
  proof (cases "ladder_valid YES yes")
    case True
    then obtain ys where "rtraverse (validate_lock_leg YES) yes = Inr ys" unfolding ladder_valid_iff by blast
    moreover have "\<not> ladder_valid NO no" using True False by blast
    ultimately show ?thesis by (simp add: complementary_lock_check_def ladder_invalid)
  qed (simp add: complementary_lock_check_def ladder_invalid)
  with False show ?thesis by (simp only: if_False)
qed

definition demo_rung :: "canonical_outcome \<Rightarrow> rat \<Rightarrow> rat \<Rightarrow> canonical_leg" where
  "demo_rung oc price fee = \<lparr>cl_outcome = oc, cl_price = Fin price, cl_size = fl_one, cl_role = TAKER,
     cl_fee = Some (Fin fee)\<rparr>"

theorem lock_check_returns_witness:
  "complementary_lock_check [demo_rung YES (3 / 4) 0] [(demo_rung NO (1 / 2) 0)\<lparr>cl_fee := None\<rparr>] = Inl FailClosed"
  using lock_check_returns [of "[demo_rung YES (3 / 4) 0]" "[(demo_rung NO (1 / 2) 0)\<lparr>cl_fee := None\<rparr>]"]
  by (simp add: demo_rung_def validate_lock_leg_def ladder_valid_def fl_settled_Fin)

text \<open>
  Without fees the walk is complete: when every rung is free (resting maker orders on a
  taker-only market), it admits exactly when no YES rung and no NO rung of positive size, in any
  pairing, cost a dollar or more together.
\<close>

theorem fee_free_lock_check_exact:
  assumes "\<forall>leg \<in> set yes \<union> set no. fl_settled (cl_size leg) \<and> cl_fee leg = Some fl_zero"
    and "ladder_valid YES yes" and "ladder_valid NO no"
  shows "complementary_lock_check yes no = Inr (Some ADMIT) \<longleftrightarrow>
    (\<forall>y \<in> rungs_of YES yes. \<forall>n \<in> rungs_of NO no. \<not> slice_locks y n)"
proof -
  obtain ys ns where ys: "rtraverse (validate_lock_leg YES) yes = Inr ys"
    and ns: "rtraverse (validate_lock_leg NO) no = Inr ns"
    using assms(2,3) unfolding ladder_valid_iff by blast
  let ?Y = "positive_desc ys" and ?N = "positive_desc ns"
  have sz: "\<forall>leg \<in> set yes \<union> set no. fl_settled (cl_size leg)"
    and fy: "\<forall>leg \<in> set yes. fl_settled (cl_size leg) \<and> cl_fee leg = Some fl_zero"
    and fn: "\<forall>leg \<in> set no. fl_settled (cl_size leg) \<and> cl_fee leg = Some fl_zero" using assms(1) by auto
  note Y = fee_free_rung [OF ys fy] and N = fee_free_rung [OF ns fn]
  have top: "slice_locks (hd ?Y) (hd ?N) \<and> ?Y \<noteq> [] \<and> ?N \<noteq> []"
    if "y \<in> set ?Y" "n \<in> set ?N" "slice_locks y n" for y n
  proof -
    have ne: "?Y \<noteq> []" "?N \<noteq> []" using that by auto
    note h = hd_in_set [OF ne(1)] hd_in_set [OF ne(2)]
    have "slice_locks (hd ?Y) (hd ?N)"
      by (rule slice_locks_mono [OF Y(1) [OF that(1)] Y(1) [OF h(1)] N(1) [OF that(2)] N(1) [OF h(2)]
            positive_desc_sorted [OF that(1)] positive_desc_sorted [OF that(2)]
            Y(2) [OF that(1)] Y(2) [OF h(1)] N(2) [OF that(2)] N(2) [OF h(2)] that(3)])
    with ne show ?thesis by simp
  qed
  from lock_check_walks [OF ys ns sz] show ?thesis
    unfolding rungs_of_eq [OF ys] rungs_of_eq [OF ns] using top by (elim disjE conjE) (simp, blast, simp)
qed

theorem fee_free_lock_check_exact_witness:
  "complementary_lock_check [demo_rung YES (1 / 4) 0] [] = Inr (Some ADMIT)"
  using fee_free_lock_check_exact [of "[demo_rung YES (1 / 4) 0]" "[]"]
  by (simp add: demo_rung_def validate_lock_leg_def ladder_valid_def fl_settled_Fin rungs_of_def)

lemma fl_round_64ths: "\<bar>n\<bar> \<le> 2 ^ 50 \<Longrightarrow> fl_round (of_int n / 64) = Fin (of_int n / 64)"
proof -
  assume n: "\<bar>n\<bar> \<le> 2 ^ 50"
  have "is_double (of_int n / 64)"
    unfolding is_double_def using n by (intro exI [of _ n] exI [of _ "- 6"]) (simp add: pow2_def)
  moreover have "\<bar>of_int n / 64 :: rat\<bar> < pow2 1024"
  proof -
    have "\<bar>of_int n :: rat\<bar> \<le> of_int (2 ^ 50)" using n by (simp only: of_int_le_iff flip: of_int_abs)
    also have "\<dots> = pow2 50" by (simp add: pow2_nat)
    also have "\<dots> < pow2 1024" by (rule pow2_strict_mono) simp
    finally show ?thesis by simp
  qed
  ultimately show ?thesis by (rule fl_round_exact)
qed

lemma one_minus_atol: "fl_sub fl_one tick_atol = Fin (9007199245733793 / 9007199254740992)"
  using fl_round_normal [of "- 1" "1 - 4835703278458517 / 4835703278458516698824704" 9007199245733793]
  by (simp add: fl_sub_def tick_atol_eq pow2_def)

text \<open>
  With fees the walk does not test every pairing: there are valid ladders it admits although one
  YES rung and one NO rung of positive size cost more than a dollar together, because a dearer rung
  without a fee is paired with that NO rung first.
\<close>

theorem lock_check_misses_a_pairing:
  "\<exists>yes no. ladder_valid YES yes \<and> ladder_valid NO no
     \<and> complementary_lock_check yes no = Inr (Some ADMIT)
     \<and> (\<exists>y \<in> rungs_of YES yes. \<exists>n \<in> rungs_of NO no. fl_lt fl_one (slice_cost y n))"
proof -
  let ?yes = "[demo_rung YES (1 / 2) 0, demo_rung YES (31 / 64) (1 / 16)]"
  let ?no = "[demo_rung NO (31 / 64) 0]"
  note f = fl_round_64ths [of 63] fl_round_64ths [of 62] fl_round_64ths [of 66]
  have walk: "lock_walk [(Fin (1 / 2), fl_one, fl_zero), (Fin (31 / 64), fl_one, Fin (1 / 16))]
      [(Fin (31 / 64), fl_one, fl_zero)] = Some ADMIT"
    using f by (subst lock_walk.simps, subst lock_walk.simps)
      (simp add: slice_locks_def slice_cost_def py_min_def consume_def one_minus_atol fl_sub_self Let_def)
  have "complementary_lock_check ?yes ?no = Inr (Some ADMIT)"
    using walk by (simp add: complementary_lock_check_def demo_rung_def validate_lock_leg_def positive_desc_def
        rung_price_def)
  moreover have "(Fin (31 / 64), fl_one, Fin (1 / 16)) \<in> rungs_of YES ?yes" "(Fin (31 / 64), fl_one, fl_zero) \<in> rungs_of NO ?no"
    by (simp_all add: rungs_of_def demo_rung_def validate_lock_leg_def)
  moreover have "fl_lt fl_one (slice_cost (Fin (31 / 64), fl_one, Fin (1 / 16)) (Fin (31 / 64), fl_one, fl_zero))"
    using f by (simp add: slice_cost_def)
  moreover have "ladder_valid YES ?yes" "ladder_valid NO ?no"
    by (simp_all add: ladder_valid_def demo_rung_def validate_lock_leg_def)
  ultimately show ?thesis by blast
qed

section \<open>Normalization\<close>

lemma finite_mul_nonneg:
  assumes "fl_mul a b = Fin x" and "fl_le fl_zero a" and "fl_le fl_zero b"
  shows "0 \<le> x"
proof -
  have "isfinite a \<and> isfinite b" using assms(1) by (cases a; cases b) (auto simp: fl_sgn_def split: if_splits)
  with assms fl_mul_nonneg [of a b] show ?thesis by simp
qed

lemma finite_mul_factor: "fl_mul a b = Fin x \<Longrightarrow> \<exists>y. a = Fin y"
  by (cases a; cases b) (auto split: if_splits)

lemma round5_nonneg:
  assumes "round5 x = Inr f" and "fl_le fl_zero x"
  shows "fl_le fl_zero f"
proof (cases "fl_lt (fl_abs x) fee_min")
  case False
  with assms obtain a where a: "x = Fin a" "0 \<le> a" "f = fl_round (of_int (rne (a * 10 ^ 5)) / 10 ^ 5)"
    by (cases x) (auto simp: round5_def py_round_dp_def)
  have "0 \<le> rne (a * 10 ^ 5)" using a(2) rne_ge_int [of 0 "a * 10 ^ 5"] by simp
  then show ?thesis using fl_round_mono [of 0 "of_int (rne (a * 10 ^ 5)) / 10 ^ 5"] by (simp add: a(3))
qed (use assms in \<open>auto simp: round5_def split: if_splits\<close>)

lemma taker_fee_nonneg:
  assumes "taker_fee snap shares p = Inr f" and "fl_le fl_zero (fe_fee_rate snap)" and "fl_le fl_zero shares"
  shows "fl_le fl_zero f"
proof -
  let ?a = "fl_mul (fe_fee_rate snap) shares"
  let ?raw = "fl_mul (fl_mul ?a p) (fl_sub fl_one p)"
  from assms(1) have p: "fl_le fl_zero p" "fl_le p fl_one" and r: "round5 ?raw = Inr f"
    by (auto simp: taker_fee_def reject_price_out_of_unit_interval_def rbind_Inr_iff split: if_splits)
  from r obtain x where x: "?raw = Fin x" by (auto simp: round5_def isfinite_iff split: if_splits)
  then obtain y where y: "fl_mul ?a p = Fin y" using finite_mul_factor by blast
  then obtain z where z: "?a = Fin z" using finite_mul_factor by blast
  have "0 \<le> z" using finite_mul_nonneg [OF z assms(2,3)] .
  then have "0 \<le> y" using finite_mul_nonneg [OF y] p(1) z by simp
  moreover have "fl_le fl_zero (fl_sub fl_one p)"
    using p by (intro fl_sub_nonneg) (cases p; auto)+
  ultimately have "0 \<le> x" using finite_mul_nonneg [OF x] y by simp
  with r x show ?thesis using round5_nonneg by simp
qed

text \<open>
  Normalization to a canonical BUY rung: buying a token keeps its outcome, selling it flips the
  outcome, the size is kept, the price is finite and within a tick of the band the venue accepts, and
  the fee comes from the pinned snapshot: never negative, and zero for a maker on a taker-only market.
\<close>

theorem normalize_contract:
  assumes "normalize order m (Some snap) tick = Inr leg" and "fl_le fl_zero (fe_fee_rate snap)"
  shows "\<exists>t fee. side_to_token m (ro_side order) = Inr t
    \<and> cl_outcome leg = (if (t = rm_token_id_yes m) = (ro_action order = ''BUY'') then YES else NO)
    \<and> cl_size leg = ro_size order \<and> isfinite (cl_price leg)
    \<and> \<not> fl_lt (cl_price leg) (fl_sub tick tick_atol)
    \<and> \<not> fl_lt (fl_add (fl_sub fl_one tick) tick_atol) (cl_price leg)
    \<and> cl_fee leg = Some fee \<and> fl_le fl_zero fee
    \<and> (fe_taker_only snap \<and> cl_role leg = MAKER \<longrightarrow> fee = fl_zero)"
proof -
  from assms(1) obtain t oc vr price fee role where
    tick: "validate_tick_size tick = Inr ()"
    and t: "side_to_token m (ro_side order) = Inr t"
    and oc: "(if t = rm_token_id_yes m then Inr YES else if t = rm_token_id_no m then Inr NO else Inl FailClosed) = Inr oc"
    and price: "validate_and_round_price (if ro_action order = ''BUY'' then vr else fl_sub fl_one vr) tick = Inr price"
    and fee: "(if role = MAKER then maker_fee snap fl_one price else taker_fee snap fl_one price) = Inr fee"
    and leg: "leg = \<lparr>cl_outcome = (if ro_action order = ''BUY'' then oc else other_outcome oc), cl_price = price,
      cl_size = ro_size order, cl_role = role, cl_fee = Some fee\<rparr>"
    unfolding normalize_def by (auto simp: rbind_Inr_iff Let_def split: if_splits sum.splits py_error.splits)
  have "fl_le fl_zero fee"
    using fee taker_fee_nonneg [of snap fl_one price fee] assms(2) by (auto simp: maker_fee_def split: if_splits)
  moreover have "fe_taker_only snap \<and> role = MAKER \<longrightarrow> fee = fl_zero" using fee by (auto simp: maker_fee_def)
  moreover have "(if ro_action order = ''BUY'' then oc else other_outcome oc)
      = (if (t = rm_token_id_yes m) = (ro_action order = ''BUY'') then YES else NO)"
    using oc by (auto simp: other_outcome_def split: if_splits)
  ultimately show ?thesis
    using t validated_price [OF price tick] by (auto simp: leg)
qed

definition demo_market :: resolved_market where
  "demo_market = \<lparr>rm_condition_id = ''c'', rm_token_id_yes = ''t1'', rm_token_id_no = ''t2'',
     rm_tick_size = Fin (1 / 4), rm_draw_market = False\<rparr>"

definition demo_snapshot_fees :: fee_snapshot where
  "demo_snapshot_fees = \<lparr>fe_condition_id = ''c'', fe_fee_rate = Fin (1 / 4), fe_fee_exponent = 1, fe_taker_only = True\<rparr>"

definition demo_order :: raw_order where
  "demo_order = \<lparr>ro_side = '' No '', ro_action = ''SELL'', ro_price = Fin (1 / 2), ro_size = Fin 5, ro_role = ''MAKER''\<rparr>"

lemma demo_normalize:
  "normalize demo_order demo_market (Some demo_snapshot_fees) (Fin (1 / 4)) =
     Inr \<lparr>cl_outcome = YES, cl_price = Fin (1 / 2), cl_size = Fin 5, cl_role = MAKER, cl_fee = Some fl_zero\<rparr>"
proof -
  have "side_to_token demo_market '' No '' = Inr ''t2''" by code_simp
  moreover have "round_to_tick (Fin (1 / 2)) (Fin (1 / 4)) = Inr (Fin (1 / 2))"
    by (simp add: round_to_tick_def fl_div_def py_round_int_def rne_def float_of_int_def fl_fit_def)
  moreover have "validate_and_round_price (Fin (1 / 2)) (Fin (1 / 4)) = Inr (Fin (1 / 2))"
    using quarter_tick [of 2] by simp
  moreover have "validate_tick_size (Fin (1 / 4)) = Inr ()" by (simp add: validate_tick_size_def)
  moreover have "rm_token_id_yes demo_market = ''t1''" "rm_token_id_no demo_market = ''t2''"
    by (simp_all add: demo_market_def)
  ultimately show ?thesis
    by (simp add: normalize_def demo_order_def validate_role_def maker_fee_def demo_snapshot_fees_def
        other_outcome_def fl_sub_def Let_def)
qed

theorem normalize_contract_witness:
  "\<exists>leg fee. normalize demo_order demo_market (Some demo_snapshot_fees) (Fin (1 / 4)) = Inr leg
     \<and> cl_fee leg = Some fee \<and> fl_le fl_zero fee"
  using normalize_contract [OF demo_normalize] demo_normalize by (auto simp: demo_snapshot_fees_def)

section \<open>Sizing\<close>

text \<open>
  Mechanical sizing never exceeds a cap: a size is produced exactly when the four inputs are
  finite and non-negative, and it is then finite, non-negative, within both caps, and equal to the
  fixed fraction of the equity when that is within them.
\<close>

theorem dust_size_within_caps:
  "(if list_all nonneg_finite [ff, eq, mn, mo] then
      \<exists>sz. resolve_dust_size ff eq mn mo = Inr sz \<and> nonneg_finite sz
        \<and> fl_le sz mn \<and> fl_le sz mo \<and> fl_le sz (fl_mul ff eq)
        \<and> (fl_le (fl_mul ff eq) mn \<and> fl_le (fl_mul ff eq) mo \<longrightarrow> sz = fl_mul ff eq)
    else resolve_dust_size ff eq mn mo = Inl ValueError)"
proof (cases "list_all nonneg_finite [ff, eq, mn, mo]")
  case True
  then have "fl_le fl_zero (fl_mul ff eq)"
    by (intro fl_mul_nonneg) (auto simp: nonneg_finite_def isfinite_iff not_less)
  then have "fl_mul ff eq = PInf \<or> (\<exists>u. fl_mul ff eq = Fin u \<and> 0 \<le> u)" by (cases "fl_mul ff eq") auto
  moreover obtain n o' where "mn = Fin n" "mo = Fin o'" "0 \<le> n" "0 \<le> o'"
    using True by (auto simp: nonneg_finite_def isfinite_iff not_less)
  ultimately show ?thesis
    using True by (auto simp: resolve_dust_size_def py_min_def nonneg_finite_def not_less)
qed (auto simp: resolve_dust_size_def)

theorem dust_size_within_caps_witness:
  "\<exists>sz. resolve_dust_size (Fin 2) (Fin 30) (Fin 50) (Fin 40) = Inr sz \<and> fl_le sz (Fin 40)"
  using dust_size_within_caps [of "Fin 2" "Fin 30" "Fin 50" "Fin 40"] by (auto simp: nonneg_finite_def)

section \<open>Resting orders\<close>

text \<open>
  What a resting order on the wire satisfies: a price strictly inside the unit interval and
  on the tick grid within the tolerance, a size that does not compare at or below zero, a client
  id, and an expiration that is positive exactly for GTD orders and zero for GTC ones.
\<close>

theorem resting_order_contract:
  assumes "mk_resting_order r = Inr r'"
  shows "r' = r \<and> fl_lt fl_zero (rs_native_price r) \<and> fl_lt (rs_native_price r) fl_one
    \<and> off_tick (rs_native_price r) (rs_tick_size r) = Inr False
    \<and> \<not> fl_le (rs_size r) fl_zero \<and> rs_client_order_id r \<noteq> []
    \<and> (rs_tif r = GTD \<longrightarrow> 0 < rw_expiration (to_wire_kwargs str r))
    \<and> (rs_tif r = GTC \<longrightarrow> rw_expiration (to_wire_kwargs str r) = 0)"
  using assms
  by (auto simp: mk_resting_order_def to_wire_kwargs_def rbind_Inr_iff split: if_splits option.splits)

definition demo_resting :: "pyfloat \<Rightarrow> resting_order" where
  "demo_resting amount = \<lparr>rs_token_id = ''yes'', rs_side = SELL, rs_size = amount, rs_native_price = Fin (1 / 2),
     rs_tick_size = Fin (1 / 4), rs_tif = GTC, rs_post_only = True, rs_gtd_expiration_ts = None,
     rs_client_order_id = ''c1''\<rparr>"

lemma half_on_quarter_tick: "off_tick (Fin (1 / 2)) (Fin (1 / 4)) = Inr False"
  by (simp add: off_tick_def fl_div_def py_round_int_def float_of_int_def fl_fit_def fl_sub_def rne_def tick_atol_eq)

theorem resting_order_contract_witness:
  "\<exists>r'. mk_resting_order (demo_resting fl_one) = Inr r' \<and> rw_expiration (to_wire_kwargs (\<lambda>_. ''0.25'') r') = 0"
proof -
  have mk: "mk_resting_order (demo_resting fl_one) = Inr (demo_resting fl_one)"
    by (simp add: mk_resting_order_def demo_resting_def half_on_quarter_tick)
  then show ?thesis
    using resting_order_contract [OF mk, of "\<lambda>_. ''0.25''"] by (simp add: demo_resting_def)
qed

text \<open>
  The size guard does not stop every bad size: a resting order with a size that is not a number
  is constructed and reaches the wire with that amount.
\<close>

theorem nan_size_reaches_the_wire:
  "\<exists>r. rs_size r = NaN \<and> mk_resting_order r = Inr r \<and> rw_amount (to_wire_kwargs str r) = NaN"
  by (intro exI [of _ "demo_resting NaN"])
    (simp add: mk_resting_order_def demo_resting_def half_on_quarter_tick to_wire_kwargs_def signed_amount_def)

end
