(* ===== verification/PyTime.thy ===== *)
theory PyTime
  imports PyFloat
begin

text \<open>
  The clock arithmetic of the execution lane: epoch milliseconds become a
  \<open>datetime\<close> through the float quotient \<open>ts_ms / 1000.0\<close>, and a UTC day is that
  \<open>datetime\<close> with its time of day cleared. An aware \<open>datetime\<close> is the number of
  microseconds since the epoch; a UTC day is the number of days since it.
\<close>

section \<open>\<open>datetime.fromtimestamp(ts_ms / 1000.0, tz=UTC)\<close>\<close>

definition trunc0 :: "rat \<Rightarrow> int" where
  "trunc0 x = (if 0 \<le> x then \<lfloor>x\<rfloor> else \<lceil>x\<rceil>)"

text \<open>
  The interpreter splits the float into its integral and fractional part, scales the
  fraction to microseconds (rounding half to even) and carries.
\<close>

definition timeval_of_double :: "rat \<Rightarrow> int \<times> int" where
  "timeval_of_double d =
     (let sec = trunc0 d;
          us = (case fl_round ((d - of_int sec) * 1000000) of Fin y \<Rightarrow> rne y | _ \<Rightarrow> 0)
      in if 1000000 \<le> us then (sec + 1, us - 1000000)
         else if us < 0 then (sec - 1, us + 1000000)
         else (sec, us))"

text \<open>A datetime exists for the years 1 to 9999 only; any other timestamp raises.\<close>

definition year_ok :: "int \<Rightarrow> bool" where
  "year_ok sec \<longleftrightarrow> - 62135596800 \<le> sec \<and> sec \<le> 253402300799"

definition utc_day :: "int \<Rightarrow> int result" where
  "utc_day ts_ms =
     rbind (float_of_int ts_ms) (\<lambda>f.
     rbind (fl_div f (Fin 1000)) (\<lambda>t.
       case t of
         Fin d \<Rightarrow> (let (sec, us) = timeval_of_double d in
                     if year_ok sec then Inr (sec div 86400) else Inl ValueError)
       | _ \<Rightarrow> Inl OverflowError))"

text \<open>\<open>now.astimezone(UTC).replace(hour=0, minute=0, second=0, microsecond=0)\<close>.\<close>

definition today_of :: "int \<Rightarrow> int" where
  "today_of now_us = now_us div 86400000000"

text \<open>\<open>int(now.timestamp() * 1000)\<close>: microseconds to float seconds, scaled, truncated.\<close>

definition epoch_ms :: "int \<Rightarrow> int result" where
  "epoch_ms now_us =
     rbind (int_truediv now_us 1000000) (\<lambda>s.
       case fl_mul s (Fin 1000) of Fin x \<Rightarrow> Inr (trunc0 x) | _ \<Rightarrow> Inl OverflowError)"

section \<open>The float trip keeps the UTC day\<close>

lemma ulp_exp_small: "0 < x \<Longrightarrow> x < pow2 38 \<Longrightarrow> ulp_exp x \<le> - 15"
proof -
  assume x: "0 < x" "x < pow2 38"
  then have "pow2 (ilog2 x) < pow2 38" using ilog2_bounds(1) [of x] by linarith
  then have "ilog2 x < 38" by (rule pow2_less_cancel)
  with x show ?thesis by (simp add: ulp_exp_def)
qed

lemma fl_snap_error_small:
  assumes "0 \<le> x" "x < pow2 38"
  shows "\<bar>fl_snap x - x\<bar> \<le> 1 / 65536"
proof (cases "x = 0")
  case False
  with assms have "pow2 (ulp_exp x) \<le> pow2 (- 15)" by (intro pow2_mono ulp_exp_small) auto
  with fl_snap_error [of x] show ?thesis by (simp add: pow2_def)
qed simp

text \<open>A whole number of milliseconds keeps its second when it is divided by \<open>1000.0\<close>.\<close>

lemma fl_snap_ms_second:
  assumes "0 \<le> ts" "ts \<le> 253402300799999"
  shows "\<lfloor>fl_snap (of_int ts / 1000)\<rfloor> = ts div 1000"
    and "fl_snap (of_int ts / 1000) - of_int (ts div 1000) \<le> 999999 / 1000000"
proof -
  let ?x = "of_int ts / 1000 :: rat" and ?n = "ts div 1000"
  have n: "of_int ?n \<le> ?x" "?x \<le> of_int ?n + 999 / 1000"
  proof -
    have "1000 * ?n \<le> ts" "ts \<le> 1000 * ?n + 999" by linarith+
    then have "of_int (1000 * ?n) \<le> (of_int ts :: rat)" "(of_int ts :: rat) \<le> of_int (1000 * ?n + 999)"
      by (simp_all only: of_int_le_iff)
    then show "of_int ?n \<le> ?x" "?x \<le> of_int ?n + 999 / 1000" by simp_all
  qed
  have "of_int ts \<le> (of_int 253402300799999 :: rat)" using assms by (simp only: of_int_le_iff)
  then have x: "0 \<le> ?x" "?x < pow2 38" using assms by (simp_all add: pow2_nat)
  have lo: "of_int ?n \<le> fl_snap ?x"
  proof -
    have "\<bar>?n\<bar> \<le> 2 ^ 53" using assms by auto
    then have "fl_snap (of_int ?n) = of_int ?n" by (intro fl_snap_double is_double_int)
    with fl_snap_mono [OF n(1)] show ?thesis by simp
  qed
  show hi: "fl_snap ?x - of_int ?n \<le> 999999 / 1000000"
    using fl_snap_error_small [OF x] n(2) by linarith
  show "\<lfloor>fl_snap ?x\<rfloor> = ?n" using lo hi by (intro floor_unique) linarith+
qed

lemma timeval_ms:
  assumes "0 \<le> ts" "ts \<le> 253402300799999"
  shows "\<exists>us. timeval_of_double (fl_snap (of_int ts / 1000)) = (ts div 1000, us)"
proof -
  let ?d = "fl_snap (of_int ts / 1000)"
  let ?r = "?d - of_int (ts div 1000)"
  have fl: "\<lfloor>?d\<rfloor> = ts div 1000" and r1: "?r \<le> 999999 / 1000000"
    using fl_snap_ms_second [OF assms] by blast+
  have pos: "0 \<le> ?d" using assms by (intro fl_snap_nonneg) simp
  then have tr: "trunc0 ?d = ts div 1000" by (simp add: trunc0_def fl)
  have r0: "0 \<le> ?r" using of_int_floor_le [of ?d] unfolding fl by linarith
  obtain y where y: "fl_round (?r * 1000000) = Fin y" "0 \<le> y" "y \<le> 999999"
  proof (rule fl_round_between)
    show "fl_round 0 = Fin (0 :: rat)" by simp
    show "fl_round 999999 = Fin (999999 :: rat)" using fl_round_int [of 999999] by simp
    show "0 \<le> ?r * 1000000" using r0 by simp
    show "?r * 1000000 \<le> 999999" using r1 by (simp add: le_divide_eq)
  qed (use that in blast)
  have "0 \<le> rne y" "rne y \<le> 999999"
    using rne_ge_int [of 0 y] rne_le_int [of y 999999] y by simp_all
  then show ?thesis unfolding timeval_of_double_def tr Let_def y(1) by simp
qed

lemma utc_day_eq:
  assumes "0 \<le> ts" "ts \<le> 253402300799999"
  shows "utc_day ts = Inr (ts div 86400000)"
proof -
  have f: "float_of_int ts = Inr (Fin (of_int ts))"
    using assms fl_round_int [of ts] by (simp add: float_of_int_def fl_fit_def)
  have b: "\<bar>fl_snap (of_int ts / 1000)\<bar> < pow2 1024"
  proof -
    have "of_int ts \<le> (of_int 253402300799999 :: rat)" using assms by (simp only: of_int_le_iff)
    then have x: "0 \<le> (of_int ts / 1000 :: rat)" "of_int ts / 1000 < pow2 38"
      using assms by (simp_all add: pow2_nat)
    have "pow2 38 + 1 < pow2 39" by (simp add: pow2_nat)
    also have "pow2 39 \<le> pow2 1024" by (rule pow2_mono) simp
    finally show ?thesis using fl_snap_error_small [OF x] x by linarith
  qed
  then have d: "fl_div (Fin (of_int ts)) (Fin 1000) = Inr (Fin (fl_snap (of_int ts / 1000)))"
    by (auto simp: fl_div_def fl_round_def Let_def)
  obtain us where tv: "timeval_of_double (fl_snap (of_int ts / 1000)) = (ts div 1000, us)"
    using timeval_ms [OF assms] by blast
  have "year_ok (ts div 1000)" using assms unfolding year_ok_def by linarith
  moreover have "ts div 1000 div 86400 = ts div 86400000" by simp
  ultimately show ?thesis by (simp add: utc_day_def f d tv)
qed

end
