(* ===== verification/Risk.thy ===== *)
theory Risk
  imports Policy PyTime
begin

text \<open>
  Realized-loss accounting of the dust-execution lane: the fill carrier and the accumulator of
  \<open>src/veridex/dust_execution/risk.py\<close>, the durable ledger of \<open>ledger.py\<close> over the
  append-only rows of \<open>src/veridex/store.py\<close>, and the manifest admission of
  \<open>manifest.py\<close>.
\<close>

section \<open>Realized fills (\<open>risk.py\<close>)\<close>

record realized_fill =
  rf_realized_pnl :: pyfloat
  rf_fee :: pyfloat
  rf_session_id :: string
  rf_fill_ts_ms :: int
  rf_source :: string

definition venue_source :: string where
  "venue_source = ''venue_reconciled''"

definition mk_realized_fill :: "pyfloat \<Rightarrow> pyfloat \<Rightarrow> string \<Rightarrow> int \<Rightarrow> string \<Rightarrow> realized_fill result" where
  "mk_realized_fill pnl fee sid ts src =
     (if \<not> isfinite pnl then Inl ValueError
      else if \<not> isfinite fee then Inl ValueError
      else if fl_lt fee fl_zero then Inl ValueError
      else if src \<noteq> venue_source then Inl FailClosed
      else Inr \<lparr>rf_realized_pnl = pnl, rf_fee = fee, rf_session_id = sid,
                rf_fill_ts_ms = ts, rf_source = src\<rparr>)"

definition net_pnl :: "realized_fill \<Rightarrow> pyfloat" where
  "net_pnl f = fl_sub (rf_realized_pnl f) (rf_fee f)"

definition fill_ok :: "realized_fill \<Rightarrow> bool" where
  "fill_ok f \<longleftrightarrow> isfinite (rf_realized_pnl f) \<and> isfinite (rf_fee f)
     \<and> fl_le fl_zero (rf_fee f) \<and> rf_source f = venue_source"

record paper_receipt =
  ppr_simulated_pnl :: pyfloat
  ppr_session_id :: string

text \<open>What a caller can hand to the accumulator: only the first kind is admissible.\<close>

datatype fill_arg = RealFill realized_fill | Paper paper_receipt

section \<open>The accumulator (\<open>risk.py\<close>)\<close>

record risk_accumulator =
  ra_session_id :: string
  ra_net_session :: pyfloat
  ra_net_day :: pyfloat
  ra_current_day :: "int option"

definition new_accumulator :: "string \<Rightarrow> risk_accumulator" where
  "new_accumulator sid = \<lparr>ra_session_id = sid, ra_net_session = fl_zero, ra_net_day = fl_zero,
                          ra_current_day = None\<rparr>"

definition seeded :: "string \<Rightarrow> pyfloat \<Rightarrow> pyfloat \<Rightarrow> int option \<Rightarrow> risk_accumulator result" where
  "seeded sid net_session net_day day =
     (if \<not> isfinite net_session then Inl FailClosed
      else if \<not> isfinite net_day then Inl FailClosed
      else Inr \<lparr>ra_session_id = sid, ra_net_session = net_session, ra_net_day = net_day,
                ra_current_day = day\<rparr>)"

definition roll_day :: "int \<Rightarrow> risk_accumulator \<Rightarrow> risk_accumulator" where
  "roll_day d acc =
     (case ra_current_day acc of
        None \<Rightarrow> acc\<lparr>ra_current_day := Some d, ra_net_day := fl_zero\<rparr>
      | Some c \<Rightarrow> (if c < d then acc\<lparr>ra_current_day := Some d, ra_net_day := fl_zero\<rparr> else acc))"

definition add_net :: "pyfloat \<Rightarrow> risk_accumulator \<Rightarrow> risk_accumulator" where
  "add_net net acc = acc\<lparr>ra_net_session := fl_add (ra_net_session acc) net,
                         ra_net_day := fl_add (ra_net_day acc) net\<rparr>"

definition apply_realized_fill :: "fill_arg \<Rightarrow> risk_accumulator \<Rightarrow> risk_accumulator result" where
  "apply_realized_fill arg acc =
     (case arg of
        Paper _ \<Rightarrow> Inl ValueError
      | RealFill f \<Rightarrow>
          if rf_session_id f \<noteq> ra_session_id acc then Inl FailClosed
          else rbind (utc_day (rf_fill_ts_ms f)) (\<lambda>d.
                 Inr (add_net (net_pnl f) (roll_day d acc))))"

definition realized_loss_session :: "risk_accumulator \<Rightarrow> pyfloat" where
  "realized_loss_session acc = py_max fl_zero (fl_neg (ra_net_session acc))"

definition realized_loss_day :: "risk_accumulator \<Rightarrow> pyfloat" where
  "realized_loss_day acc = py_max fl_zero (fl_neg (ra_net_day acc))"

definition breaches_caps :: "policy_envelope \<Rightarrow> risk_accumulator \<Rightarrow> bool" where
  "breaches_caps env acc \<longleftrightarrow>
     cap_breached (pe_max_session_loss env) (realized_loss_session acc)
     \<or> cap_breached (pe_max_daily_loss env) (realized_loss_day acc)"

definition authorize_mode_b :: "policy_envelope \<Rightarrow> unit result" where
  "authorize_mode_b env =
     (if \<not> isfinite (pe_max_session_loss env) \<or> fl_le (pe_max_session_loss env) fl_zero then Inl FailClosed
      else if \<not> isfinite (pe_max_daily_loss env) \<or> fl_le (pe_max_daily_loss env) fl_zero then Inl FailClosed
      else Inr ())"

fun apply_fills :: "realized_fill list \<Rightarrow> risk_accumulator \<Rightarrow> risk_accumulator result" where
  "apply_fills [] acc = Inr acc"
| "apply_fills (f # fs) acc = rbind (apply_realized_fill (RealFill f) acc) (apply_fills fs)"

section \<open>The append-only ledger (\<open>store.py\<close>, \<open>ledger.py\<close>)\<close>

record ledger_row =
  lr_seq :: int
  lr_session_id :: string
  lr_realized_pnl :: pyfloat
  lr_fee :: pyfloat
  lr_fill_ts_ms :: int
  lr_source :: string

record fill_store =
  fs_rows :: "ledger_row list"
  fs_seq :: int

definition empty_fill_store :: fill_store where
  "empty_fill_store = \<lparr>fs_rows = [], fs_seq = 0\<rparr>"

definition store_append_fill ::
  "string \<Rightarrow> pyfloat \<Rightarrow> pyfloat \<Rightarrow> int \<Rightarrow> string \<Rightarrow> fill_store \<Rightarrow> int \<times> fill_store" where
  "store_append_fill sid pnl fee ts src st =
     (let seq = fs_seq st + 1;
          row = \<lparr>lr_seq = seq, lr_session_id = sid, lr_realized_pnl = pnl, lr_fee = fee,
                 lr_fill_ts_ms = ts, lr_source = src\<rparr>
      in (seq, \<lparr>fs_rows = fs_rows st @ [row], fs_seq = seq\<rparr>))"

definition store_list_fills :: "string \<Rightarrow> fill_store \<Rightarrow> ledger_row list" where
  "store_list_fills sid st = filter (\<lambda>r. lr_session_id r = sid) (sort_key lr_seq (fs_rows st))"

definition append_fill :: "int \<Rightarrow> realized_fill \<Rightarrow> fill_store \<Rightarrow> (int \<times> fill_store) result" where
  "append_fill now_us f st =
     rbind (epoch_ms now_us) (\<lambda>now_ms.
       if now_ms < rf_fill_ts_ms f then Inl FailClosed
       else Inr (store_append_fill (rf_session_id f) (rf_realized_pnl f) (rf_fee f)
                   (rf_fill_ts_ms f) (rf_source f) st))"

fun reconstruct_loop :: "int \<Rightarrow> ledger_row list \<Rightarrow> pyfloat \<Rightarrow> pyfloat \<Rightarrow> (pyfloat \<times> pyfloat) result" where
  "reconstruct_loop today [] ns nd = Inr (ns, nd)"
| "reconstruct_loop today (r # rs) ns nd =
     rbind (mk_realized_fill (lr_realized_pnl r) (lr_fee r) (lr_session_id r)
              (lr_fill_ts_ms r) (lr_source r)) (\<lambda>rec.
     rbind (utc_day (lr_fill_ts_ms r)) (\<lambda>d.
       reconstruct_loop today rs (fl_add ns (net_pnl rec))
         (if d = today then fl_add nd (net_pnl rec) else nd)))"

definition reconstruct_risk :: "string \<Rightarrow> int \<Rightarrow> fill_store \<Rightarrow> risk_accumulator result" where
  "reconstruct_risk sid now_us st =
     (let today = today_of now_us in
      rbind (reconstruct_loop today (store_list_fills sid st) fl_zero fl_zero) (\<lambda>(ns, nd).
        seeded sid ns nd (Some today)))"

fun append_fills :: "(int \<times> realized_fill) list \<Rightarrow> fill_store \<Rightarrow> fill_store result" where
  "append_fills [] st = Inr st"
| "append_fills ((now, f) # fs) st =
     rbind (append_fill now f st) (\<lambda>(seq, st'). append_fills fs st')"

text \<open>The ledger seen as one list of fills per session, in sequence order.\<close>

definition fill_of_row :: "ledger_row \<Rightarrow> realized_fill" where
  "fill_of_row r = \<lparr>rf_realized_pnl = lr_realized_pnl r, rf_fee = lr_fee r,
     rf_session_id = lr_session_id r, rf_fill_ts_ms = lr_fill_ts_ms r, rf_source = lr_source r\<rparr>"

definition ledger_fills :: "fill_store \<Rightarrow> string \<Rightarrow> realized_fill list" where
  "ledger_fills st sid = map fill_of_row (store_list_fills sid st)"

definition ledger_append1 :: "string \<Rightarrow> realized_fill \<Rightarrow> fill_store \<Rightarrow> fill_store" where
  "ledger_append1 sid f st =
     snd (store_append_fill sid (rf_realized_pnl f) (rf_fee f) (rf_fill_ts_ms f) (rf_source f) st)"

definition ledger_append :: "string \<Rightarrow> realized_fill list \<Rightarrow> fill_store \<Rightarrow> fill_store" where
  "ledger_append sid fs st = foldl (\<lambda>st f. ledger_append1 sid f st) st fs"

definition store_inv :: "fill_store \<Rightarrow> bool" where
  "store_inv st \<longleftrightarrow> sorted (map lr_seq (fs_rows st)) \<and> (\<forall>r \<in> set (fs_rows st). lr_seq r \<le> fs_seq st)"

section \<open>Manifest admission (\<open>manifest.py\<close>)\<close>

datatype evidence_class = EXPERIMENTAL_DUST | EVIDENCE_GATED | PROMOTED
datatype execution_mode = dry_run | live_guarded

record strategy_manifest =
  sm_strategy_id :: string
  sm_strategy_config_hash :: string
  sm_evidence_class :: evidence_class
  sm_market :: string
  sm_universe :: "string list"
  sm_mode :: execution_mode
  sm_max_orders :: int
  sm_max_notional :: pyfloat
  sm_max_session_loss :: pyfloat
  sm_max_daily_loss :: pyfloat
  sm_session_window :: "int \<times> int"
  sm_required_inputs :: "string list"
  sm_permitted_intent_kinds :: "string list"
  sm_market_fee_snapshot_hash :: string
  sm_execution_wallet_binding_hash :: "string option"
  sm_operator_authorization :: string
  sm_forbidden_claims :: "string list"

record session_snapshot =
  ss_session_id :: string
  ss_realized_loss_session :: pyfloat
  ss_realized_loss_daily :: pyfloat
  ss_open_order_count :: int
  ss_breaker_open :: bool
  ss_kill_switch_engaged :: bool

datatype admission_verdict = ALLOW | DENY
datatype admission_reason =
  missing_manifest | kill_switch_engaged | breaker_open | session_loss_cap | daily_loss_cap

record admission_decision =
  ad_verdict :: admission_verdict
  ad_reason_codes :: "admission_reason list"
  ad_manifest_hash :: "string option"
  ad_policy_hash :: string
  ad_session_id :: string

definition admission_reasons :: "strategy_manifest \<Rightarrow> session_snapshot \<Rightarrow> admission_reason list" where
  "admission_reasons m s =
     flag (ss_kill_switch_engaged s) kill_switch_engaged
   @ flag (ss_breaker_open s) breaker_open
   @ flag (cap_breached (sm_max_session_loss m) (ss_realized_loss_session s)) session_loss_cap
   @ flag (cap_breached (sm_max_daily_loss m) (ss_realized_loss_daily s)) daily_loss_cap"

definition authorization_evaluate ::
  "(strategy_manifest \<Rightarrow> string) \<Rightarrow> strategy_manifest option \<Rightarrow> string \<Rightarrow> session_snapshot \<Rightarrow> admission_decision" where
  "authorization_evaluate manifest_hash mo policy_hash s =
     (case mo of
        None \<Rightarrow> \<lparr>ad_verdict = DENY, ad_reason_codes = [missing_manifest], ad_manifest_hash = None,
                 ad_policy_hash = policy_hash, ad_session_id = ss_session_id s\<rparr>
      | Some m \<Rightarrow>
          (let rs = admission_reasons m s in
           \<lparr>ad_verdict = (if rs \<noteq> [] then DENY else ALLOW), ad_reason_codes = rs,
            ad_manifest_hash = Some (manifest_hash m), ad_policy_hash = policy_hash,
            ad_session_id = ss_session_id s\<rparr>))"

section \<open>The per-session ledger contract\<close>

text \<open>
  Two stores keep realized fills: the durable rows above and the session-state provider. Both
  promise the same to the loss caps: a session's fills are only ever appended to, and appending
  for one session leaves every other session alone.
\<close>

lemma fill_ok_iff:
  "mk_realized_fill (rf_realized_pnl f) (rf_fee f) (rf_session_id f) (rf_fill_ts_ms f) (rf_source f) = Inr f
   \<longleftrightarrow> fill_ok f"
  by (cases f) (auto simp: mk_realized_fill_def fill_ok_def isfinite_iff not_less)

lemma mk_realized_fill_ok: "mk_realized_fill pnl fee sid ts src = Inr f \<Longrightarrow> fill_ok f"
  by (auto simp: mk_realized_fill_def fill_ok_def isfinite_iff not_less split: if_splits)

lemma net_pnl_not_NaN: "fill_ok f \<Longrightarrow> net_pnl f \<noteq> NaN"
  by (auto simp: fill_ok_def net_pnl_def fl_sub_def isfinite_iff)

locale session_ledger =
  fixes invar :: "'st \<Rightarrow> bool"
    and admissible :: "string \<Rightarrow> realized_fill \<Rightarrow> bool"
    and fills_of :: "'st \<Rightarrow> string \<Rightarrow> realized_fill list"
    and append :: "string \<Rightarrow> realized_fill list \<Rightarrow> 'st \<Rightarrow> 'st"
  assumes fills_append:
      "invar st \<Longrightarrow> list_all (admissible sid) fs \<Longrightarrow>
       fills_of (append sid fs st) s = (if s = sid then fills_of st s @ fs else fills_of st s)"
    and invar_append: "invar st \<Longrightarrow> list_all (admissible sid) fs \<Longrightarrow> invar (append sid fs st)"
begin

definition session_net :: "'st \<Rightarrow> string \<Rightarrow> pyfloat" where
  "session_net st sid = fl_sum (map net_pnl (fills_of st sid))"

definition session_loss :: "'st \<Rightarrow> string \<Rightarrow> pyfloat" where
  "session_loss st sid = py_max fl_zero (fl_neg (session_net st sid))"

lemma other_sessions_unchanged:
  "invar st \<Longrightarrow> list_all (admissible sid) fs \<Longrightarrow> s \<noteq> sid \<Longrightarrow>
   session_net (append sid fs st) s = session_net st s"
  by (simp add: session_net_def fills_append)

lemma net_after_append:
  "invar st \<Longrightarrow> list_all (admissible sid) fs \<Longrightarrow>
   session_net (append sid fs st) sid = foldl fl_add (session_net st sid) (map net_pnl fs)"
  by (simp add: session_net_def fills_append fl_sum_append)

lemma losing_fills_keep_the_loss:
  assumes "invar st" and "list_all (admissible sid) fs" and "session_net st sid \<noteq> NaN"
    and "\<forall>f \<in> set fs. isfinite (net_pnl f) \<and> fl_le (net_pnl f) fl_zero"
  shows "fl_le (session_loss st sid) (session_loss (append sid fs st) sid)"
proof -
  have "fl_settled (session_net st sid)" by (simp add: session_net_def)
  then have "fl_le (session_net (append sid fs st) sid) (session_net st sid)"
    using foldl_fl_add_nonpos_le [of "session_net st sid" "map net_pnl fs"] assms
    by (simp add: net_after_append)
  then show ?thesis by (simp add: session_loss_def py_max_mono fl_le_neg_iff)
qed

end

section \<open>The durable ledger implements the contract\<close>

lemma store_append_fill_rows:
  "fs_rows (snd (store_append_fill sid pnl fee ts src st)) = fs_rows st @
     [\<lparr>lr_seq = fs_seq st + 1, lr_session_id = sid, lr_realized_pnl = pnl, lr_fee = fee,
       lr_fill_ts_ms = ts, lr_source = src\<rparr>]"
  "fs_seq (snd (store_append_fill sid pnl fee ts src st)) = fs_seq st + 1"
  by (simp_all add: store_append_fill_def Let_def)

lemma store_inv_append: "store_inv st \<Longrightarrow> store_inv (snd (store_append_fill sid pnl fee ts src st))"
  by (fastforce simp: store_inv_def store_append_fill_rows sorted_append)

lemma store_list_fills_inv:
  "store_inv st \<Longrightarrow> store_list_fills sid st = filter (\<lambda>r. lr_session_id r = sid) (fs_rows st)"
  by (simp add: store_list_fills_def store_inv_def sort_key_id_if_sorted)

lemma ledger_fills_append1:
  assumes "store_inv st" and "rf_session_id f = sid"
  shows "ledger_fills (ledger_append1 sid f st) s =
    (if s = sid then ledger_fills st s @ [f] else ledger_fills st s)"
  using assms
  by (simp add: ledger_fills_def ledger_append1_def store_list_fills_inv store_inv_append
        store_append_fill_rows fill_of_row_def)

lemma store_inv_ledger_append1: "store_inv st \<Longrightarrow> store_inv (ledger_append1 sid f st)"
  by (simp add: ledger_append1_def store_inv_append)

lemma store_inv_ledger_append: "store_inv st \<Longrightarrow> store_inv (ledger_append sid fs st)"
  by (induction fs arbitrary: st) (auto simp: ledger_append_def store_inv_ledger_append1)

lemma ledger_fills_append:
  assumes "store_inv st" and "list_all (\<lambda>f. rf_session_id f = sid) fs"
  shows "ledger_fills (ledger_append sid fs st) s =
    (if s = sid then ledger_fills st s @ fs else ledger_fills st s)"
  using assms
proof (induction fs arbitrary: st)
  case (Cons f fs)
  then show ?case
    using Cons.IH [of "ledger_append1 sid f st"]
    by (auto simp: ledger_append_def ledger_fills_append1 store_inv_ledger_append1)
qed (simp add: ledger_append_def)

interpretation ledger: session_ledger store_inv "\<lambda>sid f. rf_session_id f = sid" ledger_fills ledger_append
  by unfold_locales (auto simp: ledger_fills_append store_inv_ledger_append)

section \<open>Restart: the ledger reconstructs the loss\<close>

text \<open>Fills dated in a representable year, so that their UTC day exists.\<close>

definition dated :: "realized_fill \<Rightarrow> bool" where
  "dated f \<longleftrightarrow> (\<exists>d. utc_day (rf_fill_ts_ms f) = Inr d)"

definition day_fills :: "int \<Rightarrow> realized_fill list \<Rightarrow> realized_fill list" where
  "day_fills d fs = filter (\<lambda>f. utc_day (rf_fill_ts_ms f) = Inr d) fs"

lemma dated_range: "0 \<le> rf_fill_ts_ms f \<Longrightarrow> rf_fill_ts_ms f \<le> 253402300799999 \<Longrightarrow> dated f"
  by (simp add: dated_def utc_day_eq)

lemma reconstruct_loop_fills:
  assumes "\<forall>r \<in> set rows. fill_ok (fill_of_row r) \<and> dated (fill_of_row r)"
  shows "reconstruct_loop today rows ns nd =
    Inr (foldl fl_add ns (map (net_pnl \<circ> fill_of_row) rows),
         foldl fl_add nd (map net_pnl (day_fills today (map fill_of_row rows))))"
  using assms
proof (induction rows arbitrary: ns nd)
  case (Cons r rows)
  then obtain d where d: "utc_day (lr_fill_ts_ms r) = Inr d"
    by (auto simp: dated_def fill_of_row_def)
  have mk: "mk_realized_fill (lr_realized_pnl r) (lr_fee r) (lr_session_id r) (lr_fill_ts_ms r) (lr_source r)
      = Inr (fill_of_row r)"
    using Cons.prems fill_ok_iff [of "fill_of_row r"] by (simp add: fill_of_row_def)
  show ?case
    using Cons.prems by (simp add: mk d Cons.IH day_fills_def) (simp add: fill_of_row_def d)
qed (simp add: day_fills_def)

lemma reconstruct_risk_eq:
  assumes "list_all fill_ok (ledger_fills st sid)" and "list_all dated (ledger_fills st sid)"
  shows "reconstruct_risk sid now st =
    seeded sid (fl_sum (map net_pnl (ledger_fills st sid)))
      (fl_sum (map net_pnl (day_fills (today_of now) (ledger_fills st sid)))) (Some (today_of now))"
  using assms reconstruct_loop_fills [of "store_list_fills sid st"]
  by (simp add: reconstruct_risk_def Let_def list_all_iff ledger_fills_def fl_sum_def comp_def)

lemma append_fill_eq:
  "append_fill now f st = Inr (q, st') \<Longrightarrow> st' = ledger_append1 (rf_session_id f) f st"
  by (auto simp: append_fill_def ledger_append1_def rbind_Inr_iff split: if_splits)

lemma append_fills_ledger:
  assumes "append_fills nfs st = Inr st'" and "store_inv st"
  shows "store_inv st' \<and> ledger_fills st' sid =
    ledger_fills st sid @ filter (\<lambda>f. rf_session_id f = sid) (map snd nfs)"
  using assms
proof (induction nfs st rule: append_fills.induct)
  case (2 now f fs st)
  then obtain q st1 where a: "append_fill now f st = Inr (q, st1)" and r: "append_fills fs st1 = Inr st'"
    by (auto simp: rbind_Inr_iff)
  have st1: "st1 = ledger_append1 (rf_session_id f) f st" using a by (rule append_fill_eq)
  then have "store_inv st1" using "2.prems" by (simp add: store_inv_ledger_append1)
  with "2.IH" [OF r] show ?case
    using "2.prems" by (simp add: st1 ledger_fills_append1)
qed simp

lemma store_inv_empty [simp]: "store_inv empty_fill_store"
  by (simp add: store_inv_def empty_fill_store_def)

lemma ledger_fills_empty [simp]: "ledger_fills empty_fill_store sid = []"
  by (simp add: ledger_fills_def store_list_fills_def empty_fill_store_def)

text \<open>
  C4: restart safety of the realized-loss caps: after any sequence of appends to an empty durable
  ledger, interleaving sessions as they come, reconstruction for a session yields exactly the
  fee-inclusive sum over that session's own fills (in append order) and, for the day, the sum
  over those fills whose UTC day is today, whatever their order. It fails closed when such a sum
  is not finite.
\<close>

theorem reconstruct_after_appends:
  assumes "append_fills nfs empty_fill_store = Inr st"
    and "\<forall>f \<in> snd ` set nfs. fill_ok f \<and> dated f"
  shows "reconstruct_risk sid now st =
    (let mine = filter (\<lambda>f. rf_session_id f = sid) (map snd nfs);
         ns = fl_sum (map net_pnl mine);
         nd = fl_sum (map net_pnl (day_fills (today_of now) mine))
     in if isfinite ns \<and> isfinite nd
        then Inr \<lparr>ra_session_id = sid, ra_net_session = ns, ra_net_day = nd,
                  ra_current_day = Some (today_of now)\<rparr>
        else Inl FailClosed)"
proof -
  have fills: "ledger_fills st sid = filter (\<lambda>f. rf_session_id f = sid) (map snd nfs)"
    using append_fills_ledger [OF assms(1)] by simp
  then have "list_all fill_ok (ledger_fills st sid)" "list_all dated (ledger_fills st sid)"
    using assms(2) by (auto simp: list_all_iff)
  then show ?thesis
    by (simp add: reconstruct_risk_eq fills Let_def seeded_def)
qed

definition demo_fill :: "int \<Rightarrow> realized_fill" where
  "demo_fill loss = \<lparr>rf_realized_pnl = Fin (- of_int loss), rf_fee = Fin 1, rf_session_id = ''s'',
     rf_fill_ts_ms = 1000, rf_source = venue_source\<rparr>"

lemma demo_fill_ok: "fill_ok (demo_fill n)" "dated (demo_fill n)" "rf_session_id (demo_fill n) = ''s''"
  by (simp_all add: fill_ok_def demo_fill_def dated_range)

lemma demo_fill_day: "utc_day (rf_fill_ts_ms (demo_fill n)) = Inr 0"
  by (simp add: demo_fill_def utc_day_eq)

lemma demo_append:
  "append_fill 5000000 (demo_fill n) st = Inr (fs_seq st + 1, ledger_append1 ''s'' (demo_fill n) st)"
  by (simp add: append_fill_def epoch_ms_def int_truediv_def fl_fit_def trunc0_def ledger_append1_def
        store_append_fill_def demo_fill_def Let_def)

theorem reconstruct_after_appends_witness:
  "\<exists>st. append_fills [(5000000, demo_fill 5), (5000000, demo_fill 2)] empty_fill_store = Inr st
     \<and> reconstruct_risk ''s'' 5000000 st =
        Inr \<lparr>ra_session_id = ''s'', ra_net_session = Fin (- 9), ra_net_day = Fin (- 9), ra_current_day = Some 0\<rparr>"
proof -
  let ?nfs = "[(5000000, demo_fill 5), (5000000, demo_fill 2)]"
  obtain st where st: "append_fills ?nfs empty_fill_store = Inr st"
    by (simp add: demo_append)
  have "reconstruct_risk ''s'' 5000000 st =
      Inr \<lparr>ra_session_id = ''s'', ra_net_session = Fin (- 9), ra_net_day = Fin (- 9), ra_current_day = Some 0\<rparr>"
    using reconstruct_after_appends [OF st, of "''s''" 5000000]
    by (simp add: demo_fill_ok demo_fill_day day_fills_def today_of_def Let_def)
       (simp add: demo_fill_def net_pnl_def fl_sub_def fl_sum_def)
  with st show ?thesis by blast
qed

section \<open>Live accumulation and restart agree\<close>

definition fill_day :: "realized_fill \<Rightarrow> int" where
  "fill_day f = (case utc_day (rf_fill_ts_ms f) of Inr d \<Rightarrow> d | Inl _ \<Rightarrow> 0)"

lemma dated_day: "dated f \<Longrightarrow> utc_day (rf_fill_ts_ms f) = Inr (fill_day f)"
  by (auto simp: dated_def fill_day_def)

lemma day_fills_by_day: "\<forall>f \<in> set fs. dated f \<Longrightarrow> day_fills d fs = filter (\<lambda>f. fill_day f = d) fs"
  by (auto simp: day_fills_def dated_day intro: filter_cong)

lemma apply_realized_fill_real:
  assumes "rf_session_id f = ra_session_id acc" and "dated f"
  shows "apply_realized_fill (RealFill f) acc = Inr (add_net (net_pnl f) (roll_day (fill_day f) acc))"
  using assms by (simp add: apply_realized_fill_def dated_day)

lemma apply_fills_append:
  "apply_fills (fs @ gs) acc = rbind (apply_fills fs acc) (apply_fills gs)"
proof (induction fs arbitrary: acc)
  case (Cons f fs)
  then show ?case by (cases "apply_realized_fill (RealFill f) acc") auto
qed simp

lemma apply_fills_in_day_order:
  assumes "fs \<noteq> []" and "\<forall>f \<in> set fs. dated f \<and> rf_session_id f = sid"
    and "sorted (map fill_day fs)"
  shows "apply_fills fs (new_accumulator sid) = Inr
    \<lparr>ra_session_id = sid, ra_net_session = fl_sum (map net_pnl fs),
     ra_net_day = fl_sum (map net_pnl (filter (\<lambda>f. fill_day f = fill_day (last fs)) fs)),
     ra_current_day = Some (fill_day (last fs))\<rparr>"
  using assms
proof (induction fs rule: rev_induct)
  case (snoc f fs)
  show ?case
  proof (cases "fs = []")
    case True
    with snoc.prems show ?thesis
      by (simp add: apply_realized_fill_real new_accumulator_def roll_day_def add_net_def fl_sum_def)
  next
    case False
    let ?acc = "\<lparr>ra_session_id = sid, ra_net_session = fl_sum (map net_pnl fs),
      ra_net_day = fl_sum (map net_pnl (filter (\<lambda>f. fill_day f = fill_day (last fs)) fs)),
      ra_current_day = Some (fill_day (last fs))\<rparr>"
    have "apply_fills fs (new_accumulator sid) = Inr ?acc"
      using snoc.prems False by (intro snoc.IH) (auto simp: sorted_append)
    moreover have later: "\<forall>g \<in> set fs. fill_day g \<le> fill_day (last fs)"
      using snoc.prems by (auto simp: sorted_append intro: sorted_le_last)
    moreover have le: "fill_day (last fs) \<le> fill_day f"
      using snoc.prems False by (auto simp: sorted_append)
    moreover have "filter (\<lambda>g. fill_day g = fill_day f) fs = []" if "fill_day (last fs) < fill_day f"
      using later that by (auto simp: filter_empty_conv)
    ultimately show ?thesis
      using snoc.prems
      by (auto simp: apply_fills_append apply_realized_fill_real roll_day_def add_net_def fl_sum_append)
         (simp_all add: fl_sum_def)
  qed
qed simp

text \<open>
  The live accumulator and the restart path agree: when a session's fills arrive in UTC-day
  order and the last of them is dated today, folding them one by one into a fresh accumulator
  gives the very accumulator that reconstruction from the durable ledger returns.
\<close>

theorem live_accumulation_agrees_with_restart:
  assumes "append_fills nfs empty_fill_store = Inr st" and "nfs \<noteq> []"
    and "\<forall>f \<in> snd ` set nfs. fill_ok f \<and> dated f \<and> rf_session_id f = sid"
    and "sorted (map (fill_day \<circ> snd) nfs)" and "fill_day (snd (last nfs)) = today_of now"
    and "apply_fills (map snd nfs) (new_accumulator sid) = Inr acc"
    and "isfinite (ra_net_session acc)" and "isfinite (ra_net_day acc)"
  shows "reconstruct_risk sid now st = Inr acc"
proof -
  let ?fs = "map snd nfs"
  have dated: "\<forall>f \<in> set ?fs. dated f" using assms(3) by auto
  have acc: "acc = \<lparr>ra_session_id = sid, ra_net_session = fl_sum (map net_pnl ?fs),
     ra_net_day = fl_sum (map net_pnl (filter (\<lambda>f. fill_day f = today_of now) ?fs)),
     ra_current_day = Some (today_of now)\<rparr>"
    using apply_fills_in_day_order [of ?fs sid] assms by (auto simp: last_map)
  have mine: "filter (\<lambda>f. rf_session_id f = sid) ?fs = ?fs"
    using assms(3) by (intro filter_True) auto
  have fills: "ledger_fills st sid = ?fs"
    using append_fills_ledger [OF assms(1)] mine by simp
  have "list_all fill_ok ?fs" "list_all dated ?fs" using assms(3) by (auto simp: list_all_iff)
  then show ?thesis
    using assms(7,8) by (simp add: reconstruct_risk_eq fills day_fills_by_day [OF dated] acc seeded_def)
qed

theorem live_accumulation_agrees_with_restart_witness:
  "\<exists>st. append_fills [(5000000, demo_fill 5), (5000000, demo_fill 2)] empty_fill_store = Inr st
     \<and> apply_fills [demo_fill 5, demo_fill 2] (new_accumulator ''s'') = reconstruct_risk ''s'' 5000000 st"
proof -
  let ?nfs = "[(5000000, demo_fill 5), (5000000, demo_fill 2)]"
  obtain st where st: "append_fills ?nfs empty_fill_store = Inr st"
    by (simp add: demo_append)
  have day: "fill_day (demo_fill n) = 0" for n by (simp add: fill_day_def demo_fill_day)
  let ?acc = "\<lparr>ra_session_id = ''s'', ra_net_session = Fin (- 9), ra_net_day = Fin (- 9), ra_current_day = Some 0\<rparr>"
  have "apply_fills (map snd ?nfs) (new_accumulator ''s'') = Inr ?acc"
    using apply_fills_in_day_order [of "map snd ?nfs" "''s''"]
    by (simp add: demo_fill_ok day) (simp add: demo_fill_def net_pnl_def fl_sub_def fl_sum_def)
  with live_accumulation_agrees_with_restart [OF st, of "''s''" 5000000 ?acc]
  have "apply_fills [demo_fill 5, demo_fill 2] (new_accumulator ''s'') = reconstruct_risk ''s'' 5000000 st"
    by (simp add: demo_fill_ok day today_of_def)
  with st show ?thesis by blast
qed

section \<open>Loss magnitudes and the loss surfaces\<close>

lemma realized_loss_nonneg:
  "fl_le fl_zero (realized_loss_session acc)" "fl_le fl_zero (realized_loss_day acc)"
  "realized_loss_session acc \<noteq> NaN" "realized_loss_day acc \<noteq> NaN"
  by (simp_all add: realized_loss_session_def realized_loss_day_def py_max_ge_first py_max_not_NaN)

interpretation accumulator_surface: loss_cap_surface
  "\<lambda>env ls ld. cap_breached (pe_max_session_loss env) ls \<or> cap_breached (pe_max_daily_loss env) ld"
  pe_max_session_loss pe_max_daily_loss
  by unfold_locales auto

interpretation admission: loss_cap_surface
  "\<lambda>m ls ld. ad_verdict (authorization_evaluate mh (Some m) ph
      (s\<lparr>ss_realized_loss_session := ls, ss_realized_loss_daily := ld\<rparr>)) = DENY"
  sm_max_session_loss sm_max_daily_loss
  for mh ph s
  by unfold_locales (simp_all add: authorization_evaluate_def admission_reasons_def Let_def)

text \<open>
  A paper receipt never moves the accumulator (it raises), nor does a fill of another
  session (fail closed); an accepted fill adds its fee-inclusive net to the session, keeps the
  session identity, and starts the day's total afresh exactly when it is dated on a later UTC day.
\<close>

theorem apply_realized_fill_cases:
  "apply_realized_fill (Paper r) acc = Inl ValueError
   \<and> (rf_session_id f \<noteq> ra_session_id acc \<longrightarrow> apply_realized_fill (RealFill f) acc = Inl FailClosed)
   \<and> (\<forall>acc' d. apply_realized_fill (RealFill f) acc = Inr acc' \<and> utc_day (rf_fill_ts_ms f) = Inr d \<longrightarrow>
        ra_session_id acc' = ra_session_id acc
      \<and> ra_net_session acc' = fl_add (ra_net_session acc) (net_pnl f)
      \<and> ra_net_day acc' =
          fl_add (if ra_current_day acc = None \<or> the (ra_current_day acc) < d then fl_zero else ra_net_day acc)
                 (net_pnl f))"
  by (cases "ra_current_day acc"; cases "utc_day (rf_fill_ts_ms f)")
     (auto simp: apply_realized_fill_def add_net_def roll_day_def)

theorem apply_realized_fill_cases_witness:
  "apply_realized_fill (Paper \<lparr>ppr_simulated_pnl = Fin (- 100), ppr_session_id = ''s''\<rparr>) (new_accumulator ''s'')
     = Inl ValueError
   \<and> apply_realized_fill (RealFill (demo_fill 5)) (new_accumulator ''t'') = Inl FailClosed
   \<and> (\<exists>acc. apply_realized_fill (RealFill (demo_fill 5)) (new_accumulator ''s'') = Inr acc
        \<and> ra_net_day acc = Fin (- 6))"
proof -
  let ?r = "\<lparr>ppr_simulated_pnl = Fin (- 100), ppr_session_id = ''s''\<rparr>"
  obtain acc where acc: "apply_realized_fill (RealFill (demo_fill 5)) (new_accumulator ''s'') = Inr acc"
    by (simp add: apply_realized_fill_def new_accumulator_def demo_fill_ok demo_fill_day)
  have "net_pnl (demo_fill 5) = Fin (- 6)" by (simp add: demo_fill_def net_pnl_def fl_sub_def)
  with acc apply_realized_fill_cases [of ?r "new_accumulator ''s''" "demo_fill 5"]
    apply_realized_fill_cases [of ?r "new_accumulator ''t''" "demo_fill 5"]
  show ?thesis
    by (auto simp: demo_fill_ok demo_fill_day new_accumulator_def)
qed

text \<open>
  The three loss surfaces share one boundary: an accumulator breaches its caps exactly when
  the pre-quote gate, fed with its losses, reports a loss reason, and, for a manifest with the
  same caps, exactly when admission reports a loss cap; in both cases the verdict is a denial.
\<close>

theorem loss_surfaces_agree:
  assumes "sm_max_session_loss m = pe_max_session_loss env" and "sm_max_daily_loss m = pe_max_daily_loss env"
  shows "(let pre = evaluate_pre_quote ph (ctx\<lparr>pq_realized_loss_session := realized_loss_session acc,
                      pq_realized_loss_day := realized_loss_day acc\<rparr>) env;
              adm = authorization_evaluate mh (Some m) h
                      (s\<lparr>ss_realized_loss_session := realized_loss_session acc,
                         ss_realized_loss_daily := realized_loss_day acc\<rparr>)
          in (breaches_caps env acc \<longleftrightarrow>
                session_loss_over_max \<in> set (pr_reason_codes pre) \<or> daily_loss_over_max \<in> set (pr_reason_codes pre))
           \<and> (breaches_caps env acc \<longleftrightarrow>
                session_loss_cap \<in> set (ad_reason_codes adm) \<or> daily_loss_cap \<in> set (ad_reason_codes adm))
           \<and> (breaches_caps env acc \<longrightarrow> pr_decision pre = DENIED \<and> ad_verdict adm = DENY))"
proof -
  have "pr_decision (evaluate_pre_quote ph (ctx\<lparr>pq_realized_loss_session := realized_loss_session acc,
          pq_realized_loss_day := realized_loss_day acc\<rparr>) env) = DENIED
     \<and> ad_verdict (authorization_evaluate mh (Some m) h
          (s\<lparr>ss_realized_loss_session := realized_loss_session acc,
             ss_realized_loss_daily := realized_loss_day acc\<rparr>)) = DENY" if "breaches_caps env acc"
    using that assms pre_gate.session_breach_halts pre_gate.daily_breach_halts
      admission.session_breach_halts [of m] admission.daily_breach_halts [of m]
    unfolding breaches_caps_def by metis
  moreover have "breaches_caps env acc \<longleftrightarrow>
      session_loss_over_max \<in> set (pre_quote_reasons (ctx\<lparr>pq_realized_loss_session := realized_loss_session acc,
          pq_realized_loss_day := realized_loss_day acc\<rparr>) env)
    \<or> daily_loss_over_max \<in> set (pre_quote_reasons (ctx\<lparr>pq_realized_loss_session := realized_loss_session acc,
          pq_realized_loss_day := realized_loss_day acc\<rparr>) env)"
    by (simp add: pre_quote_reasons_def breaches_caps_def)
  moreover have "breaches_caps env acc \<longleftrightarrow>
      session_loss_cap \<in> set (admission_reasons m (s\<lparr>ss_realized_loss_session := realized_loss_session acc,
             ss_realized_loss_daily := realized_loss_day acc\<rparr>))
    \<or> daily_loss_cap \<in> set (admission_reasons m (s\<lparr>ss_realized_loss_session := realized_loss_session acc,
             ss_realized_loss_daily := realized_loss_day acc\<rparr>))"
    using assms by (simp add: admission_reasons_def breaches_caps_def)
  ultimately show ?thesis
    by (simp add: evaluate_pre_quote_def authorization_evaluate_def Let_def)
qed

definition demo_manifest :: strategy_manifest where
  "demo_manifest = \<lparr>sm_strategy_id = ''mm'', sm_strategy_config_hash = ''h'', sm_evidence_class = EXPERIMENTAL_DUST,
     sm_market = ''1x2'', sm_universe = [''tok''], sm_mode = live_guarded, sm_max_orders = 3,
     sm_max_notional = Fin 5, sm_max_session_loss = Fin 20, sm_max_daily_loss = Fin 30,
     sm_session_window = (0, 10), sm_required_inputs = [], sm_permitted_intent_kinds = [],
     sm_market_fee_snapshot_hash = ''f'', sm_execution_wallet_binding_hash = None,
     sm_operator_authorization = ''op'', sm_forbidden_claims = []\<rparr>"

definition demo_snapshot :: session_snapshot where
  "demo_snapshot = \<lparr>ss_session_id = ''s'', ss_realized_loss_session = fl_zero, ss_realized_loss_daily = fl_zero,
     ss_open_order_count = 0, ss_breaker_open = False, ss_kill_switch_engaged = False\<rparr>"

theorem loss_surfaces_agree_witness:
  "ad_verdict (authorization_evaluate (\<lambda>_. []) (Some demo_manifest) []
     (demo_snapshot\<lparr>ss_realized_loss_session := Fin 21, ss_realized_loss_daily := fl_zero\<rparr>)) = DENY"
proof -
  let ?acc = "(new_accumulator ''s'')\<lparr>ra_net_session := Fin (- 21)\<rparr>"
  have "realized_loss_session ?acc = Fin 21" "realized_loss_day ?acc = fl_zero"
    by (simp_all add: realized_loss_session_def realized_loss_day_def new_accumulator_def py_max_def)
  moreover from this have "breaches_caps demo_env ?acc"
    by (simp add: breaches_caps_def cap_breached_def demo_env_def)
  ultimately show ?thesis
    using loss_surfaces_agree [where m = demo_manifest and env = demo_env and acc = ?acc
        and s = demo_snapshot and mh = "\<lambda>_. []" and h = "[]"]
    by (simp add: Let_def demo_env_def demo_manifest_def)
qed

text \<open>
  Mode B arms only with real loss protection: \<open>authorize_mode_b\<close> succeeds exactly when
  both caps are finite and positive, and then any accumulator whose session loss or day loss has
  reached its cap is in breach.
\<close>

theorem authorize_mode_b_iff:
  "(authorize_mode_b env = Inr () \<longleftrightarrow>
      (\<exists>a b. pe_max_session_loss env = Fin a \<and> 0 < a \<and> pe_max_daily_loss env = Fin b \<and> 0 < b))
   \<and> (authorize_mode_b env = Inr () \<and> (fl_le (pe_max_session_loss env) (realized_loss_session acc)
        \<or> fl_le (pe_max_daily_loss env) (realized_loss_day acc)) \<longrightarrow> breaches_caps env acc)"
  by (cases "pe_max_session_loss env"; cases "pe_max_daily_loss env")
     (auto simp: authorize_mode_b_def breaches_caps_def cap_breached_def)

theorem authorize_mode_b_iff_witness:
  "authorize_mode_b demo_env = Inr ()
   \<and> breaches_caps demo_env ((new_accumulator ''s'')\<lparr>ra_net_session := Fin (- 20)\<rparr>)"
  using authorize_mode_b_iff [of demo_env "(new_accumulator ''s'')\<lparr>ra_net_session := Fin (- 20)\<rparr>"]
  by (simp add: demo_env_def realized_loss_session_def py_max_def)

text \<open>
  A durable loss does not evaporate: once a session's ledger loss has reached a cap, appending
  further losing fills for that session, or any fills for other sessions, keeps it at the cap.
\<close>

theorem ledger_breach_persists:
  assumes "store_inv st" and "list_all (\<lambda>f. rf_session_id f = sid) fs"
    and "fl_sum (map net_pnl (ledger_fills st s)) \<noteq> NaN"
    and "s = sid \<longrightarrow> (\<forall>f \<in> set fs. isfinite (net_pnl f) \<and> fl_le (net_pnl f) fl_zero)"
    and "cap_breached cap (py_max fl_zero (fl_neg (fl_sum (map net_pnl (ledger_fills st s)))))"
  shows "cap_breached cap (py_max fl_zero (fl_neg (fl_sum (map net_pnl (ledger_fills (ledger_append sid fs st) s)))))"
proof (cases "s = sid")
  case True
  have "fl_le (ledger.session_loss st sid) (ledger.session_loss (ledger_append sid fs st) sid)"
    by (rule ledger.losing_fills_keep_the_loss) (use assms True in \<open>auto simp: ledger.session_net_def\<close>)
  with assms(5) True show ?thesis
    by (auto simp: ledger.session_loss_def ledger.session_net_def intro: cap_breached_mono)
next
  case False
  with assms ledger.other_sessions_unchanged [of st sid fs s] show ?thesis
    by (simp add: ledger.session_net_def)
qed

theorem ledger_breach_persists_witness:
  "cap_breached (Fin 5) (py_max fl_zero (fl_neg (fl_sum (map net_pnl
     (ledger_fills (ledger_append ''s'' [demo_fill 2] (ledger_append1 ''s'' (demo_fill 5) empty_fill_store)) ''s'')))))"
proof (rule ledger_breach_persists)
  have net: "net_pnl (demo_fill n) = fl_round (- of_int n - 1)" for n
    by (simp add: demo_fill_def net_pnl_def fl_sub_def)
  show "store_inv (ledger_append1 ''s'' (demo_fill 5) empty_fill_store)"
    by (simp add: store_inv_ledger_append1)
  show "''s'' = ''s'' \<longrightarrow> (\<forall>f \<in> set [demo_fill 2]. isfinite (net_pnl f) \<and> fl_le (net_pnl f) fl_zero)"
    by (simp add: net)
  show "fl_sum (map net_pnl (ledger_fills (ledger_append1 ''s'' (demo_fill 5) empty_fill_store) ''s'')) \<noteq> NaN"
    by (simp add: ledger_fills_append1 demo_fill_ok net fl_sum_def)
  show "cap_breached (Fin 5) (py_max fl_zero (fl_neg (fl_sum (map net_pnl
     (ledger_fills (ledger_append1 ''s'' (demo_fill 5) empty_fill_store) ''s'')))))"
    by (simp add: ledger_fills_append1 demo_fill_ok net fl_sum_def cap_breached_def py_max_def)
qed (simp add: demo_fill_ok)

end
