(* ===== verification/Arming.thy ===== *)
theory Arming
  imports Interlock Noncrossing Risk
begin

text \<open>
  What a live (Mode B) dust run must show before it may write: the write-contract gate result of
  \<open>src/veridex/dust_execution/clobv2_gate.py\<close>, the custody checks and operator preflight results
  of \<open>privy_control_plane.py\<close>, and the signer seam of \<open>signer.py\<close>. Messages of exceptions and the
  \<open>detail\<close> texts are left out.
\<close>

section \<open>Write-contract gate (\<open>clobv2_gate.py\<close>)\<close>

record clobv2_gate_result =
  cg_supported_client :: bool
  cg_client_version :: string
  cg_fixtures_match :: bool
  cg_cancel_verified :: bool
  cg_get_orders_verified :: bool
  cg_operator_smoke_ok :: "bool option"

definition machine_ok :: "clobv2_gate_result \<Rightarrow> bool" where
  "machine_ok g \<longleftrightarrow> cg_supported_client g \<and> cg_fixtures_match g \<and> cg_cancel_verified g \<and> cg_get_orders_verified g"

definition mode_b_admitted :: "clobv2_gate_result \<Rightarrow> bool" where
  "mode_b_admitted g \<longleftrightarrow> machine_ok g \<and> cg_operator_smoke_ok g = Some True"

definition operator_production_smoke :: "bool \<Rightarrow> bool option \<Rightarrow> bool option" where
  "operator_production_smoke operator_ran operator_result = (if \<not> operator_ran then None else operator_result)"

section \<open>Custody checks (\<open>privy_control_plane.py\<close>)\<close>

record privy_auth_context =
  pa_request_expiry_ms :: int
  pa_quorum_signatures :: "string list"
  pa_quorum_threshold :: int
  pa_idempotency_key :: string

definition chain_id_polygon :: string where
  "chain_id_polygon = ''eip155:137''"

definition arm_mode_b ::
  "codec \<Rightarrow> execution_wallet_binding \<Rightarrow> privy_wallet_policy option \<Rightarrow> authorization_quorum option \<Rightarrow> unit result" where
  "arm_mode_b cd b live_policy live_quorum =
     (case live_policy of
        None \<Rightarrow> Inl FailClosed
      | Some policy \<Rightarrow>
          (case live_quorum of
             None \<Rightarrow> Inl FailClosed
           | Some quorum \<Rightarrow>
               if wb_chain_id b \<noteq> chain_id_polygon then Inl FailClosed
               else if policy_content_hash cd policy \<noteq> wb_privy_policy_content_hash b then Inl FailClosed
               else if \<not> is_typed_data_only_default_deny policy then Inl FailClosed
               else if wp_owner_type policy \<noteq> quorum_owned then Inl FailClosed
               else if aq_quorum_ref quorum \<noteq> wb_authorization_quorum_ref b then Inl FailClosed
               else if quorum_content_hash cd quorum \<noteq> wb_authorization_quorum_content_hash b then Inl FailClosed
               else if wb_quorum_threshold b \<noteq> aq_threshold quorum then Inl FailClosed
               else Inr ()))"

definition pin_manifest :: "codec \<Rightarrow> execution_wallet_binding \<Rightarrow> strategy_manifest \<Rightarrow> strategy_manifest" where
  "pin_manifest cd b m = m\<lparr>sm_execution_wallet_binding_hash := Some (binding_hash cd b)\<rparr>"

definition execute_with :: "codec \<Rightarrow> strategy_manifest \<Rightarrow> execution_wallet_binding \<Rightarrow> unit result" where
  "execute_with cd m live_binding =
     (case sm_execution_wallet_binding_hash m of
        None \<Rightarrow> Inl FailClosed
      | Some pinned \<Rightarrow> if binding_hash cd live_binding \<noteq> pinned then Inl FailClosed else Inr ())"

datatype provisioning_reason =
  balance_below_need | approvals_missing | default_deny_not_restored | policy_hash_not_repinned

definition provisioning_reasons ::
  "pyfloat \<Rightarrow> pyfloat \<Rightarrow> bool \<Rightarrow> bool \<Rightarrow> string \<Rightarrow> string \<Rightarrow> provisioning_reason list" where
  "provisioning_reasons pusd_balance session_need approvals_present default_deny_restored live_hash pinned_hash =
     flag (\<not> fl_le session_need (fl_add pusd_balance (fl_round (1 / 1000000000)))) balance_below_need
   @ flag (\<not> approvals_present) approvals_missing
   @ flag (\<not> default_deny_restored) default_deny_not_restored
   @ flag (live_hash \<noteq> pinned_hash) policy_hash_not_repinned"

definition operator_pusd_provisioning_preflight ::
  "pyfloat \<Rightarrow> pyfloat \<Rightarrow> bool \<Rightarrow> bool \<Rightarrow> string \<Rightarrow> string \<Rightarrow> bool \<Rightarrow> bool option" where
  "operator_pusd_provisioning_preflight pusd_balance session_need approvals_present default_deny_restored
     live_hash pinned_hash operator_ran =
     (if \<not> operator_ran then None
      else Some (provisioning_reasons pusd_balance session_need approvals_present default_deny_restored
                   live_hash pinned_hash = []))"

section \<open>The signer seam (\<open>signer.py\<close>)\<close>

datatype signer_mode = FAKE_LOCAL | PRIVY_EVM

fun signer_mode_text :: "signer_mode \<Rightarrow> string" where
  "signer_mode_text FAKE_LOCAL = ''FAKE_LOCAL''"
| "signer_mode_text PRIVY_EVM = ''PRIVY_EVM''"

record signing_payload =
  sp_token_id :: string
  sp_side :: string
  sp_native_price :: pyfloat
  sp_size :: pyfloat
  sp_tif :: string
  sp_tick_size :: string
  sp_client_order_id :: "string option"

definition mk_signing_payload :: "signing_payload \<Rightarrow> signing_payload result" where
  "mk_signing_payload p = rbind (reject_price_out_of_unit_interval (sp_native_price p)) (\<lambda>_. Inr p)"

definition payload_dump :: "signing_payload \<Rightarrow> pyval" where
  "payload_dump p = VDict
     [(''token_id'', VStr (sp_token_id p)), (''side'', VStr (sp_side p)), (''native_price'', VFloat (sp_native_price p)),
      (''size'', VFloat (sp_size p)), (''tif'', VStr (sp_tif p)), (''tick_size'', VStr (sp_tick_size p)),
      (''client_order_id'', opt_str (sp_client_order_id p))]"

definition config_hash :: "codec \<Rightarrow> pyval \<Rightarrow> string" where
  "config_hash cd dump = sha256_canonical cd dump"

record signed_artifact =
  sa_mode :: signer_mode
  sa_signature :: string
  sa_order_digest :: string

record 'w signer =
  sg_mode :: signer_mode
  sg_sign_order :: "signing_payload \<Rightarrow> ('w, signed_artifact) eff"

text \<open>The offline signer of Mode A.\<close>

definition fake_sign_order :: "codec \<Rightarrow> string \<Rightarrow> signing_payload \<Rightarrow> signed_artifact" where
  "fake_sign_order cd account_label p =
     (let digest = cd_sha256 cd (account_label @ ''|'' @ config_hash cd (payload_dump p)) in
      \<lparr>sa_mode = FAKE_LOCAL, sa_signature = ''fakesig:'' @ digest, sa_order_digest = config_hash cd (payload_dump p)\<rparr>)"

definition local_fake_signer :: "codec \<Rightarrow> string \<Rightarrow> 'w signer" where
  "local_fake_signer cd account_label =
     \<lparr>sg_mode = FAKE_LOCAL, sg_sign_order = (\<lambda>p. ereturn (fake_sign_order cd account_label p))\<rparr>"

record limit_order_call =
  lo_ticker :: string
  lo_amount :: pyfloat
  lo_price :: pyfloat
  lo_tif :: string
  lo_round_price :: bool
  lo_tick_size :: string

type_synonym 'w write_client = "limit_order_call \<Rightarrow> ('w, pyval) eff"

record 'w arming_inputs =
  ai_write_enabled :: bool
  ai_dry_run :: bool
  ai_write_client :: "'w write_client option"

definition require_armed :: "'w arming_inputs \<Rightarrow> 'w write_client result" where
  "require_armed inputs =
     (if \<not> ai_write_enabled inputs then Inl FailClosed
      else if ai_dry_run inputs then Inl FailClosed
      else case ai_write_client inputs of None \<Rightarrow> Inl FailClosed | Some client \<Rightarrow> Inr client)"

definition seam_submit :: "('w, 'w write_client) eff \<Rightarrow> 'w signer \<Rightarrow> signing_payload \<Rightarrow> ('w, pyval) eff" where
  "seam_submit arm signer p =
     ebind arm (\<lambda>client.
     ebind (sg_sign_order signer p) (\<lambda>_.
       client \<lparr>lo_ticker = sp_token_id p, lo_amount = sp_size p, lo_price = sp_native_price p, lo_tif = sp_tif p,
               lo_round_price = False, lo_tick_size = sp_tick_size p\<rparr>))"

end
