(* ===== verification/Emergency.thy ===== *)
theory Emergency
  imports Risk
begin

text \<open>
  The emergency stop of \<open>src/veridex/dust_execution/emergency.py\<close>: the mutable safety session, the
  single cancel-all primitive every trigger goes through, and the separate re-arm operation.

  The controller is asynchronous, and the only suspension points are the venue calls. Each operation
  is therefore given as the segments between its suspension points and as their uninterrupted
  composition. \<open>clk n\<close> is the clock reading taken while the event with sequence number
  \<open>n\<close> is built: every event takes exactly one number and one reading. The result of the
  venue call (a count, or the exception it raised) is an argument.
\<close>

section \<open>Data\<close>

datatype cancel_cause =
  breaker | kill_switch | shutdown | manual | loss_breach | reconciliation_timeout

record cancel_all_ack =
  ck_sequence_no :: int
  ck_recv_ts :: int
  ck_trigger_cause :: cancel_cause
  ck_canceled_count :: int

datatype cancel_all_event =
    CancelAllTriggered (ev_seq: int) (ev_recv: int) (ev_cause: cancel_cause)
  | CancelAllAcked cancel_all_ack

fun event_sequence_no :: "cancel_all_event \<Rightarrow> int" where
  "event_sequence_no (CancelAllTriggered n _ _) = n"
| "event_sequence_no (CancelAllAcked a) = ck_sequence_no a"

record safety_session =
  sf_session_id :: string
  sf_submit_blocked :: bool
  sf_block_cause :: "cancel_cause option"
  sf_events :: "cancel_all_event list"
  sf_last_cancel_all_ack :: "cancel_all_ack option"
  sf_next_seq :: int

definition new_safety_session :: "string \<Rightarrow> safety_session" where
  "new_safety_session sid = \<lparr>sf_session_id = sid, sf_submit_blocked = False, sf_block_cause = None,
     sf_events = [], sf_last_cancel_all_ack = None, sf_next_seq = 0\<rparr>"

section \<open>Session helpers\<close>

definition next_sequence_no :: "safety_session \<Rightarrow> int \<times> safety_session" where
  "next_sequence_no s = (sf_next_seq s, s\<lparr>sf_next_seq := sf_next_seq s + 1\<rparr>)"

definition record_event :: "cancel_all_event \<Rightarrow> safety_session \<Rightarrow> safety_session" where
  "record_event e s = s\<lparr>sf_events := sf_events s @ [e]\<rparr>"

definition build_triggered ::
  "(int \<Rightarrow> int) \<Rightarrow> cancel_cause \<Rightarrow> safety_session \<Rightarrow> cancel_all_event \<times> safety_session" where
  "build_triggered clk cause s =
     (let (n, s') = next_sequence_no s in (CancelAllTriggered n (clk n) cause, s'))"

definition build_ack ::
  "(int \<Rightarrow> int) \<Rightarrow> cancel_cause \<Rightarrow> int \<Rightarrow> safety_session \<Rightarrow> cancel_all_ack \<times> safety_session" where
  "build_ack clk cause count s =
     (let (n, s') = next_sequence_no s in
      (\<lparr>ck_sequence_no = n, ck_recv_ts = clk n, ck_trigger_cause = cause, ck_canceled_count = count\<rparr>, s'))"

section \<open>The cancel-all primitive\<close>

text \<open>Up to the venue call: \<open>Some\<close> ack when the call returns without one.\<close>

definition sweep_begin ::
  "(int \<Rightarrow> int) \<Rightarrow> cancel_cause \<Rightarrow> safety_session \<Rightarrow> cancel_all_ack option \<times> safety_session" where
  "sweep_begin clk cause s =
     (if sf_submit_blocked s then
        (case sf_last_cancel_all_ack s of
           Some a \<Rightarrow> (Some a, s)
         | None \<Rightarrow> (let (a, s') = build_ack clk cause 0 s in (Some a, s')))
      else
        (let s1 = s\<lparr>sf_submit_blocked := True, sf_block_cause := Some cause\<rparr>;
             (e, s2) = build_triggered clk cause s1
         in (None, record_event e s2)))"

text \<open>After the venue call returned or raised.\<close>

definition sweep_finish ::
  "(int \<Rightarrow> int) \<Rightarrow> cancel_cause \<Rightarrow> int result \<Rightarrow> safety_session \<Rightarrow> cancel_all_ack result \<times> safety_session" where
  "sweep_finish clk cause wire s =
     (case wire of
        Inl e \<Rightarrow> (Inl e, s)
      | Inr canceled_count \<Rightarrow>
          (let (ack, s') = build_ack clk cause canceled_count s
           in (Inr ack, record_event (CancelAllAcked ack) (s'\<lparr>sf_last_cancel_all_ack := Some ack\<rparr>))))"

text \<open>The third component counts the venue calls made.\<close>

definition cancel_all_and_block ::
  "(int \<Rightarrow> int) \<Rightarrow> cancel_cause \<Rightarrow> int result \<Rightarrow> safety_session \<Rightarrow> cancel_all_ack result \<times> safety_session \<times> nat" where
  "cancel_all_and_block clk cause wire s =
     (case sweep_begin clk cause s of
        (Some ack, s') \<Rightarrow> (Inr ack, s', 0)
      | (None, s') \<Rightarrow> (let (r, s'') = sweep_finish clk cause wire s' in (r, s'', 1)))"

definition on_breaker_open where "on_breaker_open clk wire s = cancel_all_and_block clk breaker wire s"
definition on_kill_switch where "on_kill_switch clk wire s = cancel_all_and_block clk kill_switch wire s"
definition on_loss_breach where "on_loss_breach clk wire s = cancel_all_and_block clk loss_breach wire s"

definition on_realized_fill ::
  "(int \<Rightarrow> int) \<Rightarrow> fill_arg \<Rightarrow> int result \<Rightarrow> policy_envelope \<Rightarrow> risk_accumulator \<Rightarrow> safety_session
   \<Rightarrow> cancel_all_ack option result \<times> risk_accumulator \<times> safety_session \<times> nat" where
  "on_realized_fill clk fill wire env risk s =
     (case apply_realized_fill fill risk of
        Inl e \<Rightarrow> (Inl e, risk, s, 0)
      | Inr risk' \<Rightarrow>
          if breaches_caps env risk' then
            (let (r, s', n) = on_loss_breach clk wire s in (rbind r (\<lambda>a. Inr (Some a)), risk', s', n))
          else (Inr None, risk', s, 0))"

section \<open>Re-arm\<close>

definition re_arm_begin :: "bool \<Rightarrow> risk_accumulator option \<Rightarrow> unit result" where
  "re_arm_begin operator_authorized risk =
     (if \<not> operator_authorized then Inl ReArmDenied
      else if risk = None then Inl ReArmDenied
      else Inr ())"

definition re_arm_finish :: "int result \<Rightarrow> safety_session \<Rightarrow> unit result \<times> safety_session" where
  "re_arm_finish open_order_count s =
     (case open_order_count of
        Inl e \<Rightarrow> (Inl e, s)
      | Inr open_orders \<Rightarrow>
          if open_orders \<noteq> 0 then (Inl ReArmDenied, s)
          else (Inr (), s\<lparr>sf_submit_blocked := False, sf_block_cause := None, sf_last_cancel_all_ack := None\<rparr>))"

definition re_arm ::
  "bool \<Rightarrow> risk_accumulator option \<Rightarrow> int result \<Rightarrow> safety_session \<Rightarrow> unit result \<times> safety_session" where
  "re_arm operator_authorized risk open_order_count s =
     (case re_arm_begin operator_authorized risk of
        Inl e \<Rightarrow> (Inl e, s)
      | Inr _ \<Rightarrow> re_arm_finish open_order_count s)"

definition check_can_submit :: "safety_session \<Rightarrow> bool" where
  "check_can_submit s = (\<not> sf_submit_blocked s)"

lemmas safety_unfold [safety_defs] =
  next_sequence_no_def record_event_def build_triggered_def build_ack_def sweep_begin_def sweep_finish_def
  cancel_all_and_block_def re_arm_begin_def re_arm_finish_def re_arm_def check_can_submit_def Let_def

section \<open>Interleaved tasks\<close>

text \<open>
  Any number of triggers and re-arms run concurrently on one session; between two suspension points
  a task is not interrupted. The tasks suspended on the sweep are a list of causes, the ones
  suspended on reconciliation a number.
\<close>

record controller_state =
  ct_session :: safety_session
  ct_sweeping :: "cancel_cause list"
  ct_rearming :: nat

inductive controller_step :: "(int \<Rightarrow> int) \<Rightarrow> controller_state \<Rightarrow> bool \<Rightarrow> controller_state \<Rightarrow> bool"
  for clk :: "int \<Rightarrow> int" where
  trigger_returns: "sweep_begin clk cause (ct_session c) = (Some ack, s')
    \<Longrightarrow> controller_step clk c False (c\<lparr>ct_session := s'\<rparr>)"
| trigger_suspends: "sweep_begin clk cause (ct_session c) = (None, s')
    \<Longrightarrow> controller_step clk c False (c\<lparr>ct_session := s', ct_sweeping := cause # ct_sweeping c\<rparr>)"
| sweep_resumes: "cause \<in> set (ct_sweeping c) \<Longrightarrow> sweep_finish clk cause wire (ct_session c) = (r, s')
    \<Longrightarrow> controller_step clk c False (c\<lparr>ct_session := s', ct_sweeping := remove1 cause (ct_sweeping c)\<rparr>)"
| re_arm_suspends: "re_arm_begin auth risk = Inr ()
    \<Longrightarrow> controller_step clk c False (c\<lparr>ct_rearming := ct_rearming c + 1\<rparr>)"
| re_arm_denied: "0 < ct_rearming c \<Longrightarrow> re_arm_finish count (ct_session c) = (Inl e, s')
    \<Longrightarrow> controller_step clk c False (c\<lparr>ct_session := s', ct_rearming := ct_rearming c - 1\<rparr>)"
| re_arm_completes: "0 < ct_rearming c \<Longrightarrow> re_arm_finish count (ct_session c) = (Inr (), s')
    \<Longrightarrow> controller_step clk c True (c\<lparr>ct_session := s', ct_rearming := ct_rearming c - 1\<rparr>)"

text \<open>Runs labelled with whether some re-arm completed in them.\<close>

inductive controller_run :: "(int \<Rightarrow> int) \<Rightarrow> controller_state \<Rightarrow> bool \<Rightarrow> controller_state \<Rightarrow> bool"
  for clk :: "int \<Rightarrow> int" where
  run_refl: "controller_run clk c False c"
| run_step: "controller_run clk c b c' \<Longrightarrow> controller_step clk c' b' c'' \<Longrightarrow> controller_run clk c (b \<or> b') c''"

definition idle :: "safety_session \<Rightarrow> controller_state" where
  "idle s = \<lparr>ct_session = s, ct_sweeping = [], ct_rearming = 0\<rparr>"

section \<open>Sequence numbers\<close>

definition session_inv :: "safety_session \<Rightarrow> bool" where
  "session_inv s \<longleftrightarrow> sorted_wrt (<) (map event_sequence_no (sf_events s))
     \<and> (\<forall>e \<in> set (sf_events s). event_sequence_no e < sf_next_seq s)"

lemma session_inv_new: "session_inv (new_safety_session sid)"
  by (simp add: session_inv_def new_safety_session_def)

lemma session_inv_next:
  "session_inv s \<Longrightarrow> session_inv (s\<lparr>sf_next_seq := sf_next_seq s + 1\<rparr>)"
  by (auto simp: session_inv_def intro: less_trans)

lemma session_inv_emit:
  assumes "session_inv s" and "event_sequence_no e = sf_next_seq s"
    and "sf_events s' = sf_events s @ [e]" and "sf_next_seq s' = sf_next_seq s + 1"
  shows "session_inv s'"
  using assms by (auto simp: session_inv_def sorted_wrt_append intro: less_trans)

lemma session_inv_frame:
  "sf_events s' = sf_events s \<Longrightarrow> sf_next_seq s' = sf_next_seq s \<Longrightarrow> session_inv s' = session_inv s"
  by (simp add: session_inv_def)

lemma session_inv_begin:
  assumes "session_inv s" and "sweep_begin clk cause s = (r, s')"
  shows "session_inv s'"
proof (cases "sf_submit_blocked s")
  case True
  then have "s' = s \<or> s' = s\<lparr>sf_next_seq := sf_next_seq s + 1\<rparr>"
    using assms(2) by (simp add: safety_defs split: option.splits)
  then show ?thesis using assms(1) session_inv_next by blast
next
  case False
  then have "s' = s\<lparr>sf_submit_blocked := True, sf_block_cause := Some cause, sf_next_seq := sf_next_seq s + 1,
      sf_events := sf_events s @ [CancelAllTriggered (sf_next_seq s) (clk (sf_next_seq s)) cause]\<rparr>"
    using assms(2) by (simp add: safety_defs)
  then show ?thesis
    by (intro session_inv_emit [OF assms(1), of "CancelAllTriggered (sf_next_seq s) (clk (sf_next_seq s)) cause"])
      simp_all
qed

lemma session_inv_finish:
  assumes "session_inv s" and "sweep_finish clk cause wire s = (r, s')"
  shows "session_inv s'"
proof (cases wire)
  case (Inr n)
  define ack where "ack = fst (build_ack clk cause n s)"
  have "event_sequence_no (CancelAllAcked ack) = sf_next_seq s"
    "sf_events s' = sf_events s @ [CancelAllAcked ack]" "sf_next_seq s' = sf_next_seq s + 1"
    using assms(2) Inr by (auto simp: safety_defs ack_def)
  then show ?thesis by (rule session_inv_emit [OF assms(1)])
qed (use assms in \<open>simp add: safety_defs\<close>)

lemma session_inv_re_arm:
  assumes "session_inv s" and "re_arm_finish count s = (r, s')"
  shows "session_inv s'"
  using assms session_inv_frame [of s' s] by (auto simp: safety_defs split: sum.splits if_splits)

lemma session_inv_step:
  "controller_step clk c b c' \<Longrightarrow> session_inv (ct_session c) \<Longrightarrow> session_inv (ct_session c')"
  by (induction rule: controller_step.induct)
    (auto intro: session_inv_begin session_inv_finish session_inv_re_arm)

lemma session_inv_run:
  "controller_run clk c b c' \<Longrightarrow> session_inv (ct_session c) \<Longrightarrow> session_inv (ct_session c')"
  by (induction rule: controller_run.induct) (auto intro: session_inv_step)

text \<open>
  Audit order: whatever triggers, sweeps and re-arms interleave on a new session, its
  cancel-all events carry strictly increasing sequence numbers, so no two events share one and the
  stream order is the numbering order.
\<close>

theorem event_numbers_increase:
  assumes "controller_run clk (idle (new_safety_session sid)) b c"
  shows "sorted_wrt (<) (map event_sequence_no (sf_events (ct_session c)))"
  using session_inv_run [OF assms] session_inv_new by (simp add: idle_def session_inv_def)

lemma demo_run:
  "controller_run id (idle (new_safety_session ''s'')) False
     (idle (fst (snd (cancel_all_and_block id kill_switch (Inr 3) (new_safety_session ''s'')))))"
  (is "controller_run id (idle ?s0) False (idle ?s2)")
proof -
  let ?s1 = "snd (sweep_begin id kill_switch ?s0)"
  have a: "sweep_begin id kill_switch ?s0 = (None, ?s1)"
    by (simp add: safety_defs new_safety_session_def)
  have b: "sweep_finish id kill_switch (Inr 3) ?s1 = (fst (sweep_finish id kill_switch (Inr 3) ?s1), ?s2)"
    by (simp add: safety_defs new_safety_session_def)
  have "controller_run id (idle ?s0) (False \<or> False) ((idle ?s0)\<lparr>ct_session := ?s1, ct_sweeping := [kill_switch]\<rparr>)"
    using trigger_suspends [of id kill_switch "idle ?s0", OF _] a
    by (intro run_step [OF run_refl]) (simp add: idle_def)
  from run_step [OF this sweep_resumes [of kill_switch _ id "Inr 3"], of _ ?s2] b show ?thesis
    by (simp add: idle_def)
qed

theorem event_numbers_increase_witness:
  "map event_sequence_no (sf_events (fst (snd (cancel_all_and_block id kill_switch (Inr 3) (new_safety_session ''s''))))) = [0, 1]
   \<and> sorted_wrt (<) (map event_sequence_no
       (sf_events (fst (snd (cancel_all_and_block id kill_switch (Inr 3) (new_safety_session ''s''))))))"
  using event_numbers_increase [OF demo_run] by (simp add: idle_def safety_defs new_safety_session_def)

section \<open>The stop holds\<close>

lemma sweep_begin_blocks: "sweep_begin clk cause s = (r, s') \<Longrightarrow> sf_submit_blocked s'"
  by (auto simp: safety_defs split: if_splits option.splits)

lemma sweep_finish_blocked:
  "sweep_finish clk cause wire s = (r, s') \<Longrightarrow> sf_submit_blocked s' = sf_submit_blocked s"
  by (auto simp: safety_defs split: sum.splits)

lemma blocked_step:
  "controller_step clk c b c' \<Longrightarrow> \<not> b \<Longrightarrow> sf_submit_blocked (ct_session c) \<Longrightarrow> sf_submit_blocked (ct_session c')"
  by (induction rule: controller_step.induct)
    (auto dest: sweep_begin_blocks sweep_finish_blocked simp: re_arm_finish_def split: sum.splits if_splits)

lemma blocked_run:
  "controller_run clk c b c' \<Longrightarrow> \<not> b \<Longrightarrow> sf_submit_blocked (ct_session c) \<Longrightarrow> sf_submit_blocked (ct_session c')"
  by (induction rule: controller_run.induct) (auto dest: blocked_step)

text \<open>
  C6: only a completed re-arm opens the session again: after any trigger has started, while its
  sweep is still in flight, has failed or has finished, and through any interleaving of further
  triggers, sweeps and refused re-arms, no submit is admitted.
\<close>

theorem stop_holds_until_re_arm:
  assumes "sweep_begin clk cause s = (r, s')"
    and "controller_run clk \<lparr>ct_session = s', ct_sweeping = sw, ct_rearming = n\<rparr> False c"
  shows "\<not> check_can_submit (ct_session c)"
  using blocked_run [OF assms(2)] sweep_begin_blocks [OF assms(1)] by (simp add: check_can_submit_def)

theorem stop_holds_until_re_arm_witness:
  "\<not> check_can_submit (snd (sweep_begin id breaker (new_safety_session ''s'')))"
  using stop_holds_until_re_arm [OF prod.collapse [symmetric] run_refl, of id breaker "new_safety_session ''s''"]
  by simp

section \<open>One sweep\<close>

fun triggers ::
  "(int \<Rightarrow> int) \<Rightarrow> (cancel_cause \<times> int result) list \<Rightarrow> safety_session
   \<Rightarrow> cancel_all_ack result list \<times> safety_session \<times> nat" where
  "triggers clk [] s = ([], s, 0)"
| "triggers clk ((cause, wire) # ts) s =
     (let (r, s1, n) = cancel_all_and_block clk cause wire s;
          (rs, s2, m) = triggers clk ts s1
      in (r # rs, s2, n + m))"

lemma triggers_replay:
  assumes "sf_submit_blocked s" and "sf_last_cancel_all_ack s = Some a"
  shows "triggers clk ts s = (map (\<lambda>_. Inr a) ts, s, 0)"
  using assms
  by (induction ts) (auto simp: cancel_all_and_block_def sweep_begin_def)

text \<open>
  One sweep per stop: from an open session, the first trigger makes one venue call and
  every later trigger, whatever its cause, makes none, changes nothing and replays the first
  acknowledgement, which carries the first cause and the count the venue reported.
\<close>

theorem one_sweep_per_stop:
  assumes "check_can_submit s"
  shows "\<exists>a s'. triggers clk ((cause, Inr n) # ts) s = (map (\<lambda>_. Inr a) ((cause, Inr n) # ts), s', 1)
    \<and> ck_trigger_cause a = cause \<and> ck_canceled_count a = n
    \<and> \<not> check_can_submit s' \<and> sf_block_cause s' = Some cause"
proof -
  obtain a s1 where c: "cancel_all_and_block clk cause (Inr n) s = (Inr a, s1, 1)"
    and s1: "sf_submit_blocked s1" "sf_last_cancel_all_ack s1 = Some a" "sf_block_cause s1 = Some cause"
    and a: "ck_trigger_cause a = cause" "ck_canceled_count a = n"
    using assms by (simp add: safety_defs)
  then show ?thesis by (simp add: triggers_replay check_can_submit_def)
qed

theorem one_sweep_per_stop_witness:
  "\<exists>a s'. triggers id [(loss_breach, Inr 2), (kill_switch, Inr 7)] (new_safety_session ''s'') = ([Inr a, Inr a], s', 1)
    \<and> ck_trigger_cause a = loss_breach \<and> ck_canceled_count a = 2"
  using one_sweep_per_stop [of "new_safety_session ''s''" id loss_breach 2 "[(kill_switch, Inr 7)]"]
  by (auto simp: check_can_submit_def new_safety_session_def)

lemma triggers_unacked:
  assumes "sf_submit_blocked s" and "sf_last_cancel_all_ack s = None"
  shows "snd (snd (triggers clk ts s)) = 0 \<and>
    list_all (\<lambda>r. \<exists>a. r = Inr a \<and> ck_canceled_count a = 0) (fst (triggers clk ts s))"
  using assms
proof (induction ts arbitrary: s)
  case (Cons t ts)
  obtain cause wire where t: "t = (cause, wire)" by (cases t)
  obtain a s1 where c: "cancel_all_and_block clk cause wire s = (Inr a, s1, 0)" "ck_canceled_count a = 0"
    and s1: "sf_submit_blocked s1" "sf_last_cancel_all_ack s1 = None"
    using Cons.prems by (simp add: safety_defs)
  from Cons.IH [OF s1] show ?case by (auto simp: t c split: prod.split)
qed simp

text \<open>
  A sweep that failed is never repeated: when the venue call of the first trigger raises, the
  session is blocked, but no later trigger calls the venue again, and each of them still returns an
  acknowledgement, of zero cancelled orders.
\<close>

theorem failed_sweep_is_not_retried:
  assumes "check_can_submit s" and "sf_last_cancel_all_ack s = None"
  shows "\<exists>rs s'. triggers clk ((cause, Inl e) # ts) s = (Inl e # rs, s', 1)
    \<and> list_all (\<lambda>r. \<exists>a. r = Inr a \<and> ck_canceled_count a = 0) rs"
proof -
  obtain s1 where "cancel_all_and_block clk cause (Inl e) s = (Inl e, s1, 1)"
    and "sf_submit_blocked s1" and "sf_last_cancel_all_ack s1 = None"
    using assms by (simp add: safety_defs)
  with triggers_unacked [of s1 clk ts] show ?thesis by (auto split: prod.splits)
qed

theorem failed_sweep_is_not_retried_witness:
  "\<exists>a s'. triggers id [(kill_switch, Inl VenueError), (kill_switch, Inr 4)] (new_safety_session ''s'')
     = ([Inl VenueError, Inr a], s', 1) \<and> ck_canceled_count a = 0"
  using failed_sweep_is_not_retried [of "new_safety_session ''s''" id kill_switch VenueError "[(kill_switch, Inr 4)]"]
  by (auto simp: check_can_submit_def new_safety_session_def cancel_all_and_block_def split: prod.splits option.splits)

lemma cancel_all_and_block_blocks:
  "cancel_all_and_block clk cause wire s = (r, s', n) \<Longrightarrow>
   \<not> check_can_submit s' \<and> n = (if check_can_submit s then 1 else 0)"
  by (auto simp: safety_defs split: if_splits option.splits sum.splits)

section \<open>Realized fills\<close>

text \<open>
  A fill that takes the realized loss to a cap stops the session whatever the venue call does:
  the accumulator holds the fill, submits are blocked even when the sweep raises, and a session that
  was open has been swept once. Below the caps the session is untouched; a refused fill (simulated,
  foreign session, unrepresentable date) changes neither accumulator nor session.
\<close>

theorem realized_fill_stops_at_cap:
  "case on_realized_fill clk fill wire env risk s of (r, risk', s', n) \<Rightarrow>
     (case apply_realized_fill fill risk of
        Inl e \<Rightarrow> r = Inl e \<and> risk' = risk \<and> s' = s \<and> n = 0
      | Inr acc \<Rightarrow> risk' = acc \<and>
          (if breaches_caps env acc
           then \<not> check_can_submit s' \<and> n = (if check_can_submit s then 1 else 0)
           else r = Inr None \<and> s' = s \<and> n = 0))"
proof (cases "apply_realized_fill fill risk")
  case (Inr acc)
  obtain r s' n where c: "cancel_all_and_block clk loss_breach wire s = (r, s', n)"
    by (metis prod.exhaust)
  have "\<not> check_can_submit s' \<and> n = (if check_can_submit s then 1 else 0)"
    using c by (rule cancel_all_and_block_blocks)
  with Inr c show ?thesis by (simp add: on_realized_fill_def on_loss_breach_def)
qed (simp add: on_realized_fill_def)

section \<open>Re-arm\<close>

text \<open>
  Re-arm succeeds exactly when the operator authorized it, a reloaded accumulator was supplied
  and the venue reports zero open orders; success opens the session and forgets the cause
  and the acknowledgement, and any refusal leaves the session as it was.
\<close>

theorem re_arm_iff:
  "(fst (re_arm auth risk count s) = Inr () \<longleftrightarrow> auth \<and> risk \<noteq> None \<and> count = Inr 0)
   \<and> snd (re_arm auth risk count s) =
      (if auth \<and> risk \<noteq> None \<and> count = Inr 0
       then s\<lparr>sf_submit_blocked := False, sf_block_cause := None, sf_last_cancel_all_ack := None\<rparr>
       else s)"
  by (cases auth; cases risk; cases count) (auto simp: safety_defs)

text \<open>
  C36: a stop that lands while a re-arm is waiting for the venue is lost: on a session that is
  already stopped and acknowledged, a trigger between the re-arm's venue call and its completion
  makes no venue call and leaves no trace, so the re-arm then opens the session as if the
  trigger had not happened.
\<close>

theorem stop_during_re_arm_is_lost:
  assumes "sf_submit_blocked s" and "sf_last_cancel_all_ack s = Some a"
    and "cancel_all_and_block clk cause wire s = (r, s1, n)"
    and "re_arm_finish (Inr 0) s1 = (r2, s2)"
  shows "n = 0 \<and> r = Inr a \<and> r2 = Inr () \<and> s2 = snd (re_arm True (Some risk) (Inr 0) s) \<and> check_can_submit s2"
  using assms by (auto simp: safety_defs)

definition demo_stopped :: safety_session where
  "demo_stopped = fst (snd (cancel_all_and_block id breaker (Inr 1) (new_safety_session ''s'')))"

theorem stop_during_re_arm_is_lost_witness:
  "\<exists>r s1. cancel_all_and_block id kill_switch (Inr 5) demo_stopped = (r, s1, 0)
     \<and> check_can_submit (snd (re_arm_finish (Inr 0) s1))"
proof -
  obtain a where b: "sf_submit_blocked demo_stopped" "sf_last_cancel_all_ack demo_stopped = Some a"
    by (simp add: demo_stopped_def safety_defs new_safety_session_def)
  obtain r s1 n where c: "cancel_all_and_block id kill_switch (Inr 5) demo_stopped = (r, s1, n)"
    by (metis prod.exhaust)
  from stop_during_re_arm_is_lost [OF b c prod.collapse [symmetric]] c show ?thesis by auto
qed

end
