(* ===== verification/Reconcile.thy ===== *)
theory Reconcile
  imports Emergency Noncrossing PyVal
begin

text \<open>
  Reconciliation of submits whose acknowledgement was lost
  (\<open>src/veridex/dust_execution/reconcile.py\<close> and the matcher and restart join of
  \<open>l2_transport.py\<close>): the durable pre-submit ledger, the verdict against the three venue read
  surfaces, the bounded polling loop that falls back to the emergency sweep, the resubmit guard and
  the recorded order status.

  A read surface an adapter lacks is \<open>None\<close>; what a call returns is a JSON value, or the
  exception it raised. \<open>parse\<close> is \<open>float\<close> of a string and \<open>shown\<close> is
  \<open>str\<close> of a float or a container.
\<close>

section \<open>Pre-submit ledger\<close>

record presubmit_record =
  ps_integrity_commitment_hash :: string
  ps_venue_order_key :: string
  ps_captured_id :: "string option"

record presubmit_row =
  pr_seq :: int
  pr_session_id :: string
  pr_integrity_commitment_hash :: string
  pr_venue_order_key :: string
  pr_captured_id :: "string option"

record presubmit_store =
  st_presubmit_rows :: "presubmit_row list"
  st_presubmit_seq :: int

definition empty_presubmit_store :: presubmit_store where
  "empty_presubmit_store = \<lparr>st_presubmit_rows = [], st_presubmit_seq = 0\<rparr>"

definition append_presubmit ::
  "string \<Rightarrow> string \<Rightarrow> string \<Rightarrow> string option \<Rightarrow> presubmit_store \<Rightarrow> int \<times> presubmit_store" where
  "append_presubmit sid digest key captured st =
     (let seq = st_presubmit_seq st + 1;
          row = \<lparr>pr_seq = seq, pr_session_id = sid, pr_integrity_commitment_hash = digest,
                 pr_venue_order_key = key, pr_captured_id = captured\<rparr>
      in (seq, \<lparr>st_presubmit_rows = st_presubmit_rows st @ [row], st_presubmit_seq = seq\<rparr>))"

definition list_presubmit :: "string \<Rightarrow> presubmit_store \<Rightarrow> presubmit_row list" where
  "list_presubmit sid st = filter (\<lambda>r. pr_session_id r = sid) (sort_key pr_seq (st_presubmit_rows st))"

definition persist_presubmit_record ::
  "string \<Rightarrow> presubmit_record \<Rightarrow> presubmit_store \<Rightarrow> int \<times> presubmit_store" where
  "persist_presubmit_record sid r st =
     append_presubmit sid (ps_integrity_commitment_hash r) (ps_venue_order_key r) (ps_captured_id r) st"

definition recover_presubmit_records :: "string \<Rightarrow> presubmit_store \<Rightarrow> presubmit_record list" where
  "recover_presubmit_records sid st =
     map (\<lambda>row. \<lparr>ps_integrity_commitment_hash = pr_integrity_commitment_hash row,
                 ps_venue_order_key = pr_venue_order_key row, ps_captured_id = pr_captured_id row\<rparr>)
       (list_presubmit sid st)"

record durable_submit_result =
  sr_presubmit_seq :: int
  sr_presubmit_record :: presubmit_record
  sr_response :: pyval

text \<open>
  \<open>post\<close> is the wire call: it sees the store as it is when the call is made, and what it
  raises propagates.
\<close>

definition submit_with_durable_presubmit ::
  "string \<Rightarrow> presubmit_record \<Rightarrow> (presubmit_store \<Rightarrow> pyval result) \<Rightarrow> presubmit_store
   \<Rightarrow> durable_submit_result result \<times> presubmit_store" where
  "submit_with_durable_presubmit sid r post st =
     (let (seq, st') = persist_presubmit_record sid r st in
      (rbind (post st') (\<lambda>response.
         Inr \<lparr>sr_presubmit_seq = seq, sr_presubmit_record = r, sr_response = response\<rparr>), st'))"

section \<open>Matching fills\<close>

definition coerce_fill_amount :: "(string \<Rightarrow> pyfloat option) \<Rightarrow> pyval \<Rightarrow> pyfloat option result" where
  "coerce_fill_amount parse v =
     (if v = VNone then Inr None
      else case to_float parse v of
        Inl e \<Rightarrow> if e \<in> {TypeError, ValueError} then Inr None else Inl e
      | Inr amount \<Rightarrow>
          if \<not> isfinite amount \<or> fl_lt amount fl_zero then Inr None else Inr (Some amount))"

text \<open>The loops carry \<open>(matched, found)\<close>; the inner \<open>None\<close> is the early \<open>return None\<close>.\<close>

fun maker_loop ::
  "(string \<Rightarrow> pyfloat option) \<Rightarrow> (pyval \<Rightarrow> string) \<Rightarrow> string \<Rightarrow> pyval list \<Rightarrow> pyfloat \<times> bool
   \<Rightarrow> (pyfloat \<times> bool) option result" where
  "maker_loop parse shown key [] acc = Inr (Some acc)"
| "maker_loop parse shown key (maker # makers) acc =
     rbind (vget ''order_id'' (VStr '''') maker) (\<lambda>oid.
       if py_str shown oid = key then
         rbind (vget ''matched_amount'' VNone maker) (\<lambda>raw.
         rbind (coerce_fill_amount parse raw) (\<lambda>amount.
           case amount of
             None \<Rightarrow> Inr None
           | Some a \<Rightarrow> maker_loop parse shown key makers (fl_add (fst acc) a, True)))
       else maker_loop parse shown key makers acc)"

fun trade_loop ::
  "(string \<Rightarrow> pyfloat option) \<Rightarrow> (pyval \<Rightarrow> string) \<Rightarrow> string \<Rightarrow> pyval list \<Rightarrow> pyfloat \<times> bool
   \<Rightarrow> (pyfloat \<times> bool) option result" where
  "trade_loop parse shown key [] acc = Inr (Some acc)"
| "trade_loop parse shown key (trade # trades) acc =
     rbind (vget ''taker_order_id'' (VStr '''') trade) (\<lambda>tid.
       if py_str shown tid = key then
         rbind (vget ''size'' VNone trade) (\<lambda>raw.
         rbind (coerce_fill_amount parse raw) (\<lambda>amount.
           case amount of
             None \<Rightarrow> Inr None
           | Some a \<Rightarrow> trade_loop parse shown key trades (fl_add (fst acc) a, True)))
       else
         rbind (vget ''maker_orders'' (VList []) trade) (\<lambda>mo.
         rbind (py_iter (py_or mo (VList []))) (\<lambda>makers.
         rbind (maker_loop parse shown key makers acc) (\<lambda>r.
           case r of None \<Rightarrow> Inr None | Some acc' \<Rightarrow> trade_loop parse shown key trades acc'))))"

definition match_fill_size ::
  "(string \<Rightarrow> pyfloat option) \<Rightarrow> (pyval \<Rightarrow> string) \<Rightarrow> pyval list \<Rightarrow> string \<Rightarrow> pyfloat option result" where
  "match_fill_size parse shown trades key =
     rbind (trade_loop parse shown key trades (fl_zero, False)) (\<lambda>r.
       Inr (case r of
         None \<Rightarrow> None
       | Some (matched, found) \<Rightarrow>
           if \<not> found then None
           else if isfinite matched \<and> fl_lt fl_zero matched then Some matched else None))"

section \<open>The verdict\<close>

datatype uncertain_state = Resolved | Definitively_Absent | Ambiguous

record reconciled_fill =
  rc_venue_order_key :: string
  rc_reconciled_state :: uncertain_state
  rc_reconciled_fill_size :: pyfloat

definition reconcile_one ::
  "(string \<Rightarrow> pyfloat option) \<Rightarrow> (pyval \<Rightarrow> string) \<Rightarrow> (string \<Rightarrow> pyval result) \<Rightarrow> presubmit_record
   \<Rightarrow> reconciled_fill result" where
  "reconcile_one parse shown fill_reader r =
     (let key = ps_venue_order_key r in
      if key = [] then Inl FailClosed
      else
        rbind (fill_reader key) (\<lambda>page.
        rbind (vget ''trades'' VNone page) (\<lambda>ts.
        rbind (vget ''data'' VNone page) (\<lambda>ds.
        rbind (py_iter (py_or ts (py_or ds (VList [])))) (\<lambda>trades.
        rbind (match_fill_size parse shown trades key) (\<lambda>size.
          Inr (case size of
            Some x \<Rightarrow> \<lparr>rc_venue_order_key = key, rc_reconciled_state = Resolved, rc_reconciled_fill_size = x\<rparr>
          | None \<Rightarrow> \<lparr>rc_venue_order_key = key, rc_reconciled_state = Ambiguous, rc_reconciled_fill_size = fl_zero\<rparr>)))))))"

definition reconcile_ack_lost ::
  "(string \<Rightarrow> pyfloat option) \<Rightarrow> (pyval \<Rightarrow> string) \<Rightarrow> (string \<Rightarrow> pyval result) \<Rightarrow> presubmit_record list
   \<Rightarrow> reconciled_fill list result" where
  "reconcile_ack_lost parse shown fill_reader records =
     rtraverse (reconcile_one parse shown fill_reader) records"

definition reconcile_durable_ack_lost ::
  "(string \<Rightarrow> pyfloat option) \<Rightarrow> (pyval \<Rightarrow> string) \<Rightarrow> (string \<Rightarrow> pyval result) \<Rightarrow> string \<Rightarrow> presubmit_store
   \<Rightarrow> reconciled_fill list result" where
  "reconcile_durable_ack_lost parse shown fill_reader sid st =
     reconcile_ack_lost parse shown fill_reader (recover_presubmit_records sid st)"

record venue_reads =
  vr_get_orders :: "pyval result option"
  vr_get_order :: "(string \<Rightarrow> pyval result) option"
  vr_get_fill_history :: "(string \<Rightarrow> pyval result) option"

definition is_mapping :: "pyval \<Rightarrow> bool" where
  "is_mapping v = (case v of VDict _ \<Rightarrow> True | _ \<Rightarrow> False)"

definition fill_history_evidence ::
  "(string \<Rightarrow> pyfloat option) \<Rightarrow> (pyval \<Rightarrow> string) \<Rightarrow> venue_reads \<Rightarrow> string \<Rightarrow> pyfloat option result" where
  "fill_history_evidence parse shown adapter key =
     (case vr_get_fill_history adapter of
        None \<Rightarrow> Inr None
      | Some reader \<Rightarrow>
          (case reader key of
             Inl e \<Rightarrow> Inr None
           | Inr page \<Rightarrow>
               rbind (if is_mapping page
                      then rbind (vget ''trades'' VNone page) (\<lambda>ts.
                           rbind (vget ''data'' VNone page) (\<lambda>ds.
                             Inr (py_or ts (py_or ds (VList [])))))
                      else Inr page) (\<lambda>trades.
               rbind (py_iter (py_or trades (VList []))) (\<lambda>rows.
                 match_fill_size parse shown rows key))))"

definition terminal_order_statuses :: "string list" where
  "terminal_order_statuses =
     [''filled'', ''matched'', ''killed'', ''canceled'', ''cancelled'', ''expired'', ''rejected'']"

definition terminal_status_evidence ::
  "(pyval \<Rightarrow> string) \<Rightarrow> venue_reads \<Rightarrow> string \<Rightarrow> bool result" where
  "terminal_status_evidence shown adapter key =
     (case vr_get_order adapter of
        None \<Rightarrow> Inr False
      | Some getter \<Rightarrow>
          (case getter key of
             Inl e \<Rightarrow> Inr False
           | Inr rec \<Rightarrow>
               if \<not> truthy rec then Inr False
               else rbind (vget ''status'' (VStr '''') rec) (\<lambda>v.
                 Inr (py_lower (py_str shown v) \<in> set terminal_order_statuses))))"

definition open_candidate_count :: "venue_reads \<Rightarrow> nat result" where
  "open_candidate_count adapter =
     (case vr_get_orders adapter of
        None \<Rightarrow> Inr 0
      | Some (Inl e) \<Rightarrow> Inr 0
      | Some (Inr orders) \<Rightarrow> py_len (py_or orders (VList [])))"

record uncertain_submit_verdict =
  uv_state :: uncertain_state
  uv_venue_order_key :: string
  uv_surfaces_queried :: "string list"
  uv_matched_fill_size :: pyfloat
  uv_open_candidate_count :: nat

definition assess_uncertain_submit ::
  "(string \<Rightarrow> pyfloat option) \<Rightarrow> (pyval \<Rightarrow> string) \<Rightarrow> presubmit_record \<Rightarrow> venue_reads
   \<Rightarrow> uncertain_submit_verdict result" where
  "assess_uncertain_submit parse shown r adapter =
     (let key = ps_venue_order_key r in
      if key = [] then
        Inr \<lparr>uv_state = Ambiguous, uv_venue_order_key = key, uv_surfaces_queried = [],
             uv_matched_fill_size = fl_zero, uv_open_candidate_count = 0\<rparr>
      else
        rbind (open_candidate_count adapter) (\<lambda>candidates.
        rbind (terminal_status_evidence shown adapter key) (\<lambda>terminal.
        rbind (fill_history_evidence parse shown adapter key) (\<lambda>matched.
          Inr \<lparr>uv_state = (if matched \<noteq> None \<or> terminal then Resolved else Ambiguous),
               uv_venue_order_key = key,
               uv_surfaces_queried = [''get_orders'', ''get_order'', ''get_fill_history''],
               uv_matched_fill_size = (case matched of None \<Rightarrow> fl_zero | Some x \<Rightarrow> x),
               uv_open_candidate_count = candidates\<rparr>))))"

definition reconcile_uncertain_submit ::
  "(string \<Rightarrow> pyfloat option) \<Rightarrow> (pyval \<Rightarrow> string) \<Rightarrow> presubmit_record \<Rightarrow> venue_reads \<Rightarrow> uncertain_state result" where
  "reconcile_uncertain_submit parse shown r adapter =
     rbind (assess_uncertain_submit parse shown r adapter) (\<lambda>v. Inr (uv_state v))"

definition freezes_new_submits :: "uncertain_state \<Rightarrow> bool" where
  "freezes_new_submits s = (s = Ambiguous)"

definition worst_case_uncertain_exposure :: "uncertain_state \<Rightarrow> pyfloat \<Rightarrow> pyfloat" where
  "worst_case_uncertain_exposure s intended_size = (if s = Ambiguous then intended_size else fl_zero)"

definition retry_authorized_while :: "uncertain_state \<Rightarrow> bool \<Rightarrow> bool" where
  "retry_authorized_while s before_timeout = (s \<noteq> Ambiguous)"

section \<open>Bounded polling\<close>

text \<open>
  \<open>poll k\<close> is the outcome of the query number \<open>k\<close> and \<open>clock k\<close> the
  reading number \<open>k\<close> of the injected clock: reading 0 opens the window, and each query is
  followed by one reading, then by the sleep that precedes the next query. An exit by timeout takes
  a reading more, after the sweep. \<open>None\<close> is a loop that does not end.
\<close>

datatype ambiguous_outcome = Lifted uncertain_state | Swept_On_Timeout

record ambiguous_resolution =
  ar_outcome :: ambiguous_outcome
  ar_polls :: nat
  ar_resolved_state :: uncertain_state
  ar_cancel_all_ack :: "cancel_all_ack option"
  ar_elapsed_ms :: int

text \<open>The loop up to its exit: the state of the last query and the number of queries.\<close>

partial_function (option) poll_loop ::
  "(nat \<Rightarrow> uncertain_state result) \<Rightarrow> (nat \<Rightarrow> int) \<Rightarrow> int \<Rightarrow> nat \<Rightarrow> (uncertain_state \<times> nat) result option" where
  "poll_loop poll clock timeout_ms k =
     (case poll k of
        Inl e \<Rightarrow> Some (Inl e)
      | Inr s \<Rightarrow>
          if s \<noteq> Ambiguous then Some (Inr (s, k + 1))
          else if timeout_ms \<le> clock (k + 1) - clock 0 then Some (Inr (s, k + 1))
          else poll_loop poll clock timeout_ms (k + 1))"

definition resolve_ambiguous_submit ::
  "(nat \<Rightarrow> uncertain_state result) \<Rightarrow> (nat \<Rightarrow> int) \<Rightarrow> int \<Rightarrow> (int \<Rightarrow> int) \<Rightarrow> cancel_cause \<Rightarrow> int result
   \<Rightarrow> safety_session \<Rightarrow> (ambiguous_resolution result \<times> safety_session \<times> nat) option" where
  "resolve_ambiguous_submit poll clock timeout_ms clk cause wire s =
     (case poll_loop poll clock timeout_ms 0 of
        None \<Rightarrow> None
      | Some (Inl e) \<Rightarrow> Some (Inl e, s, 0)
      | Some (Inr (state, polls)) \<Rightarrow>
          if state \<noteq> Ambiguous then
            Some (Inr \<lparr>ar_outcome = Lifted state, ar_polls = polls, ar_resolved_state = state,
                       ar_cancel_all_ack = None, ar_elapsed_ms = clock polls - clock 0\<rparr>, s, 0)
          else
            (let (r, s', n) = cancel_all_and_block clk cause wire s in
             Some (rbind r (\<lambda>ack.
               Inr \<lparr>ar_outcome = Swept_On_Timeout, ar_polls = polls, ar_resolved_state = Ambiguous,
                    ar_cancel_all_ack = Some ack, ar_elapsed_ms = clock (polls + 1) - clock 0\<rparr>), s', n)))"

text \<open>The default query: the venue as it answers at each poll.\<close>

definition default_poll ::
  "(string \<Rightarrow> pyfloat option) \<Rightarrow> (pyval \<Rightarrow> string) \<Rightarrow> presubmit_record \<Rightarrow> (nat \<Rightarrow> venue_reads)
   \<Rightarrow> nat \<Rightarrow> uncertain_state result" where
  "default_poll parse shown r adapter k = reconcile_uncertain_submit parse shown r (adapter k)"

section \<open>Resubmits\<close>

datatype resubmit_reason =
    AUTHORIZED_PRIOR_DEFINITIVELY_ABSENT
  | DENIED_PRIOR_RESOLVED_LIVE_OR_FILLED
  | DENIED_PRIOR_AMBIGUOUS_FROZEN

record resubmit_authorization =
  ra_authorized :: bool
  ra_prior_state :: uncertain_state
  ra_venue_order_key :: string
  ra_reason :: resubmit_reason

definition duplicate_resubmit_authorized :: "uncertain_state \<Rightarrow> bool" where
  "duplicate_resubmit_authorized prior = (prior = Definitively_Absent)"

text \<open>\<open>reconcile_fn\<close> is \<open>None\<close> for the default query.\<close>

definition authorize_resubmit_against_venue_truth ::
  "(string \<Rightarrow> pyfloat option) \<Rightarrow> (pyval \<Rightarrow> string) \<Rightarrow> presubmit_record \<Rightarrow> string \<Rightarrow> venue_reads
   \<Rightarrow> uncertain_state result option \<Rightarrow> resubmit_authorization result" where
  "authorize_resubmit_against_venue_truth parse shown prior client_order_id adapter reconcile_fn =
     rbind (case reconcile_fn of Some r \<Rightarrow> r | None \<Rightarrow> reconcile_uncertain_submit parse shown prior adapter)
       (\<lambda>prior_state.
         let authorized = duplicate_resubmit_authorized prior_state in
         Inr \<lparr>ra_authorized = authorized, ra_prior_state = prior_state,
              ra_venue_order_key = ps_venue_order_key prior,
              ra_reason = (if authorized then AUTHORIZED_PRIOR_DEFINITIVELY_ABSENT
                           else if prior_state = Resolved then DENIED_PRIOR_RESOLVED_LIVE_OR_FILLED
                           else DENIED_PRIOR_AMBIGUOUS_FROZEN)\<rparr>)"

section \<open>Recorded status\<close>

datatype order_status = st_partial | st_filled | st_rejected | st_expired | st_unresolved

record honest_status =
  hs_status :: order_status
  hs_filled_size :: pyfloat
  hs_fill_price :: "pyfloat option"
  hs_is_fill_proven :: bool
  hs_requested_size :: pyfloat

definition venue_expired_statuses :: "string list" where
  "venue_expired_statuses = [''expired'']"

definition venue_rejected_statuses :: "string list" where
  "venue_rejected_statuses = [''unmatched'', ''rejected'', ''matched'', ''killed'', ''canceled'', ''cancelled'']"

definition venue_live_statuses :: "string list" where
  "venue_live_statuses = [''live'', ''delayed'', ''open'', ''pending'']"

text \<open>\<open>d.get(k, dflt)\<close> on a record that is an object, and \<open>float(d.get(k, 0.0) or 0.0)\<close>.\<close>

definition dget :: "string \<Rightarrow> pyval \<Rightarrow> (string \<times> pyval) list \<Rightarrow> pyval" where
  "dget k dflt d = (case map_of d k of None \<Rightarrow> dflt | Some v \<Rightarrow> v)"

definition size_field ::
  "(string \<Rightarrow> pyfloat option) \<Rightarrow> string \<Rightarrow> (string \<times> pyval) list \<Rightarrow> pyfloat result" where
  "size_field parse k d = to_float parse (py_or (dget k (VFloat fl_zero) d) (VFloat fl_zero))"

definition unfilled :: "order_status \<Rightarrow> pyfloat \<Rightarrow> honest_status" where
  "unfilled status requested = \<lparr>hs_status = status, hs_filled_size = fl_zero, hs_fill_price = None,
     hs_is_fill_proven = False, hs_requested_size = requested\<rparr>"

definition no_fill_status :: "bool \<Rightarrow> string \<Rightarrow> order_status" where
  "no_fill_status timed_out raw_status =
     (if timed_out \<or> raw_status \<in> set venue_live_statuses \<or> raw_status = [] then st_unresolved
      else if raw_status \<in> set venue_expired_statuses then st_expired
      else if raw_status \<in> set venue_rejected_statuses then st_rejected
      else st_unresolved)"

definition honest_venue_status ::
  "(string \<Rightarrow> pyfloat option) \<Rightarrow> (pyval \<Rightarrow> string) \<Rightarrow> (string \<times> pyval) list option \<Rightarrow> pyfloat \<Rightarrow> bool
   \<Rightarrow> honest_status result" where
  "honest_venue_status parse shown rec requested_size timed_out =
     (case rec of
        None \<Rightarrow> Inr (unfilled st_unresolved requested_size)
      | Some d \<Rightarrow>
          rbind (size_field parse ''size_matched'' d) (\<lambda>size_matched.
          rbind (size_field parse ''original_size'' d) (\<lambda>original_size.
          let requested = (if fl_lt fl_zero original_size then original_size else requested_size);
              raw_status = py_lower (py_strip (py_str shown (dget ''status'' (VStr '''') d)));
              raw_price = dget ''price'' VNone d
          in rbind (if raw_price \<noteq> VNone \<and> raw_price \<noteq> VStr ''''
                    then rbind (to_float parse raw_price) (\<lambda>p. Inr (Some p)) else Inr None)
               (\<lambda>native_price. Inr
                 (if fl_lt fl_zero size_matched then
                    \<lparr>hs_status = (if fl_lt fl_zero requested
                                     \<and> fl_le requested (fl_add size_matched (fl_round (1 / 1000000000)))
                                  then st_filled else st_partial),
                     hs_filled_size = size_matched, hs_fill_price = native_price,
                     hs_is_fill_proven = True, hs_requested_size = requested\<rparr>
                  else unfilled (no_fill_status timed_out raw_status) requested)))))"

record order_status_event =
  oe_sequence_no :: int
  oe_source_ts :: "int option"
  oe_recv_ts :: int
  oe_decision_id :: string
  oe_client_order_id :: string
  oe_venue_order_id :: "string option"
  oe_status :: order_status
  oe_filled_size :: pyfloat
  oe_fill_price :: "pyfloat option"

text \<open>The event's constructor checks a present fill price.\<close>

definition to_order_status_event ::
  "honest_status \<Rightarrow> int \<Rightarrow> string \<Rightarrow> string \<Rightarrow> string option \<Rightarrow> int option \<Rightarrow> int \<Rightarrow> order_status_event result" where
  "to_order_status_event honest sequence_no decision_id client_order_id venue_order_id source_ts recv_ts =
     (let price = (if hs_is_fill_proven honest then hs_fill_price honest else None) in
      rbind (case price of
               None \<Rightarrow> Inr None
             | Some p \<Rightarrow> rbind (reject_price_out_of_unit_interval p) (\<lambda>q. Inr (Some q)))
        (\<lambda>fill_price. Inr
          \<lparr>oe_sequence_no = sequence_no, oe_source_ts = source_ts, oe_recv_ts = recv_ts,
           oe_decision_id = decision_id, oe_client_order_id = client_order_id,
           oe_venue_order_id = venue_order_id, oe_status = hs_status honest,
           oe_filled_size = hs_filled_size honest, oe_fill_price = fill_price\<rparr>))"

section \<open>Freeze across restarts\<close>

record frozen_uncertain_state =
  fz_state :: uncertain_state
  fz_frozen :: bool
  fz_worst_case_exposure :: pyfloat
  fz_venue_order_key :: string
  fz_presubmit_record :: presubmit_record

definition frozen_of :: "uncertain_state \<Rightarrow> pyfloat \<Rightarrow> presubmit_record \<Rightarrow> frozen_uncertain_state" where
  "frozen_of s intended_size r =
     \<lparr>fz_state = s, fz_frozen = freezes_new_submits s,
      fz_worst_case_exposure = worst_case_uncertain_exposure s intended_size,
      fz_venue_order_key = ps_venue_order_key r, fz_presubmit_record = r\<rparr>"

definition reconcile_and_freeze ::
  "(string \<Rightarrow> pyfloat option) \<Rightarrow> (pyval \<Rightarrow> string) \<Rightarrow> presubmit_record \<Rightarrow> venue_reads \<Rightarrow> pyfloat
   \<Rightarrow> frozen_uncertain_state result" where
  "reconcile_and_freeze parse shown r adapter intended_size =
     rbind (reconcile_uncertain_submit parse shown r adapter) (\<lambda>s. Inr (frozen_of s intended_size r))"

definition reconstruct_uncertain_state :: "presubmit_record \<Rightarrow> pyfloat \<Rightarrow> frozen_uncertain_state" where
  "reconstruct_uncertain_state r intended_size = frozen_of Ambiguous intended_size r"

section \<open>The pre-submit ledger is a round trip\<close>

definition presubmit_inv :: "presubmit_store \<Rightarrow> bool" where
  "presubmit_inv st \<longleftrightarrow> sorted (map pr_seq (st_presubmit_rows st))
     \<and> (\<forall>r \<in> set (st_presubmit_rows st). pr_seq r \<le> st_presubmit_seq st)"

lemma presubmit_inv_empty: "presubmit_inv empty_presubmit_store"
  by (simp add: presubmit_inv_def empty_presubmit_store_def)

lemma presubmit_inv_persist:
  "presubmit_inv st \<Longrightarrow> presubmit_inv (snd (persist_presubmit_record sid r st))"
  by (fastforce simp: presubmit_inv_def persist_presubmit_record_def append_presubmit_def Let_def sorted_append)

lemma recover_inv:
  "presubmit_inv st \<Longrightarrow> recover_presubmit_records sid st =
     map (\<lambda>row. \<lparr>ps_integrity_commitment_hash = pr_integrity_commitment_hash row,
                 ps_venue_order_key = pr_venue_order_key row, ps_captured_id = pr_captured_id row\<rparr>)
       (filter (\<lambda>r. pr_session_id r = sid) (st_presubmit_rows st))"
  by (simp add: recover_presubmit_records_def list_presubmit_def presubmit_inv_def sort_key_id_if_sorted)

lemma recover_persist:
  assumes "presubmit_inv st"
  shows "recover_presubmit_records s (snd (persist_presubmit_record sid r st)) =
    recover_presubmit_records s st @ (if s = sid then [r] else [])"
  using assms presubmit_inv_persist [OF assms]
  by (simp add: recover_inv) (simp add: persist_presubmit_record_def append_presubmit_def Let_def)

text \<open>A history of submits, each with its session, record and wire outcome.\<close>

fun submits ::
  "(string \<times> presubmit_record \<times> (presubmit_store \<Rightarrow> pyval result)) list \<Rightarrow> presubmit_store
   \<Rightarrow> durable_submit_result result list \<times> presubmit_store" where
  "submits [] st = ([], st)"
| "submits ((sid, r, post) # xs) st =
     (let (res, st1) = submit_with_durable_presubmit sid r post st; (rs, st2) = submits xs st1
      in (res # rs, st2))"

lemma submit_step:
  "submit_with_durable_presubmit sid r post st =
     (rbind (post (snd (persist_presubmit_record sid r st))) (\<lambda>response.
        Inr \<lparr>sr_presubmit_seq = fst (persist_presubmit_record sid r st), sr_presubmit_record = r,
             sr_response = response\<rparr>),
      snd (persist_presubmit_record sid r st))"
  by (cases "persist_presubmit_record sid r st") (simp add: submit_with_durable_presubmit_def)

lemma submits_Cons_store:
  "snd (submits ((sid, r, post) # xs) st) = snd (submits xs (snd (persist_presubmit_record sid r st)))"
  by (simp add: submit_step split: prod.split)

lemma submits_inv: "presubmit_inv st \<Longrightarrow> presubmit_inv (snd (submits xs st))"
proof (induction xs arbitrary: st)
  case (Cons x xs)
  then show ?case
    by (cases x) (simp add: submits_Cons_store presubmit_inv_persist del: submits.simps)
qed simp

lemma submits_recover:
  assumes "presubmit_inv st"
  shows "recover_presubmit_records s (snd (submits xs st)) =
    recover_presubmit_records s st @ map (fst \<circ> snd) (filter (\<lambda>x. fst x = s) xs)"
  using assms
proof (induction xs arbitrary: st)
  case (Cons x xs)
  obtain sid r post where x: "x = (sid, r, post)" by (cases x)
  let ?st = "snd (persist_presubmit_record sid r st)"
  have "recover_presubmit_records s (snd (submits (x # xs) st)) = recover_presubmit_records s (snd (submits xs ?st))"
    by (simp only: x submits_Cons_store)
  also have "\<dots> = recover_presubmit_records s ?st @ map (fst \<circ> snd) (filter (\<lambda>x. fst x = s) xs)"
    by (rule Cons.IH [OF presubmit_inv_persist [OF Cons.prems]])
  finally show ?case by (simp add: x recover_persist [OF Cons.prems])
qed simp

text \<open>
  C18: nothing reaches the wire unrecorded: the store the wire call sees already holds the record as
  the newest of its session, whether the call then returns or raises; and after any history of
  submits of any sessions, with any wire outcomes, a restart recovers exactly the records of each
  session in submit order.
\<close>

theorem presubmit_recorded_before_wire:
  assumes "st = snd (submits xs empty_presubmit_store)"
  shows "recover_presubmit_records s st = map (fst \<circ> snd) (filter (\<lambda>x. fst x = s) xs)
    \<and> (\<exists>st'. recover_presubmit_records sid st' = recover_presubmit_records sid st @ [r]
        \<and> snd (submit_with_durable_presubmit sid r post st) = st'
        \<and> (\<forall>e. fst (submit_with_durable_presubmit sid r post st) = Inl e \<longleftrightarrow> post st' = Inl e))"
proof -
  have "recover_presubmit_records s empty_presubmit_store = []"
    by (simp add: recover_presubmit_records_def list_presubmit_def empty_presubmit_store_def)
  then have "recover_presubmit_records s st = map (fst \<circ> snd) (filter (\<lambda>x. fst x = s) xs)"
    by (simp add: assms submits_recover [OF presubmit_inv_empty])
  moreover have "recover_presubmit_records sid (snd (persist_presubmit_record sid r st))
      = recover_presubmit_records sid st @ [r]"
    using recover_persist [of st sid sid r] submits_inv [OF presubmit_inv_empty] assms by simp
  ultimately show ?thesis by (auto simp: submit_step rbind_Inl_iff)
qed

definition demo_record :: presubmit_record where
  "demo_record = \<lparr>ps_integrity_commitment_hash = ''d1'', ps_venue_order_key = ''0xa'', ps_captured_id = None\<rparr>"

theorem presubmit_recorded_before_wire_witness:
  "recover_presubmit_records ''s''
     (snd (submits [(''s'', demo_record, \<lambda>_. Inl VenueError), (''t'', demo_record, \<lambda>_. Inr VNone)]
        empty_presubmit_store)) = [demo_record]"
  using presubmit_recorded_before_wire [OF refl, of "''s''"
    "[(''s'', demo_record, \<lambda>_. Inl VenueError), (''t'', demo_record, \<lambda>_. Inr VNone)]"]
  by simp

section \<open>Matching is exact\<close>

text \<open>The amounts that carry the key, in the order the venue lists them.\<close>

definition dict_of :: "pyval \<Rightarrow> (string \<times> pyval) list" where
  "dict_of v = (case v of VDict d \<Rightarrow> d | _ \<Rightarrow> [])"

definition makers_of :: "pyval \<Rightarrow> pyval list" where
  "makers_of trade = (case dget ''maker_orders'' (VList []) (dict_of trade) of VList ms \<Rightarrow> ms | _ \<Rightarrow> [])"

definition carries :: "(pyval \<Rightarrow> string) \<Rightarrow> string \<Rightarrow> string \<Rightarrow> pyval \<Rightarrow> bool" where
  "carries shown field key v \<longleftrightarrow> py_str shown (dget field (VStr '''') (dict_of v)) = key"

definition trade_amounts :: "(pyval \<Rightarrow> string) \<Rightarrow> string \<Rightarrow> pyval \<Rightarrow> pyval list" where
  "trade_amounts shown key trade =
     (if carries shown ''taker_order_id'' key trade then [dget ''size'' VNone (dict_of trade)]
      else map (\<lambda>m. dget ''matched_amount'' VNone (dict_of m))
             (filter (carries shown ''order_id'' key) (makers_of trade)))"

text \<open>A page of objects, whose maker lists, where present and not null, are lists of objects.\<close>

definition well_formed_trade :: "pyval \<Rightarrow> bool" where
  "well_formed_trade trade \<longleftrightarrow> is_mapping trade
     \<and> dget ''maker_orders'' (VList []) (dict_of trade) \<in> insert VNone (range VList)
     \<and> list_all is_mapping (makers_of trade)"

fun add_amounts ::
  "(string \<Rightarrow> pyfloat option) \<Rightarrow> pyval list \<Rightarrow> pyfloat \<times> bool \<Rightarrow> (pyfloat \<times> bool) option result" where
  "add_amounts parse [] acc = Inr (Some acc)"
| "add_amounts parse (c # cs) acc = rbind (coerce_fill_amount parse c) (\<lambda>amount.
     case amount of None \<Rightarrow> Inr None | Some a \<Rightarrow> add_amounts parse cs (fl_add (fst acc) a, True))"

lemma add_amounts_append:
  "add_amounts parse (cs @ ds) acc = rbind (add_amounts parse cs acc) (\<lambda>r.
     case r of None \<Rightarrow> Inr None | Some acc' \<Rightarrow> add_amounts parse ds acc')"
proof (induction cs arbitrary: acc)
  case (Cons c cs)
  then show ?case by (cases "coerce_fill_amount parse c") (auto split: option.splits)
qed simp

lemma vget_mapping: "is_mapping v \<Longrightarrow> vget k dflt v = Inr (dget k dflt (dict_of v))"
  by (cases v) (simp_all add: is_mapping_def vget_def dget_def dict_of_def)

lemma maker_loop_amounts:
  "list_all is_mapping makers \<Longrightarrow> maker_loop parse shown key makers acc =
     add_amounts parse (map (\<lambda>m. dget ''matched_amount'' VNone (dict_of m))
       (filter (carries shown ''order_id'' key) makers)) acc"
  by (induction makers arbitrary: acc) (auto simp: vget_mapping carries_def)

lemma well_formed_makers:
  "well_formed_trade trade \<Longrightarrow>
   py_iter (py_or (dget ''maker_orders'' (VList []) (dict_of trade)) (VList [])) = Inr (makers_of trade)"
  by (auto simp: well_formed_trade_def py_or_def py_iter_def makers_of_def)

lemma trade_loop_amounts:
  assumes "list_all well_formed_trade trades"
  shows "trade_loop parse shown key trades acc
    = add_amounts parse (concat (map (trade_amounts shown key) trades)) acc"
  using assms
proof (induction trades arbitrary: acc)
  case (Cons t ts)
  then have t: "is_mapping t" "list_all is_mapping (makers_of t)" "well_formed_trade t"
    by (auto simp: well_formed_trade_def)
  show ?case
  proof (cases "carries shown ''taker_order_id'' key t")
    case True
    then have amounts: "trade_amounts shown key t = [dget ''size'' VNone (dict_of t)]"
      by (simp add: trade_amounts_def)
    from True Cons t show ?thesis by (simp add: amounts vget_mapping carries_def)
  next
    case False
    then have amounts: "maker_loop parse shown key (makers_of t) acc = add_amounts parse (trade_amounts shown key t) acc"
      using t(2) by (simp add: trade_amounts_def maker_loop_amounts)
    have later: "trade_loop parse shown key ts = add_amounts parse (concat (map (trade_amounts shown key) ts))"
      using Cons by (intro ext) simp
    from False t show ?thesis
      by (simp add: vget_mapping well_formed_makers amounts add_amounts_append later carries_def)
  qed
qed simp

lemma add_amounts_value:
  assumes "\<forall>c \<in> set cs. \<exists>a. coerce_fill_amount parse c = Inr a"
  shows "add_amounts parse cs acc = Inr
    (if \<exists>c \<in> set cs. coerce_fill_amount parse c = Inr None then None
     else Some (foldl fl_add (fst acc) (map (\<lambda>c. the (projr (coerce_fill_amount parse c))) cs),
                snd acc \<or> cs \<noteq> []))"
  using assms
proof (induction cs arbitrary: acc)
  case (Cons c cs)
  then obtain a where "coerce_fill_amount parse c = Inr a" by auto
  with Cons show ?case by (cases a) auto
qed simp

text \<open>
  On a page of well-formed trades whose amounts have a float value or none, the two nested loops
  return the left-to-right float sum of exactly the amounts filed under the key (the taker's size,
  or the matched amounts of the maker orders), provided there is such an amount, each is finite and
  not negative, and the sum is finite and positive; otherwise there is no proof of a fill.
\<close>

theorem match_fill_size_exact:
  assumes "list_all well_formed_trade trades"
    and "cs = concat (map (trade_amounts shown key) trades)"
    and "list_all (\<lambda>c. \<exists>a. coerce_fill_amount parse c = Inr a) cs"
  shows "match_fill_size parse shown trades key = Inr
    (let total = fl_sum (map (\<lambda>c. the (projr (coerce_fill_amount parse c))) cs) in
     if cs \<noteq> [] \<and> list_all (\<lambda>c. coerce_fill_amount parse c \<noteq> Inr None) cs
        \<and> isfinite total \<and> fl_lt fl_zero total
     then Some total else None)"
  using assms(3)
  by (auto simp: match_fill_size_def trade_loop_amounts [OF assms(1)] assms(2) [symmetric]
      add_amounts_value list_all_iff fl_sum_def Let_def)

definition demo_trade :: pyval where
  "demo_trade = VDict [(''taker_order_id'', VStr ''0xb''), (''maker_orders'', VList
     [VDict [(''order_id'', VStr ''0xa''), (''matched_amount'', VInt 2)],
      VDict [(''order_id'', VStr ''0xc''), (''matched_amount'', VInt 9)],
      VDict [(''order_id'', VStr ''0xa''), (''matched_amount'', VFloat (Fin 3))]])]"

theorem match_fill_size_exact_witness:
  "match_fill_size (\<lambda>_. None) (\<lambda>_. '''') [demo_trade] ''0xa'' = Inr (Some (Fin 5))"
proof -
  have wf: "list_all well_formed_trade [demo_trade]"
    by (simp add: well_formed_trade_def demo_trade_def is_mapping_def dget_def dict_of_def makers_of_def)
  have cs: "[VInt 2, VFloat (Fin 3)] = concat (map (trade_amounts (\<lambda>_. '''') ''0xa'') [demo_trade])"
    by (simp add: trade_amounts_def demo_trade_def carries_def dget_def dict_of_def makers_of_def)
  have am: "coerce_fill_amount (\<lambda>_. None) (VInt 2) = Inr (Some (Fin 2))"
    "coerce_fill_amount (\<lambda>_. None) (VFloat (Fin 3)) = Inr (Some (Fin 3))"
    by (simp_all add: coerce_fill_amount_def to_float_def float_of_int_def fl_fit_def)
  show ?thesis
    using match_fill_size_exact [OF wf cs, of "\<lambda>_. None"]
    by (simp add: am fl_sum_def)
qed

section \<open>No verdict without evidence\<close>

lemma assess_cases:
  assumes "reconcile_uncertain_submit parse shown r adapter = Inr s"
  shows "s = Ambiguous \<or> s = Resolved \<and> ps_venue_order_key r \<noteq> [] \<and>
    ((\<exists>x. fill_history_evidence parse shown adapter (ps_venue_order_key r) = Inr (Some x))
     \<or> terminal_status_evidence shown adapter (ps_venue_order_key r) = Inr True)"
  using assms
  by (auto simp: reconcile_uncertain_submit_def assess_uncertain_submit_def Let_def rbind_Inr_iff
      split: if_splits)

lemma evidence_converse:
  assumes "reconcile_uncertain_submit parse shown r adapter = Inr Ambiguous" and "ps_venue_order_key r \<noteq> []"
  shows "fill_history_evidence parse shown adapter (ps_venue_order_key r) = Inr None
    \<and> terminal_status_evidence shown adapter (ps_venue_order_key r) = Inr False"
  using assms
  by (auto simp: reconcile_uncertain_submit_def assess_uncertain_submit_def Let_def rbind_Inr_iff
      split: if_splits)

lemma evidence_needs_answer:
  "fill_history_evidence parse shown adapter key = Inr (Some x) \<Longrightarrow>
     \<exists>reader page. vr_get_fill_history adapter = Some reader \<and> reader key = Inr page"
  "terminal_status_evidence shown adapter key = Inr True \<Longrightarrow>
     \<exists>getter rec. vr_get_order adapter = Some getter \<and> getter key = Inr rec"
  by (auto simp: fill_history_evidence_def terminal_status_evidence_def split: option.splits sum.splits)

lemma match_fill_size_positive:
  "match_fill_size parse shown trades key = Inr (Some x) \<Longrightarrow> isfinite x \<and> fl_lt fl_zero x"
  by (auto simp: match_fill_size_def rbind_Inr_iff split: option.splits prod.splits if_splits)

lemma fill_history_evidence_positive:
  "fill_history_evidence parse shown adapter key = Inr (Some x) \<Longrightarrow> isfinite x \<and> fl_lt fl_zero x"
  by (auto simp: fill_history_evidence_def rbind_Inr_iff dest: match_fill_size_positive
      split: option.splits sum.splits if_splits)

text \<open>
  C16: the verdict on an uncertain submit is never \<open>DEFINITIVELY_ABSENT\<close>, and it is
  \<open>RESOLVED\<close> exactly when the record has a venue key and the venue answered with a positive
  finite fill or a terminal status for it; a missing or failing surface never counts. Whatever the
  venue answers, a resubmit of the same order is therefore refused, a new submit is not authorized
  while the verdict is \<open>AMBIGUOUS\<close> and the whole intended size stays reserved.
\<close>

theorem no_resubmit_without_proof:
  assumes "reconcile_uncertain_submit parse shown r adapter = Inr s"
  shows "s \<noteq> Definitively_Absent
    \<and> (s = Resolved \<longleftrightarrow> ps_venue_order_key r \<noteq> [] \<and>
        ((\<exists>x. fill_history_evidence parse shown adapter (ps_venue_order_key r) = Inr (Some x)
              \<and> isfinite x \<and> fl_lt fl_zero x)
         \<or> terminal_status_evidence shown adapter (ps_venue_order_key r) = Inr True))
    \<and> (\<exists>a. authorize_resubmit_against_venue_truth parse shown r cid adapter None = Inr a
           \<and> \<not> ra_authorized a \<and> ra_prior_state a = s)
    \<and> (retry_authorized_while s before_timeout \<longleftrightarrow> s = Resolved)
    \<and> worst_case_uncertain_exposure s sz = (if s = Resolved then fl_zero else sz)"
proof -
  have cases: "s = Ambiguous \<or> s = Resolved" using assess_cases [OF assms] by blast
  have "\<exists>a. authorize_resubmit_against_venue_truth parse shown r cid adapter None = Inr a
      \<and> \<not> ra_authorized a \<and> ra_prior_state a = s"
    using assms cases
    by (auto simp: authorize_resubmit_against_venue_truth_def duplicate_resubmit_authorized_def Let_def)
  moreover have "s = Resolved \<longleftrightarrow> ps_venue_order_key r \<noteq> [] \<and>
        ((\<exists>x. fill_history_evidence parse shown adapter (ps_venue_order_key r) = Inr (Some x)
              \<and> isfinite x \<and> fl_lt fl_zero x)
         \<or> terminal_status_evidence shown adapter (ps_venue_order_key r) = Inr True)"
    using assess_cases [OF assms] evidence_converse [of parse shown r adapter] assms
      fill_history_evidence_positive by fastforce
  ultimately show ?thesis
    using cases by (auto simp: retry_authorized_while_def worst_case_uncertain_exposure_def)
qed

definition silent_venue :: venue_reads where
  "silent_venue = \<lparr>vr_get_orders = Some (Inr (VList [])), vr_get_order = Some (\<lambda>_. Inl VenueError),
     vr_get_fill_history = None\<rparr>"

theorem no_resubmit_without_proof_witness:
  "\<exists>a. authorize_resubmit_against_venue_truth (\<lambda>_. None) (\<lambda>_. '''') demo_record ''c1'' silent_venue None = Inr a
     \<and> \<not> ra_authorized a \<and> ra_prior_state a = Ambiguous"
proof -
  have "reconcile_uncertain_submit (\<lambda>_. None) (\<lambda>_. '''') demo_record silent_venue = Inr Ambiguous"
    by (simp add: reconcile_uncertain_submit_def assess_uncertain_submit_def silent_venue_def demo_record_def
        open_candidate_count_def terminal_status_evidence_def fill_history_evidence_def py_len_def py_iter_def
        py_or_def)
  from no_resubmit_without_proof [OF this, of "''c1''"] show ?thesis by blast
qed

section \<open>The polling loop\<close>

text \<open>The loop started at query \<open>k\<close> ends at query \<open>j\<close> with result \<open>r\<close>.\<close>

definition poll_exit ::
  "(nat \<Rightarrow> uncertain_state result) \<Rightarrow> (nat \<Rightarrow> int) \<Rightarrow> int \<Rightarrow> nat \<Rightarrow> nat \<Rightarrow> (uncertain_state \<times> nat) result \<Rightarrow> bool" where
  "poll_exit poll clock timeout k j r \<longleftrightarrow> k \<le> j
     \<and> (\<forall>i. k \<le> i \<and> i < j \<longrightarrow> poll i = Inr Ambiguous \<and> clock (i + 1) - clock 0 < timeout)
     \<and> (case poll j of
          Inl e \<Rightarrow> r = Inl e
        | Inr s \<Rightarrow> r = Inr (s, j + 1) \<and> (s = Ambiguous \<longrightarrow> timeout \<le> clock (j + 1) - clock 0))"

lemma poll_exit_shift:
  assumes "poll_exit poll clock timeout (k + 1) j r" and "poll k = Inr Ambiguous"
    and "clock (k + 1) - clock 0 < timeout"
  shows "poll_exit poll clock timeout k j r"
proof -
  have "k \<le> i \<longleftrightarrow> i = k \<or> k + 1 \<le> i" for i by auto
  with assms show ?thesis by (auto simp: poll_exit_def)
qed

lemma poll_loop_exits:
  fixes clock :: "nat \<Rightarrow> int"
  assumes progress: "\<And>k. 1 \<le> k \<Longrightarrow> clock k + d \<le> clock (k + 1)" and "0 < d"
  shows "\<exists>r j. poll_loop poll clock timeout k = Some r \<and> poll_exit poll clock timeout k j r"
proof (induction "nat (timeout - (clock (k + 1) - clock 0))" arbitrary: k rule: less_induct)
  case less
  show ?case
  proof (cases "poll k = Inr Ambiguous \<and> clock (k + 1) - clock 0 < timeout")
    case True
    have "nat (timeout - (clock (k + 1 + 1) - clock 0)) < nat (timeout - (clock (k + 1) - clock 0))"
      using True progress [of "k + 1"] \<open>0 < d\<close> by auto
    from less [OF this] obtain r j where r: "poll_loop poll clock timeout (k + 1) = Some r"
      and j: "poll_exit poll clock timeout (k + 1) j r" by blast
    have "poll_loop poll clock timeout k = Some r" using True r by (subst poll_loop.simps) simp
    with poll_exit_shift [OF j] True show ?thesis by blast
  next
    case False
    show ?thesis
    proof (cases "poll k")
      case (Inl e)
      then have "poll_loop poll clock timeout k = Some (Inl e)" by (subst poll_loop.simps) simp
      with Inl show ?thesis by (auto simp: poll_exit_def intro!: exI [of _ k])
    next
      case (Inr s)
      with False have "poll_loop poll clock timeout k = Some (Inr (s, k + 1))"
        by (subst poll_loop.simps) auto
      with Inr False show ?thesis by (auto simp: poll_exit_def intro!: exI [of _ k])
    qed
  qed
qed

lemma clock_elapsed:
  fixes clock :: "nat \<Rightarrow> int"
  assumes "clock 0 \<le> clock 1" and "\<And>k. 1 \<le> k \<Longrightarrow> clock k + d \<le> clock (k + 1)"
  shows "int k * d \<le> clock (k + 1) - clock 0"
proof (induction k)
  case (Suc k)
  with assms(2) [of "k + 1"] show ?case by (simp add: algebra_simps)
qed (use assms(1) in simp)

text \<open>
  C17: the freeze always ends: when each sleep advances the injected clock by at least \<open>d > 0\<close>,
  the loop returns for every venue behaviour. It returns at the first query that raises or is not
  ambiguous, leaving the safety session untouched and making no venue call; or, all queries so far
  being ambiguous and the window over, it returns with submits blocked, having swept once if the
  session was open. The number of queries is bounded by the window.
\<close>

theorem ambiguous_freeze_ends:
  fixes clock :: "nat \<Rightarrow> int"
  assumes "clock 0 \<le> clock 1" and "\<And>k. 1 \<le> k \<Longrightarrow> clock k + d \<le> clock (k + 1)" and "0 < d"
  shows "\<exists>res s' n p. resolve_ambiguous_submit poll clock timeout clk cause wire s = Some (res, s', n)
    \<and> (\<forall>i < p. poll i = Inr Ambiguous)
    \<and> (p = 0 \<or> int (p - 1) * d < timeout)
    \<and> (case poll p of
         Inl e \<Rightarrow> res = Inl e \<and> s' = s \<and> n = 0
       | Inr st \<Rightarrow>
           if st \<noteq> Ambiguous then
             res = Inr \<lparr>ar_outcome = Lifted st, ar_polls = p + 1, ar_resolved_state = st,
                        ar_cancel_all_ack = None, ar_elapsed_ms = clock (p + 1) - clock 0\<rparr> \<and> s' = s \<and> n = 0
           else
             timeout \<le> clock (p + 1) - clock 0 \<and> \<not> check_can_submit s'
             \<and> n = (if check_can_submit s then 1 else 0)
             \<and> res = rbind (fst (cancel_all_and_block clk cause wire s)) (\<lambda>ack.
                 Inr \<lparr>ar_outcome = Swept_On_Timeout, ar_polls = p + 1, ar_resolved_state = Ambiguous,
                      ar_cancel_all_ack = Some ack, ar_elapsed_ms = clock (p + 2) - clock 0\<rparr>))"
proof -
  obtain r p where r: "poll_loop poll clock timeout 0 = Some r" and p: "poll_exit poll clock timeout 0 p r"
    using poll_loop_exits [of clock d, OF assms(2,3)] by blast
  have amb: "\<forall>i < p. poll i = Inr Ambiguous" using p by (simp add: poll_exit_def)
  have bound: "p = 0 \<or> int (p - 1) * d < timeout"
  proof (cases p)
    case (Suc q)
    then have "clock (q + 1) - clock 0 < timeout" using p by (auto simp: poll_exit_def)
    with clock_elapsed [of clock d, OF assms(1,2), of q] Suc show ?thesis by simp
  qed simp
  obtain r' s' n where c: "cancel_all_and_block clk cause wire s = (r', s', n)" by (metis prod.exhaust)
  have "\<not> check_can_submit s' \<and> n = (if check_can_submit s then 1 else 0)"
    using c by (rule cancel_all_and_block_blocks)
  with amb bound c r p show ?thesis
    by (cases "poll p") (auto simp: resolve_ambiguous_submit_def poll_exit_def intro!: exI [of _ p])
qed

theorem ambiguous_freeze_ends_witness:
  "\<exists>res s'. resolve_ambiguous_submit (\<lambda>_. Inr Ambiguous) (\<lambda>k. 500 * int k) 2000 id reconciliation_timeout
      (Inr 2) (new_safety_session ''s'') = Some (res, s', 1) \<and> \<not> check_can_submit s'"
  using ambiguous_freeze_ends [of "\<lambda>k. 500 * int k" 500 "\<lambda>_. Inr Ambiguous" 2000 id reconciliation_timeout
      "Inr 2" "new_safety_session ''s''"]
  by (auto simp: check_can_submit_def new_safety_session_def)

section \<open>Recorded fills are the venue's\<close>

lemma honest_record_cases:
  assumes "honest_venue_status parse shown (Some d) requested_size timed_out = Inr h"
  obtains x req st price where "size_field parse ''size_matched'' d = Inr x"
    and "h = (if fl_lt fl_zero x then
        \<lparr>hs_status = (if fl_lt fl_zero req \<and> fl_le req (fl_add x (fl_round (1 / 1000000000)))
                      then st_filled else st_partial),
         hs_filled_size = x, hs_fill_price = price, hs_is_fill_proven = True, hs_requested_size = req\<rparr>
      else unfilled st req)"
    and "st = st_unresolved \<or> \<not> timed_out \<and> st \<in> {st_expired, st_rejected}"
proof -
  define st where "st = no_fill_status timed_out (py_lower (py_strip (py_str shown (dget ''status'' (VStr '''') d))))"
  obtain x req price where "size_field parse ''size_matched'' d = Inr x"
    and "h = (if fl_lt fl_zero x then
        \<lparr>hs_status = (if fl_lt fl_zero req \<and> fl_le req (fl_add x (fl_round (1 / 1000000000)))
                      then st_filled else st_partial),
         hs_filled_size = x, hs_fill_price = price, hs_is_fill_proven = True, hs_requested_size = req\<rparr>
      else unfilled st req)"
    using assms unfolding honest_venue_status_def Let_def rbind_Inr_iff option.case st_def [symmetric]
    by (elim exE conjE) (rule that, assumption, drule sum.inject(2) [THEN iffD1], erule sym)
  moreover have "st = st_unresolved \<or> \<not> timed_out \<and> st \<in> {st_expired, st_rejected}"
    by (simp add: st_def no_fill_status_def)
  ultimately show thesis by (rule that)
qed

lemma honest_venue_status_cases:
  assumes "honest_venue_status parse shown rec requested_size timed_out = Inr h"
  shows "(\<exists>d x. rec = Some d \<and> size_field parse ''size_matched'' d = Inr x \<and> fl_lt fl_zero x
            \<and> hs_filled_size h = x \<and> hs_is_fill_proven h
            \<and> hs_status h = (if fl_lt fl_zero (hs_requested_size h)
                 \<and> fl_le (hs_requested_size h) (fl_add x (fl_round (1 / 1000000000)))
               then st_filled else st_partial))
    \<or> hs_filled_size h = fl_zero \<and> \<not> hs_is_fill_proven h \<and> hs_fill_price h = None
        \<and> (hs_status h = st_unresolved \<or> \<not> timed_out \<and> hs_status h \<in> {st_expired, st_rejected})
        \<and> (\<forall>d x. rec = Some d \<longrightarrow> size_field parse ''size_matched'' d = Inr x \<longrightarrow> \<not> fl_lt fl_zero x)"
proof (cases rec)
  case None
  with assms show ?thesis by (auto simp: honest_venue_status_def unfilled_def)
next
  case (Some d)
  obtain x req st price where x: "size_field parse ''size_matched'' d = Inr x"
    and h: "h = (if fl_lt fl_zero x then
        \<lparr>hs_status = (if fl_lt fl_zero req \<and> fl_le req (fl_add x (fl_round (1 / 1000000000)))
                      then st_filled else st_partial),
         hs_filled_size = x, hs_fill_price = price, hs_is_fill_proven = True, hs_requested_size = req\<rparr>
      else unfilled st req)"
    and st: "st = st_unresolved \<or> \<not> timed_out \<and> st \<in> {st_expired, st_rejected}"
    by (rule honest_record_cases [OF assms [unfolded Some]])
  show ?thesis
  proof (cases "fl_lt fl_zero x")
    case True
    then show ?thesis by (intro disjI1 exI [of _ d] exI [of _ x]) (simp add: Some x h)
  next
    case False
    then show ?thesis using st by (intro disjI2) (simp add: Some x h unfilled_def)
  qed
qed

text \<open>
  No fill is invented: a recorded status carries a nonzero size exactly when the venue's own
  matched size is positive, and then that very size; it is \<open>filled\<close> only if that size reaches the
  requested one up to the tolerance of \<open>1e-9\<close>, and \<open>partial\<close> otherwise. Without a positive
  matched size it is one of \<open>unresolved\<close>, \<open>expired\<close>, \<open>rejected\<close>, after a
  timeout always \<open>unresolved\<close>, with size zero and no price. The persisted event repeats the status and
  the size, and its price, if any, is in the unit interval.
\<close>

theorem recorded_fill_is_the_venues:
  assumes "honest_venue_status parse shown rec requested_size timed_out = Inr h"
    and "to_order_status_event h seq did cid void ts recv = Inr ev"
  shows "oe_status ev = hs_status h \<and> oe_filled_size ev = hs_filled_size h
    \<and> (hs_is_fill_proven h \<longleftrightarrow> (\<exists>d x. rec = Some d \<and> size_field parse ''size_matched'' d = Inr x \<and> fl_lt fl_zero x))
    \<and> (if hs_is_fill_proven h
       then (\<exists>d. rec = Some d \<and> size_field parse ''size_matched'' d = Inr (oe_filled_size ev))
          \<and> oe_status ev \<in> {st_filled, st_partial}
          \<and> (oe_status ev = st_filled \<longleftrightarrow> fl_lt fl_zero (hs_requested_size h)
               \<and> fl_le (hs_requested_size h) (fl_add (oe_filled_size ev) (fl_round (1 / 1000000000))))
       else oe_filled_size ev = fl_zero \<and> oe_fill_price ev = None
          \<and> oe_status ev \<in> {st_unresolved, st_expired, st_rejected}
          \<and> (timed_out \<longrightarrow> oe_status ev = st_unresolved))
    \<and> (\<forall>p. oe_fill_price ev = Some p \<longrightarrow> fl_le fl_zero p \<and> fl_le p fl_one)"
proof -
  have ev: "oe_status ev = hs_status h" "oe_filled_size ev = hs_filled_size h"
    "\<forall>p. oe_fill_price ev = Some p \<longrightarrow> fl_le fl_zero p \<and> fl_le p fl_one"
    "\<not> hs_is_fill_proven h \<Longrightarrow> oe_fill_price ev = None"
    using assms(2)
    by (auto simp: to_order_status_event_def Let_def rbind_Inr_iff reject_price_out_of_unit_interval_def
        split: option.splits if_splits)
  from honest_venue_status_cases [OF assms(1)] show ?thesis
  proof
    assume "\<exists>d x. rec = Some d \<and> size_field parse ''size_matched'' d = Inr x \<and> fl_lt fl_zero x
            \<and> hs_filled_size h = x \<and> hs_is_fill_proven h
            \<and> hs_status h = (if fl_lt fl_zero (hs_requested_size h)
                 \<and> fl_le (hs_requested_size h) (fl_add x (fl_round (1 / 1000000000)))
               then st_filled else st_partial)"
    then show ?thesis using ev(1-3) by (elim exE conjE) (simp, blast?)
  next
    assume "hs_filled_size h = fl_zero \<and> \<not> hs_is_fill_proven h \<and> hs_fill_price h = None
        \<and> (hs_status h = st_unresolved \<or> \<not> timed_out \<and> hs_status h \<in> {st_expired, st_rejected})
        \<and> (\<forall>d x. rec = Some d \<longrightarrow> size_field parse ''size_matched'' d = Inr x \<longrightarrow> \<not> fl_lt fl_zero x)"
    then show ?thesis using ev by (elim conjE) (simp, blast)
  qed
qed

definition demo_venue_order :: "(string \<times> pyval) list" where
  "demo_venue_order = [(''size_matched'', VInt 2), (''original_size'', VInt 5), (''status'', VStr ''LIVE'')]"

theorem recorded_fill_is_the_venues_witness:
  "\<exists>h ev. honest_venue_status (\<lambda>_. None) (\<lambda>_. '''') (Some demo_venue_order) (Fin 5) True = Inr h
     \<and> to_order_status_event h 1 ''d'' ''c'' None None 7 = Inr ev
     \<and> oe_filled_size ev = Fin 2 \<and> oe_status ev \<in> {st_filled, st_partial}"
proof -
  note defs = demo_venue_order_def size_field_def dget_def py_or_def to_float_def float_of_int_def fl_fit_def Let_def
  obtain h where h: "honest_venue_status (\<lambda>_. None) (\<lambda>_. '''') (Some demo_venue_order) (Fin 5) True = Inr h"
    "hs_is_fill_proven h" "hs_fill_price h = None"
    by (simp add: honest_venue_status_def defs)
  obtain ev where ev: "to_order_status_event h 1 ''d'' ''c'' None None 7 = Inr ev"
    using h(3) by (simp add: to_order_status_event_def)
  have "size_field (\<lambda>_. None) ''size_matched'' demo_venue_order = Inr (Fin 2)" by (simp add: defs)
  with recorded_fill_is_the_venues [OF h(1) ev] h(2) have "oe_filled_size ev = Fin 2"
    "oe_status ev \<in> {st_filled, st_partial}" by auto
  with h(1) ev show ?thesis by blast
qed

section \<open>The freeze survives a restart\<close>

text \<open>
  The snapshot rebuilt offline from a recovered record is the one taken before the restart whenever
  that one was frozen, and it always freezes and reserves the whole intended size: a restart never
  releases an exposure the venue has not resolved.
\<close>

theorem restart_keeps_the_freeze:
  assumes "reconcile_and_freeze parse shown r adapter sz = Inr f"
  shows "fz_frozen (reconstruct_uncertain_state r sz)
    \<and> fz_worst_case_exposure (reconstruct_uncertain_state r sz) = sz
    \<and> (fz_frozen f \<longrightarrow> reconstruct_uncertain_state r sz = f)
    \<and> (\<not> fz_frozen f \<longrightarrow> fz_state f = Resolved)"
  using assms assess_cases [of parse shown r adapter]
  by (auto simp: reconcile_and_freeze_def reconstruct_uncertain_state_def frozen_of_def rbind_Inr_iff
      freezes_new_submits_def worst_case_uncertain_exposure_def)

end
