(* ===== verification/Session_State.thy ===== *)
theory Session_State
  imports Risk
begin

text \<open>
  The durable session-state provider of \<open>src/veridex/dust_execution/session_state.py\<close>: attempt
  reservations and the realized-fill ledger behind one lock. Every public method holds the lock for
  its whole body, so concurrent callers are sequences of the operations below. \<open>now\<close> is an
  instant in microseconds since the epoch; a raised exception is the left injection and leaves the
  provider as it was.
\<close>

section \<open>Data\<close>

datatype recon_state = PENDING | RESOLVED | AMBIGUOUS | DEFINITIVELY_ABSENT

datatype scoped_outcome =
    RESERVED | PENDING_RECONCILE | COMMITTED | SCOPE_FROZEN
  | CAP_EXCEEDED_SESSION | CAP_EXCEEDED_DAY
  | LOSS_CAP_EXCEEDED_SESSION | LOSS_CAP_EXCEEDED_DAY

record reservation =
  rv_session_identity :: string
  rv_recon_state :: recon_state
  rv_venue_order_key :: "string option"

record provider =
  pv_reservations :: "(string, reservation) dict"
  pv_fills :: "(string, realized_fill list) dict"

record durable_session_state =
  ds_session_identity :: string
  ds_risk :: risk_accumulator
  ds_prior_session_order_count :: int
  ds_prior_day_order_count :: int

text \<open>The cap arguments of \<open>reserve_or_freeze\<close>; a cap that is not positive is disabled.\<close>

record order_caps =
  oc_max_orders_per_session :: int
  oc_max_orders_per_day :: int
  oc_max_session_loss :: pyfloat
  oc_max_daily_loss :: pyfloat
  oc_envelope_max_session_loss :: pyfloat
  oc_envelope_max_daily_loss :: pyfloat

definition new_provider :: provider where
  "new_provider = \<lparr>pv_reservations = [], pv_fills = []\<rparr>"

section \<open>Lock-free helpers\<close>

definition effective_loss_cap :: "pyfloat \<Rightarrow> pyfloat \<Rightarrow> pyfloat" where
  "effective_loss_cap envelope_cap manifest_cap =
     (let positives = filter (\<lambda>cap. fl_lt fl_zero cap) [envelope_cap, manifest_cap] in
      case positives of [] \<Rightarrow> fl_zero | c # cs \<Rightarrow> foldl py_min c cs)"

definition in_session :: "string \<Rightarrow> reservation \<Rightarrow> bool" where
  "in_session sid r \<longleftrightarrow> rv_session_identity r = sid"

definition unresolved :: "string \<Rightarrow> reservation \<Rightarrow> bool" where
  "unresolved sid r \<longleftrightarrow> rv_session_identity r = sid \<and> rv_recon_state r \<in> {PENDING, AMBIGUOUS}"

definition attempt_count :: "string \<Rightarrow> provider \<Rightarrow> nat" where
  "attempt_count sid st = count_values (in_session sid) (pv_reservations st)"

definition has_unresolved :: "string \<Rightarrow> provider \<Rightarrow> bool" where
  "has_unresolved sid st \<longleftrightarrow> (\<exists>(a, r) \<in> set (pv_reservations st). unresolved sid r)"

definition provider_fills :: "provider \<Rightarrow> string \<Rightarrow> realized_fill list" where
  "provider_fills st sid = (case map_of (pv_fills st) sid of None \<Rightarrow> [] | Some fs \<Rightarrow> fs)"

fun nets_on :: "int \<Rightarrow> realized_fill list \<Rightarrow> pyfloat list result" where
  "nets_on today [] = Inr []"
| "nets_on today (f # fs) =
     rbind (utc_day (rf_fill_ts_ms f)) (\<lambda>d.
     rbind (nets_on today fs) (\<lambda>ns. Inr (if d = today then net_pnl f # ns else ns)))"

definition provider_net_pnl :: "string \<Rightarrow> int \<Rightarrow> provider \<Rightarrow> (pyfloat \<times> pyfloat) result" where
  "provider_net_pnl sid now_us st =
     (let today = today_of now_us; fills = provider_fills st sid in
      rbind (nets_on today fills) (\<lambda>ns. Inr (fl_sum (map net_pnl fills), fl_sum ns)))"

definition reserve_or_load ::
  "string \<Rightarrow> string \<Rightarrow> string option \<Rightarrow> provider \<Rightarrow> scoped_outcome \<times> provider" where
  "reserve_or_load sid aid key st =
     (case map_of (pv_reservations st) aid of
        Some r \<Rightarrow> (if rv_recon_state r = RESOLVED then COMMITTED else PENDING_RECONCILE, st)
      | None \<Rightarrow>
          (RESERVED, st\<lparr>pv_reservations := AList.update aid
             \<lparr>rv_session_identity = sid, rv_recon_state = PENDING, rv_venue_order_key = key\<rparr>
             (pv_reservations st)\<rparr>))"

section \<open>Public operations\<close>

definition load :: "string \<Rightarrow> int \<Rightarrow> provider \<Rightarrow> durable_session_state result" where
  "load sid now_us st =
     rbind (provider_net_pnl sid now_us st) (\<lambda>(net_session, net_day).
     rbind (seeded sid net_session net_day (Some (today_of now_us))) (\<lambda>risk.
       let count = int (attempt_count sid st) in
       Inr \<lparr>ds_session_identity = sid, ds_risk = risk,
            ds_prior_session_order_count = count, ds_prior_day_order_count = count\<rparr>))"

definition reserve ::
  "string \<Rightarrow> string \<Rightarrow> string option \<Rightarrow> provider \<Rightarrow> scoped_outcome \<times> provider" where
  "reserve sid aid key st = reserve_or_load sid aid key st"

definition reserve_or_freeze ::
  "order_caps \<Rightarrow> string \<Rightarrow> int \<Rightarrow> string \<Rightarrow> string option \<Rightarrow> provider \<Rightarrow> (scoped_outcome \<times> provider) result" where
  "reserve_or_freeze caps sid now_us aid key st =
     (if map_of (pv_reservations st) aid = None then
        if has_unresolved sid st then Inr (SCOPE_FROZEN, st)
        else
          (let count = int (attempt_count sid st) in
           if 0 < oc_max_orders_per_session caps \<and> oc_max_orders_per_session caps \<le> count
           then Inr (CAP_EXCEEDED_SESSION, st)
           else if 0 < oc_max_orders_per_day caps \<and> oc_max_orders_per_day caps \<le> count
           then Inr (CAP_EXCEEDED_DAY, st)
           else
             (let eff_session = effective_loss_cap (oc_envelope_max_session_loss caps) (oc_max_session_loss caps);
                  eff_daily = effective_loss_cap (oc_envelope_max_daily_loss caps) (oc_max_daily_loss caps)
              in if fl_lt fl_zero eff_session \<or> fl_lt fl_zero eff_daily then
                   rbind (provider_net_pnl sid now_us st) (\<lambda>(net_session, net_day).
                     if cap_breached eff_session (py_max fl_zero (fl_neg net_session))
                     then Inr (LOSS_CAP_EXCEEDED_SESSION, st)
                     else if cap_breached eff_daily (py_max fl_zero (fl_neg net_day))
                     then Inr (LOSS_CAP_EXCEEDED_DAY, st)
                     else Inr (reserve_or_load sid aid key st))
                 else Inr (reserve_or_load sid aid key st)))
      else Inr (reserve_or_load sid aid key st))"

definition settle :: "string \<Rightarrow> recon_state \<Rightarrow> string option \<Rightarrow> provider \<Rightarrow> provider" where
  "settle aid rs key st =
     (case map_of (pv_reservations st) aid of
        None \<Rightarrow> st
      | Some r \<Rightarrow>
          if rs = DEFINITIVELY_ABSENT
          then st\<lparr>pv_reservations := AList.delete aid (pv_reservations st)\<rparr>
          else st\<lparr>pv_reservations := AList.update aid
                    (r\<lparr>rv_recon_state := rs,
                       rv_venue_order_key := (case key of None \<Rightarrow> rv_venue_order_key r | Some k \<Rightarrow> Some k)\<rparr>)
                    (pv_reservations st)\<rparr>)"

definition record_reconciled_fills :: "string \<Rightarrow> realized_fill list \<Rightarrow> provider \<Rightarrow> provider" where
  "record_reconciled_fills sid fills st =
     (if fills \<noteq> []
      then st\<lparr>pv_fills := AList.update sid (provider_fills st sid @ fills) (pv_fills st)\<rparr>
      else st)"

definition has_unresolved_reservation :: "string \<Rightarrow> provider \<Rightarrow> bool" where
  "has_unresolved_reservation sid st = has_unresolved sid st"

definition attempts :: "string \<Rightarrow> provider \<Rightarrow> nat" where
  "attempts sid st = attempt_count sid st"

lemmas provider_unfold [provider_defs] =
  reserve_or_load_def settle_def record_reconciled_fills_def

section \<open>The provider as a session ledger\<close>

lemma provider_fills_append:
  "provider_fills (record_reconciled_fills sid fs st) s =
     (if s = sid then provider_fills st s @ fs else provider_fills st s)"
  by (auto simp: provider_defs provider_fills_def update_conv')

interpretation provider_ledger: session_ledger "\<lambda>_. True" "\<lambda>_ _. True" provider_fills record_reconciled_fills
  by unfold_locales (simp_all add: provider_fills_append)

lemma nets_on_dated:
  "\<forall>f \<in> set fs. dated f \<Longrightarrow> nets_on today fs = Inr (map net_pnl (day_fills today fs))"
  by (induction fs) (auto simp: dated_def day_fills_def)


section \<open>Interleaved callers\<close>

text \<open>
  One step is one critical section of any caller on any session on the money path: the atomic
  admission \<open>reserve_or_freeze\<close>, a settlement, or a ledger append. The standalone \<open>reserve\<close>, which
  looks at neither the session's other rows nor its caps and which the facade never calls, is not a
  step. Each session has its own caps. With \<open>disciplined\<close> set, a settlement never takes a resolved
  row back to an unresolved state (the facade settles only the attempt it has just reserved);
  without it settlements are arbitrary. The lemmas \<open>reopening_settlement_defeats_the_freeze\<close> and
  \<open>standalone_reserve_ignores_the_freeze\<close> show what the two restrictions keep out.
\<close>

definition reopens :: "string \<Rightarrow> recon_state \<Rightarrow> provider \<Rightarrow> bool" where
  "reopens aid rs st \<longleftrightarrow> rs \<in> {PENDING, AMBIGUOUS} \<and>
     (case map_of (pv_reservations st) aid of None \<Rightarrow> False | Some r \<Rightarrow> rv_recon_state r = RESOLVED)"

inductive provider_step :: "(string \<Rightarrow> order_caps) \<Rightarrow> bool \<Rightarrow> provider \<Rightarrow> provider \<Rightarrow> bool"
  for caps :: "string \<Rightarrow> order_caps" and disciplined :: bool where
  step_reserve: "reserve_or_freeze (caps sid) sid now_us aid key st = Inr (out, st')
    \<Longrightarrow> provider_step caps disciplined st st'"
| step_settle: "disciplined \<longrightarrow> \<not> reopens aid rs st
    \<Longrightarrow> provider_step caps disciplined st (settle aid rs key st)"
| step_record: "provider_step caps disciplined st (record_reconciled_fills sid fs st)"

inductive provider_reachable :: "(string \<Rightarrow> order_caps) \<Rightarrow> bool \<Rightarrow> provider \<Rightarrow> bool"
  for caps :: "string \<Rightarrow> order_caps" and disciplined :: bool where
  reach_new: "provider_reachable caps disciplined new_provider"
| reach_step: "provider_reachable caps disciplined st \<Longrightarrow> provider_step caps disciplined st st'
    \<Longrightarrow> provider_reachable caps disciplined st'"

definition unresolved_count :: "string \<Rightarrow> provider \<Rightarrow> nat" where
  "unresolved_count sid st = count_values (unresolved sid) (pv_reservations st)"

lemma has_unresolved_iff: "has_unresolved sid st \<longleftrightarrow> unresolved_count sid st \<noteq> 0"
  by (auto simp: has_unresolved_def unresolved_count_def count_values_eq_0_iff simp del: not_gr_zero)

definition within_cap :: "int \<Rightarrow> nat \<Rightarrow> bool" where
  "within_cap cap n \<longleftrightarrow> 0 < cap \<longrightarrow> int n \<le> cap"

definition caps_held :: "(string \<Rightarrow> order_caps) \<Rightarrow> provider \<Rightarrow> bool" where
  "caps_held caps st \<longleftrightarrow> dict_ok (pv_reservations st) \<and>
     (\<forall>sid. within_cap (oc_max_orders_per_session (caps sid)) (attempt_count sid st) \<and>
            within_cap (oc_max_orders_per_day (caps sid)) (attempt_count sid st))"

text \<open>What a reservation needs, and what it leaves behind.\<close>

lemma reserve_or_load_fresh:
  assumes "map_of (pv_reservations st) aid = None"
  shows "fst (reserve_or_load sid aid key st) = RESERVED"
    and "attempt_count s (snd (reserve_or_load sid aid key st)) = attempt_count s st + (if s = sid then 1 else 0)"
    and "unresolved_count s (snd (reserve_or_load sid aid key st)) = unresolved_count s st + (if s = sid then 1 else 0)"
    and "dict_ok (pv_reservations st) \<Longrightarrow> dict_ok (pv_reservations (snd (reserve_or_load sid aid key st)))"
    and "provider_fills (snd (reserve_or_load sid aid key st)) = provider_fills st"
  using assms
  by (auto simp: provider_defs attempt_count_def unresolved_count_def count_values_update_new
      in_session_def unresolved_def provider_fills_def)

lemma reserve_or_load_known:
  "map_of (pv_reservations st) aid = Some r \<Longrightarrow>
   reserve_or_load sid aid key st = (if rv_recon_state r = RESOLVED then COMMITTED else PENDING_RECONCILE, st)"
  by (simp add: provider_defs)

lemma reserve_or_freeze_effect:
  assumes "reserve_or_freeze caps sid now aid key st = Inr (out, st')"
  shows "st' = st \<and> out \<noteq> RESERVED \<or>
    out = RESERVED \<and> map_of (pv_reservations st) aid = None \<and> \<not> has_unresolved sid st
    \<and> (0 < oc_max_orders_per_session caps \<longrightarrow> int (attempt_count sid st) < oc_max_orders_per_session caps)
    \<and> (0 < oc_max_orders_per_day caps \<longrightarrow> int (attempt_count sid st) < oc_max_orders_per_day caps)
    \<and> st' = snd (reserve_or_load sid aid key st)"
proof (cases "map_of (pv_reservations st) aid")
  case None
  then have "fst (reserve_or_load sid aid key st) = RESERVED" by (rule reserve_or_load_fresh)
  with None assms show ?thesis
    unfolding reserve_or_freeze_def Let_def
    by (auto simp: rbind_Inr_iff prod_eq_iff not_le split: if_splits)
next
  case (Some r)
  with assms show ?thesis
    by (auto simp: reserve_or_freeze_def reserve_or_load_known split: if_splits)
qed

lemma attempt_count_settle:
  assumes "dict_ok (pv_reservations st)"
  shows "attempt_count s (settle aid rs key st) \<le> attempt_count s st"
proof (cases "map_of (pv_reservations st) aid")
  case (Some r)
  have "count_values (in_session s) (AList.update aid r' (pv_reservations st)) = attempt_count s st"
    if "rv_session_identity r' = rv_session_identity r" for r' :: reservation
    using that Some by (simp add: attempt_count_def count_values_update_same in_session_def)
  with Some count_values_delete [OF assms Some, of "in_session s"] show ?thesis
    by (auto simp: provider_defs attempt_count_def)
qed (simp add: provider_defs)

lemma dict_ok_settle:
  "dict_ok (pv_reservations st) \<Longrightarrow> dict_ok (pv_reservations (settle aid rs key st))"
  by (auto simp: provider_defs split: option.split)

lemma record_frames [simp]:
  "pv_reservations (record_reconciled_fills sid fs st) = pv_reservations st"
  "attempt_count s (record_reconciled_fills sid fs st) = attempt_count s st"
  "unresolved_count s (record_reconciled_fills sid fs st) = unresolved_count s st"
  by (simp_all add: provider_defs attempt_count_def unresolved_count_def)

lemma caps_held_step:
  assumes "provider_step caps b st st'" and "caps_held caps st"
  shows "caps_held caps st'"
  using assms(1)
proof (cases rule: provider_step.cases)
  case (step_reserve sid now aid key out)
  from reserve_or_freeze_effect [OF step_reserve] assms(2) show ?thesis
    by (auto simp: caps_held_def within_cap_def reserve_or_load_fresh)
next
  case (step_settle aid rs key)
  have "within_cap cap (attempt_count s st')" if "within_cap cap (attempt_count s st)" for cap s
    using that attempt_count_settle [of st s aid rs key] assms(2) step_settle
    by (auto simp: caps_held_def within_cap_def)
  with assms(2) step_settle show ?thesis by (simp add: caps_held_def dict_ok_settle)
next
  case (step_record sid fs)
  with assms(2) show ?thesis by (simp add: caps_held_def)
qed

lemma caps_held_new: "caps_held caps new_provider"
  by (simp add: caps_held_def new_provider_def attempt_count_def count_values_def within_cap_def)

lemma caps_held_reachable: "provider_reachable caps b st \<Longrightarrow> caps_held caps st"
  by (induction rule: provider_reachable.induct) (auto intro: caps_held_new caps_held_step)

text \<open>
  C3: the order caps hold whatever the interleaving: in every state that any sequence of
  admissions, settlements and ledger appends of any callers can reach, a session whose order cap is
  enabled holds at most that many counted attempts, for the session and for the day cap.
\<close>

theorem order_caps_hold_when_interleaved:
  assumes "provider_reachable caps b st" and "0 < oc_max_orders_per_session (caps sid)"
    and "0 < oc_max_orders_per_day (caps sid)"
  shows "int (attempts sid st) \<le> min (oc_max_orders_per_session (caps sid)) (oc_max_orders_per_day (caps sid))"
  using caps_held_reachable [OF assms(1)] assms(2,3)
  by (simp add: caps_held_def within_cap_def attempts_def)

definition demo_caps :: order_caps where
  "demo_caps = \<lparr>oc_max_orders_per_session = 1, oc_max_orders_per_day = 2,
     oc_max_session_loss = Fin 50, oc_max_daily_loss = Fin 20,
     oc_envelope_max_session_loss = Fin 40, oc_envelope_max_daily_loss = fl_zero\<rparr>"

definition demo_reserved :: provider where
  "demo_reserved = \<lparr>pv_reservations =
     [(''a'', \<lparr>rv_session_identity = ''s'', rv_recon_state = PENDING, rv_venue_order_key = None\<rparr>)],
     pv_fills = []\<rparr>"

lemma demo_reserve:
  "reserve_or_freeze demo_caps ''s'' 0 ''a'' None new_provider = Inr (RESERVED, demo_reserved)"
  by code_simp

lemma demo_reachable: "provider_reachable (\<lambda>_. demo_caps) True demo_reserved"
  by (rule reach_step [OF reach_new step_reserve [of _ _ _ _ _ _ RESERVED]]) (rule demo_reserve)

theorem order_caps_hold_when_interleaved_witness:
  "attempts ''s'' demo_reserved = 1 \<and>
   int (attempts ''s'' demo_reserved) \<le> min (oc_max_orders_per_session demo_caps) (oc_max_orders_per_day demo_caps)"
proof -
  have "attempts ''s'' demo_reserved = 1" by code_simp
  then show ?thesis
    using order_caps_hold_when_interleaved [OF demo_reachable, of "''s''"] by (simp add: demo_caps_def)
qed

definition settled_row :: "recon_state \<Rightarrow> string option \<Rightarrow> reservation \<Rightarrow> reservation" where
  "settled_row rs key r = r\<lparr>rv_recon_state := rs,
     rv_venue_order_key := (case key of None \<Rightarrow> rv_venue_order_key r | Some k \<Rightarrow> Some k)\<rparr>"

lemma settle_cases:
  assumes "map_of (pv_reservations st) aid = Some r"
  shows "settle aid rs key st = st\<lparr>pv_reservations :=
    (if rs = DEFINITIVELY_ABSENT then AList.delete aid (pv_reservations st)
     else AList.update aid (settled_row rs key r) (pv_reservations st))\<rparr>"
  using assms by (simp add: provider_defs settled_row_def)

definition no_absent_rows :: "provider \<Rightarrow> bool" where
  "no_absent_rows st \<longleftrightarrow> (\<forall>r \<in> ran (map_of (pv_reservations st)). rv_recon_state r \<noteq> DEFINITIVELY_ABSENT)"

lemma no_absent_rows_settle: "no_absent_rows st \<Longrightarrow> no_absent_rows (settle aid rs key st)"
  by (cases "map_of (pv_reservations st) aid")
    (auto simp: no_absent_rows_def settle_cases update_conv' delete_conv' settled_row_def ran_def
      provider_defs split: if_splits)

lemma no_absent_rows_reserve:
  "no_absent_rows st \<Longrightarrow> no_absent_rows (snd (reserve_or_load sid aid key st))"
  by (auto simp: no_absent_rows_def provider_defs update_conv' ran_def split: option.splits if_splits)

lemma unresolved_count_settle:
  assumes "dict_ok (pv_reservations st)" and "no_absent_rows st" and "\<not> reopens aid rs st"
  shows "unresolved_count s (settle aid rs key st) \<le> unresolved_count s st"
proof (cases "map_of (pv_reservations st) aid")
  case (Some r)
  have "rv_recon_state r \<noteq> DEFINITIVELY_ABSENT"
    using assms(2) Some by (auto simp: no_absent_rows_def ran_def)
  then have "unresolved s (settled_row rs key r) \<Longrightarrow> unresolved s r"
    using assms(3) Some by (cases "rv_recon_state r") (auto simp: settled_row_def unresolved_def reopens_def)
  with count_values_update_old [OF Some, of "unresolved s" "settled_row rs key r"]
    count_values_delete [OF assms(1) Some, of "unresolved s"] Some
  show ?thesis by (auto simp: settle_cases unresolved_count_def split: if_splits)
qed (simp add: provider_defs)

definition freeze_inv :: "provider \<Rightarrow> bool" where
  "freeze_inv st \<longleftrightarrow> dict_ok (pv_reservations st) \<and> no_absent_rows st \<and> (\<forall>sid. unresolved_count sid st \<le> 1)"

lemma freeze_inv_step:
  assumes "provider_step caps True st st'" and "freeze_inv st"
  shows "freeze_inv st'"
  using assms(1)
proof (cases rule: provider_step.cases)
  case (step_reserve sid now aid key out)
  from reserve_or_freeze_effect [OF step_reserve] assms(2) show ?thesis
    by (auto simp: freeze_inv_def reserve_or_load_fresh no_absent_rows_reserve has_unresolved_iff)
next
  case (step_settle aid rs key)
  have "unresolved_count s st' \<le> 1" for s
    using unresolved_count_settle [of st aid rs s key] assms(2) step_settle
    by (auto simp: freeze_inv_def intro: le_trans)
  with assms(2) step_settle show ?thesis by (simp add: freeze_inv_def dict_ok_settle no_absent_rows_settle)
next
  case (step_record sid fs)
  with assms(2) show ?thesis by (simp add: freeze_inv_def no_absent_rows_def)
qed

lemma freeze_inv_reachable: "provider_reachable caps True st \<Longrightarrow> freeze_inv st"
proof (induction rule: provider_reachable.induct)
  case reach_new
  show ?case by (simp add: freeze_inv_def new_provider_def no_absent_rows_def unresolved_count_def count_values_def)
qed (rule freeze_inv_step)

text \<open>
  C2: at most one possibly-live order per session on the money path: in every state that the atomic
  admissions, ledger appends and settlements of any callers can reach, in any order and for any caps,
  provided that no settlement takes a resolved row back to PENDING or AMBIGUOUS, two unresolved
  reservations of the same session are the same attempt. The standalone reserve is not one of these
  operations.
\<close>

theorem one_unresolved_attempt_per_session:
  assumes "provider_reachable caps True st"
    and "map_of (pv_reservations st) a = Some r" and "unresolved sid r"
    and "map_of (pv_reservations st) b = Some r'" and "unresolved sid r'"
  shows "a = b"
  using freeze_inv_reachable [OF assms(1)] count_values_unique [OF _ _ assms(2-5)]
  by (auto simp: freeze_inv_def unresolved_count_def)

text \<open>A session with room for several orders: a first attempt resolved, a second one in flight.\<close>

definition roomy_caps :: order_caps where
  "roomy_caps = demo_caps\<lparr>oc_max_orders_per_session := 5, oc_max_orders_per_day := 5\<rparr>"

definition reserved_row :: "recon_state \<Rightarrow> reservation" where
  "reserved_row rs = \<lparr>rv_session_identity = ''s'', rv_recon_state = rs, rv_venue_order_key = None\<rparr>"

definition demo_second :: provider where
  "demo_second = \<lparr>pv_reservations = [(''a'', reserved_row RESOLVED), (''b'', reserved_row PENDING)], pv_fills = []\<rparr>"

lemma demo_second_steps:
  "reserve_or_freeze roomy_caps ''s'' 0 ''a'' None new_provider = Inr (RESERVED, demo_reserved)"
  "reserve_or_freeze roomy_caps ''s'' 0 ''b'' None (settle ''a'' RESOLVED None demo_reserved) = Inr (RESERVED, demo_second)"
  "\<not> reopens ''a'' RESOLVED demo_reserved"
  by code_simp+

lemma demo_second_reachable: "provider_reachable (\<lambda>_. roomy_caps) b demo_second"
proof -
  have "provider_reachable (\<lambda>_. roomy_caps) b demo_reserved"
    by (rule reach_step [OF reach_new step_reserve]) (rule demo_second_steps)
  then have "provider_reachable (\<lambda>_. roomy_caps) b (settle ''a'' RESOLVED None demo_reserved)"
    by (rule reach_step [OF _ step_settle]) (simp add: demo_second_steps)
  then show ?thesis by (rule reach_step [OF _ step_reserve]) (rule demo_second_steps)
qed

theorem one_unresolved_attempt_per_session_witness:
  "map fst (pv_reservations demo_second) = [''a'', ''b''] \<and>
   {x. \<exists>r. map_of (pv_reservations demo_second) x = Some r \<and> unresolved ''s'' r} = {''b''}"
proof -
  have b: "map_of (pv_reservations demo_second) ''b'' = Some (reserved_row PENDING)"
    by (simp add: demo_second_def)
  have u: "unresolved ''s'' (reserved_row PENDING)" by (simp add: reserved_row_def unresolved_def)
  have "x = ''b''" if "map_of (pv_reservations demo_second) x = Some r" and "unresolved ''s'' r" for x r
    by (rule one_unresolved_attempt_per_session [OF demo_second_reachable [of True] that b u])
  with b u have "{x. \<exists>r. map_of (pv_reservations demo_second) x = Some r \<and> unresolved ''s'' r} = {''b''}"
    by blast
  moreover have "map fst (pv_reservations demo_second) = [''a'', ''b'']" by (simp add: demo_second_def)
  ultimately show ?thesis by (rule conjI [rotated])
qed

text \<open>
  Why the settlements have to keep resolved rows resolved: an arbitrary settlement may reopen the
  first attempt while the second one is in flight, and the session then has two unresolved rows.
\<close>

lemma reopening_settlement_defeats_the_freeze:
  "provider_reachable (\<lambda>_. roomy_caps) False (settle ''a'' AMBIGUOUS None demo_second)"
  "reopens ''a'' AMBIGUOUS demo_second"
  "unresolved_count ''s'' (settle ''a'' AMBIGUOUS None demo_second) = 2"
proof -
  show "provider_reachable (\<lambda>_. roomy_caps) False (settle ''a'' AMBIGUOUS None demo_second)"
    by (rule reach_step [OF demo_second_reachable step_settle]) simp
qed code_simp+

text \<open>And why the standalone reserve is not a step: it grants a second attempt in a frozen session.\<close>

lemma standalone_reserve_ignores_the_freeze:
  assumes "map_of (pv_reservations st) aid = None"
  shows "fst (reserve sid aid key st) = RESERVED"
    and "unresolved_count sid (snd (reserve sid aid key st)) = Suc (unresolved_count sid st)"
  using assms
  by (simp_all add: reserve_def provider_defs update_new_append unresolved_count_def count_values_def unresolved_def)

section \<open>The admission decision\<close>

lemma effective_loss_cap_breached:
  "cap_breached (effective_loss_cap e m) l \<longleftrightarrow> cap_breached e l \<or> cap_breached m l"
  by (cases e; cases m; cases l) (auto simp: effective_loss_cap_def cap_breached_def py_min_def)

lemma effective_loss_cap_enabled:
  "fl_lt fl_zero (effective_loss_cap e m) \<longleftrightarrow> fl_lt fl_zero e \<or> fl_lt fl_zero m"
  by (cases e; cases m) (auto simp: effective_loss_cap_def py_min_def)

definition loss_axis_breached :: "order_caps \<Rightarrow> pyfloat \<Rightarrow> pyfloat \<Rightarrow> bool" where
  "loss_axis_breached caps net_session net_day \<longleftrightarrow>
     (let ls = py_max fl_zero (fl_neg net_session); ld = py_max fl_zero (fl_neg net_day) in
      cap_breached (oc_max_session_loss caps) ls \<or> cap_breached (oc_envelope_max_session_loss caps) ls
      \<or> cap_breached (oc_max_daily_loss caps) ld \<or> cap_breached (oc_envelope_max_daily_loss caps) ld)"

definition loss_caps_disabled :: "order_caps \<Rightarrow> bool" where
  "loss_caps_disabled caps \<longleftrightarrow> \<not> (\<exists>c \<in> {oc_max_session_loss caps, oc_envelope_max_session_loss caps,
     oc_max_daily_loss caps, oc_envelope_max_daily_loss caps}. fl_lt fl_zero c)"

text \<open>
  C1: the atomic admission grants a slot exactly when the attempt id is new, nothing unresolved
  occupies the session, both enabled order caps have room, and the realized loss summed from the
  ledger in the same critical section breaches none of the four loss caps (manifest and operator
  envelope, session and day, each authority on its own); an exception while summing never grants
  one unless every loss cap is disabled and nothing is summed. The granted slot is appended
  and nothing else changes.
\<close>

theorem reserve_or_freeze_grants_iff:
  "reserve_or_freeze caps sid now aid key st = Inr (RESERVED, st') \<longleftrightarrow>
     map_of (pv_reservations st) aid = None \<and> \<not> has_unresolved_reservation sid st
   \<and> \<not> (0 < oc_max_orders_per_session caps \<and> oc_max_orders_per_session caps \<le> int (attempts sid st))
   \<and> \<not> (0 < oc_max_orders_per_day caps \<and> oc_max_orders_per_day caps \<le> int (attempts sid st))
   \<and> (case provider_net_pnl sid now st of
        Inl _ \<Rightarrow> loss_caps_disabled caps
      | Inr (net_session, net_day) \<Rightarrow> \<not> loss_axis_breached caps net_session net_day)
   \<and> st' = st\<lparr>pv_reservations := pv_reservations st @
       [(aid, \<lparr>rv_session_identity = sid, rv_recon_state = PENDING, rv_venue_order_key = key\<rparr>)]\<rparr>"
proof (cases "map_of (pv_reservations st) aid")
  case None
  have load: "reserve_or_load sid aid key st = (RESERVED, st\<lparr>pv_reservations := pv_reservations st @
     [(aid, \<lparr>rv_session_identity = sid, rv_recon_state = PENDING, rv_venue_order_key = key\<rparr>)]\<rparr>)"
    using None by (simp add: provider_defs update_new_append)
  note d = reserve_or_freeze_def load Let_def effective_loss_cap_breached effective_loss_cap_enabled
    has_unresolved_reservation_def attempts_def
  show ?thesis
  proof (cases "provider_net_pnl sid now st")
    case (Inl e)
    with None show ?thesis by (auto simp: d loss_caps_disabled_def)
  next
    case (Inr p)
    obtain ns nd where p: "p = (ns, nd)" by (cases p)
    have "\<not> cap_breached c l" if "\<not> fl_lt fl_zero c" for c l
      using that by (rule cap_breached_disabled)
    with None Inr show ?thesis by (auto simp: d p loss_axis_breached_def)
  qed
next
  case (Some r)
  then show ?thesis by (auto simp: reserve_or_freeze_def reserve_or_load_known split: if_splits)
qed

section \<open>The life of one attempt\<close>

lemma delete_after_update_new:
  "map_of d k = None \<Longrightarrow> AList.delete k (AList.update k v d) = d"
  by (simp add: update_new_append AList.delete_eq map_of_eq_None_iff) (force intro: filter_True)

lemma reserved_row:
  assumes "reserve_or_freeze caps sid now aid key st = Inr (RESERVED, st')"
  shows "map_of (pv_reservations st') aid =
      Some \<lparr>rv_session_identity = sid, rv_recon_state = PENDING, rv_venue_order_key = key\<rparr>"
    and "unresolved_count sid st' = 1" and "attempt_count sid st' = attempt_count sid st + 1"
    and "settle aid DEFINITIVELY_ABSENT key' st' = st"
proof -
  have f: "map_of (pv_reservations st) aid = None" and u: "unresolved_count sid st = 0"
    and st': "st' = snd (reserve_or_load sid aid key st)"
    using reserve_or_freeze_effect [OF assms] by (simp_all add: has_unresolved_iff)
  show row: "map_of (pv_reservations st') aid =
      Some \<lparr>rv_session_identity = sid, rv_recon_state = PENDING, rv_venue_order_key = key\<rparr>"
    by (simp add: st' f reserve_or_load_def update_conv')
  show "unresolved_count sid st' = 1" "attempt_count sid st' = attempt_count sid st + 1"
    using u by (simp_all add: st' reserve_or_load_fresh [OF f])
  show "settle aid DEFINITIVELY_ABSENT key' st' = st"
    using f row by (simp add: settle_def) (simp add: st' reserve_or_load_def delete_after_update_new)
qed

lemma settle_unresolved_count:
  assumes "map_of (pv_reservations st) aid = Some r" and "rs \<noteq> DEFINITIVELY_ABSENT"
  shows "unresolved_count s (settle aid rs key st) + (if unresolved s r then 1 else 0)
    = unresolved_count s st + (if unresolved s (settled_row rs key r) then 1 else 0)"
    and "attempt_count s (settle aid rs key st) = attempt_count s st"
    and "map_of (pv_reservations (settle aid rs key st)) aid = Some (settled_row rs key r)"
  using assms count_values_update_old [OF assms(1), of "unresolved s" "settled_row rs key r"]
  by (auto simp: settle_cases unresolved_count_def attempt_count_def count_values_update_same
      in_session_def settled_row_def update_conv')

lemma frozen_scope:
  "has_unresolved sid st \<Longrightarrow> map_of (pv_reservations st) aid = None \<Longrightarrow>
   reserve_or_freeze caps sid now aid key st = Inr (SCOPE_FROZEN, st)"
  by (simp add: reserve_or_freeze_def)

lemma known_attempt:
  "map_of (pv_reservations st) aid = Some r \<Longrightarrow> reserve_or_freeze caps sid now aid key st =
     Inr (if rv_recon_state r = RESOLVED then COMMITTED else PENDING_RECONCILE, st)"
  by (simp add: reserve_or_freeze_def reserve_or_load_known)

text \<open>
  The life of a granted attempt, for every later caller and whatever caps it passes. A retry
  of the same attempt is refused as pending and any other attempt of the session is frozen, both
  without changing the state. An ambiguous settlement keeps both answers. A resolved settlement
  replays the retry as committed, unfreezes the session and keeps the slot counted. A release
  restores the provider to exactly the state before the reservation.
\<close>

theorem attempt_lifecycle:
  assumes "reserve_or_freeze caps sid now aid key st = Inr (RESERVED, st')"
    and "map_of (pv_reservations st') other = None"
  shows "reserve_or_freeze caps' sid now' aid key' st' = Inr (PENDING_RECONCILE, st')
   \<and> reserve_or_freeze caps' sid now' other key' st' = Inr (SCOPE_FROZEN, st')
   \<and> (let amb = settle aid AMBIGUOUS key'' st' in
        reserve_or_freeze caps' sid now' aid key' amb = Inr (PENDING_RECONCILE, amb)
        \<and> has_unresolved_reservation sid amb \<and> attempts sid amb = attempts sid st + 1)
   \<and> (let done = settle aid RESOLVED key'' st' in
        reserve_or_freeze caps' sid now' aid key' done = Inr (COMMITTED, done)
        \<and> \<not> has_unresolved_reservation sid done \<and> attempts sid done = attempts sid st + 1)
   \<and> settle aid DEFINITIVELY_ABSENT key'' st' = st"
proof -
  note r = reserved_row [OF assms(1)]
  have "has_unresolved sid st'" using r(2) by (simp add: has_unresolved_iff)
  moreover have "unresolved_count sid (settle aid AMBIGUOUS key'' st') = 1"
    "unresolved_count sid (settle aid RESOLVED key'' st') = 0"
    using r(2) settle_unresolved_count(1) [OF r(1), of AMBIGUOUS sid key'']
      settle_unresolved_count(1) [OF r(1), of RESOLVED sid key'']
    by (simp_all add: unresolved_def settled_row_def)
  ultimately show ?thesis
    using assms(2) r settle_unresolved_count(2,3) [OF r(1)]
    by (simp add: known_attempt frozen_scope Let_def has_unresolved_reservation_def has_unresolved_iff
        attempts_def settled_row_def)
qed

theorem attempt_lifecycle_witness:
  "reserve_or_freeze demo_caps ''s'' 0 ''a'' None demo_reserved = Inr (PENDING_RECONCILE, demo_reserved)
   \<and> reserve_or_freeze demo_caps ''s'' 0 ''b'' None demo_reserved = Inr (SCOPE_FROZEN, demo_reserved)
   \<and> settle ''a'' DEFINITIVELY_ABSENT None demo_reserved = new_provider"
proof -
  have "map_of (pv_reservations demo_reserved) ''b'' = None" by (simp add: demo_reserved_def)
  from attempt_lifecycle [OF demo_reserve this, of demo_caps 0 None None] show ?thesis by simp
qed

section \<open>Loss accounting agrees with the durable ledger\<close>

lemma provider_net_pnl_dated:
  "list_all dated (provider_fills st sid) \<Longrightarrow> provider_net_pnl sid now st =
     Inr (fl_sum (map net_pnl (provider_fills st sid)),
          fl_sum (map net_pnl (day_fills (today_of now) (provider_fills st sid))))"
  by (simp add: provider_net_pnl_def nets_on_dated list_all_iff Let_def)

text \<open>
  C5: the provider and the durable row ledger never drift: when both hold the same
  fills of a session, the risk accumulator that \<open>load\<close> hands out is the one that
  \<open>reconstruct_risk\<close> rebuilds from the rows, including when both refuse a sum that is not
  finite, and the two prior counts are the attempts reserved and not released.
\<close>

theorem load_agrees_with_reconstruct_risk:
  assumes "provider_fills st sid = ledger_fills rows sid"
    and "list_all fill_ok (ledger_fills rows sid)" and "list_all dated (ledger_fills rows sid)"
  shows "load sid now st =
    rbind (reconstruct_risk sid now rows) (\<lambda>risk.
      Inr \<lparr>ds_session_identity = sid, ds_risk = risk,
           ds_prior_session_order_count = int (attempts sid st),
           ds_prior_day_order_count = int (attempts sid st)\<rparr>)"
  using assms
  by (simp add: load_def provider_net_pnl_dated reconstruct_risk_eq attempts_def Let_def)

definition demo_losing :: provider where
  "demo_losing = record_reconciled_fills ''s'' [demo_fill 30, demo_fill 15] new_provider"

lemma demo_losing_fills: "provider_fills demo_losing ''s'' = [demo_fill 30, demo_fill 15]"
  by (simp add: demo_losing_def provider_fills_append) (simp add: provider_fills_def new_provider_def)

theorem load_agrees_with_reconstruct_risk_witness:
  "\<exists>rows risk. provider_fills demo_losing ''s'' = ledger_fills rows ''s''
     \<and> reconstruct_risk ''s'' 0 rows = Inr risk
     \<and> load ''s'' 0 demo_losing = Inr \<lparr>ds_session_identity = ''s'', ds_risk = risk,
           ds_prior_session_order_count = 0, ds_prior_day_order_count = 0\<rparr>"
proof -
  define rows where "rows = ledger_append ''s'' [demo_fill 30, demo_fill 15] empty_fill_store"
  have fills: "ledger_fills rows ''s'' = [demo_fill 30, demo_fill 15]"
    by (simp add: rows_def ledger_fills_append demo_fill_ok)
  have "list_all fill_ok (ledger_fills rows ''s'')" "list_all dated (ledger_fills rows ''s'')"
    by (simp_all add: fills demo_fill_ok)
  moreover from this have "\<exists>risk. reconstruct_risk ''s'' 0 rows = Inr risk"
    by (simp add: reconstruct_risk_eq fills day_fills_def demo_fill_day today_of_def seeded_def)
      (simp add: demo_fill_def net_pnl_def fl_sub_def fl_sum_def)
  moreover have "attempts ''s'' demo_losing = 0"
    by (simp add: attempts_def demo_losing_def attempt_count_def new_provider_def count_values_def)
  ultimately show ?thesis
    using load_agrees_with_reconstruct_risk [of demo_losing "''s''" rows 0]
    by (intro exI [of _ rows]) (auto simp: fills demo_losing_fills)
qed

text \<open>
  A realized-loss denial sticks: once the ledger loss of a session has reached the session cap
  of either authority, recording any further losing fills (for that or any other session) and
  settling any attempt never lets a new attempt of the session through.
\<close>

theorem session_loss_denial_persists:
  assumes "cap_breached cap (py_max fl_zero (fl_neg (fl_sum (map net_pnl (provider_fills st sid)))))"
    and "cap = oc_max_session_loss caps \<or> cap = oc_envelope_max_session_loss caps"
    and "fl_sum (map net_pnl (provider_fills st sid)) \<noteq> NaN"
    and "\<forall>f \<in> set fs. isfinite (net_pnl f) \<and> fl_le (net_pnl f) fl_zero"
    and "st' = settle aid' rs key' (record_reconciled_fills s fs st)"
  shows "\<nexists>st''. reserve_or_freeze caps sid now aid key st' = Inr (RESERVED, st'')"
proof -
  have fills: "provider_fills st' = provider_fills (record_reconciled_fills s fs st)"
    by (rule ext) (simp add: assms(5) settle_def provider_fills_def split: option.split)
  have "fl_le (provider_ledger.session_loss st sid) (provider_ledger.session_loss (record_reconciled_fills s fs st) sid)"
  proof (cases "s = sid")
    case True
    then show ?thesis
      using provider_ledger.losing_fills_keep_the_loss [of fs st sid] assms(3,4)
      by (simp add: provider_ledger.session_net_def list_all_iff)
  next
    case False
    then have "provider_ledger.session_net (record_reconciled_fills s fs st) sid = provider_ledger.session_net st sid"
      by (intro provider_ledger.other_sessions_unchanged) (auto simp: list_all_iff)
    then show ?thesis
      using assms(1) by (simp add: provider_ledger.session_loss_def) (auto simp: py_max_def)
  qed
  with assms(1) have "cap_breached cap (provider_ledger.session_loss (record_reconciled_fills s fs st) sid)"
    by (auto simp: provider_ledger.session_loss_def provider_ledger.session_net_def intro: cap_breached_mono)
  then have breach: "cap_breached (effective_loss_cap (oc_envelope_max_session_loss caps) (oc_max_session_loss caps))
      (py_max fl_zero (fl_neg (fl_sum (map net_pnl (provider_fills st' sid)))))"
    using assms(2) unfolding effective_loss_cap_breached
    by (auto simp: provider_ledger.session_loss_def provider_ledger.session_net_def fills)
  show ?thesis
  proof (rule notI, elim exE)
    fix st'' assume ok: "reserve_or_freeze caps sid now aid key st' = Inr (RESERVED, st'')"
    with breach show False
      by (auto simp: reserve_or_freeze_def Let_def cap_breached_def provider_net_pnl_def rbind_Inr_iff
          reserve_or_load_def split: if_splits option.splits)
  qed
qed

theorem session_loss_denial_persists_witness:
  "\<nexists>st''. reserve_or_freeze demo_caps ''s'' 0 ''a'' None
     (settle ''b'' RESOLVED None (record_reconciled_fills ''s'' [demo_fill 2] demo_losing)) = Inr (RESERVED, st'')"
proof (rule session_loss_denial_persists [OF _ _ _ _ refl])
  have net: "net_pnl (demo_fill n) = fl_round (- of_int n - 1)" for n
    by (simp add: demo_fill_def net_pnl_def fl_sub_def)
  show "cap_breached (Fin 40) (py_max fl_zero (fl_neg (fl_sum (map net_pnl (provider_fills demo_losing ''s'')))))"
    by (simp add: demo_losing_fills net fl_sum_def cap_breached_def py_max_def)
  show "fl_sum (map net_pnl (provider_fills demo_losing ''s'')) \<noteq> NaN"
    by (simp add: demo_losing_fills net fl_sum_def)
  show "\<forall>f \<in> set [demo_fill 2]. isfinite (net_pnl f) \<and> fl_le (net_pnl f) fl_zero"
    by (simp add: net)
qed (simp add: demo_caps_def)

end
