(* ===== verification/Dust_Runner.thy ===== *)
theory Dust_Runner
  imports Arming Reconcile Session_State
begin

text \<open>
  One pass of the dust-execution runner (\<open>src/veridex/dust_execution/runner.py\<close>) over the tokens of a
  manifest: the submit gates, the Mode B arming gate, the delegation of safety triggers to the emergency
  stop, the dispatch on the admitted intent and the lifecycle events of each order.

  Everything the runner is handed is a field of \<open>dust_env\<close>. Calls that leave the process (the venue
  adapter, the write port, the signer, the quote source, the clock) act on a world of arbitrary type and
  may raise; a surface an adapter lacks is \<open>None\<close>. The runner's own state is the sequence counter, the
  safety session and the loss accumulator. Log lines are left out.
\<close>

section \<open>Calls that leave the process\<close>

record 'w dust_adapter =
  va_cancel_all_orders :: "('w, int) eff option"
  va_get_orders :: "('w, pyval) eff option"
  va_get_order :: "(string \<Rightarrow> ('w, pyval) eff) option"
  va_get_fill_history :: "(string \<Rightarrow> ('w, pyval) eff) option"
  va_cancel_single_order :: "(string \<Rightarrow> ('w, pyval) eff) option"

datatype dust_tif = tif_FAK | tif_FOK | tif_GTC | tif_GTD

fun tif_text :: "dust_tif \<Rightarrow> string" where
  "tif_text tif_FAK = ''FAK''"
| "tif_text tif_FOK = ''FOK''"
| "tif_text tif_GTC = ''GTC''"
| "tif_text tif_GTD = ''GTD''"

record wire_order =
  wo_token_id :: string
  wo_side :: string
  wo_native_price :: pyfloat
  wo_size :: pyfloat
  wo_tif :: dust_tif
  wo_post_only :: bool
  wo_tick_size :: pyfloat
  wo_binding :: execution_wallet_binding
  wo_auth :: privy_auth_context
  wo_expiration_s :: int

record l2_submit_result =
  l2_presubmit_record :: presubmit_record
  l2_response :: "(string \<times> pyval) list"

type_synonym 'w write_port = "wire_order \<Rightarrow> ('w, l2_submit_result) eff"

section \<open>Quotes, decisions and the arming bundle\<close>

record dust_level =
  ql_price :: pyfloat
  ql_size :: pyfloat

record dust_quote =
  dq_token_id :: string
  dq_quote_ts_s :: int
  dq_event_suspended :: bool
  dq_no_quote :: bool
  dq_bid :: "dust_level option"
  dq_ask :: "dust_level option"

datatype abstain_reason =
    ab_stale_quote_age | ab_stale_source | ab_event_suspended | ab_no_quote | ab_missing_book_side
  | ab_negative_liquidity | ab_self_cross | ab_safety_blocked | ab_mode_a_no_orders
  | ab_manifest_hash_mismatch | ab_admission_denied | ab_mode_b_not_armed | ab_mode_b_legacy_signer
  | ab_mode_b_write_port_missing | ab_operator_interlock_unproven | ab_intent_no_quote
  | ab_intent_cancel_all | ab_intent_not_permitted | ab_intent_params_invalid | ab_intent_token_mismatch
  | ab_cancel_replace_old_order_live | ab_order_cap_run | ab_order_cap_session | ab_order_cap_day
  | ab_loss_cap_session | ab_loss_cap_day

record submit_decision =
  sd_token_id :: string
  sd_submitted :: bool
  sd_abstain_reason :: "abstain_reason option"
  sd_venue_order_id :: "string option"

record operator_interlock_proof =
  op_satisfied :: bool
  op_recording_receipt :: string
  op_events :: "operator_interlock_event list"
  op_operator_authorization_ref :: "string option"

record 'w mode_b_arming =
  am_mode_a_passed :: bool
  am_clobv2_gate :: clobv2_gate_result
  am_privy_preflight_ok :: "bool option"
  am_provisioning_ok :: "bool option"
  am_binding :: execution_wallet_binding
  am_live_policy :: privy_wallet_policy
  am_live_quorum :: authorization_quorum
  am_operator_interlock :: "operator_interlock_proof option"
  am_write_port :: "'w write_port option"
  am_order_auth :: "privy_auth_context option"

section \<open>The typed intent (\<open>facade.py\<close>)\<close>

datatype intent_kind = ik_make_quote | ik_take | ik_cancel_replace | ik_cancel_all | ik_no_quote

fun intent_text :: "intent_kind \<Rightarrow> string" where
  "intent_text ik_make_quote = ''make_quote''"
| "intent_text ik_take = ''take''"
| "intent_text ik_cancel_replace = ''cancel_replace''"
| "intent_text ik_cancel_all = ''cancel_all''"
| "intent_text ik_no_quote = ''no_quote''"

record mm_intent_params =
  ip_token_id :: "string option"
  ip_side :: "string option"
  ip_price :: "pyfloat option"
  ip_size :: "pyfloat option"
  ip_tif :: "dust_tif option"
  ip_client_order_id :: "string option"
  ip_replaces_client_order_id :: "string option"

definition no_intent_params :: mm_intent_params where
  "no_intent_params = \<lparr>ip_token_id = None, ip_side = None, ip_price = None, ip_size = None, ip_tif = None,
     ip_client_order_id = None, ip_replaces_client_order_id = None\<rparr>"

definition mk_intent_params :: "mm_intent_params \<Rightarrow> mm_intent_params result" where
  "mk_intent_params p =
     (case ip_price p of
        None \<Rightarrow> Inr p
      | Some price \<Rightarrow> rbind (reject_price_out_of_unit_interval price) (\<lambda>_. Inr p))"

record mm_request =
  rq_intent_kind :: intent_kind
  rq_intent_params :: mm_intent_params
  rq_strategy_id :: string
  rq_strategy_config_hash :: string
  rq_policy_hash :: string
  rq_session_id :: string
  rq_manifest_hash :: string
  rq_evidence_class :: evidence_class
  rq_mode :: execution_mode
  rq_reason :: "string option"
  rq_confidence :: "pyfloat option"

definition build_request :: "string \<Rightarrow> string \<Rightarrow> string \<Rightarrow> mm_request \<Rightarrow> mm_request result" where
  "build_request admitted_manifest_hash admitted_policy_hash admitted_strategy_config_hash rq =
     (if rq_manifest_hash rq \<noteq> admitted_manifest_hash \<or> rq_policy_hash rq \<noteq> admitted_policy_hash
         \<or> rq_strategy_config_hash rq \<noteq> admitted_strategy_config_hash
      then Inl ValueError else Inr rq)"

section \<open>Lifecycle events (\<open>contracts.py\<close>)\<close>

record dust_session_meta =
  xm_session_id :: string
  xm_mode :: execution_mode
  xm_wallet_ref :: string
  xm_manifest_hash :: string
  xm_policy_hash :: string
  xm_caps_snapshot :: "(string, pyfloat) dict"
  xm_market_fee_snapshot_hash :: string
  xm_operator_authorization_ref :: string
  xm_partial_content_hash :: "string option"
  xm_content_hash :: "string option"

record event_envelope =
  ee_sequence_no :: int
  ee_source_ts :: "int option"
  ee_recv_ts :: int

record risk_snapshot = event_envelope +
  rk_decision_id :: "string option"
  rk_realized_loss_session :: pyfloat
  rk_realized_loss_daily :: pyfloat
  rk_open_order_count :: int
  rk_breaker_open :: bool
  rk_kill_switch_engaged :: bool

record order_submit_intent = event_envelope +
  ot_token_id :: string
  ot_side :: string
  ot_price :: pyfloat
  ot_size :: pyfloat
  ot_tif :: dust_tif
  ot_client_order_id :: string
  ot_decision_id :: string
  ot_decision_ts :: int

record order_submit_attempt = event_envelope +
  oa_decision_id :: string
  oa_client_order_id :: string
  oa_request_payload_ref :: string
  oa_attempt_ts :: int
  oa_presubmit_record :: presubmit_record

record order_ack = event_envelope +
  ok_decision_id :: string
  ok_client_order_id :: string
  ok_venue_order_id :: "string option"
  ok_ack_status :: string

record order_cancel = event_envelope +
  oc_decision_id :: "string option"
  oc_client_order_id :: string
  oc_venue_order_id :: "string option"
  oc_canceled :: bool

record real_fill_reconciliation = event_envelope +
  rr_decision_id :: string
  rr_venue_order_key :: string
  rr_reconciled_state :: uncertain_state
  rr_reconciled_fill_size :: pyfloat

record dust_run_label = event_envelope +
  dl_run_label :: string
  dl_evidence_class :: evidence_class
  dl_calibration_label :: string
  dl_edge_label :: string

datatype lifecycle_event =
    RiskEvent risk_snapshot
  | IntentEvent order_submit_intent
  | AttemptEvent order_submit_attempt
  | AckEvent order_ack
  | CancelEvent order_cancel
  | StatusEvent order_status_event
  | ReconciliationEvent real_fill_reconciliation
  | LabelEvent dust_run_label

fun lifecycle_seq :: "lifecycle_event \<Rightarrow> int" where
  "lifecycle_seq (RiskEvent e) = ee_sequence_no e"
| "lifecycle_seq (IntentEvent e) = ee_sequence_no e"
| "lifecycle_seq (AttemptEvent e) = ee_sequence_no e"
| "lifecycle_seq (AckEvent e) = ee_sequence_no e"
| "lifecycle_seq (CancelEvent e) = ee_sequence_no e"
| "lifecycle_seq (StatusEvent e) = oe_sequence_no e"
| "lifecycle_seq (ReconciliationEvent e) = ee_sequence_no e"
| "lifecycle_seq (LabelEvent e) = ee_sequence_no e"

definition mk_order_submit_intent :: "order_submit_intent \<Rightarrow> order_submit_intent result" where
  "mk_order_submit_intent e = rbind (reject_price_out_of_unit_interval (ot_price e)) (\<lambda>_. Inr e)"

section \<open>The run's inputs and state\<close>

datatype shutdown_policy = shut_cancel_all | shut_leave_open

record 'w dust_env =
  de_codec :: codec
  de_parse :: "string \<Rightarrow> pyfloat option"
  de_shown :: "pyval \<Rightarrow> string"
  de_float_text :: "pyfloat \<Rightarrow> string"
  de_manifest_hash :: "strategy_manifest \<Rightarrow> string"
  de_policy_hash :: "policy_envelope \<Rightarrow> string"
  de_stop_clock :: "int \<Rightarrow> int"
  de_adapter :: "'w dust_adapter"
  de_signer :: "'w signer"
  de_read_quote :: "string \<Rightarrow> ('w, dust_quote) eff"
  de_now :: "('w, int) eff"
  de_envelope :: policy_envelope
  de_manifest :: strategy_manifest
  de_mode :: execution_mode
  de_wallet_equity_at_decision :: pyfloat
  de_fixed_fraction :: pyfloat
  de_request :: "mm_request option"
  de_arming :: "'w mode_b_arming option"
  de_interlock_store :: "interlock_store option"
  de_breaker :: "circuit_breaker option"
  de_own_legs :: "own_order_leg list"
  de_tick_size :: pyfloat
  de_shutdown_policy :: shutdown_policy

record 'w runner =
  ru_next_seq :: int
  ru_session :: safety_session
  ru_risk :: risk_accumulator
  ru_world :: 'w

definition on_world :: "('w, 'a) eff \<Rightarrow> ('w runner, 'a) eff" where
  "on_world m = (\<lambda>s. case m (ru_world s) of (r, w) \<Rightarrow> (r, s\<lparr>ru_world := w\<rparr>))"

text \<open>A call inside \<open>try ... except Exception\<close>: its outcome as a value.\<close>

definition eattempt :: "('s, 'a) eff \<Rightarrow> ('s, 'a result) eff" where
  "eattempt m = (\<lambda>s. case m s of (r, s') \<Rightarrow> (Inr r, s'))"

definition seq_next :: "('w runner, int) eff" where
  "seq_next = (\<lambda>s. (Inr (ru_next_seq s), s\<lparr>ru_next_seq := ru_next_seq s + 1\<rparr>))"

definition now_ms :: "'w dust_env \<Rightarrow> ('w runner, int) eff" where
  "now_ms de = ebind (on_world (de_now de)) (\<lambda>t. ereturn (t * 1000))"

definition breaker_is_open :: "circuit_breaker option \<Rightarrow> bool" where
  "breaker_is_open b = (case b of None \<Rightarrow> False | Some c \<Rightarrow> cb_state c = OPEN)"

section \<open>Session-level records\<close>

fun mode_text :: "execution_mode \<Rightarrow> string" where
  "mode_text dry_run = ''dry_run''"
| "mode_text live_guarded = ''live_guarded''"

definition provisional_session_id :: "strategy_manifest \<Rightarrow> execution_mode \<Rightarrow> string" where
  "provisional_session_id m mode = sm_strategy_id m @ '':'' @ mode_text mode"

definition build_session_meta :: "'w dust_env \<Rightarrow> string option \<Rightarrow> dust_session_meta result" where
  "build_session_meta de session_identity =
     (let m = de_manifest de in
      rbind (float_of_int (sm_max_orders m)) (\<lambda>max_orders. Inr
        \<lparr>xm_session_id = (case session_identity of Some sid \<Rightarrow> sid | None \<Rightarrow> provisional_session_id m (de_mode de)),
         xm_mode = de_mode de, xm_wallet_ref = signer_mode_text (sg_mode (de_signer de)),
         xm_manifest_hash = de_manifest_hash de m, xm_policy_hash = de_policy_hash de (de_envelope de),
         xm_caps_snapshot = [(''max_orders'', max_orders), (''max_notional'', sm_max_notional m),
           (''max_session_loss'', sm_max_session_loss m), (''max_daily_loss'', sm_max_daily_loss m)],
         xm_market_fee_snapshot_hash = sm_market_fee_snapshot_hash m,
         xm_operator_authorization_ref = sm_operator_authorization m,
         xm_partial_content_hash = None, xm_content_hash = None\<rparr>))"

definition build_risk_snapshot ::
  "'w dust_env \<Rightarrow> int \<Rightarrow> int \<Rightarrow> risk_accumulator \<Rightarrow> int \<Rightarrow> lifecycle_event" where
  "build_risk_snapshot de seq now risk open_order_count = RiskEvent
     \<lparr>ee_sequence_no = seq, ee_source_ts = None, ee_recv_ts = now, rk_decision_id = None,
      rk_realized_loss_session = realized_loss_session risk, rk_realized_loss_daily = realized_loss_day risk,
      rk_open_order_count = open_order_count, rk_breaker_open = breaker_is_open (de_breaker de),
      rk_kill_switch_engaged = pe_kill_switch (de_envelope de)\<rparr>"

definition build_label_event :: "'w dust_env \<Rightarrow> int \<Rightarrow> int \<Rightarrow> lifecycle_event" where
  "build_label_event de seq now = LabelEvent
     \<lparr>ee_sequence_no = seq, ee_source_ts = None, ee_recv_ts = now, dl_run_label = ''DUST_LIVE'',
      dl_evidence_class = sm_evidence_class (de_manifest de), dl_calibration_label = ''UNCALIBRATED'',
      dl_edge_label = ''NOT_PROVEN_EDGE''\<rparr>"

section \<open>Delegation to the emergency stop\<close>

definition require_cancel_all_adapter :: "'w dust_env \<Rightarrow> ('w runner, ('w, int) eff) eff" where
  "require_cancel_all_adapter de =
     elift (case va_cancel_all_orders (de_adapter de) of None \<Rightarrow> Inl TypeError | Some wire \<Rightarrow> Inr wire)"

definition require_single_cancel_venue :: "'w dust_env \<Rightarrow> ('w runner, string \<Rightarrow> ('w, pyval) eff) eff" where
  "require_single_cancel_venue de =
     elift (case va_cancel_single_order (de_adapter de) of None \<Rightarrow> Inl TypeError | Some cancel \<Rightarrow> Inr cancel)"

text \<open>The primitive of the emergency stop, with the venue call made when the primitive makes it.\<close>

definition stop_and_sweep :: "'w dust_env \<Rightarrow> cancel_cause \<Rightarrow> ('w, int) eff \<Rightarrow> ('w runner, unit) eff" where
  "stop_and_sweep de cause wire = (\<lambda>s.
     (let called = wire (ru_world s);
          (r, session, calls) = cancel_all_and_block (de_stop_clock de) cause (fst called) (ru_session s)
      in (rbind r (\<lambda>_. Inr ()),
          s\<lparr>ru_session := session, ru_world := (if calls = 0 then ru_world s else snd called)\<rparr>)))"

definition fold_realized_fill :: "'w dust_env \<Rightarrow> realized_fill \<Rightarrow> ('w runner, unit) eff" where
  "fold_realized_fill de fill =
     ebind (require_cancel_all_adapter de) (\<lambda>wire s.
       (let called = wire (ru_world s);
            (r, risk, session, calls) = on_realized_fill (de_stop_clock de) (RealFill fill) (fst called)
              (de_envelope de) (ru_risk s) (ru_session s)
        in (rbind r (\<lambda>_. Inr ()),
            s\<lparr>ru_session := session, ru_risk := risk, ru_world := (if calls = 0 then ru_world s else snd called)\<rparr>)))"

definition apply_safety_triggers :: "'w dust_env \<Rightarrow> realized_fill list \<Rightarrow> ('w runner, unit) eff" where
  "apply_safety_triggers de realized_fills =
     ebind (efor realized_fills (fold_realized_fill de)) (\<lambda>_.
     ebind (if breaker_is_open (de_breaker de)
            then ebind (require_cancel_all_adapter de) (stop_and_sweep de breaker) else ereturn ()) (\<lambda>_.
     if pe_kill_switch (de_envelope de)
     then ebind (require_cancel_all_adapter de) (stop_and_sweep de kill_switch) else ereturn ()))"

text \<open>\<open>None\<close> is a read that cannot be trusted.\<close>

definition read_startup_open_orders :: "'w dust_env \<Rightarrow> ('w runner, pyval list option) eff" where
  "read_startup_open_orders de =
     (case va_get_orders (de_adapter de) of
        None \<Rightarrow> ereturn None
      | Some getter \<Rightarrow> ebind (eattempt (on_world getter)) (\<lambda>response.
          ereturn (case response of Inr (VList orders) \<Rightarrow> Some orders | _ \<Rightarrow> None)))"

definition startup_open_order_sweep :: "'w dust_env \<Rightarrow> bool \<Rightarrow> ('w runner, int) eff" where
  "startup_open_order_sweep de enforce =
     ebind (read_startup_open_orders de) (\<lambda>read.
       case read of
         None \<Rightarrow>
           ebind (if enforce then
                    (case va_cancel_all_orders (de_adapter de) of
                       Some wire \<Rightarrow> stop_and_sweep de manual wire
                     | None \<Rightarrow> eupdate (\<lambda>s. s\<lparr>ru_session := (ru_session s)
                         \<lparr>sf_submit_blocked := True, sf_block_cause := Some manual\<rparr>\<rparr>))
                  else ereturn ()) (\<lambda>_. ereturn (- 1))
       | Some open_orders \<Rightarrow>
           (let n = int (length open_orders) in
            ebind (if enforce \<and> 0 < n
                   then ebind (require_cancel_all_adapter de) (stop_and_sweep de manual) else ereturn ()) (\<lambda>_.
            ereturn n)))"

record shutdown_decision =
  sh_policy :: shutdown_policy
  sh_cancel_all_fired :: bool
  sh_already_satisfied_by_prior_sweep :: bool

definition apply_shutdown_decision :: "'w dust_env \<Rightarrow> ('w runner, shutdown_decision) eff" where
  "apply_shutdown_decision de =
     (if de_shutdown_policy de = shut_cancel_all \<and> de_mode de = live_guarded then
        ebind (eread (\<lambda>s. sf_submit_blocked (ru_session s))) (\<lambda>already_satisfied.
        ebind (require_cancel_all_adapter de) (\<lambda>wire.
        ebind (stop_and_sweep de shutdown wire) (\<lambda>_.
        ereturn \<lparr>sh_policy = shut_cancel_all, sh_cancel_all_fired = (\<not> already_satisfied),
                 sh_already_satisfied_by_prior_sweep = already_satisfied\<rparr>)))
      else ereturn \<lparr>sh_policy = de_shutdown_policy de, sh_cancel_all_fired = False,
                    sh_already_satisfied_by_prior_sweep = False\<rparr>)"

section \<open>Gates\<close>

definition evaluate_submit_gate :: "dust_quote \<Rightarrow> int \<Rightarrow> int \<Rightarrow> abstain_reason option" where
  "evaluate_submit_gate quote now_s max_quote_age_s =
     (if dq_event_suspended quote then Some ab_event_suspended
      else if dq_no_quote quote then Some ab_no_quote
      else case (dq_bid quote, dq_ask quote) of
        (Some bid, Some ask) \<Rightarrow>
          if fl_lt (ql_size bid) fl_zero \<or> fl_lt (ql_size ask) fl_zero then Some ab_negative_liquidity
          else if max_quote_age_s < now_s - dq_quote_ts_s quote then Some ab_stale_quote_age
          else None
      | _ \<Rightarrow> Some ab_missing_book_side)"

definition non_crossing_gate ::
  "own_order_leg \<Rightarrow> own_order_leg list \<Rightarrow> pyfloat \<Rightarrow> abstain_reason option result" where
  "non_crossing_gate proposed own_legs tick_size =
     rbind (check_non_crossing tick_size (own_legs @ [proposed])) (\<lambda>verdict.
       Inr (if nv_admitted verdict then None else Some ab_self_cross))"

definition resolve_wire_size :: "'w dust_env \<Rightarrow> pyfloat result" where
  "resolve_wire_size de =
     (let env = de_envelope de;
          max_per_order = (if fl_lt fl_zero (pe_max_stake_live_guarded env) then pe_max_stake_live_guarded env
                           else pe_max_stake env)
      in resolve_dust_size (de_fixed_fraction de) (de_wallet_equity_at_decision de)
           (sm_max_notional (de_manifest de)) max_per_order)"

definition native_to_decimal_odds :: "pyfloat \<Rightarrow> pyfloat result" where
  "native_to_decimal_odds native_price =
     (if \<not> fl_lt fl_zero native_price \<or> fl_lt fl_one native_price then Inl ValueError
      else fl_div fl_one native_price)"

definition build_admission :: "'w dust_env \<Rightarrow> risk_accumulator \<Rightarrow> string \<Rightarrow> int \<Rightarrow> admission_decision" where
  "build_admission de risk session_id open_order_count =
     authorization_evaluate (de_manifest_hash de) (Some (de_manifest de)) (de_policy_hash de (de_envelope de))
       \<lparr>ss_session_id = session_id, ss_realized_loss_session = realized_loss_session risk,
        ss_realized_loss_daily = realized_loss_day risk, ss_open_order_count = open_order_count,
        ss_breaker_open = breaker_is_open (de_breaker de), ss_kill_switch_engaged = pe_kill_switch (de_envelope de)\<rparr>"

definition loss_cap_block_reason :: "'w dust_env \<Rightarrow> risk_accumulator \<Rightarrow> abstain_reason option" where
  "loss_cap_block_reason de risk =
     (let env = de_envelope de; m = de_manifest de in
      if cap_breached (effective_loss_cap (pe_max_session_loss env) (sm_max_session_loss m)) (realized_loss_session risk)
      then Some ab_loss_cap_session
      else if cap_breached (effective_loss_cap (pe_max_daily_loss env) (sm_max_daily_loss m)) (realized_loss_day risk)
      then Some ab_loss_cap_day
      else None)"

definition authorization_block_reason :: "'w dust_env \<Rightarrow> admission_decision \<Rightarrow> abstain_reason option" where
  "authorization_block_reason de admission =
     (if (case de_request de of
            None \<Rightarrow> False
          | Some rq \<Rightarrow> rq_manifest_hash rq \<noteq> de_manifest_hash de (de_manifest de)
              \<or> rq_policy_hash rq \<noteq> de_policy_hash de (de_envelope de)
              \<or> rq_strategy_config_hash rq \<noteq> sm_strategy_config_hash (de_manifest de))
      then Some ab_manifest_hash_mismatch
      else if ad_verdict admission = admission_verdict.DENY then Some ab_admission_denied
      else None)"

definition arming_attempt_ref :: "'w mode_b_arming \<Rightarrow> string" where
  "arming_attempt_ref arming = (case am_order_auth arming of Some auth \<Rightarrow> pa_idempotency_key auth | None \<Rightarrow> [])"

text \<open>The three checks inside \<open>try ... except FailClosed\<close> raise nothing else.\<close>

definition mode_b_arming_block_reason :: "'w dust_env \<Rightarrow> string \<Rightarrow> abstain_reason option" where
  "mode_b_arming_block_reason de session_id =
     (case de_arming de of
        None \<Rightarrow> Some ab_mode_b_not_armed
      | Some arming \<Rightarrow>
          if \<not> am_mode_a_passed arming then Some ab_mode_b_not_armed
          else if \<not> mode_b_admitted (am_clobv2_gate arming) then Some ab_mode_b_not_armed
          else if am_privy_preflight_ok arming \<noteq> Some True then Some ab_mode_b_not_armed
          else if am_provisioning_ok arming \<noteq> Some True then Some ab_mode_b_not_armed
          else if authorize_mode_b (de_envelope de) = Inl FailClosed then Some ab_mode_b_not_armed
          else if execute_with (de_codec de) (de_manifest de) (am_binding arming) = Inl FailClosed
            then Some ab_mode_b_not_armed
          else if arm_mode_b (de_codec de) (am_binding arming) (Some (am_live_policy arming))
                    (Some (am_live_quorum arming)) = Inl FailClosed
            then Some ab_mode_b_not_armed
          else if sg_mode (de_signer de) = FAKE_LOCAL then Some ab_mode_b_legacy_signer
          else if am_write_port arming = None \<or> am_order_auth arming = None then Some ab_mode_b_write_port_missing
          else case (am_operator_interlock arming, de_interlock_store de) of
            (Some proof, Some rows) \<Rightarrow>
              if \<not> interlock_events_are_canonical (op_events proof) then Some ab_operator_interlock_unproven
              else if \<not> interlock_verify (de_codec de) session_id (op_events proof)
                          (op_operator_authorization_ref proof) (arming_attempt_ref arming)
                          (op_recording_receipt proof) rows
              then Some ab_operator_interlock_unproven
              else None
          | _ \<Rightarrow> Some ab_operator_interlock_unproven)"

definition effective_intent :: "mm_request option \<Rightarrow> intent_kind \<times> mm_intent_params" where
  "effective_intent request =
     (case request of
        None \<Rightarrow> (ik_take, no_intent_params)
      | Some rq \<Rightarrow> (rq_intent_kind rq, rq_intent_params rq))"

definition intent_block_reason :: "mm_request option \<Rightarrow> strategy_manifest \<Rightarrow> abstain_reason option" where
  "intent_block_reason request m =
     (case request of
        None \<Rightarrow> None
      | Some rq \<Rightarrow>
          if intent_text (rq_intent_kind rq) \<notin> set (sm_permitted_intent_kinds m) then Some ab_intent_not_permitted
          else if rq_intent_kind rq = ik_no_quote then Some ab_intent_no_quote
          else if rq_intent_kind rq = ik_cancel_all then Some ab_intent_cancel_all
          else None)"

definition cap_reached :: "int \<Rightarrow> int \<Rightarrow> bool" where
  "cap_reached n cap \<longleftrightarrow> 0 < cap \<and> cap \<le> n"

definition order_cap_block_reason ::
  "int \<Rightarrow> int \<Rightarrow> int \<Rightarrow> policy_envelope \<Rightarrow> strategy_manifest \<Rightarrow> abstain_reason option" where
  "order_cap_block_reason orders_this_run orders_this_session orders_this_day env m =
     (if cap_reached orders_this_run (pe_max_orders_per_run env) \<or> cap_reached orders_this_run (sm_max_orders m)
      then Some ab_order_cap_run
      else if cap_reached orders_this_session (pe_max_orders_per_session env) then Some ab_order_cap_session
      else if cap_reached orders_this_day (pe_max_orders_per_day env) then Some ab_order_cap_day
      else None)"

definition decision_placed :: "submit_decision \<Rightarrow> bool" where
  "decision_placed d \<longleftrightarrow> sd_submitted d \<or> sd_abstain_reason d = Some ab_mode_a_no_orders"

definition abstain :: "string \<Rightarrow> abstain_reason \<Rightarrow> submit_decision" where
  "abstain token_id reason = \<lparr>sd_token_id = token_id, sd_submitted = False, sd_abstain_reason = Some reason,
     sd_venue_order_id = None\<rparr>"

section \<open>Reconciling one order\<close>

definition reads_of ::
  "pyval result option \<Rightarrow> pyval result option \<Rightarrow> pyval result option \<Rightarrow> venue_reads" where
  "reads_of orders order history = \<lparr>vr_get_orders = orders, vr_get_order = map_option (\<lambda>r _. r) order,
     vr_get_fill_history = map_option (\<lambda>r _. r) history\<rparr>"

definition surface :: "('w, pyval) eff option \<Rightarrow> ('w runner, pyval result option) eff" where
  "surface call = (case call of
     None \<Rightarrow> ereturn None
   | Some m \<Rightarrow> ebind (eattempt (on_world m)) (\<lambda>r. ereturn (Some r)))"

text \<open>
  The three surfaces are read in turn, and what one returned is looked at before the next is read.
\<close>

definition reconcile_after_submit ::
  "'w dust_env \<Rightarrow> presubmit_record \<Rightarrow> ('w runner, uncertain_state \<times> pyfloat) eff" where
  "reconcile_after_submit de r =
     (let key = ps_venue_order_key r; ad = de_adapter de in
      if key = [] then ereturn (Ambiguous, fl_zero)
      else
        ebind (surface (va_get_orders ad)) (\<lambda>orders.
        ebind (elift (open_candidate_count (reads_of orders None None))) (\<lambda>_.
        ebind (surface (map_option (\<lambda>f. f key) (va_get_order ad))) (\<lambda>order.
        ebind (elift (terminal_status_evidence (de_shown de) (reads_of None order None) key)) (\<lambda>_.
        ebind (surface (map_option (\<lambda>f. f key) (va_get_fill_history ad))) (\<lambda>history.
        ebind (elift (assess_uncertain_submit (de_parse de) (de_shown de) r (reads_of orders order history)))
          (\<lambda>verdict. ereturn (uv_state verdict, uv_matched_fill_size verdict))))))))"

definition status_for :: "uncertain_state \<Rightarrow> pyfloat \<Rightarrow> order_status" where
  "status_for state matched_fill_size =
     (if state = Ambiguous then st_unresolved
      else if fl_lt fl_zero matched_fill_size then st_filled else st_expired)"

definition ack_fields_from_submit_result ::
  "(pyval \<Rightarrow> string) \<Rightarrow> l2_submit_result \<Rightarrow> string option \<times> bool" where
  "ack_fields_from_submit_result shown res =
     (let response = l2_response res;
          order_id = py_str shown (py_or (dget ''orderID'' VNone response)
                       (py_or (dget ''id'' VNone response) (VStr '''')))
      in (if order_id = [] then None else Some order_id,
          truthy (dget ''success'' (VBool (order_id \<noteq> [])) response)))"

section \<open>The lifecycle of one order\<close>

text \<open>
  The order a lifecycle is about. The taker and the resting lifecycle of the code run the same steps on
  it: intent, submit or dry-run signature, attempt, acknowledgement, reconciliation.
\<close>

record order_terms =
  tm_token_id :: string
  tm_side :: string
  tm_price :: pyfloat
  tm_size :: pyfloat
  tm_tif :: dust_tif
  tm_post_only :: bool
  tm_expiration_s :: int
  tm_client_order_id :: string

definition submit_or_sign ::
  "'w dust_env \<Rightarrow> order_terms \<Rightarrow> ('w runner, presubmit_record \<times> l2_submit_result option) eff" where
  "submit_or_sign de tm =
     (if de_mode de = live_guarded then
        (case de_arming de of
           None \<Rightarrow> eraise AssertionError
         | Some arming \<Rightarrow>
             (case (am_write_port arming, am_order_auth arming) of
                (Some submit_order, Some auth) \<Rightarrow>
                  ebind (on_world (submit_order
                    \<lparr>wo_token_id = tm_token_id tm, wo_side = tm_side tm, wo_native_price = tm_price tm,
                     wo_size = tm_size tm, wo_tif = tm_tif tm, wo_post_only = tm_post_only tm,
                     wo_tick_size = de_tick_size de, wo_binding = am_binding arming, wo_auth = auth,
                     wo_expiration_s = tm_expiration_s tm\<rparr>)) (\<lambda>res.
                  ereturn (l2_presubmit_record res, Some res))
              | _ \<Rightarrow> eraise AssertionError))
      else
        ebind (elift (mk_signing_payload
          \<lparr>sp_token_id = tm_token_id tm, sp_side = tm_side tm, sp_native_price = tm_price tm, sp_size = tm_size tm,
           sp_tif = tif_text (tm_tif tm), sp_tick_size = de_float_text de (de_tick_size de),
           sp_client_order_id = Some (tm_client_order_id tm)\<rparr>)) (\<lambda>payload.
        ebind (on_world (sg_sign_order (de_signer de) payload)) (\<lambda>signed.
        ereturn (\<lparr>ps_integrity_commitment_hash = sa_order_digest signed,
                  ps_venue_order_key = ''mode-a-dry-run-digest:'' @ sa_order_digest signed,
                  ps_captured_id = None\<rparr>, None))))"

text \<open>After the submit or the signature.\<close>

definition record_lifecycle ::
  "'w dust_env \<Rightarrow> int \<Rightarrow> int \<Rightarrow> order_terms \<Rightarrow> order_submit_intent \<Rightarrow> presubmit_record \<Rightarrow> l2_submit_result option
   \<Rightarrow> ('w runner, submit_decision \<times> lifecycle_event list) eff" where
  "record_lifecycle de source_ts now tm intent presubmit submit_result =
     (let coid = tm_client_order_id tm;
          (venue_order_id, ack_status) = (case submit_result of
             Some res \<Rightarrow> (let (vid, accepted) = ack_fields_from_submit_result (de_shown de) res
                          in (vid, if accepted then ''accepted'' else ''not_accepted''))
           | None \<Rightarrow> (None, ''dry_run_not_submitted'')) in
      ebind seq_next (\<lambda>n2.
      ebind seq_next (\<lambda>n3.
      ebind (reconcile_after_submit de presubmit) (\<lambda>(reconciled_state, matched_fill_size).
      ebind seq_next (\<lambda>n4.
      ebind seq_next (\<lambda>n5.
      ereturn
        (\<lparr>sd_token_id = tm_token_id tm, sd_submitted = (submit_result \<noteq> None),
          sd_abstain_reason = (if submit_result \<noteq> None then None else Some ab_mode_a_no_orders),
          sd_venue_order_id = venue_order_id\<rparr>,
         [IntentEvent intent,
          AttemptEvent \<lparr>ee_sequence_no = n2, ee_source_ts = Some source_ts, ee_recv_ts = now, oa_decision_id = coid,
            oa_client_order_id = coid, oa_request_payload_ref = ''scrubbed://dust-execution/'' @ coid,
            oa_attempt_ts = now, oa_presubmit_record = presubmit\<rparr>,
          AckEvent \<lparr>ee_sequence_no = n3, ee_source_ts = Some source_ts, ee_recv_ts = now, ok_decision_id = coid,
            ok_client_order_id = coid, ok_venue_order_id = venue_order_id, ok_ack_status = ack_status\<rparr>,
          StatusEvent \<lparr>oe_sequence_no = n4, oe_source_ts = Some source_ts, oe_recv_ts = now, oe_decision_id = coid,
            oe_client_order_id = coid, oe_venue_order_id = venue_order_id,
            oe_status = status_for reconciled_state matched_fill_size, oe_filled_size = matched_fill_size,
            oe_fill_price = None\<rparr>,
          ReconciliationEvent \<lparr>ee_sequence_no = n5, ee_source_ts = Some source_ts, ee_recv_ts = now,
            rr_decision_id = coid, rr_venue_order_key = ps_venue_order_key presubmit,
            rr_reconciled_state = reconciled_state, rr_reconciled_fill_size = matched_fill_size\<rparr>])))))))"

definition run_lifecycle ::
  "'w dust_env \<Rightarrow> int \<Rightarrow> int \<Rightarrow> order_terms \<Rightarrow> ('w runner, submit_decision \<times> lifecycle_event list) eff" where
  "run_lifecycle de source_ts now_s tm =
     (let now = now_s * 1000; coid = tm_client_order_id tm in
      ebind seq_next (\<lambda>n1.
      ebind (elift (mk_order_submit_intent
        \<lparr>ee_sequence_no = n1, ee_source_ts = Some source_ts, ee_recv_ts = now, ot_token_id = tm_token_id tm,
         ot_side = tm_side tm, ot_price = tm_price tm, ot_size = tm_size tm, ot_tif = tm_tif tm,
         ot_client_order_id = coid, ot_decision_id = coid, ot_decision_ts = now\<rparr>)) (\<lambda>intent.
      ebind (submit_or_sign de tm) (\<lambda>(presubmit, submit_result).
      record_lifecycle de source_ts now tm intent presubmit submit_result))))"

definition emit_order_lifecycle ::
  "'w dust_env \<Rightarrow> dust_quote \<Rightarrow> dust_level \<Rightarrow> dust_level \<Rightarrow> int \<Rightarrow> pyfloat \<Rightarrow> string \<Rightarrow> dust_tif
   \<Rightarrow> ('w runner, submit_decision \<times> lifecycle_event list) eff" where
  "emit_order_lifecycle de quote bid ask now_s wire_size side tif =
     run_lifecycle de (dq_quote_ts_s quote) now_s
       \<lparr>tm_token_id = dq_token_id quote, tm_side = side,
        tm_price = (if side = ''BUY'' then ql_price ask else ql_price bid), tm_size = wire_size, tm_tif = tif,
        tm_post_only = False, tm_expiration_s = 0,
        tm_client_order_id = sm_strategy_id (de_manifest de) @ '':'' @ dq_token_id quote\<rparr>"

definition resolve_taker_side_tif :: "mm_intent_params \<Rightarrow> string \<times> dust_tif \<times> bool" where
  "resolve_taker_side_tif p =
     (let side = (case ip_side p of None \<Rightarrow> ''BUY'' | Some s \<Rightarrow> if s = [] then ''BUY'' else s);
          tif = (case ip_tif p of None \<Rightarrow> tif_FOK | Some t \<Rightarrow> t)
      in (side, tif, side \<notin> {''BUY'', ''SELL''} \<or> tif \<notin> {tif_FAK, tif_FOK}))"

fun side_text :: "order_side \<Rightarrow> string" where
  "side_text BUY = ''BUY''"
| "side_text SELL = ''SELL''"

fun resting_tif_of :: "dust_tif \<Rightarrow> resting_tif option" where
  "resting_tif_of tif_GTC = Some GTC"
| "resting_tif_of tif_GTD = Some GTD"
| "resting_tif_of _ = None"

fun wire_tif :: "resting_tif \<Rightarrow> dust_tif" where
  "wire_tif GTC = tif_GTC"
| "wire_tif GTD = tif_GTD"

text \<open>An exception of the constructor other than \<open>ValueError\<close> is not caught.\<close>

definition build_resting_order ::
  "'w dust_env \<Rightarrow> string \<Rightarrow> mm_intent_params \<Rightarrow> pyfloat \<Rightarrow> resting_order option result" where
  "build_resting_order de token_id p wire_size =
     (let side = (if ip_side p = Some ''BUY'' then Some BUY else if ip_side p = Some ''SELL'' then Some SELL else None) in
      case (side, ip_price p, Option.bind (ip_tif p) resting_tif_of) of
        (Some sd, Some native_price, Some tif) \<Rightarrow>
          (case mk_resting_order
             \<lparr>rs_token_id = token_id, rs_side = sd, rs_size = wire_size, rs_native_price = native_price,
              rs_tick_size = de_tick_size de, rs_tif = tif, rs_post_only = True, rs_gtd_expiration_ts = None,
              rs_client_order_id = (case ip_client_order_id p of
                 Some c \<Rightarrow> if c = [] then sm_strategy_id (de_manifest de) @ '':'' @ token_id else c
               | None \<Rightarrow> sm_strategy_id (de_manifest de) @ '':'' @ token_id)\<rparr> of
             Inr r \<Rightarrow> Inr (Some r)
           | Inl e \<Rightarrow> if e = ValueError then Inr None else Inl e)
      | _ \<Rightarrow> Inr None)"

definition emit_resting_lifecycle ::
  "'w dust_env \<Rightarrow> dust_quote \<Rightarrow> int \<Rightarrow> resting_order \<Rightarrow> ('w runner, submit_decision \<times> lifecycle_event list) eff" where
  "emit_resting_lifecycle de quote now_s r =
     run_lifecycle de (dq_quote_ts_s quote) now_s
       \<lparr>tm_token_id = rs_token_id r, tm_side = side_text (rs_side r), tm_price = rs_native_price r, tm_size = rs_size r,
        tm_tif = wire_tif (rs_tif r), tm_post_only = rs_post_only r,
        tm_expiration_s = (case rs_gtd_expiration_ts r of Some ts \<Rightarrow> ts | None \<Rightarrow> 0),
        tm_client_order_id = rs_client_order_id r\<rparr>"

definition old_order_terminal_withdrawn :: "'w dust_env \<Rightarrow> string \<Rightarrow> ('w runner, bool) eff" where
  "old_order_terminal_withdrawn de order_id =
     ebind (reconcile_after_submit de
       \<lparr>ps_integrity_commitment_hash = [], ps_venue_order_key = order_id, ps_captured_id = None\<rparr>)
       (\<lambda>(state, matched_fill_size). ereturn (state = Resolved \<and> fl_le matched_fill_size fl_zero))"

definition canceled_in :: "string \<Rightarrow> pyval \<Rightarrow> bool" where
  "canceled_in order_id response =
     (case response of
        VDict d \<Rightarrow> (case dget ''canceled'' VNone d of VList ids \<Rightarrow> VStr order_id \<in> set ids | _ \<Rightarrow> False)
      | _ \<Rightarrow> False)"

definition emit_cancel_replace_lifecycle ::
  "'w dust_env \<Rightarrow> dust_quote \<Rightarrow> int \<Rightarrow> resting_order \<Rightarrow> string
   \<Rightarrow> ('w runner, submit_decision \<times> lifecycle_event list) eff" where
  "emit_cancel_replace_lifecycle de quote now_s r replaces =
     ebind (if de_mode de = live_guarded then
              ebind (require_single_cancel_venue de) (\<lambda>cancel.
              ebind (on_world (cancel replaces)) (\<lambda>response.
              ebind (old_order_terminal_withdrawn de replaces) (\<lambda>withdrawn.
              ereturn (canceled_in replaces response, withdrawn))))
            else ereturn (False, False)) (\<lambda>(canceled, withdrawn).
     ebind seq_next (\<lambda>n.
     (let cancel_event = CancelEvent
            \<lparr>ee_sequence_no = n, ee_source_ts = Some (dq_quote_ts_s quote), ee_recv_ts = now_s * 1000,
             oc_decision_id = Some (rs_client_order_id r), oc_client_order_id = rs_client_order_id r,
             oc_venue_order_id = None, oc_canceled = canceled\<rparr> in
      if de_mode de = live_guarded \<and> \<not> withdrawn
      then ereturn (abstain (rs_token_id r) ab_cancel_replace_old_order_live, [cancel_event])
      else ebind (emit_resting_lifecycle de quote now_s r) (\<lambda>(decision, events).
             ereturn (decision, cancel_event # events)))))"

section \<open>One token\<close>

text \<open>What the run computes once, before its first token.\<close>

record run_gates =
  wg_wire_size :: pyfloat
  wg_arming_block_reason :: "abstain_reason option"
  wg_authorization_block_reason :: "abstain_reason option"
  wg_loss_cap_block_reason :: "abstain_reason option"
  wg_intent :: intent_kind
  wg_intent_params :: mm_intent_params
  wg_intent_block_reason :: "abstain_reason option"
  wg_enforce_intent_token :: bool
  wg_intent_target_token :: "string option"

type_synonym 'w decided = "('w runner, submit_decision \<times> lifecycle_event list) eff"

definition abstains :: "string \<Rightarrow> abstain_reason \<Rightarrow> 'w decided" where
  "abstains token_id reason = ereturn (abstain token_id reason, [])"

definition dispatch_take ::
  "'w dust_env \<Rightarrow> run_gates \<Rightarrow> string \<Rightarrow> dust_quote \<Rightarrow> int \<Rightarrow> 'w decided" where
  "dispatch_take de g token_id quote now_s =
     (let (side, tif, invalid) = resolve_taker_side_tif (wg_intent_params g) in
      if invalid then abstains token_id ab_intent_params_invalid
      else case (dq_bid quote, dq_ask quote) of
        (Some bid, Some ask) \<Rightarrow>
          ebind (elift (non_crossing_gate
            \<lparr>ol_token_id = token_id, ol_side = side,
             ol_price = (if side = ''BUY'' then ql_price ask else ql_price bid), ol_kind = PROPOSED,
             ol_uncertain_state = None\<rparr> (de_own_legs de) (de_tick_size de))) (\<lambda>cross.
          case cross of
            Some reason \<Rightarrow> abstains token_id reason
          | None \<Rightarrow> emit_order_lifecycle de quote bid ask now_s (wg_wire_size g) side tif)
      | _ \<Rightarrow> eraise AssertionError)"

definition dispatch_resting ::
  "'w dust_env \<Rightarrow> run_gates \<Rightarrow> string \<Rightarrow> dust_quote \<Rightarrow> int \<Rightarrow> 'w decided" where
  "dispatch_resting de g token_id quote now_s =
     ebind (elift (build_resting_order de token_id (wg_intent_params g) (wg_wire_size g))) (\<lambda>built.
       case built of
         None \<Rightarrow> abstains token_id ab_intent_params_invalid
       | Some resting \<Rightarrow>
           ebind (elift (non_crossing_gate
             \<lparr>ol_token_id = rs_token_id resting, ol_side = side_text (rs_side resting),
              ol_price = rs_native_price resting, ol_kind = PROPOSED, ol_uncertain_state = None\<rparr>
             (de_own_legs de) (de_tick_size de))) (\<lambda>cross.
           case cross of
             Some reason \<Rightarrow> abstains token_id reason
           | None \<Rightarrow>
               if wg_intent g = ik_cancel_replace then
                 (case ip_replaces_client_order_id (wg_intent_params g) of
                    None \<Rightarrow> abstains token_id ab_intent_params_invalid
                  | Some replaces \<Rightarrow>
                      if replaces = [] then abstains token_id ab_intent_params_invalid
                      else emit_cancel_replace_lifecycle de quote now_s resting replaces)
               else emit_resting_lifecycle de quote now_s resting))"

text \<open>The gates between the quote and the order, in the order the code tests them.\<close>

definition placing_block_reason ::
  "'w dust_env \<Rightarrow> run_gates \<Rightarrow> abstain_reason option \<Rightarrow> dust_quote \<Rightarrow> int \<Rightarrow> safety_session \<Rightarrow> abstain_reason option" where
  "placing_block_reason de g order_cap quote now_s session =
     (case evaluate_submit_gate quote now_s (pe_max_quote_age_s (de_envelope de)) of
        Some reason \<Rightarrow> Some reason
      | None \<Rightarrow>
          if \<not> check_can_submit session then Some ab_safety_blocked
          else if wg_authorization_block_reason g \<noteq> None then wg_authorization_block_reason g
          else if wg_loss_cap_block_reason g \<noteq> None then wg_loss_cap_block_reason g
          else order_cap)"

definition decide_and_submit ::
  "'w dust_env \<Rightarrow> run_gates \<Rightarrow> abstain_reason option \<Rightarrow> string \<Rightarrow> 'w decided" where
  "decide_and_submit de g order_cap token_id =
     (case wg_intent_block_reason g of
        Some reason \<Rightarrow> abstains token_id reason
      | None \<Rightarrow>
          if wg_enforce_intent_token g \<and> Some token_id \<noteq> wg_intent_target_token g
          then abstains token_id ab_intent_token_mismatch
          else if de_mode de = live_guarded \<and> wg_arming_block_reason g \<noteq> None
          then abstains token_id (the (wg_arming_block_reason g))
          else
            ebind (eattempt (on_world (de_read_quote de token_id))) (\<lambda>read.
              case read of
                Inl e \<Rightarrow> if e = StaleVenueBook then abstains token_id ab_stale_source else eraise e
              | Inr quote \<Rightarrow>
                  ebind (on_world (de_now de)) (\<lambda>now_s.
                  ebind (eread ru_session) (\<lambda>session.
                    case placing_block_reason de g order_cap quote now_s session of
                      Some reason \<Rightarrow> abstains token_id reason
                    | None \<Rightarrow>
                        if wg_intent g = ik_take then dispatch_take de g token_id quote now_s
                        else dispatch_resting de g token_id quote now_s))))"

section \<open>The run\<close>

datatype session_status = SESSION_SUCCESS | SESSION_FAILED

record session_outcome =
  so_status :: session_status
  so_promoted :: bool

definition submitted_decision_ids :: "lifecycle_event list \<Rightarrow> string set" where
  "submitted_decision_ids events =
     set (concat (map (\<lambda>e. case e of
       AckEvent a \<Rightarrow> if ok_ack_status a \<noteq> ''dry_run_not_submitted'' then [ok_decision_id a] else []
     | _ \<Rightarrow> []) events))"

definition reconciliation_frozen :: "lifecycle_event list \<Rightarrow> bool" where
  "reconciliation_frozen events =
     list_ex (\<lambda>e. case e of
       ReconciliationEvent r \<Rightarrow> rr_reconciled_state r = Ambiguous \<and> rr_decision_id r \<in> submitted_decision_ids events
     | _ \<Rightarrow> False) events"

definition resolve_session_outcome ::
  "'w dust_env \<Rightarrow> risk_accumulator \<Rightarrow> lifecycle_event list \<Rightarrow> session_outcome" where
  "resolve_session_outcome de risk events =
     \<lparr>so_status = (if breaches_caps (de_envelope de) risk \<or> breaker_is_open (de_breaker de)
                      \<or> pe_kill_switch (de_envelope de) \<or> reconciliation_frozen events
                   then SESSION_FAILED else SESSION_SUCCESS),
      so_promoted = False\<rparr>"

record dust_result =
  dr_mode :: execution_mode
  dr_decisions :: "submit_decision list"
  dr_session_meta :: dust_session_meta
  dr_events :: "lifecycle_event list"
  dr_admission :: admission_decision
  dr_shutdown_decision :: shutdown_decision
  dr_session_outcome :: session_outcome

definition submitted_count :: "dust_result \<Rightarrow> nat" where
  "submitted_count r = length (filter sd_submitted (dr_decisions r))"

definition abstained_count :: "dust_result \<Rightarrow> nat" where
  "abstained_count r = length (filter (\<lambda>d. \<not> sd_submitted d) (dr_decisions r))"

fun token_loop ::
  "'w dust_env \<Rightarrow> run_gates \<Rightarrow> int \<Rightarrow> int \<Rightarrow> int \<Rightarrow> string list
   \<Rightarrow> ('w runner, submit_decision list \<times> lifecycle_event list) eff" where
  "token_loop de g prior_session prior_day orders [] = ereturn ([], [])"
| "token_loop de g prior_session prior_day orders (token_id # tokens) =
     ebind (decide_and_submit de g (order_cap_block_reason orders (prior_session + orders) (prior_day + orders)
              (de_envelope de) (de_manifest de)) token_id) (\<lambda>(decision, token_events).
     ebind (token_loop de g prior_session prior_day (if decision_placed decision then orders + 1 else orders) tokens)
       (\<lambda>(decisions, events). ereturn (decision # decisions, token_events @ events)))"

definition open_leg_count :: "own_order_leg list \<Rightarrow> int" where
  "open_leg_count legs = int (length (filter (\<lambda>leg. ol_kind leg = OPEN_LEG) legs))"

definition compute_gates :: "'w dust_env \<Rightarrow> risk_accumulator \<Rightarrow> string \<Rightarrow> admission_decision \<Rightarrow> run_gates result" where
  "compute_gates de risk session_id admission =
     (let (intent, params) = effective_intent (de_request de);
          blocked = intent_block_reason (de_request de) (de_manifest de);
          enforce = (de_request de \<noteq> None \<and> blocked = None)
      in rbind (resolve_wire_size de) (\<lambda>wire_size. Inr
        \<lparr>wg_wire_size = wire_size,
         wg_arming_block_reason =
           (if de_mode de = live_guarded then mode_b_arming_block_reason de session_id else None),
         wg_authorization_block_reason = authorization_block_reason de admission,
         wg_loss_cap_block_reason = loss_cap_block_reason de risk,
         wg_intent = intent, wg_intent_params = params, wg_intent_block_reason = blocked,
         wg_enforce_intent_token = enforce,
         wg_intent_target_token = (if enforce then ip_token_id params else None)\<rparr>))"

definition run_started :: "'w dust_env \<Rightarrow> realized_fill list
   \<Rightarrow> ('w runner, admission_decision \<times> run_gates \<times> lifecycle_event) eff" where
  "run_started de realized_fills =
     ebind (apply_safety_triggers de realized_fills) (\<lambda>_.
     ebind (eread (\<lambda>s. (ru_risk s, sf_session_id (ru_session s)))) (\<lambda>(risk, session_id).
     (let open_order_count = open_leg_count (de_own_legs de);
          admission = build_admission de risk session_id open_order_count in
     ebind (elift (compute_gates de risk session_id admission)) (\<lambda>g.
     ebind seq_next (\<lambda>n.
     ebind (now_ms de) (\<lambda>now.
     ebind (startup_open_order_sweep de (de_mode de = live_guarded \<and> wg_arming_block_reason g = None)) (\<lambda>_.
     ebind (if wg_intent_block_reason g = Some ab_intent_cancel_all \<and> de_mode de = live_guarded
            then ebind (require_cancel_all_adapter de) (stop_and_sweep de manual) else ereturn ()) (\<lambda>_.
     ereturn (admission, g, build_risk_snapshot de n now risk open_order_count)))))))))"

definition run_tokens :: "'w dust_env \<Rightarrow> int \<Rightarrow> int \<Rightarrow> dust_session_meta \<Rightarrow> realized_fill list
   \<Rightarrow> ('w runner, dust_result) eff" where
  "run_tokens de prior_session prior_day meta realized_fills =
     ebind (run_started de realized_fills) (\<lambda>(admission, g, snapshot).
     ebind (token_loop de g prior_session prior_day 0 (sm_universe (de_manifest de))) (\<lambda>(decisions, token_events).
     ebind seq_next (\<lambda>n.
     ebind (now_ms de) (\<lambda>now.
     ebind (apply_shutdown_decision de) (\<lambda>shutdown.
     ebind (eread ru_risk) (\<lambda>risk.
     (let events = snapshot # token_events @ [build_label_event de n now] in
     ereturn \<lparr>dr_mode = de_mode de, dr_decisions = decisions, dr_session_meta = meta, dr_events = events,
              dr_admission = admission, dr_shutdown_decision = shutdown,
              dr_session_outcome = resolve_session_outcome de risk events\<rparr>)))))))"

definition run_dust_execution ::
  "'w dust_env \<Rightarrow> string option \<Rightarrow> safety_session option \<Rightarrow> risk_accumulator option \<Rightarrow> realized_fill list \<Rightarrow> int \<Rightarrow> int
   \<Rightarrow> 'w \<Rightarrow> dust_result result \<times> 'w runner option \<times> 'w" where
  "run_dust_execution de session_identity session risk realized_fills prior_session prior_day w =
     (case build_session_meta de session_identity of
        Inl e \<Rightarrow> (Inl e, None, w)
      | Inr meta \<Rightarrow>
          (let session' = (case session of Some s \<Rightarrow> s | None \<Rightarrow> new_safety_session (xm_session_id meta));
               risk' = (case risk of Some r \<Rightarrow> r | None \<Rightarrow> new_accumulator (sf_session_id session'));
               (r, s) = run_tokens de prior_session prior_day meta realized_fills
                 \<lparr>ru_next_seq = 1, ru_session = session', ru_risk = risk', ru_world = w\<rparr>
           in (r, Some s, ru_world s)))"

end
