(* ===== verification/Dust_Monitor.thy ===== *)
theory Dust_Monitor
  imports Dust_Runner
begin

text \<open>
  The write calls a dust run makes, whatever the venue, the signer, the clock and the quote source do:
  a monitor of the world as a locale, the calls of one token and of a whole run under it, worlds that
  keep a log, and the monitor's interpretation on the log of every write.
\<close>

section \<open>Invariants of runner code\<close>

lemma on_world_apply: "on_world m s = (fst (m (ru_world s)), s\<lparr>ru_world := snd (m (ru_world s))\<rparr>)"
  by (simp add: on_world_def split: prod.split)

lemma eattempt_apply: "eattempt m s = (Inr (fst (m s)), snd (m s))"
  by (simp add: eattempt_def split: prod.split)

lemma keeps_eattempt [keeps_intros]: "keeps I m \<Longrightarrow> keeps I (eattempt m)"
  by (simp add: keeps_def eattempt_apply)

lemma keeps_Let [keeps_intros]: "(\<And>x. x = v \<Longrightarrow> keeps I (f x)) \<Longrightarrow> keeps I (Let v f)"
  by simp

lemma keeps_case_result [keeps_intros]:
  "(\<And>e. r = Inl e \<Longrightarrow> keeps I (f e)) \<Longrightarrow> (\<And>x. r = Inr x \<Longrightarrow> keeps I (h x)) \<Longrightarrow> keeps I (case r of Inl e \<Rightarrow> f e | Inr x \<Rightarrow> h x)"
  by (cases r) simp_all

lemma keeps_require_cancel_all:
  assumes "\<And>wire. va_cancel_all_orders (de_adapter de) = Some wire \<Longrightarrow> keeps I (f wire)"
  shows "keeps I (ebind (require_cancel_all_adapter de) f)"
  using assms by (cases "va_cancel_all_orders (de_adapter de)") (simp_all add: require_cancel_all_adapter_def keeps_eraise)

lemma triple_keeps: "keeps I m \<Longrightarrow> triple I m (\<lambda>_. I) (\<lambda>_. I)"
  by (simp add: keeps_iff_triple)

lemma triple_first:
  assumes "keeps I m" and "\<And>x. triple I (f x) Q E" and "\<And>e s. I s \<Longrightarrow> E e s"
  shows "triple I (ebind m f) Q E"
  by (rule triple_ebind [OF triple_conseq [OF triple_keeps [OF assms(1)]] assms(2)]) (auto intro: assms(3))

lemma triple_eread:
  "(\<And>x. triple (\<lambda>s. P s \<and> g s = x) (f x) Q E) \<Longrightarrow> triple P (ebind (eread g) f) Q E"
  by (auto simp: triple_def)

lemma triple_state:
  assumes "\<And>s0. P s0 \<Longrightarrow> R s0 s0" and "\<And>s0. P s0 \<Longrightarrow> triple (R s0) m Q E"
  shows "triple P m Q E"
proof (rule tripleI)
  show "Q x s'" if "P s" "m s = (Inr x, s')" for s x s' by (rule triple_Inr [OF assms(2,1) that(2)]) (rule that(1))+
  show "E e s'" if "P s" "m s = (Inl e, s')" for s e s' by (rule triple_Inl [OF assms(2,1) that(2)]) (rule that(1))+
qed

lemma triple_elift:
  assumes "\<And>x. r = Inr x \<Longrightarrow> triple I (f x) Q E" and "\<And>e s. I s \<Longrightarrow> E e s"
  shows "triple I (ebind (elift r) f) Q E"
  using assms by (cases r) (auto simp: triple_simps)

lemma triple_splits:
  "\<lbrakk>b \<Longrightarrow> triple P m Q E; \<not> b \<Longrightarrow> triple P m' Q E\<rbrakk> \<Longrightarrow> triple P (if b then m else m') Q E"
  "\<lbrakk>o1 = None \<Longrightarrow> triple P m Q E; \<And>x. o1 = Some x \<Longrightarrow> triple P (f x) Q E\<rbrakk> \<Longrightarrow> triple P (case o1 of None \<Rightarrow> m | Some x \<Rightarrow> f x) Q E"
  "\<lbrakk>\<And>e. r = Inl e \<Longrightarrow> triple P (g e) Q E; \<And>x. r = Inr x \<Longrightarrow> triple P (h x) Q E\<rbrakk> \<Longrightarrow> triple P (case r of Inl e \<Rightarrow> g e | Inr x \<Rightarrow> h x) Q E"
  by (simp_all split: option.split sum.split)

section \<open>Reasons to abstain\<close>

text \<open>Only the dry run of an order that would be placed gives \<open>mode_a_no_orders\<close>.\<close>

definition refusal :: "abstain_reason option \<Rightarrow> bool" where
  "refusal r \<longleftrightarrow> r \<noteq> Some ab_mode_a_no_orders"

lemma refusal_None [simp]: "refusal None"
  by (simp add: refusal_def)

lemma refusals:
  "refusal (evaluate_submit_gate quote now age)"
  "refusal (order_cap_block_reason n ns nd env m)"
  "refusal (loss_cap_block_reason de rk)"
  "refusal (authorization_block_reason de adm)"
  "refusal (intent_block_reason rq m)"
  by (simp_all add: refusal_def evaluate_submit_gate_def order_cap_block_reason_def loss_cap_block_reason_def
    authorization_block_reason_def intent_block_reason_def Let_def split: option.split)

lemma refusal_arming: "refusal (mode_b_arming_block_reason de sid)"
  by (simp add: refusal_def mode_b_arming_block_reason_def split: option.split)

lemma non_crossing_gate_reason: "non_crossing_gate p legs tick = Inr (Some r) \<Longrightarrow> r = ab_self_cross"
  by (auto simp: non_crossing_gate_def rbind_Inr_iff split: if_splits)

definition honest_gates :: "run_gates \<Rightarrow> bool" where
  "honest_gates g \<longleftrightarrow> refusal (wg_arming_block_reason g) \<and> refusal (wg_authorization_block_reason g)
     \<and> refusal (wg_loss_cap_block_reason g) \<and> refusal (wg_intent_block_reason g)"

lemma compute_gates_honest: "compute_gates de rk sid adm = Inr g \<Longrightarrow> honest_gates g"
  by (auto simp: compute_gates_def rbind_Inr_iff honest_gates_def refusals refusal_arming refusal_None Let_def split: prod.splits)

lemma placing_block_reason_refusal:
  assumes "honest_gates g" and "refusal oc"
  shows "refusal (placing_block_reason de g oc quote now session)"
  using assms refusals(1) [of quote now "pe_max_quote_age_s (de_envelope de)"]
  by (auto simp: placing_block_reason_def honest_gates_def refusal_def split: option.split)

section \<open>Write calls\<close>

datatype wire_call = SubmitCall wire_order | CancelAllCall | CancelCall string

fun wire_submits :: "wire_call list \<Rightarrow> wire_order list" where
  "wire_submits [] = []"
| "wire_submits (SubmitCall x # cs) = x # wire_submits cs"
| "wire_submits (_ # cs) = wire_submits cs"

lemma wire_submits_append [simp]: "wire_submits (xs @ ys) = wire_submits xs @ wire_submits ys"
  by (induction xs rule: wire_submits.induct) simp_all

text \<open>The order an armed live run hands to the write port for some terms.\<close>

definition wire_order_of :: "'w dust_env \<Rightarrow> 'w mode_b_arming \<Rightarrow> privy_auth_context \<Rightarrow> order_terms \<Rightarrow> wire_order" where
  "wire_order_of de a auth tm =
     \<lparr>wo_token_id = tm_token_id tm, wo_side = tm_side tm, wo_native_price = tm_price tm,
      wo_size = tm_size tm, wo_tif = tm_tif tm, wo_post_only = tm_post_only tm,
      wo_tick_size = de_tick_size de, wo_binding = am_binding a, wo_auth = auth,
      wo_expiration_s = tm_expiration_s tm\<rparr>"

definition unit_price :: "pyfloat \<Rightarrow> bool" where
  "unit_price p \<longleftrightarrow> fl_le fl_zero p \<and> fl_le p fl_one"

lemma intent_needs_unit_price: "\<not> unit_price (ot_price ev) \<Longrightarrow> mk_order_submit_intent ev = Inl ValueError"
  by (auto simp: mk_order_submit_intent_def unit_price_def reject_price_out_of_unit_interval_def split: if_splits)

text \<open>The writes the terms of one order may cause.\<close>

definition terms_allowed :: "'w dust_env \<Rightarrow> (wire_call \<Rightarrow> bool) \<Rightarrow> order_terms \<Rightarrow> bool" where
  "terms_allowed de A tm \<longleftrightarrow>
     (\<forall>a auth. de_mode de = live_guarded \<longrightarrow> de_arming de = Some a \<longrightarrow> am_order_auth a = Some auth \<longrightarrow>
        unit_price (tm_price tm) \<longrightarrow> A (SubmitCall (wire_order_of de a auth tm)))"

text \<open>
  The orders a live run may submit, from its inputs, the loss accumulator after the realized fills and the
  session id: every gate of the run is open, the size is the mechanical one, the price is a probability and
  the order does not cross an own leg. The gates look at the token of the loop; a resting order is on it.
\<close>

definition for_token :: "'w dust_env \<Rightarrow> wire_order \<Rightarrow> string \<Rightarrow> bool" where
  "for_token de x t \<longleftrightarrow>
     non_crossing_gate \<lparr>ol_token_id = t, ol_side = wo_side x, ol_price = wo_native_price x, ol_kind = PROPOSED,
       ol_uncertain_state = None\<rparr> (de_own_legs de) (de_tick_size de) = Inr None
     \<and> (case de_request de of
          None \<Rightarrow> True
        | Some rq \<Rightarrow> ip_token_id (rq_intent_params rq) = Some t
            \<and> (rq_intent_kind rq = ik_take \<or> wo_token_id x = t \<and> wo_post_only x))"

definition gates_open :: "'w dust_env \<Rightarrow> risk_accumulator \<Rightarrow> string \<Rightarrow> bool" where
  "gates_open de rk sid \<longleftrightarrow> de_mode de = live_guarded \<and> mode_b_arming_block_reason de sid = None
     \<and> intent_block_reason (de_request de) (de_manifest de) = None
     \<and> authorization_block_reason de (build_admission de rk sid (open_leg_count (de_own_legs de))) = None
     \<and> loss_cap_block_reason de rk = None"

definition order_admitted :: "'w dust_env \<Rightarrow> risk_accumulator \<Rightarrow> string \<Rightarrow> wire_order \<Rightarrow> bool" where
  "order_admitted de rk sid x \<longleftrightarrow> gates_open de rk sid
     \<and> resolve_wire_size de = Inr (wo_size x) \<and> unit_price (wo_native_price x) \<and> wo_tick_size x = de_tick_size de
     \<and> map_option am_binding (de_arming de) = Some (wo_binding x)
     \<and> Option.bind (de_arming de) am_order_auth = Some (wo_auth x)
     \<and> list_ex (for_token de x) (sm_universe (de_manifest de))"

fun call_admitted :: "'w dust_env \<Rightarrow> realized_fill list \<Rightarrow> risk_accumulator \<Rightarrow> string \<Rightarrow> wire_call \<Rightarrow> bool" where
  "call_admitted de fills rk sid (SubmitCall x) = order_admitted de rk sid x"
| "call_admitted de fills rk sid (CancelCall i) = (gates_open de rk sid
     \<and> (case de_request de of
          None \<Rightarrow> False
        | Some rq \<Rightarrow> rq_intent_kind rq = ik_cancel_replace \<and> ip_replaces_client_order_id (rq_intent_params rq) = Some i))"
| "call_admitted de fills rk sid CancelAllCall = (de_mode de = live_guarded \<or> fills \<noteq> []
     \<or> breaker_is_open (de_breaker de) \<or> pe_kill_switch (de_envelope de))"

text \<open>A cancel-all is the last call, and after it the session is blocked.\<close>

definition orderly :: "wire_call list \<Rightarrow> bool \<Rightarrow> bool" where
  "orderly xs blocked \<longleftrightarrow> CancelAllCall \<notin> set (butlast xs) \<and> (CancelAllCall \<in> set xs \<longrightarrow> blocked)"

lemma orderly_sweep: "orderly xs False \<Longrightarrow> orderly (xs @ [CancelAllCall]) True"
  by (auto simp: orderly_def)

lemma orderly_append: "orderly xs False \<Longrightarrow> CancelAllCall \<notin> set ys \<Longrightarrow> orderly (xs @ ys) False"
  by (auto simp: orderly_def dest: in_set_butlastD)

lemma orderly_block: "orderly xs b \<Longrightarrow> orderly xs True"
  by (simp add: orderly_def)

definition within_order_caps :: "policy_envelope \<Rightarrow> strategy_manifest \<Rightarrow> int \<Rightarrow> int \<Rightarrow> nat \<Rightarrow> bool" where
  "within_order_caps env m prior_session prior_day n \<longleftrightarrow> n = 0 \<or>
     (pe_max_orders_per_run env \<le> 0 \<or> int n \<le> pe_max_orders_per_run env)
     \<and> (sm_max_orders m \<le> 0 \<or> int n \<le> sm_max_orders m)
     \<and> (pe_max_orders_per_session env \<le> 0 \<or> prior_session + int n \<le> pe_max_orders_per_session env)
     \<and> (pe_max_orders_per_day env \<le> 0 \<or> prior_day + int n \<le> pe_max_orders_per_day env)"

lemma order_cap_room:
  "order_cap_block_reason (int n) (ps + int n) (pd + int n) env m = None \<Longrightarrow> within_order_caps env m ps pd (Suc n)"
  by (auto simp: order_cap_block_reason_def within_order_caps_def cap_reached_def split: if_splits)

lemma within_order_caps_mono: "within_order_caps env m ps pd n \<Longrightarrow> k \<le> n \<Longrightarrow> within_order_caps env m ps pd k"
  by (auto simp: within_order_caps_def)

lemma cancel_all_and_block_effect:
  "cancel_all_and_block clk cause wire ss = (r, ss', n) \<Longrightarrow>
     sf_submit_blocked ss' \<and> sf_session_id ss' = sf_session_id ss \<and> (n = 0 \<longleftrightarrow> sf_submit_blocked ss)"
  by (auto simp: cancel_all_and_block_def sweep_begin_def sweep_finish_def build_ack_def build_triggered_def record_event_def
    next_sequence_no_def Let_def split: if_splits option.splits sum.splits prod.splits)

lemma on_realized_fill_effect:
  "on_realized_fill clk fill wire env risk ss = (r, risk', ss', n) \<Longrightarrow>
     sf_session_id ss' = sf_session_id ss \<and> (n = 0 \<and> (sf_submit_blocked ss' \<longleftrightarrow> sf_submit_blocked ss) \<or> sf_submit_blocked ss' \<and> \<not> sf_submit_blocked ss)"
  by (auto simp: on_realized_fill_def on_loss_breach_def dest!: cancel_all_and_block_effect split: sum.splits if_splits prod.splits)

locale wire_monitor =
  fixes de :: "'w dust_env"
    and calls :: "'w \<Rightarrow> wire_call list"
  assumes quote_keeps: "keeps (\<lambda>w. calls w = l) (de_read_quote de t)"
    and now_keeps: "keeps (\<lambda>w. calls w = l) (de_now de)"
    and sign_keeps: "keeps (\<lambda>w. calls w = l) (sg_sign_order (de_signer de) p)"
    and get_orders_keeps: "va_get_orders (de_adapter de) = Some m \<Longrightarrow> keeps (\<lambda>w. calls w = l) m"
    and get_order_keeps: "va_get_order (de_adapter de) = Some f \<Longrightarrow> keeps (\<lambda>w. calls w = l) (f i)"
    and history_keeps: "va_get_fill_history (de_adapter de) = Some f \<Longrightarrow> keeps (\<lambda>w. calls w = l) (f i)"
    and cancel_all_adds: "va_cancel_all_orders (de_adapter de) = Some wire \<Longrightarrow> calls (snd (wire w)) = calls w @ [CancelAllCall]"
    and cancel_adds: "va_cancel_single_order (de_adapter de) = Some f \<Longrightarrow> calls (snd (f i w)) = calls w @ [CancelCall i]"
    and submit_adds: "de_arming de = Some a \<Longrightarrow> am_write_port a = Some port \<Longrightarrow> calls (snd (port x w)) = calls w @ [SubmitCall x]"
begin

section \<open>The calls of one token\<close>

text \<open>
  Since the log was \<open>l\<close>, only calls in \<open>A\<close> were made, at most \<open>n\<close> of them orders; the safety session
  and the loss accumulator are as they were.
\<close>

definition made ::
  "(wire_call \<Rightarrow> bool) \<Rightarrow> safety_session \<Rightarrow> risk_accumulator \<Rightarrow> wire_call list \<Rightarrow> nat \<Rightarrow> 'w runner \<Rightarrow> bool" where
  "made A ss rk l n s \<longleftrightarrow> ru_session s = ss \<and> ru_risk s = rk
     \<and> (\<exists>ys. calls (ru_world s) = l @ ys \<and> list_all A ys \<and> length (wire_submits ys) \<le> n)"

lemma made_mono: "made A ss rk l m s \<Longrightarrow> m \<le> n \<Longrightarrow> made A ss rk l n s"
  by (fastforce simp: made_def)

lemma made_none: "made A ss rk l 0 s \<Longrightarrow> made A ss rk l n s"
  by (erule made_mono) simp

lemma made_on_world: "(\<And>l. keeps (\<lambda>w. calls w = l) m) \<Longrightarrow> keeps (made A ss rk l n) (on_world m)"
  by (auto simp: keeps_def made_def on_world_apply)

lemma made_seq_next [keeps_intros]: "keeps (made A ss rk l n) seq_next"
  by (simp add: keeps_def seq_next_def made_def)

lemma made_now [keeps_intros]: "keeps (made A ss rk l n) (on_world (de_now de))"
  by (rule made_on_world [OF now_keeps])

lemma made_quote [keeps_intros]: "keeps (made A ss rk l n) (on_world (de_read_quote de t))"
  by (rule made_on_world [OF quote_keeps])

lemma made_surface [keeps_intros]:
  "(\<And>m l. call = Some m \<Longrightarrow> keeps (\<lambda>w. calls w = l) m) \<Longrightarrow> keeps (made A ss rk l n) (surface call)"
  unfolding surface_def by (intro keeps_intros made_on_world) simp

lemma made_reconcile [keeps_intros]: "keeps (made A ss rk l n) (reconcile_after_submit de r)"
  unfolding reconcile_after_submit_def
  by (intro keeps_intros) (auto intro: get_orders_keeps get_order_keeps history_keeps)

lemma made_withdrawn [keeps_intros]: "keeps (made A ss rk l n) (old_order_terminal_withdrawn de i)"
  unfolding old_order_terminal_withdrawn_def by (intro keeps_intros)

lemma made_single_cancel:
  assumes "va_cancel_single_order (de_adapter de) = Some f" and "A (CancelCall i)"
  shows "keeps (made A ss rk l n) (on_world (f i))"
  using cancel_adds [OF assms(1)] assms(2) by (fastforce simp: keeps_def made_def on_world_apply)

lemma made_submit:
  assumes "de_arming de = Some a" and "am_write_port a = Some port" and "A (SubmitCall x)"
  shows "triple (made A ss rk l 0) (on_world (port x)) (\<lambda>_. made A ss rk l (Suc 0)) (\<lambda>_. made A ss rk l (Suc 0))"
  using submit_adds [OF assms(1,2)] assms(3)
  by (fastforce simp: triple_def made_def on_world_apply split: sum.split)

lemma submit_or_sign_made:
  assumes "unit_price (tm_price tm)" and "terms_allowed de A tm"
  shows "triple (made A ss rk l 0) (submit_or_sign de tm) (\<lambda>_. made A ss rk l (Suc 0)) (\<lambda>_. made A ss rk l (Suc 0))"
proof (cases "de_mode de = live_guarded")
  case True
  show ?thesis
  proof (cases "\<exists>a port auth. de_arming de = Some a \<and> am_write_port a = Some port \<and> am_order_auth a = Some auth")
    case armed: True
    then obtain a port auth where a: "de_arming de = Some a" "am_write_port a = Some port" "am_order_auth a = Some auth" by blast
    then have x: "submit_or_sign de tm = ebind (on_world (port (wire_order_of de a auth tm))) (\<lambda>res. ereturn (l2_presubmit_record res, Some res))"
      using True by (simp add: submit_or_sign_def wire_order_of_def)
    from assms True a have "A (SubmitCall (wire_order_of de a auth tm))" by (auto simp: terms_allowed_def)
    then show ?thesis unfolding x
      by (intro triple_ebind [OF made_submit [OF a(1,2)]]) (auto simp: triple_simps)
  next
    case False
    then have "submit_or_sign de tm = eraise AssertionError" using True
      by (auto simp: submit_or_sign_def split: option.splits)
    then show ?thesis by (simp add: triple_simps made_mono)
  qed
next
  case False
  have "keeps (made A ss rk l 0) (on_world (sg_sign_order (de_signer de) p))" for p
    by (rule made_on_world [OF sign_keeps])
  then have "keeps (made A ss rk l 0) (submit_or_sign de tm)" using False
    unfolding submit_or_sign_def by (auto intro!: keeps_intros)
  then show ?thesis by (rule triple_conseq [OF triple_keeps]) (auto elim: made_mono)
qed

lemma record_lifecycle_made:
  "triple (made A ss rk l n) (record_lifecycle de ts now tm intent presubmit res)
     (\<lambda>(d, _) s. made A ss rk l n s \<and> decision_placed d) (\<lambda>_. made A ss rk l n)"
  unfolding record_lifecycle_def Let_def
  by (auto simp: triple_simps decision_placed_def split: prod.split intro!: triple_first keeps_intros)

text \<open>What one decision leaves: an order only if the decision says it was placed.\<close>

definition decided ::
  "(wire_call \<Rightarrow> bool) \<Rightarrow> safety_session \<Rightarrow> risk_accumulator \<Rightarrow> wire_call list
   \<Rightarrow> submit_decision \<times> lifecycle_event list \<Rightarrow> 'w runner \<Rightarrow> bool" where
  "decided A ss rk l r s \<longleftrightarrow> made A ss rk l (if decision_placed (fst r) then Suc 0 else 0) s"

lemma run_lifecycle_made:
  assumes "terms_allowed de A tm"
  shows "triple (made A ss rk l 0) (run_lifecycle de ts now tm) (decided A ss rk l) (\<lambda>_. made A ss rk l (Suc 0))"
  unfolding run_lifecycle_def Let_def
proof (rule triple_first [OF made_seq_next])
  fix n1 and ev :: order_submit_intent
  let ?rest = "\<lambda>intent. ebind (submit_or_sign de tm) (\<lambda>(presubmit, res). record_lifecycle de ts (now * 1000) tm intent presubmit res)"
  show "triple (made A ss rk l 0) (ebind (elift (mk_order_submit_intent
          \<lparr>ee_sequence_no = n1, ee_source_ts = Some ts, ee_recv_ts = now * 1000, ot_token_id = tm_token_id tm,
         ot_side = tm_side tm, ot_price = tm_price tm, ot_size = tm_size tm, ot_tif = tm_tif tm,
         ot_client_order_id = tm_client_order_id tm, ot_decision_id = tm_client_order_id tm, ot_decision_ts = now * 1000\<rparr>)) ?rest)
         (decided A ss rk l) (\<lambda>_. made A ss rk l (Suc 0))" (is "triple _ (ebind (elift (mk_order_submit_intent ?ev)) _) _ _")
  proof (cases "unit_price (tm_price tm)")
    case True
    have "triple (made A ss rk l 0) (?rest i) (decided A ss rk l) (\<lambda>_. made A ss rk l (Suc 0))" for i
      by (rule triple_ebind [OF submit_or_sign_made [OF True assms]])
        (auto simp: decided_def split: prod.split intro!: triple_conseq [OF record_lifecycle_made])
    then show ?thesis by (rule triple_first [OF keeps_elift]) (auto elim: made_mono)
  next
    case False
    then have "mk_order_submit_intent ?ev = Inl ValueError" by (intro intent_needs_unit_price) simp
    then have "triple (made A ss rk l 0) (elift (mk_order_submit_intent ?ev)) (\<lambda>_ _. False) (\<lambda>_. made A ss rk l (Suc 0))"
      by (auto simp: triple_simps elim: made_mono)
    then show ?thesis by (rule triple_ebind) (simp add: triple_def)
  qed
qed (auto elim: made_mono)

lemma abstains_decided: "reason \<noteq> ab_mode_a_no_orders \<Longrightarrow> triple (made A ss rk l 0) (abstains t reason) (decided A ss rk l) E"
  by (simp add: abstains_def triple_simps decided_def decision_placed_def abstain_def)

lemma abstains_refused:
  "reason \<noteq> ab_mode_a_no_orders \<Longrightarrow> triple (made A ss rk l 0) (abstains t reason) (\<lambda>r s. decided A ss rk l r s \<and> (decision_placed (fst r) \<longrightarrow> b)) E"
  by (simp add: abstains_def triple_simps decided_def decision_placed_def abstain_def)

lemma cancel_replace_made:
  assumes "de_mode de = live_guarded \<Longrightarrow> A (CancelCall i)"
    and resting: "triple (made A ss rk l 0) (emit_resting_lifecycle de quote now r) (decided A ss rk l) (\<lambda>_. made A ss rk l (Suc 0))"
  shows "triple (made A ss rk l 0) (emit_cancel_replace_lifecycle de quote now r i) (decided A ss rk l) (\<lambda>_. made A ss rk l (Suc 0))"
proof -
  have cancel: "keeps (made A ss rk l 0)
     (if de_mode de = live_guarded then
              ebind (require_single_cancel_venue de) (\<lambda>cancel.
              ebind (on_world (cancel i)) (\<lambda>response.
              ebind (old_order_terminal_withdrawn de i) (\<lambda>withdrawn.
              ereturn (canceled_in i response, withdrawn))))
            else ereturn (False, False))"
  proof (cases "va_cancel_single_order (de_adapter de)")
    case None
    then show ?thesis by (auto simp: require_single_cancel_venue_def elift_def keeps_def ebind_apply eff_apply)
  next
    case (Some f)
    then have "require_single_cancel_venue de = ereturn f"
      by (simp add: require_single_cancel_venue_def elift_def ereturn_def fun_eq_iff)
    then show ?thesis using made_single_cancel [OF Some] assms(1) by (auto intro!: keeps_intros)
  qed
  have rest: "triple (made A ss rk l 0)
      (let cancel_event = ce n in if b then ereturn (abstain (rs_token_id r) ab_cancel_replace_old_order_live, [cancel_event])
       else ebind (emit_resting_lifecycle de quote now r) (\<lambda>(decision, events). ereturn (decision, cancel_event # events)))
      (decided A ss rk l) (\<lambda>_. made A ss rk l (Suc 0))" for ce :: "int \<Rightarrow> lifecycle_event" and n b
    using triple_ebind [OF resting, of "\<lambda>(decision, events). ereturn (decision, ce n # events)" "decided A ss rk l"]
    by (simp add: Let_def triple_simps decided_def decision_placed_def abstain_def split: prod.split)
  show ?thesis
    unfolding emit_cancel_replace_lifecycle_def
    by (rule triple_first [OF cancel], clarsimp split: prod.split, rule triple_first [OF made_seq_next], rule rest)
      (auto elim: made_mono)
qed

text \<open>The calls the dispatch of a token may make, given the gates of the run.\<close>

definition dispatched :: "run_gates \<Rightarrow> string \<Rightarrow> wire_call \<Rightarrow> bool" where
  "dispatched g t c \<longleftrightarrow> de_mode de = live_guarded \<and>
     (case c of
        SubmitCall x \<Rightarrow> wo_size x = wg_wire_size g \<and> unit_price (wo_native_price x) \<and> wo_tick_size x = de_tick_size de
          \<and> (\<exists>a auth. de_arming de = Some a \<and> am_order_auth a = Some auth \<and> wo_binding x = am_binding a \<and> wo_auth x = auth)
          \<and> non_crossing_gate \<lparr>ol_token_id = t, ol_side = wo_side x, ol_price = wo_native_price x, ol_kind = PROPOSED,
               ol_uncertain_state = None\<rparr> (de_own_legs de) (de_tick_size de) = Inr None
          \<and> (wg_intent g \<noteq> ik_take \<longrightarrow> wo_token_id x = t \<and> wo_post_only x)
      | CancelCall i \<Rightarrow> wg_intent g = ik_cancel_replace \<and> ip_replaces_client_order_id (wg_intent_params g) = Some i
      | CancelAllCall \<Rightarrow> False)"

lemma dispatch_take_made:
  assumes "wg_intent g = ik_take" and "\<And>c. dispatched g t c \<Longrightarrow> A c"
  shows "triple (made A ss rk l 0) (dispatch_take de g t quote now) (decided A ss rk l) (\<lambda>_. made A ss rk l (Suc 0))"
proof -
  obtain side tif invalid where rt: "resolve_taker_side_tif (wg_intent_params g) = (side, tif, invalid)"
    by (metis prod_cases3)
  have "triple (made A ss rk l 0) (emit_order_lifecycle de quote bid ask now (wg_wire_size g) side tif)
      (decided A ss rk l) (\<lambda>_. made A ss rk l (Suc 0))"
    if "non_crossing_gate \<lparr>ol_token_id = t, ol_side = side, ol_price = (if side = ''BUY'' then ql_price ask else ql_price bid),
      ol_kind = PROPOSED, ol_uncertain_state = None\<rparr> (de_own_legs de) (de_tick_size de) = Inr None" for bid ask
    unfolding emit_order_lifecycle_def
    by (rule run_lifecycle_made) (use that assms in \<open>auto simp: terms_allowed_def wire_order_of_def dispatched_def\<close>)
  then show ?thesis
    unfolding dispatch_take_def rt
    by (auto simp: triple_simps intro!: abstains_decided triple_elift split: option.split elim: made_mono dest: non_crossing_gate_reason)
qed

lemma build_resting_order_size: "build_resting_order de t p w = Inr (Some r) \<Longrightarrow> rs_token_id r = t \<and> rs_size r = w \<and> rs_post_only r"
  by (auto simp: build_resting_order_def mk_resting_order_def rbind_Inr_iff Let_def split: option.splits sum.splits if_splits prod.splits)

lemma dispatch_resting_made:
  assumes "wg_intent g \<noteq> ik_take" and "\<And>c. dispatched g t c \<Longrightarrow> A c"
  shows "triple (made A ss rk l 0) (dispatch_resting de g t quote now) (decided A ss rk l) (\<lambda>_. made A ss rk l (Suc 0))"
proof -
  have rest: "triple (made A ss rk l 0) (emit_resting_lifecycle de quote now r) (decided A ss rk l) (\<lambda>_. made A ss rk l (Suc 0))"
    if "build_resting_order de t (wg_intent_params g) (wg_wire_size g) = Inr (Some r)"
      "non_crossing_gate \<lparr>ol_token_id = rs_token_id r, ol_side = side_text (rs_side r), ol_price = rs_native_price r,
         ol_kind = PROPOSED, ol_uncertain_state = None\<rparr> (de_own_legs de) (de_tick_size de) = Inr None" for r
    unfolding emit_resting_lifecycle_def
    by (rule run_lifecycle_made)
      (use that build_resting_order_size [OF that(1)] assms in \<open>auto simp: terms_allowed_def wire_order_of_def dispatched_def\<close>)
  have cancel: "de_mode de = live_guarded \<Longrightarrow> A (CancelCall i)"
    if "wg_intent g = ik_cancel_replace" "ip_replaces_client_order_id (wg_intent_params g) = Some i" for i
    using that assms(2) by (simp add: dispatched_def)
  show ?thesis
    unfolding dispatch_resting_def
    by (intro triple_splits triple_elift abstains_decided cancel_replace_made rest cancel) (auto elim: made_none dest: non_crossing_gate_reason)
qed

text \<open>One token: any call needs an open session and open gates.\<close>

definition token_call :: "run_gates \<Rightarrow> safety_session \<Rightarrow> string \<Rightarrow> wire_call \<Rightarrow> bool" where
  "token_call g ss t c \<longleftrightarrow> dispatched g t c \<and> \<not> sf_submit_blocked ss \<and> wg_intent_block_reason g = None
     \<and> wg_arming_block_reason g = None \<and> wg_authorization_block_reason g = None \<and> wg_loss_cap_block_reason g = None
     \<and> (wg_enforce_intent_token g \<longrightarrow> wg_intent_target_token g = Some t)"

lemma decide_and_submit_made:
  assumes "honest_gates g" and "refusal oc"
  shows "triple (made (token_call g ss t) ss rk l 0) (decide_and_submit de g oc t)
     (\<lambda>r s. decided (token_call g ss t) ss rk l r s \<and> (decision_placed (fst r) \<longrightarrow> oc = None))
     (\<lambda>_. made (token_call g ss t) ss rk l (if oc = None then Suc 0 else 0))"
    (is "triple ?P _ ?Q ?E")
proof -
  have E: "?E e s" if "?P s" for e s using that by (auto elim: made_mono)
  have quiet: "triple ?P (abstains t r) ?Q ?E" if "refusal (Some r)" for r
    using that by (intro abstains_refused) (simp add: refusal_def)
  have dispatch: "triple ?P (if wg_intent g = ik_take then dispatch_take de g t quote now else dispatch_resting de g t quote now) ?Q ?E"
    if placing: "placing_block_reason de g oc quote now ss = None" and early: "wg_intent_block_reason g = None"
      "\<not> (wg_enforce_intent_token g \<and> Some t \<noteq> wg_intent_target_token g)"
      "\<not> (de_mode de = live_guarded \<and> wg_arming_block_reason g \<noteq> None)" for quote now
  proof -
    from placing have open_gates: "\<not> sf_submit_blocked ss" "wg_authorization_block_reason g = None" "wg_loss_cap_block_reason g = None" "oc = None"
      by (auto simp: placing_block_reason_def check_can_submit_def split: option.splits if_splits)
    then have "token_call g ss t c" if "dispatched g t c" for c
      using that early by (auto simp: token_call_def dispatched_def)
    then show ?thesis using open_gates(4) by (auto intro: dispatch_take_made dispatch_resting_made)
  qed
  have session: "triple ?P (ebind (eread ru_session) f) ?Q ?E" if "triple ?P (f ss) ?Q ?E" for f
    using that by (auto simp: triple_def made_def)
  show ?thesis
    unfolding decide_and_submit_def
    by (intro triple_splits triple_first [OF keeps_eattempt [OF made_quote]] triple_first [OF made_now] session quiet dispatch E)
      (use assms placing_block_reason_refusal [OF assms, of de] in
        \<open>auto simp: honest_gates_def refusal_def triple_simps elim: made_mono\<close>)
qed

section \<open>The calls of a run\<close>

definition ran :: "(wire_call \<Rightarrow> bool) \<Rightarrow> wire_call list \<Rightarrow> string \<Rightarrow> nat \<Rightarrow> 'w runner \<Rightarrow> bool" where
  "ran P l sid k s \<longleftrightarrow> sf_session_id (ru_session s) = sid
     \<and> (\<exists>xs. calls (ru_world s) = l @ xs \<and> orderly xs (sf_submit_blocked (ru_session s)) \<and> list_all P xs
          \<and> length (wire_submits xs) \<le> k)"

definition ran_at :: "(wire_call \<Rightarrow> bool) \<Rightarrow> wire_call list \<Rightarrow> string \<Rightarrow> risk_accumulator \<Rightarrow> nat \<Rightarrow> 'w runner \<Rightarrow> bool" where
  "ran_at P l sid rk k s \<longleftrightarrow> ran P l sid k s \<and> ru_risk s = rk"

lemma ran_at_on_world: "(\<And>l. keeps (\<lambda>w. calls w = l) m) \<Longrightarrow> keeps (ran_at P l sid rk k) (on_world m)"
  by (auto simp: keeps_def ran_at_def ran_def on_world_apply)

lemma ran_at_seq_next [keeps_intros]: "keeps (ran_at P l sid rk k) seq_next"
  by (simp add: keeps_def seq_next_def ran_at_def ran_def)

lemma ran_at_now_ms [keeps_intros]: "keeps (ran_at P l sid rk k) (now_ms de)"
  unfolding now_ms_def by (intro keeps_intros ran_at_on_world now_keeps)

lemma ran_at_startup_read [keeps_intros]: "keeps (ran_at P l sid rk k) (read_startup_open_orders de)"
  unfolding read_startup_open_orders_def by (intro keeps_intros ran_at_on_world get_orders_keeps)

lemma ran_sweep:
  assumes "va_cancel_all_orders (de_adapter de) = Some wire" and "ran P l sid k s" and "P CancelAllCall"
    and "sf_session_id ss = sid" and "\<not> sf_submit_blocked (ru_session s)" and "sf_submit_blocked ss"
  shows "ran P l sid k (s\<lparr>ru_session := ss, ru_risk := rk, ru_world := snd (wire (ru_world s))\<rparr>)"
  using assms cancel_all_adds [OF assms(1), of "ru_world s"]
  by (auto simp: ran_def orderly_sweep)

lemma stop_and_sweep_ran:
  assumes "va_cancel_all_orders (de_adapter de) = Some wire" and "P CancelAllCall"
  shows "keeps (ran_at P l sid rk k) (stop_and_sweep de cause wire)"
  unfolding keeps_def
proof (intro allI impI)
  fix s assume s: "ran_at P l sid rk k s"
  obtain r ss n where c: "cancel_all_and_block (de_stop_clock de) cause (fst (wire (ru_world s))) (ru_session s) = (r, ss, n)"
    by (metis prod_cases3)
  note e = cancel_all_and_block_effect [OF c]
  show "ran_at P l sid rk k (snd (stop_and_sweep de cause wire s))"
  proof (cases "n = 0")
    case True
    then show ?thesis using s e by (auto simp: stop_and_sweep_def c ran_at_def ran_def)
  next
    case False
    then show ?thesis using s e assms(2) ran_sweep [OF assms(1), of P l sid k s ss "ru_risk s"]
      by (auto simp: stop_and_sweep_def c ran_at_def ran_def)
  qed
qed

lemma fold_fill_ran:
  assumes "P CancelAllCall"
  shows "keeps (ran P l sid k) (fold_realized_fill de fill)"
proof (cases "va_cancel_all_orders (de_adapter de)")
  case None
  then show ?thesis by (simp add: fold_realized_fill_def require_cancel_all_adapter_def keeps_eraise)
next
  case (Some wire)
  show ?thesis unfolding keeps_def
  proof (intro allI impI)
    fix s assume s: "ran P l sid k s"
    obtain r risk ss n where c: "on_realized_fill (de_stop_clock de) (RealFill fill) (fst (wire (ru_world s)))
        (de_envelope de) (ru_risk s) (ru_session s) = (r, risk, ss, n)"
      by (metis prod_cases4)
    note e = on_realized_fill_effect [OF c]
    show "ran P l sid k (snd (fold_realized_fill de fill s))"
      using s e ran_sweep [OF Some, of P l sid k s ss risk] assms
      by (auto simp: fold_realized_fill_def require_cancel_all_adapter_def Some c ran_def intro: orderly_block)
  qed
qed

lemma ran_keeps_of_ran_at: "(\<And>rk. keeps (ran_at P l sid rk k) m) \<Longrightarrow> keeps (ran P l sid k) m"
  by (auto simp: keeps_def ran_at_def)

lemma safety_triggers_ran:
  assumes "fills \<noteq> [] \<or> breaker_is_open (de_breaker de) \<or> pe_kill_switch (de_envelope de) \<Longrightarrow> P CancelAllCall"
  shows "keeps (ran P l sid k) (apply_safety_triggers de fills)"
proof -
  have "P CancelAllCall" if "fill \<in> set fills" for fill using that assms by (cases fills) auto
  then show ?thesis
    unfolding apply_safety_triggers_def
    by (intro fold_fill_ran keeps_require_cancel_all ran_keeps_of_ran_at [OF stop_and_sweep_ran] keeps_intros) (use assms in auto)
qed

lemma startup_sweep_ran:
  assumes "enforce \<Longrightarrow> P CancelAllCall"
  shows "keeps (ran_at P l sid rk k) (startup_open_order_sweep de enforce)"
  unfolding startup_open_order_sweep_def
  by (intro keeps_require_cancel_all stop_and_sweep_ran keeps_intros)
    (use assms in \<open>auto simp: ran_at_def ran_def intro: orderly_block\<close>)

lemma shutdown_ran:
  assumes "de_mode de = live_guarded \<Longrightarrow> P CancelAllCall"
  shows "keeps (ran_at P l sid rk k) (apply_shutdown_decision de)"
  unfolding apply_shutdown_decision_def
  by (intro keeps_require_cancel_all stop_and_sweep_ran keeps_intros) (use assms in auto)

text \<open>The start of a run: only sweeps, and the gates of the state it leaves.\<close>

definition gates_at :: "'w runner \<Rightarrow> run_gates \<Rightarrow> bool" where
  "gates_at s g \<longleftrightarrow> compute_gates de (ru_risk s) (sf_session_id (ru_session s))
     (build_admission de (ru_risk s) (sf_session_id (ru_session s)) (open_leg_count (de_own_legs de))) = Inr g"

lemma run_started_ran:
  assumes "de_mode de = live_guarded \<or> fills \<noteq> [] \<or> breaker_is_open (de_breaker de) \<or> pe_kill_switch (de_envelope de) \<Longrightarrow> P CancelAllCall"
  shows "triple (ran P l sid 0) (run_started de fills) (\<lambda>(_, g, _) s. ran P l sid 0 s \<and> gates_at s g) (\<lambda>_. ran P l sid 0)"
proof -
  have rest: "triple (ran_at P l sid rk 0)
      (ebind (elift (compute_gates de rk sid adm)) (\<lambda>g.
       ebind seq_next (\<lambda>n.
       ebind (now_ms de) (\<lambda>now.
       ebind (startup_open_order_sweep de (de_mode de = live_guarded \<and> wg_arming_block_reason g = None)) (\<lambda>_.
       ebind (if wg_intent_block_reason g = Some ab_intent_cancel_all \<and> de_mode de = live_guarded
            then ebind (require_cancel_all_adapter de) (stop_and_sweep de manual) else ereturn ()) (\<lambda>_.
       ereturn (adm, g, build_risk_snapshot de n now rk c)))))))
      (\<lambda>(_, g, _) s. ran P l sid 0 s \<and> gates_at s g) (\<lambda>_. ran P l sid 0)"
    if "adm = build_admission de rk sid (open_leg_count (de_own_legs de))" for rk adm c
  proof (rule triple_elift)
    fix g assume g: "compute_gates de rk sid adm = Inr g"
    have "triple (ran_at P l sid rk 0) (ereturn (adm, g, ev)) (\<lambda>(_, g, _) s. ran P l sid 0 s \<and> gates_at s g) E" for ev E
      using g that by (simp add: triple_simps ran_at_def gates_at_def ran_def)
    then show "triple (ran_at P l sid rk 0) (ebind seq_next (\<lambda>n.
       ebind (now_ms de) (\<lambda>now.
       ebind (startup_open_order_sweep de (de_mode de = live_guarded \<and> wg_arming_block_reason g = None)) (\<lambda>_.
       ebind (if wg_intent_block_reason g = Some ab_intent_cancel_all \<and> de_mode de = live_guarded
            then ebind (require_cancel_all_adapter de) (stop_and_sweep de manual) else ereturn ()) (\<lambda>_.
       ereturn (adm, g, build_risk_snapshot de n now rk c))))))
      (\<lambda>(_, g, _) s. ran P l sid 0 s \<and> gates_at s g) (\<lambda>_. ran P l sid 0)"
      by (intro triple_first keeps_require_cancel_all stop_and_sweep_ran startup_sweep_ran keeps_intros)
        (use assms in \<open>auto simp: ran_at_def\<close>)
  qed (simp add: ran_at_def)
  have weaken: "triple (\<lambda>s. ran P l sid 0 s \<and> (ru_risk s, sf_session_id (ru_session s)) = (rk, sid')) m Q E"
    if "sid' = sid \<Longrightarrow> triple (ran_at P l sid rk 0) m Q E"
    for rk sid' and m :: "('w runner, admission_decision \<times> run_gates \<times> lifecycle_event) eff" and Q E
  proof (cases "sid' = sid")
    case True
    show ?thesis by (rule triple_conseq [OF that [OF True]]) (auto simp: ran_at_def)
  next
    case False
    then show ?thesis by (auto simp: triple_def ran_def)
  qed
  show ?thesis
    unfolding run_started_def
    by (intro triple_first [OF safety_triggers_ran] triple_eread, use assms in blast)
      (auto simp: Let_def intro!: weaken rest)
qed

text \<open>The token loop adds what each decision made.\<close>

lemma made_ran:
  assumes "ran_at P l sid rk k s0" and "made (token_call g (ru_session s0) t) (ru_session s0) rk (calls (ru_world s0)) n s"
    and "\<And>c. token_call g (ru_session s0) t c \<Longrightarrow> P c"
  shows "ran_at P l sid rk (k + n) s"
proof -
  from assms(1) obtain xs where xs: "calls (ru_world s0) = l @ xs" "orderly xs (sf_submit_blocked (ru_session s0))"
    "list_all P xs" "length (wire_submits xs) \<le> k" "sf_session_id (ru_session s0) = sid" by (auto simp: ran_at_def ran_def)
  from assms(2) obtain ys where ys: "calls (ru_world s) = l @ xs @ ys" "list_all (token_call g (ru_session s0) t) ys"
    "length (wire_submits ys) \<le> n" "ru_session s = ru_session s0" "ru_risk s = rk" by (auto simp: made_def xs)
  have P: "list_all P ys" using ys(2) assms(3) by (auto simp: list_all_iff)
  have "orderly (xs @ ys) (sf_submit_blocked (ru_session s0))"
  proof (cases "ys = []")
    case False
    then have "\<not> sf_submit_blocked (ru_session s0)" using ys(2) by (cases ys) (auto simp: token_call_def)
    moreover have "CancelAllCall \<notin> set ys" using ys(2) by (auto simp: list_all_iff token_call_def dispatched_def)
    ultimately show ?thesis using xs(2) by (simp add: orderly_append)
  qed (use xs in simp)
  then show ?thesis using xs ys P by (auto simp: ran_at_def ran_def)
qed

lemma decide_ran:
  assumes "honest_gates g" and "refusal oc" and "\<And>ss c. token_call g ss t c \<Longrightarrow> P c"
  shows "triple (ran_at P l sid rk k) (decide_and_submit de g oc t)
     (\<lambda>(d, _) s. ran_at P l sid rk (if decision_placed d then Suc k else k) s \<and> (decision_placed d \<longrightarrow> oc = None))
     (\<lambda>_. ran_at P l sid rk (if oc = None then Suc k else k))"
proof (rule triple_state [where R = "\<lambda>s0. made (token_call g (ru_session s0) t) (ru_session s0) rk (calls (ru_world s0)) 0"])
  fix s0 assume s0: "ran_at P l sid rk k s0"
  then show "made (token_call g (ru_session s0) t) (ru_session s0) rk (calls (ru_world s0)) 0 s0"
    by (simp add: made_def ran_at_def)
  have step: "ran_at P l sid rk (k + n) s"
    if "made (token_call g (ru_session s0) t) (ru_session s0) rk (calls (ru_world s0)) n s" for s n
    by (rule made_ran [OF s0 that assms(3)])
  show "triple (made (token_call g (ru_session s0) t) (ru_session s0) rk (calls (ru_world s0)) 0) (decide_and_submit de g oc t)
     (\<lambda>(d, _) s. ran_at P l sid rk (if decision_placed d then Suc k else k) s \<and> (decision_placed d \<longrightarrow> oc = None))
     (\<lambda>_. ran_at P l sid rk (if oc = None then Suc k else k))"
    by (rule triple_conseq [OF decide_and_submit_made [OF assms(1,2)]])
      (auto simp: decided_def dest: step split: if_splits)
qed

definition ended :: "(wire_call \<Rightarrow> bool) \<Rightarrow> wire_call list \<Rightarrow> string \<Rightarrow> risk_accumulator \<Rightarrow> int \<Rightarrow> int \<Rightarrow> 'w runner \<Rightarrow> bool" where
  "ended P l sid rk ps pd s \<longleftrightarrow> (\<exists>k. ran_at P l sid rk k s \<and> within_order_caps (de_envelope de) (de_manifest de) ps pd k)"

lemma ended_keeps: "(\<And>k. keeps (ran_at P l sid rk k) m) \<Longrightarrow> keeps (ended P l sid rk ps pd) m"
  unfolding keeps_def ended_def by blast

lemma token_loop_ran:
  assumes "honest_gates g" and "\<And>t ss c. t \<in> set ts \<Longrightarrow> token_call g ss t c \<Longrightarrow> P c"
    and "within_order_caps (de_envelope de) (de_manifest de) ps pd k"
  shows "triple (ran_at P l sid rk k) (token_loop de g ps pd (int k) ts) (\<lambda>_. ended P l sid rk ps pd) (\<lambda>_. ended P l sid rk ps pd)"
  using assms(2,3)
proof (induction ts arbitrary: k)
  case Nil
  then show ?case by (auto simp: triple_simps ended_def)
next
  case (Cons t ts)
  let ?oc = "order_cap_block_reason (int k) (ps + int k) (pd + int k) (de_envelope de) (de_manifest de)"
  let ?k = "\<lambda>d. if decision_placed d then Suc k else k"
  have room: "?oc = None \<Longrightarrow> within_order_caps (de_envelope de) (de_manifest de) ps pd (Suc k)"
    by (rule order_cap_room)
  have one: "triple (ran_at P l sid rk k) (decide_and_submit de g ?oc t)
      (\<lambda>(d, _) s. within_order_caps (de_envelope de) (de_manifest de) ps pd (?k d) \<and> ran_at P l sid rk (?k d) s)
      (\<lambda>_. ended P l sid rk ps pd)"
    by (rule triple_conseq [OF decide_ran [OF assms(1) refusals(2), where P = P]])
      (use Cons.prems room in \<open>auto simp: ended_def split: if_splits\<close>)
  have rest: "triple (\<lambda>s. within_order_caps (de_envelope de) (de_manifest de) ps pd (?k d) \<and> ran_at P l sid rk (?k d) s)
     (ebind (token_loop de g ps pd (if decision_placed d then int k + 1 else int k) ts)
       (\<lambda>(decisions, events). ereturn (d # decisions, token_events @ events)))
     (\<lambda>_. ended P l sid rk ps pd) (\<lambda>_. ended P l sid rk ps pd)" for d token_events
  proof (rule triple_pure)
    assume "within_order_caps (de_envelope de) (de_manifest de) ps pd (?k d)"
    then have "triple (ran_at P l sid rk (?k d)) (token_loop de g ps pd (int (?k d)) ts) (\<lambda>_. ended P l sid rk ps pd) (\<lambda>_. ended P l sid rk ps pd)"
      by (intro Cons.IH Cons.prems(1)) auto
    moreover have "int (?k d) = (if decision_placed d then int k + 1 else int k)" by simp
    ultimately show "triple (ran_at P l sid rk (?k d)) (ebind (token_loop de g ps pd (if decision_placed d then int k + 1 else int k) ts)
       (\<lambda>(decisions, events). ereturn (d # decisions, token_events @ events)))
     (\<lambda>_. ended P l sid rk ps pd) (\<lambda>_. ended P l sid rk ps pd)"
      by (auto simp: triple_simps intro: triple_ebind split: prod.split)
  qed
  show ?case unfolding token_loop.simps
    by (rule triple_ebind [OF one]) (use rest in \<open>auto split: prod.split\<close>)
qed

lemma token_call_for_token:
  assumes "compute_gates de rk sid adm = Inr g" and "token_call g ss t (SubmitCall x)"
  shows "for_token de x t"
  using assms
  by (auto simp: token_call_def dispatched_def compute_gates_def effective_intent_def rbind_Inr_iff Let_def for_token_def split: option.splits)

lemma token_call_admitted:
  assumes "compute_gates de rk sid (build_admission de rk sid (open_leg_count (de_own_legs de))) = Inr g"
    and "t \<in> set (sm_universe (de_manifest de))" and "token_call g ss t c"
  shows "call_admitted de fills rk sid c"
  using assms
  by (auto simp: token_call_def dispatched_def compute_gates_def effective_intent_def rbind_Inr_iff Let_def order_admitted_def
    gates_open_def for_token_def list_ex_iff split: wire_call.splits option.splits)

definition concluded :: "realized_fill list \<Rightarrow> wire_call list \<Rightarrow> string \<Rightarrow> int \<Rightarrow> int \<Rightarrow> 'w runner \<Rightarrow> bool" where
  "concluded fills l sid ps pd s \<longleftrightarrow> ended (call_admitted de fills (ru_risk s) sid) l sid (ru_risk s) ps pd s"

lemma ended_concluded: "ended (call_admitted de fills rk sid) l sid rk ps pd s \<Longrightarrow> concluded fills l sid ps pd s"
  by (auto simp: concluded_def ended_def ran_at_def)

lemma ran_mono: "ran P l sid k s \<Longrightarrow> (\<And>c. P c \<Longrightarrow> P' c) \<Longrightarrow> ran P' l sid k s"
  by (auto simp: ran_def list_all_iff)

lemma run_tokens_ran:
  "triple (ran (\<lambda>_. False) l sid 0) (run_tokens de ps pd meta fills) (\<lambda>_. concluded fills l sid ps pd) (\<lambda>_. concluded fills l sid ps pd)"
proof -
  define P0 where "P0 c \<longleftrightarrow> c = CancelAllCall \<and> (de_mode de = live_guarded \<or> fills \<noteq> [] \<or> breaker_is_open (de_breaker de) \<or> pe_kill_switch (de_envelope de))" for c
  have P0: "P0 c \<Longrightarrow> call_admitted de fills rk sid c" for c rk by (auto simp: P0_def)
  have zero: "within_order_caps env m ps pd 0" for env m by (simp add: within_order_caps_def)
  have start: "triple (ran (\<lambda>_. False) l sid 0) (run_started de fills) (\<lambda>(_, g, _) s. ran P0 l sid 0 s \<and> gates_at s g)
      (\<lambda>_. concluded fills l sid ps pd)"
    by (rule triple_conseq [OF run_started_ran [where P = P0]])
      (auto simp: concluded_def ended_def ran_at_def zero P0_def intro!: exI [of _ 0] elim: ran_mono)
  have rest: "triple (\<lambda>s. ran P0 l sid 0 s \<and> gates_at s g)
      (ebind (token_loop de g ps pd 0 (sm_universe (de_manifest de))) (\<lambda>(decisions, token_events).
       ebind seq_next (\<lambda>n.
       ebind (now_ms de) (\<lambda>now.
       ebind (apply_shutdown_decision de) (\<lambda>shutdown.
       ebind (eread ru_risk) (\<lambda>risk. ereturn (f decisions token_events n now shutdown risk)))))))
      (\<lambda>_. concluded fills l sid ps pd) (\<lambda>_. concluded fills l sid ps pd)" (is "triple _ ?m _ _")
    for g and f :: "submit_decision list \<Rightarrow> lifecycle_event list \<Rightarrow> int \<Rightarrow> int \<Rightarrow> shutdown_decision \<Rightarrow> risk_accumulator \<Rightarrow> dust_result"
  proof (rule triple_state [where R = "\<lambda>s0. ran_at (call_admitted de fills (ru_risk s0) sid) l sid (ru_risk s0) 0"])
    fix s0 assume s0: "ran P0 l sid 0 s0 \<and> gates_at s0 g"
    let ?rk = "ru_risk s0"
    let ?P = "call_admitted de fills ?rk sid"
    from s0 have g: "compute_gates de ?rk sid (build_admission de ?rk sid (open_leg_count (de_own_legs de))) = Inr g"
      by (auto simp: gates_at_def ran_def)
    show "ran_at ?P l sid ?rk 0 s0" using s0 P0 by (auto simp: ran_at_def elim: ran_mono)
    have loop: "triple (ran_at ?P l sid ?rk 0) (token_loop de g ps pd 0 (sm_universe (de_manifest de)))
      (\<lambda>_. ended ?P l sid ?rk ps pd) (\<lambda>_. ended ?P l sid ?rk ps pd)"
      using token_loop_ran [where P = ?P and ts = "sm_universe (de_manifest de)" and k = 0, OF compute_gates_honest [OF g] _ zero]
        token_call_admitted [OF g] by simp
    have "triple (ran_at ?P l sid ?rk 0) ?m (\<lambda>_. ended ?P l sid ?rk ps pd) (\<lambda>_. ended ?P l sid ?rk ps pd)"
      by (rule triple_ebind [OF loop], clarsimp split: prod.split, rule triple_keeps)
        (intro keeps_intros ended_keeps shutdown_ran; simp)
    then show "triple (ran_at ?P l sid ?rk 0) ?m (\<lambda>_. concluded fills l sid ps pd) (\<lambda>_. concluded fills l sid ps pd)"
      by (rule triple_conseq) (auto elim: ended_concluded)
  qed
  show ?thesis
    unfolding run_tokens_def Let_def
    by (rule triple_ebind [OF start]) (auto intro!: rest split: prod.split)
qed

text \<open>What the calls of a run show, for any outcome.\<close>

lemma run_log:
  assumes "run_dust_execution de identity session risk fills ps pd w = (r, Some s, w')" and "calls w = []"
  shows "list_all (call_admitted de fills (ru_risk s) (sf_session_id (ru_session s))) (calls w')"
    and "CancelAllCall \<notin> set (butlast (calls w'))"
    and "CancelAllCall \<in> set (calls w') \<longrightarrow> sf_submit_blocked (ru_session s)"
    and "within_order_caps (de_envelope de) (de_manifest de) ps pd (length (wire_submits (calls w')))"
proof -
  from assms(1) obtain meta s0 where run: "run_tokens de ps pd meta fills s0 = (r, s)" "ru_world s0 = w" "w' = ru_world s"
    by (auto simp: run_dust_execution_def Let_def split: sum.splits prod.splits)
  have start: "ran (\<lambda>_. False) [] (sf_session_id (ru_session s0)) 0 s0"
    using run(2) assms(2) by (simp add: ran_def orderly_def)
  note tr = run_tokens_ran [where l = "[]" and sid = "sf_session_id (ru_session s0)" and ps = ps and pd = pd and meta = meta and fills = fills]
  have "concluded fills [] (sf_session_id (ru_session s0)) ps pd s"
    by (cases r) (use triple_Inr [OF tr start] triple_Inl [OF tr start] run(1) in auto)
  then obtain k where k: "ran_at (call_admitted de fills (ru_risk s) (sf_session_id (ru_session s0))) []
      (sf_session_id (ru_session s0)) (ru_risk s) k s" "within_order_caps (de_envelope de) (de_manifest de) ps pd k"
    by (auto simp: concluded_def ended_def)
  then show "list_all (call_admitted de fills (ru_risk s) (sf_session_id (ru_session s))) (calls w')"
    "CancelAllCall \<notin> set (butlast (calls w'))" "CancelAllCall \<in> set (calls w') \<longrightarrow> sf_submit_blocked (ru_session s)"
    "within_order_caps (de_envelope de) (de_manifest de) ps pd (length (wire_submits (calls w')))"
    using run(3) by (auto simp: ran_at_def ran_def orderly_def elim: within_order_caps_mono)
qed

lemma run_log_none: "run_dust_execution de identity session risk fills ps pd w = (r, None, w') \<Longrightarrow> calls w' = calls w"
  by (auto simp: run_dust_execution_def Let_def split: sum.splits prod.splits)

end

section \<open>A world that keeps a log\<close>

text \<open>
  Any environment with a log beside its world: each call appends what is recorded of it, a write whatever
  comes back, a quote or a clock reading only when there is one.
\<close>

definition recording :: "('a result \<Rightarrow> 'c list) \<Rightarrow> ('w, 'a) eff \<Rightarrow> ('w \<times> 'c list, 'a) eff" where
  "recording h m = (\<lambda>(w, l). case m w of (r, w') \<Rightarrow> (r, (w', l @ h r)))"

abbreviation unlogged :: "('w, 'a) eff \<Rightarrow> ('w \<times> 'c list, 'a) eff" where
  "unlogged m \<equiv> recording (\<lambda>_. []) m"

definition on_return :: "('a \<Rightarrow> 'c list) \<Rightarrow> 'a result \<Rightarrow> 'c list" where
  "on_return h r = (case r of Inl _ \<Rightarrow> [] | Inr x \<Rightarrow> h x)"

definition recorded_arming :: "(wire_call \<Rightarrow> 'c list) \<Rightarrow> 'w mode_b_arming \<Rightarrow> ('w \<times> 'c list) mode_b_arming" where
  "recorded_arming W a =
     \<lparr>am_mode_a_passed = am_mode_a_passed a, am_clobv2_gate = am_clobv2_gate a,
      am_privy_preflight_ok = am_privy_preflight_ok a, am_provisioning_ok = am_provisioning_ok a,
      am_binding = am_binding a, am_live_policy = am_live_policy a, am_live_quorum = am_live_quorum a,
      am_operator_interlock = am_operator_interlock a,
      am_write_port = map_option (\<lambda>port x. recording (\<lambda>_. W (SubmitCall x)) (port x)) (am_write_port a),
      am_order_auth = am_order_auth a\<rparr>"

definition recorded_adapter :: "(wire_call \<Rightarrow> 'c list) \<Rightarrow> 'w dust_adapter \<Rightarrow> ('w \<times> 'c list) dust_adapter" where
  "recorded_adapter W ad =
     \<lparr>va_cancel_all_orders = map_option (recording (\<lambda>_. W CancelAllCall)) (va_cancel_all_orders ad),
      va_get_orders = map_option unlogged (va_get_orders ad),
      va_get_order = map_option (\<lambda>f i. unlogged (f i)) (va_get_order ad),
      va_get_fill_history = map_option (\<lambda>f i. unlogged (f i)) (va_get_fill_history ad),
      va_cancel_single_order = map_option (\<lambda>f i. recording (\<lambda>_. W (CancelCall i)) (f i)) (va_cancel_single_order ad)\<rparr>"

definition recorded ::
  "(wire_call \<Rightarrow> 'c list) \<Rightarrow> (string \<Rightarrow> dust_quote \<Rightarrow> 'c list) \<Rightarrow> (int \<Rightarrow> 'c list) \<Rightarrow> 'w dust_env \<Rightarrow> ('w \<times> 'c list) dust_env" where
  "recorded W Q N de =
     \<lparr>de_codec = de_codec de, de_parse = de_parse de, de_shown = de_shown de, de_float_text = de_float_text de,
      de_manifest_hash = de_manifest_hash de, de_policy_hash = de_policy_hash de, de_stop_clock = de_stop_clock de,
      de_adapter = recorded_adapter W (de_adapter de),
      de_signer = \<lparr>sg_mode = sg_mode (de_signer de), sg_sign_order = (\<lambda>p. unlogged (sg_sign_order (de_signer de) p))\<rparr>,
      de_read_quote = (\<lambda>t. recording (on_return (Q t)) (de_read_quote de t)), de_now = recording (on_return N) (de_now de),
      de_envelope = de_envelope de, de_manifest = de_manifest de, de_mode = de_mode de,
      de_wallet_equity_at_decision = de_wallet_equity_at_decision de, de_fixed_fraction = de_fixed_fraction de,
      de_request = de_request de, de_arming = map_option (recorded_arming W) (de_arming de),
      de_interlock_store = de_interlock_store de, de_breaker = de_breaker de, de_own_legs = de_own_legs de,
      de_tick_size = de_tick_size de, de_shutdown_policy = de_shutdown_policy de\<rparr>"

lemma recorded_fields [simp]:
  "de_codec (recorded W Q N de) = de_codec de"
  "de_parse (recorded W Q N de) = de_parse de"
  "de_shown (recorded W Q N de) = de_shown de"
  "de_float_text (recorded W Q N de) = de_float_text de"
  "de_manifest_hash (recorded W Q N de) = de_manifest_hash de"
  "de_policy_hash (recorded W Q N de) = de_policy_hash de"
  "de_stop_clock (recorded W Q N de) = de_stop_clock de"
  "de_envelope (recorded W Q N de) = de_envelope de"
  "de_manifest (recorded W Q N de) = de_manifest de"
  "de_mode (recorded W Q N de) = de_mode de"
  "de_wallet_equity_at_decision (recorded W Q N de) = de_wallet_equity_at_decision de"
  "de_fixed_fraction (recorded W Q N de) = de_fixed_fraction de"
  "de_request (recorded W Q N de) = de_request de"
  "de_interlock_store (recorded W Q N de) = de_interlock_store de"
  "de_breaker (recorded W Q N de) = de_breaker de"
  "de_own_legs (recorded W Q N de) = de_own_legs de"
  "de_tick_size (recorded W Q N de) = de_tick_size de"
  "de_shutdown_policy (recorded W Q N de) = de_shutdown_policy de"
  "de_adapter (recorded W Q N de) = recorded_adapter W (de_adapter de)"
  "de_arming (recorded W Q N de) = map_option (recorded_arming W) (de_arming de)"
  "sg_mode (de_signer (recorded W Q N de)) = sg_mode (de_signer de)"
  "sg_sign_order (de_signer (recorded W Q N de)) p = unlogged (sg_sign_order (de_signer de) p)"
  "de_read_quote (recorded W Q N de) t = recording (on_return (Q t)) (de_read_quote de t)"
  "de_now (recorded W Q N de) = recording (on_return N) (de_now de)"
  by (simp_all add: recorded_def)

text \<open>The log of the writes alone.\<close>

definition logged :: "'w dust_env \<Rightarrow> ('w \<times> wire_call list) dust_env" where
  "logged = recorded (\<lambda>c. [c]) (\<lambda>_ _. []) (\<lambda>_. [])"

lemma on_return_nothing [simp]: "on_return (\<lambda>_. []) = (\<lambda>_. [])"
  by (simp add: on_return_def fun_eq_iff split: sum.split)

lemma unlogged_keeps: "keeps (\<lambda>w. snd w = l) (unlogged m)"
  by (auto simp: keeps_def recording_def split: prod.split)

lemma recording_adds: "snd (snd (recording (\<lambda>_. c) m w)) = snd w @ c"
  by (auto simp: recording_def split: prod.split)

lemmas logged_simps = logged_def recorded_def recorded_adapter_def recorded_arming_def

interpretation writes: wire_monitor "logged de" snd for de :: "'w dust_env"
  by unfold_locales (auto simp: logged_simps unlogged_keeps recording_adds)

text \<open>Recording is transparent: forgetting the log turns a recorded run into the run itself.\<close>

definition erase :: "('w \<times> 'c list) runner \<Rightarrow> 'w runner" where
  "erase s = \<lparr>ru_next_seq = ru_next_seq s, ru_session = ru_session s, ru_risk = ru_risk s, ru_world = fst (ru_world s)\<rparr>"

definition erases :: "(('w \<times> 'c list) runner, 'a) eff \<Rightarrow> ('w runner, 'a) eff \<Rightarrow> bool" where
  "erases m' m \<longleftrightarrow> (\<forall>s. m (erase s) = (fst (m' s), erase (snd (m' s))))"

named_theorems erases_intros \<open>recorded and plain code, construct by construct\<close>

lemma erase_fields [simp]:
  "ru_next_seq (erase s) = ru_next_seq s" "ru_session (erase s) = ru_session s" "ru_risk (erase s) = ru_risk s"
  "ru_world (erase s) = fst (ru_world s)"
  by (simp_all add: erase_def)

lemma erases_basic [erases_intros]:
  "erases (ereturn x) (ereturn x)" "erases (eraise e) (eraise e)" "erases (elift r) (elift r)" "erases seq_next seq_next"
  "erases (eread ru_session) (eread ru_session)" "erases (eread ru_risk) (eread ru_risk)"
  by (simp_all add: erases_def eff_apply seq_next_def erase_def)

lemma erases_ebind [erases_intros]: "erases m' m \<Longrightarrow> (\<And>x. erases (f' x) (f x)) \<Longrightarrow> erases (ebind m' f') (ebind m f)"
  by (auto simp: erases_def ebind_apply split: prod.split sum.split)

lemma erases_splits [erases_intros]:
  "(b \<Longrightarrow> erases m' m) \<Longrightarrow> (\<not> b \<Longrightarrow> erases n' n) \<Longrightarrow> erases (if b then m' else n') (if b then m else n)"
  "(ov = None \<Longrightarrow> erases m' m) \<Longrightarrow> (\<And>x. ov = Some x \<Longrightarrow> erases (f' x) (f x)) \<Longrightarrow>
     erases (case ov of None \<Rightarrow> m' | Some x \<Rightarrow> f' x) (case ov of None \<Rightarrow> m | Some x \<Rightarrow> f x)"
  "(\<And>e. r = Inl e \<Longrightarrow> erases (g' e) (g e)) \<Longrightarrow> (\<And>x. r = Inr x \<Longrightarrow> erases (h' x) (h x)) \<Longrightarrow>
     erases (case r of Inl e \<Rightarrow> g' e | Inr x \<Rightarrow> h' x) (case r of Inl e \<Rightarrow> g e | Inr x \<Rightarrow> h x)"
  "(\<And>a b. p = (a, b) \<Longrightarrow> erases (k' a b) (k a b)) \<Longrightarrow> erases (case p of (a, b) \<Rightarrow> k' a b) (case p of (a, b) \<Rightarrow> k a b)"
  "(\<And>x. x = v \<Longrightarrow> erases (u' x) (u x)) \<Longrightarrow> erases (Let v u') (Let v u)"
  by (simp_all split: option.split sum.split prod.split)

lemma erases_eattempt [erases_intros]: "erases m' m \<Longrightarrow> erases (eattempt m') (eattempt m)"
  by (simp add: erases_def eattempt_apply)

lemma erases_efor [erases_intros]: "(\<And>x. erases (f' x) (f x)) \<Longrightarrow> erases (efor xs f') (efor xs f)"
  by (induction xs) (auto intro!: erases_intros)

lemma erases_on_world [erases_intros]: "erases (on_world (recording h m)) (on_world m)"
  by (auto simp: erases_def on_world_apply recording_def erase_def split: prod.split)

lemma erases_surface [erases_intros]: "erases (surface (map_option unlogged call)) (surface call)"
  unfolding surface_def by (cases call) (auto intro!: erases_intros)

lemma recorded_adapter_fields [simp]:
  "va_cancel_all_orders (recorded_adapter W ad) = map_option (recording (\<lambda>_. W CancelAllCall)) (va_cancel_all_orders ad)"
  "va_get_orders (recorded_adapter W ad) = map_option unlogged (va_get_orders ad)"
  "va_cancel_single_order (recorded_adapter W ad) = map_option (\<lambda>f i. recording (\<lambda>_. W (CancelCall i)) (f i)) (va_cancel_single_order ad)"
  "map_option (\<lambda>f. f i) (va_get_order (recorded_adapter W ad)) = map_option unlogged (map_option (\<lambda>f. f i) (va_get_order ad))"
  "map_option (\<lambda>f. f i) (va_get_fill_history (recorded_adapter W ad)) = map_option unlogged (map_option (\<lambda>f. f i) (va_get_fill_history ad))"
  by (simp_all add: recorded_adapter_def option.map_comp comp_def)

lemma erases_reconcile [erases_intros]: "erases (reconcile_after_submit (recorded W Q N de) r) (reconcile_after_submit de r)"
  unfolding reconcile_after_submit_def Let_def by (simp only: recorded_fields recorded_adapter_fields) (intro erases_intros)

lemma erases_now_ms [erases_intros]: "erases (now_ms (recorded W Q N de)) (now_ms de)"
  unfolding now_ms_def by (simp only: recorded_fields) (intro erases_intros)

lemma erases_startup_read [erases_intros]: "erases (read_startup_open_orders (recorded W Q N de)) (read_startup_open_orders de)"
  unfolding read_startup_open_orders_def
  by (cases "va_get_orders (de_adapter de)") (auto intro!: erases_intros)

lemma erases_stop_and_sweep [erases_intros]:
  "erases (stop_and_sweep (recorded W Q N de) cause (recording (\<lambda>_. W CancelAllCall) wire)) (stop_and_sweep de cause wire)"
  by (auto simp: erases_def stop_and_sweep_def recording_def erase_def Let_def split: prod.split)

lemma erases_require_cancel_all [erases_intros]:
  "(\<And>wire. erases (f' (recording (\<lambda>_. W CancelAllCall) wire)) (f wire)) \<Longrightarrow>
     erases (ebind (require_cancel_all_adapter (recorded W Q N de)) f') (ebind (require_cancel_all_adapter de) f)"
  by (cases "va_cancel_all_orders (de_adapter de)") (auto simp: require_cancel_all_adapter_def intro: erases_intros)

lemma erases_require_single_cancel [erases_intros]:
  "(\<And>cancel. erases (f' (\<lambda>i. recording (\<lambda>_. W (CancelCall i)) (cancel i))) (f cancel)) \<Longrightarrow>
     erases (ebind (require_single_cancel_venue (recorded W Q N de)) f') (ebind (require_single_cancel_venue de) f)"
  by (cases "va_cancel_single_order (de_adapter de)") (auto simp: require_single_cancel_venue_def intro: erases_intros)

lemma erases_fold_fill [erases_intros]: "erases (fold_realized_fill (recorded W Q N de) fill) (fold_realized_fill de fill)"
  unfolding fold_realized_fill_def
  by (rule erases_require_cancel_all) (auto simp: erases_def recording_def erase_def Let_def split: prod.split)

lemma erases_triggers [erases_intros]: "erases (apply_safety_triggers (recorded W Q N de) fills) (apply_safety_triggers de fills)"
  unfolding apply_safety_triggers_def recorded_fields
  by (intro erases_require_cancel_all erases_stop_and_sweep erases_intros)

lemma erases_startup_sweep [erases_intros]:
  "erases (startup_open_order_sweep (recorded W Q N de) enforce) (startup_open_order_sweep de enforce)"
proof -
  have "erases (eupdate (\<lambda>s. s\<lparr>ru_session := h (ru_session s)\<rparr>)) (eupdate (\<lambda>s. s\<lparr>ru_session := h (ru_session s)\<rparr>))" for h
    by (simp add: erases_def eff_apply erase_def)
  then show ?thesis
    unfolding startup_open_order_sweep_def Let_def
    by (cases "va_cancel_all_orders (de_adapter de)") (auto intro!: erases_require_cancel_all erases_stop_and_sweep erases_intros)
qed

lemma erases_eread_blocked [erases_intros]:
  "erases (eread (\<lambda>s. sf_submit_blocked (ru_session s))) (eread (\<lambda>s. sf_submit_blocked (ru_session s)))"
  "erases (eread (\<lambda>s. (ru_risk s, sf_session_id (ru_session s)))) (eread (\<lambda>s. (ru_risk s, sf_session_id (ru_session s))))"
  by (simp_all add: erases_def eff_apply)

lemma erases_shutdown [erases_intros]: "erases (apply_shutdown_decision (recorded W Q N de)) (apply_shutdown_decision de)"
  unfolding apply_shutdown_decision_def recorded_fields
  by (intro erases_require_cancel_all erases_stop_and_sweep erases_intros)

lemma recorded_arming_fields [simp]:
  "am_mode_a_passed (recorded_arming W a) = am_mode_a_passed a" "am_clobv2_gate (recorded_arming W a) = am_clobv2_gate a"
  "am_privy_preflight_ok (recorded_arming W a) = am_privy_preflight_ok a" "am_provisioning_ok (recorded_arming W a) = am_provisioning_ok a"
  "am_binding (recorded_arming W a) = am_binding a" "am_live_policy (recorded_arming W a) = am_live_policy a"
  "am_live_quorum (recorded_arming W a) = am_live_quorum a" "am_operator_interlock (recorded_arming W a) = am_operator_interlock a"
  "am_order_auth (recorded_arming W a) = am_order_auth a"
  "am_write_port (recorded_arming W a) = map_option (\<lambda>port x. recording (\<lambda>_. W (SubmitCall x)) (port x)) (am_write_port a)"
  by (simp_all add: recorded_arming_def)

lemma erases_submit_or_sign [erases_intros]: "erases (submit_or_sign (recorded W Q N de) tm) (submit_or_sign de tm)"
  unfolding submit_or_sign_def recorded_fields
  by (cases "de_arming de") (auto intro!: erases_intros split: option.split)

lemma erases_record [erases_intros]:
  "erases (record_lifecycle (recorded W Q N de) ts now tm intent pre res) (record_lifecycle de ts now tm intent pre res)"
  unfolding record_lifecycle_def recorded_fields by (intro erases_intros)

lemma erases_run_lifecycle [erases_intros]: "erases (run_lifecycle (recorded W Q N de) ts now tm) (run_lifecycle de ts now tm)"
  unfolding run_lifecycle_def by (intro erases_intros)

lemma erases_cancel_replace [erases_intros]:
  "erases (emit_cancel_replace_lifecycle (recorded W Q N de) quote now r i) (emit_cancel_replace_lifecycle de quote now r i)"
  unfolding emit_cancel_replace_lifecycle_def old_order_terminal_withdrawn_def emit_resting_lifecycle_def recorded_fields
  by (intro erases_require_single_cancel erases_on_world erases_intros)

lemma recorded_pure [simp]:
  "build_resting_order (recorded W Q N de) t p x = build_resting_order de t p x"
  "placing_block_reason (recorded W Q N de) g oc quote now ss = placing_block_reason de g oc quote now ss"
  "build_admission (recorded W Q N de) rk sid n = build_admission de rk sid n"
  "authorization_block_reason (recorded W Q N de) adm = authorization_block_reason de adm"
  "loss_cap_block_reason (recorded W Q N de) rk = loss_cap_block_reason de rk"
  "resolve_wire_size (recorded W Q N de) = resolve_wire_size de"
  "build_risk_snapshot (recorded W Q N de) n now rk c = build_risk_snapshot de n now rk c"
  "build_label_event (recorded W Q N de) n now = build_label_event de n now"
  "resolve_session_outcome (recorded W Q N de) rk events = resolve_session_outcome de rk events"
  "build_session_meta (recorded W Q N de) identity = build_session_meta de identity"
  by (simp_all only: recorded_fields build_resting_order_def placing_block_reason_def build_admission_def authorization_block_reason_def
    loss_cap_block_reason_def resolve_wire_size_def build_risk_snapshot_def build_label_event_def resolve_session_outcome_def
    build_session_meta_def)

lemma recorded_arming_gate [simp]: "mode_b_arming_block_reason (recorded W Q N de) sid = mode_b_arming_block_reason de sid"
  by (cases "de_arming de") (simp_all only: mode_b_arming_block_reason_def arming_attempt_ref_def recorded_fields recorded_arming_fields
    option.map option.case option.map_disc_iff)

lemma recorded_gates [simp]: "compute_gates (recorded W Q N de) rk sid adm = compute_gates de rk sid adm"
  by (simp add: compute_gates_def)

lemma erases_dispatch_take [erases_intros]: "erases (dispatch_take (recorded W Q N de) g t quote now) (dispatch_take de g t quote now)"
  unfolding dispatch_take_def emit_order_lifecycle_def abstains_def recorded_fields by (intro erases_intros)

lemma erases_dispatch_resting [erases_intros]:
  "erases (dispatch_resting (recorded W Q N de) g t quote now) (dispatch_resting de g t quote now)"
  unfolding dispatch_resting_def emit_resting_lifecycle_def abstains_def recorded_fields recorded_pure by (intro erases_intros)

lemma erases_decide [erases_intros]: "erases (decide_and_submit (recorded W Q N de) g oc t) (decide_and_submit de g oc t)"
  unfolding decide_and_submit_def abstains_def recorded_fields recorded_pure by (intro erases_intros)

lemma erases_token_loop [erases_intros]: "erases (token_loop (recorded W Q N de) g ps pd k ts) (token_loop de g ps pd k ts)"
  by (induction ts arbitrary: k) (auto simp only: token_loop.simps recorded_fields intro!: erases_intros)

lemma erases_run_started [erases_intros]: "erases (run_started (recorded W Q N de) fills) (run_started de fills)"
  unfolding run_started_def recorded_fields recorded_pure recorded_gates
  by (intro erases_require_cancel_all erases_stop_and_sweep erases_intros)

lemma erases_run_tokens: "erases (run_tokens (recorded W Q N de) ps pd meta fills) (run_tokens de ps pd meta fills)"
  unfolding run_tokens_def recorded_fields recorded_pure by (intro erases_intros)

lemma run_dust_execution_recorded:
  assumes "run_dust_execution (recorded W Q N de) identity session risk fills ps pd (w, l) = (r, st, w', l')"
  shows "run_dust_execution de identity session risk fills ps pd w = (r, map_option erase st, w')"
proof -
  have "run_tokens de ps pd meta fills \<lparr>ru_next_seq = 1, ru_session = ss, ru_risk = rk, ru_world = w\<rparr> = (r, erase s)"
    if "run_tokens (recorded W Q N de) ps pd meta fills \<lparr>ru_next_seq = 1, ru_session = ss, ru_risk = rk, ru_world = (w, l)\<rparr> = (r, s)" for ss rk r s meta
    using erases_run_tokens [of W Q N de ps pd meta fills, unfolded erases_def, rule_format,
      of "\<lparr>ru_next_seq = 1, ru_session = ss, ru_risk = rk, ru_world = (w, l)\<rparr>"] that by (simp add: erase_def)
  then show ?thesis using assms
    by (auto simp: run_dust_execution_def Let_def split: sum.splits prod.splits)
qed

lemma recorded_for_token [simp]: "for_token (recorded W Q N de) = for_token de"
  by (simp add: for_token_def fun_eq_iff)

lemma recorded_admitted [simp]: "call_admitted (recorded W Q N de) = call_admitted de"
proof (intro ext)
  show "call_admitted (recorded W Q N de) fills rk sid c = call_admitted de fills rk sid c" for fills rk sid c
    by (cases c) (simp_all add: order_admitted_def gates_open_def option.map_comp comp_def bind_map_option)
qed

lemma logged_same [simp]:
  "de_envelope (logged de) = de_envelope de" "de_manifest (logged de) = de_manifest de" "call_admitted (logged de) = call_admitted de"
  by (simp_all add: logged_def)

text \<open>
  C11: the orders a run hands to the venue stay within every enabled cap: the envelope's caps per run, session
  and day, the last two counted together with the orders the caller reports as placed before, and the
  manifest's cap. An order whose submit raised counts.
\<close>

theorem dust_run_within_order_caps:
  "case run_dust_execution (logged de) identity session risk fills ps pd (w, []) of
     (r, st, w', lg) \<Rightarrow> within_order_caps (de_envelope de) (de_manifest de) ps pd (length (wire_submits lg))"
proof -
  obtain r st w' lg where run: "run_dust_execution (logged de) identity session risk fills ps pd (w, []) = (r, st, w', lg)"
    by (metis prod_cases4)
  show ?thesis
  proof (cases st)
    case None
    then show ?thesis using writes.run_log_none [of de] run by (fastforce simp: within_order_caps_def)
  next
    case (Some s)
    then show ?thesis using writes.run_log(4) [OF run [unfolded Some]] run by simp
  qed
qed

text \<open>
  C12: a dry run (Mode A) never submits an order or cancels a single one, whatever it is given. It makes at most
  one write, the cancel-all of the emergency stop, and only when it was handed realized fills, an open
  breaker or an engaged kill switch.
\<close>

theorem dry_run_leaves_the_venue:
  assumes "de_mode de = dry_run"
    and "run_dust_execution (logged de) identity session risk fills ps pd (w, []) = (r, st, w', lg)"
  shows "lg = [] \<or> lg = [CancelAllCall]
     \<and> (fills \<noteq> [] \<or> breaker_is_open (de_breaker de) \<or> pe_kill_switch (de_envelope de))"
proof (cases st)
  case None
  then show ?thesis using writes.run_log_none [OF assms(2) [unfolded None]] by simp
next
  case (Some s)
  have adm: "list_all (call_admitted de fills (ru_risk s) (sf_session_id (ru_session s))) lg"
    and last: "CancelAllCall \<notin> set (butlast lg)" using writes.run_log(1,2) [OF assms(2) [unfolded Some]] by simp_all
  have swept: "c = CancelAllCall \<and> (fills \<noteq> [] \<or> breaker_is_open (de_breaker de) \<or> pe_kill_switch (de_envelope de))"
    if "c \<in> set lg" for c
  proof -
    from that adm have "call_admitted de fills (ru_risk s) (sf_session_id (ru_session s)) c" by (simp add: list_all_iff)
    then show ?thesis using assms(1) by (cases c) (auto simp: order_admitted_def gates_open_def)
  qed
  have "butlast lg = []" using swept last by (metis in_set_butlastD last_in_set)
  then show ?thesis using swept by (cases lg) (auto split: if_splits)
qed

definition demo_dust :: "unit dust_env" where
  "demo_dust =
     \<lparr>de_codec = demo_codec, de_parse = (\<lambda>_. None), de_shown = (\<lambda>_. []), de_float_text = (\<lambda>_. ''0.01''),
      de_manifest_hash = (\<lambda>_. ''m''), de_policy_hash = (\<lambda>_. ''p''), de_stop_clock = (\<lambda>n. n),
      de_adapter = \<lparr>va_cancel_all_orders = Some (ereturn 1), va_get_orders = None, va_get_order = None,
        va_get_fill_history = None, va_cancel_single_order = None\<rparr>,
      de_signer = local_fake_signer demo_codec ''wallet'',
      de_read_quote = (\<lambda>_. eraise StaleVenueBook), de_now = ereturn 5,
      de_envelope = demo_env\<lparr>pe_kill_switch := True\<rparr>, de_manifest = demo_manifest, de_mode = dry_run,
      de_wallet_equity_at_decision = fl_zero, de_fixed_fraction = fl_zero,
      de_request = None, de_arming = None, de_interlock_store = None, de_breaker = None, de_own_legs = [],
      de_tick_size = fl_one, de_shutdown_policy = shut_leave_open\<rparr>"

theorem dry_run_leaves_the_venue_witness:
  "\<exists>r st w'. run_dust_execution (logged demo_dust) None None None [] 0 0 ((), []) = (r, st, w', [CancelAllCall])
     \<and> pe_kill_switch (de_envelope demo_dust)"
proof -
  obtain r st w' lg where run: "run_dust_execution (logged demo_dust) None None None [] 0 0 ((), []) = (r, st, w', lg)"
    by (metis prod_cases4)
  have "lg \<noteq> []"
    using run
    by (auto simp: run_dust_execution_def run_tokens_def run_started_def apply_safety_triggers_def demo_dust_def demo_manifest_def
      demo_env_def logged_simps recording_def build_session_meta_def float_of_int_def fl_fit_def
      require_cancel_all_adapter_def stop_and_sweep_def cancel_all_and_block_def sweep_begin_def sweep_finish_def
      build_triggered_def build_ack_def record_event_def next_sequence_no_def new_safety_session_def breaker_is_open_def
      compute_gates_def resolve_wire_size_def resolve_dust_size_def nonneg_finite_def effective_intent_def intent_block_reason_def
      seq_next_def now_ms_def startup_open_order_sweep_def read_startup_open_orders_def apply_shutdown_decision_def
      decide_and_submit_def abstains_def eattempt_apply on_world_apply ebind_apply eff_apply Let_def)
  with dry_run_leaves_the_venue [OF _ run] run show ?thesis by (auto simp: demo_dust_def)
qed

end
