(* ===== verification/Dust_Events.thy ===== *)
theory Dust_Events
  imports Dust_Monitor
begin

text \<open>
  The sequence numbers of the lifecycle events of a dust run
  (\<open>src/veridex/dust_execution/runner.py\<close>, class \<open>_SeqCounter\<close>).
\<close>

section \<open>Code that leaves the counter alone\<close>

definition at_seq :: "int \<Rightarrow> 'w runner \<Rightarrow> bool" where
  "at_seq n s \<longleftrightarrow> ru_next_seq s = n"

lemma seq_on_world [keeps_intros]: "keeps (at_seq n) (on_world m)"
  by (simp add: keeps_def at_seq_def on_world_apply)

lemma seq_surface [keeps_intros]: "keeps (at_seq n) (surface call)"
  unfolding surface_def by (intro keeps_intros)

lemma seq_reconcile [keeps_intros]: "keeps (at_seq n) (reconcile_after_submit de r)"
  unfolding reconcile_after_submit_def by (intro keeps_intros)

lemma seq_stop_and_sweep [keeps_intros]: "keeps (at_seq n) (stop_and_sweep de cause wire)"
  by (auto simp: keeps_def at_seq_def stop_and_sweep_def Let_def split: prod.split)

lemma seq_fold_fill [keeps_intros]: "keeps (at_seq n) (fold_realized_fill de fill)"
  unfolding fold_realized_fill_def require_cancel_all_adapter_def
  by (intro keeps_ebind keeps_elift) (auto simp: keeps_def at_seq_def Let_def split: prod.split)

lemma seq_requires [keeps_intros]:
  "keeps (at_seq n) (require_cancel_all_adapter de)" "keeps (at_seq n) (require_single_cancel_venue de)"
  unfolding require_cancel_all_adapter_def require_single_cancel_venue_def by (intro keeps_intros)+

lemma seq_triggers [keeps_intros]: "keeps (at_seq n) (apply_safety_triggers de fills)"
  unfolding apply_safety_triggers_def by (intro keeps_intros)

lemma seq_startup [keeps_intros]: "keeps (at_seq n) (startup_open_order_sweep de enforce)"
  unfolding startup_open_order_sweep_def read_startup_open_orders_def
  by (intro keeps_intros) (simp add: at_seq_def)

lemma seq_shutdown [keeps_intros]: "keeps (at_seq n) (apply_shutdown_decision de)"
  unfolding apply_shutdown_decision_def by (intro keeps_intros)

lemma seq_now_ms [keeps_intros]: "keeps (at_seq n) (now_ms de)"
  unfolding now_ms_def by (intro keeps_intros)

lemma seq_submit_or_sign [keeps_intros]: "keeps (at_seq n) (submit_or_sign de tm)"
  unfolding submit_or_sign_def by (intro keeps_intros)

section \<open>Numbered events\<close>

text \<open>Events numbered from \<open>n\<close> up to the counter.\<close>

definition numbered_to :: "int \<Rightarrow> lifecycle_event list \<Rightarrow> 'w runner \<Rightarrow> bool" where
  "numbered_to n evs s \<longleftrightarrow> n \<le> ru_next_seq s \<and> map lifecycle_seq evs = [n..ru_next_seq s - 1]"

lemma numbered_none: "at_seq n s \<Longrightarrow> numbered_to n [] s"
  by (simp add: numbered_to_def at_seq_def)

lemma numbered_to_append:
  assumes "n \<le> k" and "map lifecycle_seq evs = [n..k - 1]" and "numbered_to k evs' s"
  shows "numbered_to n (evs @ evs') s"
  using assms upto_split1 [of n k "ru_next_seq s - 1"] by (cases "k = ru_next_seq s") (auto simp: numbered_to_def)

lemma triple_seq:
  assumes "keeps (at_seq n) m" and "\<And>x. triple (at_seq n) (f x) Q (\<lambda>_ _. True)"
  shows "triple (at_seq n) (ebind m f) Q (\<lambda>_ _. True)"
  by (rule triple_first [OF assms]) simp

lemma triple_next:
  assumes "triple (at_seq (n + 1)) (f n) Q E"
  shows "triple (at_seq n) (ebind seq_next f) Q E"
  using assms by (auto simp: triple_def seq_next_def at_seq_def ebind_apply)

lemma record_lifecycle_numbered:
  assumes "ee_sequence_no intent = n"
  shows "triple (at_seq (n + 1)) (record_lifecycle de ts now tm intent pre res) (\<lambda>(_, evs). numbered_to n evs) (\<lambda>_ _. True)"
  unfolding record_lifecycle_def Let_def
  by (auto simp: triple_simps numbered_to_def at_seq_def upto_rec1 assms split: prod.split
    intro!: triple_next triple_seq [OF seq_reconcile])

lemma run_lifecycle_numbered:
  "triple (at_seq n) (run_lifecycle de ts now tm) (\<lambda>(_, evs). numbered_to n evs) (\<lambda>_ _. True)"
  unfolding run_lifecycle_def Let_def
proof (rule triple_next)
  have "triple (at_seq (n + 1)) (ebind (submit_or_sign de tm) (\<lambda>(pre, res). record_lifecycle de ts (now * 1000) tm i pre res))
      (\<lambda>(_, evs). numbered_to n evs) (\<lambda>_ _. True)" if "ee_sequence_no i = n" for i
    by (rule triple_seq [OF seq_submit_or_sign]) (auto intro!: record_lifecycle_numbered that split: prod.split)
  then show "triple (at_seq (n + 1)) (ebind (elift (mk_order_submit_intent
        \<lparr>ee_sequence_no = n, ee_source_ts = Some ts, ee_recv_ts = now * 1000, ot_token_id = tm_token_id tm,
         ot_side = tm_side tm, ot_price = tm_price tm, ot_size = tm_size tm, ot_tif = tm_tif tm,
         ot_client_order_id = tm_client_order_id tm, ot_decision_id = tm_client_order_id tm, ot_decision_ts = now * 1000\<rparr>))
      (\<lambda>intent. ebind (submit_or_sign de tm) (\<lambda>(pre, res). record_lifecycle de ts (now * 1000) tm intent pre res)))
      (\<lambda>(_, evs). numbered_to n evs) (\<lambda>_ _. True)"
    by (auto simp: mk_order_submit_intent_def reject_price_out_of_unit_interval_def triple_simps)
qed

lemma cancel_replace_numbered:
  "triple (at_seq n) (emit_cancel_replace_lifecycle de quote now r i) (\<lambda>(_, evs). numbered_to n evs) (\<lambda>_ _. True)"
proof -
  have old: "keeps (at_seq n) (old_order_terminal_withdrawn de i)" for n
    unfolding old_order_terminal_withdrawn_def by (intro keeps_intros)
  have rest: "triple (at_seq (n + 1)) (ebind (emit_resting_lifecycle de quote now r) (\<lambda>(d, evs). ereturn (d, c # evs)))
      (\<lambda>(_, evs). numbered_to n evs) (\<lambda>_ _. True)" if "lifecycle_seq c = n" for c
    unfolding emit_resting_lifecycle_def
    by (rule triple_ebind [OF run_lifecycle_numbered])
      (use that in \<open>auto simp: triple_simps numbered_to_def upto_rec1 split: prod.split\<close>)
  show ?thesis
    unfolding emit_cancel_replace_lifecycle_def Let_def
    by (rule triple_seq, intro keeps_intros old)
      (auto intro!: triple_next rest simp: triple_simps numbered_to_def at_seq_def split: prod.split)
qed

lemma abstains_numbered: "triple (at_seq n) (abstains t reason) (\<lambda>(_, evs). numbered_to n evs) E"
  by (simp add: abstains_def triple_simps numbered_none)

lemma dispatch_numbered:
  "triple (at_seq n) (dispatch_take de g t quote now) (\<lambda>(_, evs). numbered_to n evs) (\<lambda>_ _. True)"
  "triple (at_seq n) (dispatch_resting de g t quote now) (\<lambda>(_, evs). numbered_to n evs) (\<lambda>_ _. True)"
  unfolding dispatch_take_def dispatch_resting_def emit_order_lifecycle_def emit_resting_lifecycle_def
  by (auto simp: triple_simps intro!: abstains_numbered triple_elift run_lifecycle_numbered cancel_replace_numbered split: option.split prod.split)

lemma decide_numbered:
  "triple (at_seq n) (decide_and_submit de g oc t) (\<lambda>(_, evs). numbered_to n evs) (\<lambda>_ _. True)"
  unfolding decide_and_submit_def
  by (intro triple_splits triple_seq abstains_numbered dispatch_numbered keeps_intros) (auto simp: triple_simps)

lemma token_loop_numbered:
  "triple (at_seq n) (token_loop de g ps pd k ts) (\<lambda>(_, evs). numbered_to n evs) (\<lambda>_ _. True)"
proof (induction ts arbitrary: n k)
  case Nil
  then show ?case by (simp add: triple_simps numbered_none)
next
  case (Cons t ts)
  have rest: "triple (numbered_to n evs) (ebind (token_loop de g ps pd k' ts) (\<lambda>(ds, evs'). ereturn (d # ds, evs @ evs')))
      (\<lambda>(_, evs). numbered_to n evs) (\<lambda>_ _. True)" for evs k' d
  proof (rule triple_state [where R = "\<lambda>s0. at_seq (ru_next_seq s0)"])
    fix s0 :: "'a runner" assume s0: "numbered_to n evs s0"
    show "at_seq (ru_next_seq s0) s0" by (simp add: at_seq_def)
    show "triple (at_seq (ru_next_seq s0)) (ebind (token_loop de g ps pd k' ts) (\<lambda>(ds, evs'). ereturn (d # ds, evs @ evs')))
      (\<lambda>(_, evs). numbered_to n evs) (\<lambda>_ _. True)"
      by (rule triple_ebind [OF Cons.IH])
        (use s0 in \<open>auto simp: triple_simps numbered_to_def [of n evs] split: prod.split intro: numbered_to_append\<close>)
  qed
  show ?case unfolding token_loop.simps
    by (rule triple_ebind [OF decide_numbered]) (auto intro!: rest split: prod.split)
qed

lemma run_started_numbered:
  "triple (at_seq n) (run_started de fills) (\<lambda>(_, _, ev) s. lifecycle_seq ev = n \<and> at_seq (n + 1) s) (\<lambda>_ _. True)"
  unfolding run_started_def Let_def
  by (rule triple_seq [OF seq_triggers], rule triple_seq [OF keeps_eread], clarsimp split: prod.split,
      rule triple_seq [OF keeps_elift], rule triple_next, intro triple_seq keeps_intros)
    (auto simp: triple_simps build_risk_snapshot_def)

lemma run_tokens_numbered:
  "triple (at_seq n) (run_tokens de ps pd meta fills) (\<lambda>res. numbered_to n (dr_events res)) (\<lambda>_ _. True)"
proof -
  have tail: "triple (numbered_to (n + 1) evs)
     (ebind seq_next (\<lambda>k. ebind (now_ms de) (\<lambda>now. ebind (apply_shutdown_decision de) (\<lambda>shutdown.
        ebind (eread ru_risk) (\<lambda>risk. ereturn (f (ev # evs @ [build_label_event de k now]) shutdown risk))))))
     (\<lambda>res. numbered_to n (dr_events res)) (\<lambda>_ _. True)"
    if "lifecycle_seq ev = n" "\<And>es shutdown risk. dr_events (f es shutdown risk) = es" for evs ev f
  proof (rule triple_state [where R = "\<lambda>s0. at_seq (ru_next_seq s0)"])
    fix s0 :: "'a runner" assume s0: "numbered_to (n + 1) evs s0"
    show "at_seq (ru_next_seq s0) s0" by (simp add: at_seq_def)
    have "numbered_to n ((ev # evs) @ [build_label_event de (ru_next_seq s0) now]) s" if "at_seq (ru_next_seq s0 + 1) s" for now and s :: "'a runner"
      using s0 that \<open>lifecycle_seq ev = n\<close>
      by (intro numbered_to_append [of n "ru_next_seq s0"]) (auto simp: numbered_to_def at_seq_def build_label_event_def upto_rec1)
    then show "triple (at_seq (ru_next_seq s0)) (ebind seq_next (\<lambda>k. ebind (now_ms de) (\<lambda>now. ebind (apply_shutdown_decision de) (\<lambda>shutdown.
        ebind (eread ru_risk) (\<lambda>risk. ereturn (f (ev # evs @ [build_label_event de k now]) shutdown risk))))))
     (\<lambda>res. numbered_to n (dr_events res)) (\<lambda>_ _. True)"
      by (intro triple_next triple_seq keeps_intros) (simp add: triple_simps that(2))
  qed
  have loop: "triple (\<lambda>s. lifecycle_seq ev = n \<and> at_seq (n + 1) s)
     (ebind (token_loop de g ps pd 0 (sm_universe (de_manifest de))) (\<lambda>(ds, evs).
        ebind seq_next (\<lambda>k. ebind (now_ms de) (\<lambda>now. ebind (apply_shutdown_decision de) (\<lambda>shutdown.
        ebind (eread ru_risk) (\<lambda>risk. ereturn (f ds (ev # evs @ [build_label_event de k now]) shutdown risk)))))))
     (\<lambda>res. numbered_to n (dr_events res)) (\<lambda>_ _. True)"
    if "\<And>ds es shutdown risk. dr_events (f ds es shutdown risk) = es" for g ev f
  proof (rule triple_pure)
    assume ev: "lifecycle_seq ev = n"
    note t = tail [of ev "f ds" for ds, OF ev that]
    show "triple (at_seq (n + 1))
     (ebind (token_loop de g ps pd 0 (sm_universe (de_manifest de))) (\<lambda>(ds, evs).
        ebind seq_next (\<lambda>k. ebind (now_ms de) (\<lambda>now. ebind (apply_shutdown_decision de) (\<lambda>shutdown.
        ebind (eread ru_risk) (\<lambda>risk. ereturn (f ds (ev # evs @ [build_label_event de k now]) shutdown risk)))))))
     (\<lambda>res. numbered_to n (dr_events res)) (\<lambda>_ _. True)"
      by (rule triple_ebind [OF token_loop_numbered]) (simp add: t split: prod.split)
  qed
  show ?thesis
    unfolding run_tokens_def Let_def
    by (rule triple_ebind [OF run_started_numbered])
      (auto split: prod.split intro!: loop [of "\<lambda>ds es shutdown risk.
        \<lparr>dr_mode = de_mode de, dr_decisions = ds, dr_session_meta = meta, dr_events = es, dr_admission = adm,
         dr_shutdown_decision = shutdown, dr_session_outcome = resolve_session_outcome de risk es\<rparr>" for adm])
qed

text \<open>
  C13: the events of a completed run are numbered 1, 2, 3, ... in the order they are returned, from the risk
  snapshot to the label, whatever was placed, refused or replaced on the way.
\<close>

theorem dust_events_are_gapless:
  assumes "run_dust_execution de identity session risk fills ps pd w = (Inr res, st, w')"
  shows "map lifecycle_seq (dr_events res) = [1..int (length (dr_events res))]"
proof -
  from assms obtain meta s0 s where run: "run_tokens de ps pd meta fills s0 = (Inr res, s)" "at_seq 1 s0"
    by (auto simp: run_dust_execution_def Let_def at_seq_def split: sum.splits prod.splits)
  have n: "numbered_to 1 (dr_events res) s" by (rule triple_Inr [OF run_tokens_numbered run(2,1)])
  then have "length (map lifecycle_seq (dr_events res)) = length [1..ru_next_seq s - 1]" by (simp add: numbered_to_def)
  then have "int (length (dr_events res)) = ru_next_seq s - 1" using n by (simp add: numbered_to_def)
  with n show ?thesis by (simp add: numbered_to_def)
qed

theorem dust_events_are_gapless_witness:
  "\<exists>res st w'. run_dust_execution demo_dust None None None [] 0 0 () = (Inr res, st, w')
     \<and> map lifecycle_seq (dr_events res) = [1, 2]"
proof -
  obtain res st w' where run: "run_dust_execution demo_dust None None None [] 0 0 () = (Inr res, st, w')"
    and two: "length (dr_events res) = 2"
    by (simp add: run_dust_execution_def run_tokens_def run_started_def apply_safety_triggers_def demo_dust_def demo_manifest_def
      demo_env_def build_session_meta_def float_of_int_def fl_fit_def
      require_cancel_all_adapter_def stop_and_sweep_def cancel_all_and_block_def sweep_begin_def sweep_finish_def
      build_triggered_def build_ack_def record_event_def next_sequence_no_def new_safety_session_def breaker_is_open_def
      compute_gates_def resolve_wire_size_def resolve_dust_size_def nonneg_finite_def effective_intent_def intent_block_reason_def
      seq_next_def now_ms_def startup_open_order_sweep_def read_startup_open_orders_def apply_shutdown_decision_def
      decide_and_submit_def abstains_def eattempt_apply on_world_apply ebind_apply eff_apply Let_def)
  have "[1..2::int] = [1, 2]" by (simp add: upto_rec1)
  with dust_events_are_gapless [OF run] run two show ?thesis by auto
qed

end
