(* ===== verification/Facade.thy ===== *)
theory Facade
  imports Dust_Events
begin

text \<open>
  The agent boundary of the dust lane (\<open>src/veridex/dust_execution/facade.py\<close>): an agent's typed request
  becomes at most one reserved, interlocked run of the dust runner, and its outcome is settled against the
  durable session state.

  The provider of the session state and the ops sink are injected and act on the world like the venue; the
  operator-interlock store is part of the facade's state, since the runner verifies the receipts the facade
  had it issue. \<open>now\<close> is in microseconds since the epoch.
\<close>

section \<open>Results\<close>

datatype admission = APPROVED | DENIED | REQUIRES_HUMAN_ADMISSION

datatype mm_execution_status = xs_SUBMITTED | xs_ABSTAINED | xs_NOT_ARMED | xs_DENIED

record mm_tool_result =
  tr_admission :: admission
  tr_reason_codes :: "string list"
  tr_execution_status :: mm_execution_status
  tr_execution_reason_codes :: "string list"
  tr_lifecycle_receipt_ref :: string
  tr_run_label :: string
  tr_calibration_label :: string
  tr_edge_label :: string
  tr_evidence_class :: evidence_class
  tr_policy_hash :: string

fun abstain_text :: "abstain_reason \<Rightarrow> string" where
  "abstain_text ab_stale_quote_age = ''stale_quote_age''"
| "abstain_text ab_stale_source = ''stale_source''"
| "abstain_text ab_event_suspended = ''event_suspended''"
| "abstain_text ab_no_quote = ''no_quote''"
| "abstain_text ab_missing_book_side = ''missing_book_side''"
| "abstain_text ab_negative_liquidity = ''negative_liquidity''"
| "abstain_text ab_self_cross = ''self_cross''"
| "abstain_text ab_safety_blocked = ''safety_blocked''"
| "abstain_text ab_mode_a_no_orders = ''mode_a_no_orders''"
| "abstain_text ab_manifest_hash_mismatch = ''manifest_hash_mismatch''"
| "abstain_text ab_admission_denied = ''admission_denied''"
| "abstain_text ab_mode_b_not_armed = ''mode_b_not_armed''"
| "abstain_text ab_mode_b_legacy_signer = ''mode_b_legacy_signer''"
| "abstain_text ab_mode_b_write_port_missing = ''mode_b_write_port_missing''"
| "abstain_text ab_operator_interlock_unproven = ''operator_interlock_unproven''"
| "abstain_text ab_intent_no_quote = ''intent_no_quote''"
| "abstain_text ab_intent_cancel_all = ''intent_cancel_all''"
| "abstain_text ab_intent_not_permitted = ''intent_not_permitted''"
| "abstain_text ab_intent_params_invalid = ''intent_params_invalid''"
| "abstain_text ab_intent_token_mismatch = ''intent_token_mismatch''"
| "abstain_text ab_cancel_replace_old_order_live = ''cancel_replace_old_order_live''"
| "abstain_text ab_order_cap_run = ''order_cap_run''"
| "abstain_text ab_order_cap_session = ''order_cap_session''"
| "abstain_text ab_order_cap_day = ''order_cap_day''"
| "abstain_text ab_loss_cap_session = ''loss_cap_session''"
| "abstain_text ab_loss_cap_day = ''loss_cap_day''"

fun admission_reason_text :: "admission_reason \<Rightarrow> string" where
  "admission_reason_text missing_manifest = ''missing_manifest''"
| "admission_reason_text kill_switch_engaged = ''kill_switch_engaged''"
| "admission_reason_text breaker_open = ''breaker_open''"
| "admission_reason_text session_loss_cap = ''session_loss_cap''"
| "admission_reason_text daily_loss_cap = ''daily_loss_cap''"

fun admission_text :: "admission \<Rightarrow> string" where
  "admission_text APPROVED = ''APPROVED''"
| "admission_text DENIED = ''DENIED''"
| "admission_text REQUIRES_HUMAN_ADMISSION = ''REQUIRES_HUMAN''"

fun disposition_text :: "mm_execution_status \<Rightarrow> string" where
  "disposition_text xs_SUBMITTED = ''SUBMITTED''"
| "disposition_text xs_ABSTAINED = ''ABSTAINED''"
| "disposition_text xs_NOT_ARMED = ''NOT_ARMED''"
| "disposition_text xs_DENIED = ''DENIED''"

fun session_status_text :: "session_status \<Rightarrow> string" where
  "session_status_text SESSION_SUCCESS = ''SUCCESS''"
| "session_status_text SESSION_FAILED = ''FAILED''"

definition lifecycle_receipt_ref :: "codec \<Rightarrow> dust_result \<Rightarrow> string" where
  "lifecycle_receipt_ref cd result =
     (let meta = dr_session_meta result;
          canonical = cd_dumps cd (VDict
            [(''content_hash'', opt_str (xm_content_hash meta)), (''manifest_hash'', VStr (xm_manifest_hash meta)),
             (''mode'', VStr (mode_text (dr_mode result))), (''policy_hash'', VStr (xm_policy_hash meta)),
             (''sequence_nos'', VList (map (\<lambda>e. VInt (lifecycle_seq e)) (dr_events result))),
             (''session_id'', VStr (xm_session_id meta))])
      in ''dust-lifecycle:'' @ xm_session_id meta @ '':'' @ take 16 (cd_sha256 cd canonical))"

definition terminal_label :: "dust_result \<Rightarrow> dust_run_label option" where
  "terminal_label result =
     (case List.find (\<lambda>e. case e of LabelEvent _ \<Rightarrow> True | _ \<Rightarrow> False) (rev (dr_events result)) of
        Some (LabelEvent l) \<Rightarrow> Some l
      | _ \<Rightarrow> None)"

text \<open>\<open>dict.fromkeys\<close> keeps the first occurrence of each key.\<close>

definition first_seen :: "'a list \<Rightarrow> 'a list" where
  "first_seen xs = rev (remdups (rev xs))"

definition not_armed_abstain_reasons :: "abstain_reason list" where
  "not_armed_abstain_reasons = [ab_mode_b_not_armed, ab_operator_interlock_unproven]"

definition execution_disposition :: "dust_result \<Rightarrow> admission \<Rightarrow> mm_execution_status \<times> abstain_reason list" where
  "execution_disposition result adm =
     (let reason_codes = first_seen (List.map_filter sd_abstain_reason (dr_decisions result)) in
      if adm = DENIED then (xs_DENIED, reason_codes)
      else if 0 < submitted_count result then (xs_SUBMITTED, reason_codes)
      else if list_ex (\<lambda>r. r \<in> set not_armed_abstain_reasons) reason_codes then (xs_NOT_ARMED, reason_codes)
      else (xs_ABSTAINED, reason_codes))"

definition to_tool_result :: "codec \<Rightarrow> dust_result \<Rightarrow> mm_tool_result" where
  "to_tool_result cd result =
     (let adm = (if ad_verdict (dr_admission result) = admission_verdict.ALLOW then APPROVED else DENIED);
          (status, codes) = execution_disposition result adm;
          label = terminal_label result
      in \<lparr>tr_admission = adm, tr_reason_codes = map admission_reason_text (ad_reason_codes (dr_admission result)),
          tr_execution_status = status, tr_execution_reason_codes = map abstain_text codes,
          tr_lifecycle_receipt_ref = lifecycle_receipt_ref cd result,
          tr_run_label = (case label of Some l \<Rightarrow> dl_run_label l | None \<Rightarrow> ''DUST_LIVE''),
          tr_calibration_label = (case label of Some l \<Rightarrow> dl_calibration_label l | None \<Rightarrow> ''UNCALIBRATED''),
          tr_edge_label = (case label of Some l \<Rightarrow> dl_edge_label l | None \<Rightarrow> ''NOT_PROVEN_EDGE''),
          tr_evidence_class = (case label of Some l \<Rightarrow> dl_evidence_class l | None \<Rightarrow> EXPERIMENTAL_DUST),
          tr_policy_hash = ad_policy_hash (dr_admission result)\<rparr>)"

section \<open>The identity and the outcome of an attempt\<close>

definition opt_tif :: "dust_tif option \<Rightarrow> pyval" where
  "opt_tif t = (case t of None \<Rightarrow> VNone | Some x \<Rightarrow> VStr (tif_text x))"

definition request_fingerprint :: "mm_request \<Rightarrow> pyval" where
  "request_fingerprint rq =
     (let p = rq_intent_params rq in VDict
        [(''intent_kind'', VStr (intent_text (rq_intent_kind rq))),
         (''intent_params'', VDict
           [(''client_order_id'', opt_str (ip_client_order_id p)), (''price'', opt_float (ip_price p)),
            (''replaces_client_order_id'', opt_str (ip_replaces_client_order_id p)), (''side'', opt_str (ip_side p)),
            (''size'', opt_float (ip_size p)), (''tif'', opt_tif (ip_tif p)), (''token_id'', opt_str (ip_token_id p))]),
         (''manifest_hash'', VStr (rq_manifest_hash rq)), (''mode'', VStr (mode_text (rq_mode rq))),
         (''policy_hash'', VStr (rq_policy_hash rq)), (''session_id'', VStr (rq_session_id rq)),
         (''strategy_config_hash'', VStr (rq_strategy_config_hash rq))])"

definition reservation_attempt_id :: "codec \<Rightarrow> mm_request \<Rightarrow> string" where
  "reservation_attempt_id cd rq =
     ''dust-attempt:'' @ rq_session_id rq @ '':'' @ take 16 (cd_sha256 cd (cd_dumps cd (request_fingerprint rq)))"

text \<open>The venue order key of each submitted decision; \<open>None\<close> fails closed.\<close>

fun submit_keys :: "string set \<Rightarrow> (string, string) dict \<Rightarrow> lifecycle_event list \<Rightarrow> (string, string) dict option" where
  "submit_keys ids d [] = Some d"
| "submit_keys ids d (AttemptEvent a # events) =
     (if oa_decision_id a \<in> ids then
        (let key = ps_venue_order_key (oa_presubmit_record a) in
         if map_of d (oa_decision_id a) \<noteq> None \<or> key = [] then None
         else submit_keys ids (d @ [(oa_decision_id a, key)]) events)
      else submit_keys ids d events)"
| "submit_keys ids d (_ # events) = submit_keys ids d events"

definition reconciliation_rows :: "lifecycle_event list \<Rightarrow> string \<Rightarrow> string \<Rightarrow> uncertain_state list" where
  "reconciliation_rows events decision_id key =
     List.map_filter (\<lambda>e. case e of
         ReconciliationEvent r \<Rightarrow>
           if rr_decision_id r = decision_id \<and> rr_venue_order_key r = key then Some (rr_reconciled_state r) else None
       | _ \<Rightarrow> None) events"

fun matched_states :: "lifecycle_event list \<Rightarrow> (string, string) dict \<Rightarrow> uncertain_state list option" where
  "matched_states events [] = Some []"
| "matched_states events ((decision_id, key) # d) =
     (case reconciliation_rows events decision_id key of
        [state] \<Rightarrow> map_option (\<lambda>states. state # states) (matched_states events d)
      | _ \<Rightarrow> None)"

definition reconciliation_outcome :: "dust_result \<Rightarrow> recon_state \<times> string option" where
  "reconciliation_outcome result =
     (let events = dr_events result; ids = submitted_decision_ids events in
      if ids = {} then (DEFINITIVELY_ABSENT, None)
      else case submit_keys ids [] events of
        None \<Rightarrow> (AMBIGUOUS, None)
      | Some keys \<Rightarrow>
          if set (map fst keys) \<noteq> ids then (AMBIGUOUS, None)
          else case matched_states events keys of
            None \<Rightarrow> (AMBIGUOUS, None)
          | Some states \<Rightarrow>
              (let join_key = (case keys of [(_, key)] \<Rightarrow> Some key | _ \<Rightarrow> None) in
               if Ambiguous \<in> set states then (AMBIGUOUS, join_key)
               else if list_all (\<lambda>state. state = Definitively_Absent) states then (DEFINITIVELY_ABSENT, join_key)
               else (RESOLVED, join_key)))"

section \<open>Injected parts and state\<close>

datatype runtime_event_type =
    rt_RUN_STARTED | rt_STATUS_CHANGED | rt_ACTION_EMITTED | rt_SCHEMA_VALIDATION | rt_RUN_COMPLETED | rt_RUN_FAILED
  | rt_MODEL_CALL_STARTED | rt_MODEL_CALL_COMPLETED | rt_TOKEN_USAGE | rt_LATENCY | rt_TOOL_CALL | rt_RETRY | rt_ERROR
  | rt_TRACE_LINK

text \<open>The wall-clock stamp of an event is left out.\<close>

record ops_event =
  rx_type :: runtime_event_type
  rx_agent_id :: string
  rx_run_id :: "string option"
  rx_session_id :: "string option"
  rx_payload :: "(string \<times> pyval) list"

record 'w session_provider =
  px_load :: "string \<Rightarrow> int \<Rightarrow> ('w, durable_session_state) eff"
  px_reserve_or_freeze :: "order_caps \<Rightarrow> string \<Rightarrow> int \<Rightarrow> string \<Rightarrow> ('w, scoped_outcome) eff"
  px_settle :: "string \<Rightarrow> recon_state \<Rightarrow> string option \<Rightarrow> ('w, unit) eff"

record 'w facade =
  fa_operator_interlock :: "operator_interlock option"
  fa_provider :: "'w session_provider option"
  fa_event_sink :: "(ops_event \<Rightarrow> ('w, unit) eff) option"
  fa_agent_id :: string
  fa_run_id :: "string option"

record 'w facade_state =
  fs_world :: 'w
  fs_interlock_store :: "interlock_store option"

definition in_facade :: "('w, 'a) eff \<Rightarrow> ('w facade_state, 'a) eff" where
  "in_facade m = (\<lambda>s. case m (fs_world s) of (r, w) \<Rightarrow> (r, s\<lparr>fs_world := w\<rparr>))"

definition emit_ops ::
  "'w facade \<Rightarrow> mm_request \<Rightarrow> runtime_event_type \<Rightarrow> (string \<times> pyval) list \<Rightarrow> ('w facade_state, unit) eff" where
  "emit_ops fa rq event_type payload =
     (case fa_event_sink fa of
        None \<Rightarrow> ereturn ()
      | Some sink \<Rightarrow> in_facade (sink \<lparr>rx_type = event_type, rx_agent_id = fa_agent_id fa, rx_run_id = fa_run_id fa,
          rx_session_id = Some (rq_session_id rq), rx_payload = payload\<rparr>))"

section \<open>Terminal results\<close>

text \<open>Every path ends with the same two events and its result.\<close>

definition conclude ::
  "'w facade \<Rightarrow> mm_request \<Rightarrow> string \<Rightarrow> nat \<Rightarrow> mm_tool_result \<Rightarrow> ('w facade_state, mm_tool_result) eff" where
  "conclude fa rq session_status n tr =
     ebind (emit_ops fa rq rt_ACTION_EMITTED
       [(''admission'', VStr (admission_text (tr_admission tr))),
        (''execution_status'', VStr (disposition_text (tr_execution_status tr))),
        (''intent_kind'', VStr (intent_text (rq_intent_kind rq)))]) (\<lambda>_.
     ebind (emit_ops fa rq rt_RUN_COMPLETED
       [(''status'', VStr ''completed''), (''admission'', VStr (admission_text (tr_admission tr))),
        (''reason_codes'', VList (map VStr (tr_reason_codes tr))),
        (''execution_status'', VStr (disposition_text (tr_execution_status tr))),
        (''execution_reason_codes'', VList (map VStr (tr_execution_reason_codes tr))),
        (''lifecycle_receipt_ref'', VStr (tr_lifecycle_receipt_ref tr)),
        (''session_status'', VStr session_status), (''submitted_count'', VInt (int n))]) (\<lambda>_.
     ereturn tr))"

definition pinned_result ::
  "'w dust_env \<Rightarrow> mm_request \<Rightarrow> admission \<Rightarrow> string list \<Rightarrow> mm_execution_status \<Rightarrow> string list \<Rightarrow> string \<Rightarrow> mm_tool_result" where
  "pinned_result de rq adm codes status status_codes suffix =
     \<lparr>tr_admission = adm, tr_reason_codes = codes, tr_execution_status = status, tr_execution_reason_codes = status_codes,
      tr_lifecycle_receipt_ref = ''dust-lifecycle:'' @ rq_session_id rq @ '':'' @ suffix,
      tr_run_label = ''DUST_LIVE'', tr_calibration_label = ''UNCALIBRATED'', tr_edge_label = ''NOT_PROVEN_EDGE'',
      tr_evidence_class = EXPERIMENTAL_DUST, tr_policy_hash = de_policy_hash de (de_envelope de)\<rparr>"

definition not_armed_result :: "'w dust_env \<Rightarrow> mm_request \<Rightarrow> string \<Rightarrow> string \<Rightarrow> mm_tool_result" where
  "not_armed_result de rq code suffix = pinned_result de rq DENIED [code] xs_NOT_ARMED [''mode_b_not_armed''] suffix"

type_synonym 'w proposed = "('w facade_state, mm_tool_result) eff"

definition fail_closed_no_durable_state :: "'w facade \<Rightarrow> 'w dust_env \<Rightarrow> mm_request \<Rightarrow> 'w proposed" where
  "fail_closed_no_durable_state fa de rq = conclude fa rq ''FAILED'' 0
     (not_armed_result de rq ''durable_session_state_unavailable'' ''no-durable-session-state'')"

definition fail_closed_session_identity_mismatch :: "'w facade \<Rightarrow> 'w dust_env \<Rightarrow> mm_request \<Rightarrow> 'w proposed" where
  "fail_closed_session_identity_mismatch fa de rq = conclude fa rq ''FAILED'' 0
     (not_armed_result de rq ''durable_session_identity_mismatch'' ''session-identity-mismatch'')"

definition fail_closed_envelope_loss_cap :: "'w facade \<Rightarrow> 'w dust_env \<Rightarrow> mm_request \<Rightarrow> 'w proposed" where
  "fail_closed_envelope_loss_cap fa de rq = conclude fa rq ''FAILED'' 0
     (not_armed_result de rq ''mode_b_loss_cap_unset'' ''mode-b-loss-cap-unset'')"

definition fail_closed_reservation_failed :: "'w facade \<Rightarrow> 'w dust_env \<Rightarrow> mm_request \<Rightarrow> 'w proposed" where
  "fail_closed_reservation_failed fa de rq = conclude fa rq ''FAILED'' 0
     (not_armed_result de rq ''durable_reservation_failed'' ''reservation-failed'')"

definition freeze_pending_reconciliation :: "'w facade \<Rightarrow> 'w dust_env \<Rightarrow> mm_request \<Rightarrow> 'w proposed" where
  "freeze_pending_reconciliation fa de rq = conclude fa rq ''FAILED'' 0
     (not_armed_result de rq ''attempt_pending_reconciliation'' ''attempt-pending-reconciliation'')"

definition deny_order_cap :: "'w facade \<Rightarrow> 'w dust_env \<Rightarrow> mm_request \<Rightarrow> string \<Rightarrow> 'w proposed" where
  "deny_order_cap fa de rq reason = conclude fa rq ''FAILED'' 0 (pinned_result de rq DENIED [reason] xs_DENIED [reason] reason)"

definition deny_loss_cap :: "'w facade \<Rightarrow> 'w dust_env \<Rightarrow> mm_request \<Rightarrow> string \<Rightarrow> 'w proposed" where
  "deny_loss_cap fa de rq reason = conclude fa rq ''FAILED'' 0 (pinned_result de rq DENIED [reason] xs_DENIED [reason] reason)"

definition idempotent_committed_result :: "'w facade \<Rightarrow> 'w dust_env \<Rightarrow> mm_request \<Rightarrow> 'w proposed" where
  "idempotent_committed_result fa de rq = conclude fa rq ''COMPLETED'' 1
     (pinned_result de rq APPROVED [''idempotent_committed_replay''] xs_SUBMITTED [] ''idempotent-committed-replay'')"

section \<open>The proposal\<close>

definition utc_now :: "int \<Rightarrow> int result" where
  "utc_now t = (if year_ok t then Inr (t * 1000000) else Inl ValueError)"

definition load_durable_state ::
  "'w facade \<Rightarrow> mm_request \<Rightarrow> int \<Rightarrow> ('w facade_state, durable_session_state option) eff" where
  "load_durable_state fa rq now =
     (case fa_provider fa of
        None \<Rightarrow> ereturn None
      | Some p \<Rightarrow> ebind (in_facade (px_load p (rq_session_id rq) now)) (\<lambda>d. ereturn (Some d)))"

definition identity_mismatch :: "mm_request \<Rightarrow> durable_session_state option \<Rightarrow> bool" where
  "identity_mismatch rq durable =
     (case durable of
        None \<Rightarrow> False
      | Some d \<Rightarrow> ds_session_identity d = [] \<or> ds_session_identity d \<noteq> rq_session_id rq
          \<or> ra_session_id (ds_risk d) \<noteq> rq_session_id rq)"

definition facade_caps :: "'w dust_env \<Rightarrow> order_caps" where
  "facade_caps de =
     \<lparr>oc_max_orders_per_session = pe_max_orders_per_session (de_envelope de),
      oc_max_orders_per_day = pe_max_orders_per_day (de_envelope de),
      oc_max_session_loss = sm_max_session_loss (de_manifest de), oc_max_daily_loss = sm_max_daily_loss (de_manifest de),
      oc_envelope_max_session_loss = pe_max_session_loss (de_envelope de),
      oc_envelope_max_daily_loss = pe_max_daily_loss (de_envelope de)\<rparr>"

text \<open>The outcome of the reservation, or \<open>None\<close> where nothing is reserved.\<close>

definition reserve_attempt ::
  "'w facade \<Rightarrow> 'w dust_env \<Rightarrow> mm_request \<Rightarrow> string \<Rightarrow> int \<Rightarrow> durable_session_state option
   \<Rightarrow> ('w facade_state, scoped_outcome result option) eff" where
  "reserve_attempt fa de rq session_identity now durable =
     (case (fa_provider fa, durable) of
        (Some p, Some d) \<Rightarrow>
          ebind (eattempt (in_facade (px_reserve_or_freeze p (facade_caps de) session_identity now
            (reservation_attempt_id (de_codec de) rq)))) (\<lambda>r. ereturn (Some r))
      | _ \<Rightarrow> ereturn None)"

definition effective_arming ::
  "'w facade \<Rightarrow> 'w dust_env \<Rightarrow> mm_request \<Rightarrow> string \<Rightarrow> ('w facade_state, 'w mode_b_arming option) eff" where
  "effective_arming fa de rq session_identity =
     (case de_arming de of
        None \<Rightarrow> ereturn None
      | Some arming \<Rightarrow>
          if rq_mode rq \<noteq> live_guarded then ereturn (Some arming)
          else
            ebind (in_facade (de_now de)) (\<lambda>t.
            (let gate = evaluate_operator_interlock (fa_operator_interlock fa) (t * 1000);
                 ref = (case og_events gate of [] \<Rightarrow> None | e # _ \<Rightarrow> ie_operator_authorization_ref e) in
             ebind (eread fs_interlock_store) (\<lambda>store.
             case store of
               None \<Rightarrow> ereturn None
             | Some rows \<Rightarrow>
                 if og_armed gate \<and> interlock_events_are_canonical (og_events gate) then
                   ebind (elift (interlock_record (de_codec de) session_identity (og_events gate) ref
                     (arming_attempt_ref arming) rows)) (\<lambda>(receipt, rows').
                   ebind (eupdate (\<lambda>s. s\<lparr>fs_interlock_store := Some rows'\<rparr>)) (\<lambda>_.
                   ereturn (Some (arming\<lparr>am_operator_interlock := Some
                     \<lparr>op_satisfied = True, op_recording_receipt = receipt, op_events = og_events gate,
                      op_operator_authorization_ref = ref\<rparr>\<rparr>))))
                 else ereturn None))))"

definition default_tick_size :: pyfloat where
  "default_tick_size = fl_round (1 / 100)"

definition facade_run_env ::
  "'w dust_env \<Rightarrow> mm_request \<Rightarrow> 'w mode_b_arming option \<Rightarrow> interlock_store option \<Rightarrow> 'w dust_env" where
  "facade_run_env de rq arming store = de\<lparr>de_mode := rq_mode rq, de_request := Some rq, de_arming := arming,
     de_interlock_store := store, de_breaker := None, de_own_legs := [], de_tick_size := default_tick_size,
     de_shutdown_policy := shut_leave_open\<rparr>"

definition run_proposal ::
  "'w dust_env \<Rightarrow> mm_request \<Rightarrow> 'w mode_b_arming option \<Rightarrow> string \<Rightarrow> durable_session_state option
   \<Rightarrow> ('w facade_state, dust_result) eff" where
  "run_proposal de rq arming session_identity durable = (\<lambda>s.
     (case run_dust_execution (facade_run_env de rq arming (fs_interlock_store s)) (Some session_identity) None
        (map_option ds_risk durable) []
        (case durable of Some d \<Rightarrow> ds_prior_session_order_count d | None \<Rightarrow> 0)
        (case durable of Some d \<Rightarrow> ds_prior_day_order_count d | None \<Rightarrow> 0) (fs_world s) of
        (r, _, w) \<Rightarrow> (r, s\<lparr>fs_world := w\<rparr>)))"

definition settle_attempt ::
  "'w facade \<Rightarrow> 'w dust_env \<Rightarrow> mm_request \<Rightarrow> durable_session_state option \<Rightarrow> dust_result \<Rightarrow> ('w facade_state, unit) eff" where
  "settle_attempt fa de rq durable result =
     (case (fa_provider fa, durable) of
        (Some p, Some d) \<Rightarrow>
          (let (state, key) = reconciliation_outcome result in
           ebind (eattempt (in_facade (px_settle p (reservation_attempt_id (de_codec de) rq) state key))) (\<lambda>_. ereturn ()))
      | _ \<Rightarrow> ereturn ())"

definition execute_proposal ::
  "'w facade \<Rightarrow> 'w dust_env \<Rightarrow> mm_request \<Rightarrow> string \<Rightarrow> durable_session_state option \<Rightarrow> 'w proposed" where
  "execute_proposal fa de rq session_identity durable =
     ebind (effective_arming fa de rq session_identity) (\<lambda>arming.
     ebind (run_proposal de rq arming session_identity durable) (\<lambda>result.
     ebind (settle_attempt fa de rq durable result) (\<lambda>_.
     conclude fa rq (session_status_text (so_status (dr_session_outcome result))) (submitted_count result)
       (to_tool_result (de_codec de) result))))"

fun after_reservation ::
  "'w facade \<Rightarrow> 'w dust_env \<Rightarrow> mm_request \<Rightarrow> 'w proposed \<Rightarrow> scoped_outcome result option \<Rightarrow> 'w proposed" where
  "after_reservation fa de rq execute None = execute"
| "after_reservation fa de rq execute (Some (Inl e)) = fail_closed_reservation_failed fa de rq"
| "after_reservation fa de rq execute (Some (Inr SCOPE_FROZEN)) = freeze_pending_reconciliation fa de rq"
| "after_reservation fa de rq execute (Some (Inr PENDING_RECONCILE)) = freeze_pending_reconciliation fa de rq"
| "after_reservation fa de rq execute (Some (Inr CAP_EXCEEDED_SESSION)) = deny_order_cap fa de rq ''order_cap_session''"
| "after_reservation fa de rq execute (Some (Inr CAP_EXCEEDED_DAY)) = deny_order_cap fa de rq ''order_cap_day''"
| "after_reservation fa de rq execute (Some (Inr LOSS_CAP_EXCEEDED_SESSION)) = deny_loss_cap fa de rq ''session_loss_over_max''"
| "after_reservation fa de rq execute (Some (Inr LOSS_CAP_EXCEEDED_DAY)) = deny_loss_cap fa de rq ''daily_loss_over_max''"
| "after_reservation fa de rq execute (Some (Inr COMMITTED)) = idempotent_committed_result fa de rq"
| "after_reservation fa de rq execute (Some (Inr RESERVED)) = execute"

definition propose_mm_execution :: "'w facade \<Rightarrow> 'w dust_env \<Rightarrow> mm_request \<Rightarrow> 'w proposed" where
  "propose_mm_execution fa de rq =
     ebind (emit_ops fa rq rt_RUN_STARTED
       [(''intent_kind'', VStr (intent_text (rq_intent_kind rq))), (''mode'', VStr (mode_text (rq_mode rq)))]) (\<lambda>_.
     ebind (emit_ops fa rq rt_STATUS_CHANGED [(''status'', VStr ''running'')]) (\<lambda>_.
     ebind (in_facade (de_now de)) (\<lambda>t.
     ebind (elift (utc_now t)) (\<lambda>now.
     ebind (load_durable_state fa rq now) (\<lambda>durable.
     if rq_mode rq = live_guarded \<and> durable = None then fail_closed_no_durable_state fa de rq
     else if identity_mismatch rq durable then fail_closed_session_identity_mismatch fa de rq
     else
       (let session_identity = (case durable of
              Some d \<Rightarrow> ds_session_identity d
            | None \<Rightarrow> provisional_session_id (de_manifest de) (rq_mode rq)) in
        if rq_mode rq = live_guarded \<and> authorize_mode_b (de_envelope de) = Inl FailClosed
        then fail_closed_envelope_loss_cap fa de rq
        else
          ebind (reserve_attempt fa de rq session_identity now durable)
            (after_reservation fa de rq (execute_proposal fa de rq session_identity durable))))))))"

end
