(* ===== verification/Dust_Acks.thy ===== *)
theory Dust_Acks
  imports Dust_Events
begin

text \<open>
  A completed dust run accounts for its orders: an order that reached the write port has an acknowledgement
  among the events, and no reconciliation claims an order was never placed.
\<close>

section \<open>Acknowledged decisions\<close>

definition reconciled_honestly :: "lifecycle_event list \<Rightarrow> bool" where
  "reconciled_honestly evs \<longleftrightarrow> (\<forall>r. ReconciliationEvent r \<in> set evs \<longrightarrow> rr_reconciled_state r \<noteq> Definitively_Absent)"

lemma submitted_ids_append [simp]: "submitted_decision_ids (xs @ ys) = submitted_decision_ids xs \<union> submitted_decision_ids ys"
  by (simp add: submitted_decision_ids_def)

lemma submitted_ids_cancel [simp]: "submitted_decision_ids (CancelEvent c # es) = submitted_decision_ids es"
  by (simp add: submitted_decision_ids_def)

lemma reconciled_append [simp]: "reconciled_honestly (xs @ ys) \<longleftrightarrow> reconciled_honestly xs \<and> reconciled_honestly ys"
  by (auto simp: reconciled_honestly_def)

text \<open>Facts about results that hold from every state.\<close>

lemma triple_any:
  assumes "\<And>x. triple (\<lambda>_. True) (f x) Q (\<lambda>_ _. True)"
  shows "triple (\<lambda>_. True) (ebind m f) Q (\<lambda>_ _. True)"
  by (rule triple_ebind [of _ m "\<lambda>_ _. True"]) (use assms in \<open>auto simp: triple_def split: prod.split sum.split\<close>)

lemma triple_any_elift:
  assumes "\<And>x. r = Inr x \<Longrightarrow> triple (\<lambda>_. True) (f x) Q (\<lambda>_ _. True)"
  shows "triple (\<lambda>_. True) (ebind (elift r) f) Q (\<lambda>_ _. True)"
  using assms by (cases r) (auto simp: triple_simps)

lemma reconcile_never_absent:
  "triple (\<lambda>_. True) (reconcile_after_submit de r) (\<lambda>(state, _) _. state \<noteq> Definitively_Absent) (\<lambda>_ _. True)"
proof -
  have "uv_state v \<noteq> Definitively_Absent" if "assess_uncertain_submit parse shown r reads = Inr v" for parse shown reads v
    using that by (auto simp: assess_uncertain_submit_def Let_def rbind_Inr_iff split: if_splits)
  then show ?thesis
    unfolding reconcile_after_submit_def Let_def
    by (intro triple_splits triple_any_elift triple_any) (auto simp: triple_simps)
qed

text \<open>What the events of one decision show about it.\<close>

definition accounted :: "execution_mode \<Rightarrow> submit_decision \<times> lifecycle_event list \<Rightarrow> bool" where
  "accounted mode r \<longleftrightarrow> (mode = live_guarded \<and> decision_placed (fst r) \<longrightarrow> submitted_decision_ids (snd r) \<noteq> {})
     \<and> reconciled_honestly (snd r)"

lemma record_lifecycle_accounted:
  assumes "de_mode de = live_guarded \<Longrightarrow> res \<noteq> None"
  shows "triple (\<lambda>_. True) (record_lifecycle de ts now tm intent pre res) (\<lambda>r _. accounted (de_mode de) r) (\<lambda>_ _. True)"
proof -
  have step: "triple (\<lambda>_. True) (ebind (reconcile_after_submit de pre) f) Q (\<lambda>_ _. True)"
    if "\<And>state x. state \<noteq> Definitively_Absent \<Longrightarrow> triple (\<lambda>_. True) (f (state, x)) Q (\<lambda>_ _. True)"
    for f and Q :: "submit_decision \<times> lifecycle_event list \<Rightarrow> 'a runner \<Rightarrow> bool"
    by (rule triple_ebind [OF reconcile_never_absent]) (use that in \<open>force simp: triple_def\<close>)
  obtain vid ack where va: "(case res of
       Some r \<Rightarrow> (case ack_fields_from_submit_result (de_shown de) r of
         (vid, accepted) \<Rightarrow> (vid, if accepted then ''accepted'' else ''not_accepted''))
     | None \<Rightarrow> (None, ''dry_run_not_submitted'')) = (vid, ack)" by fastforce
  have ack: "ack \<noteq> ''dry_run_not_submitted''" if "de_mode de = live_guarded"
    using va assms [OF that] by (auto split: option.splits prod.splits if_splits)
  show ?thesis
    unfolding record_lifecycle_def Let_def va prod.case
    by (rule triple_any, rule triple_any, rule step, simp only: prod.case, rule triple_any, rule triple_any)
      (use ack in \<open>auto simp: triple_simps accounted_def reconciled_honestly_def submitted_decision_ids_def\<close>)
qed

lemma submit_or_sign_live:
  "triple (\<lambda>_. True) (submit_or_sign de tm) (\<lambda>(_, res) _. de_mode de = live_guarded \<longrightarrow> res \<noteq> None) (\<lambda>_ _. True)"
  unfolding submit_or_sign_def
  by (intro triple_splits triple_any) (auto simp: triple_simps split: option.split intro!: triple_any)

lemma run_lifecycle_accounted:
  "triple (\<lambda>_. True) (run_lifecycle de ts now tm) (\<lambda>r _. accounted (de_mode de) r) (\<lambda>_ _. True)"
proof -
  have rest: "triple (\<lambda>_. True) (ebind (submit_or_sign de tm) (\<lambda>(pre, res). record_lifecycle de ts (now * 1000) tm i pre res))
      (\<lambda>r _. accounted (de_mode de) r) (\<lambda>_ _. True)" for i
    by (rule triple_ebind [OF submit_or_sign_live])
      (auto intro!: triple_pure [where P = "\<lambda>_. True", simplified] record_lifecycle_accounted split: prod.split)
  show ?thesis unfolding run_lifecycle_def Let_def by (rule triple_any, rule triple_any, rule rest)
qed

lemma abstains_accounted:
  "reason \<noteq> ab_mode_a_no_orders \<Longrightarrow> triple (\<lambda>_. True) (abstains t reason) (\<lambda>r _. accounted mode r) (\<lambda>_ _. True)"
  by (simp add: abstains_def triple_simps accounted_def decision_placed_def abstain_def reconciled_honestly_def)

lemma cancel_replace_accounted:
  "triple (\<lambda>_. True) (emit_cancel_replace_lifecycle de quote now r i) (\<lambda>r _. accounted (de_mode de) r) (\<lambda>_ _. True)"
proof -
  have rest: "triple (\<lambda>_. True) (ebind (emit_resting_lifecycle de quote now r) (\<lambda>(d, evs). ereturn (d, CancelEvent c # evs)))
      (\<lambda>r _. accounted (de_mode de) r) (\<lambda>_ _. True)" for c
    unfolding emit_resting_lifecycle_def
    by (rule triple_ebind [OF run_lifecycle_accounted])
      (auto simp: triple_simps accounted_def reconciled_honestly_def split: prod.split)
  show ?thesis
    unfolding emit_cancel_replace_lifecycle_def Let_def
    by (rule triple_any, clarsimp split: prod.split, rule triple_any, intro triple_splits rest)
      (auto simp: triple_simps accounted_def decision_placed_def abstain_def reconciled_honestly_def)
qed

lemma dispatch_take_accounted:
  "triple (\<lambda>_. True) (dispatch_take de g t quote now) (\<lambda>r _. accounted (de_mode de) r) (\<lambda>_ _. True)"
  unfolding dispatch_take_def emit_order_lifecycle_def
  by (auto simp: triple_simps intro!: abstains_accounted triple_any_elift run_lifecycle_accounted
    dest: non_crossing_gate_reason split: option.split prod.split)

lemma dispatch_resting_accounted:
  "triple (\<lambda>_. True) (dispatch_resting de g t quote now) (\<lambda>r _. accounted (de_mode de) r) (\<lambda>_ _. True)"
  unfolding dispatch_resting_def emit_resting_lifecycle_def
  by (intro triple_splits triple_any_elift abstains_accounted run_lifecycle_accounted cancel_replace_accounted)
    (auto dest: non_crossing_gate_reason)

lemma decide_accounted:
  assumes "honest_gates g" and "refusal oc"
  shows "triple (\<lambda>_. True) (decide_and_submit de g oc t) (\<lambda>r _. accounted (de_mode de) r) (\<lambda>_ _. True)"
  unfolding decide_and_submit_def
  by (intro triple_splits triple_any abstains_accounted dispatch_take_accounted dispatch_resting_accounted)
    (use assms placing_block_reason_refusal [OF assms, of de] in \<open>auto simp: honest_gates_def refusal_def triple_simps\<close>)

definition all_accounted :: "execution_mode \<Rightarrow> submit_decision list \<times> lifecycle_event list \<Rightarrow> bool" where
  "all_accounted mode r \<longleftrightarrow> (mode = live_guarded \<and> list_ex decision_placed (fst r) \<longrightarrow> submitted_decision_ids (snd r) \<noteq> {})
     \<and> reconciled_honestly (snd r)"

lemma token_loop_accounted:
  assumes "honest_gates g"
  shows "triple (\<lambda>_. True) (token_loop de g ps pd k ts) (\<lambda>r _. all_accounted (de_mode de) r) (\<lambda>_ _. True)"
proof (induction ts arbitrary: k)
  case Nil
  then show ?case by (simp add: triple_simps all_accounted_def reconciled_honestly_def)
next
  case (Cons t ts)
  have rest: "triple (\<lambda>_. accounted (de_mode de) (d, evs)) (ebind (token_loop de g ps pd k' ts) (\<lambda>(ds, evs'). ereturn (d # ds, evs @ evs')))
      (\<lambda>r _. all_accounted (de_mode de) r) (\<lambda>_ _. True)" for d evs k'
  proof (rule triple_ebind [where R = "\<lambda>r _. accounted (de_mode de) (d, evs) \<and> all_accounted (de_mode de) r"])
    show "triple (\<lambda>_. accounted (de_mode de) (d, evs)) (token_loop de g ps pd k' ts)
      (\<lambda>r _. accounted (de_mode de) (d, evs) \<and> all_accounted (de_mode de) r) (\<lambda>_ _. True)"
      by (rule triple_conseq [OF triple_frame [OF Cons.IH, of "accounted (de_mode de) (d, evs)"]]) auto
  qed (auto simp: triple_simps accounted_def all_accounted_def split: prod.split)
  show ?case unfolding token_loop.simps
    by (rule triple_ebind [OF decide_accounted [OF assms refusals(2)]]) (auto intro!: rest split: prod.split)
qed

lemma run_started_snapshot:
  "triple (\<lambda>_. True) (run_started de fills) (\<lambda>(_, _, ev) _. \<exists>x. ev = RiskEvent x) (\<lambda>_ _. True)"
  unfolding run_started_def Let_def
  by (rule triple_any, rule triple_any, clarsimp split: prod.split, intro triple_any)
    (simp add: triple_simps build_risk_snapshot_def)

lemma run_events_accounted:
  "all_accounted mode (ds, evs) \<Longrightarrow> reconciled_honestly (RiskEvent x # evs @ [build_label_event de n now])
     \<and> (mode = live_guarded \<and> list_ex decision_placed ds \<longrightarrow> submitted_decision_ids (RiskEvent x # evs @ [build_label_event de n now]) \<noteq> {})"
  by (auto simp: all_accounted_def reconciled_honestly_def build_label_event_def submitted_decision_ids_def)

section \<open>Orders and acknowledgements of a run\<close>

context wire_monitor
begin

lemma token_loop_count:
  assumes "honest_gates g"
  shows "triple (ran_at (\<lambda>_. True) l sid rk k) (token_loop de g ps pd n ts)
     (\<lambda>r. ran_at (\<lambda>_. True) l sid rk (k + length (filter decision_placed (fst r)))) (\<lambda>_ _. True)"
proof (induction ts arbitrary: k n)
  case Nil
  then show ?case by (simp add: triple_simps)
next
  case (Cons t ts)
  have rest: "triple (ran_at (\<lambda>_. True) l sid rk (if decision_placed (fst d) then Suc k else k))
      (ebind (token_loop de g ps pd n' ts) (\<lambda>(ds, evs'). ereturn (fst d # ds, snd d @ evs')))
      (\<lambda>r. ran_at (\<lambda>_. True) l sid rk (k + length (filter decision_placed (fst r)))) (\<lambda>_ _. True)" for d n'
    by (rule triple_ebind [OF Cons.IH]) (auto simp: triple_simps split: prod.split if_splits)
  have one: "triple (ran_at (\<lambda>_. True) l sid rk k) (decide_and_submit de g oc t)
      (\<lambda>d. ran_at (\<lambda>_. True) l sid rk (if decision_placed (fst d) then Suc k else k)) (\<lambda>_ _. True)" if "refusal oc" for oc
    by (rule triple_conseq [OF decide_ran [OF assms that, where P = "\<lambda>_. True"]]) auto
  show ?case unfolding token_loop.simps
    by (rule triple_ebind [OF one [OF refusals(2)]]) (simp add: rest split_beta split del: if_split)
qed

definition acked :: "wire_call list \<Rightarrow> dust_result \<Rightarrow> 'w runner \<Rightarrow> bool" where
  "acked l res s \<longleftrightarrow> reconciled_honestly (dr_events res)
     \<and> (\<exists>xs. calls (ru_world s) = l @ xs
          \<and> (de_mode de = live_guarded \<and> wire_submits xs \<noteq> [] \<longrightarrow> submitted_decision_ids (dr_events res) \<noteq> {}))"

lemma run_tokens_acked:
  "triple (ran (\<lambda>_. True) l sid 0) (run_tokens de ps pd meta fills) (acked l) (\<lambda>_ _. True)"
proof -
  have tail: "triple (\<lambda>s. all_accounted (de_mode de) (ds, evs) \<and> ran_at (\<lambda>_. True) l sid rk (length (filter decision_placed ds)) s)
     (ebind seq_next (\<lambda>n. ebind (now_ms de) (\<lambda>now. ebind (apply_shutdown_decision de) (\<lambda>shutdown. ebind (eread ru_risk) (\<lambda>risk.
        ereturn (f ds (RiskEvent x # evs @ [build_label_event de n now]) shutdown risk))))))
     (acked l) (\<lambda>_ _. True)"
    if "\<And>ds es shutdown risk. dr_events (f ds es shutdown risk) = es" for f ds evs x rk
  proof (rule triple_pure)
    assume a: "all_accounted (de_mode de) (ds, evs)"
    have "acked l (f ds (RiskEvent x # evs @ [build_label_event de n now]) shutdown risk) s"
      if "ran_at (\<lambda>_. True) l sid rk (length (filter decision_placed ds)) s" for n now shutdown risk s
      using that run_events_accounted [OF a, of x de n now] \<open>\<And>ds es shutdown risk. dr_events (f ds es shutdown risk) = es\<close>
      by (auto simp: acked_def ran_at_def ran_def list_ex_iff filter_empty_conv)
    then show "triple (ran_at (\<lambda>_. True) l sid rk (length (filter decision_placed ds)))
     (ebind seq_next (\<lambda>n. ebind (now_ms de) (\<lambda>now. ebind (apply_shutdown_decision de) (\<lambda>shutdown. ebind (eread ru_risk) (\<lambda>risk.
        ereturn (f ds (RiskEvent x # evs @ [build_label_event de n now]) shutdown risk))))))
     (acked l) (\<lambda>_ _. True)"
      by (intro triple_first shutdown_ran keeps_intros) (simp_all add: triple_simps)
  qed
  have loop: "triple (\<lambda>s. ran (\<lambda>_. True) l sid 0 s \<and> gates_at s g \<and> (\<exists>x. ev = RiskEvent x))
     (ebind (token_loop de g ps pd 0 (sm_universe (de_manifest de))) (\<lambda>(ds, evs).
        ebind seq_next (\<lambda>n. ebind (now_ms de) (\<lambda>now. ebind (apply_shutdown_decision de) (\<lambda>shutdown. ebind (eread ru_risk) (\<lambda>risk.
        ereturn (f ds (ev # evs @ [build_label_event de n now]) shutdown risk)))))))
     (acked l) (\<lambda>_ _. True)"
    if "\<And>ds es shutdown risk. dr_events (f ds es shutdown risk) = es" for f g ev
  proof (rule triple_state [where R = "\<lambda>s0 s. honest_gates g \<and> (\<exists>x. ev = RiskEvent x) \<and> ran_at (\<lambda>_. True) l sid (ru_risk s0) 0 s"])
    fix s0 assume s0: "ran (\<lambda>_. True) l sid 0 s0 \<and> gates_at s0 g \<and> (\<exists>x. ev = RiskEvent x)"
    then show "honest_gates g \<and> (\<exists>x. ev = RiskEvent x) \<and> ran_at (\<lambda>_. True) l sid (ru_risk s0) 0 s0"
      by (auto simp: ran_at_def gates_at_def dest: compute_gates_honest)
    show "triple (\<lambda>s. honest_gates g \<and> (\<exists>x. ev = RiskEvent x) \<and> ran_at (\<lambda>_. True) l sid (ru_risk s0) 0 s)
      (ebind (token_loop de g ps pd 0 (sm_universe (de_manifest de))) (\<lambda>(ds, evs).
        ebind seq_next (\<lambda>n. ebind (now_ms de) (\<lambda>now. ebind (apply_shutdown_decision de) (\<lambda>shutdown. ebind (eread ru_risk) (\<lambda>risk.
        ereturn (f ds (ev # evs @ [build_label_event de n now]) shutdown risk)))))))
      (acked l) (\<lambda>_ _. True)"
    proof (rule triple_pure, rule triple_pure)
      assume g: "honest_gates g" and "\<exists>x. ev = RiskEvent x"
      then obtain x where ev: "ev = RiskEvent x" by blast
      have both: "triple (ran_at (\<lambda>_. True) l sid (ru_risk s0) 0) (token_loop de g ps pd 0 (sm_universe (de_manifest de)))
         (\<lambda>(ds, evs) s. all_accounted (de_mode de) (ds, evs) \<and> ran_at (\<lambda>_. True) l sid (ru_risk s0) (length (filter decision_placed ds)) s)
         (\<lambda>_ _. True)"
        by (rule triple_conseq [OF triple_conj [OF token_loop_count [OF g] token_loop_accounted [OF g]]]) auto
      note t = tail [of "f" ds evs for ds evs, OF that]
      show "triple (ran_at (\<lambda>_. True) l sid (ru_risk s0) 0)
        (ebind (token_loop de g ps pd 0 (sm_universe (de_manifest de))) (\<lambda>(ds, evs).
          ebind seq_next (\<lambda>n. ebind (now_ms de) (\<lambda>now. ebind (apply_shutdown_decision de) (\<lambda>shutdown. ebind (eread ru_risk) (\<lambda>risk.
          ereturn (f ds (ev # evs @ [build_label_event de n now]) shutdown risk)))))))
        (acked l) (\<lambda>_ _. True)"
        unfolding ev by (rule triple_ebind [OF both]) (simp add: t split: prod.split)
    qed
  qed
  have start: "triple (ran (\<lambda>_. True) l sid 0) (run_started de fills)
      (\<lambda>(_, g, ev) s. ran (\<lambda>_. True) l sid 0 s \<and> gates_at s g \<and> (\<exists>x. ev = RiskEvent x)) (\<lambda>_ _. True)"
    by (rule triple_conseq [OF triple_conj [OF run_started_ran [where P = "\<lambda>_. True"] run_started_snapshot]]) auto
  show ?thesis
    unfolding run_tokens_def Let_def
    by (rule triple_ebind [OF start])
      (auto split: prod.split intro!: loop [of "\<lambda>ds es shutdown risk.
        \<lparr>dr_mode = de_mode de, dr_decisions = ds, dr_session_meta = meta, dr_events = es, dr_admission = adm,
         dr_shutdown_decision = shutdown, dr_session_outcome = resolve_session_outcome de risk es\<rparr>" for adm])
qed

text \<open>What the calls of a run and its result have to do with each other.\<close>

lemma run_calls:
  assumes "run_dust_execution de identity session risk fills ps pd w = (r, st, w')"
  shows "\<exists>xs. calls w' = calls w @ xs \<and> (wire_submits xs \<noteq> [] \<longrightarrow> de_mode de = live_guarded)
     \<and> (\<forall>res. r = Inr res \<longrightarrow> reconciled_honestly (dr_events res)
          \<and> (wire_submits xs \<noteq> [] \<longrightarrow> submitted_decision_ids (dr_events res) \<noteq> {}))"
proof (cases "build_session_meta de identity")
  case (Inl e)
  then show ?thesis using assms by (auto simp: run_dust_execution_def)
next
  case (Inr meta)
  with assms obtain s0 s where run: "run_tokens de ps pd meta fills s0 = (r, s)" "ru_world s0 = w" "w' = ru_world s"
    by (auto simp: run_dust_execution_def Let_def split: prod.splits)
  let ?sid = "sf_session_id (ru_session s0)"
  have start: "ran P (calls w) ?sid 0 s0" for P using run(2) by (simp add: ran_def orderly_def)
  note tr = run_tokens_ran [of "calls w" ?sid ps pd meta fills]
  have "concluded fills (calls w) ?sid ps pd s"
    by (cases r) (use triple_Inr [OF tr start] triple_Inl [OF tr start] run(1) in auto)
  then obtain xs where xs: "calls w' = calls w @ xs" "list_all (call_admitted de fills (ru_risk s) ?sid) xs"
    by (auto simp: concluded_def ended_def ran_at_def ran_def run(3))
  have live: "de_mode de = live_guarded" if "wire_submits xs \<noteq> []"
  proof -
    from that obtain x where "SubmitCall x \<in> set xs" by (induction xs rule: wire_submits.induct) auto
    with xs(2) show ?thesis by (fastforce simp: list_all_iff order_admitted_def gates_open_def)
  qed
  have "acked (calls w) res s" if "r = Inr res" for res
    using triple_Inr [OF run_tokens_acked start] run(1) that by simp
  with xs(1) live show ?thesis by (fastforce simp: acked_def run(3))
qed

end

end
