(* ===== verification/Facade_Books.thy ===== *)
theory Facade_Books
  imports Facade Dust_Acks
begin

text \<open>
  The facade against its books: an order that reached the wire stays reserved, so the request behind it is
  never fired again and an unresolved attempt freezes its session. The facade, the runner and the provider
  meet in the locale \<open>booked_desk\<close>, which \<open>Desk\<close> interprets.
\<close>

section \<open>What the outside calls leave alone\<close>

locale kept_world =
  fixes de :: "'w dust_env"
    and J :: "'w \<Rightarrow> bool"
  assumes keeps_quote: "keeps J (de_read_quote de t)"
    and keeps_now: "keeps J (de_now de)"
    and keeps_sign: "keeps J (sg_sign_order (de_signer de) p)"
    and keeps_get_orders: "va_get_orders (de_adapter de) = Some m \<Longrightarrow> keeps J m"
    and keeps_get_order: "va_get_order (de_adapter de) = Some f \<Longrightarrow> keeps J (f i)"
    and keeps_history: "va_get_fill_history (de_adapter de) = Some f \<Longrightarrow> keeps J (f i)"
    and keeps_cancel_all: "va_cancel_all_orders (de_adapter de) = Some wire \<Longrightarrow> keeps J wire"
    and keeps_cancel: "va_cancel_single_order (de_adapter de) = Some f \<Longrightarrow> keeps J (f i)"
    and keeps_submit: "de_arming de = Some a \<Longrightarrow> am_write_port a = Some port \<Longrightarrow> keeps J (port x)"
begin

definition kept :: "'w runner \<Rightarrow> bool" where
  "kept s \<longleftrightarrow> J (ru_world s)"

lemma kept_on_world: "keeps J m \<Longrightarrow> keeps kept (on_world m)"
  by (simp add: keeps_def kept_def on_world_apply)

lemma kept_seq [keeps_intros]: "keeps kept seq_next"
  by (simp add: keeps_def kept_def seq_next_def)

lemma kept_surface [keeps_intros]: "(\<And>m. call = Some m \<Longrightarrow> keeps J m) \<Longrightarrow> keeps kept (surface call)"
  unfolding surface_def by (intro keeps_intros kept_on_world) simp

lemma kept_reconcile [keeps_intros]: "keeps kept (reconcile_after_submit de r)"
  unfolding reconcile_after_submit_def
  by (intro keeps_intros) (auto intro: keeps_get_orders keeps_get_order keeps_history)

lemma kept_now [keeps_intros]: "keeps kept (on_world (de_now de))" "keeps kept (now_ms de)"
  unfolding now_ms_def by (intro keeps_intros kept_on_world keeps_now)+

lemma kept_sweep:
  "va_cancel_all_orders (de_adapter de) = Some wire \<Longrightarrow> keeps kept (stop_and_sweep de cause wire)"
  using keeps_cancel_all [of wire]
  by (auto simp: keeps_def kept_def stop_and_sweep_def Let_def split: prod.split)

lemma kept_fold_fill [keeps_intros]: "keeps kept (fold_realized_fill de fill)"
  unfolding fold_realized_fill_def
  by (rule keeps_require_cancel_all, drule keeps_cancel_all) (auto simp: keeps_def kept_def Let_def split: prod.split)

lemma kept_triggers [keeps_intros]: "keeps kept (apply_safety_triggers de fills)"
  unfolding apply_safety_triggers_def by (intro keeps_require_cancel_all kept_sweep keeps_intros)

lemma kept_startup [keeps_intros]: "keeps kept (startup_open_order_sweep de enforce)"
  unfolding startup_open_order_sweep_def read_startup_open_orders_def
  by (intro keeps_require_cancel_all kept_sweep kept_on_world keeps_get_orders keeps_intros) (auto simp: kept_def)

lemma kept_shutdown [keeps_intros]: "keeps kept (apply_shutdown_decision de)"
  unfolding apply_shutdown_decision_def by (intro keeps_require_cancel_all kept_sweep keeps_intros)

lemma kept_submit [keeps_intros]: "keeps kept (submit_or_sign de tm)"
  unfolding submit_or_sign_def by (intro keeps_intros kept_on_world keeps_submit keeps_sign) auto

lemma kept_lifecycle [keeps_intros]: "keeps kept (run_lifecycle de ts now tm)"
  unfolding run_lifecycle_def record_lifecycle_def by (intro keeps_intros)

lemma kept_cancel_replace [keeps_intros]: "keeps kept (emit_cancel_replace_lifecycle de quote now r i)"
proof -
  have single: "keeps kept (ebind (require_single_cancel_venue de) f)"
    if "\<And>cancel. va_cancel_single_order (de_adapter de) = Some cancel \<Longrightarrow> keeps kept (f cancel)"
    for f :: "(string \<Rightarrow> ('w, pyval) eff) \<Rightarrow> ('w runner, bool \<times> bool) eff"
    using that by (cases "va_cancel_single_order (de_adapter de)") (auto simp: require_single_cancel_venue_def keeps_eraise)
  show ?thesis
    unfolding emit_cancel_replace_lifecycle_def old_order_terminal_withdrawn_def emit_resting_lifecycle_def Let_def
    by (intro single keeps_intros kept_on_world keeps_cancel)
qed

lemma kept_decide [keeps_intros]: "keeps kept (decide_and_submit de g oc t)"
  unfolding decide_and_submit_def dispatch_take_def dispatch_resting_def emit_order_lifecycle_def emit_resting_lifecycle_def abstains_def
  by (intro keeps_intros kept_on_world keeps_quote)

lemma kept_loop [keeps_intros]: "keeps kept (token_loop de g ps pd k ts)"
  by (induction ts arbitrary: k) (auto intro!: keeps_intros)

lemma kept_run_tokens: "keeps kept (run_tokens de ps pd meta fills)"
  unfolding run_tokens_def run_started_def by (intro keeps_require_cancel_all kept_sweep keeps_intros)

lemma run_keeps:
  assumes "run_dust_execution de identity session risk fills ps pd w = (r, st, w')" and "J w"
  shows "J w'"
proof (cases "build_session_meta de identity")
  case (Inr meta)
  let ?s = "\<lambda>ss rk. \<lparr>ru_next_seq = 1, ru_session = ss, ru_risk = rk, ru_world = w\<rparr>"
  have "J (ru_world s)" if "run_tokens de ps pd meta fills (?s ss rk) = (r, s)" for ss rk s
    using keepsD [OF kept_run_tokens, of "?s ss rk" ps pd meta fills] assms(2) that by (simp add: kept_def)
  then show ?thesis using assms(1) Inr by (auto simp: run_dust_execution_def Let_def split: prod.splits)
qed (use assms in \<open>simp add: run_dust_execution_def\<close>)

end

section \<open>The books\<close>

text \<open>The attempt of a request: on the books of its session, and free to be reserved.\<close>

definition on_books :: "codec \<Rightarrow> mm_request \<Rightarrow> provider \<Rightarrow> bool" where
  "on_books cd rq p \<longleftrightarrow> map_option rv_session_identity (map_of (pv_reservations p) (reservation_attempt_id cd rq)) = Some (rq_session_id rq)"

definition reservable :: "codec \<Rightarrow> mm_request \<Rightarrow> provider \<Rightarrow> bool" where
  "reservable cd rq p \<longleftrightarrow> map_of (pv_reservations p) (reservation_attempt_id cd rq) = None \<and> \<not> has_unresolved (rq_session_id rq) p"

lemma reserved_was_reservable:
  assumes "reserve_or_freeze caps (rq_session_id rq) now (reservation_attempt_id cd rq) key p = Inr (RESERVED, p')"
  shows "reservable cd rq p" and "on_books cd rq p'"
  using assms
  by (auto simp: reserve_or_freeze_def reserve_or_load_def reservable_def on_books_def Let_def rbind_Inr_iff update_conv' split: if_splits option.splits prod.splits)

lemma settle_keeps_on_books: "on_books cd rq p \<Longrightarrow> st \<noteq> DEFINITIVELY_ABSENT \<Longrightarrow> on_books cd rq (settle aid st key p)"
  by (auto simp: settle_def on_books_def update_conv' split: option.splits)

text \<open>A run with an order on the wire is never settled as absent.\<close>

lemma matched_states_honest:
  "reconciled_honestly events \<Longrightarrow> matched_states events keys = Some states \<Longrightarrow> Definitively_Absent \<notin> set states \<and> length states = length keys"
proof (induction keys arbitrary: states)
  case (Cons k keys)
  have rows: "Definitively_Absent \<notin> set (reconciliation_rows events i key)" for i key
    using Cons.prems(1) by (fastforce simp: reconciliation_rows_def reconciled_honestly_def List.map_filter_def split: lifecycle_event.splits if_splits)
  from Cons show ?case using rows [of "fst k" "snd k"] by (cases k) (auto split: list.splits)
qed simp

lemma outcome_of_submitted:
  assumes "submitted_decision_ids (dr_events res) \<noteq> {}" and "reconciled_honestly (dr_events res)"
  shows "fst (reconciliation_outcome res) \<noteq> DEFINITIVELY_ABSENT"
proof -
  have "\<not> list_all (\<lambda>state. state = Definitively_Absent) states"
    if "matched_states (dr_events res) keys = Some states" "set (map fst keys) = submitted_decision_ids (dr_events res)" for keys states
    using matched_states_honest [OF assms(2) that(1)] that(2) assms(1) by (cases states) auto
  then show ?thesis using assms(1)
    by (auto simp: reconciliation_outcome_def Let_def split: option.split)
qed

lemma triple_ex_pure:
  assumes "\<And>x. A x \<Longrightarrow> triple (P x) m Q E"
  shows "triple (\<lambda>s. \<exists>x. P x s \<and> A x) m Q E"
proof (rule tripleI)
  show "Q y s'" if "\<exists>x. P x s \<and> A x" "m s = (Inr y, s')" for s y s' using that triple_Inr [OF assms] by blast
  show "E e s'" if "\<exists>x. P x s \<and> A x" "m s = (Inl e, s')" for s e s' using that triple_Inl [OF assms] by blast
qed

lemma in_facade_apply: "in_facade m s = (fst (m (fs_world s)), s\<lparr>fs_world := snd (m (fs_world s))\<rparr>)"
  by (simp add: in_facade_def split: prod.split)

lemma load_identity: "load sid now p = Inr d \<Longrightarrow> ds_session_identity d = sid"
  by (auto simp: load_def rbind_Inr_iff Let_def split: prod.splits)

text \<open>The write port of the arming bundle a run is given is the one the facade was given.\<close>

definition same_port :: "'w dust_env \<Rightarrow> 'w mode_b_arming option \<Rightarrow> bool" where
  "same_port de arming \<longleftrightarrow> (\<forall>a. arming = Some a \<longrightarrow> (\<exists>a0. de_arming de = Some a0 \<and> am_write_port a = am_write_port a0))"

locale booked_desk = wire_monitor de calls for de :: "'w dust_env" and calls :: "'w \<Rightarrow> wire_call list" +
  fixes book :: "'w \<Rightarrow> provider"
    and port :: "'w session_provider"
    and fa :: "'w facade"
  assumes provided: "fa_provider fa = Some port"
    and books_kept: "kept_world de (\<lambda>w. book w = p)"
    and load_keeps: "keeps (\<lambda>w. calls w = l \<and> book w = p) (px_load port sid now)"
    and load_result: "fst (px_load port sid now w) = load sid now (book w)"
    and reserve_keeps: "keeps (\<lambda>w. calls w = l) (px_reserve_or_freeze port caps sid now aid)"
    and reserve_result: "px_reserve_or_freeze port caps sid now aid w = (Inr out, w') \<Longrightarrow>
        reserve_or_freeze caps sid now aid None (book w) = Inr (out, book w')"
    and settle_keeps: "keeps (\<lambda>w. calls w = l) (px_settle port aid st key)"
    and settle_book: "book (snd (px_settle port aid st key w)) = settle aid st key (book w)"
    and sink_keeps: "fa_event_sink fa = Some sink \<Longrightarrow> keeps (\<lambda>w. calls w = l \<and> book w = p) (sink ev)"
begin

definition fv :: "wire_call list \<Rightarrow> provider \<Rightarrow> 'w facade_state \<Rightarrow> bool" where
  "fv l p s \<longleftrightarrow> calls (fs_world s) = l \<and> book (fs_world s) = p"

text \<open>Since the log was \<open>l\<close>: if an order was made, the request's attempt is on the books.\<close>

definition bk :: "wire_call list \<Rightarrow> mm_request \<Rightarrow> 'w facade_state \<Rightarrow> bool" where
  "bk l rq s \<longleftrightarrow> (\<exists>xs. calls (fs_world s) = l @ xs \<and> (wire_submits xs \<noteq> [] \<longrightarrow> on_books (de_codec de) rq (book (fs_world s))))"

lemma fv_in_facade: "keeps (\<lambda>w. calls w = l \<and> book w = p) m \<Longrightarrow> keeps (fv l p) (in_facade m)"
  by (auto simp: keeps_def fv_def in_facade_apply)

lemma fv_bk: "fv l p s \<Longrightarrow> bk l rq s"
  by (auto simp: fv_def bk_def)

lemma bk_of_fv: "(\<And>l p. keeps (fv l p) m) \<Longrightarrow> keeps (bk l rq) m"
  unfolding keeps_def bk_def fv_def by metis

lemma fv_emit [keeps_intros]: "keeps (fv l p) (emit_ops fa rq event_type payload)"
  unfolding emit_ops_def by (intro keeps_intros fv_in_facade sink_keeps)

lemma fv_conclude [keeps_intros]: "keeps (fv l p) (conclude fa rq status n tr)"
  unfolding conclude_def by (intro keeps_intros)

lemma fv_now [keeps_intros]: "keeps (fv l p) (in_facade (de_now de))"
proof (rule fv_in_facade)
  show "keeps (\<lambda>w. calls w = l \<and> book w = p) (de_now de)"
    using now_keeps [of l] kept_world.keeps_now [OF books_kept, of p] by (auto simp: keeps_def)
qed

lemma fv_effective_arming: "triple (fv l p) (effective_arming fa de rq sid) (\<lambda>a s. same_port de a \<and> fv l p s) (\<lambda>_. fv l p)"
proof (cases "de_arming de")
  case None
  then show ?thesis by (simp add: effective_arming_def triple_simps same_port_def)
next
  case (Some arming)
  have upd: "triple (fv l p) (eupdate (\<lambda>s. s\<lparr>fs_interlock_store := x\<rparr>)) (\<lambda>_. fv l p) E" for x E
    by (simp add: triple_simps fv_def)
  show ?thesis
    unfolding effective_arming_def Some Let_def
    by (auto simp: triple_simps same_port_def Some split: option.split prod.split
      intro!: triple_first [OF fv_now] triple_first [OF keeps_eread] triple_elift triple_ebind [OF upd])
qed

lemma monitor_of_run: "same_port de arming \<Longrightarrow> wire_monitor (facade_run_env de rq arming store) calls"
  using wire_monitor_axioms by (auto simp: wire_monitor_def facade_run_env_def same_port_def)

lemma books_of_run: "same_port de arming \<Longrightarrow> kept_world (facade_run_env de rq arming store) (\<lambda>w. book w = p)"
  using books_kept [of p] by (auto simp: kept_world_def facade_run_env_def same_port_def)

definition ran_for :: "wire_call list \<Rightarrow> provider \<Rightarrow> dust_result \<Rightarrow> 'w facade_state \<Rightarrow> bool" where
  "ran_for l p res s \<longleftrightarrow> book (fs_world s) = p
     \<and> (\<exists>xs. calls (fs_world s) = l @ xs \<and> (wire_submits xs \<noteq> [] \<longrightarrow> fst (reconciliation_outcome res) \<noteq> DEFINITIVELY_ABSENT))"

lemma run_proposal_ran:
  assumes "same_port de arming" and "on_books (de_codec de) rq p"
  shows "triple (fv l p) (run_proposal de rq arming sid durable) (ran_for l p) (\<lambda>_. bk l rq)"
proof (rule tripleI)
  have run: "\<exists>xs. calls (fs_world s') = l @ xs \<and> book (fs_world s') = p
      \<and> (\<forall>res. r = Inr res \<longrightarrow> reconciled_honestly (dr_events res)
           \<and> (wire_submits xs \<noteq> [] \<longrightarrow> submitted_decision_ids (dr_events res) \<noteq> {}))"
    if "fv l p s" "run_proposal de rq arming sid durable s = (r, s')" for s r s'
  proof -
    from that(2) obtain st where "run_dust_execution (facade_run_env de rq arming (fs_interlock_store s)) (Some sid) None
        (map_option ds_risk durable) [] (case durable of Some d \<Rightarrow> ds_prior_session_order_count d | None \<Rightarrow> 0)
        (case durable of Some d \<Rightarrow> ds_prior_day_order_count d | None \<Rightarrow> 0) (fs_world s) = (r, st, fs_world s')"
      by (auto simp: run_proposal_def split: prod.splits)
    from wire_monitor.run_calls [OF monitor_of_run [OF assms(1)] this] kept_world.run_keeps [OF books_of_run [OF assms(1)] this] that(1)
    show ?thesis by (auto simp: fv_def)
  qed
  show "ran_for l p res s'" if "fv l p s" "run_proposal de rq arming sid durable s = (Inr res, s')" for s res s'
    using run [OF that] outcome_of_submitted [of res] by (auto simp: ran_for_def)
  show "bk l rq s'" if "fv l p s" "run_proposal de rq arming sid durable s = (Inl e, s')" for s e s'
    using run [OF that] assms(2) by (auto simp: bk_def)
qed

lemma settle_attempt_bk:
  assumes "on_books (de_codec de) rq p"
  shows "triple (ran_for l p res) (settle_attempt fa de rq (Some d) res) (\<lambda>_. bk l rq) (\<lambda>_. bk l rq)"
proof -
  let ?aid = "reservation_attempt_id (de_codec de) rq"
  let ?settle = "px_settle port ?aid (fst (reconciliation_outcome res)) (snd (reconciliation_outcome res))"
  have "triple (ran_for l p res) (eattempt (in_facade ?settle)) (\<lambda>_. bk l rq) (\<lambda>_. bk l rq)"
  proof (rule tripleI)
    show "bk l rq s'" if s: "ran_for l p res s" and s': "eattempt (in_facade ?settle) s = (Inr x, s')" for s x s'
    proof -
      have w: "fs_world s' = snd (?settle (fs_world s))" using s' by (auto simp: eattempt_apply in_facade_apply)
      have "calls (fs_world s') = calls (fs_world s)" unfolding w using keepsD [OF settle_keeps] by blast
      moreover have "book (fs_world s') = settle ?aid (fst (reconciliation_outcome res)) (snd (reconciliation_outcome res)) p"
        using s unfolding w settle_book by (simp add: ran_for_def)
      ultimately show ?thesis using s settle_keeps_on_books [OF assms] by (auto simp: ran_for_def bk_def)
    qed
  qed (simp add: eattempt_apply)
  then show ?thesis
    unfolding settle_attempt_def by (auto simp: provided triple_simps split: prod.split intro!: triple_ebind)
qed

lemma execute_proposal_bk:
  assumes "on_books (de_codec de) rq p"
  shows "triple (fv l p) (execute_proposal fa de rq sid (Some d)) (\<lambda>_. bk l rq) (\<lambda>_. bk l rq)"
proof -
  have conclude: "triple (bk l rq) (conclude fa rq status n tr) (\<lambda>_. bk l rq) (\<lambda>_. bk l rq)" for status n tr
    by (rule triple_keeps [OF bk_of_fv [OF fv_conclude]])
  have rest: "triple (\<lambda>s. same_port de arming \<and> fv l p s)
      (ebind (run_proposal de rq arming sid (Some d)) (\<lambda>result. ebind (settle_attempt fa de rq (Some d) result) (\<lambda>_.
        conclude fa rq (session_status_text (so_status (dr_session_outcome result))) (submitted_count result)
          (to_tool_result (de_codec de) result)))) (\<lambda>_. bk l rq) (\<lambda>_. bk l rq)" for arming
    by (rule triple_pure, rule triple_ebind [OF run_proposal_ran [OF _ assms]], assumption)
      (rule triple_ebind [OF settle_attempt_bk [OF assms] conclude])
  show ?thesis
    unfolding execute_proposal_def
    by (rule triple_ebind [OF triple_conseq [OF fv_effective_arming] rest]) (auto intro: fv_bk)
qed

lemma reserve_attempt_reserves:
  "triple (fv l p) (reserve_attempt fa de rq (rq_session_id rq) now (Some d))
     (\<lambda>r s. r \<noteq> None \<and> (\<exists>q. fv l q s \<and> (r = Some (Inr RESERVED) \<longrightarrow> reservable (de_codec de) rq p \<and> on_books (de_codec de) rq q))) (\<lambda>_ _. False)"
proof -
  let ?reserve = "px_reserve_or_freeze port (facade_caps de) (rq_session_id rq) now (reservation_attempt_id (de_codec de) rq)"
  have "triple (fv l p) (eattempt (in_facade ?reserve))
     (\<lambda>r s. \<exists>q. fv l q s \<and> (r = Inr RESERVED \<longrightarrow> reservable (de_codec de) rq p \<and> on_books (de_codec de) rq q)) (\<lambda>_ _. False)"
  proof (rule tripleI)
    show "\<exists>q. fv l q s' \<and> (r = Inr RESERVED \<longrightarrow> reservable (de_codec de) rq p \<and> on_books (de_codec de) rq q)"
      if s: "fv l p s" and s': "eattempt (in_facade ?reserve) s = (Inr r, s')" for s r s'
    proof -
      have w: "?reserve (fs_world s) = (r, fs_world s')" using s' by (auto simp: eattempt_apply in_facade_apply)
      have "keeps (\<lambda>w. calls w = l) ?reserve" by (rule reserve_keeps)
      from keepsD [OF this, of "fs_world s"] have "calls (fs_world s') = l" using s w by (simp add: fv_def)
      moreover have "reserve_or_freeze (facade_caps de) (rq_session_id rq) now (reservation_attempt_id (de_codec de) rq) None p
          = Inr (RESERVED, book (fs_world s'))" if "r = Inr RESERVED"
        using reserve_result [OF w [unfolded that]] s by (simp add: fv_def)
      ultimately show ?thesis using reserved_was_reservable by (auto simp: fv_def)
    qed
  qed (simp add: eattempt_apply)
  then show ?thesis
    unfolding reserve_attempt_def by (auto simp: provided triple_simps intro!: triple_ebind)
qed

text \<open>The calls and the books after a proposal.\<close>

definition proposed :: "wire_call list \<Rightarrow> provider \<Rightarrow> mm_request \<Rightarrow> 'w facade_state \<Rightarrow> bool" where
  "proposed l p rq s \<longleftrightarrow> bk l rq s \<and> (calls (fs_world s) \<noteq> l \<longrightarrow> reservable (de_codec de) rq p)"

lemma fv_proposed: "fv l q s \<Longrightarrow> proposed l p rq s"
  by (auto simp: proposed_def intro: fv_bk) (simp add: fv_def)

lemma after_reservation_proposed:
  "triple (\<lambda>s. r \<noteq> None \<and> (\<exists>q. fv l q s \<and> (r = Some (Inr RESERVED) \<longrightarrow> reservable (de_codec de) rq p \<and> on_books (de_codec de) rq q)))
     (after_reservation fa de rq (execute_proposal fa de rq sid (Some d)) r) (\<lambda>_. proposed l p rq) (\<lambda>_. proposed l p rq)"
proof (rule triple_pure, rule triple_ex_pure)
  fix q assume "r \<noteq> None" and q: "r = Some (Inr RESERVED) \<longrightarrow> reservable (de_codec de) rq p \<and> on_books (de_codec de) rq q"
  let ?m = "after_reservation fa de rq (execute_proposal fa de rq sid (Some d)) r"
  show "triple (fv l q) ?m (\<lambda>_. proposed l p rq) (\<lambda>_. proposed l p rq)"
  proof (cases "r = Some (Inr RESERVED)")
    case True
    with q have r: "reservable (de_codec de) rq p" and b: "on_books (de_codec de) rq q" by auto
    show ?thesis unfolding True after_reservation.simps
      by (rule triple_conseq [OF execute_proposal_bk [OF b]]) (use r in \<open>auto simp: proposed_def\<close>)
  next
    case False
    then have "keeps (fv l q) ?m" using \<open>r \<noteq> None\<close>
      by (cases "(fa, de, rq, execute_proposal fa de rq sid (Some d), r)" rule: after_reservation.cases)
        (auto simp: fail_closed_reservation_failed_def freeze_pending_reconciliation_def deny_order_cap_def deny_loss_cap_def
          idempotent_committed_result_def intro: fv_conclude)
    then show ?thesis by (rule triple_conseq [OF triple_keeps]) (auto intro: fv_proposed)
  qed
qed

lemma load_durable_some:
  "triple (fv l p) (load_durable_state fa rq now) (\<lambda>r s. (\<exists>d. r = Some d \<and> ds_session_identity d = rq_session_id rq) \<and> fv l p s) (\<lambda>_. fv l p)"
proof -
  have "triple (fv l p) (in_facade (px_load port (rq_session_id rq) now)) (\<lambda>d s. ds_session_identity d = rq_session_id rq \<and> fv l p s) (\<lambda>_. fv l p)"
  proof (rule tripleI)
    let ?load = "px_load port (rq_session_id rq) now"
    have kept: "fv l p s'" if "fv l p s" "in_facade ?load s = (r, s')" for s r s'
      using keepsD [OF fv_in_facade [OF load_keeps], of l p s] that by (metis snd_conv)
    show "ds_session_identity d = rq_session_id rq \<and> fv l p s'" if "fv l p s" "in_facade ?load s = (Inr d, s')" for s d s'
      using kept [OF that] load_result [of "rq_session_id rq" now "fs_world s"] that(2) load_identity by (auto simp: in_facade_apply)
    show "fv l p s'" if "fv l p s" "in_facade ?load s = (Inl e, s')" for s e s' using kept [OF that] .
  qed
  then show ?thesis
    unfolding load_durable_state_def by (auto simp: provided triple_simps intro!: triple_ebind)
qed

lemma propose_proposed:
  "triple (fv l p) (propose_mm_execution fa de rq) (\<lambda>_. proposed l p rq) (\<lambda>_. proposed l p rq)"
proof -
  have ended: "triple (fv l p) (conclude fa rq status n tr) (\<lambda>_. proposed l p rq) (\<lambda>_. proposed l p rq)" for status n tr
    by (rule triple_conseq [OF triple_keeps [OF fv_conclude]]) (auto intro: fv_proposed)
  have reserved: "triple (fv l p) (ebind (reserve_attempt fa de rq (rq_session_id rq) now (Some d))
      (after_reservation fa de rq (execute_proposal fa de rq (rq_session_id rq) (Some d)))) (\<lambda>_. proposed l p rq) (\<lambda>_. proposed l p rq)" for now d
    by (rule triple_ebind [OF triple_conseq [OF reserve_attempt_reserves] after_reservation_proposed]) auto
  have checked: "triple (\<lambda>s. (\<exists>d. durable = Some d \<and> ds_session_identity d = rq_session_id rq) \<and> fv l p s)
     (if rq_mode rq = live_guarded \<and> durable = None then fail_closed_no_durable_state fa de rq
      else if identity_mismatch rq durable then fail_closed_session_identity_mismatch fa de rq
      else
       (let session_identity = (case durable of
              Some d \<Rightarrow> ds_session_identity d
            | None \<Rightarrow> provisional_session_id (de_manifest de) (rq_mode rq)) in
        if rq_mode rq = live_guarded \<and> authorize_mode_b (de_envelope de) = Inl FailClosed
        then fail_closed_envelope_loss_cap fa de rq
        else
          ebind (reserve_attempt fa de rq session_identity now durable)
            (after_reservation fa de rq (execute_proposal fa de rq session_identity durable))))
     (\<lambda>_. proposed l p rq) (\<lambda>_. proposed l p rq)" for durable now
    by (rule triple_pure, elim exE conjE)
      (auto simp: fail_closed_session_identity_mismatch_def fail_closed_envelope_loss_cap_def Let_def intro: ended reserved)
  have early: "proposed l p rq s" if "fv l p s" for s using that by (rule fv_proposed)
  show ?thesis
    unfolding propose_mm_execution_def
    by (intro triple_first [OF fv_emit] triple_first [OF fv_now] triple_first [OF keeps_elift] early
      triple_ebind [OF triple_conseq [OF load_durable_some] checked])
qed

end

end
