(* ===== verification/Desk.thy ===== *)
theory Desk
  imports Facade_Books
begin

text \<open>
  The desk: the facade over the in-memory provider, beside an arbitrary outside world whose writes are logged.
  It instantiates the interface of \<open>Facade_Books\<close>, so the guarantees proved there hold of the model's own
  definitions, and a concrete armed proposal that submits an order shows that they are not vacuous.
\<close>

section \<open>The in-memory provider beside an arbitrary world\<close>

definition aside :: "('u, 'a) eff \<Rightarrow> ('u \<times> provider, 'a) eff" where
  "aside m = (\<lambda>(u, p). case m u of (r, u') \<Rightarrow> (r, (u', p)))"

definition aside_arming :: "'u mode_b_arming \<Rightarrow> ('u \<times> provider) mode_b_arming" where
  "aside_arming a =
     \<lparr>am_mode_a_passed = am_mode_a_passed a, am_clobv2_gate = am_clobv2_gate a,
      am_privy_preflight_ok = am_privy_preflight_ok a, am_provisioning_ok = am_provisioning_ok a,
      am_binding = am_binding a, am_live_policy = am_live_policy a, am_live_quorum = am_live_quorum a,
      am_operator_interlock = am_operator_interlock a,
      am_write_port = map_option (\<lambda>port x. aside (port x)) (am_write_port a), am_order_auth = am_order_auth a\<rparr>"

definition aside_env :: "'u dust_env \<Rightarrow> ('u \<times> provider) dust_env" where
  "aside_env de =
     \<lparr>de_codec = de_codec de, de_parse = de_parse de, de_shown = de_shown de, de_float_text = de_float_text de,
      de_manifest_hash = de_manifest_hash de, de_policy_hash = de_policy_hash de, de_stop_clock = de_stop_clock de,
      de_adapter = \<lparr>va_cancel_all_orders = map_option aside (va_cancel_all_orders (de_adapter de)),
        va_get_orders = map_option aside (va_get_orders (de_adapter de)),
        va_get_order = map_option (\<lambda>f i. aside (f i)) (va_get_order (de_adapter de)),
        va_get_fill_history = map_option (\<lambda>f i. aside (f i)) (va_get_fill_history (de_adapter de)),
        va_cancel_single_order = map_option (\<lambda>f i. aside (f i)) (va_cancel_single_order (de_adapter de))\<rparr>,
      de_signer = \<lparr>sg_mode = sg_mode (de_signer de), sg_sign_order = (\<lambda>p. aside (sg_sign_order (de_signer de) p))\<rparr>,
      de_read_quote = (\<lambda>t. aside (de_read_quote de t)), de_now = aside (de_now de),
      de_envelope = de_envelope de, de_manifest = de_manifest de, de_mode = de_mode de,
      de_wallet_equity_at_decision = de_wallet_equity_at_decision de, de_fixed_fraction = de_fixed_fraction de,
      de_request = de_request de, de_arming = map_option aside_arming (de_arming de),
      de_interlock_store = de_interlock_store de, de_breaker = de_breaker de, de_own_legs = de_own_legs de,
      de_tick_size = de_tick_size de, de_shutdown_policy = de_shutdown_policy de\<rparr>"

type_synonym 'u desk = "('u \<times> provider) \<times> wire_call list"

definition in_memory_provider :: "'u desk session_provider" where
  "in_memory_provider =
     \<lparr>px_load = (\<lambda>sid now ((u, p), l). (load sid now p, ((u, p), l))),
      px_reserve_or_freeze = (\<lambda>caps sid now aid ((u, p), l).
        case reserve_or_freeze caps sid now aid None p of
          Inl e \<Rightarrow> (Inl e, ((u, p), l))
        | Inr (out, p') \<Rightarrow> (Inr out, ((u, p'), l))),
      px_settle = (\<lambda>aid st key ((u, p), l). (Inr (), ((u, settle aid st key p), l)))\<rparr>"

definition dust_desk :: "'u dust_env \<Rightarrow> 'u desk dust_env" where
  "dust_desk de = logged (aside_env de)"

definition desk_facade ::
  "operator_interlock option \<Rightarrow> (ops_event \<Rightarrow> ('u, unit) eff) option \<Rightarrow> string \<Rightarrow> string option \<Rightarrow> 'u desk facade" where
  "desk_facade interlock sink agent_id run_id =
     \<lparr>fa_operator_interlock = interlock, fa_provider = Some in_memory_provider,
      fa_event_sink = map_option (\<lambda>f ev. unlogged (aside (f ev))) sink, fa_agent_id = agent_id, fa_run_id = run_id\<rparr>"

lemma aside_keeps: "keeps (\<lambda>w. snd w = p) (aside m)"
  by (auto simp: keeps_def aside_def split: prod.split)

lemma lifted_keeps: "(\<And>q. keeps (\<lambda>w. snd w = q) m) \<Longrightarrow> keeps (\<lambda>w. snd (fst w) = p) (recording h m)"
  by (auto simp: keeps_def recording_def split: prod.split) (metis snd_conv)

interpretation desk_books: kept_world "dust_desk de" "\<lambda>w. snd (fst w) = p" for de :: "'u dust_env" and p
  by unfold_locales (auto simp: dust_desk_def logged_simps aside_env_def aside_arming_def intro!: lifted_keeps aside_keeps)

interpretation desk: booked_desk "dust_desk de" snd "\<lambda>w. snd (fst w)" in_memory_provider "desk_facade interlock sink agent_id run_id"
  for de :: "'u dust_env" and interlock sink agent_id run_id
proof (intro booked_desk.intro booked_desk_axioms.intro)
  show "wire_monitor (dust_desk de) snd" unfolding dust_desk_def by (rule writes.wire_monitor_axioms)
  show "kept_world (dust_desk de) (\<lambda>w. snd (fst w) = p)" for p by (rule desk_books.kept_world_axioms)
  show "keeps (\<lambda>w. snd w = l \<and> snd (fst w) = p) (sink' ev)"
    if "fa_event_sink (desk_facade interlock sink agent_id run_id) = Some sink'" for sink' ev l p
    using that by (auto simp: desk_facade_def keeps_def recording_def aside_def split: prod.split)
qed (auto simp: desk_facade_def in_memory_provider_def keeps_def split: prod.splits sum.splits)

text \<open>The state of a desk: a world, its books, the log and the operator-interlock store.\<close>

definition desk_state :: "'u \<Rightarrow> provider \<Rightarrow> wire_call list \<Rightarrow> interlock_store option \<Rightarrow> 'u desk facade_state" where
  "desk_state u p l store = \<lparr>fs_world = ((u, p), l), fs_interlock_store = store\<rparr>"

lemma desk_proposed:
  assumes "propose_mm_execution (desk_facade interlock sink agent_id run_id) (dust_desk de) rq s = (r, s')"
  shows "\<exists>xs. snd (fs_world s') = snd (fs_world s) @ xs
     \<and> (wire_submits xs = [] \<or> on_books (de_codec de) rq (snd (fst (fs_world s'))))
     \<and> (xs = [] \<or> reservable (de_codec de) rq (snd (fst (fs_world s))))"
proof -
  let ?l = "snd (fs_world s)" and ?p = "snd (fst (fs_world s))"
  have codec: "de_codec (dust_desk de) = de_codec de" by (simp add: dust_desk_def logged_simps aside_env_def)
  note triple = desk.propose_proposed [of ?l ?p interlock sink agent_id run_id de rq]
  have "desk.fv ?l ?p s" by (simp add: desk.fv_def)
  then have "desk.proposed de ?l ?p rq s'"
    using assms by (cases r) (auto dest: triple_Inr [OF triple] triple_Inl [OF triple])
  then show ?thesis by (auto simp: desk.proposed_def desk.bk_def codec)
qed

section \<open>A concrete armed proposal\<close>

definition demo_quorum :: authorization_quorum where
  "demo_quorum = \<lparr>aq_quorum_ref = ''q'', aq_authorization_key_refs = [''k''], aq_threshold = 1\<rparr>"

definition demo_policy :: privy_wallet_policy where
  "demo_policy = \<lparr>wp_rules = [\<lparr>wr_method = allowed_sign_method, wr_primary_type = order_primary_type, wr_effect = policy_effect.ALLOW\<rparr>,
      \<lparr>wr_method = allowed_sign_method, wr_primary_type = clob_auth_primary_type, wr_effect = policy_effect.ALLOW\<rparr>],
     wp_default_action = policy_effect.DENY, wp_owner_type = quorum_owned\<rparr>"

definition demo_binding :: execution_wallet_binding where
  "demo_binding = \<lparr>wb_provider = ''privy'', wb_wallet_ref = ''w'', wb_wallet_address = ''0x1'', wb_chain_id = chain_id_polygon,
     wb_venue = ''polymarket'', wb_privy_policy_content_hash = policy_content_hash demo_codec demo_policy,
     wb_authorization_quorum_ref = ''q'', wb_authorization_quorum_content_hash = quorum_content_hash demo_codec demo_quorum,
     wb_quorum_threshold = 1\<rparr>"

definition demo_arming :: "unit mode_b_arming" where
  "demo_arming = \<lparr>am_mode_a_passed = True,
     am_clobv2_gate = \<lparr>cg_supported_client = True, cg_client_version = ''2'', cg_fixtures_match = True,
       cg_cancel_verified = True, cg_get_orders_verified = True, cg_operator_smoke_ok = Some True\<rparr>,
     am_privy_preflight_ok = Some True, am_provisioning_ok = Some True, am_binding = demo_binding,
     am_live_policy = demo_policy, am_live_quorum = demo_quorum, am_operator_interlock = None,
     am_write_port = Some (\<lambda>_. ereturn \<lparr>l2_presubmit_record = \<lparr>ps_integrity_commitment_hash = ''c'',
       ps_venue_order_key = ''v'', ps_captured_id = None\<rparr>, l2_response = []\<rparr>),
     am_order_auth = Some \<lparr>pa_request_expiry_ms = 9, pa_quorum_signatures = [''s''], pa_quorum_threshold = 1,
       pa_idempotency_key = ''i''\<rparr>\<rparr>"

definition demo_live :: "unit dust_env" where
  "demo_live = demo_dust\<lparr>de_envelope := demo_env, de_mode := live_guarded,
     de_adapter := (de_adapter demo_dust)\<lparr>va_get_orders := Some (ereturn (VList []))\<rparr>,
     de_manifest := demo_manifest\<lparr>sm_permitted_intent_kinds := [''take''],
       sm_execution_wallet_binding_hash := Some (binding_hash demo_codec demo_binding)\<rparr>,
     de_signer := \<lparr>sg_mode = PRIVY_EVM, sg_sign_order = (\<lambda>_. eraise FailClosed)\<rparr>,
     de_read_quote := (\<lambda>t. ereturn \<lparr>dq_token_id = t, dq_quote_ts_s = 4, dq_event_suspended = False, dq_no_quote = False,
       dq_bid = Some \<lparr>ql_price = Fin (1 / 4), ql_size = Fin 8\<rparr>, dq_ask = Some \<lparr>ql_price = Fin (1 / 2), ql_size = Fin 8\<rparr>\<rparr>),
     de_arming := Some demo_arming, de_wallet_equity_at_decision := Fin 5, de_fixed_fraction := Fin 1\<rparr>"

definition demo_request :: mm_request where
  "demo_request = \<lparr>rq_intent_kind = ik_take, rq_intent_params = no_intent_params\<lparr>ip_token_id := Some ''tok''\<rparr>,
     rq_strategy_id = ''mm'', rq_strategy_config_hash = ''h'', rq_policy_hash = ''p'', rq_session_id = ''s'',
     rq_manifest_hash = ''m'', rq_evidence_class = EXPERIMENTAL_DUST, rq_mode = live_guarded, rq_reason = None,
     rq_confidence = None\<rparr>"

definition demo_interlock :: operator_interlock where
  "demo_interlock = \<lparr>oi_isolated_funded_wallet = True, oi_operator_jurisdiction_comfort = True,
     oi_declared_max_capital_at_risk = Some (Fin 5), oi_kill_switch_ready = True, oi_first_order_authorized = True,
     oi_operator_authorization_ref = Some ''op''\<rparr>"

definition demo_events :: "operator_interlock_event list" where
  "demo_events = og_events (evaluate_operator_interlock (Some demo_interlock) 5000)"

definition demo_interlock_rows :: interlock_store where
  "demo_interlock_rows = [\<lparr>ir_session_id = ''s'', ir_events = demo_events, ir_operator_authorization_ref = Some ''op'',
     ir_arming_attempt_ref = ''i'', ir_binding_digest = ''hj'', ir_receipt = ''operator-interlock:s:hj''\<rparr>]"

definition demo_armed :: "unit desk mode_b_arming" where
  "demo_armed = (the (de_arming (dust_desk demo_live)))\<lparr>am_operator_interlock := Some
     \<lparr>op_satisfied = True, op_recording_receipt = ''operator-interlock:s:hj'', op_events = demo_events,
      op_operator_authorization_ref = Some ''op''\<rparr>\<rparr>"

definition demo_book :: provider where
  "demo_book = \<lparr>pv_reservations = [(''dust-attempt:s:hj'',
     \<lparr>rv_session_identity = ''s'', rv_recon_state = PENDING, rv_venue_order_key = None\<rparr>)], pv_fills = []\<rparr>"

text \<open>The default tick is the double nearest to a cent, and a half is on it.\<close>

lemma cent: "default_tick_size = Fin (5764607523034235 / 576460752303423488)"
  using fl_round_normal [of "- 7" "1 / 100" 5764607523034235] by (simp add: default_tick_size_def pow2_def)

lemma half_on_cent: "validate_and_round_price (Fin (1 / 2)) default_tick_size = Inr (Fin (1 / 2))"
proof -
  define d :: rat where "d = 5764607523034235 / 576460752303423488"
  define q :: rat where "q = 4835703278458517 / 4835703278458516698824704"
  have q: "tick_atol = Fin q" "0 < q" "q < d" "d < 1 / 4" "d \<noteq> 0" by (simp_all add: tick_atol_eq q_def d_def)
  have steps: "fl_round (1 / (2 * d)) = Fin 50" using fl_round_normal [of 5 "1 / (2 * d)" "50 * 2 ^ 47"] by (simp add: d_def pow2_def)
  have product: "fl_round (50 * d) = Fin (1 / 2)" using fl_round_normal [of "- 1" "50 * d" "2 ^ 52"] by (simp add: d_def pow2_def)
  have int: "rne 50 = 50" using rne_of_int [of 50] by simp
  obtain y where y: "fl_round (d - q) = Fin y" "y \<le> 1 / 4" using fl_round_in [of 0 "1 / 4" "d - q"] q by auto
  obtain x where x: "fl_round (1 - d) = Fin x" "3 / 4 \<le> x" "x \<le> 1" using fl_round_in [of "3 / 4" 1 "1 - d"] q by auto
  obtain z where z: "fl_round (x + q) = Fin z" "3 / 4 \<le> z" using fl_round_in [of "3 / 4" 2 "x + q"] q x by auto
  have "off_tick (Fin (1 / 2)) (Fin d) = Inr False"
    using q(2) by (simp add: q(1,5) off_tick_def fl_div_def steps int py_round_int_def float_of_int_def fl_fit_def fl_sub_def)
  moreover have "round_to_tick (Fin (1 / 2)) (Fin d) = Inr (Fin (1 / 2))"
    by (simp add: q(5) round_to_tick_def fl_div_def steps product int py_round_int_def float_of_int_def fl_fit_def)
  ultimately show ?thesis
    unfolding cent d_def [symmetric] using x y z by (auto simp: validate_and_round_price_def fl_sub_def q(1))
qed

lemma demo_uncrossed:
  "non_crossing_gate \<lparr>ol_token_id = ''tok'', ol_side = ''BUY'', ol_price = Fin (1 / 2), ol_kind = PROPOSED,
     ol_uncertain_state = None\<rparr> [] default_tick_size = Inr None"
  by (simp add: non_crossing_gate_def check_non_crossing_def half_on_cent side_of_def leg_is_possibly_live_def Let_def)
    (simp add: cent validate_tick_size_def)

lemmas demo_defs = demo_live_def demo_dust_def demo_arming_def demo_binding_def demo_policy_def demo_quorum_def
  demo_manifest_def demo_env_def demo_request_def dust_desk_def logged_simps aside_env_def aside_arming_def

lemma demo_hashes: "sha256_canonical demo_codec x = ''hj''" "cd_sha256 demo_codec (cd_dumps demo_codec x) = ''hj''"
  by (simp_all add: sha256_canonical_def demo_codec_def)

lemma demo_canonical:
  "og_armed (evaluate_operator_interlock (Some demo_interlock) 5000)"
  "interlock_events_are_canonical demo_events"
  by (simp_all add: demo_events_def evaluate_operator_interlock_def operator_preconditions_def precondition_met_def satisfied_by_precondition_def
   demo_interlock_def upto_rec1 interlock_events_are_canonical_def Let_def)

lemma demo_recorded: "interlock_record demo_codec ''s'' demo_events (Some ''op'') ''i'' [] = Inr (''operator-interlock:s:hj'', demo_interlock_rows)"
  by (simp add: interlock_record_def demo_canonical interlock_binding_digest_def demo_hashes demo_interlock_rows_def Let_def)

lemma demo_reserves:
  "reserve_or_freeze (facade_caps (dust_desk demo_live)) ''s'' 5000000 ''dust-attempt:s:hj'' None \<lparr>pv_reservations = [], pv_fills = []\<rparr>
     = Inr (RESERVED, demo_book)"
  by (simp add: reserve_or_freeze_def reserve_or_load_def has_unresolved_def attempt_count_def facade_caps_def effective_loss_cap_def
    provider_net_pnl_def provider_fills_def fl_sum_def count_values_def cap_breached_def py_max_def py_min_def demo_book_def demo_defs Let_def)

lemma demo_size: "resolve_wire_size (dust_desk demo_live) = Inr (Fin 5)"
  by (simp add: resolve_wire_size_def resolve_dust_size_def nonneg_finite_def py_min_def demo_defs Let_def)

lemma demo_arms: "mode_b_arming_block_reason (facade_run_env (dust_desk demo_live) demo_request (Some demo_armed) (Some demo_interlock_rows)) ''s'' = None"
  by (simp add: mode_b_arming_block_reason_def facade_run_env_def demo_armed_def demo_canonical
   mode_b_admitted_def machine_ok_def authorize_mode_b_def execute_with_def arm_mode_b_def binding_hash_def
   policy_content_hash_def quorum_content_hash_def demo_hashes is_typed_data_only_default_deny_def
   interlock_verify_def interlock_binding_digest_def demo_interlock_rows_def arming_attempt_ref_def demo_defs Let_def)

lemma demo_effective:
  "effective_arming (desk_facade (Some demo_interlock) None ''a'' None) (dust_desk demo_live) demo_request ''s'' (desk_state () p l (Some []))
    = (Inr (Some demo_armed), desk_state () p l (Some demo_interlock_rows))"
proof -
  have ref: "og_events (evaluate_operator_interlock (Some demo_interlock) 5000) = demo_events"
    "(case demo_events of [] \<Rightarrow> None | e # _ \<Rightarrow> ie_operator_authorization_ref e) = Some ''op''"
   by (simp_all add: demo_events_def evaluate_operator_interlock_def operator_preconditions_def demo_interlock_def upto_rec1 Let_def)
  obtain a where a: "de_arming (dust_desk demo_live) = Some a" "arming_attempt_ref a = ''i''"
    by (simp add: demo_defs arming_attempt_ref_def)
  have "de_codec (dust_desk demo_live) = demo_codec" "rq_mode demo_request = live_guarded" "de_now (dust_desk demo_live) = ereturn 5"
    by (simp_all add: demo_defs recording_def aside_def ereturn_def fun_eq_iff)
  then show ?thesis
   by (simp add: effective_arming_def desk_facade_def in_facade_apply desk_state_def a ref demo_canonical demo_recorded demo_armed_def eff_apply ebind_apply Let_def)
qed

definition demo_run_env :: "unit desk dust_env" where
  "demo_run_env = facade_run_env (dust_desk demo_live) demo_request (Some demo_armed) (Some demo_interlock_rows)"

lemma quiet_calls: "unlogged (aside (ereturn x)) = ereturn x"
  by (auto simp: fun_eq_iff recording_def aside_def ereturn_def)

lemma demo_run_fields:
  "de_manifest demo_run_env = demo_manifest\<lparr>sm_permitted_intent_kinds := [''take''],
       sm_execution_wallet_binding_hash := Some (binding_hash demo_codec demo_binding)\<rparr>"
  "de_envelope demo_run_env = demo_env" "de_request demo_run_env = Some demo_request" "de_mode demo_run_env = live_guarded"
  "de_breaker demo_run_env = None" "de_own_legs demo_run_env = []" "de_tick_size demo_run_env = default_tick_size"
  "de_shutdown_policy demo_run_env = shut_leave_open" "de_now demo_run_env = ereturn 5" "de_manifest_hash demo_run_env m = ''m''"
  "de_policy_hash demo_run_env env = ''p''" "de_shown demo_run_env x = []"
  "va_get_orders (de_adapter demo_run_env) = Some (ereturn (VList []))" "va_get_order (de_adapter demo_run_env) = None"
  "va_get_fill_history (de_adapter demo_run_env) = None"
  "resolve_wire_size demo_run_env = Inr (Fin 5)" "mode_b_arming_block_reason demo_run_env ''s'' = None"
  "de_read_quote demo_run_env t = ereturn \<lparr>dq_token_id = t, dq_quote_ts_s = 4, dq_event_suspended = False, dq_no_quote = False,
       dq_bid = Some \<lparr>ql_price = Fin (1 / 4), ql_size = Fin 8\<rparr>, dq_ask = Some \<lparr>ql_price = Fin (1 / 2), ql_size = Fin 8\<rparr>\<rparr>"
  "\<exists>a auth port. de_arming demo_run_env = Some a \<and> am_write_port a = Some port \<and> am_order_auth a = Some auth
    \<and> (\<forall>x u l. port x (u, l) = (Inr \<lparr>l2_presubmit_record = \<lparr>ps_integrity_commitment_hash = ''c'',
       ps_venue_order_key = ''v'', ps_captured_id = None\<rparr>, l2_response = []\<rparr>, (u, l @ [SubmitCall x])))"
  using demo_arms demo_size
  by (simp_all add: demo_run_env_def facade_run_env_def demo_defs quiet_calls resolve_wire_size_def)
   (simp add: demo_armed_def demo_defs recording_def aside_def ereturn_def)

lemma demo_runs:
  "\<exists>res st c. run_dust_execution demo_run_env (Some ''s'') None
     (Some \<lparr>ra_session_id = ''s'', ra_net_session = fl_zero, ra_net_day = fl_zero, ra_current_day = Some 0\<rparr>) [] 0 0 (((), p), [])
    = (Inr res, st, (((), p), [SubmitCall c]))"
proof -
  obtain a auth port where arm: "de_arming demo_run_env = Some a" "am_write_port a = Some port" "am_order_auth a = Some auth"
    "\<And>x u l. port x (u, l) = (Inr \<lparr>l2_presubmit_record = \<lparr>ps_integrity_commitment_hash = ''c'',
       ps_venue_order_key = ''v'', ps_captured_id = None\<rparr>, l2_response = []\<rparr>, (u, l @ [SubmitCall x]))"
    using demo_run_fields by blast
  obtain vid accepted where ack: "ack_fields_from_submit_result (de_shown demo_run_env) \<lparr>l2_presubmit_record = \<lparr>ps_integrity_commitment_hash = ''c'',
       ps_venue_order_key = ''v'', ps_captured_id = None\<rparr>, l2_response = []\<rparr> = (vid, accepted)" by fastforce
  show ?thesis
    by (simp add: run_dust_execution_def run_tokens_def run_started_def apply_safety_triggers_def
      build_session_meta_def float_of_int_def fl_fit_def new_safety_session_def breaker_is_open_def
      compute_gates_def effective_intent_def intent_block_reason_def
      seq_next_def now_ms_def startup_open_order_sweep_def read_startup_open_orders_def apply_shutdown_decision_def
      decide_and_submit_def placing_block_reason_def evaluate_submit_gate_def check_can_submit_def
      authorization_block_reason_def build_admission_def authorization_evaluate_def admission_reasons_def flag_def
      realized_loss_session_def realized_loss_day_def py_max_def py_min_def
      cap_breached_def effective_loss_cap_def open_leg_count_def loss_cap_block_reason_def
      order_cap_block_reason_def cap_reached_def dispatch_take_def resolve_taker_side_tif_def no_intent_params_def demo_uncrossed
      emit_order_lifecycle_def run_lifecycle_def mk_order_submit_intent_def reject_price_out_of_unit_interval_def
      submit_or_sign_def record_lifecycle_def reconcile_after_submit_def surface_def reads_of_def
      open_candidate_count_def terminal_status_evidence_def assess_uncertain_submit_def
      fill_history_evidence_def py_or_def py_len_def py_iter_def ack
      demo_request_def demo_env_def demo_manifest_def arm demo_run_fields
      eattempt_apply on_world_apply ebind_apply eff_apply Let_def)
qed

text \<open>The books with nothing on them, and the demo proposal that starts from them.\<close>

definition demo_start :: "unit desk facade_state" where
  "demo_start = desk_state () \<lparr>pv_reservations = [], pv_fills = []\<rparr> [] (Some [])"

lemma demo_fires:
  "wire_submits (snd (fs_world (snd (propose_mm_execution (desk_facade (Some demo_interlock) None ''a'' None) (dust_desk demo_live) demo_request
      demo_start)))) \<noteq> []"
proof -
  obtain res st c where run: "run_dust_execution demo_run_env (Some ''s'') None
     (Some \<lparr>ra_session_id = ''s'', ra_net_session = fl_zero, ra_net_day = fl_zero, ra_current_day = Some 0\<rparr>) [] 0 0 (((), demo_book), [])
    = (Inr res, st, (((), demo_book), [SubmitCall c]))" using demo_runs by blast
  have fields: "de_codec (dust_desk demo_live) = demo_codec" "de_now (dust_desk demo_live) = ereturn 5" "de_envelope (dust_desk demo_live) = demo_env"
    by (simp_all add: demo_defs quiet_calls)
  have rq: "rq_mode demo_request = live_guarded" "rq_session_id demo_request = ''s''"
    "reservation_attempt_id demo_codec demo_request = ''dust-attempt:s:hj''"
    by (simp_all add: demo_request_def reservation_attempt_id_def demo_hashes)
  have env: "facade_run_env (dust_desk demo_live) demo_request (Some demo_armed) (Some demo_interlock_rows) = demo_run_env" by (simp add: demo_run_env_def)
  have load: "load ''s'' 5000000 \<lparr>pv_reservations = [], pv_fills = []\<rparr> = Inr \<lparr>ds_session_identity = ''s'',
     ds_risk = \<lparr>ra_session_id = ''s'', ra_net_session = fl_zero, ra_net_day = fl_zero, ra_current_day = Some 0\<rparr>,
     ds_prior_session_order_count = 0, ds_prior_day_order_count = 0\<rparr>"
    by (simp add: load_def provider_net_pnl_def provider_fills_def fl_sum_def seeded_def today_of_def attempt_count_def count_values_def)
  have "authorize_mode_b demo_env = Inr ()" by (simp add: authorize_mode_b_def demo_env_def)
  then show ?thesis using demo_effective [unfolded desk_state_def]
    by (simp add: propose_mm_execution_def emit_ops_def desk_facade_def in_facade_apply fields rq utc_now_def year_ok_def load_durable_state_def
      demo_start_def desk_state_def in_memory_provider_def load identity_mismatch_def reserve_attempt_def demo_reserves execute_proposal_def run_proposal_def env run
      settle_attempt_def conclude_def eattempt_apply ebind_apply eff_apply Let_def split: prod.split)
qed

section \<open>What the books guarantee\<close>

text \<open>
  C7: an order that reaches the wire is on the books: whatever the world, the arming and the request, when a
  proposal that put an order on the wire ends, even by an exception, its attempt was free to be reserved
  before (no row of its own, no unresolved attempt of its session) and is reserved for its session after. So
  the books never lose an order that may be live at the venue.
\<close>

theorem order_on_the_wire_is_booked:
  assumes "propose_mm_execution (desk_facade interlock sink agent_id run_id) (dust_desk de) rq (desk_state u p [] store) = (r, s)"
    and "wire_submits (snd (fs_world s)) \<noteq> []"
  shows "reservable (de_codec de) rq p \<and> on_books (de_codec de) rq (snd (fst (fs_world s)))"
  using desk_proposed [OF assms(1)] assms(2) by (auto simp: desk_state_def)

theorem order_on_the_wire_is_booked_witness:
  "\<exists>r s. propose_mm_execution (desk_facade (Some demo_interlock) None ''a'' None) (dust_desk demo_live) demo_request demo_start = (r, s)
     \<and> wire_submits (snd (fs_world s)) \<noteq> [] \<and> on_books demo_codec demo_request (snd (fst (fs_world s)))"
proof -
  obtain r s where s: "propose_mm_execution (desk_facade (Some demo_interlock) None ''a'' None) (dust_desk demo_live) demo_request demo_start = (r, s)"
    by fastforce
  have "de_codec demo_live = demo_codec" by (simp add: demo_live_def demo_dust_def)
  with order_on_the_wire_is_booked [OF s [unfolded demo_start_def]] demo_fires s show ?thesis by simp
qed

text \<open>
  C8: an identical retry never fires twice: after a proposal that put an order on the wire, a second proposal of
  the same request, by any agent and in any world with the same hashing, makes no write to the venue at all.
\<close>

theorem identical_retry_never_fires:
  assumes "propose_mm_execution (desk_facade interlock sink agent_id run_id) (dust_desk de) rq (desk_state u p [] store) = (r, s)"
    and "wire_submits (snd (fs_world s)) \<noteq> []"
    and "de_codec de' = de_codec de"
    and "propose_mm_execution (desk_facade interlock' sink' agent_id' run_id') (dust_desk de') rq s = (r', s')"
  shows "snd (fs_world s') = snd (fs_world s)"
  using desk_proposed [OF assms(1)] desk_proposed [OF assms(4)] assms(2,3)
  by (auto simp: desk_state_def on_books_def reservable_def)

theorem identical_retry_never_fires_witness:
  "\<exists>r s r' s'. propose_mm_execution (desk_facade (Some demo_interlock) None ''a'' None) (dust_desk demo_live) demo_request demo_start = (r, s)
     \<and> propose_mm_execution (desk_facade (Some demo_interlock) None ''b'' None) (dust_desk demo_live) demo_request s = (r', s')
     \<and> wire_submits (snd (fs_world s)) \<noteq> [] \<and> snd (fs_world s') = snd (fs_world s)"
proof -
  obtain r s where s: "propose_mm_execution (desk_facade (Some demo_interlock) None ''a'' None) (dust_desk demo_live) demo_request demo_start = (r, s)"
    by fastforce
  obtain r' s' where s': "propose_mm_execution (desk_facade (Some demo_interlock) None ''b'' None) (dust_desk demo_live) demo_request s = (r', s')"
    by fastforce
  from identical_retry_never_fires [OF s [unfolded demo_start_def] _ refl s'] demo_fires s s' show ?thesis by simp
qed

text \<open>
  C9: an unresolved attempt freezes its session: while the books hold a reservation of the session that is pending
  or ambiguous, no proposal for that session makes a write to the venue, whatever the request.
\<close>

theorem unresolved_session_is_frozen:
  assumes "has_unresolved (rq_session_id rq) p"
    and "propose_mm_execution (desk_facade interlock sink agent_id run_id) (dust_desk de) rq (desk_state u p l store) = (r, s)"
  shows "snd (fs_world s) = l"
  using desk_proposed [OF assms(2)] assms(1) by (auto simp: desk_state_def reservable_def)

theorem unresolved_session_is_frozen_witness:
  "has_unresolved (rq_session_id demo_request) demo_book
   \<and> snd (fs_world (snd (propose_mm_execution (desk_facade (Some demo_interlock) None ''a'' None) (dust_desk demo_live) demo_request
       (desk_state () demo_book [] (Some []))))) = []"
proof -
  have "has_unresolved (rq_session_id demo_request) demo_book"
    by (simp add: has_unresolved_def unresolved_def demo_request_def demo_book_def)
  with unresolved_session_is_frozen [OF this surjective_pairing] show ?thesis by simp
qed

end
