(* ===== verification/Dust_Quotes.thy ===== *)
theory Dust_Quotes
  imports Dust_Monitor
begin

text \<open>
  The quote behind every write of a dust run: a monitor that lists the quotes and the clock readings of a
  run together with its writes, in the order in which they happen, and what it shows of a whole run: an
  order or a single cancel is only sent on a quote that is fresh, open and two-sided at the clock reading
  that follows it.
\<close>

section \<open>Reads and writes in one log\<close>

datatype dust_step = SawQuote string dust_quote | SawClock int | Wrote wire_call

fun writes_of :: "dust_step list \<Rightarrow> wire_call list" where
  "writes_of [] = []"
| "writes_of (Wrote c # xs) = c # writes_of xs"
| "writes_of (_ # xs) = writes_of xs"

lemma writes_of_append [simp]: "writes_of (xs @ ys) = writes_of xs @ writes_of ys"
  by (induction xs rule: writes_of.induct) simp_all

text \<open>The last quote of a log, and the last clock reading after it.\<close>

type_synonym look = "(string \<times> dust_quote) option \<times> int option"

fun look_after :: "look \<Rightarrow> dust_step list \<Rightarrow> look" where
  "look_after v [] = v"
| "look_after v (SawQuote t q # xs) = look_after (Some (t, q), None) xs"
| "look_after v (SawClock n # xs) = look_after (fst v, Some n) xs"
| "look_after v (Wrote c # xs) = look_after v xs"

text \<open>
  Every order and every single cancel of a log stands in a given relation to the last quote before it
  and to the last clock reading between the two.
\<close>

fun writes_follow :: "(string \<Rightarrow> dust_quote \<Rightarrow> int \<Rightarrow> wire_call \<Rightarrow> bool) \<Rightarrow> look \<Rightarrow> dust_step list \<Rightarrow> bool" where
  "writes_follow ok v [] \<longleftrightarrow> True"
| "writes_follow ok v (SawQuote t q # xs) \<longleftrightarrow> writes_follow ok (Some (t, q), None) xs"
| "writes_follow ok v (SawClock n # xs) \<longleftrightarrow> writes_follow ok (fst v, Some n) xs"
| "writes_follow ok v (Wrote c # xs) \<longleftrightarrow>
     (c = CancelAllCall \<or> (case v of (Some (t, q), Some n) \<Rightarrow> ok t q n c | _ \<Rightarrow> False)) \<and> writes_follow ok v xs"

lemma look_after_append [simp]: "look_after v (xs @ ys) = look_after (look_after v xs) ys"
  by (induction v xs rule: look_after.induct) simp_all

lemma writes_follow_append [simp]:
  "writes_follow ok v (xs @ ys) \<longleftrightarrow> writes_follow ok v xs \<and> writes_follow ok (look_after v xs) ys"
  by (induction ok v xs rule: writes_follow.induct) auto

lemma writes_follow_write:
  "writes_follow ok v xs \<Longrightarrow> c \<in> set (writes_of xs) \<Longrightarrow> c = CancelAllCall \<or> (\<exists>t q n. ok t q n c)"
  by (induction ok v xs rule: writes_follow.induct) (auto split: prod.splits option.splits)

lemma writes_follow_mono:
  "writes_follow ok v xs \<Longrightarrow> (\<And>t q n c. ok t q n c \<Longrightarrow> ok' t q n c) \<Longrightarrow> writes_follow ok' v xs"
  by (induction ok v xs rule: writes_follow.induct) (auto split: prod.splits option.splits)

text \<open>A quote that may be acted on, and an order that comes from it.\<close>

definition quote_actionable :: "int \<Rightarrow> dust_quote \<Rightarrow> int \<Rightarrow> bool" where
  "quote_actionable max_age q now \<longleftrightarrow> \<not> dq_event_suspended q \<and> \<not> dq_no_quote q
     \<and> (\<exists>bid ask. dq_bid q = Some bid \<and> dq_ask q = Some ask \<and> \<not> fl_lt (ql_size bid) fl_zero \<and> \<not> fl_lt (ql_size ask) fl_zero)
     \<and> now - dq_quote_ts_s q \<le> max_age"

lemma submit_gate_actionable: "evaluate_submit_gate q now max_age = None \<Longrightarrow> quote_actionable max_age q now"
  by (auto simp: evaluate_submit_gate_def quote_actionable_def split: option.splits if_splits)

fun from_quote :: "string \<Rightarrow> dust_quote \<Rightarrow> wire_call \<Rightarrow> bool" where
  "from_quote t q (SubmitCall x) \<longleftrightarrow> wo_post_only x \<and> wo_token_id x = t
     \<or> (\<exists>bid ask. dq_bid q = Some bid \<and> dq_ask q = Some ask \<and> wo_token_id x = dq_token_id q
          \<and> wo_native_price x = (if wo_side x = ''BUY'' then ql_price ask else ql_price bid))"
| "from_quote t q _ \<longleftrightarrow> True"

lemma triple_value:
  assumes "\<And>l. triple (\<lambda>w. f w = l) m (Q l) (E l)" and "\<And>l x w. Q l x w \<Longrightarrow> h (f w) = h l" and "\<And>l e w. E l e w \<Longrightarrow> h (f w) = h l"
  shows "keeps (\<lambda>w. h (f w) = c) m"
  unfolding keeps_iff_triple
proof (rule tripleI)
  show "h (f w') = c" if "h (f w) = c" "m w = (Inr x, w')" for w x w'
    using assms(2) [OF triple_Inr [OF assms(1) refl that(2)]] that(1) by simp
  show "h (f w') = c" if "h (f w) = c" "m w = (Inl e, w')" for w e w'
    using assms(3) [OF triple_Inl [OF assms(1) refl that(2)]] that(1) by simp
qed

lemma keeps_value: "(\<And>l. keeps (\<lambda>w. f w = l) m) \<Longrightarrow> keeps (\<lambda>w. h (f w) = c) m"
  by (auto simp: keeps_def)

locale step_monitor =
  fixes de :: "'w dust_env"
    and steps :: "'w \<Rightarrow> dust_step list"
  assumes quote_logged: "triple (\<lambda>w. steps w = l) (de_read_quote de t) (\<lambda>q w. steps w = l @ [SawQuote t q]) (\<lambda>_ w. steps w = l)"
    and now_logged: "triple (\<lambda>w. steps w = l) (de_now de) (\<lambda>n w. steps w = l @ [SawClock n]) (\<lambda>_ w. steps w = l)"
    and sign_quiet: "keeps (\<lambda>w. steps w = l) (sg_sign_order (de_signer de) p)"
    and get_orders_quiet: "va_get_orders (de_adapter de) = Some m \<Longrightarrow> keeps (\<lambda>w. steps w = l) m"
    and get_order_quiet: "va_get_order (de_adapter de) = Some f \<Longrightarrow> keeps (\<lambda>w. steps w = l) (f i)"
    and history_quiet: "va_get_fill_history (de_adapter de) = Some f \<Longrightarrow> keeps (\<lambda>w. steps w = l) (f i)"
    and cancel_all_logged: "va_cancel_all_orders (de_adapter de) = Some wire \<Longrightarrow> steps (snd (wire w)) = steps w @ [Wrote CancelAllCall]"
    and cancel_logged: "va_cancel_single_order (de_adapter de) = Some f \<Longrightarrow> steps (snd (f i w)) = steps w @ [Wrote (CancelCall i)]"
    and submit_logged: "de_arming de = Some a \<Longrightarrow> am_write_port a = Some port \<Longrightarrow> steps (snd (port x w)) = steps w @ [Wrote (SubmitCall x)]"
begin

text \<open>A property of the log and the safety session.\<close>

definition steps_at :: "(dust_step list \<Rightarrow> safety_session \<Rightarrow> bool) \<Rightarrow> 'w runner \<Rightarrow> bool" where
  "steps_at F s \<longleftrightarrow> F (steps (ru_world s)) (ru_session s)"

lemma at_on_world: "(\<And>l. keeps (\<lambda>w. steps w = l) m) \<Longrightarrow> keeps (steps_at F) (on_world m)"
  by (auto simp: keeps_def steps_at_def on_world_apply)

lemma at_seq_next [keeps_intros]: "keeps (steps_at F) seq_next"
  by (simp add: keeps_def seq_next_def steps_at_def)

lemma at_surface [keeps_intros]: "(\<And>m l. call = Some m \<Longrightarrow> keeps (\<lambda>w. steps w = l) m) \<Longrightarrow> keeps (steps_at F) (surface call)"
  unfolding surface_def by (intro keeps_intros at_on_world) simp

lemma at_reconcile [keeps_intros]: "keeps (steps_at F) (reconcile_after_submit de r)"
  unfolding reconcile_after_submit_def
  by (intro keeps_intros) (auto intro: get_orders_quiet get_order_quiet history_quiet)

lemma at_withdrawn [keeps_intros]: "keeps (steps_at F) (old_order_terminal_withdrawn de i)"
  unfolding old_order_terminal_withdrawn_def by (intro keeps_intros)

lemma at_record [keeps_intros]: "keeps (steps_at F) (record_lifecycle de ts now tm intent presubmit res)"
  unfolding record_lifecycle_def by (intro keeps_intros)

lemma at_startup_read [keeps_intros]: "keeps (steps_at F) (read_startup_open_orders de)"
  unfolding read_startup_open_orders_def by (intro keeps_intros at_on_world get_orders_quiet)

lemma at_mono: "(\<And>l ss. F l ss \<Longrightarrow> G l ss) \<Longrightarrow> steps_at F s \<Longrightarrow> steps_at G s"
  by (simp add: steps_at_def)

text \<open>Submitting: what the log had before, and the order appended to it.\<close>

lemma submit_or_sign_at:
  assumes FG: "\<And>l ss. F l ss \<Longrightarrow> G l ss" and "unit_price (tm_price tm)"
    and tm: "terms_allowed de (\<lambda>c. \<forall>l ss. F l ss \<longrightarrow> G (l @ [Wrote c]) ss) tm"
  shows "triple (steps_at F) (submit_or_sign de tm) (\<lambda>_. steps_at G) (\<lambda>_. steps_at G)"
proof (cases "de_mode de = live_guarded \<and> (\<exists>a port auth. de_arming de = Some a \<and> am_write_port a = Some port \<and> am_order_auth a = Some auth)")
  case True
  then obtain a port auth where a: "de_mode de = live_guarded" "de_arming de = Some a" "am_write_port a = Some port" "am_order_auth a = Some auth" by blast
  then have x: "submit_or_sign de tm = ebind (on_world (port (wire_order_of de a auth tm))) (\<lambda>res. ereturn (l2_presubmit_record res, Some res))"
    by (simp add: submit_or_sign_def wire_order_of_def)
  from assms(2) tm a have "\<forall>l ss. F l ss \<longrightarrow> G (l @ [Wrote (SubmitCall (wire_order_of de a auth tm))]) ss" by (auto simp: terms_allowed_def)
  then have "triple (steps_at F) (on_world (port (wire_order_of de a auth tm))) (\<lambda>_. steps_at G) (\<lambda>_. steps_at G)"
    using submit_logged [OF a(2,3)] by (auto simp: triple_def steps_at_def on_world_apply split: sum.split)
  then show ?thesis unfolding x by (rule triple_ebind) (simp add: triple_simps)
next
  case False
  have "keeps (steps_at F) (on_world (sg_sign_order (de_signer de) p))" for p by (rule at_on_world [OF sign_quiet])
  then have "keeps (steps_at F) (submit_or_sign de tm)" using False
    unfolding submit_or_sign_def by (auto intro!: keeps_intros split: option.split)
  then show ?thesis by (rule triple_conseq [OF triple_keeps]) (auto intro: at_mono FG)
qed

lemma run_lifecycle_at:
  assumes FG: "\<And>l ss. F l ss \<Longrightarrow> G l ss" and tm: "terms_allowed de (\<lambda>c. \<forall>l ss. F l ss \<longrightarrow> G (l @ [Wrote c]) ss) tm"
  shows "triple (steps_at F) (run_lifecycle de ts now tm) (\<lambda>_. steps_at G) (\<lambda>_. steps_at G)"
  unfolding run_lifecycle_def Let_def
proof (rule triple_first [OF at_seq_next], rule triple_elift)
  fix n1 :: int and intent
  assume "mk_order_submit_intent
        \<lparr>ee_sequence_no = n1, ee_source_ts = Some ts, ee_recv_ts = now * 1000, ot_token_id = tm_token_id tm,
         ot_side = tm_side tm, ot_price = tm_price tm, ot_size = tm_size tm, ot_tif = tm_tif tm,
         ot_client_order_id = tm_client_order_id tm, ot_decision_id = tm_client_order_id tm, ot_decision_ts = now * 1000\<rparr> = Inr intent"
    (is "mk_order_submit_intent ?ev = _")
  then have "unit_price (tm_price tm)" using intent_needs_unit_price [of ?ev] by auto
  from submit_or_sign_at [where F = F and G = G, OF FG this tm]
  show "triple (steps_at F) (ebind (submit_or_sign de tm) (\<lambda>(presubmit, submit_result). record_lifecycle de ts (now * 1000) tm intent presubmit submit_result))
     (\<lambda>_. steps_at G) (\<lambda>_. steps_at G)"
    by (rule triple_ebind) (auto intro!: triple_keeps keeps_intros split: prod.split)
qed (auto intro: at_mono FG)

lemma cancel_replace_at:
  assumes FG: "\<And>l ss. F l ss \<Longrightarrow> G l ss" and cancel: "\<And>l ss. de_mode de = live_guarded \<Longrightarrow> F l ss \<Longrightarrow> F (l @ [Wrote (CancelCall i)]) ss"
    and resting: "triple (steps_at F) (emit_resting_lifecycle de quote now r) (\<lambda>_. steps_at G) (\<lambda>_. steps_at G)"
  shows "triple (steps_at F) (emit_cancel_replace_lifecycle de quote now r i) (\<lambda>_. steps_at G) (\<lambda>_. steps_at G)"
proof -
  have wire: "keeps (steps_at F) (on_world (f i))" if "va_cancel_single_order (de_adapter de) = Some f" "de_mode de = live_guarded" for f
    using cancel_logged [OF that(1)] cancel [OF that(2)] by (auto simp: keeps_def steps_at_def on_world_apply)
  have cancelled: "keeps (steps_at F)
     (if de_mode de = live_guarded then
              ebind (require_single_cancel_venue de) (\<lambda>cancel.
              ebind (on_world (cancel i)) (\<lambda>response.
              ebind (old_order_terminal_withdrawn de i) (\<lambda>withdrawn.
              ereturn (canceled_in i response, withdrawn))))
            else ereturn (False, False))"
    by (cases "va_cancel_single_order (de_adapter de)")
      (auto simp: require_single_cancel_venue_def intro!: keeps_intros wire)
  have rest: "triple (steps_at F)
      (if b then ereturn (abstain (rs_token_id r) ab_cancel_replace_old_order_live, [ce])
       else ebind (emit_resting_lifecycle de quote now r) (\<lambda>(decision, events). ereturn (decision, ce # events)))
      (\<lambda>_. steps_at G) (\<lambda>_. steps_at G)" for ce b
    using triple_ebind [OF resting, of "\<lambda>(decision, events). ereturn (decision, ce # events)" "\<lambda>_. steps_at G"] FG
    by (auto simp: triple_simps split: prod.split intro: at_mono)
  show ?thesis
    unfolding emit_cancel_replace_lifecycle_def Let_def
    by (rule triple_first [OF cancelled], clarsimp split: prod.split, rule triple_first [OF at_seq_next], rule rest)
      (auto intro: at_mono FG)
qed

end

text \<open>What this monitor shows, seen through its writes, is what the monitor of the writes shows.\<close>

sublocale step_monitor \<subseteq> wire_monitor de "\<lambda>w. writes_of (steps w)"
proof
  show "keeps (\<lambda>w. writes_of (steps w) = l) (de_read_quote de t)" for l t
    by (rule triple_value [where f = steps, OF quote_logged]) simp_all
  show "keeps (\<lambda>w. writes_of (steps w) = l) (de_now de)" for l
    by (rule triple_value [where f = steps, OF now_logged]) simp_all
qed (auto intro: keeps_value [where f = steps] sign_quiet get_orders_quiet get_order_quiet history_quiet
  simp: cancel_all_logged cancel_logged submit_logged)

context step_monitor
begin

lemma dispatch_take_at:
  assumes "wg_intent g = ik_take" and FG: "\<And>l ss. F l ss \<Longrightarrow> G l ss"
    and wrote: "\<And>l ss c. dispatched g t c \<Longrightarrow> from_quote t q c \<Longrightarrow> F l ss \<Longrightarrow> G (l @ [Wrote c]) ss"
  shows "triple (steps_at F) (dispatch_take de g t q now) (\<lambda>_. steps_at G) (\<lambda>_. steps_at G)"
proof -
  obtain side tif invalid where rt: "resolve_taker_side_tif (wg_intent_params g) = (side, tif, invalid)"
    by (metis prod_cases3)
  have "triple (steps_at F) (emit_order_lifecycle de q bid ask now (wg_wire_size g) side tif) (\<lambda>_. steps_at G) (\<lambda>_. steps_at G)"
    if "dq_bid q = Some bid" "dq_ask q = Some ask" and "non_crossing_gate \<lparr>ol_token_id = t, ol_side = side,
      ol_price = (if side = ''BUY'' then ql_price ask else ql_price bid),
      ol_kind = PROPOSED, ol_uncertain_state = None\<rparr> (de_own_legs de) (de_tick_size de) = Inr None" for bid ask
    unfolding emit_order_lifecycle_def
    by (rule run_lifecycle_at [OF FG], assumption)
      (use that assms(1) in \<open>auto simp: terms_allowed_def wire_order_of_def dispatched_def intro!: wrote\<close>)
  then show ?thesis
    unfolding dispatch_take_def rt
    by (auto simp: triple_simps abstains_def intro!: triple_elift split: option.split intro: at_mono [OF FG])
qed

lemma dispatch_resting_at:
  assumes "wg_intent g \<noteq> ik_take" and FG: "\<And>l ss. F l ss \<Longrightarrow> G l ss"
    and wrote: "\<And>l ss c. dispatched g t c \<Longrightarrow> from_quote t q c \<Longrightarrow> F l ss \<Longrightarrow> G (l @ [Wrote c]) ss"
    and cancel: "\<And>l ss i. dispatched g t (CancelCall i) \<Longrightarrow> F l ss \<Longrightarrow> F (l @ [Wrote (CancelCall i)]) ss"
  shows "triple (steps_at F) (dispatch_resting de g t q now) (\<lambda>_. steps_at G) (\<lambda>_. steps_at G)"
proof -
  have rest: "triple (steps_at F) (emit_resting_lifecycle de q now r) (\<lambda>_. steps_at G) (\<lambda>_. steps_at G)"
    if "build_resting_order de t (wg_intent_params g) (wg_wire_size g) = Inr (Some r)"
      "non_crossing_gate \<lparr>ol_token_id = rs_token_id r, ol_side = side_text (rs_side r), ol_price = rs_native_price r,
         ol_kind = PROPOSED, ol_uncertain_state = None\<rparr> (de_own_legs de) (de_tick_size de) = Inr None" for r
    unfolding emit_resting_lifecycle_def
    by (rule run_lifecycle_at [OF FG], assumption)
      (use that build_resting_order_size [OF that(1)] assms(1) in \<open>auto simp: terms_allowed_def wire_order_of_def dispatched_def intro!: wrote\<close>)
  have replaced: "triple (steps_at F) (emit_cancel_replace_lifecycle de q now r i) (\<lambda>_. steps_at G) (\<lambda>_. steps_at G)"
    if "wg_intent g = ik_cancel_replace" "ip_replaces_client_order_id (wg_intent_params g) = Some i"
      "triple (steps_at F) (emit_resting_lifecycle de q now r) (\<lambda>_. steps_at G) (\<lambda>_. steps_at G)" for i r
    by (rule cancel_replace_at [where F = F and G = G, OF FG _ that(3)]) (use that(1,2) in \<open>auto simp: dispatched_def intro!: cancel\<close>)
  have quiet: "triple (steps_at F) (abstains t r) (\<lambda>_. steps_at G) (\<lambda>_. steps_at G)" for r
    using FG by (auto simp: abstains_def triple_simps intro: at_mono)
  show ?thesis
    unfolding dispatch_resting_def
    by (intro triple_splits triple_elift quiet replaced rest) (auto intro: at_mono [OF FG])
qed

section \<open>One token\<close>

text \<open>
  The invariant of a run: the log is backed by quotes, and a session that was blocked at the start
  still is.
\<close>

definition backed ::
  "(string \<Rightarrow> dust_quote \<Rightarrow> int \<Rightarrow> wire_call \<Rightarrow> bool) \<Rightarrow> bool \<Rightarrow> dust_step list \<Rightarrow> safety_session \<Rightarrow> bool" where
  "backed ok blk l ss \<longleftrightarrow> writes_follow ok (None, None) l \<and> (blk \<longrightarrow> sf_submit_blocked ss)"

definition looking ::
  "(string \<Rightarrow> dust_quote \<Rightarrow> int \<Rightarrow> wire_call \<Rightarrow> bool) \<Rightarrow> bool \<Rightarrow> look \<Rightarrow> dust_step list \<Rightarrow> safety_session \<Rightarrow> bool" where
  "looking ok blk v l ss \<longleftrightarrow> backed ok blk l ss \<and> look_after (None, None) l = v"

lemma looking_write:
  "looking ok blk (Some (t, q), Some n) l ss \<Longrightarrow> ok t q n c \<Longrightarrow> looking ok blk (Some (t, q), Some n) (l @ [Wrote c]) ss"
  by (simp add: looking_def backed_def)

lemma read_quote_at:
  "triple (steps_at (backed ok blk)) (eattempt (on_world (de_read_quote de t)))
     (\<lambda>r s. case r of Inl _ \<Rightarrow> steps_at (backed ok blk) s | Inr q \<Rightarrow> steps_at (looking ok blk (Some (t, q), None)) s) E"
proof -
  have "triple (\<lambda>s. steps_at (backed ok blk) s \<and> ru_world s = w) (eattempt (on_world (de_read_quote de t)))
     (\<lambda>r s. case r of Inl _ \<Rightarrow> steps_at (backed ok blk) s | Inr q \<Rightarrow> steps_at (looking ok blk (Some (t, q), None)) s) E" for w
  proof (cases "de_read_quote de t w")
    case (Pair r w')
    show ?thesis
    proof (cases r)
      case (Inl e)
      with Pair have "steps w' = steps w" using triple_Inl [OF quote_logged refl, of t w e w'] by simp
      with Pair Inl show ?thesis by (auto simp: triple_def eattempt_apply on_world_apply steps_at_def)
    next
      case (Inr q)
      with Pair have "steps w' = steps w @ [SawQuote t q]" using triple_Inr [OF quote_logged refl, of t w q w'] by simp
      with Pair Inr show ?thesis by (auto simp: triple_def eattempt_apply on_world_apply steps_at_def looking_def backed_def)
    qed
  qed
  then show ?thesis by (auto simp: triple_def)
qed

lemma read_clock_at:
  "triple (steps_at (looking ok blk (u, k))) (on_world (de_now de)) (\<lambda>n. steps_at (looking ok blk (u, Some n))) (\<lambda>_. steps_at (backed ok blk))"
proof (rule tripleI)
  show "steps_at (looking ok blk (u, Some n)) s'" if "steps_at (looking ok blk (u, k)) s" "on_world (de_now de) s = (Inr n, s')" for s n s'
    using that triple_Inr [OF now_logged refl, of "ru_world s"]
    by (cases "de_now de (ru_world s)") (auto simp: on_world_apply steps_at_def looking_def backed_def)
  show "steps_at (backed ok blk) s'" if "steps_at (looking ok blk (u, k)) s" "on_world (de_now de) s = (Inl e, s')" for s e s'
    using that triple_Inl [OF now_logged refl, of "ru_world s"]
    by (cases "de_now de (ru_world s)") (auto simp: on_world_apply steps_at_def looking_def)
qed

text \<open>Past the gates, the dispatch writes only what the quote and the clock just read allow.\<close>

lemma dispatch_at:
  assumes ok: "\<And>q n c. token_call g ss t c \<Longrightarrow> from_quote t q c \<Longrightarrow> quote_actionable (pe_max_quote_age_s (de_envelope de)) q n
      \<Longrightarrow> \<not> blk \<Longrightarrow> ok t q n c"
    and placing: "placing_block_reason de g oc q n ss = None" and early: "wg_intent_block_reason g = None"
      "\<not> (wg_enforce_intent_token g \<and> Some t \<noteq> wg_intent_target_token g)"
      "\<not> (de_mode de = live_guarded \<and> wg_arming_block_reason g \<noteq> None)"
  shows "triple (\<lambda>s. steps_at (looking ok blk (Some (t, q), Some n)) s \<and> ru_session s = ss)
      (if wg_intent g = ik_take then dispatch_take de g t q n else dispatch_resting de g t q n)
      (\<lambda>_. steps_at (backed ok blk)) (\<lambda>_. steps_at (backed ok blk))"
proof -
  let ?B = "steps_at (backed ok blk)" and ?F = "\<lambda>l ss'. looking ok blk (Some (t, q), Some n) l ss' \<and> ss' = ss"
  from placing have open_gates: "\<not> sf_submit_blocked ss" "wg_authorization_block_reason g = None" "wg_loss_cap_block_reason g = None"
    "evaluate_submit_gate q n (pe_max_quote_age_s (de_envelope de)) = None"
    by (auto simp: placing_block_reason_def check_can_submit_def split: option.splits if_splits)
  have call: "token_call g ss t c" if "dispatched g t c" for c
    using that early open_gates by (auto simp: token_call_def dispatched_def)
  have F: "?F (l @ [Wrote c]) ss'" if "dispatched g t c" "from_quote t q c" "?F l ss'" for l ss' c
  proof -
    from that(3) open_gates(1) have "\<not> blk" by (auto simp: looking_def backed_def)
    from ok [OF call [OF that(1)] that(2) submit_gate_actionable [OF open_gates(4)] this] that(3) show ?thesis
      by (blast intro: looking_write)
  qed
  have G: "backed ok blk l ss'" if "?F l ss'" for l ss' using that by (auto simp: looking_def)
  have "triple (steps_at ?F) (dispatch_take de g t q n) (\<lambda>_. ?B) (\<lambda>_. ?B)" if "wg_intent g = ik_take"
    by (rule dispatch_take_at [OF that, where F = ?F]) (use F G in blast)+
  moreover have "triple (steps_at ?F) (dispatch_resting de g t q n) (\<lambda>_. ?B) (\<lambda>_. ?B)" if "wg_intent g \<noteq> ik_take"
    by (rule dispatch_resting_at [OF that, where F = ?F]) (use F G in \<open>blast | simp\<close>)+
  ultimately show ?thesis by (auto elim!: triple_conseq simp: steps_at_def)
qed

lemma decide_at:
  assumes ok: "\<And>ss q n c. token_call g ss t c \<Longrightarrow> from_quote t q c \<Longrightarrow> quote_actionable (pe_max_quote_age_s (de_envelope de)) q n
      \<Longrightarrow> \<not> blk \<Longrightarrow> ok t q n c"
  shows "keeps (steps_at (backed ok blk)) (decide_and_submit de g oc t)"
proof -
  let ?B = "steps_at (backed ok blk)"
  have quiet: "triple ?B (abstains t r) (\<lambda>_. ?B) (\<lambda>_. ?B)" for r by (simp add: abstains_def triple_simps)
  have weaken: "steps_at (looking ok blk v) s \<Longrightarrow> ?B s" for v s by (simp add: steps_at_def looking_def)
  have gated: "triple (steps_at (looking ok blk (Some (t, q), None)))
      (ebind (on_world (de_now de)) (\<lambda>n. ebind (eread ru_session) (\<lambda>ss.
        case placing_block_reason de g oc q n ss of Some reason \<Rightarrow> abstains t reason
        | None \<Rightarrow> if wg_intent g = ik_take then dispatch_take de g t q n else dispatch_resting de g t q n))) (\<lambda>_. ?B) (\<lambda>_. ?B)"
    if early: "wg_intent_block_reason g = None" "\<not> (wg_enforce_intent_token g \<and> Some t \<noteq> wg_intent_target_token g)"
      "\<not> (de_mode de = live_guarded \<and> wg_arming_block_reason g \<noteq> None)" for q
  proof (rule triple_ebind [OF read_clock_at], rule triple_eread, rule triple_splits(2))
    show "triple (\<lambda>s. steps_at (looking ok blk (Some (t, q), Some n)) s \<and> ru_session s = ss)
        (if wg_intent g = ik_take then dispatch_take de g t q n else dispatch_resting de g t q n) (\<lambda>_. ?B) (\<lambda>_. ?B)"
      if "placing_block_reason de g oc q n ss = None" for n ss
      by (rule dispatch_at [where ok = ok, OF _ that early]) (rule ok)
    show "triple (\<lambda>s. steps_at (looking ok blk (Some (t, q), Some n)) s \<and> ru_session s = ss) (abstains t r) (\<lambda>_. ?B) (\<lambda>_. ?B)" for n ss r
      by (rule triple_conseq [OF quiet]) (auto dest: weaken)
  qed
  show ?thesis
    unfolding keeps_iff_triple decide_and_submit_def
    by (intro triple_splits(1,2) triple_ebind [OF read_quote_at] quiet)
      (auto simp: triple_simps split: sum.split intro!: gated quiet)
qed

section \<open>The run\<close>

lemma at_stop:
  assumes "va_cancel_all_orders (de_adapter de) = Some wire"
  shows "keeps (steps_at (backed ok blk)) (stop_and_sweep de cause wire)"
  unfolding keeps_def
proof (intro allI impI)
  fix s assume s: "steps_at (backed ok blk) s"
  obtain r ss n where c: "cancel_all_and_block (de_stop_clock de) cause (fst (wire (ru_world s))) (ru_session s) = (r, ss, n)"
    by (metis prod_cases3)
  show "steps_at (backed ok blk) (snd (stop_and_sweep de cause wire s))"
    using s cancel_all_and_block_effect [OF c] cancel_all_logged [OF assms, of "ru_world s"]
    by (auto simp: stop_and_sweep_def c steps_at_def backed_def)
qed

lemma at_fold_fill: "keeps (steps_at (backed ok blk)) (fold_realized_fill de fill)"
  unfolding fold_realized_fill_def
proof (rule keeps_require_cancel_all, unfold keeps_def, intro allI impI)
  fix wire s assume wire: "va_cancel_all_orders (de_adapter de) = Some wire" and s: "steps_at (backed ok blk) s"
  obtain r risk ss n where c: "on_realized_fill (de_stop_clock de) (RealFill fill) (fst (wire (ru_world s)))
      (de_envelope de) (ru_risk s) (ru_session s) = (r, risk, ss, n)"
    by (metis prod_cases4)
  show "steps_at (backed ok blk) (snd (let called = wire (ru_world s);
            (r, risk, session, calls) = on_realized_fill (de_stop_clock de) (RealFill fill) (fst called)
              (de_envelope de) (ru_risk s) (ru_session s)
        in (rbind r (\<lambda>_. Inr ()),
            s\<lparr>ru_session := session, ru_risk := risk, ru_world := (if calls = 0 then ru_world s else snd called)\<rparr>)))"
    using s on_realized_fill_effect [OF c] cancel_all_logged [OF wire, of "ru_world s"]
    by (auto simp: c steps_at_def backed_def)
qed

lemma at_now_ms: "keeps (steps_at (backed ok blk)) (now_ms de)"
proof -
  have "keeps (steps_at (backed ok blk)) (on_world (de_now de))"
    using triple_Inr [OF now_logged refl] triple_Inl [OF now_logged refl]
    by (auto simp: keeps_def on_world_apply steps_at_def backed_def) (metis look_after.simps prod.collapse sum.exhaust writes_follow.simps(1,3) writes_follow_append)+
  then show ?thesis unfolding now_ms_def by (intro keeps_intros)
qed

lemma run_tokens_at:
  assumes ok: "\<And>g rk sid adm t ss q n c. compute_gates de rk sid adm = Inr g \<Longrightarrow> t \<in> set (sm_universe (de_manifest de)) \<Longrightarrow> token_call g ss t c
      \<Longrightarrow> from_quote t q c \<Longrightarrow> quote_actionable (pe_max_quote_age_s (de_envelope de)) q n \<Longrightarrow> \<not> blk \<Longrightarrow> ok t q n c"
  shows "keeps (steps_at (backed ok blk)) (run_tokens de ps pd meta fills)"
proof -
  let ?B = "steps_at (backed ok blk)"
  note sweeps = keeps_require_cancel_all at_stop at_now_ms keeps_intros
  have triggers: "keeps ?B (apply_safety_triggers de fills)"
    unfolding apply_safety_triggers_def by (intro sweeps at_fold_fill)
  have startup: "keeps ?B (startup_open_order_sweep de enforce)" for enforce
    unfolding startup_open_order_sweep_def by (intro sweeps) (auto simp: steps_at_def backed_def)
  have shutdown: "keeps ?B (apply_shutdown_decision de)"
    unfolding apply_shutdown_decision_def by (intro sweeps)
  have loop: "keeps ?B (token_loop de g ps pd k ts)" if "compute_gates de rk sid adm = Inr g" "set ts \<subseteq> set (sm_universe (de_manifest de))"
    for g rk sid adm k ts
    using that(2)
  proof (induction ts arbitrary: k)
    case (Cons t ts)
    then have "keeps ?B (decide_and_submit de g oc t)" for oc using ok [OF that(1), of t] by (intro decide_at) auto
    with Cons show ?case by (auto intro!: keeps_intros)
  qed (simp add: keeps_ereturn)
  have started: "triple ?B (run_started de fills) (\<lambda>(_, g, _) s. (\<exists>rk sid adm. compute_gates de rk sid adm = Inr g) \<and> ?B s) (\<lambda>_. ?B)"
    unfolding run_started_def Let_def
    by (intro triple_first [OF triggers] triple_first [OF keeps_eread], auto simp: triple_simps
        intro!: triple_elift triple_first [OF at_seq_next] triple_first [OF at_now_ms] triple_first [OF startup] triple_first sweeps, blast)
  show ?thesis unfolding run_tokens_def Let_def keeps_iff_triple
  proof (rule triple_ebind [OF started], clarsimp split: prod.split, rule triple_pure, elim exE)
    fix g adm snapshot rk sid adm' assume g: "compute_gates de rk sid adm' = Inr g"
    show "triple ?B (ebind (token_loop de g ps pd 0 (sm_universe (de_manifest de))) (\<lambda>(decisions, token_events).
       ebind seq_next (\<lambda>n. ebind (now_ms de) (\<lambda>now. ebind (apply_shutdown_decision de) (\<lambda>shutdown. ebind (eread ru_risk) (\<lambda>risk.
         ereturn \<lparr>dr_mode = de_mode de, dr_decisions = decisions, dr_session_meta = meta,
              dr_events = snapshot # token_events @ [build_label_event de n now],
              dr_admission = adm, dr_shutdown_decision = shutdown,
              dr_session_outcome = resolve_session_outcome de risk (snapshot # token_events @ [build_label_event de n now])\<rparr>)))))) (\<lambda>_. ?B) (\<lambda>_. ?B)"
      using loop [OF g] by (intro triple_keeps) (auto intro!: sweeps shutdown)
  qed
qed

text \<open>Every write of a run is backed by the quote and the clock reading before it, however the run ends.\<close>

lemma run_backed:
  assumes "run_dust_execution de identity session risk fills ps pd w = (r, st, w')" and "steps w = []"
  defines "blk \<equiv> case session of None \<Rightarrow> False | Some ss \<Rightarrow> sf_submit_blocked ss"
  shows "writes_follow (\<lambda>t q n c. t \<in> set (sm_universe (de_manifest de)) \<and> quote_actionable (pe_max_quote_age_s (de_envelope de)) q n
      \<and> from_quote t q c \<and> \<not> blk \<and> (case c of SubmitCall x \<Rightarrow> for_token de x t | _ \<Rightarrow> True)) (None, None) (steps w')"
    (is "writes_follow ?ok _ _")
proof -
  have keep: "keeps (steps_at (backed ?ok blk)) (run_tokens de ps pd meta fills)" for meta
    by (rule run_tokens_at) (auto split: wire_call.split intro: token_call_for_token)
  show ?thesis
  proof (cases "build_session_meta de identity")
    case (Inl e)
    with assms(1,2) show ?thesis by (auto simp: run_dust_execution_def)
  next
    case (Inr meta)
    let ?session = "case session of Some s \<Rightarrow> s | None \<Rightarrow> new_safety_session (xm_session_id meta)"
    let ?risk = "case risk of Some r \<Rightarrow> r | None \<Rightarrow> new_accumulator (sf_session_id ?session)"
    let ?s = "\<lparr>ru_next_seq = 1, ru_session = ?session, ru_risk = ?risk, ru_world = w\<rparr>"
    have "steps_at (backed ?ok blk) ?s" using assms(2) by (auto simp: steps_at_def backed_def blk_def split: option.split)
    from keepsD [OF keep this, of meta] have "writes_follow ?ok (None, None) (steps (ru_world (snd (run_tokens de ps pd meta fills ?s))))"
      by (simp add: steps_at_def backed_def)
    then show ?thesis using assms(1) Inr by (auto simp: run_dust_execution_def Let_def split: prod.splits)
  qed
qed

end

section \<open>The log of a run\<close>

text \<open>Any environment with the log of its quotes, clock readings and writes beside its world.\<close>

definition noted :: "'w dust_env \<Rightarrow> ('w \<times> dust_step list) dust_env" where
  "noted = recorded (\<lambda>c. [Wrote c]) (\<lambda>t q. [SawQuote t q]) (\<lambda>n. [SawClock n])"

lemma recording_return: "triple (\<lambda>w. snd w = l) (recording (on_return h) m) (\<lambda>x w. snd w = l @ h x) (\<lambda>_ w. snd w = l)"
  by (rule tripleI) (auto simp: recording_def on_return_def split: prod.splits)

interpretation noted: step_monitor "noted de" snd for de :: "'w dust_env"
  by unfold_locales
    (auto simp: noted_def recorded_def recorded_adapter_def recorded_arming_def unlogged_keeps recording_adds recording_return [where h = "\<lambda>q. [SawQuote _ q]"]
      recording_return [where h = "\<lambda>n. [SawClock n]"])

lemma noted_same [simp]:
  "de_envelope (noted de) = de_envelope de" "de_manifest (noted de) = de_manifest de" "call_admitted (noted de) = call_admitted de"
  "for_token (noted de) = for_token de"
  by (simp_all add: noted_def)

text \<open>
  C10: whatever the venue, the write port, the signer, the clock and the quote source do, and however a run
  ends, every write it made was admitted. Each order and each single cancel was written after a quote had been
  read for a token of the universe and the clock had been read after it, and at that clock reading the quote was
  within the maximal age, of an event not suspended, with a price and with both sides of the book of a size that is not negative;
  a resting order is post-only and on that token, any other order takes the quoted level of its side; and the
  session handed to the run was not blocked. Each order was submitted by an armed live run with its intent,
  authorization and loss-cap gates open, with the mechanical size, a price that is a probability, the pinned
  binding and authorization, and a non-crossing verdict for that token, the requested one when there is a
  request; each single cancel names the order an admitted cancel-replace replaces; and a cancel-all is the
  last write of the run, so no order follows it. Keeping the log changes nothing of the run.
\<close>

theorem dust_run_writes_are_admitted:
  "case run_dust_execution (noted de) identity session risk fills ps pd (w, []) of
     (r, None, w', lg) \<Rightarrow> lg = []
   | (r, Some s, w', lg) \<Rightarrow>
       run_dust_execution de identity session risk fills ps pd w = (r, Some (erase s), w')
       \<and> list_all (call_admitted de fills (ru_risk s) (sf_session_id (ru_session s))) (writes_of lg)
       \<and> writes_follow (\<lambda>t q n c. t \<in> set (sm_universe (de_manifest de))
            \<and> quote_actionable (pe_max_quote_age_s (de_envelope de)) q n \<and> from_quote t q c
            \<and> \<not> (case session of None \<Rightarrow> False | Some ss \<Rightarrow> sf_submit_blocked ss)
            \<and> (case c of SubmitCall x \<Rightarrow> for_token de x t | _ \<Rightarrow> True)) (None, None) lg
       \<and> CancelAllCall \<notin> set (butlast (writes_of lg))"
proof -
  obtain r st w' lg where run: "run_dust_execution (noted de) identity session risk fills ps pd (w, []) = (r, st, w', lg)"
    by (metis prod_cases4)
  show ?thesis
  proof (cases st)
    case None
    then have "lg = []" using run by (auto simp: run_dust_execution_def Let_def split: sum.splits prod.splits)
    with run None show ?thesis by simp
  next
    case (Some s)
    note run' = run [unfolded Some]
    from run' have "run_dust_execution de identity session risk fills ps pd w = (r, Some (erase s), w')"
      unfolding noted_def by (auto dest: run_dust_execution_recorded)
    then show ?thesis using run' noted.run_backed [OF run', unfolded noted_same] noted.run_log(1,2) [OF run'] by simp
  qed
qed

end
