(* ===== verification/Strategy_Types.thy ===== *)
theory Strategy_Types
  imports Custody
begin

text \<open>
  The data of the market-making strategy: the contracts of \<open>src/veridex/mm_strategy/contracts.py\<close> with
  their construction checks, and the configuration of \<open>config.py\<close>. A construction that a validator
  refuses raises \<open>ValueError\<close>. Messages are left out; fields whose type a validator does not narrow are
  taken at their declared type.
\<close>

section \<open>Closed vocabularies (\<open>contracts.py\<close>)\<close>

datatype market_status = MS_ACTIVE | MS_HALTED | MS_CLOSED | MS_UNKNOWN

datatype book_status = bk_ok | bk_gap | bk_excluded

datatype neutral_intent_kind = nk_place_quote | nk_replace_quote | nk_cancel_all_orders | nk_abstain

datatype decision_kind = QUOTE_TWO_SIDED | QUOTE_ONE_SIDED | ONE_SIDED_REDUCE | NO_QUOTE | HOLD

datatype strategy_reason =
    sr_stale_observation | sr_clock_regression | sr_epoch_regression | sr_token_mapping_missing
  | sr_book_gap | sr_book_excluded | sr_book_stale | sr_book_thin | sr_level_count_low | sr_leg_skew
  | sr_boundary_zone | sr_leg_out_of_zone | sr_two_sided_zone_exit | sr_tick_regime_changed
  | sr_phase_transition | sr_market_status_unknown | sr_market_halted | sr_market_closed
  | sr_stream_degraded | sr_projection_stale | sr_event_cooldown | sr_event_ref_warmup | sr_txline_missing
  | sr_txline_stale | sr_txline_suspended | sr_basis_warmup | sr_prematch_basis_exceeds_spread
  | sr_residual_pull_ask | sr_residual_pull_bid | sr_residual_extreme | sr_inventory_reduce
  | sr_reduce_conflict | sr_hold_unchanged | sr_plan_frozen_pending_reconcile | sr_cancel_exposure_first

datatype proof_status = pf_proven | pf_boundary | pf_absent | pf_error | pf_unavailable_no_message_id

datatype quote_leg = leg_bid | leg_ask

datatype intent_role = role_bid | role_ask | role_reduce

section \<open>Construction checks\<close>

definition reject_price :: "pyfloat \<Rightarrow> pyfloat result" where
  "reject_price value = (if \<not> (fl_le fl_zero value \<and> fl_le value fl_one) then Inl ValueError else Inr value)"

definition reject_non_finite :: "pyfloat \<Rightarrow> pyfloat result" where
  "reject_non_finite value = (if \<not> isfinite value then Inl ValueError else Inr value)"

definition reject_non_finite_optional :: "pyfloat option \<Rightarrow> pyfloat option result" where
  "reject_non_finite_optional value =
     (case value of None \<Rightarrow> Inr None | Some v \<Rightarrow> rbind (reject_non_finite v) (\<lambda>x. Inr (Some x)))"

fun reject_non_finite_tuple :: "pyfloat list \<Rightarrow> pyfloat list result" where
  "reject_non_finite_tuple [] = Inr []"
| "reject_non_finite_tuple (v # vs) =
     rbind (reject_non_finite v) (\<lambda>_. rbind (reject_non_finite_tuple vs) (\<lambda>_. Inr (v # vs)))"

section \<open>Observations\<close>

record guard_fair_value =
  gv_fv :: pyfloat
  gv_fv_source_ts :: int
  gv_fv_recv_ts :: int
  gv_fv_source_epoch :: int
  gv_message_id :: "string option"
  gv_proof_status :: proof_status

definition mk_guard_fair_value :: "guard_fair_value \<Rightarrow> guard_fair_value result" where
  "mk_guard_fair_value g =
     rbind (reject_price (gv_fv g)) (\<lambda>_.
       if gv_message_id g = None \<and> gv_proof_status g \<noteq> pf_unavailable_no_message_id then Inl ValueError else Inr g)"

record resting_order_view =
  wv_client_order_id :: string
  wv_side :: quote_leg
  wv_price :: pyfloat
  wv_size :: pyfloat

definition mk_resting_order_view :: "resting_order_view \<Rightarrow> resting_order_view result" where
  "mk_resting_order_view v =
     rbind (reject_price (wv_price v)) (\<lambda>_. rbind (reject_non_finite (wv_size v)) (\<lambda>_. Inr v))"

record inventory_projection =
  iv_net_position :: pyfloat
  iv_resting :: "resting_order_view list"
  iv_projection_as_of_ts :: int
  iv_fresh :: bool

definition mk_inventory_projection :: "inventory_projection \<Rightarrow> inventory_projection result" where
  "mk_inventory_projection i = rbind (reject_non_finite (iv_net_position i)) (\<lambda>_. Inr i)"

record strategy_observation =
  ob_fixture_id :: int
  ob_market_ref :: string
  ob_side :: string
  ob_token_id :: string
  ob_venue_market_ref :: string
  ob_tick_size :: pyfloat
  ob_observation_sequence :: int
  ob_book_source_epoch :: int
  ob_bid :: "pyfloat option"
  ob_ask :: "pyfloat option"
  ob_bid_size :: "pyfloat option"
  ob_ask_size :: "pyfloat option"
  ob_book_status :: book_status
  ob_status_reason :: "string option"
  ob_book_recv_ts :: int
  ob_level_count_in_band :: int
  ob_tick_regime_changed :: bool
  ob_phase :: int
  ob_suspended :: bool
  ob_match_state_recv_ts :: int
  ob_guard_fv :: "guard_fair_value option"
  ob_market_status :: market_status
  ob_market_status_recv_ts :: "int option"
  ob_market_status_epoch :: "int option"
  ob_order_stream_ok :: bool
  ob_projection_fresh :: bool
  ob_inventory :: inventory_projection
  ob_as_of_ts :: int

text \<open>The field validators, then the two model validators, in the order they run.\<close>

definition status_sentinel_iff_unknown :: "market_status \<Rightarrow> int option \<Rightarrow> int option \<Rightarrow> bool" where
  "status_sentinel_iff_unknown status recv_ts epoch =
     (if status = MS_UNKNOWN then recv_ts = None \<and> epoch = None else recv_ts \<noteq> None \<and> epoch \<noteq> None)"

definition future_dated :: "strategy_observation \<Rightarrow> bool" where
  "future_dated ob \<longleftrightarrow>
     ob_as_of_ts ob < ob_book_recv_ts ob \<or> ob_as_of_ts ob < ob_match_state_recv_ts ob
     \<or> (case ob_market_status_recv_ts ob of None \<Rightarrow> False | Some ts \<Rightarrow> ob_as_of_ts ob < ts)
     \<or> (case ob_guard_fv ob of None \<Rightarrow> False | Some g \<Rightarrow> ob_as_of_ts ob < gv_fv_recv_ts g)"

definition mk_strategy_observation :: "strategy_observation \<Rightarrow> strategy_observation result" where
  "mk_strategy_observation ob =
     (if \<not> isfinite (ob_tick_size ob) \<or> fl_le (ob_tick_size ob) fl_zero then Inl ValueError
      else
        rbind (reject_non_finite_optional (ob_bid ob)) (\<lambda>_.
        rbind (reject_non_finite_optional (ob_ask ob)) (\<lambda>_.
        rbind (reject_non_finite_optional (ob_bid_size ob)) (\<lambda>_.
        rbind (reject_non_finite_optional (ob_ask_size ob)) (\<lambda>_.
          if ob_phase ob \<notin> {0, 1} then Inl ValueError
          else if \<not> status_sentinel_iff_unknown (ob_market_status ob) (ob_market_status_recv_ts ob)
                      (ob_market_status_epoch ob)
          then Inl ValueError
          else if future_dated ob then Inl ValueError
          else Inr ob)))))"

section \<open>State\<close>

record outcome_accumulator =
  oq_market_ref :: string
  oq_side :: string

text \<open>The guard watermark carries one field, the generation of the fair-value source.\<close>

record guard_state_watermark =
  gw_fv_source_epoch :: int

record strategy_state =
  sx_last_observation_sequence :: "int option"
  sx_last_book_source_epoch :: "int option"
  sx_last_as_of_ts :: "int option"
  sx_last_market_status_epoch :: "int option"
  sx_last_market_status_recv_ts :: "int option"
  sx_guard_watermark :: "guard_state_watermark option"
  sx_last_phase :: "int option"
  sx_last_suspended :: "bool option"
  sx_last_book_in_gap :: "bool option"
  sx_outcomes :: "outcome_accumulator list"
  sx_inventory_echo :: "inventory_projection option"
  sx_quote_lineage :: "resting_order_view list"
  sx_smoother_mid :: "pyfloat option"
  sx_smoother_mid_ts :: "int option"
  sx_spread_ref_samples :: "pyfloat list"
  sx_depth_ref_samples :: "pyfloat list"
  sx_basis_samples :: "(int \<times> pyfloat) list"
  sx_basis_ewma_value :: "pyfloat option"
  sx_basis_ewma_ts :: "int option"
  sx_basis_sample_count :: int
  sx_event_cooldown_until_ts :: "int option"

definition fresh_strategy_state :: strategy_state where
  "fresh_strategy_state =
     \<lparr>sx_last_observation_sequence = None, sx_last_book_source_epoch = None, sx_last_as_of_ts = None,
      sx_last_market_status_epoch = None, sx_last_market_status_recv_ts = None, sx_guard_watermark = None,
      sx_last_phase = None, sx_last_suspended = None, sx_last_book_in_gap = None, sx_outcomes = [],
      sx_inventory_echo = None, sx_quote_lineage = [], sx_smoother_mid = None, sx_smoother_mid_ts = None,
      sx_spread_ref_samples = [], sx_depth_ref_samples = [], sx_basis_samples = [], sx_basis_ewma_value = None,
      sx_basis_ewma_ts = None, sx_basis_sample_count = 0, sx_event_cooldown_until_ts = None\<rparr>"

definition mk_strategy_state :: "strategy_state \<Rightarrow> strategy_state result" where
  "mk_strategy_state st =
     rbind (reject_non_finite_optional (sx_smoother_mid st)) (\<lambda>_.
     rbind (reject_non_finite_tuple (sx_spread_ref_samples st)) (\<lambda>_.
     rbind (reject_non_finite_tuple (sx_depth_ref_samples st)) (\<lambda>_.
     rbind (reject_non_finite_tuple (map snd (sx_basis_samples st))) (\<lambda>_.
     rbind (reject_non_finite_optional (sx_basis_ewma_value st)) (\<lambda>_.
       if (sx_basis_ewma_value st = None) \<noteq> (sx_basis_ewma_ts st = None) then Inl ValueError else Inr st)))))"

section \<open>Intents and decisions\<close>

record neutral_intent =
  ni_kind :: neutral_intent_kind
  ni_leg_role :: "intent_role option"
  ni_price :: "pyfloat option"
  ni_post_only :: bool
  ni_client_order_id :: "string option"
  ni_replaces_client_order_id :: "string option"

definition mk_neutral_intent :: "neutral_intent \<Rightarrow> neutral_intent result" where
  "mk_neutral_intent i =
     rbind (case ni_price i of None \<Rightarrow> Inr None | Some p \<Rightarrow> rbind (reject_price p) (\<lambda>x. Inr (Some x))) (\<lambda>_.
       if ni_kind i = nk_replace_quote then
         (case ni_replaces_client_order_id i of
            None \<Rightarrow> Inl ValueError
          | Some old \<Rightarrow> if old = [] then Inl ValueError else Inr i)
       else if ni_replaces_client_order_id i \<noteq> None then Inl ValueError
       else Inr i)"

definition cancel_phase_kinds :: "neutral_intent_kind set" where
  "cancel_phase_kinds = {nk_cancel_all_orders}"

definition placement_phase_kinds :: "neutral_intent_kind set" where
  "placement_phase_kinds = {nk_place_quote, nk_replace_quote}"

definition reject_mixed_phase_plan :: "neutral_intent list \<Rightarrow> neutral_intent list result" where
  "reject_mixed_phase_plan plan =
     (let kinds = set (map ni_kind plan) in
      if kinds \<inter> cancel_phase_kinds \<noteq> {} \<and> kinds \<inter> placement_phase_kinds \<noteq> {} then Inl ValueError else Inr plan)"

record strategy_decision =
  sn_decision_id :: string
  sn_kind :: decision_kind
  sn_reason_codes :: "strategy_reason list"
  sn_intent_plan :: "neutral_intent list"
  sn_observation_hash :: string
  sn_config_hash :: string
  sn_prior_state_hash :: string
  sn_next_state_hash :: string
  sn_fv_message_id :: "string option"
  sn_fv_proof_status :: "proof_status option"

definition mk_strategy_decision ::
  "decision_kind \<Rightarrow> strategy_reason list \<Rightarrow> neutral_intent list \<Rightarrow> strategy_decision result" where
  "mk_strategy_decision kind reasons plan =
     rbind (reject_mixed_phase_plan plan) (\<lambda>_. Inr
       \<lparr>sn_decision_id = [], sn_kind = kind, sn_reason_codes = reasons, sn_intent_plan = plan,
        sn_observation_hash = [], sn_config_hash = [], sn_prior_state_hash = [], sn_next_state_hash = [],
        sn_fv_message_id = None, sn_fv_proof_status = None\<rparr>)"

section \<open>Configuration (\<open>config.py\<close>)\<close>

datatype basis_estimator = est_rolling_median | est_halflife_ewma

datatype event_smoother = smooth_ema_alpha | smooth_halflife_ewma

datatype restart_policy = restart_fail_closed | restart_fail_open

datatype maker_tif = mt_GTC | mt_GTD

record strategy_config =
  sc_strategy_id :: string
  sc_residual_band :: pyfloat
  sc_extreme_multiple :: pyfloat
  sc_basis_estimator :: basis_estimator
  sc_basis_window :: int
  sc_ewma_halflife_ms :: int
  sc_basis_min_samples :: int
  sc_fv_freshness_ms :: int
  sc_fv_source_lag_s :: int
  sc_book_freshness_ms :: int
  sc_max_leg_skew_ms :: int
  sc_half_spread :: pyfloat
  sc_boundary_zone :: "pyfloat \<times> pyfloat"
  sc_two_sided_band :: "pyfloat \<times> pyfloat"
  sc_min_top_depth :: pyfloat
  sc_min_level_count :: int
  sc_depth_collapse_ratio :: pyfloat
  sc_ref_min_samples :: int
  sc_book_state_dwell_before_quote_ms :: int
  sc_mid_jump_threshold :: pyfloat
  sc_spread_blowout_multiple :: pyfloat
  sc_inventory_soft_limit :: pyfloat
  sc_price_epsilon :: pyfloat
  sc_event_smoother :: event_smoother
  sc_event_smoother_param :: pyfloat
  sc_market_status_max_age_ms :: int
  sc_rolling_spread_window :: int
  sc_rolling_depth_window :: int
  sc_guard_enabled :: bool
  sc_restart_policy :: restart_policy
  sc_tif :: maker_tif
  sc_fee_bps :: pyfloat

definition zones_valid :: "strategy_config \<Rightarrow> bool" where
  "zones_valid c \<longleftrightarrow>
     (let (b_lo, b_hi) = sc_boundary_zone c; (t_lo, t_hi) = sc_two_sided_band c in
      fl_lt fl_zero b_lo \<and> fl_lt b_lo b_hi \<and> fl_lt b_hi fl_one \<and> fl_lt t_lo t_hi \<and> fl_le b_lo t_lo \<and> fl_le t_hi b_hi)"

text \<open>The field bounds.\<close>

definition knobs_in_range :: "strategy_config \<Rightarrow> bool" where
  "knobs_in_range c \<longleftrightarrow>
     fl_lt fl_zero (sc_residual_band c) \<and> fl_lt fl_one (sc_extreme_multiple c) \<and> 1 \<le> sc_basis_window c
     \<and> 1 \<le> sc_ewma_halflife_ms c \<and> 1 \<le> sc_basis_min_samples c \<and> 1 \<le> sc_fv_freshness_ms c \<and> 0 \<le> sc_fv_source_lag_s c
     \<and> 1 \<le> sc_book_freshness_ms c \<and> 0 \<le> sc_max_leg_skew_ms c
     \<and> fl_lt fl_zero (sc_half_spread c) \<and> fl_lt (sc_half_spread c) fl_one
     \<and> fl_lt fl_zero (sc_min_top_depth c) \<and> 1 \<le> sc_min_level_count c
     \<and> fl_lt fl_zero (sc_depth_collapse_ratio c) \<and> fl_le (sc_depth_collapse_ratio c) fl_one \<and> 1 \<le> sc_ref_min_samples c
     \<and> 0 \<le> sc_book_state_dwell_before_quote_ms c \<and> fl_lt fl_zero (sc_mid_jump_threshold c)
     \<and> fl_lt fl_one (sc_spread_blowout_multiple c) \<and> fl_lt fl_zero (sc_inventory_soft_limit c)
     \<and> fl_lt fl_zero (sc_price_epsilon c) \<and> fl_lt fl_zero (sc_event_smoother_param c)
     \<and> fl_le (sc_event_smoother_param c) fl_one \<and> 1 \<le> sc_market_status_max_age_ms c
     \<and> 1 \<le> sc_rolling_spread_window c \<and> 1 \<le> sc_rolling_depth_window c \<and> fl_le fl_zero (sc_fee_bps c)"

definition mk_strategy_config :: "strategy_config \<Rightarrow> strategy_config result" where
  "mk_strategy_config c = (if knobs_in_range c \<and> zones_valid c then Inr c else Inl ValueError)"

section \<open>Canonical forms\<close>

text \<open>\<open>model_dump()\<close> of each model; the identity of a model is the hash of its canonical JSON.\<close>

definition opt_val :: "('a \<Rightarrow> pyval) \<Rightarrow> 'a option \<Rightarrow> pyval" where
  "opt_val f v = (case v of None \<Rightarrow> VNone | Some x \<Rightarrow> f x)"

fun market_status_text :: "market_status \<Rightarrow> string" where
  "market_status_text MS_ACTIVE = ''ACTIVE''"
| "market_status_text MS_HALTED = ''HALTED''"
| "market_status_text MS_CLOSED = ''CLOSED''"
| "market_status_text MS_UNKNOWN = ''UNKNOWN''"

fun book_text :: "book_status \<Rightarrow> string" where
  "book_text bk_ok = ''ok''"
| "book_text bk_gap = ''gap''"
| "book_text bk_excluded = ''excluded''"

fun proof_text :: "proof_status \<Rightarrow> string" where
  "proof_text pf_proven = ''proven''"
| "proof_text pf_boundary = ''boundary''"
| "proof_text pf_absent = ''absent''"
| "proof_text pf_error = ''error''"
| "proof_text pf_unavailable_no_message_id = ''unavailable_no_message_id''"

fun quote_leg_text :: "quote_leg \<Rightarrow> string" where
  "quote_leg_text leg_bid = ''bid''"
| "quote_leg_text leg_ask = ''ask''"

fun intent_role_text :: "intent_role \<Rightarrow> string" where
  "intent_role_text role_bid = ''bid''"
| "intent_role_text role_ask = ''ask''"
| "intent_role_text role_reduce = ''reduce''"

fun estimator_text :: "basis_estimator \<Rightarrow> string" where
  "estimator_text est_rolling_median = ''rolling_median''"
| "estimator_text est_halflife_ewma = ''halflife_ewma''"

fun smoother_text :: "event_smoother \<Rightarrow> string" where
  "smoother_text smooth_ema_alpha = ''ema_alpha''"
| "smoother_text smooth_halflife_ewma = ''halflife_ewma''"

fun restart_text :: "restart_policy \<Rightarrow> string" where
  "restart_text restart_fail_closed = ''fail_closed''"
| "restart_text restart_fail_open = ''fail_open''"

fun maker_tif_text :: "maker_tif \<Rightarrow> string" where
  "maker_tif_text mt_GTC = ''GTC''"
| "maker_tif_text mt_GTD = ''GTD''"

definition guard_dump :: "guard_fair_value \<Rightarrow> pyval" where
  "guard_dump g = VDict
     [(''fv'', VFloat (gv_fv g)), (''fv_source_ts'', VInt (gv_fv_source_ts g)), (''fv_recv_ts'', VInt (gv_fv_recv_ts g)),
      (''fv_source_epoch'', VInt (gv_fv_source_epoch g)), (''message_id'', opt_str (gv_message_id g)),
      (''proof_status'', VStr (proof_text (gv_proof_status g)))]"

definition resting_dump :: "resting_order_view \<Rightarrow> pyval" where
  "resting_dump v = VDict
     [(''client_order_id'', VStr (wv_client_order_id v)), (''side'', VStr (quote_leg_text (wv_side v))),
      (''price'', VFloat (wv_price v)), (''size'', VFloat (wv_size v))]"

definition inventory_dump :: "inventory_projection \<Rightarrow> pyval" where
  "inventory_dump i = VDict
     [(''net_position'', VFloat (iv_net_position i)), (''resting'', VList (map resting_dump (iv_resting i))),
      (''projection_as_of_ts'', VInt (iv_projection_as_of_ts i)), (''fresh'', VBool (iv_fresh i))]"

definition watermark_dump :: "guard_state_watermark \<Rightarrow> pyval" where
  "watermark_dump w = VDict [(''fv_source_epoch'', VInt (gw_fv_source_epoch w))]"

definition outcome_dump :: "outcome_accumulator \<Rightarrow> pyval" where
  "outcome_dump a = VDict [(''market_ref'', VStr (oq_market_ref a)), (''side'', VStr (oq_side a))]"

definition sample_dump :: "int \<times> pyfloat \<Rightarrow> pyval" where
  "sample_dump x = VList [VInt (fst x), VFloat (snd x)]"

definition zone_dump :: "pyfloat \<times> pyfloat \<Rightarrow> pyval" where
  "zone_dump z = VList [VFloat (fst z), VFloat (snd z)]"

definition observation_dump :: "strategy_observation \<Rightarrow> pyval" where
  "observation_dump ob = VDict
     [(''fixture_id'', VInt (ob_fixture_id ob)), (''market_ref'', VStr (ob_market_ref ob)),
      (''side'', VStr (ob_side ob)), (''token_id'', VStr (ob_token_id ob)),
      (''venue_market_ref'', VStr (ob_venue_market_ref ob)), (''tick_size'', VFloat (ob_tick_size ob)),
      (''observation_sequence'', VInt (ob_observation_sequence ob)),
      (''book_source_epoch'', VInt (ob_book_source_epoch ob)), (''bid'', opt_float (ob_bid ob)),
      (''ask'', opt_float (ob_ask ob)), (''bid_size'', opt_float (ob_bid_size ob)),
      (''ask_size'', opt_float (ob_ask_size ob)), (''book_status'', VStr (book_text (ob_book_status ob))),
      (''status_reason'', opt_str (ob_status_reason ob)), (''book_recv_ts'', VInt (ob_book_recv_ts ob)),
      (''level_count_in_band'', VInt (ob_level_count_in_band ob)),
      (''tick_regime_changed'', VBool (ob_tick_regime_changed ob)), (''phase'', VInt (ob_phase ob)),
      (''suspended'', VBool (ob_suspended ob)), (''match_state_recv_ts'', VInt (ob_match_state_recv_ts ob)),
      (''guard_fv'', opt_val guard_dump (ob_guard_fv ob)),
      (''market_status'', VStr (market_status_text (ob_market_status ob))),
      (''market_status_recv_ts'', opt_val VInt (ob_market_status_recv_ts ob)),
      (''market_status_epoch'', opt_val VInt (ob_market_status_epoch ob)),
      (''order_stream_ok'', VBool (ob_order_stream_ok ob)),
      (''projection_fresh'', VBool (ob_projection_fresh ob)),
      (''inventory'', inventory_dump (ob_inventory ob)), (''as_of_ts'', VInt (ob_as_of_ts ob))]"

definition state_dump :: "strategy_state \<Rightarrow> pyval" where
  "state_dump st = VDict
     [(''last_observation_sequence'', opt_val VInt (sx_last_observation_sequence st)),
      (''last_book_source_epoch'', opt_val VInt (sx_last_book_source_epoch st)),
      (''last_as_of_ts'', opt_val VInt (sx_last_as_of_ts st)),
      (''last_market_status_epoch'', opt_val VInt (sx_last_market_status_epoch st)),
      (''last_market_status_recv_ts'', opt_val VInt (sx_last_market_status_recv_ts st)),
      (''guard_watermark'', opt_val watermark_dump (sx_guard_watermark st)),
      (''last_phase'', opt_val VInt (sx_last_phase st)),
      (''last_suspended'', opt_val VBool (sx_last_suspended st)),
      (''last_book_in_gap'', opt_val VBool (sx_last_book_in_gap st)),
      (''outcomes'', VList (map outcome_dump (sx_outcomes st))),
      (''inventory_echo'', opt_val inventory_dump (sx_inventory_echo st)),
      (''quote_lineage'', VList (map resting_dump (sx_quote_lineage st))),
      (''smoother_mid'', opt_float (sx_smoother_mid st)),
      (''smoother_mid_ts'', opt_val VInt (sx_smoother_mid_ts st)),
      (''spread_ref_samples'', VList (map VFloat (sx_spread_ref_samples st))),
      (''depth_ref_samples'', VList (map VFloat (sx_depth_ref_samples st))),
      (''basis_samples'', VList (map sample_dump (sx_basis_samples st))),
      (''basis_ewma_value'', opt_float (sx_basis_ewma_value st)),
      (''basis_ewma_ts'', opt_val VInt (sx_basis_ewma_ts st)),
      (''basis_sample_count'', VInt (sx_basis_sample_count st)),
      (''event_cooldown_until_ts'', opt_val VInt (sx_event_cooldown_until_ts st))]"

definition strategy_config_dump :: "strategy_config \<Rightarrow> pyval" where
  "strategy_config_dump c = VDict
     [(''strategy_id'', VStr (sc_strategy_id c)), (''residual_band'', VFloat (sc_residual_band c)),
      (''extreme_multiple'', VFloat (sc_extreme_multiple c)),
      (''basis_estimator'', VStr (estimator_text (sc_basis_estimator c))),
      (''basis_window'', VInt (sc_basis_window c)), (''ewma_halflife_ms'', VInt (sc_ewma_halflife_ms c)),
      (''basis_min_samples'', VInt (sc_basis_min_samples c)),
      (''fv_freshness_ms'', VInt (sc_fv_freshness_ms c)), (''fv_source_lag_s'', VInt (sc_fv_source_lag_s c)),
      (''book_freshness_ms'', VInt (sc_book_freshness_ms c)),
      (''max_leg_skew_ms'', VInt (sc_max_leg_skew_ms c)), (''half_spread'', VFloat (sc_half_spread c)),
      (''boundary_zone'', zone_dump (sc_boundary_zone c)),
      (''two_sided_band'', zone_dump (sc_two_sided_band c)), (''min_top_depth'', VFloat (sc_min_top_depth c)),
      (''min_level_count'', VInt (sc_min_level_count c)),
      (''depth_collapse_ratio'', VFloat (sc_depth_collapse_ratio c)),
      (''ref_min_samples'', VInt (sc_ref_min_samples c)),
      (''book_state_dwell_before_quote_ms'', VInt (sc_book_state_dwell_before_quote_ms c)),
      (''mid_jump_threshold'', VFloat (sc_mid_jump_threshold c)),
      (''spread_blowout_multiple'', VFloat (sc_spread_blowout_multiple c)),
      (''inventory_soft_limit'', VFloat (sc_inventory_soft_limit c)),
      (''price_epsilon'', VFloat (sc_price_epsilon c)),
      (''event_smoother'', VStr (smoother_text (sc_event_smoother c))),
      (''event_smoother_param'', VFloat (sc_event_smoother_param c)),
      (''market_status_max_age_ms'', VInt (sc_market_status_max_age_ms c)),
      (''rolling_spread_window'', VInt (sc_rolling_spread_window c)),
      (''rolling_depth_window'', VInt (sc_rolling_depth_window c)),
      (''guard_enabled'', VBool (sc_guard_enabled c)),
      (''restart_policy'', VStr (restart_text (sc_restart_policy c))),
      (''tif'', VStr (maker_tif_text (sc_tif c))), (''anchor_mode'', VStr ''mid''),
      (''fee_bps'', VFloat (sc_fee_bps c))]"

definition observation_hash :: "codec \<Rightarrow> strategy_observation \<Rightarrow> string" where
  "observation_hash cd ob = sha256_canonical cd (observation_dump ob)"

definition state_hash :: "codec \<Rightarrow> strategy_state \<Rightarrow> string" where
  "state_hash cd st = sha256_canonical cd (state_dump st)"

definition strategy_config_hash :: "codec \<Rightarrow> strategy_config \<Rightarrow> string" where
  "strategy_config_hash cd c = sha256_canonical cd (strategy_config_dump c)"

definition decision_identity ::
  "codec \<Rightarrow> string \<Rightarrow> string \<Rightarrow> string \<Rightarrow> string \<Rightarrow> string \<Rightarrow> string \<Rightarrow> string" where
  "decision_identity cd strategy_id strategy_revision config_hash session_id obs_hash prior_state_hash =
     sha256_canonical cd (VDict
       [(''strategy_id'', VStr strategy_id), (''strategy_revision'', VStr strategy_revision),
        (''config_hash'', VStr config_hash), (''session_id'', VStr session_id),
        (''observation_hash'', VStr obs_hash), (''prior_state_hash'', VStr prior_state_hash)])"

definition leg_client_order_id :: "codec \<Rightarrow> string \<Rightarrow> string \<Rightarrow> string" where
  "leg_client_order_id cd decision leg_role =
     sha256_canonical cd (VDict [(''decision_id'', VStr decision), (''leg_role'', VStr leg_role)])"

definition strategy_revision :: string where
  "strategy_revision = ''r4b-v0''"

end
