(* ===== verification/Strategy_Core.thy ===== *)
theory Strategy_Core
  imports Strategy_Types
begin

text \<open>
  The numerical estimators (\<open>src/veridex/mm_strategy/basis.py\<close>) and the decision core (\<open>core.py\<close>) of the
  market-making strategy. The core is a pure function of an observation, the carried state and the
  configuration; what raises (a tick too small to divide by, an integer beyond the float range) is the left
  injection.

  \<open>half_power q\<close> is \<open>0.5 ** q\<close> of the platform's C library, the only operation here that IEEE 754 does
  not fix; it is a parameter.
\<close>

section \<open>Estimators (\<open>basis.py\<close>)\<close>

text \<open>\<open>xs[-w:]\<close>.\<close>

definition tail_window :: "int \<Rightarrow> 'a list \<Rightarrow> 'a list" where
  "tail_window w xs = (if w \<le> 0 then drop (nat (- w)) xs else drop (length xs - nat w) xs)"

text \<open>\<open>x / 2.0\<close>, which never raises.\<close>

definition fl_halve :: "pyfloat \<Rightarrow> pyfloat" where
  "fl_halve x = (case x of Fin a \<Rightarrow> fl_round (a / 2) | _ \<Rightarrow> x)"

text \<open>\<open>statistics.median\<close>; the samples of the core are never NaN.\<close>

definition rolling_median :: "pyfloat list \<Rightarrow> pyfloat result" where
  "rolling_median samples =
     (let data = sort_key fl_ord samples; n = length data in
      if n = 0 then Inl ValueError
      else if odd n then Inr (data ! (n div 2))
      else Inr (fl_halve (fl_add (data ! (n div 2 - 1)) (data ! (n div 2)))))"

definition halflife_ewma ::
  "(pyfloat \<Rightarrow> pyfloat result) \<Rightarrow> pyfloat \<Rightarrow> pyfloat \<Rightarrow> pyfloat \<Rightarrow> pyfloat \<Rightarrow> pyfloat result" where
  "halflife_ewma half_power prev value dt_ms halflife_ms =
     rbind (fl_div dt_ms halflife_ms) (\<lambda>q.
     rbind (half_power q) (\<lambda>decay.
       Inr (fl_add (fl_mul decay prev) (fl_mul (fl_sub fl_one decay) value))))"

fun ewma_fold ::
  "(pyfloat \<Rightarrow> pyfloat result) \<Rightarrow> strategy_config \<Rightarrow> int \<Rightarrow> pyfloat \<Rightarrow> (int \<times> pyfloat) list \<Rightarrow> pyfloat result" where
  "ewma_fold half_power c prev_ts acc [] = Inr acc"
| "ewma_fold half_power c prev_ts acc ((ts, gap) # samples) =
     rbind (float_of_int (ts - prev_ts)) (\<lambda>dt.
     rbind (float_of_int (sc_ewma_halflife_ms c)) (\<lambda>halflife.
     rbind (halflife_ewma half_power acc gap dt halflife) (\<lambda>acc'. ewma_fold half_power c ts acc' samples)))"

definition basis :: "(pyfloat \<Rightarrow> pyfloat result) \<Rightarrow> (int \<times> pyfloat) list \<Rightarrow> strategy_config \<Rightarrow> pyfloat result" where
  "basis half_power raw_gaps c =
     (case raw_gaps of
        [] \<Rightarrow> Inl ValueError
      | (ts, gap) # samples \<Rightarrow>
          if sc_basis_estimator c = est_rolling_median
          then rolling_median (map snd (tail_window (sc_basis_window c) raw_gaps))
          else ewma_fold half_power c ts gap samples)"

definition basis_from_state ::
  "(pyfloat \<Rightarrow> pyfloat result) \<Rightarrow> strategy_state \<Rightarrow> strategy_config \<Rightarrow> pyfloat result" where
  "basis_from_state half_power st c =
     (if sc_basis_estimator c = est_halflife_ewma then
        (case sx_basis_ewma_value st of None \<Rightarrow> Inl ValueError | Some v \<Rightarrow> Inr v)
      else basis half_power (sx_basis_samples st) c)"

definition gap_residual :: "pyfloat \<Rightarrow> pyfloat \<Rightarrow> pyfloat" where
  "gap_residual raw_gap b = fl_sub raw_gap b"

text \<open>\<open>math.floor\<close> and \<open>math.ceil\<close> of a float.\<close>

definition int_of_float :: "(rat \<Rightarrow> int) \<Rightarrow> pyfloat \<Rightarrow> int result" where
  "int_of_float f x = (case x of Fin a \<Rightarrow> Inr (f a) | NaN \<Rightarrow> Inl ValueError | _ \<Rightarrow> Inl OverflowError)"

definition to_tick :: "(rat \<Rightarrow> int) \<Rightarrow> pyfloat \<Rightarrow> pyfloat \<Rightarrow> pyfloat result" where
  "to_tick f price tick =
     (if \<not> isfinite tick \<or> fl_le tick fl_zero then Inl ValueError
      else
        rbind (fl_div price tick) (\<lambda>ratio.
        rbind (int_of_float f (py_round_dp 9 ratio)) (\<lambda>ticks.
        rbind (float_of_int ticks) (\<lambda>t. Inr (py_round_dp 12 (fl_mul t tick))))))"

definition floor_to_tick :: "pyfloat \<Rightarrow> pyfloat \<Rightarrow> pyfloat result" where
  "floor_to_tick price tick = to_tick floor price tick"

definition ceil_to_tick :: "pyfloat \<Rightarrow> pyfloat \<Rightarrow> pyfloat result" where
  "ceil_to_tick price tick = to_tick ceiling price tick"

definition event_smoother_update ::
  "(pyfloat \<Rightarrow> pyfloat result) \<Rightarrow> pyfloat \<Rightarrow> pyfloat \<Rightarrow> strategy_config \<Rightarrow> pyfloat \<Rightarrow> pyfloat result" where
  "event_smoother_update half_power prev value c dt_ms =
     (if sc_event_smoother c = smooth_ema_alpha then
        (let alpha = sc_event_smoother_param c in
         Inr (fl_add (fl_mul (fl_sub fl_one alpha) prev) (fl_mul alpha value)))
      else rbind (float_of_int (sc_ewma_halflife_ms c)) (\<lambda>h. halflife_ewma half_power prev value dt_ms h))"

definition rolling_spread_reference :: "pyfloat list \<Rightarrow> strategy_config \<Rightarrow> pyfloat result" where
  "rolling_spread_reference samples c =
     (if samples = [] then Inl ValueError else rolling_median (tail_window (sc_rolling_spread_window c) samples))"

definition rolling_depth_reference :: "pyfloat list \<Rightarrow> strategy_config \<Rightarrow> pyfloat result" where
  "rolling_depth_reference samples c =
     (if samples = [] then Inl ValueError else rolling_median (tail_window (sc_rolling_depth_window c) samples))"

definition reference_is_warm :: "nat \<Rightarrow> strategy_config \<Rightarrow> bool" where
  "reference_is_warm sample_count c \<longleftrightarrow> sc_ref_min_samples c \<le> int sample_count"

section \<open>Watermarks (\<open>core.py\<close>)\<close>

definition decision_of :: "decision_kind \<Rightarrow> strategy_reason list \<Rightarrow> strategy_decision" where
  "decision_of kind reasons =
     \<lparr>sn_decision_id = [], sn_kind = kind, sn_reason_codes = reasons, sn_intent_plan = [],
      sn_observation_hash = [], sn_config_hash = [], sn_prior_state_hash = [], sn_next_state_hash = [],
      sn_fv_message_id = None, sn_fv_proof_status = None\<rparr>"

definition status_is_stale :: "strategy_observation \<Rightarrow> strategy_config \<Rightarrow> bool" where
  "status_is_stale ob c =
     (case ob_market_status_recv_ts ob of
        None \<Rightarrow> False
      | Some ts \<Rightarrow> sc_market_status_max_age_ms c < ob_as_of_ts ob - ts)"

definition status_regressed :: "strategy_observation \<Rightarrow> strategy_state \<Rightarrow> bool" where
  "status_regressed ob st =
     (case (ob_market_status_epoch ob, ob_market_status_recv_ts ob) of
        (Some epoch, Some ts) \<Rightarrow>
          (case sx_last_market_status_epoch st of None \<Rightarrow> False | Some e \<Rightarrow> epoch < e)
          \<or> (case sx_last_market_status_recv_ts st of None \<Rightarrow> False | Some t \<Rightarrow> ts < t)
      | _ \<Rightarrow> False)"

definition effective_market_status ::
  "strategy_observation \<Rightarrow> strategy_state \<Rightarrow> strategy_config \<Rightarrow> market_status" where
  "effective_market_status ob st c =
     (if ob_market_status ob = MS_UNKNOWN then MS_UNKNOWN
      else if status_is_stale ob c \<or> status_regressed ob st then MS_UNKNOWN
      else ob_market_status ob)"

definition status_watermark ::
  "strategy_observation \<Rightarrow> strategy_state \<Rightarrow> strategy_config \<Rightarrow> int option \<times> int option" where
  "status_watermark ob st c =
     (if effective_market_status ob st c = MS_UNKNOWN
      then (sx_last_market_status_epoch st, sx_last_market_status_recv_ts st)
      else (ob_market_status_epoch ob, ob_market_status_recv_ts ob))"

definition guard_watermark ::
  "strategy_observation \<Rightarrow> strategy_state \<Rightarrow> strategy_config \<Rightarrow> guard_state_watermark option" where
  "guard_watermark ob st c =
     (if \<not> sc_guard_enabled c then None
      else case ob_guard_fv ob of
        Some g \<Rightarrow> Some \<lparr>gw_fv_source_epoch = gv_fv_source_epoch g\<rparr>
      | None \<Rightarrow> sx_guard_watermark st)"

definition clear_basis :: "strategy_state \<Rightarrow> strategy_state" where
  "clear_basis st = st\<lparr>sx_basis_samples := [], sx_basis_ewma_value := None, sx_basis_ewma_ts := None,
     sx_basis_sample_count := 0\<rparr>"

definition clear_venue :: "strategy_state \<Rightarrow> strategy_state" where
  "clear_venue st = st\<lparr>sx_smoother_mid := None, sx_smoother_mid_ts := None, sx_spread_ref_samples := [],
     sx_depth_ref_samples := []\<rparr>"

definition in_gap :: "strategy_observation \<Rightarrow> bool" where
  "in_gap ob \<longleftrightarrow> ob_book_status ob \<in> {bk_gap, bk_excluded}"

definition strategy_accept ::
  "strategy_observation \<Rightarrow> strategy_state \<Rightarrow> strategy_config \<Rightarrow> bool \<Rightarrow> bool \<Rightarrow> strategy_state" where
  "strategy_accept ob st c full_reset basis_reset =
     (let (status_epoch, status_recv_ts) = status_watermark ob st c;
          st' = st\<lparr>sx_last_observation_sequence := Some (ob_observation_sequence ob),
            sx_last_book_source_epoch := Some (ob_book_source_epoch ob),
            sx_last_as_of_ts := Some (ob_as_of_ts ob), sx_last_market_status_epoch := status_epoch,
            sx_last_market_status_recv_ts := status_recv_ts, sx_guard_watermark := guard_watermark ob st c,
            sx_last_phase := Some (ob_phase ob), sx_last_suspended := Some (ob_suspended ob),
            sx_last_book_in_gap := Some (in_gap ob)\<rparr>
      in if full_reset then clear_venue (clear_basis st') else if basis_reset then clear_basis st' else st')"

definition guard_epoch_delta :: "strategy_observation \<Rightarrow> strategy_state \<Rightarrow> strategy_config \<Rightarrow> int" where
  "guard_epoch_delta ob st c =
     (case (ob_guard_fv ob, sx_guard_watermark st) of
        (Some g, Some w) \<Rightarrow>
          if \<not> sc_guard_enabled c then 0
          else if gv_fv_source_epoch g < gw_fv_source_epoch w then - 1
          else if gw_fv_source_epoch w < gv_fv_source_epoch g then 1
          else 0
      | _ \<Rightarrow> 0)"

section \<open>Rows\<close>

datatype strategy_row = row_R | row_E | row_D | row_C | row_F | row_W | row_H

definition venue_mid :: "strategy_observation \<Rightarrow> pyfloat option" where
  "venue_mid ob = (case (ob_bid ob, ob_ask ob) of
     (Some b, Some a) \<Rightarrow> Some (fl_halve (fl_add b a)) | _ \<Rightarrow> None)"

definition venue_spread :: "strategy_observation \<Rightarrow> pyfloat option" where
  "venue_spread ob = (case (ob_bid ob, ob_ask ob) of (Some b, Some a) \<Rightarrow> Some (fl_sub a b) | _ \<Rightarrow> None)"

definition top_depth :: "strategy_observation \<Rightarrow> pyfloat option" where
  "top_depth ob = (case (ob_bid_size ob, ob_ask_size ob) of (Some b, Some a) \<Rightarrow> Some (py_min b a) | _ \<Rightarrow> None)"

definition book_is_stale :: "strategy_observation \<Rightarrow> strategy_config \<Rightarrow> bool" where
  "book_is_stale ob c \<longleftrightarrow> sc_book_freshness_ms c < ob_as_of_ts ob - ob_book_recv_ts ob"

definition leg_is_skewed :: "strategy_observation \<Rightarrow> strategy_config \<Rightarrow> bool" where
  "leg_is_skewed ob c \<longleftrightarrow> sc_max_leg_skew_ms c < \<bar>ob_book_recv_ts ob - ob_match_state_recv_ts ob\<bar>"

definition cooldown_active :: "strategy_observation \<Rightarrow> strategy_state \<Rightarrow> bool" where
  "cooldown_active ob st =
     (case sx_event_cooldown_until_ts st of None \<Rightarrow> False | Some deadline \<Rightarrow> ob_as_of_ts ob < deadline)"

definition references_warm :: "strategy_state \<Rightarrow> strategy_config \<Rightarrow> bool" where
  "references_warm st c \<longleftrightarrow> sx_smoother_mid st \<noteq> None
     \<and> reference_is_warm (length (sx_spread_ref_samples st)) c
     \<and> reference_is_warm (length (sx_depth_ref_samples st)) c"

definition phase_transition :: "strategy_observation \<Rightarrow> strategy_state \<Rightarrow> bool" where
  "phase_transition ob st = (case sx_last_phase st of None \<Rightarrow> False | Some p \<Rightarrow> ob_phase ob \<noteq> p)"

definition suspension_reopen :: "strategy_observation \<Rightarrow> strategy_state \<Rightarrow> bool" where
  "suspension_reopen ob st \<longleftrightarrow> sx_last_suspended st = Some True \<and> \<not> ob_suspended ob"

definition gap_episode_end :: "strategy_observation \<Rightarrow> strategy_state \<Rightarrow> bool" where
  "gap_episode_end ob st \<longleftrightarrow> sx_last_book_in_gap st = Some True \<and> \<not> in_gap ob"

definition reset_reason :: "strategy_observation \<Rightarrow> strategy_state \<Rightarrow> strategy_reason" where
  "reset_reason ob st =
     (if ob_tick_regime_changed ob then sr_tick_regime_changed
      else if phase_transition ob st then sr_phase_transition
      else sr_event_ref_warmup)"

definition venue_event_reason ::
  "strategy_observation \<Rightarrow> strategy_state \<Rightarrow> strategy_config \<Rightarrow> strategy_reason option result" where
  "venue_event_reason ob st c =
     rbind (case top_depth ob of
        None \<Rightarrow> Inr False
      | Some depth \<Rightarrow>
          rbind (rolling_depth_reference (sx_depth_ref_samples st) c) (\<lambda>ref.
            Inr (fl_lt depth (sc_min_top_depth c) \<or> fl_lt depth (fl_mul (sc_depth_collapse_ratio c) ref)))) (\<lambda>vanished.
     if vanished then Inr (Some sr_book_thin)
     else
     rbind (case venue_spread ob of
        None \<Rightarrow> Inr False
      | Some spread \<Rightarrow>
          rbind (rolling_spread_reference (sx_spread_ref_samples st) c) (\<lambda>ref.
            Inr (fl_lt (fl_mul (sc_spread_blowout_multiple c) ref) spread))) (\<lambda>blown.
     if blown then Inr (Some sr_book_thin)
     else
       (let jumped = (case (venue_mid ob, sx_smoother_mid st) of
              (Some mid, Some smoothed) \<Rightarrow> fl_lt (sc_mid_jump_threshold c) (fl_abs (fl_sub mid smoothed))
            | _ \<Rightarrow> False) in
        Inr (if jumped then Some sr_book_thin
             else if ob_level_count_in_band ob < sc_min_level_count c then Some sr_level_count_low
             else None))))"

definition classify_row :: "strategy_observation \<Rightarrow> strategy_state \<Rightarrow> strategy_config \<Rightarrow> strategy_row result" where
  "classify_row ob st c =
     (if ob_tick_regime_changed ob \<or> phase_transition ob st \<or> suspension_reopen ob st \<or> gap_episode_end ob st
      then Inr row_R
      else if in_gap ob then Inr row_E
      else
        rbind (if references_warm st c then venue_event_reason ob st c else Inr None) (\<lambda>event.
        Inr (if event \<noteq> None then row_E
             else if book_is_stale ob c \<or> leg_is_skewed ob c then row_D
             else if cooldown_active ob st then row_C
             else if 0 < guard_epoch_delta ob st c then row_F
             else if \<not> references_warm st c then row_W
             else row_H)))"

definition status_stream_reason ::
  "strategy_observation \<Rightarrow> strategy_state \<Rightarrow> strategy_config \<Rightarrow> strategy_reason option" where
  "status_stream_reason ob st c =
     (let effective = effective_market_status ob st c in
      if effective = MS_UNKNOWN then Some sr_market_status_unknown
      else if effective = MS_HALTED then Some sr_market_halted
      else if effective = MS_CLOSED then Some sr_market_closed
      else if \<not> ob_order_stream_ok ob then Some sr_stream_degraded
      else if \<not> ob_projection_fresh ob then Some sr_projection_stale
      else None)"

definition token_mapping_reason :: "strategy_observation \<Rightarrow> strategy_reason option" where
  "token_mapping_reason ob = (if py_strip (ob_token_id ob) = [] then Some sr_token_mapping_missing else None)"

definition suspended_block_reason :: "strategy_observation \<Rightarrow> strategy_reason option" where
  "suspended_block_reason ob = (if ob_suspended ob then Some sr_txline_suspended else None)"

section \<open>Training\<close>

definition smoother_step ::
  "(pyfloat \<Rightarrow> pyfloat result) \<Rightarrow> strategy_observation \<Rightarrow> strategy_state \<Rightarrow> strategy_config \<Rightarrow> pyfloat \<Rightarrow> pyfloat result" where
  "smoother_step half_power ob st c mid =
     (case sx_smoother_mid st of
        None \<Rightarrow> Inr mid
      | Some prev \<Rightarrow>
          (let prior_ts = (case sx_smoother_mid_ts st of Some ts \<Rightarrow> ts | None \<Rightarrow> ob_as_of_ts ob) in
           rbind (float_of_int (ob_as_of_ts ob - prior_ts)) (\<lambda>dt. event_smoother_update half_power prev mid c dt)))"

definition admit_venue_updates ::
  "(pyfloat \<Rightarrow> pyfloat result) \<Rightarrow> strategy_observation \<Rightarrow> strategy_state \<Rightarrow> strategy_config \<Rightarrow> strategy_state result" where
  "admit_venue_updates half_power ob st c =
     rbind (case venue_mid ob of
        None \<Rightarrow> Inr st
      | Some mid \<Rightarrow> rbind (smoother_step half_power ob st c mid) (\<lambda>m.
          Inr (st\<lparr>sx_smoother_mid := Some m, sx_smoother_mid_ts := Some (ob_as_of_ts ob)\<rparr>))) (\<lambda>st1.
       (let st2 = (case venue_spread ob of
              None \<Rightarrow> st1
            | Some spread \<Rightarrow> st1\<lparr>sx_spread_ref_samples :=
                tail_window (sc_rolling_spread_window c) (sx_spread_ref_samples st @ [spread])\<rparr>) in
        Inr (case top_depth ob of
            None \<Rightarrow> st2
          | Some depth \<Rightarrow> st2\<lparr>sx_depth_ref_samples :=
              tail_window (sc_rolling_depth_window c) (sx_depth_ref_samples st @ [depth])\<rparr>)))"

definition fv_is_stale :: "guard_fair_value \<Rightarrow> strategy_observation \<Rightarrow> strategy_config \<Rightarrow> bool result" where
  "fv_is_stale g ob c =
     (let transport_stale = sc_fv_freshness_ms c < ob_as_of_ts ob - gv_fv_recv_ts g in
      rbind (float_of_int (gv_fv_recv_ts g)) (\<lambda>recv.
      rbind (fl_div recv (Fin 1000)) (\<lambda>recv_s.
      rbind (float_of_int (gv_fv_source_ts g)) (\<lambda>source.
        Inr (transport_stale \<or> fl_lt (Fin (of_int (sc_fv_source_lag_s c))) (fl_sub recv_s source))))))"

definition guard_fv_block_reason ::
  "strategy_observation \<Rightarrow> strategy_config \<Rightarrow> strategy_reason option result" where
  "guard_fv_block_reason ob c =
     (case ob_guard_fv ob of
        None \<Rightarrow> Inr (Some sr_txline_missing)
      | Some g \<Rightarrow> rbind (fv_is_stale g ob c) (\<lambda>stale.
          Inr (if stale then Some sr_txline_stale
               else if ob_suspended ob then Some sr_txline_suspended
               else None)))"

definition fold_basis ::
  "(pyfloat \<Rightarrow> pyfloat result) \<Rightarrow> strategy_observation \<Rightarrow> strategy_state \<Rightarrow> strategy_config \<Rightarrow> pyfloat
   \<Rightarrow> strategy_state \<Rightarrow> strategy_state result" where
  "fold_basis half_power ob base c raw_gap st =
     (let count = sx_basis_sample_count base + 1 in
      if sc_basis_estimator c = est_halflife_ewma then
        rbind (case (sx_basis_ewma_value base, sx_basis_ewma_ts base) of
            (Some prev, Some prev_ts) \<Rightarrow>
              rbind (float_of_int (ob_as_of_ts ob - prev_ts)) (\<lambda>dt.
              rbind (float_of_int (sc_ewma_halflife_ms c)) (\<lambda>h. halflife_ewma half_power prev raw_gap dt h))
          | _ \<Rightarrow> Inr raw_gap) (\<lambda>v.
          Inr (st\<lparr>sx_basis_ewma_value := Some v, sx_basis_ewma_ts := Some (ob_as_of_ts ob),
                  sx_basis_sample_count := count\<rparr>))
      else Inr (st\<lparr>sx_basis_samples :=
                     tail_window (sc_basis_window c) (sx_basis_samples base @ [(ob_as_of_ts ob, raw_gap)]),
                   sx_basis_sample_count := count\<rparr>))"

text \<open>The updates are read off \<open>base\<close> and laid over \<open>st\<close>, which carries the venue updates.\<close>

definition admit_basis_updates ::
  "(pyfloat \<Rightarrow> pyfloat result) \<Rightarrow> strategy_observation \<Rightarrow> strategy_state \<Rightarrow> strategy_config \<Rightarrow> strategy_state
   \<Rightarrow> strategy_state result" where
  "admit_basis_updates half_power ob base c st =
     (case (sc_guard_enabled c, ob_guard_fv ob) of
        (True, Some g) \<Rightarrow>
          rbind (guard_fv_block_reason ob c) (\<lambda>block.
            if block \<noteq> None then Inr st
            else case venue_mid ob of
              None \<Rightarrow> Inr st
            | Some mid \<Rightarrow> fold_basis half_power ob base c (fl_sub (gv_fv g) mid) st)
      | _ \<Rightarrow> Inr st)"

section \<open>Rows without a quote\<close>

definition cooldown_deadline :: "strategy_observation \<Rightarrow> strategy_config \<Rightarrow> int" where
  "cooldown_deadline ob c = ob_as_of_ts ob + sc_book_state_dwell_before_quote_ms c"

type_synonym decided_state = "strategy_decision \<times> strategy_state"

definition apply_reset ::
  "strategy_observation \<Rightarrow> strategy_state \<Rightarrow> strategy_config \<Rightarrow> strategy_reason \<Rightarrow> decided_state" where
  "apply_reset ob base c reason =
     (let reseed_mid = (if ob_book_status ob = bk_ok then venue_mid ob else None);
          reseed_ts = (if reseed_mid \<noteq> None then Some (ob_as_of_ts ob) else None)
      in (decision_of NO_QUOTE [reason],
          base\<lparr>sx_smoother_mid := reseed_mid, sx_smoother_mid_ts := reseed_ts, sx_spread_ref_samples := [],
            sx_depth_ref_samples := [], sx_basis_samples := [], sx_basis_ewma_value := None,
            sx_basis_ewma_ts := None, sx_basis_sample_count := 0,
            sx_event_cooldown_until_ts := Some (cooldown_deadline ob c)\<rparr>))"

definition apply_event ::
  "strategy_observation \<Rightarrow> strategy_state \<Rightarrow> strategy_config \<Rightarrow> decided_state result" where
  "apply_event ob base c =
     rbind (if ob_book_status ob = bk_gap then Inr sr_book_gap
            else if ob_book_status ob = bk_excluded then Inr sr_book_excluded
            else rbind (venue_event_reason ob base c) (\<lambda>r. Inr (case r of Some reason \<Rightarrow> reason | None \<Rightarrow> sr_book_thin)))
       (\<lambda>reason. Inr (decision_of NO_QUOTE [reason], base\<lparr>sx_event_cooldown_until_ts := Some (cooldown_deadline ob c)\<rparr>))"

definition apply_data_degraded :: "strategy_observation \<Rightarrow> strategy_state \<Rightarrow> strategy_config \<Rightarrow> decided_state" where
  "apply_data_degraded ob base c =
     (decision_of NO_QUOTE (flag (book_is_stale ob c) sr_book_stale @ flag (leg_is_skewed ob c) sr_leg_skew), base)"

definition apply_cooldown :: "strategy_state \<Rightarrow> decided_state" where
  "apply_cooldown base = (decision_of NO_QUOTE [sr_event_cooldown], base)"

section \<open>The quote\<close>

definition venue_anchor :: "strategy_observation \<Rightarrow> strategy_config \<Rightarrow> pyfloat option" where
  "venue_anchor ob c =
     (if ob_book_status ob \<noteq> bk_ok then None
      else case (venue_mid ob, top_depth ob) of
        (Some mid, Some depth) \<Rightarrow>
          if fl_lt depth (sc_min_top_depth c) then None
          else if ob_level_count_in_band ob < sc_min_level_count c then None
          else Some mid
      | _ \<Rightarrow> None)"

definition no_anchor_reason :: "strategy_observation \<Rightarrow> strategy_config \<Rightarrow> strategy_reason" where
  "no_anchor_reason ob c =
     (if ob_book_status ob \<noteq> bk_ok \<or> venue_mid ob = None
         \<or> (case top_depth ob of None \<Rightarrow> True | Some depth \<Rightarrow> fl_lt depth (sc_min_top_depth c))
      then sr_book_thin else sr_level_count_low)"

definition basis_is_warm :: "strategy_state \<Rightarrow> strategy_config \<Rightarrow> bool" where
  "basis_is_warm st c \<longleftrightarrow> sc_basis_min_samples c \<le> sx_basis_sample_count st"

definition reducing_leg :: "pyfloat \<Rightarrow> quote_leg" where
  "reducing_leg net_position = (if fl_lt fl_zero net_position then leg_ask else leg_bid)"

definition guard_residual ::
  "(pyfloat \<Rightarrow> pyfloat result) \<Rightarrow> strategy_observation \<Rightarrow> strategy_state \<Rightarrow> strategy_config \<Rightarrow> pyfloat
   \<Rightarrow> pyfloat option result" where
  "guard_residual half_power ob base c anchor =
     (if \<not> sc_guard_enabled c then Inr None
      else rbind (guard_fv_block_reason ob c) (\<lambda>block.
        if block \<noteq> None then Inr None
        else if \<not> basis_is_warm base c then Inr None
        else case ob_guard_fv ob of
          None \<Rightarrow> Inr None
        | Some g \<Rightarrow> rbind (basis_from_state half_power base c) (\<lambda>b.
            Inr (Some (fl_sub (fl_sub (gv_fv g) anchor) b)))))"

definition residual_side :: "pyfloat \<Rightarrow> strategy_config \<Rightarrow> quote_leg option" where
  "residual_side res c =
     (if fl_lt (sc_residual_band c) res then Some leg_ask
      else if fl_lt res (fl_neg (sc_residual_band c)) then Some leg_bid
      else None)"

definition toxic_leg ::
  "(pyfloat \<Rightarrow> pyfloat result) \<Rightarrow> strategy_observation \<Rightarrow> strategy_state \<Rightarrow> strategy_config \<Rightarrow> pyfloat
   \<Rightarrow> quote_leg option result" where
  "toxic_leg half_power ob base c anchor =
     rbind (guard_residual half_power ob base c anchor) (\<lambda>r.
       Inr (case r of None \<Rightarrow> None | Some res \<Rightarrow> residual_side res c))"

definition bid_leg_price :: "pyfloat \<Rightarrow> pyfloat \<Rightarrow> pyfloat \<Rightarrow> strategy_config \<Rightarrow> pyfloat result" where
  "bid_leg_price anchor best_bid tick c = floor_to_tick (py_min (fl_sub anchor (sc_half_spread c)) best_bid) tick"

definition ask_leg_price :: "pyfloat \<Rightarrow> pyfloat \<Rightarrow> pyfloat \<Rightarrow> strategy_config \<Rightarrow> pyfloat result" where
  "ask_leg_price anchor best_ask tick c = ceil_to_tick (py_max (fl_add anchor (sc_half_spread c)) best_ask) tick"

definition on_tick :: "pyfloat \<Rightarrow> pyfloat \<Rightarrow> bool result" where
  "on_tick price tick =
     rbind (fl_div price tick) (\<lambda>ratio.
     rbind (py_round_int ratio) (\<lambda>n.
     rbind (float_of_int n) (\<lambda>f. Inr (fl_le (fl_abs (fl_sub ratio f)) (fl_round (1 / 1000000000))))))"

text \<open>The grid is looked at only for a price inside the interval and the zone.\<close>

definition leg_in_zone :: "pyfloat \<Rightarrow> pyfloat \<Rightarrow> strategy_config \<Rightarrow> bool result" where
  "leg_in_zone price tick c =
     (let (boundary_low, boundary_high) = sc_boundary_zone c in
      if fl_lt fl_zero price \<and> fl_lt price fl_one \<and> fl_le boundary_low price \<and> fl_le price boundary_high
      then on_tick price tick else Inr False)"

fun role_of :: "quote_leg \<Rightarrow> intent_role" where
  "role_of leg_bid = role_bid"
| "role_of leg_ask = role_ask"

definition place_leg :: "quote_leg \<Rightarrow> pyfloat \<Rightarrow> neutral_intent result" where
  "place_leg leg price = mk_neutral_intent
     \<lparr>ni_kind = nk_place_quote, ni_leg_role = Some (role_of leg), ni_price = Some price, ni_post_only = True,
      ni_client_order_id = None, ni_replaces_client_order_id = None\<rparr>"

definition leg_price ::
  "strategy_observation \<Rightarrow> strategy_config \<Rightarrow> pyfloat \<Rightarrow> pyfloat \<Rightarrow> pyfloat \<Rightarrow> quote_leg \<Rightarrow> pyfloat result" where
  "leg_price ob c anchor best_bid best_ask leg =
     (if leg = leg_bid then bid_leg_price anchor best_bid (ob_tick_size ob) c
      else ask_leg_price anchor best_ask (ob_tick_size ob) c)"

text \<open>One leg, or nothing when it falls outside the zone.\<close>

definition single_leg_quote ::
  "strategy_observation \<Rightarrow> strategy_config \<Rightarrow> pyfloat \<Rightarrow> quote_leg \<Rightarrow> decision_kind \<Rightarrow> strategy_reason
   \<Rightarrow> strategy_decision result" where
  "single_leg_quote ob c anchor leg kind reason =
     (case (ob_bid ob, ob_ask ob) of
        (Some best_bid, Some best_ask) \<Rightarrow>
          rbind (leg_price ob c anchor best_bid best_ask leg) (\<lambda>price.
          rbind (leg_in_zone price (ob_tick_size ob) c) (\<lambda>inside.
            if \<not> inside then Inr (decision_of NO_QUOTE [sr_leg_out_of_zone])
            else rbind (place_leg leg price) (\<lambda>intent. mk_strategy_decision kind [reason] [intent])))
      | _ \<Rightarrow> Inr (decision_of NO_QUOTE [no_anchor_reason ob c]))"

definition inventory_reduce ::
  "(pyfloat \<Rightarrow> pyfloat result) \<Rightarrow> strategy_observation \<Rightarrow> strategy_state \<Rightarrow> strategy_config \<Rightarrow> pyfloat \<Rightarrow> pyfloat
   \<Rightarrow> strategy_decision result" where
  "inventory_reduce half_power ob base c anchor net_position =
     (let reducing = reducing_leg net_position in
      rbind (toxic_leg half_power ob base c anchor) (\<lambda>toxic.
        if toxic = Some reducing then Inr (decision_of NO_QUOTE [sr_reduce_conflict])
        else single_leg_quote ob c anchor reducing ONE_SIDED_REDUCE sr_inventory_reduce))"

definition leg_if_inside ::
  "quote_leg \<Rightarrow> pyfloat \<Rightarrow> pyfloat \<Rightarrow> strategy_config \<Rightarrow> neutral_intent list result" where
  "leg_if_inside leg price tick c =
     rbind (leg_in_zone price tick c) (\<lambda>inside.
       if inside then rbind (place_leg leg price) (\<lambda>i. Inr [i]) else Inr [])"

definition two_sided_quote ::
  "strategy_observation \<Rightarrow> strategy_config \<Rightarrow> pyfloat \<Rightarrow> strategy_decision result" where
  "two_sided_quote ob c anchor =
     (case (ob_bid ob, ob_ask ob) of
        (Some best_bid, Some best_ask) \<Rightarrow>
          rbind (bid_leg_price anchor best_bid (ob_tick_size ob) c) (\<lambda>bid_price.
          rbind (ask_leg_price anchor best_ask (ob_tick_size ob) c) (\<lambda>ask_price.
          rbind (leg_if_inside leg_bid bid_price (ob_tick_size ob) c) (\<lambda>bids.
          rbind (leg_if_inside leg_ask ask_price (ob_tick_size ob) c) (\<lambda>asks.
            (let legs = bids @ asks in
             if length legs = 2 then mk_strategy_decision QUOTE_TWO_SIDED [] legs
             else if length legs = 1 then mk_strategy_decision QUOTE_ONE_SIDED [sr_leg_out_of_zone] legs
             else Inr (decision_of NO_QUOTE [sr_leg_out_of_zone]))))))
      | _ \<Rightarrow> Inr (decision_of NO_QUOTE [no_anchor_reason ob c]))"

definition residual_pull_quote ::
  "strategy_observation \<Rightarrow> strategy_config \<Rightarrow> pyfloat \<Rightarrow> quote_leg \<Rightarrow> strategy_decision result" where
  "residual_pull_quote ob c anchor toxic =
     (if toxic = leg_ask then single_leg_quote ob c anchor leg_bid QUOTE_ONE_SIDED sr_residual_pull_ask
      else single_leg_quote ob c anchor leg_ask QUOTE_ONE_SIDED sr_residual_pull_bid)"

text \<open>The guard block: a decision, or \<open>None\<close> where the quote goes on.\<close>

definition guard_disposition ::
  "(pyfloat \<Rightarrow> pyfloat result) \<Rightarrow> strategy_observation \<Rightarrow> strategy_state \<Rightarrow> strategy_config \<Rightarrow> pyfloat
   \<Rightarrow> strategy_decision option result" where
  "guard_disposition half_power ob base c anchor =
     rbind (guard_fv_block_reason ob c) (\<lambda>fv_block.
       case fv_block of
         Some reason \<Rightarrow> Inr (Some (decision_of NO_QUOTE [reason]))
       | None \<Rightarrow>
           rbind (case venue_spread ob of
               Some spread \<Rightarrow>
                 if ob_phase ob = 0 then rbind (basis_from_state half_power base c) (\<lambda>b. Inr (fl_le spread (fl_abs b)))
                 else Inr False
             | None \<Rightarrow> Inr False) (\<lambda>exceeds.
           if exceeds then Inr (Some (decision_of NO_QUOTE [sr_prematch_basis_exceeds_spread]))
           else
             rbind (guard_residual half_power ob base c anchor) (\<lambda>r.
               case r of
                 None \<Rightarrow> Inr None
               | Some res \<Rightarrow>
                   if fl_le (fl_mul (sc_extreme_multiple c) (sc_residual_band c)) (fl_abs res)
                   then Inr (Some (decision_of NO_QUOTE [sr_residual_extreme]))
                   else case residual_side res c of
                     None \<Rightarrow> Inr None
                   | Some side \<Rightarrow> rbind (residual_pull_quote ob c anchor side) (\<lambda>d. Inr (Some d)))))"

definition outside :: "pyfloat \<times> pyfloat \<Rightarrow> pyfloat \<Rightarrow> bool" where
  "outside zone x \<longleftrightarrow> \<not> (fl_le (fst zone) x \<and> fl_le x (snd zone))"

definition quote_disposition ::
  "(pyfloat \<Rightarrow> pyfloat result) \<Rightarrow> strategy_observation \<Rightarrow> strategy_state \<Rightarrow> strategy_config
   \<Rightarrow> strategy_decision result" where
  "quote_disposition half_power ob base c =
     (case venue_anchor ob c of
        None \<Rightarrow> Inr (decision_of NO_QUOTE [no_anchor_reason ob c])
      | Some anchor \<Rightarrow>
          (let net_position = iv_net_position (ob_inventory ob) in
           if outside (sc_boundary_zone c) anchor then Inr (decision_of NO_QUOTE [sr_boundary_zone])
           else if fl_le (sc_inventory_soft_limit c) (fl_abs net_position)
           then inventory_reduce half_power ob base c anchor net_position
           else if outside (sc_two_sided_band c) anchor then
             (if net_position \<noteq> fl_zero then inventory_reduce half_power ob base c anchor net_position
              else Inr (decision_of NO_QUOTE [sr_two_sided_zone_exit]))
           else
             rbind (if sc_guard_enabled c \<and> basis_is_warm base c then guard_disposition half_power ob base c anchor
                    else Inr None) (\<lambda>guarded.
               case guarded of Some d \<Rightarrow> Inr d | None \<Rightarrow> two_sided_quote ob c anchor)))"

text \<open>The resting orders left after taking the first one that matches a leg.\<close>

fun take_match :: "strategy_config \<Rightarrow> intent_role option \<Rightarrow> pyfloat \<Rightarrow> resting_order_view list \<Rightarrow> resting_order_view list option" where
  "take_match c role price [] = None"
| "take_match c role price (v # vs) =
     (if role = Some (role_of (wv_side v)) \<and> fl_le (fl_abs (fl_sub price (wv_price v))) (sc_price_epsilon c) then Some vs
      else map_option (\<lambda>rest. v # rest) (take_match c role price vs))"

fun all_matched :: "strategy_config \<Rightarrow> neutral_intent list \<Rightarrow> resting_order_view list \<Rightarrow> bool" where
  "all_matched c [] unmatched = True"
| "all_matched c (leg # legs) unmatched =
     (case ni_price leg of
        None \<Rightarrow> False
      | Some price \<Rightarrow>
          (case take_match c (ni_leg_role leg) price unmatched of
             None \<Rightarrow> False
           | Some rest \<Rightarrow> all_matched c legs rest))"

definition target_is_unchanged :: "strategy_decision \<Rightarrow> strategy_observation \<Rightarrow> strategy_config \<Rightarrow> bool" where
  "target_is_unchanged d ob c =
     (let desired = sn_intent_plan d; resting = iv_resting (ob_inventory ob) in
      if desired = [] then False
      else if length desired \<noteq> length resting then False
      else all_matched c desired resting)"

definition quote_blocker :: "strategy_observation \<Rightarrow> strategy_state \<Rightarrow> strategy_config \<Rightarrow> strategy_reason option" where
  "quote_blocker ob base c =
     (case token_mapping_reason ob of
        Some r \<Rightarrow> Some r
      | None \<Rightarrow> (case status_stream_reason ob base c of
          Some r \<Rightarrow> Some r
        | None \<Rightarrow> suspended_block_reason ob))"

definition apply_healthy ::
  "(pyfloat \<Rightarrow> pyfloat result) \<Rightarrow> strategy_observation \<Rightarrow> strategy_state \<Rightarrow> strategy_config \<Rightarrow> strategy_row
   \<Rightarrow> decided_state result" where
  "apply_healthy half_power ob base c row =
     rbind (admit_venue_updates half_power ob base c) (\<lambda>st1.
     rbind (admit_basis_updates half_power ob base c st1) (\<lambda>st2.
       (let next_state = st2\<lparr>sx_event_cooldown_until_ts := None\<rparr> in
        if row = row_W \<or> row = row_F \<and> \<not> references_warm base c
        then Inr (decision_of NO_QUOTE [sr_event_ref_warmup], next_state)
        else case quote_blocker ob base c of
          Some reason \<Rightarrow> Inr (decision_of NO_QUOTE [reason], next_state)
        | None \<Rightarrow>
            rbind (quote_disposition half_power ob base c) (\<lambda>disposition.
              if target_is_unchanged disposition ob c then Inr (decision_of HOLD [sr_hold_unchanged], next_state)
              else Inr (disposition, next_state)))))"

section \<open>The decision\<close>

definition cancel_exposure_plan :: "neutral_intent list" where
  "cancel_exposure_plan =
     map (\<lambda>kind. \<lparr>ni_kind = kind, ni_leg_role = None, ni_price = None, ni_post_only = True,
       ni_client_order_id = None, ni_replaces_client_order_id = None\<rparr>) [nk_cancel_all_orders, nk_abstain]"

definition funnel_cancel_on_exposure :: "strategy_decision \<Rightarrow> strategy_observation \<Rightarrow> strategy_decision" where
  "funnel_cancel_on_exposure d ob =
     (if sn_kind d \<noteq> NO_QUOTE \<or> iv_resting (ob_inventory ob) = [] then d
      else d\<lparr>sn_reason_codes := sn_reason_codes d @ [sr_cancel_exposure_first], sn_intent_plan := cancel_exposure_plan\<rparr>)"

definition stamp_leg :: "codec \<Rightarrow> string \<Rightarrow> neutral_intent \<Rightarrow> neutral_intent" where
  "stamp_leg cd decision leg =
     (case ni_leg_role leg of
        None \<Rightarrow> leg
      | Some role \<Rightarrow> leg\<lparr>ni_client_order_id := Some (leg_client_order_id cd decision (intent_role_text role))\<rparr>)"

definition stamp_identity ::
  "codec \<Rightarrow> strategy_decision \<Rightarrow> strategy_observation \<Rightarrow> strategy_state \<Rightarrow> strategy_state \<Rightarrow> strategy_config \<Rightarrow> string
   \<Rightarrow> strategy_decision" where
  "stamp_identity cd d ob prior next c session_id =
     (let oh = observation_hash cd ob; ch = strategy_config_hash cd c; ph = state_hash cd prior; nh = state_hash cd next;
          identity = decision_identity cd (sc_strategy_id c) strategy_revision ch session_id oh ph
      in d\<lparr>sn_decision_id := identity, sn_intent_plan := map (stamp_leg cd identity) (sn_intent_plan d),
           sn_observation_hash := oh, sn_config_hash := ch, sn_prior_state_hash := ph, sn_next_state_hash := nh\<rparr>)"

definition decide_raw ::
  "(pyfloat \<Rightarrow> pyfloat result) \<Rightarrow> strategy_observation \<Rightarrow> strategy_state \<Rightarrow> strategy_config \<Rightarrow> decided_state result" where
  "decide_raw half_power ob st c =
     (case sx_last_book_source_epoch st of
        None \<Rightarrow> Inr (decision_of HOLD [], strategy_accept ob st c True False)
      | Some last_epoch \<Rightarrow>
          (let guard_delta = guard_epoch_delta ob st c in
           if (case sx_last_as_of_ts st of None \<Rightarrow> False | Some ts \<Rightarrow> ob_as_of_ts ob < ts)
           then Inr (decision_of HOLD [sr_clock_regression], st)
           else if ob_book_source_epoch ob < last_epoch \<or> guard_delta < 0
           then Inr (decision_of HOLD [sr_epoch_regression], st)
           else if last_epoch < ob_book_source_epoch ob
           then Inr (apply_reset ob (strategy_accept ob st c True False) c sr_event_ref_warmup)
           else if (case sx_last_observation_sequence st of None \<Rightarrow> False | Some n \<Rightarrow> ob_observation_sequence ob \<le> n)
           then Inr (decision_of HOLD [sr_stale_observation], st)
           else
             (let base = strategy_accept ob st c False (0 < guard_delta) in
              rbind (classify_row ob st c) (\<lambda>row.
                case row of
                  row_R \<Rightarrow> Inr (apply_reset ob base c (reset_reason ob st))
                | row_E \<Rightarrow> apply_event ob base c
                | row_D \<Rightarrow> Inr (apply_data_degraded ob base c)
                | row_C \<Rightarrow> Inr (apply_cooldown base)
                | _ \<Rightarrow> apply_healthy half_power ob base c row))))"

definition strategy_decide ::
  "(pyfloat \<Rightarrow> pyfloat result) \<Rightarrow> codec \<Rightarrow> strategy_observation \<Rightarrow> strategy_state \<Rightarrow> strategy_config \<Rightarrow> string
   \<Rightarrow> decided_state result" where
  "strategy_decide half_power cd ob st c session_id =
     rbind (decide_raw half_power ob st c) (\<lambda>(d, next).
       Inr (stamp_identity cd (funnel_cancel_on_exposure d ob) ob st next c session_id, next))"

definition projection_startup_gate :: "inventory_projection option \<Rightarrow> strategy_decision option" where
  "projection_startup_gate inventory =
     (case inventory of
        None \<Rightarrow> Some (decision_of NO_QUOTE [sr_projection_stale])
      | Some i \<Rightarrow> if iv_fresh i then None else Some (decision_of NO_QUOTE [sr_projection_stale]))"

end
