(* ===== verification/Strategy_Safety.thy ===== *)
theory Strategy_Safety
  imports Strategy_Core Noncrossing
begin

text \<open>
  What the decision core of the market-making strategy guarantees: the shape of every plan, the gates a quote
  has passed, and the independence of the baseline arm from the guard.
\<close>

section \<open>Plans\<close>

definition places :: "strategy_decision \<Rightarrow> bool" where
  "places d \<longleftrightarrow> (\<exists>i \<in> set (sn_intent_plan d). ni_kind i \<in> placement_phase_kinds)"

text \<open>An unstamped maker leg: post-only, priced strictly inside the unit interval, the zone and the grid.\<close>

definition maker_leg :: "strategy_observation \<Rightarrow> strategy_config \<Rightarrow> quote_leg \<Rightarrow> neutral_intent \<Rightarrow> bool" where
  "maker_leg ob c leg i \<longleftrightarrow> ni_kind i = nk_place_quote \<and> ni_leg_role i = Some (role_of leg) \<and> ni_post_only i
     \<and> ni_replaces_client_order_id i = None
     \<and> (\<exists>p. ni_price i = Some p \<and> leg_in_zone p (ob_tick_size ob) c = Inr True)"

lemma reject_price_in_zone: "leg_in_zone p tick c = Inr True \<Longrightarrow> reject_price p = Inr p"
  by (cases p) (auto simp: leg_in_zone_def reject_price_def split: prod.splits if_splits)

lemma rbind_InrE: "rbind m f = Inr y \<Longrightarrow> (\<And>x. m = Inr x \<Longrightarrow> f x = Inr y \<Longrightarrow> P) \<Longrightarrow> P"
  by (auto simp: rbind_Inr_iff)

lemma place_leg_in_zone:
  assumes "leg_in_zone p (ob_tick_size ob) c = Inr True" and "place_leg leg p = Inr i"
  shows "maker_leg ob c leg i"
  using assms reject_price_in_zone [OF assms(1)] by (auto simp: place_leg_def mk_neutral_intent_def maker_leg_def)

text \<open>The decisions of the quote, before the cancel funnel.\<close>

inductive dispositioned :: "strategy_observation \<Rightarrow> strategy_config \<Rightarrow> strategy_decision \<Rightarrow> bool" for ob c where
  dispositioned_none: "dispositioned ob c (decision_of NO_QUOTE rs)"
| dispositioned_one: "maker_leg ob c leg i \<Longrightarrow> mk_strategy_decision QUOTE_ONE_SIDED rs [i] = Inr d \<Longrightarrow> dispositioned ob c d"
| dispositioned_reduce: "maker_leg ob c (reducing_leg (iv_net_position (ob_inventory ob))) i
    \<Longrightarrow> mk_strategy_decision ONE_SIDED_REDUCE rs [i] = Inr d \<Longrightarrow> dispositioned ob c d"
| dispositioned_two: "maker_leg ob c leg_bid i \<Longrightarrow> maker_leg ob c leg_ask j
    \<Longrightarrow> mk_strategy_decision QUOTE_TWO_SIDED rs [i, j] = Inr d \<Longrightarrow> dispositioned ob c d"

lemma single_leg_dispositioned:
  assumes "single_leg_quote ob c anchor leg kind reason = Inr d"
    and "kind = QUOTE_ONE_SIDED \<or> kind = ONE_SIDED_REDUCE \<and> leg = reducing_leg (iv_net_position (ob_inventory ob))"
  shows "dispositioned ob c d"
proof -
  from assms(1) consider rs where "d = decision_of NO_QUOTE rs"
    | p i where "leg_in_zone p (ob_tick_size ob) c = Inr True" "place_leg leg p = Inr i" "mk_strategy_decision kind [reason] [i] = Inr d"
    by (auto simp: single_leg_quote_def rbind_Inr_iff split: option.splits if_splits)
  then show ?thesis
    by cases (use assms(2) in \<open>auto intro: dispositioned.intros dest: place_leg_in_zone\<close>)
qed

lemma inventory_reduce_dispositioned:
  "inventory_reduce hp ob base c anchor (iv_net_position (ob_inventory ob)) = Inr d \<Longrightarrow> dispositioned ob c d"
  by (auto simp: inventory_reduce_def Let_def rbind_Inr_iff split: if_splits intro: dispositioned_none dest: single_leg_dispositioned)

lemma residual_pull_dispositioned: "residual_pull_quote ob c anchor toxic = Inr d \<Longrightarrow> dispositioned ob c d"
  by (auto simp: residual_pull_quote_def split: if_splits dest: single_leg_dispositioned)

lemma leg_if_inside_legs:
  "leg_if_inside leg p (ob_tick_size ob) c = Inr xs \<Longrightarrow> xs = [] \<or> (\<exists>i. xs = [i] \<and> maker_leg ob c leg i)"
  by (auto simp: leg_if_inside_def rbind_Inr_iff split: if_splits dest: place_leg_in_zone)

lemma two_sided_dispositioned: "two_sided_quote ob c anchor = Inr d \<Longrightarrow> dispositioned ob c d"
  by (auto simp: two_sided_quote_def rbind_Inr_iff Let_def split: option.splits if_splits
    dest!: leg_if_inside_legs intro: dispositioned.intros)

lemma guard_disposition_dispositioned: "guard_disposition hp ob base c anchor = Inr (Some d) \<Longrightarrow> dispositioned ob c d"
  by (auto simp: guard_disposition_def elim!: rbind_InrE split: option.split_asm if_split_asm
    intro!: dispositioned_none) (rule residual_pull_dispositioned, assumption)+

lemma quote_disposition_dispositioned: "quote_disposition hp ob base c = Inr d \<Longrightarrow> dispositioned ob c d"
  by (auto simp: quote_disposition_def Let_def elim!: rbind_InrE split: option.split_asm if_split_asm
    intro!: dispositioned_none intro: inventory_reduce_dispositioned two_sided_dispositioned guard_disposition_dispositioned)

lemma dispositioned_places: "dispositioned ob c d \<Longrightarrow> places d \<Longrightarrow> sn_kind d \<in> {QUOTE_TWO_SIDED, QUOTE_ONE_SIDED, ONE_SIDED_REDUCE}"
  by (auto elim!: dispositioned.cases simp: mk_strategy_decision_def rbind_Inr_iff places_def decision_of_def)


section \<open>What a quote has passed\<close>

definition frame_accepted :: "strategy_observation \<Rightarrow> strategy_state \<Rightarrow> strategy_config \<Rightarrow> bool" where
  "frame_accepted ob st c \<longleftrightarrow> sx_last_book_source_epoch st = Some (ob_book_source_epoch ob)
     \<and> (\<forall>ts. sx_last_as_of_ts st = Some ts \<longrightarrow> ts \<le> ob_as_of_ts ob)
     \<and> (\<forall>n. sx_last_observation_sequence st = Some n \<longrightarrow> n < ob_observation_sequence ob)
     \<and> 0 \<le> guard_epoch_delta ob st c"

definition book_healthy :: "strategy_observation \<Rightarrow> strategy_state \<Rightarrow> strategy_config \<Rightarrow> bool" where
  "book_healthy ob st c \<longleftrightarrow> \<not> ob_tick_regime_changed ob \<and> \<not> phase_transition ob st \<and> \<not> suspension_reopen ob st
     \<and> \<not> gap_episode_end ob st \<and> ob_book_status ob = bk_ok \<and> references_warm st c
     \<and> venue_event_reason ob st c = Inr None \<and> \<not> book_is_stale ob c \<and> \<not> leg_is_skewed ob c
     \<and> \<not> cooldown_active ob st"

definition market_open :: "strategy_observation \<Rightarrow> strategy_state \<Rightarrow> strategy_config \<Rightarrow> bool" where
  "market_open ob st c \<longleftrightarrow> effective_market_status ob st c = MS_ACTIVE \<and> ob_order_stream_ok ob
     \<and> ob_projection_fresh ob \<and> \<not> ob_suspended ob \<and> py_strip (ob_token_id ob) \<noteq> []"

lemma accept_fields [simp]:
  "sx_smoother_mid (strategy_accept ob st c False b) = sx_smoother_mid st"
  "sx_smoother_mid_ts (strategy_accept ob st c False b) = sx_smoother_mid_ts st"
  "sx_spread_ref_samples (strategy_accept ob st c False b) = sx_spread_ref_samples st"
  "sx_depth_ref_samples (strategy_accept ob st c False b) = sx_depth_ref_samples st"
  "sx_event_cooldown_until_ts (strategy_accept ob st c f b) = sx_event_cooldown_until_ts st"
  "sx_last_market_status_epoch (strategy_accept ob st c f b) = fst (status_watermark ob st c)"
  "sx_last_market_status_recv_ts (strategy_accept ob st c f b) = snd (status_watermark ob st c)"
  "sx_last_book_source_epoch (strategy_accept ob st c f b) = Some (ob_book_source_epoch ob)"
  "sx_last_as_of_ts (strategy_accept ob st c f b) = Some (ob_as_of_ts ob)"
  "sx_last_observation_sequence (strategy_accept ob st c f b) = Some (ob_observation_sequence ob)"
  "sx_guard_watermark (strategy_accept ob st c f b) = guard_watermark ob st c"
  by (simp_all add: strategy_accept_def clear_venue_def clear_basis_def Let_def split: prod.split)

lemma references_warm_accept [simp]: "references_warm (strategy_accept ob st c False b) c = references_warm st c"
  by (simp add: references_warm_def)

text \<open>The quote blocker reads the advanced state; the status it sees is the one the prior state gives.\<close>

lemma effective_status_accept:
  "effective_market_status ob (strategy_accept ob st c f b) c = effective_market_status ob st c"
proof -
  have "status_regressed ob (strategy_accept ob st c f b) = status_regressed ob st"
    if "\<not> status_is_stale ob c" "ob_market_status ob \<noteq> MS_UNKNOWN"
    using that by (auto simp: status_regressed_def status_watermark_def effective_market_status_def split: option.splits if_splits)
  then show ?thesis by (auto simp: effective_market_status_def)
qed

lemma healthy_quote:
  assumes "apply_healthy hp ob base c row = Inr (d, st')" and "places d"
  shows "row \<noteq> row_W" and "references_warm base c \<or> row \<noteq> row_F" and "quote_blocker ob base c = None"
    and "dispositioned ob c d" and "\<exists>anchor. venue_anchor ob c = Some anchor \<and> \<not> outside (sc_boundary_zone c) anchor"
proof -
  have idle: "\<not> places (decision_of k rs)" for k rs by (simp add: places_def decision_of_def)
  from assms have q: "row \<noteq> row_W \<and> (references_warm base c \<or> row \<noteq> row_F) \<and> quote_blocker ob base c = None
      \<and> quote_disposition hp ob base c = Inr d"
    by (auto simp: apply_healthy_def Let_def idle elim!: rbind_InrE split: if_split_asm option.split_asm)
  then show "row \<noteq> row_W" "references_warm base c \<or> row \<noteq> row_F" "quote_blocker ob base c = None" "dispositioned ob c d"
    using quote_disposition_dispositioned by blast+
  show "\<exists>anchor. venue_anchor ob c = Some anchor \<and> \<not> outside (sc_boundary_zone c) anchor"
    using q assms(2) by (auto simp: quote_disposition_def Let_def idle split: option.split_asm if_split_asm)
qed

lemma blocker_open:
  "quote_blocker ob (strategy_accept ob st c f b) c = None \<Longrightarrow> market_open ob st c"
  by (cases "effective_market_status ob st c")
    (auto simp: quote_blocker_def market_open_def token_mapping_reason_def suspended_block_reason_def status_stream_reason_def
      effective_status_accept Let_def split: option.splits if_splits)

lemma decide_in_order:
  assumes "frame_accepted ob st c"
  shows "decide_raw hp ob st c = (let base = strategy_accept ob st c False (0 < guard_epoch_delta ob st c) in
              rbind (classify_row ob st c) (\<lambda>row.
                case row of
                  row_R \<Rightarrow> Inr (apply_reset ob base c (reset_reason ob st))
                | row_E \<Rightarrow> apply_event ob base c
                | row_D \<Rightarrow> Inr (apply_data_degraded ob base c)
                | row_C \<Rightarrow> Inr (apply_cooldown base)
                | _ \<Rightarrow> apply_healthy hp ob base c row))"
  using assms by (auto simp: decide_raw_def frame_accepted_def Let_def split: option.split)

lemma raw_quote:
  assumes "decide_raw hp ob st c = Inr (d, st')" and "places d"
  shows "frame_accepted ob st c \<and> book_healthy ob st c \<and> market_open ob st c \<and> dispositioned ob c d
     \<and> (\<exists>anchor. venue_anchor ob c = Some anchor \<and> \<not> outside (sc_boundary_zone c) anchor)"
proof -
  have idle: "\<not> places (decision_of k rs)" for k rs by (simp add: places_def decision_of_def)
  from assms obtain row where acc: "frame_accepted ob st c"
      and row: "classify_row ob st c = Inr row" "row = row_F \<or> row = row_W \<or> row = row_H"
      and healthy: "apply_healthy hp ob (strategy_accept ob st c False (0 < guard_epoch_delta ob st c)) c row = Inr (d, st')"
    by (auto simp: decide_raw_def Let_def idle frame_accepted_def apply_reset_def apply_event_def apply_data_degraded_def apply_cooldown_def
      elim!: rbind_InrE split: option.split_asm if_split_asm strategy_row.split_asm)
  note q = healthy_quote [OF healthy assms(2)]
  have "book_healthy ob st c"
    using row q(1,2)
    by (cases "ob_book_status ob") (auto simp: classify_row_def book_healthy_def in_gap_def elim!: rbind_InrE split: if_split_asm)
  with acc q(3-) blocker_open show ?thesis by blast
qed


section \<open>The compiled decision\<close>

lemma stamp_leg_fields [simp]:
  "ni_kind (stamp_leg cd x i) = ni_kind i" "ni_leg_role (stamp_leg cd x i) = ni_leg_role i"
  "ni_price (stamp_leg cd x i) = ni_price i" "ni_post_only (stamp_leg cd x i) = ni_post_only i"
  "ni_replaces_client_order_id (stamp_leg cd x i) = ni_replaces_client_order_id i"
  by (simp_all add: stamp_leg_def split: option.split)

lemma maker_leg_stamp [simp]: "maker_leg ob c leg (stamp_leg cd x i) = maker_leg ob c leg i"
  by (simp add: maker_leg_def)

lemma stamp_fields [simp]:
  "sn_kind (stamp_identity cd d ob st st' c sid) = sn_kind d"
  "sn_reason_codes (stamp_identity cd d ob st st' c sid) = sn_reason_codes d"
  "places (stamp_identity cd d ob st st' c sid) = places d"
  by (simp_all add: stamp_identity_def places_def Let_def)

lemma stamp_plan [simp]:
  "sn_intent_plan (stamp_identity cd d ob st st' c sid)
   = map (stamp_leg cd (sn_decision_id (stamp_identity cd d ob st st' c sid))) (sn_intent_plan d)"
  by (simp add: stamp_identity_def Let_def)

definition plan_fits :: "strategy_observation \<Rightarrow> strategy_config \<Rightarrow> strategy_decision \<Rightarrow> bool" where
  "plan_fits ob c d =
     (case sn_kind d of
        QUOTE_TWO_SIDED \<Rightarrow> (\<exists>i j. sn_intent_plan d = [i, j] \<and> maker_leg ob c leg_bid i \<and> maker_leg ob c leg_ask j)
      | QUOTE_ONE_SIDED \<Rightarrow> (\<exists>i leg. sn_intent_plan d = [i] \<and> maker_leg ob c leg i)
      | ONE_SIDED_REDUCE \<Rightarrow>
          (\<exists>i. sn_intent_plan d = [i] \<and> maker_leg ob c (reducing_leg (iv_net_position (ob_inventory ob))) i)
      | NO_QUOTE \<Rightarrow>
          if iv_resting (ob_inventory ob) = [] then sn_intent_plan d = []
          else map ni_kind (sn_intent_plan d) = [nk_cancel_all_orders, nk_abstain]
            \<and> last (sn_reason_codes d) = sr_cancel_exposure_first
      | HOLD \<Rightarrow> sn_intent_plan d = [])"

definition unfunnelled :: "strategy_observation \<Rightarrow> strategy_config \<Rightarrow> strategy_decision \<Rightarrow> bool" where
  "unfunnelled ob c d \<longleftrightarrow> dispositioned ob c d \<or> (\<exists>rs. d = decision_of HOLD rs)"

lemma unfunnelled_idle [simp]: "unfunnelled ob c (decision_of NO_QUOTE rs)" "unfunnelled ob c (decision_of HOLD rs)"
  by (auto simp: unfunnelled_def intro: dispositioned_none)

lemma healthy_shape: "apply_healthy hp ob base c row = Inr (d, st') \<Longrightarrow> unfunnelled ob c d"
  by (auto simp: apply_healthy_def Let_def elim!: rbind_InrE split: option.split_asm if_split_asm)
    (simp add: unfunnelled_def quote_disposition_dispositioned)+

lemma raw_shape: "decide_raw hp ob st c = Inr (d, st') \<Longrightarrow> unfunnelled ob c d"
  by (auto simp: decide_raw_def Let_def apply_reset_def apply_event_def apply_data_degraded_def apply_cooldown_def
    elim!: rbind_InrE split: option.split_asm if_split_asm strategy_row.split_asm dest: healthy_shape)

lemma funnel_fits:
  assumes "unfunnelled ob c d"
  shows "plan_fits ob c (stamp_identity cd (funnel_cancel_on_exposure d ob) ob st st' c sid)"
  using assms
  by (auto elim!: dispositioned.cases simp: unfunnelled_def plan_fits_def funnel_cancel_on_exposure_def decision_of_def
    mk_strategy_decision_def cancel_exposure_plan_def rbind_Inr_iff) blast+

lemma funnel_places: "places (funnel_cancel_on_exposure d ob) \<Longrightarrow> places d"
  by (auto simp: funnel_cancel_on_exposure_def places_def cancel_exposure_plan_def placement_phase_kinds_def split: if_split_asm)

lemma decide_raw_of:
  "strategy_decide hp cd ob st c sid = Inr (d, st') \<Longrightarrow>
   \<exists>raw. decide_raw hp ob st c = Inr (raw, st') \<and> d = stamp_identity cd (funnel_cancel_on_exposure raw ob) ob st st' c sid"
  by (auto simp: strategy_decide_def elim!: rbind_InrE)

lemma decide_places:
  assumes "strategy_decide hp cd ob st c sid = Inr (d, st')" and "places d"
  obtains raw where "decide_raw hp ob st c = Inr (raw, st')" and "places raw"
  using decide_raw_of [OF assms(1)] assms(2) funnel_places by auto

text \<open>
  C37: every decision of the market maker carries the plan its kind names: two maker legs, bid then ask; one maker
  leg; the one leg that reduces the position; a cancel-all followed by an abstention when nothing is quoted
  while orders rest; nothing when nothing rests or the decision holds. A maker leg is post-only, replaces no
  order and has a price strictly inside the unit interval, the boundary zone and the tick grid. So no plan
  ever cancels and places at once.
\<close>

theorem strategy_plan_fits_its_kind:
  "case strategy_decide hp cd ob st c sid of Inl e \<Rightarrow> True | Inr (d, st') \<Rightarrow> plan_fits ob c d"
  using raw_shape funnel_fits by (auto split: sum.split dest!: decide_raw_of)

section \<open>A warmed market maker\<close>

text \<open>A concrete configuration, a warm state and a frame on which the strategy quotes both sides.\<close>

definition demo_maker :: strategy_config where
  "demo_maker = \<lparr>sc_strategy_id = ''m'', sc_residual_band = Fin (1/32), sc_extreme_multiple = Fin 3,
     sc_basis_estimator = est_rolling_median, sc_basis_window = 5, sc_ewma_halflife_ms = 1000, sc_basis_min_samples = 2,
     sc_fv_freshness_ms = 1000, sc_fv_source_lag_s = 30, sc_book_freshness_ms = 500, sc_max_leg_skew_ms = 500,
     sc_half_spread = Fin (1/16), sc_boundary_zone = (Fin (1/8), Fin (7/8)), sc_two_sided_band = (Fin (1/4), Fin (3/4)),
     sc_min_top_depth = Fin 1, sc_min_level_count = 1, sc_depth_collapse_ratio = Fin (1/2), sc_ref_min_samples = 1,
     sc_book_state_dwell_before_quote_ms = 1000, sc_mid_jump_threshold = Fin (1/4), sc_spread_blowout_multiple = Fin 4,
     sc_inventory_soft_limit = Fin 10, sc_price_epsilon = Fin (1/1024), sc_event_smoother = smooth_ema_alpha,
     sc_event_smoother_param = Fin (1/2), sc_market_status_max_age_ms = 5000, sc_rolling_spread_window = 5,
     sc_rolling_depth_window = 5, sc_guard_enabled = True, sc_restart_policy = restart_fail_closed, sc_tif = mt_GTC,
     sc_fee_bps = Fin 0\<rparr>"

definition demo_frame_at :: "pyfloat \<Rightarrow> int \<Rightarrow> book_status \<Rightarrow> strategy_observation" where
  "demo_frame_at tick n status = \<lparr>ob_fixture_id = 7, ob_market_ref = ''m'', ob_side = ''home'', ob_token_id = ''tok'',
     ob_venue_market_ref = ''v'', ob_tick_size = tick, ob_observation_sequence = n, ob_book_source_epoch = 1,
     ob_bid = Some (Fin (31/64)), ob_ask = Some (Fin (33/64)), ob_bid_size = Some (Fin 8), ob_ask_size = Some (Fin 8),
     ob_book_status = status, ob_status_reason = None, ob_book_recv_ts = 1000 * n, ob_level_count_in_band = 3,
     ob_tick_regime_changed = False, ob_phase = 0, ob_suspended = False, ob_match_state_recv_ts = 1000 * n,
     ob_guard_fv = None, ob_market_status = MS_ACTIVE, ob_market_status_recv_ts = Some (1000 * n), ob_market_status_epoch = Some 1,
     ob_order_stream_ok = True, ob_projection_fresh = True,
     ob_inventory = \<lparr>iv_net_position = Fin 0, iv_resting = [], iv_projection_as_of_ts = 1000 * n, iv_fresh = True\<rparr>,
     ob_as_of_ts = 1000 * n\<rparr>"

abbreviation demo_frame :: "int \<Rightarrow> book_status \<Rightarrow> strategy_observation" where
  "demo_frame \<equiv> demo_frame_at (Fin (1/64))"

definition demo_warm :: strategy_state where
  "demo_warm = fresh_strategy_state\<lparr>sx_last_observation_sequence := Some 2, sx_last_book_source_epoch := Some 1,
     sx_last_as_of_ts := Some 2000, sx_last_market_status_epoch := Some 1, sx_last_market_status_recv_ts := Some 2000,
     sx_last_phase := Some 0, sx_last_suspended := Some False, sx_last_book_in_gap := Some False,
     sx_smoother_mid := Some (Fin (1/2)), sx_smoother_mid_ts := Some 2000, sx_spread_ref_samples := [Fin (1/32)],
     sx_depth_ref_samples := [Fin 8]\<rparr>"

lemmas demo_strategy_defs = demo_maker_def demo_frame_at_def demo_warm_def fresh_strategy_state_def

lemma demo_rounds: "fl_round (1/2) = Fin (1/2)" "fl_round (1/4) = Fin (1/4)" "fl_round (1/32) = Fin (1/32)" "fl_round (7/16) = Fin (7/16)" "fl_round (9/16) = Fin (9/16)"
  "fl_round (1/8) = Fin (1/8)"
  using fl_round_64ths [of 32] fl_round_64ths [of 16] fl_round_64ths [of 2] fl_round_64ths [of 28] fl_round_64ths [of 36] fl_round_64ths [of 8] by simp_all

lemma rne_numeral: "rne (numeral n) = numeral n"
  using rne_of_int [of "numeral n"] by simp

lemma demo_reads:
  "venue_mid (demo_frame_at t n s) = Some (Fin (1/2))" "venue_spread (demo_frame_at t n s) = Some (Fin (1/32))" "top_depth (demo_frame_at t n s) = Some (Fin 8)"
  by (simp_all add: demo_frame_at_def venue_mid_def venue_spread_def top_depth_def fl_halve_def fl_sub_def py_min_def demo_rounds)

lemma rolling_median_one: "rolling_median [x] = Inr x"
  by (simp add: rolling_median_def)

lemma tail_window_one: "1 \<le> w \<Longrightarrow> tail_window w [x] = [x]"
  by (simp add: tail_window_def)

lemma demo_references:
  "rolling_depth_reference (sx_depth_ref_samples demo_warm) demo_maker = Inr (Fin 8)"
  "rolling_spread_reference (sx_spread_ref_samples demo_warm) demo_maker = Inr (Fin (1/32))"
  by (simp_all add: demo_strategy_defs rolling_depth_reference_def rolling_spread_reference_def rolling_median_one tail_window_one)

lemma demo_event: "venue_event_reason (demo_frame_at t n s) demo_warm demo_maker = Inr None"
  unfolding venue_event_reason_def demo_reads demo_references
  by (simp add: demo_strategy_defs fl_sub_def demo_rounds rbind_def)

lemma demo_row: "classify_row (demo_frame_at t 3 bk_ok) demo_warm demo_maker = Inr row_H"
  unfolding classify_row_def demo_event
  by (simp add: demo_strategy_defs phase_transition_def suspension_reopen_def gap_episode_end_def
    in_gap_def references_warm_def reference_is_warm_def book_is_stale_def leg_is_skewed_def cooldown_active_def
    guard_epoch_delta_def rbind_def)

lemma demo_prices:
  "floor_to_tick (Fin (7/16)) (Fin (1/64)) = Inr (Fin (7/16))"
  "ceil_to_tick (Fin (9/16)) (Fin (1/64)) = Inr (Fin (9/16))"
  "on_tick (Fin (7/16)) (Fin (1/64)) = Inr True"
  "on_tick (Fin (9/16)) (Fin (1/64)) = Inr True"
  by (simp_all add: floor_to_tick_def ceil_to_tick_def to_tick_def fl_div_def py_round_dp_def int_of_float_def rne_numeral
    float_of_int_def fl_fit_def rbind_def demo_rounds on_tick_def py_round_int_def fl_sub_def
    fl_round_mono [of 0, simplified])

lemma demo_quote:
  "quote_disposition hp (demo_frame_at t 3 bk_ok) base demo_maker = two_sided_quote (demo_frame_at t 3 bk_ok) demo_maker (Fin (1/2))"
  if "\<not> basis_is_warm base demo_maker"
  using that by (simp add: quote_disposition_def venue_anchor_def demo_reads)
    (simp add: demo_strategy_defs outside_def Let_def)

lemma demo_two_sided:
  "\<exists>d. two_sided_quote (demo_frame 3 bk_ok) demo_maker (Fin (1/2)) = Inr d \<and> places d"
  by (simp add: two_sided_quote_def leg_if_inside_def leg_in_zone_def bid_leg_price_def ask_leg_price_def place_leg_def mk_neutral_intent_def
    reject_price_def mk_strategy_decision_def reject_mixed_phase_plan_def cancel_phase_kinds_def placement_phase_kinds_def places_def
    demo_strategy_defs fl_sub_def py_min_def py_max_def demo_rounds demo_prices rbind_def)

lemma demo_venue_updates:
  "\<exists>s1. admit_venue_updates hp (demo_frame_at t 3 bk_ok) (strategy_accept (demo_frame_at t 3 bk_ok) demo_warm demo_maker False False) demo_maker = Inr s1"
proof -
  have "\<exists>m. smoother_step hp (demo_frame_at t 3 bk_ok) (strategy_accept (demo_frame_at t 3 bk_ok) demo_warm demo_maker False False) demo_maker x = Inr m" for x
    by (simp add: smoother_step_def) (simp add: demo_strategy_defs event_smoother_update_def float_of_int_def fl_fit_def rbind_def Let_def)
  from this [of "Fin (1/2)"] show ?thesis by (auto simp: admit_venue_updates_def demo_reads rbind_def)
qed

lemma demo_blocker:
  "quote_blocker (demo_frame_at t 3 bk_ok) (strategy_accept (demo_frame_at t 3 bk_ok) demo_warm demo_maker False False) demo_maker = None"
  by (simp add: quote_blocker_def token_mapping_reason_def suspended_block_reason_def status_stream_reason_def effective_status_accept Let_def)
    (simp add: demo_strategy_defs py_strip_def py_space_def effective_market_status_def status_is_stale_def status_regressed_def)

lemma demo_basis: "\<not> basis_is_warm (strategy_accept ob demo_warm demo_maker False False) demo_maker"
  "admit_basis_updates hp (demo_frame_at t n s) base demo_maker st = Inr st" "\<not> target_is_unchanged d (demo_frame_at t n s) c"
  by (simp_all add: demo_strategy_defs basis_is_warm_def strategy_accept_def admit_basis_updates_def target_is_unchanged_def Let_def split: prod.split)

lemma demo_order: "frame_accepted (demo_frame_at t 3 s) demo_warm demo_maker" "guard_epoch_delta (demo_frame_at t n s) demo_warm demo_maker = 0"
  by (simp_all add: demo_strategy_defs frame_accepted_def guard_epoch_delta_def)

lemma demo_raw: "\<exists>d st'. decide_raw hp (demo_frame 3 bk_ok) demo_warm demo_maker = Inr (d, st') \<and> places d"
proof -
  obtain d s1 where "two_sided_quote (demo_frame 3 bk_ok) demo_maker (Fin (1/2)) = Inr d" "places d"
    and "admit_venue_updates hp (demo_frame 3 bk_ok) (strategy_accept (demo_frame 3 bk_ok) demo_warm demo_maker False False) demo_maker = Inr s1"
    using demo_two_sided demo_venue_updates by blast
  then show ?thesis
    by (simp add: decide_in_order demo_order demo_row apply_healthy_def demo_blocker demo_basis demo_quote Let_def rbind_def)
qed

lemma demo_decides:
  "\<exists>d st'. strategy_decide hp cd (demo_frame 3 bk_ok) demo_warm demo_maker sid = Inr (d, st') \<and> places d"
proof -
  obtain d st' where "decide_raw hp (demo_frame 3 bk_ok) demo_warm demo_maker = Inr (d, st')" "places d" using demo_raw by blast
  then show ?thesis by (simp add: strategy_decide_def funnel_cancel_on_exposure_def rbind_def) (simp add: demo_frame_at_def)
qed

section \<open>What is clear when it quotes\<close>

text \<open>
  C38: the market maker quotes only when everything is clear: a decision that places an order was made on a frame
  in order (same book generation, no older clock, a new sequence number, no older fair-value generation), on a
  healthy book (no reset or reopening, book \<open>ok\<close>, warm references, no venue event, fresh, both clocks
  together, no cooldown running), on an open market (status active, current and not rolled back, order stream
  and projection in order, match not suspended, a token to trade), and around a venue mid inside the boundary
  zone.
\<close>

theorem strategy_quotes_only_when_clear:
  assumes "strategy_decide hp cd ob st c sid = Inr (d, st')" and "places d"
  shows "frame_accepted ob st c \<and> book_healthy ob st c \<and> market_open ob st c
     \<and> (\<exists>anchor. venue_anchor ob c = Some anchor \<and> \<not> outside (sc_boundary_zone c) anchor)"
  using assms by (rule decide_places) (use raw_quote in blast)

theorem strategy_quotes_only_when_clear_witness:
  "\<exists>d st'. strategy_decide Inr demo_codec (demo_frame 3 bk_ok) demo_warm demo_maker ''s'' = Inr (d, st') \<and> places d
     \<and> frame_accepted (demo_frame 3 bk_ok) demo_warm demo_maker \<and> book_healthy (demo_frame 3 bk_ok) demo_warm demo_maker
     \<and> market_open (demo_frame 3 bk_ok) demo_warm demo_maker"
  using demo_decides strategy_quotes_only_when_clear by blast

section \<open>The dwell after an event\<close>

definition dwelling :: "strategy_config \<Rightarrow> int \<Rightarrow> strategy_state \<Rightarrow> bool" where
  "dwelling c a st \<longleftrightarrow> sx_last_book_source_epoch st \<noteq> None \<and> (\<exists>ts. sx_last_as_of_ts st = Some ts \<and> a \<le> ts
     \<and> (a + sc_book_state_dwell_before_quote_ms c \<le> ts
        \<or> (\<exists>u. sx_event_cooldown_until_ts st = Some u \<and> a + sc_book_state_dwell_before_quote_ms c \<le> u)))"

lemma admit_fields:
  assumes "admit_venue_updates hp ob base c = Inr s1" and "admit_basis_updates hp ob base c s1 = Inr s2"
  shows "sx_last_book_source_epoch s2 = sx_last_book_source_epoch base" and "sx_last_as_of_ts s2 = sx_last_as_of_ts base"
proof -
  have "sx_last_book_source_epoch s1 = sx_last_book_source_epoch base \<and> sx_last_as_of_ts s1 = sx_last_as_of_ts base"
    using assms(1) by (auto simp: admit_venue_updates_def Let_def elim!: rbind_InrE split: option.split_asm)
  moreover have "sx_last_book_source_epoch s2 = sx_last_book_source_epoch s1 \<and> sx_last_as_of_ts s2 = sx_last_as_of_ts s1"
    using assms(2) by (auto simp: admit_basis_updates_def fold_basis_def Let_def elim!: rbind_InrE
      split: option.split_asm if_split_asm bool.split_asm prod.split_asm)
  ultimately show "sx_last_book_source_epoch s2 = sx_last_book_source_epoch base" and "sx_last_as_of_ts s2 = sx_last_as_of_ts base"
    by simp_all
qed

lemma healthy_next:
  "apply_healthy hp ob base c row = Inr (d, st') \<Longrightarrow> \<exists>s1 s2. admit_venue_updates hp ob base c = Inr s1
     \<and> admit_basis_updates hp ob base c s1 = Inr s2 \<and> st' = s2\<lparr>sx_event_cooldown_until_ts := None\<rparr>"
  by (auto simp: apply_healthy_def Let_def elim!: rbind_InrE split: option.split_asm if_split_asm)

lemma healthy_clock:
  "apply_healthy hp ob base c row = Inr (d, st') \<Longrightarrow>
   sx_last_book_source_epoch st' = sx_last_book_source_epoch base \<and> sx_last_as_of_ts st' = sx_last_as_of_ts base"
  using healthy_next admit_fields by fastforce

lemma quiet_row_cool: "classify_row ob st c = Inr row \<Longrightarrow> row \<in> {row_F, row_W, row_H} \<Longrightarrow> \<not> cooldown_active ob st"
  by (auto simp: classify_row_def elim!: rbind_InrE split: if_split_asm)

text \<open>What a decision does to the two clocks of the state.\<close>

lemma raw_clocks:
  assumes "decide_raw hp ob st c = Inr (d, st')" and "sx_last_book_source_epoch st \<noteq> None" and "sx_last_as_of_ts st = Some ts"
  shows "st' = st \<or> ts \<le> ob_as_of_ts ob \<and> sx_last_book_source_epoch st' \<noteq> None \<and> sx_last_as_of_ts st' = Some (ob_as_of_ts ob)
    \<and> (sx_event_cooldown_until_ts st' = Some (cooldown_deadline ob c) \<or> sx_event_cooldown_until_ts st' = sx_event_cooldown_until_ts st
       \<or> \<not> cooldown_active ob st)"
proof -
  have healthy: "sx_last_book_source_epoch st' \<noteq> None \<and> sx_last_as_of_ts st' = Some (ob_as_of_ts ob) \<and> \<not> cooldown_active ob st"
    if "apply_healthy hp ob (strategy_accept ob st c f b) c row = Inr (d, st')" and "classify_row ob st c = Inr row"
      and "row \<in> {row_F, row_W, row_H}" for f b row
    using healthy_clock [OF that(1)] quiet_row_cool [OF that(2,3)] by simp
  show ?thesis using assms
    by (auto simp: decide_raw_def Let_def apply_reset_def apply_event_def apply_data_degraded_def apply_cooldown_def
      elim!: rbind_InrE split: option.split_asm if_split_asm strategy_row.split_asm dest: healthy)
qed

lemma dwelling_raw:
  assumes "dwelling c a st" and "decide_raw hp ob st c = Inr (d, st')"
  shows "dwelling c a st'"
proof -
  from assms(1) obtain ts where "sx_last_book_source_epoch st \<noteq> None" "sx_last_as_of_ts st = Some ts" "a \<le> ts"
    and "a + sc_book_state_dwell_before_quote_ms c \<le> ts \<or>
      (\<exists>u. sx_event_cooldown_until_ts st = Some u \<and> a + sc_book_state_dwell_before_quote_ms c \<le> u)"
    by (auto simp: dwelling_def)
  with raw_clocks [OF assms(2)] assms(1) show ?thesis
    by (fastforce simp: dwelling_def cooldown_deadline_def cooldown_active_def)
qed

lemma dwelling_quote:
  assumes "dwelling c a st" and "decide_raw hp ob st c = Inr (d, st')" and "places d"
  shows "a + sc_book_state_dwell_before_quote_ms c \<le> ob_as_of_ts ob"
  using raw_quote [OF assms(2,3)] assms(1)
  by (auto simp: frame_accepted_def book_healthy_def dwelling_def cooldown_active_def)

text \<open>The decisions of a sequence of observations, each on the state the one before left; an exception ends it.\<close>

fun decided_run ::
  "(pyfloat \<Rightarrow> pyfloat result) \<Rightarrow> codec \<Rightarrow> strategy_config \<Rightarrow> string \<Rightarrow> strategy_state \<Rightarrow> strategy_observation list
   \<Rightarrow> (strategy_observation \<times> strategy_decision) list" where
  "decided_run hp cd c sid st [] = []"
| "decided_run hp cd c sid st (ob # obs) =
     (case strategy_decide hp cd ob st c sid of
        Inl e \<Rightarrow> []
      | Inr (d, st') \<Rightarrow> (ob, d) # decided_run hp cd c sid st' obs)"

lemma dwelling_run:
  assumes "dwelling c a st" and "(ob, d) \<in> set (decided_run hp cd c sid st obs)" and "places d"
  shows "a + sc_book_state_dwell_before_quote_ms c \<le> ob_as_of_ts ob"
  using assms
proof (induction obs arbitrary: st)
  case (Cons x obs)
  then obtain e st' where step: "strategy_decide hp cd x st c sid = Inr (e, st')"
    and mem: "(ob, d) = (x, e) \<or> (ob, d) \<in> set (decided_run hp cd c sid st' obs)"
    by (cases "strategy_decide hp cd x st c sid") auto
  from decide_raw_of [OF step] Cons.prems(1) have "dwelling c a st'" by (auto dest: dwelling_raw)
  from mem show ?case
  proof
    assume "(ob, d) = (x, e)"
    with step Cons.prems(3) show ?thesis
      by (auto elim!: decide_places dest: dwelling_quote [OF Cons.prems(1)])
  qed (use Cons.IH [OF \<open>dwelling c a st'\<close>] Cons.prems(3) in blast)
qed simp

text \<open>The observations that open a dwell.\<close>

definition book_event :: "strategy_observation \<Rightarrow> strategy_state \<Rightarrow> bool" where
  "book_event ob st \<longleftrightarrow> in_gap ob \<or> ob_tick_regime_changed ob \<or> phase_transition ob st \<or> suspension_reopen ob st
     \<or> gap_episode_end ob st"

lemma event_dwells:
  assumes "frame_accepted ob st c" and "book_event ob st" and "decide_raw hp ob st c = Inr (d, st')"
  shows "dwelling c (ob_as_of_ts ob) st'"
  using assms
  by (auto simp: decide_raw_def Let_def apply_reset_def apply_event_def frame_accepted_def book_event_def classify_row_def
    dwelling_def cooldown_deadline_def elim!: rbind_InrE split: option.split_asm if_split_asm)

text \<open>
  C39: after a book event the market maker stays out for the configured dwell: once a frame in order shows a gap,
  an excluded book, a new tick regime, a phase change or the end of a suspension or of a gap, no later decision
  places an order before the event's clock plus the dwell, however the observations go on.
\<close>

theorem strategy_dwells_after_event:
  assumes "frame_accepted ob st c" and "book_event ob st" and "strategy_decide hp cd ob st c sid = Inr (d, st')"
  shows "\<forall>(ob', d') \<in> set (decided_run hp cd c sid st' obs).
    places d' \<longrightarrow> ob_as_of_ts ob + sc_book_state_dwell_before_quote_ms c \<le> ob_as_of_ts ob'"
  using decide_raw_of [OF assms(3)] event_dwells [OF assms(1,2)] dwelling_run by blast

theorem strategy_dwells_after_event_witness:
  "\<exists>d st'. strategy_decide Inr demo_codec (demo_frame 3 bk_gap) demo_warm demo_maker ''s'' = Inr (d, st') \<and>
     (\<forall>(ob', d') \<in> set (decided_run Inr demo_codec demo_maker ''s'' st' [demo_frame 4 bk_ok, demo_frame 5 bk_ok, demo_frame 6 bk_ok]).
        places d' \<longrightarrow> 4000 \<le> ob_as_of_ts ob')"
proof -
  have e: "book_event (demo_frame 3 bk_gap) demo_warm" by (simp add: book_event_def in_gap_def demo_frame_at_def)
  have "\<exists>d st'. strategy_decide Inr demo_codec (demo_frame 3 bk_gap) demo_warm demo_maker ''s'' = Inr (d, st')"
    by (simp add: strategy_decide_def decide_in_order demo_order classify_row_def Let_def)
      (simp add: demo_strategy_defs phase_transition_def suspension_reopen_def gap_episode_end_def in_gap_def apply_event_def rbind_def)
  then obtain d st' where d: "strategy_decide Inr demo_codec (demo_frame 3 bk_gap) demo_warm demo_maker ''s'' = Inr (d, st')" by blast
  from strategy_dwells_after_event [OF demo_order(1) e d] d show ?thesis by (fastforce simp: demo_frame_at_def demo_maker_def)
qed

end
