(* ===== verification/Strategy_Guard.thy ===== *)
theory Strategy_Guard
  imports Strategy_Safety
begin

text \<open>
  The fair-value guard against the baseline: what the guard switch and the fair value can change, and what
  they cannot.
\<close>

section \<open>The guard\<close>

lemma guard_off [simp]:
  assumes "\<not> sc_guard_enabled c"
  shows "guard_epoch_delta ob st c = 0" and "guard_watermark ob st c = None" and "guard_residual hp ob base c anchor = Inr None"
    and "admit_basis_updates hp ob base c st = Inr st"
  using assms
  by (simp_all add: guard_epoch_delta_def guard_watermark_def guard_residual_def admit_basis_updates_def split: option.split prod.split)

text \<open>What reads an observation without its fair value.\<close>

lemma blind_reads [simp]:
  "status_is_stale (ob\<lparr>ob_guard_fv := x\<rparr>) c = status_is_stale ob c"
  "status_regressed (ob\<lparr>ob_guard_fv := x\<rparr>) st = status_regressed ob st"
  "venue_mid (ob\<lparr>ob_guard_fv := x\<rparr>) = venue_mid ob"
  "venue_spread (ob\<lparr>ob_guard_fv := x\<rparr>) = venue_spread ob"
  "top_depth (ob\<lparr>ob_guard_fv := x\<rparr>) = top_depth ob"
  "in_gap (ob\<lparr>ob_guard_fv := x\<rparr>) = in_gap ob"
  "book_is_stale (ob\<lparr>ob_guard_fv := x\<rparr>) c = book_is_stale ob c"
  "leg_is_skewed (ob\<lparr>ob_guard_fv := x\<rparr>) c = leg_is_skewed ob c"
  "cooldown_active (ob\<lparr>ob_guard_fv := x\<rparr>) st = cooldown_active ob st"
  "phase_transition (ob\<lparr>ob_guard_fv := x\<rparr>) st = phase_transition ob st"
  "suspension_reopen (ob\<lparr>ob_guard_fv := x\<rparr>) st = suspension_reopen ob st"
  "cooldown_deadline (ob\<lparr>ob_guard_fv := x\<rparr>) c = cooldown_deadline ob c"
  "token_mapping_reason (ob\<lparr>ob_guard_fv := x\<rparr>) = token_mapping_reason ob"
  "suspended_block_reason (ob\<lparr>ob_guard_fv := x\<rparr>) = suspended_block_reason ob"
  by (simp_all add: status_is_stale_def status_regressed_def venue_mid_def venue_spread_def top_depth_def in_gap_def
    book_is_stale_def leg_is_skewed_def cooldown_active_def phase_transition_def suspension_reopen_def cooldown_deadline_def
    token_mapping_reason_def suspended_block_reason_def cong: if_cong option.case_cong)

lemma blind_steps [simp]:
  "effective_market_status (ob\<lparr>ob_guard_fv := x\<rparr>) st c = effective_market_status ob st c"
  "gap_episode_end (ob\<lparr>ob_guard_fv := x\<rparr>) st = gap_episode_end ob st"
  "reset_reason (ob\<lparr>ob_guard_fv := x\<rparr>) st = reset_reason ob st"
  "venue_event_reason (ob\<lparr>ob_guard_fv := x\<rparr>) st c = venue_event_reason ob st c"
  "smoother_step hp (ob\<lparr>ob_guard_fv := x\<rparr>) st c m = smoother_step hp ob st c m"
  "admit_venue_updates hp (ob\<lparr>ob_guard_fv := x\<rparr>) st c = admit_venue_updates hp ob st c"
  "apply_reset (ob\<lparr>ob_guard_fv := x\<rparr>) st c r = apply_reset ob st c r"
  "apply_event (ob\<lparr>ob_guard_fv := x\<rparr>) st c = apply_event ob st c"
  "apply_data_degraded (ob\<lparr>ob_guard_fv := x\<rparr>) st c = apply_data_degraded ob st c"
  "venue_anchor (ob\<lparr>ob_guard_fv := x\<rparr>) c = venue_anchor ob c"
  "no_anchor_reason (ob\<lparr>ob_guard_fv := x\<rparr>) c = no_anchor_reason ob c"
  "leg_price (ob\<lparr>ob_guard_fv := x\<rparr>) c = leg_price ob c"
  "target_is_unchanged d (ob\<lparr>ob_guard_fv := x\<rparr>) c = target_is_unchanged d ob c"
  by (simp_all add: effective_market_status_def gap_episode_end_def reset_reason_def venue_event_reason_def smoother_step_def
    admit_venue_updates_def apply_reset_def apply_event_def apply_data_degraded_def venue_anchor_def no_anchor_reason_def
    leg_price_def fun_eq_iff target_is_unchanged_def Let_def cong: if_cong option.case_cong)

lemma blind_quotes [simp]:
  "status_watermark (ob\<lparr>ob_guard_fv := x\<rparr>) st c = status_watermark ob st c"
  "status_stream_reason (ob\<lparr>ob_guard_fv := x\<rparr>) st c = status_stream_reason ob st c"
  "quote_blocker (ob\<lparr>ob_guard_fv := x\<rparr>) st c = quote_blocker ob st c"
  "single_leg_quote (ob\<lparr>ob_guard_fv := x\<rparr>) c anchor leg k r = single_leg_quote ob c anchor leg k r"
  "two_sided_quote (ob\<lparr>ob_guard_fv := x\<rparr>) c anchor = two_sided_quote ob c anchor"
  by (simp_all add: status_watermark_def status_stream_reason_def quote_blocker_def single_leg_quote_def two_sided_quote_def
    cong: if_cong option.case_cong)

lemma blind_baseline [simp]:
  assumes "\<not> sc_guard_enabled c"
  shows "strategy_accept (ob\<lparr>ob_guard_fv := x\<rparr>) st c f b = strategy_accept ob st c f b"
    and "classify_row (ob\<lparr>ob_guard_fv := x\<rparr>) st c = classify_row ob st c"
    and "inventory_reduce hp (ob\<lparr>ob_guard_fv := x\<rparr>) base c anchor n = inventory_reduce hp ob base c anchor n"
  using assms by (simp_all add: strategy_accept_def classify_row_def inventory_reduce_def toxic_leg_def)

lemma blind_disposition [simp]:
  "\<not> sc_guard_enabled c \<Longrightarrow> quote_disposition hp (ob\<lparr>ob_guard_fv := x\<rparr>) base c = quote_disposition hp ob base c"
  by (simp add: quote_disposition_def cong: if_cong option.case_cong)

lemma blind_healthy [simp]:
  "\<not> sc_guard_enabled c \<Longrightarrow> apply_healthy hp (ob\<lparr>ob_guard_fv := x\<rparr>) base c row = apply_healthy hp ob base c row"
  by (simp add: apply_healthy_def cong: if_cong option.case_cong)

text \<open>
  The baseline arm is blind to the guard: with the guard switched off, the decision and the next state do not
  depend on the fair-value leg of the observation, whether it is present, stale or absent.
\<close>

theorem baseline_ignores_fair_value:
  "decide_raw hp (ob\<lparr>ob_guard_fv := x\<rparr>) st (c\<lparr>sc_guard_enabled := False\<rparr>)
   = decide_raw hp (ob\<lparr>ob_guard_fv := y\<rparr>) st (c\<lparr>sc_guard_enabled := False\<rparr>)"
  by (simp add: decide_raw_def cong: if_cong option.case_cong strategy_row.case_cong)

section \<open>A cold guard\<close>

text \<open>What reads a configuration without its guard switch.\<close>

lemma unguarded_reads [simp]:
  "status_is_stale ob (c\<lparr>sc_guard_enabled := b\<rparr>) = status_is_stale ob c"
  "book_is_stale ob (c\<lparr>sc_guard_enabled := b\<rparr>) = book_is_stale ob c"
  "leg_is_skewed ob (c\<lparr>sc_guard_enabled := b\<rparr>) = leg_is_skewed ob c"
  "reference_is_warm n (c\<lparr>sc_guard_enabled := b\<rparr>) = reference_is_warm n c"
  "cooldown_deadline ob (c\<lparr>sc_guard_enabled := b\<rparr>) = cooldown_deadline ob c"
  "rolling_depth_reference xs (c\<lparr>sc_guard_enabled := b\<rparr>) = rolling_depth_reference xs c"
  "rolling_spread_reference xs (c\<lparr>sc_guard_enabled := b\<rparr>) = rolling_spread_reference xs c"
  "venue_anchor ob (c\<lparr>sc_guard_enabled := b\<rparr>) = venue_anchor ob c"
  "no_anchor_reason ob (c\<lparr>sc_guard_enabled := b\<rparr>) = no_anchor_reason ob c"
  "leg_in_zone p t (c\<lparr>sc_guard_enabled := b\<rparr>) = leg_in_zone p t c"
  "bid_leg_price p q t (c\<lparr>sc_guard_enabled := b\<rparr>) = bid_leg_price p q t c"
  "ask_leg_price p q t (c\<lparr>sc_guard_enabled := b\<rparr>) = ask_leg_price p q t c"
  "event_smoother_update hp p v (c\<lparr>sc_guard_enabled := b\<rparr>) dt = event_smoother_update hp p v c dt"
  "take_match (c\<lparr>sc_guard_enabled := b\<rparr>) r p vs = take_match c r p vs"
  by (simp_all add: status_is_stale_def book_is_stale_def leg_is_skewed_def reference_is_warm_def cooldown_deadline_def
    rolling_depth_reference_def rolling_spread_reference_def venue_anchor_def no_anchor_reason_def leg_in_zone_def
    bid_leg_price_def ask_leg_price_def event_smoother_update_def Let_def cong: if_cong option.case_cong)
   (induction vs; simp)

lemma unguarded_steps [simp]:
  "all_matched (c\<lparr>sc_guard_enabled := b\<rparr>) legs vs = all_matched c legs vs"
  "effective_market_status ob st (c\<lparr>sc_guard_enabled := b\<rparr>) = effective_market_status ob st c"
  "references_warm st (c\<lparr>sc_guard_enabled := b\<rparr>) = references_warm st c"
  "venue_event_reason ob st (c\<lparr>sc_guard_enabled := b\<rparr>) = venue_event_reason ob st c"
  "smoother_step hp ob st (c\<lparr>sc_guard_enabled := b\<rparr>) m = smoother_step hp ob st c m"
  "admit_venue_updates hp ob st (c\<lparr>sc_guard_enabled := b\<rparr>) = admit_venue_updates hp ob st c"
  "apply_reset ob st (c\<lparr>sc_guard_enabled := b\<rparr>) r = apply_reset ob st c r"
  "apply_event ob st (c\<lparr>sc_guard_enabled := b\<rparr>) = apply_event ob st c"
  "apply_data_degraded ob st (c\<lparr>sc_guard_enabled := b\<rparr>) = apply_data_degraded ob st c"
  "leg_price ob (c\<lparr>sc_guard_enabled := b\<rparr>) = leg_price ob c"
  "leg_if_inside leg p t (c\<lparr>sc_guard_enabled := b\<rparr>) = leg_if_inside leg p t c"
  apply (induction legs arbitrary: vs; simp cong: option.case_cong)
  by (simp_all add: effective_market_status_def references_warm_def venue_event_reason_def smoother_step_def admit_venue_updates_def
    apply_reset_def apply_event_def apply_data_degraded_def leg_price_def leg_if_inside_def fun_eq_iff Let_def
    cong: if_cong option.case_cong)

lemma unguarded_quotes [simp]:
  "status_watermark ob st (c\<lparr>sc_guard_enabled := b\<rparr>) = status_watermark ob st c"
  "quote_blocker ob st (c\<lparr>sc_guard_enabled := b\<rparr>) = quote_blocker ob st c"
  "target_is_unchanged d ob (c\<lparr>sc_guard_enabled := b\<rparr>) = target_is_unchanged d ob c"
  "single_leg_quote ob (c\<lparr>sc_guard_enabled := b\<rparr>) anchor leg k r = single_leg_quote ob c anchor leg k r"
  "two_sided_quote ob (c\<lparr>sc_guard_enabled := b\<rparr>) anchor = two_sided_quote ob c anchor"
  by (simp_all add: status_watermark_def quote_blocker_def status_stream_reason_def target_is_unchanged_def single_leg_quote_def two_sided_quote_def
    cong: if_cong option.case_cong)

text \<open>What reads a state without what the guard keeps in it.\<close>

definition with_guard ::
  "(int \<times> pyfloat) list \<times> pyfloat option \<times> int option \<times> int \<times> guard_state_watermark option \<Rightarrow> strategy_state \<Rightarrow> strategy_state" where
  "with_guard g st = (case g of (samples, ewma, ts, n, w) \<Rightarrow>
     st\<lparr>sx_basis_samples := samples, sx_basis_ewma_value := ewma, sx_basis_ewma_ts := ts, sx_basis_sample_count := n, sx_guard_watermark := w\<rparr>)"

lemma with_guard_reads [simp]:
  "references_warm (with_guard g st) c = references_warm st c"
  "venue_event_reason ob (with_guard g st) c = venue_event_reason ob st c"
  "effective_market_status ob (with_guard g st) c = effective_market_status ob st c"
  "smoother_step hp ob (with_guard g st) c m = smoother_step hp ob st c m"
  by (simp_all add: with_guard_def references_warm_def venue_event_reason_def effective_market_status_def status_regressed_def
    smoother_step_def split: prod.split cong: if_cong option.case_cong)

lemma with_guard_blocker [simp]: "quote_blocker ob (with_guard g st) c = quote_blocker ob st c"
  by (simp add: quote_blocker_def status_stream_reason_def cong: option.case_cong)

lemma with_guard_updates: "admit_venue_updates hp ob st c = Inr s \<Longrightarrow> \<exists>s'. admit_venue_updates hp ob (with_guard g st) c = Inr s'"
  by (auto simp: admit_venue_updates_def Let_def elim!: rbind_InrE split: option.splits)

lemma accept_unguarded:
  "\<exists>g. strategy_accept ob st (c\<lparr>sc_guard_enabled := False\<rparr>) False False = with_guard g (strategy_accept ob st c False b)"
  by (rule exI [of _ "(sx_basis_samples st, sx_basis_ewma_value st, sx_basis_ewma_ts st, sx_basis_sample_count st, None)"])
    (cases st, auto simp: strategy_accept_def with_guard_def clear_basis_def Let_def split: prod.split)

lemma cold_disposition:
  assumes "\<not> basis_is_warm base c" and "quote_disposition hp ob base c = Inr d"
  shows "quote_disposition hp ob base' (c\<lparr>sc_guard_enabled := False\<rparr>) = Inr d"
proof -
  have "inventory_reduce hp ob base' (c\<lparr>sc_guard_enabled := False\<rparr>) anchor n = Inr d"
    if "inventory_reduce hp ob base c anchor n = Inr d" for anchor n
    using that assms(1) by (auto simp: inventory_reduce_def toxic_leg_def guard_residual_def Let_def elim!: rbind_InrE split: if_split_asm)
  with assms show ?thesis by (auto simp: quote_disposition_def Let_def split: option.split_asm if_split_asm)
qed

lemma cold_healthy:
  assumes "\<not> basis_is_warm base c" and "apply_healthy hp ob base c row = Inr (d, st1)"
    and "row' = row \<or> row = row_F \<and> row' = (if references_warm base c then row_H else row_W)"
  shows "\<exists>st2. apply_healthy hp ob (with_guard g base) (c\<lparr>sc_guard_enabled := False\<rparr>) row' = Inr (d, st2)"
proof -
  obtain s where "admit_venue_updates hp ob base c = Inr s" using healthy_next [OF assms(2)] by blast
  from with_guard_updates [OF this] obtain s' where "admit_venue_updates hp ob (with_guard g base) c = Inr s'" by blast
  with assms(2,3) cold_disposition [OF assms(1)] show ?thesis
    by (auto simp: apply_healthy_def Let_def elim!: rbind_InrE split: option.split_asm if_split_asm)
qed

lemma accept_cold:
  "sx_basis_sample_count st < sc_basis_min_samples c \<Longrightarrow> 0 < sc_basis_min_samples c \<Longrightarrow>
   \<not> basis_is_warm (strategy_accept ob st c False b) c"
  by (auto simp: strategy_accept_def basis_is_warm_def clear_basis_def Let_def split: prod.split)

lemma unguarded_row:
  "classify_row ob st c = Inr row \<Longrightarrow> \<exists>row'. classify_row ob st (c\<lparr>sc_guard_enabled := False\<rparr>) = Inr row'
     \<and> (row' = row \<or> row = row_F \<and> row' = (if references_warm st c then row_H else row_W))"
  by (auto simp: classify_row_def elim!: rbind_InrE split: if_split_asm)

lemma cold_decides:
  assumes "decide_raw hp ob st c = Inr (d, st1)" and "0 \<le> guard_epoch_delta ob st c"
    and "0 < sc_basis_min_samples c" and "sx_basis_sample_count st < sc_basis_min_samples c"
  shows "\<exists>st2. decide_raw hp ob st (c\<lparr>sc_guard_enabled := False\<rparr>) = Inr (d, st2)"
proof (cases "frame_accepted ob st c")
  case False
  with assms(1,2) show ?thesis
    by (auto simp: decide_raw_def frame_accepted_def apply_reset_def Let_def split: option.splits if_split_asm)
next
  case in_order: True
  let ?c = "c\<lparr>sc_guard_enabled := False\<rparr>" and ?base = "strategy_accept ob st c False (0 < guard_epoch_delta ob st c)"
  have in_order': "frame_accepted ob st ?c" using in_order by (simp add: frame_accepted_def)
  obtain g where g: "strategy_accept ob st ?c False False = with_guard g ?base" using accept_unguarded by blast
  from assms(1) obtain row where row: "classify_row ob st c = Inr row" by (auto simp: decide_in_order [OF in_order] Let_def elim!: rbind_InrE)
  obtain row' where row': "classify_row ob st ?c = Inr row'"
    and rel: "row' = row \<or> row = row_F \<and> row' = (if references_warm ?base c then row_H else row_W)"
    using unguarded_row [OF row] by auto
  have cold: "\<exists>st2. apply_healthy hp ob (with_guard g ?base) ?c row' = Inr (d, st2)"
    if "apply_healthy hp ob ?base c row = Inr (d, st1)"
    using cold_healthy [OF accept_cold [OF assms(4,3)] that rel] .
  show ?thesis
  proof (cases "row \<in> {row_F, row_W, row_H}")
    case True
    with rel have "row' \<in> {row_F, row_W, row_H}" by auto
    with True assms(1) cold show ?thesis
      by (auto simp: decide_in_order [OF in_order] decide_in_order [OF in_order'] row row' g Let_def)
  next
    case False
    with rel have "row' = row" by auto
    with False assms(1) show ?thesis
      by (cases row) (auto simp: decide_in_order [OF in_order] decide_in_order [OF in_order'] row row' g apply_reset_def
        apply_event_def apply_data_degraded_def apply_cooldown_def Let_def elim!: rbind_InrE)
  qed
qed

text \<open>Without a fair value the guarded arm raises only what the baseline arm raises.\<close>

lemma with_guard_updates_Inl: "admit_venue_updates hp ob st c = Inl e \<Longrightarrow> admit_venue_updates hp ob (with_guard g st) c = Inl e"
  by (auto simp: admit_venue_updates_def Let_def rbind_Inl_iff split: option.splits)

lemma fairless_disposition:
  assumes "ob_guard_fv ob = None" and "\<not> basis_is_warm base c"
  shows "quote_disposition hp ob base' (c\<lparr>sc_guard_enabled := False\<rparr>) = quote_disposition hp ob base c"
  using assms by (simp add: quote_disposition_def inventory_reduce_def toxic_leg_def guard_residual_def guard_fv_block_reason_def
    Let_def cong: if_cong option.case_cong)

lemma fairless_healthy:
  assumes "ob_guard_fv ob = None" and "\<not> basis_is_warm base c" and "apply_healthy hp ob base c row = Inl e"
  shows "apply_healthy hp ob (with_guard g base) (c\<lparr>sc_guard_enabled := False\<rparr>) row = Inl e"
proof (cases "admit_venue_updates hp ob base c")
  case (Inl e')
  with assms(3) with_guard_updates_Inl [OF Inl] show ?thesis by (simp add: apply_healthy_def)
next
  case (Inr s)
  from with_guard_updates [OF Inr] obtain s' where s': "admit_venue_updates hp ob (with_guard g base) c = Inr s'" by blast
  have basis: "admit_basis_updates hp ob b c' t = Inr t" for b c' t
    using assms(1) by (auto simp: admit_basis_updates_def split: bool.split)
  from assms(3) show ?thesis
    by (simp add: apply_healthy_def Inr s' basis Let_def fairless_disposition [OF assms(1,2)] split: if_split_asm option.split_asm)
      (auto simp: rbind_Inl_iff split: if_split_asm)
qed

lemma fairless_raises:
  assumes "ob_guard_fv ob = None" and "decide_raw hp ob st c = Inl e"
    and "0 < sc_basis_min_samples c" and "sx_basis_sample_count st < sc_basis_min_samples c"
  shows "decide_raw hp ob st (c\<lparr>sc_guard_enabled := False\<rparr>) = Inl e"
proof -
  let ?c = "c\<lparr>sc_guard_enabled := False\<rparr>" and ?base = "strategy_accept ob st c False (0 < guard_epoch_delta ob st c)"
  have delta [simp]: "guard_epoch_delta ob st c = 0" "guard_epoch_delta ob st ?c = 0"
    using assms(1) by (simp_all add: guard_epoch_delta_def)
  have in_order: "frame_accepted ob st c"
    using assms(2) by (auto simp: decide_raw_def frame_accepted_def Let_def split: option.splits if_split_asm)
  then have in_order': "frame_accepted ob st ?c" by (simp add: frame_accepted_def)
  obtain g where g: "strategy_accept ob st ?c False False = with_guard g ?base" using accept_unguarded by blast
  have row: "classify_row ob st ?c = classify_row ob st c" by (simp add: classify_row_def)
  note healthy = fairless_healthy [OF assms(1) accept_cold [OF assms(4,3)], of _ _ False]
  show ?thesis
  proof (cases "classify_row ob st c")
    case (Inl e')
    with assms(2) row show ?thesis by (simp add: decide_in_order [OF in_order] decide_in_order [OF in_order'])
  next
    case (Inr r)
    with assms(2) row healthy g show ?thesis
      by (cases r) (auto simp: decide_in_order [OF in_order] decide_in_order [OF in_order'] apply_event_def Let_def rbind_Inl_iff)
  qed
qed

text \<open>
  C40: a guard that has not warmed up changes no decision, one case apart. While the basis has too few samples,
  on a frame that is not older than the last one and whose fair value comes from an older source generation than
  the watermark, the guarded arm holds with epoch_regression and leaves its state alone. On every other
  frame, whatever it decides is what the baseline arm decides on the same observation and state, and it raises only
  where the baseline arm raises the same exception or where a fair value is there to be read.
\<close>

theorem cold_guard_decides_as_baseline:
  assumes "0 < sc_basis_min_samples c" and "sx_basis_sample_count st < sc_basis_min_samples c"
  shows "if sx_last_book_source_epoch st \<noteq> None \<and> \<not> (\<exists>ts. sx_last_as_of_ts st = Some ts \<and> ob_as_of_ts ob < ts)
            \<and> guard_epoch_delta ob st c < 0
         then decide_raw hp ob st c = Inr (decision_of HOLD [sr_epoch_regression], st)
         else case decide_raw hp ob st c of
             Inr (d, st1) \<Rightarrow> \<exists>st2. decide_raw hp ob st (c\<lparr>sc_guard_enabled := False\<rparr>) = Inr (d, st2)
           | Inl e \<Rightarrow> decide_raw hp ob st (c\<lparr>sc_guard_enabled := False\<rparr>) = Inl e \<or> ob_guard_fv ob \<noteq> None"
proof (cases "guard_epoch_delta ob st c < 0")
  case True
  then show ?thesis by (cases "sx_last_book_source_epoch st") (auto simp: decide_raw_def Let_def split: option.split)
next
  case False
  then show ?thesis using cold_decides [of hp ob st c, OF _ _ assms] fairless_raises [of ob hp st c, OF _ _ assms]
    by (auto split: sum.split prod.split)
qed

theorem cold_guard_decides_as_baseline_witness:
  "\<exists>d st'. decide_raw Inr (demo_frame 3 bk_ok) demo_warm (demo_maker\<lparr>sc_guard_enabled := False\<rparr>) = Inr (d, st') \<and> places d"
proof -
  obtain d st' where "decide_raw Inr (demo_frame 3 bk_ok) demo_warm demo_maker = Inr (d, st')" "places d"
    using demo_raw by blast
  moreover have "0 < sc_basis_min_samples demo_maker" "sx_basis_sample_count demo_warm < sc_basis_min_samples demo_maker"
    by (simp_all add: demo_strategy_defs)
  ultimately show ?thesis
    using cold_guard_decides_as_baseline [of demo_maker demo_warm "demo_frame 3 bk_ok" Inr] demo_order(2) by auto
qed

end
