(* ===== verification/Strategy_Limits.thy ===== *)
theory Strategy_Limits
  imports Strategy_Guard
begin

text \<open>
  The limits of the strategy: the memory of its state is bounded by the configuration, a reference window
  shorter than the warm-up it is asked for silences it, and a tick near the bottom of the float range makes
  it raise.
\<close>

section \<open>Bounded memory\<close>

definition bounded_state :: "strategy_config \<Rightarrow> strategy_state \<Rightarrow> bool" where
  "bounded_state c st \<longleftrightarrow> int (length (sx_spread_ref_samples st)) \<le> sc_rolling_spread_window c
     \<and> int (length (sx_depth_ref_samples st)) \<le> sc_rolling_depth_window c
     \<and> int (length (sx_basis_samples st)) \<le> sc_basis_window c"

definition windows_positive :: "strategy_config \<Rightarrow> bool" where
  "windows_positive c \<longleftrightarrow> 1 \<le> sc_rolling_spread_window c \<and> 1 \<le> sc_rolling_depth_window c \<and> 1 \<le> sc_basis_window c"

lemma windows_positive_valid: "mk_strategy_config c = Inr c' \<Longrightarrow> windows_positive c"
  by (simp add: mk_strategy_config_def knobs_in_range_def windows_positive_def split: if_split_asm)

lemma tail_window_length: "1 \<le> w \<Longrightarrow> int (length (tail_window w xs)) \<le> w"
  by (simp add: tail_window_def)

lemma bounded_fresh: "windows_positive c \<Longrightarrow> bounded_state c fresh_strategy_state"
  by (simp add: windows_positive_def bounded_state_def fresh_strategy_state_def)

lemma bounded_accept:
  "windows_positive c \<Longrightarrow> bounded_state c st \<Longrightarrow> bounded_state c (strategy_accept ob st c f b)"
  by (auto simp: windows_positive_def bounded_state_def strategy_accept_def clear_venue_def clear_basis_def Let_def split: prod.split)

lemma bounded_venue:
  "windows_positive c \<Longrightarrow> bounded_state c st \<Longrightarrow> admit_venue_updates hp ob st c = Inr st' \<Longrightarrow> bounded_state c st'"
  by (auto simp: windows_positive_def bounded_state_def admit_venue_updates_def Let_def tail_window_length
    elim!: rbind_InrE split: option.split_asm)

lemma bounded_basis:
  "windows_positive c \<Longrightarrow> bounded_state c st \<Longrightarrow> admit_basis_updates hp ob base c st = Inr st' \<Longrightarrow> bounded_state c st'"
  by (auto simp: windows_positive_def bounded_state_def admit_basis_updates_def fold_basis_def Let_def tail_window_length
    elim!: rbind_InrE split: option.split_asm if_split_asm bool.split_asm prod.split_asm)

lemma bounded_healthy:
  assumes "windows_positive c" and "bounded_state c base" and "apply_healthy hp ob base c row = Inr (d, st')"
  shows "bounded_state c st'"
proof -
  obtain s1 s2 where "admit_venue_updates hp ob base c = Inr s1" "admit_basis_updates hp ob base c s1 = Inr s2"
    and st': "st' = s2\<lparr>sx_event_cooldown_until_ts := None\<rparr>" using healthy_next [OF assms(3)] by blast
  with assms(1,2) have "bounded_state c s2" using bounded_venue bounded_basis by blast
  then show ?thesis by (simp add: st' bounded_state_def)
qed

lemma bounded_raw:
  assumes "windows_positive c" and "bounded_state c st" and "decide_raw hp ob st c = Inr (d, st')"
  shows "bounded_state c st'"
proof -
  note accepted = bounded_accept [OF assms(1,2)]
  have cooled: "bounded_state c (s\<lparr>sx_event_cooldown_until_ts := x\<rparr>) = bounded_state c s" for s x by (simp add: bounded_state_def)
  have reset: "bounded_state c (snd (apply_reset ob base c r))" for base r
    using assms(1) by (simp add: apply_reset_def bounded_state_def windows_positive_def Let_def)
  show ?thesis
  proof (cases "frame_accepted ob st c")
    case True
    from assms(3) show ?thesis
      using bounded_healthy [OF assms(1) accepted] accepted reset
      by (auto simp: decide_in_order [OF True] Let_def apply_event_def apply_data_degraded_def apply_cooldown_def cooled
        elim!: rbind_InrE split: strategy_row.split_asm) (metis snd_conv)+
  next
    case False
    with assms(2,3) accepted reset show ?thesis
      by (auto simp: decide_raw_def frame_accepted_def Let_def split: option.split_asm if_split_asm) (metis snd_conv)+
  qed
qed

text \<open>The states a run goes through.\<close>

inductive strategy_reaches ::
  "(pyfloat \<Rightarrow> pyfloat result) \<Rightarrow> strategy_config \<Rightarrow> strategy_state \<Rightarrow> bool" for hp c where
  reaches_fresh: "strategy_reaches hp c fresh_strategy_state"
| reaches_step: "strategy_reaches hp c st \<Longrightarrow> decide_raw hp ob st c = Inr (d, st') \<Longrightarrow> strategy_reaches hp c st'"

lemma reached_bounded: "strategy_reaches hp c st \<Longrightarrow> windows_positive c \<Longrightarrow> bounded_state c st"
  by (induction rule: strategy_reaches.induct) (auto intro: bounded_fresh bounded_raw)

text \<open>
  The state of the market maker does not grow: in every state reached from the fresh one under a configuration
  that passes its checks, the spread and depth references and the basis samples fit their windows.
\<close>

theorem strategy_memory_bounded:
  assumes "mk_strategy_config c = Inr c'" and "strategy_reaches hp c st"
  shows "bounded_state c st"
  using reached_bounded [OF assms(2)] windows_positive_valid [OF assms(1)] .

lemma demo_maker_valid: "mk_strategy_config demo_maker = Inr demo_maker"
  by (simp add: mk_strategy_config_def knobs_in_range_def zones_valid_def demo_maker_def)

lemma demo_reaches: "strategy_reaches hp c (strategy_accept (demo_frame 1 bk_ok) fresh_strategy_state c True False)"
  by (rule reaches_step [OF reaches_fresh, where ob = "demo_frame 1 bk_ok"]) (simp add: decide_raw_def fresh_strategy_state_def)

theorem strategy_memory_bounded_witness:
  "bounded_state demo_maker (strategy_accept (demo_frame 1 bk_ok) fresh_strategy_state demo_maker True False)"
  using strategy_memory_bounded [OF demo_maker_valid demo_reaches] .

section \<open>A configuration that never quotes\<close>

text \<open>
  The configuration's checks do not compare the reference windows with the number of samples that makes a
  reference warm: a configuration whose spread window is shorter than its warm-up passes them, and never
  places an order, whatever it observes.
\<close>

theorem short_window_never_quotes:
  assumes "mk_strategy_config c = Inr c'" and "strategy_reaches hp c st"
    and "sc_rolling_spread_window c < sc_ref_min_samples c"
    and "strategy_decide hp cd ob st c sid = Inr (d, st')"
  shows "\<not> places d"
proof
  assume "places d"
  with assms(4) obtain raw where "decide_raw hp ob st c = Inr (raw, st')" "places raw" by (rule decide_places)
  from raw_quote [OF this] have "references_warm st c" by (simp add: book_healthy_def)
  with reached_bounded [OF assms(2) windows_positive_valid [OF assms(1)]] assms(3) show False
    by (simp add: references_warm_def reference_is_warm_def bounded_state_def)
qed

theorem short_window_never_quotes_witness:
  "case strategy_decide Inr demo_codec (demo_frame 1 bk_ok) fresh_strategy_state (demo_maker\<lparr>sc_ref_min_samples := 6\<rparr>) ''s'' of
     Inl e \<Rightarrow> False | Inr (d, st') \<Rightarrow> \<not> places d"
proof -
  have "mk_strategy_config (demo_maker\<lparr>sc_ref_min_samples := 6\<rparr>) = Inr (demo_maker\<lparr>sc_ref_min_samples := 6\<rparr>)"
    by (simp add: mk_strategy_config_def knobs_in_range_def zones_valid_def demo_maker_def)
  note never = short_window_never_quotes [OF this reaches_fresh]
  obtain d st' where d: "strategy_decide Inr demo_codec (demo_frame 1 bk_ok) fresh_strategy_state (demo_maker\<lparr>sc_ref_min_samples := 6\<rparr>) ''s'' = Inr (d, st')"
    by (simp add: strategy_decide_def decide_raw_def fresh_strategy_state_def rbind_def)
  from never [OF _ d] show ?thesis by (simp add: d) (simp add: demo_maker_def)
qed

section \<open>A tick that raises\<close>

definition least_tick :: pyfloat where
  "least_tick = Fin (pow2 (- 1074))"

abbreviation least_frame :: strategy_observation where
  "least_frame \<equiv> demo_frame_at least_tick 3 bk_ok"

lemma least_bid: "bid_leg_price (Fin (1/2)) (Fin (31/64)) least_tick demo_maker = Inl OverflowError"
proof -
  have "pow2 1024 \<le> 7 / 16 / pow2 (- 1074)" using pow2_mono [of 1024 1070] pow2_add [of 4 1070] by (simp add: pow2_def)
  then have "fl_round (7 / 16 / pow2 (- 1074)) = PInf" by (rule fl_round_overflow)
  then show ?thesis
    by (simp add: bid_leg_price_def floor_to_tick_def to_tick_def fl_div_def least_tick_def py_round_dp_def int_of_float_def
      py_min_def fl_sub_def demo_maker_def demo_rounds rbind_def not_le)
qed

text \<open>
  A tick is checked to be finite and positive, which is said to keep the decision total. It does not: at the
  least positive float, dividing a price by the tick overflows to infinity, and a market maker about to quote
  raises \<open>OverflowError\<close> on an observation its checks accepted.
\<close>

theorem least_tick_raises:
  "mk_strategy_observation least_frame = Inr least_frame
   \<and> strategy_decide hp cd least_frame demo_warm demo_maker sid = Inl OverflowError"
proof
  show "mk_strategy_observation least_frame = Inr least_frame"
    by (simp add: mk_strategy_observation_def demo_frame_at_def least_tick_def reject_non_finite_optional_def reject_non_finite_def
      status_sentinel_iff_unknown_def future_dated_def rbind_def not_le)
  obtain s1 where "admit_venue_updates hp least_frame (strategy_accept least_frame demo_warm demo_maker False False) demo_maker = Inr s1"
    using demo_venue_updates by blast
  moreover have "two_sided_quote least_frame demo_maker (Fin (1/2)) = Inl OverflowError"
    using least_bid by (simp add: two_sided_quote_def demo_frame_at_def rbind_def)
  ultimately show "strategy_decide hp cd least_frame demo_warm demo_maker sid = Inl OverflowError"
    by (simp add: strategy_decide_def decide_in_order demo_order demo_row apply_healthy_def demo_blocker demo_basis demo_quote Let_def rbind_def)
qed

end
