(* ===== verification/Spec2Isabelle.thy ===== *)
theory Spec2Isabelle
  imports Competition Desk Dust_Quotes Strategy_Limits
begin

text \<open>
  Verification of the Veridex agent arena (\<open>src/veridex/\<close>).

  Veridex lets trading agents compete on sports markets. A \<^bold>\<open>run\<close> feeds market ticks to the agents, records
  their answers as evidence, seals the evidence under a hash and scores every decision against the closing
  price. A \<^bold>\<open>competition\<close> wraps a run with a roster, a stored event log, spectators and, after the seal, an
  execution lane that may turn scored decisions into orders. The \<^bold>\<open>dust desk\<close> is the second way to the
  venue: an agent proposes an order through a facade, and a runner places small orders under a manifest,
  guarded by a policy gate, loss ledgers, an atomic reservation, an operator interlock and an emergency stop.
  The \<^bold>\<open>market maker\<close> is a pure decision function that says which quotes such a runner should rest.

  \<^bold>\<open>Theories and the code they model\<close>

  Foundations:
  \<^item> \<open>Prelude\<close>: results (\<open>rbind\<close>, exceptions as the left injection of a sum), effects on a state
    (\<open>eff\<close>: an exception keeps the state reached so far), dictionaries as association lists, and the rules by
    which stateful code keeps an invariant (\<open>keeps_intros\<close>).
  \<^item> \<open>PyFloat\<close>: binary64 with rounding to even, infinities and NaN, over exact rationals. \<open>PyText\<close>,
    \<open>PyTime\<close>, \<open>PyVal\<close>: strings, UTC days of a millisecond clock, and dynamically typed values.

  Risk and policy (\<open>policy/\<close>, \<open>dust_execution/\<close>):
  \<^item> \<open>Policy\<close>: \<open>policy/envelope.py\<close>, \<open>engine.py\<close>, \<open>gate.py\<close>, \<open>circuit_breaker.py\<close>.
  \<^item> \<open>Risk\<close>: \<open>risk.py\<close>, \<open>ledger.py\<close>, \<open>manifest.py\<close>. \<open>Session_State\<close>: \<open>session_state.py\<close>.
    \<open>Emergency\<close>: \<open>emergency.py\<close>.
  \<^item> \<open>Noncrossing\<close>: \<open>noncrossing.py\<close>, \<open>feesnapshot.py\<close>, \<open>resting_order.py\<close>, \<open>sizing.py\<close>.
    \<open>Reconcile\<close>: \<open>reconcile.py\<close>.

  Runs and their evidence:
  \<^item> \<open>Law\<close>, \<open>Scoring\<close>: the scoring law, metrics and leaderboards. \<open>Run\<close>: orchestration, sealing and
    windowed scoring. \<open>Verifier\<close>: Merkle roots, manifest, the fail-closed report. \<open>Event_Log\<close>: the
    projection of a sealed run into the public log.

  The dust desk:
  \<^item> \<open>Custody\<close>: \<open>wallet_binding.py\<close> and the provisioning record. \<open>Interlock\<close>: the operator interlock and
    its receipts. \<open>Arming\<close>: the arming checks and the signer seam.
  \<^item> \<open>Dust_Runner\<close>: \<open>runner.py\<close>, the pass over the token universe. \<open>Dust_Monitor\<close>, \<open>Dust_Quotes\<close>,
    \<open>Dust_Events\<close>, \<open>Dust_Acks\<close>: what its writes, the quotes behind them, its events and its
    acknowledgements satisfy.
  \<^item> \<open>Facade\<close>: \<open>facade.py\<close>, the whole proposal. \<open>Facade_Books\<close>: the facade over any provider and world.
    \<open>Desk\<close>: facade, runner and session-state provider put together.

  Competitions:
  \<^item> \<open>Store\<close>: the in-memory store and its records. \<open>Execution_Record\<close>, \<open>Venue\<close>: an order's life, the venue
    contract and the in-memory venue. \<open>Proposals\<close>, \<open>Executor\<close>: candidates of a sealed run and the execution
    lane; \<open>Lane_Events\<close>, \<open>Lane_Orders\<close>: what the lane leaves behind and what it sends. \<open>Competition\<close>:
    registration and start.

  The market maker (\<open>mm_strategy/\<close>):
  \<^item> \<open>Strategy_Types\<close>: \<open>contracts.py\<close>, \<open>config.py\<close>. \<open>Strategy_Core\<close>: \<open>basis.py\<close>, \<open>core.py\<close>.
    \<open>Strategy_Safety\<close>, \<open>Strategy_Guard\<close>, \<open>Strategy_Limits\<close>: its guarantees, the guard against the baseline,
    and its limits.

  \<^bold>\<open>How state and operations correspond\<close>

  A class or a pydantic model is a record with one field per attribute; an enumeration or a literal type is a
  datatype; a method is a function from the record to the updated record, or to a result that carries the
  exception it raises. Validators are \<open>mk_\<close> functions that return the record or \<open>ValueError\<close>. A handler that
  calls the outside world is an \<open>eff\<close> over a state with a \<^emph>\<open>world\<close> component of any type: the venue adapter,
  the write port, the signer, the quote source, the spectators and the event sinks act on it, may answer
  anything and may raise anywhere, and the theorems hold for all of them.

  Concurrent callers are sequences of steps. The session-state provider and the store hold a lock, so a method
  is one step. \<open>provider_step\<close> has the atomic admission and the settlement, which the facade calls, and the
  ledger append; the standalone \<open>reserve\<close>, which nothing on the money path calls, is modelled but is not a step,
  and the invariant of one unresolved attempt also asks that settlements keep resolved rows resolved.
  \<open>store_step\<close> has the methods of the store that write, called as the services call them. The emergency stop
  suspends at its venue call, so its operations are split there (\<open>sweep_begin\<close> and \<open>sweep_finish\<close>,
  \<open>re_arm_begin\<close> and
  \<open>re_arm_finish\<close>) and \<open>controller_run\<close> interleaves the segments of any number of tasks.

  \<^bold>\<open>What is shown\<close>

  \<^item> Admission and loss: the atomic reservation grants exactly when it should, the order caps hold along every
    interleaving of admissions, settlements and appends, and so does one unresolved attempt per session when
    no settlement reopens a resolved row, and restart reconstruction gives the fee-inclusive
    sums (\<open>Risk\<close>, \<open>Session_State\<close>).
  \<^item> Stopping: once a stop has started nothing is admitted until a re-arm completes; a stop that arrives during
    a re-arm is lost, which is shown too (\<open>Emergency\<close>).
  \<^item> Orders: self-cross and complement-lock guards are exact and return, uncertain submits are resolved only on
    venue evidence and the polling ends (\<open>Noncrossing\<close>, \<open>Reconcile\<close>).
  \<^item> The desk: every write of a dust run was admitted by its arming, intent, authorization, loss-cap and
    non-crossing gates and follows a quote that was actionable at the clock reading after it, the orders stay
    within every cap, a dry run places nothing, a proposal that reached the wire stays booked even when it ends by an exception, and neither a
    retry nor another proposal fires while it is unresolved (\<open>Dust_Monitor\<close>, \<open>Dust_Quotes\<close>,
    \<open>Dust_Events\<close>, \<open>Desk\<close>).
  \<^item> Evidence: the live stream is the sealed evidence, every score row is the law's, a sealed run verifies from
    itself, an anchored manifest pins the run, the public log is the projection of the sealed run
    (\<open>Run\<close>, \<open>Verifier\<close>, \<open>Event_Log\<close>, \<open>Scoring\<close>).
  \<^item> Competitions: the store's invariant, forward-only claims, one start, the finished log, no venue call
    without arming, lane orders that follow a quote clearing both gates and that are bounded (\<open>Store\<close>, \<open>Competition\<close>, \<open>Lane_Orders\<close>, \<open>Lane_Events\<close>).
  \<^item> The market maker: each plan fits its kind, quotes need a clear market, events are followed by the dwell, a
    cold guard decides as the baseline except that it holds on an older fair-value generation, memory is bounded (\<open>Strategy_Safety\<close>, \<open>Strategy_Guard\<close>,
    \<open>Strategy_Limits\<close>).

  \<^bold>\<open>Interfaces\<close>

  A locale states what a client relies on, and is interpreted on the model's definitions:
  \<open>session_ledger\<close> (the row ledger and the provider), \<open>loss_cap_surface\<close> (gate, accumulator, admission),
  \<open>monotone_cell\<close> and \<open>cas_cell\<close> (leases, deployment claims, logs, competition claims), \<open>order_monitor\<close>,
  its extension \<open>failing_venue\<close> and \<open>call_monitor\<close>, which gives an \<open>order_monitor\<close> (the lane against a watched venue), \<open>arena_invariant\<close> (a start keeps what its parts keep),
  \<open>receipt_store\<close> (the operator interlock), \<open>wire_monitor\<close> (the writes of a dust run) and
  \<open>step_monitor\<close>, which gives one (its writes with its quotes and clock readings), \<open>kept_world\<close> and
  \<open>booked_desk\<close>, which extends it (the facade over any provider).

  \<^bold>\<open>Parameters and hypotheses\<close>

  JSON text and SHA-256 are fields of a \<open>codec\<close>. What is assumed of them is named: \<open>json_separates\<close> and
  \<open>dumps_separates\<close> (equal texts come from values that JSON does not tell apart), \<open>json_reads_objects\<close> (reading
  a written object gives its integer fields back), and equality of hashes only for texts a theorem names. The
  power \<open>0.5 ** q\<close> of the C library is the function \<open>half_power\<close>. Clocks and fresh identifiers are arguments.
  Each such hypothesis is met by a concrete codec in a witness. Strings are lists of bytes, and
  \<open>str.strip\<close> and \<open>str.lower\<close> are those of single-byte characters.

  \<^bold>\<open>Loops and bounds\<close>

  No fuel is used. Loops over data are structural; \<open>merkle_loop\<close> and \<open>status_poll\<close> have termination proofs,
  the latter giving the bound of twenty-one status queries. \<open>lock_walk\<close> and \<open>poll_loop\<close> are partial functions,
  proved to return: the walk consumes a positive float size at each step and those cannot shrink forever, and
  the polling window bounds the queries.

  \<^bold>\<open>Not modelled\<close>

  Network clients, transaction signing and wallet provisioning (\<open>venues/\<close>, \<open>privy_provisioning.py\<close>) speak to
  services whose behaviour is not in the repository; the Postgres store is SQL. The HTTP API and deployment
  are glue over the modelled operations; ingest, capture and the live recorder are stream input; the import
  audit inspects the repository's own files. The assembler that builds the market maker's observations, its
  tapes, the offline maker evaluation, backtests and the signal strategies of the sample agents place no
  orders themselves, and the modelled parts treat their outputs as arbitrary arguments. The web front end is
  in another language. Log lines and wall-clock stamps of telemetry are left out of the handlers that write
  them, since no operation reads them back.
\<close>

end
